(* ===== verification/Prelude.thy ===== *)
theory Prelude
  imports Main "HOL-Library.Word" "HOL-Library.Monad_Syntax"
begin

text \<open>
  What the component theories share: names for the C integer types, the random access memory
  that C buffers live in, power-of-two alignment on machine words, and a few facts on lists and
  on the option monad.

  Conventions.  A C integer whose wrap-around matters is a word of its width (\<open>u8\<close>,
  \<open>u32\<close>, \<open>u64\<close>); status codes and small signed counters are \<open>int\<close>.  A pointer
  into memory is a natural number, the memory is a function from addresses to bytes.  A C function that
  changes state takes the state and returns \<open>Some (result, state)\<close>; \<open>None\<close> means that
  a loop of the source does not end.
\<close>

type_synonym u8 = "8 word"
type_synonym u16 = "16 word"
type_synonym u32 = "32 word"
type_synonym u64 = "64 word"
type_synonym memory = "nat \<Rightarrow> u8"

unbundle bit_operations_syntax

named_theorems align_simps \<open>reading masked addresses as natural numbers\<close>
named_theorems mem_simps \<open>loads from an updated memory\<close>

section \<open>Memory\<close>

definition load_bytes :: "memory \<Rightarrow> nat \<Rightarrow> nat \<Rightarrow> u8 list" where
  "load_bytes mm a n = map mm [a ..< a + n]"

definition store_bytes :: "memory \<Rightarrow> nat \<Rightarrow> u8 list \<Rightarrow> memory" where
  "store_bytes mm a bs = (\<lambda>x. if a \<le> x \<and> x < a + length bs then bs ! (x - a) else mm x)"

definition fill_bytes :: "memory \<Rightarrow> nat \<Rightarrow> u8 \<Rightarrow> nat \<Rightarrow> memory" where
  "fill_bytes mm a b n = store_bytes mm a (replicate n b)"

lemma length_load_bytes [simp]: "length (load_bytes mm a n) = n"
  by (simp add: load_bytes_def)

lemma load_bytes_0 [simp]: "load_bytes mm a 0 = []"
  by (simp add: load_bytes_def)

lemma nth_load_bytes [mem_simps]: "i < n \<Longrightarrow> load_bytes mm a n ! i = mm (a + i)"
  by (simp add: load_bytes_def)

lemma store_bytes_Nil [simp]: "store_bytes mm a [] = mm"
  by (rule ext) (auto simp: store_bytes_def)

lemma load_store_same [mem_simps]: "n = length bs \<Longrightarrow> load_bytes (store_bytes mm a bs) a n = bs"
  by (rule nth_equalityI) (simp_all add: nth_load_bytes store_bytes_def)

lemma load_store_disjoint [mem_simps]:
  "b + n \<le> a \<or> a + length bs \<le> b \<Longrightarrow> load_bytes (store_bytes mm a bs) b n = load_bytes mm b n"
  by (rule nth_equalityI) (auto simp: nth_load_bytes store_bytes_def)

lemma load_bytes_append: "load_bytes mm a (n + k) = load_bytes mm a n @ load_bytes mm (a + n) k"
  by (rule nth_equalityI) (auto simp: nth_load_bytes nth_append)

lemma store_bytes_append:
  "store_bytes (store_bytes mm a xs) (a + length xs) ys = store_bytes mm a (xs @ ys)"
  by (rule ext) (auto simp: store_bytes_def nth_append)

lemma take_load_bytes: "k \<le> n \<Longrightarrow> take k (load_bytes mm a n) = load_bytes mm a k"
  by (rule nth_equalityI) (auto simp: nth_load_bytes)

lemma drop_load_bytes: "drop k (load_bytes mm a n) = load_bytes mm (a + k) (n - k)"
  by (rule nth_equalityI) (auto simp: nth_load_bytes add.assoc)

text \<open>Loads and stores of a 32-bit word; the machine is little endian.\<close>

definition load_u32 :: "memory \<Rightarrow> nat \<Rightarrow> u32" where
  "load_u32 mm a = ucast (mm a) OR push_bit 8 (ucast (mm (a + 1))) OR push_bit 16 (ucast (mm (a + 2))) OR push_bit 24 (ucast (mm (a + 3)))"

definition store_u32 :: "memory \<Rightarrow> nat \<Rightarrow> u32 \<Rightarrow> memory" where
  "store_u32 mm a w = store_bytes mm a [ucast w, ucast (drop_bit 8 w), ucast (drop_bit 16 w), ucast (drop_bit 24 w)]"

section \<open>Power-of-two sizes and alignment\<close>

definition pow2_size :: "u32 \<Rightarrow> bool" where
  "pow2_size E \<longleftrightarrow> (\<exists>k<32. E = 2 ^ k)"

lemma unat_pow2: "k < LENGTH('a::len) \<Longrightarrow> unat ((2::'a word) ^ k) = 2 ^ k"
  using unsigned_less [of "(2::'a word) ^ k", where 'a = nat]
  by (metis exp_eq_zero_iff less_le_not_le linorder_not_le uint_2p unat_eq_nat_uint nat_power_eq
      nat_numeral zero_le_numeral word_gt_0)

lemma pow2_sizeE:
  assumes "pow2_size E"
  obtains k where "k < 32" "E = 2 ^ k" "unat E = 2 ^ k"
  using assms unat_pow2 [where 'a = 32] by (fastforce simp: pow2_size_def)

lemma ucast_pow2_minus_1:
  assumes "k < 32"
  shows "(ucast ((2::u32) ^ k - 1) :: u64) = mask k"
proof -
  have "(ucast (mask k :: u32) :: u64) = mask (min LENGTH(32) k)" by (rule ucast_mask_eq)
  with assms show ?thesis by (simp add: mask_eq_decr_exp min_def)
qed

lemma ucast_pow2: "k < 32 \<Longrightarrow> (ucast ((2::u32) ^ k) :: u64) = 2 ^ k"
  by (rule word_unat_eq_iff [THEN iffD2]) (simp add: unat_pow2 unsigned_ucast_eq take_bit_nat_eq_self)

lemma unat_and_mask: "unat (x AND mask k) = unat x mod 2 ^ k"
  by (metis take_bit_eq_mask take_bit_eq_mod unsigned_take_bit_eq)

lemma and_not_mask: "(x::'a::len word) AND NOT (mask k) = push_bit k (drop_bit k x)"
  by (rule bit_word_eqI) (auto simp: bit_simps)

lemma unat_and_not_mask: "unat ((x::'a::len word) AND NOT (mask k)) = unat x - unat x mod 2 ^ k"
proof -
  have "(x AND NOT (mask k)) + take_bit k x = x"
    by (simp add: and_not_mask bits_ident)
  then have eq: "x AND NOT (mask k) = x - take_bit k x" by (simp add: eq_diff_eq)
  have "take_bit k x \<le> x"
    by (simp add: word_le_nat_alt unsigned_take_bit_eq)
  moreover have "unat (take_bit k x) = unat x mod 2 ^ k"
    by (metis take_bit_eq_mod unsigned_take_bit_eq)
  ultimately show ?thesis by (simp add: eq unat_sub del: take_bit_eq_mod)
qed

text \<open>\<open>x & (E - 1)\<close> and \<open>x & ~(E - 1)\<close> for a 32-bit power of two \<open>E\<close> and a 64-bit \<open>x\<close>.\<close>

lemma unat_block_offset [align_simps]:
  "pow2_size E \<Longrightarrow> unat ((x::u64) AND ucast (E - 1)) = unat x mod unat E"
  by (erule pow2_sizeE) (simp add: ucast_pow2_minus_1 unat_and_mask)

lemma unat_block_start [align_simps]:
  assumes "pow2_size E"
  shows "unat ((x::u64) AND NOT (ucast E - 1)) = unat x - unat x mod unat E"
  using assms by (elim pow2_sizeE)
    (simp add: ucast_pow2 unat_and_not_mask flip: mask_eq_decr_exp)

lemma unat_ucast_u64 [align_simps]: "unat (ucast (x::u32) :: u64) = unat x"
  using unsigned_less [of x, where 'a = nat] by (simp add: unsigned_ucast_eq take_bit_nat_eq_self)

lemma unat_add_small: "unat a + unat b < 2 ^ LENGTH('a) \<Longrightarrow> unat ((a::'a::len word) + b) = unat a + unat b"
  by (simp add: unat_word_ariths)

lemma pow2_size_pos: "pow2_size E \<Longrightarrow> 0 < unat E"
  by (elim pow2_sizeE) simp

section \<open>Arithmetic on words that does not wrap around\<close>

lemma unat_add_u64: "unat (x :: u64) + unat (y :: u32) < 2 ^ 64 \<Longrightarrow> unat (x + ucast y) = unat x + unat y"
  by (subst unat_add_small) (simp_all add: unat_ucast_u64)

lemma unat_sub_u32: "y \<le> x \<Longrightarrow> unat ((x :: u32) - y) = unat x - unat y"
  by (simp add: unat_sub)

lemma and_0xff [simp]: "(x :: u8) AND 0xff = x"
proof -
  have "(0xff :: u8) = - 1" by simp
  then show ?thesis by (simp only: and.right_neutral)
qed

lemma u32_lt: "unat (x :: u32) < 2 ^ 32"
  using unsigned_less [of x, where 'a = nat] by simp

lemma u64_pow2_offset: "pow2_size W \<Longrightarrow> ((x :: u64) AND ucast (W - 1) = 0) = (unat W dvd unat x)"
  using unat_block_offset [of W x] by (metis dvd_eq_mod_eq_0 unat_eq_zero)

lemma u32_pow2_offset: "pow2_size W \<Longrightarrow> unat ((x :: u32) AND (W - 1)) = unat x mod unat W"
  by (elim pow2_sizeE) (simp add: unat_and_mask flip: mask_eq_decr_exp)

lemma u32_pow2_aligned: "pow2_size W \<Longrightarrow> ((x :: u32) AND (W - 1) = 0) = (unat W dvd unat x)"
  by (metis u32_pow2_offset dvd_eq_mod_eq_0 unat_eq_zero)

lemma u32_pow2_down: "pow2_size W \<Longrightarrow> unat ((x :: u32) AND NOT (W - 1)) = unat x - unat x mod unat W"
  by (elim pow2_sizeE) (simp add: unat_and_not_mask flip: mask_eq_decr_exp)

lemma sint_small:
  assumes "unat (x :: 'a::len word) < 2 ^ (LENGTH('a) - 1)"
  shows "sint x = int (unat x)"
proof -
  have "uint x = int (unat x)" by simp
  moreover have "int (unat x) < 2 ^ (LENGTH('a) - 1)" using assms by (metis of_nat_less_numeral_power_cancel_iff)
  moreover have "- (2 ^ (LENGTH('a) - 1)) \<le> int (unat x)" by (rule order_trans [of _ 0]) simp_all
  ultimately show ?thesis
    by (simp only: sint_uint One_nat_def) (rule signed_take_bit_int_eq_self)
qed

lemma word_sless_small: "unat (x :: u64) < 2 ^ 63 \<Longrightarrow> unat y < 2 ^ 63 \<Longrightarrow> word_sless x y \<longleftrightarrow> unat x < unat y"
  using sint_small [of x] sint_small [of y] by (simp add: word_sless_alt word_less_nat_alt flip: word_less_def)

end
