(* ===== verification/NandEcc.thy ===== *)
theory NandEcc
  imports Prelude
begin

text \<open>
  The software ECC of \<open>drivers/mtd/nand/nand_ecc.c\<close>: a Hamming code of three bytes over
  256 data bytes.  \<open>nand_calculate_ecc\<close> and \<open>nand_correct_data\<close> are modelled with their
  8-bit arithmetic; the column parity table is the source's.  The lemmas show that the table is
  linear, what the syndrome of one flipped bit is, and that the correction undoes exactly it.
\<close>

section \<open>Definitions\<close>

definition EBADMSG :: int where "EBADMSG = 74"

definition nand_ecc_precalc_table :: "u8 list" where
  "nand_ecc_precalc_table =
    [0x00, 0x55, 0x56, 0x03, 0x59, 0x0c, 0x0f, 0x5a, 0x5a, 0x0f, 0x0c, 0x59, 0x03, 0x56, 0x55, 0x00,
     0x65, 0x30, 0x33, 0x66, 0x3c, 0x69, 0x6a, 0x3f, 0x3f, 0x6a, 0x69, 0x3c, 0x66, 0x33, 0x30, 0x65,
     0x66, 0x33, 0x30, 0x65, 0x3f, 0x6a, 0x69, 0x3c, 0x3c, 0x69, 0x6a, 0x3f, 0x65, 0x30, 0x33, 0x66,
     0x03, 0x56, 0x55, 0x00, 0x5a, 0x0f, 0x0c, 0x59, 0x59, 0x0c, 0x0f, 0x5a, 0x00, 0x55, 0x56, 0x03,
     0x69, 0x3c, 0x3f, 0x6a, 0x30, 0x65, 0x66, 0x33, 0x33, 0x66, 0x65, 0x30, 0x6a, 0x3f, 0x3c, 0x69,
     0x0c, 0x59, 0x5a, 0x0f, 0x55, 0x00, 0x03, 0x56, 0x56, 0x03, 0x00, 0x55, 0x0f, 0x5a, 0x59, 0x0c,
     0x0f, 0x5a, 0x59, 0x0c, 0x56, 0x03, 0x00, 0x55, 0x55, 0x00, 0x03, 0x56, 0x0c, 0x59, 0x5a, 0x0f,
     0x6a, 0x3f, 0x3c, 0x69, 0x33, 0x66, 0x65, 0x30, 0x30, 0x65, 0x66, 0x33, 0x69, 0x3c, 0x3f, 0x6a,
     0x6a, 0x3f, 0x3c, 0x69, 0x33, 0x66, 0x65, 0x30, 0x30, 0x65, 0x66, 0x33, 0x69, 0x3c, 0x3f, 0x6a,
     0x0f, 0x5a, 0x59, 0x0c, 0x56, 0x03, 0x00, 0x55, 0x55, 0x00, 0x03, 0x56, 0x0c, 0x59, 0x5a, 0x0f,
     0x0c, 0x59, 0x5a, 0x0f, 0x55, 0x00, 0x03, 0x56, 0x56, 0x03, 0x00, 0x55, 0x0f, 0x5a, 0x59, 0x0c,
     0x69, 0x3c, 0x3f, 0x6a, 0x30, 0x65, 0x66, 0x33, 0x33, 0x66, 0x65, 0x30, 0x6a, 0x3f, 0x3c, 0x69,
     0x03, 0x56, 0x55, 0x00, 0x5a, 0x0f, 0x0c, 0x59, 0x59, 0x0c, 0x0f, 0x5a, 0x00, 0x55, 0x56, 0x03,
     0x66, 0x33, 0x30, 0x65, 0x3f, 0x6a, 0x69, 0x3c, 0x3c, 0x69, 0x6a, 0x3f, 0x65, 0x30, 0x33, 0x66,
     0x65, 0x30, 0x33, 0x66, 0x3c, 0x69, 0x6a, 0x3f, 0x3f, 0x6a, 0x69, 0x3c, 0x66, 0x33, 0x30, 0x65,
     0x00, 0x55, 0x56, 0x03, 0x59, 0x0c, 0x0f, 0x5a, 0x5a, 0x0f, 0x0c, 0x59, 0x03, 0x56, 0x55, 0x00]"

record ecc_regs =
  reg1 :: u8
  reg2 :: u8
  reg3 :: u8

text \<open>One round of the loop over the 256 data bytes.\<close>

definition ecc_step :: "u8 list \<Rightarrow> nat \<Rightarrow> ecc_regs \<Rightarrow> ecc_regs" where
  "ecc_step dat i r =
     (let idx = nand_ecc_precalc_table ! unat (dat ! i);
          r1 = r\<lparr>reg1 := reg1 r XOR (idx AND 0x3f)\<rparr>
      in if idx AND 0x40 \<noteq> 0
         then r1\<lparr>reg3 := reg3 r1 XOR word_of_nat i, reg2 := reg2 r1 XOR NOT (word_of_nat i)\<rparr>
         else r1)"

definition ecc_parity :: "u8 list \<Rightarrow> ecc_regs" where
  "ecc_parity dat = fold (ecc_step dat) [0..<256] \<lparr>reg1 = 0, reg2 = 0, reg3 = 0\<rparr>"

definition ecc_tmp1 :: "u8 \<Rightarrow> u8 \<Rightarrow> u8" where
  "ecc_tmp1 r2 r3 =
     (r3 AND 0x80) OR drop_bit 1 (r2 AND 0x80) OR
     drop_bit 1 (r3 AND 0x40) OR drop_bit 2 (r2 AND 0x40) OR
     drop_bit 2 (r3 AND 0x20) OR drop_bit 3 (r2 AND 0x20) OR
     drop_bit 3 (r3 AND 0x10) OR drop_bit 4 (r2 AND 0x10)"

definition ecc_tmp2 :: "u8 \<Rightarrow> u8 \<Rightarrow> u8" where
  "ecc_tmp2 r2 r3 =
     push_bit 4 (r3 AND 0x08) OR push_bit 3 (r2 AND 0x08) OR
     push_bit 3 (r3 AND 0x04) OR push_bit 2 (r2 AND 0x04) OR
     push_bit 2 (r3 AND 0x02) OR push_bit 1 (r2 AND 0x02) OR
     push_bit 1 (r3 AND 0x01) OR (r2 AND 0x01)"

text \<open>The three ECC bytes, in the layout without \<open>CONFIG_MTD_NAND_ECC_SMC\<close>.\<close>

type_synonym ecc_code = "u8 \<times> u8 \<times> u8"

definition nand_calculate_ecc :: "u8 list \<Rightarrow> ecc_code" where
  "nand_calculate_ecc dat =
     (let r = ecc_parity dat
      in (NOT (ecc_tmp1 (reg2 r) (reg3 r)),
          NOT (ecc_tmp2 (reg2 r) (reg3 r)),
          push_bit 2 (NOT (reg1 r)) OR 0x03))"

function countbits :: "u32 \<Rightarrow> int" where
  "countbits byte = (if byte = 0 then 0 else uint (byte AND 0x01) + countbits (drop_bit 1 byte))"
  by pat_completeness auto
termination
proof (relation "measure unat")
  fix byte :: u32 assume "byte \<noteq> 0"
  then have "unat byte div 2 < unat byte" by (simp add: unat_gt_0 word_gt_0)
  moreover have "unat (drop_bit 1 byte) = unat byte div 2"
    by (simp add: drop_bit_eq_div unat_div)
  ultimately show "(drop_bit 1 byte, byte) \<in> measure unat" by simp
qed simp

declare countbits.simps [simp del]

definition ecc_byteoffs :: "u8 \<Rightarrow> u8 \<Rightarrow> u32" where
  "ecc_byteoffs s0 s1 =
     (ucast s1 AND 0x80) OR (push_bit 1 (ucast s1) AND 0x40) OR
     (push_bit 2 (ucast s1) AND 0x20) OR (push_bit 3 (ucast s1) AND 0x10) OR
     (drop_bit 4 (ucast s0) AND 0x08) OR (drop_bit 3 (ucast s0) AND 0x04) OR
     (drop_bit 2 (ucast s0) AND 0x02) OR (drop_bit 1 (ucast s0) AND 0x01)"

definition ecc_bitnum :: "u8 \<Rightarrow> u32" where
  "ecc_bitnum s2 =
     (drop_bit 5 (ucast s2) AND 0x04) OR (drop_bit 4 (ucast s2) AND 0x02) OR
     (drop_bit 3 (ucast s2) AND 0x01)"

text \<open>
  The status and the data after the correction.  The data is the 256-byte block; the byte
  offset of the correction is below 256.
\<close>

definition nand_correct_data :: "u8 list \<Rightarrow> ecc_code \<Rightarrow> ecc_code \<Rightarrow> int \<times> u8 list" where
  "nand_correct_data dat read_ecc calc_ecc =
     (let (r0, r1, r2) = read_ecc;
          (c0, c1, c2) = calc_ecc;
          s1 = c0 XOR r0;
          s0 = c1 XOR r1;
          s2 = c2 XOR r2
      in if s0 OR s1 OR s2 = 0 then (0, dat)
         else if (s0 XOR drop_bit 1 s0) AND 0x55 = 0x55 \<and>
                 (s1 XOR drop_bit 1 s1) AND 0x55 = 0x55 \<and>
                 (s2 XOR drop_bit 1 s2) AND 0x54 = 0x54
         then (let byteoffs = unat (ecc_byteoffs s0 s1); bitnum = unat (ecc_bitnum s2)
               in (1, dat[byteoffs := dat ! byteoffs XOR push_bit bitnum 1]))
         else if countbits (ucast s0 OR push_bit 8 (ucast s1) OR push_bit 16 (ucast s2)) = 1
         then (1, dat)
         else (- EBADMSG, dat))"

section \<open>The column parity table is linear\<close>

text \<open>
  The table is built by doubling: for each bit of the index, least significant first, every entry
  is followed by its exclusive or with that bit's parity.
\<close>

fun interleave_table :: "u8 list \<Rightarrow> u8 list" where
  "interleave_table [] = [0]"
| "interleave_table (t # ts) = concat (map (\<lambda>x. [x, x XOR t]) (interleave_table ts))"

lemma precalc_table_linear:
  "nand_ecc_precalc_table = interleave_table [0x55, 0x56, 0x59, 0x5a, 0x65, 0x66, 0x69, 0x6a]"
  by (simp add: nand_ecc_precalc_table_def)

lemma length_pairs: "length (concat (map (\<lambda>x. [f x, g x]) xs)) = 2 * length xs"
  by (induction xs) auto

lemma nth_pairs:
  "n < 2 * length xs \<Longrightarrow>
   concat (map (\<lambda>x. [f x, g x]) xs) ! n = (if even n then f (xs ! (n div 2)) else g (xs ! (n div 2)))"
proof (induction xs arbitrary: n)
  case (Cons x xs)
  show ?case
  proof (cases n)
    case (Suc m)
    then show ?thesis
    proof (cases m)
      case (Suc k)
      with \<open>n = Suc m\<close> Cons show ?thesis by (simp add: Cons.IH)
    qed (simp add: Suc)
  qed simp
qed simp

lemma length_interleave [simp]: "length (interleave_table ts) = 2 ^ length ts"
  by (induction ts) (auto simp: length_pairs)

lemma nat_xor_pow2_Suc_div: "((n::nat) XOR 2 ^ Suc b) div 2 = (n div 2) XOR 2 ^ b"
proof -
  have "drop_bit 1 (n XOR 2 ^ Suc b) = drop_bit 1 n XOR drop_bit 1 (2 ^ Suc b)" by (rule drop_bit_xor)
  then show ?thesis unfolding drop_bit_eq_div by simp
qed

lemma nat_xor_less: "(n::nat) < 2 ^ k \<Longrightarrow> b < k \<Longrightarrow> n XOR 2 ^ b < 2 ^ k"
  by (simp add: take_bit_xor flip: take_bit_nat_eq_self_iff)

lemma nat_xor_1_div: "((n::nat) XOR 1) div 2 = n div 2"
proof -
  have "drop_bit 1 (n XOR 1) = drop_bit 1 n XOR drop_bit 1 1" by (rule drop_bit_xor)
  then show ?thesis unfolding drop_bit_eq_div by simp
qed

lemma interleave_flip:
  "n < 2 ^ length ts \<Longrightarrow> b < length ts \<Longrightarrow>
   interleave_table ts ! (n XOR 2 ^ b) = interleave_table ts ! n XOR ts ! b"
proof (induction ts arbitrary: n b)
  case (Cons t ts)
  have n2: "n div 2 < 2 ^ length ts" using Cons.prems by simp
  show ?case
  proof (cases b)
    case 0
    have "n XOR 1 < 2 ^ length (t # ts)" using nat_xor_less [of n "length (t # ts)" 0] Cons.prems by simp
    moreover have "even (n XOR 1) \<longleftrightarrow> odd n" by (simp add: even_xor_iff)
    ultimately show ?thesis using Cons.prems 0 nat_xor_1_div [of n]
      by (simp add: nth_pairs ac_simps del: even_xor_iff)
  next
    case (Suc c)
    have "n XOR 2 ^ Suc c < 2 ^ length (t # ts)" using nat_xor_less Cons.prems Suc by blast
    then have m: "n XOR 2 ^ Suc c < 2 * 2 ^ length ts" by simp
    have e: "even (n XOR 2 ^ Suc c) \<longleftrightarrow> even n" by (simp add: even_xor_iff)
    from Cons.IH [OF n2, of c] Cons.prems Suc
    have "interleave_table ts ! ((n div 2) XOR 2 ^ c) = interleave_table ts ! (n div 2) XOR ts ! c" by simp
    moreover have "n < 2 * 2 ^ length ts" using Cons.prems by simp
    ultimately show ?thesis using m e Cons.prems Suc nat_xor_pow2_Suc_div [of n c]
      by (simp add: nth_pairs ac_simps del: power_Suc)
  qed
qed simp

lemma unat_xor_bit: "b < 8 \<Longrightarrow> unat ((x::u8) XOR 2 ^ b) = unat x XOR 2 ^ b"
  by (simp add: unsigned_xor_eq unat_pow2)

definition column_parity :: "nat \<Rightarrow> u8" where
  "column_parity b = [0x55, 0x56, 0x59, 0x5a, 0x65, 0x66, 0x69, 0x6a] ! b"

lemma precalc_flip:
  assumes "b < 8"
  shows "nand_ecc_precalc_table ! unat ((x::u8) XOR 2 ^ b) =
     nand_ecc_precalc_table ! unat x XOR column_parity b"
  unfolding unat_xor_bit [OF assms] precalc_table_linear column_parity_def
  using assms unsigned_less [of x, where 'a = nat] by (intro interleave_flip) simp_all

lemma lt8: "(b::nat) < 8 \<longleftrightarrow> b \<in> {0,1,2,3,4,5,6,7}" by auto

lemma column_parity_odd: "b < 8 \<Longrightarrow> column_parity b AND 0x40 \<noteq> 0"
  unfolding lt8 by (auto simp: column_parity_def)

lemma word_bit_eq8: "bit v 0 = bit w 0 \<Longrightarrow> bit v 1 = bit w 1 \<Longrightarrow> bit v 2 = bit w 2 \<Longrightarrow> bit v 3 = bit w 3 \<Longrightarrow>
  bit v 4 = bit w 4 \<Longrightarrow> bit v 5 = bit w 5 \<Longrightarrow> bit v 6 = bit w 6 \<Longrightarrow> bit v 7 = bit w 7 \<Longrightarrow> (v::u8) = w"
  by (rule bit_word_eqI) (auto simp: lt8)

lemma bit_ecc_tmp1:
  "bit (ecc_tmp1 r2 r3) 7 = bit r3 7" "bit (ecc_tmp1 r2 r3) 6 = bit r2 7"
  "bit (ecc_tmp1 r2 r3) 5 = bit r3 6" "bit (ecc_tmp1 r2 r3) 4 = bit r2 6"
  "bit (ecc_tmp1 r2 r3) 3 = bit r3 5" "bit (ecc_tmp1 r2 r3) 2 = bit r2 5"
  "bit (ecc_tmp1 r2 r3) 1 = bit r3 4" "bit (ecc_tmp1 r2 r3) 0 = bit r2 4"
  by (simp_all add: ecc_tmp1_def bit_or_iff bit_and_iff bit_drop_bit_eq)

lemma bit_ecc_tmp2:
  "bit (ecc_tmp2 r2 r3) 7 = bit r3 3" "bit (ecc_tmp2 r2 r3) 6 = bit r2 3"
  "bit (ecc_tmp2 r2 r3) 5 = bit r3 2" "bit (ecc_tmp2 r2 r3) 4 = bit r2 2"
  "bit (ecc_tmp2 r2 r3) 3 = bit r3 1" "bit (ecc_tmp2 r2 r3) 2 = bit r2 1"
  "bit (ecc_tmp2 r2 r3) 1 = bit r3 0" "bit (ecc_tmp2 r2 r3) 0 = bit r2 0"
  by (simp_all only: ecc_tmp2_def bit_or_iff bit_and_iff bit_push_bit_iff) simp_all

lemma bit_u8_8 [simp]: "\<not> bit (x::u8) 8"
  by (simp add: impossible_bit)

lemmas ecc_tmp_bits = bit_ecc_tmp1 bit_ecc_tmp2 bit_xor_iff bit_not_iff

lemma ecc_tmp1_xor: "ecc_tmp1 (a XOR b) (c XOR d) = ecc_tmp1 a c XOR ecc_tmp1 b d"
  by (rule word_bit_eq8) (simp_all only: ecc_tmp_bits)

lemma ecc_tmp2_xor: "ecc_tmp2 (a XOR b) (c XOR d) = ecc_tmp2 a c XOR ecc_tmp2 b d"
  by (rule word_bit_eq8) (simp_all only: ecc_tmp_bits)

lemma ecc_tmp_pairs:
  "(ecc_tmp1 (NOT j) j XOR drop_bit 1 (ecc_tmp1 (NOT j) j)) AND 0x55 = 0x55"
  "(ecc_tmp2 (NOT j) j XOR drop_bit 1 (ecc_tmp2 (NOT j) j)) AND 0x55 = 0x55"
  by (rule word_bit_eq8; simp only: bit_and_iff bit_drop_bit_eq bit_xor_iff;
      simp add: ecc_tmp_bits ecc_tmp_bits [unfolded One_nat_def numeral_3_eq_3])+

lemma bit_ecc_byteoffs:
  "bit (ecc_byteoffs s0 s1) 7 = bit s1 7" "bit (ecc_byteoffs s0 s1) 6 = bit s1 5"
  "bit (ecc_byteoffs s0 s1) 5 = bit s1 3" "bit (ecc_byteoffs s0 s1) 4 = bit s1 1"
  "bit (ecc_byteoffs s0 s1) 3 = bit s0 7" "bit (ecc_byteoffs s0 s1) 2 = bit s0 5"
  "bit (ecc_byteoffs s0 s1) 1 = bit s0 3" "bit (ecc_byteoffs s0 s1) 0 = bit s0 1"
  by (simp_all only: ecc_byteoffs_def bit_or_iff bit_and_iff bit_push_bit_iff bit_drop_bit_eq bit_unsigned_iff) (simp_all add: bit_unsigned_iff)

lemma ecc_byteoffs_tmp: "ecc_byteoffs (ecc_tmp2 (NOT j) j) (ecc_tmp1 (NOT j) j) = ucast j"
proof (rule bit_word_eqI)
  fix n assume "n < LENGTH(32)"
  then have n: "n < 8 \<or> 8 \<le> n \<and> n < 32" by auto
  then show "bit (ecc_byteoffs (ecc_tmp2 (NOT j) j) (ecc_tmp1 (NOT j) j)) n = bit (ucast j :: u32) n"
  proof
    assume "n < 8"
    then show ?thesis unfolding lt8
      by (elim insertE emptyE; simp only: bit_ecc_byteoffs ecc_tmp_bits bit_unsigned_iff)
         (simp_all add: bit_ecc_byteoffs ecc_tmp_bits bit_unsigned_iff)
  next
    assume n: "8 \<le> n \<and> n < 32"
    have "drop_bit 8 (ecc_byteoffs s0 s1) = 0" for s0 s1
      by (simp add: ecc_byteoffs_def drop_bit_or drop_bit_and)
    then have "bit (drop_bit 8 (ecc_byteoffs s0 s1)) (n - 8) = False" for s0 s1
      by simp
    with n have "\<not> bit (ecc_byteoffs s0 s1) n" for s0 s1 by (simp add: bit_drop_bit_eq)
    moreover have "\<not> bit (ucast j :: u32) n" using n by (simp add: bit_unsigned_iff impossible_bit)
    ultimately show ?thesis by simp
  qed
qed

lemma column_parity_checks:
  "b < 8 \<Longrightarrow> (push_bit 2 (column_parity b AND 0x3f) XOR drop_bit 1 (push_bit 2 (column_parity b AND 0x3f))) AND 0x54 = 0x54"
  "b < 8 \<Longrightarrow> ecc_bitnum (push_bit 2 (column_parity b AND 0x3f)) = word_of_nat b"
  unfolding lt8 by (auto simp: column_parity_def ecc_bitnum_def)


section \<open>Linearity of the parity loop\<close>

definition ecc_contrib1 :: "u8 \<Rightarrow> u8" where
  "ecc_contrib1 d = nand_ecc_precalc_table ! unat d AND 0x3f"

definition ecc_odd :: "u8 \<Rightarrow> bool" where
  "ecc_odd d \<longleftrightarrow> nand_ecc_precalc_table ! unat d AND 0x40 \<noteq> 0"

definition regs_xor :: "ecc_regs \<Rightarrow> u8 \<times> u8 \<times> u8 \<Rightarrow> ecc_regs" where
  "regs_xor r = (\<lambda>(x, y, z). \<lparr>reg1 = reg1 r XOR x, reg2 = reg2 r XOR y, reg3 = reg3 r XOR z\<rparr>)"

definition ecc_contrib :: "u8 \<Rightarrow> nat \<Rightarrow> u8 \<times> u8 \<times> u8" where
  "ecc_contrib d i = (ecc_contrib1 d,
     if ecc_odd d then NOT (word_of_nat i) else 0, if ecc_odd d then word_of_nat i else 0)"

lemma ecc_step_xor: "ecc_step dat i r = regs_xor r (ecc_contrib (dat ! i) i)"
  by (simp add: ecc_step_def regs_xor_def ecc_contrib_def ecc_contrib1_def ecc_odd_def Let_def)

lemma regs_xor_commute: "regs_xor (regs_xor r x) y = regs_xor (regs_xor r y) x"
  by (cases x; cases y) (simp add: regs_xor_def ac_simps)

lemma fold_regs_xor: "fold (ecc_step dat) ns (regs_xor r x) = regs_xor (fold (ecc_step dat) ns r) x"
  by (induction ns arbitrary: r) (simp_all add: ecc_step_xor regs_xor_commute [of _ x])

lemma ecc_contrib_flip:
  assumes "b < 8"
  shows "regs_xor r (ecc_contrib (d XOR 2 ^ b) i) =
     regs_xor (regs_xor r (ecc_contrib d i))
       (column_parity b AND 0x3f, NOT (word_of_nat i), word_of_nat i)"
proof -
  have odd: "ecc_odd (d XOR 2 ^ b) \<longleftrightarrow> \<not> ecc_odd d"
  proof -
    have bit6: "x AND 0x40 \<noteq> 0 \<longleftrightarrow> bit x 6" for x :: u8
      using and_exp_eq_0_iff_not_bit [of x 6] by simp
    show ?thesis using column_parity_odd [OF assms]
      by (simp add: ecc_odd_def precalc_flip [OF assms] bit6 bit_xor_iff)
  qed
  show ?thesis
    by (simp add: ecc_contrib_def odd ecc_contrib1_def precalc_flip [OF assms] regs_xor_def
        bit.conj_xor_distrib2 ac_simps)
qed

lemma fold_ecc_step_flip:
  assumes "b < 8" "distinct ns" "j < length dat"
  shows "fold (ecc_step (dat[j := dat ! j XOR 2 ^ b])) ns r =
    (if j \<in> set ns then regs_xor (fold (ecc_step dat) ns r)
       (column_parity b AND 0x3f, NOT (word_of_nat j), word_of_nat j)
     else fold (ecc_step dat) ns r)"
  using assms(2)
proof (induction ns arbitrary: r)
  case (Cons i ns)
  show ?case
  proof (cases "i = j")
    case True
    with Cons assms show ?thesis
      by (simp add: ecc_step_xor ecc_contrib_flip) (simp add: fold_regs_xor flip: ecc_step_xor)
  next
    case False
    with Cons assms show ?thesis by (simp add: ecc_step_xor)
  qed
qed simp

lemma ecc_parity_flip:
  "b < 8 \<Longrightarrow> j < 256 \<Longrightarrow> j < length dat \<Longrightarrow>
   ecc_parity (dat[j := dat ! j XOR 2 ^ b]) =
   regs_xor (ecc_parity dat) (column_parity b AND 0x3f, NOT (word_of_nat j), word_of_nat j)"
  by (simp add: ecc_parity_def fold_ecc_step_flip)

definition ecc_code_of :: "ecc_regs \<Rightarrow> ecc_code" where
  "ecc_code_of r = (NOT (ecc_tmp1 (reg2 r) (reg3 r)), NOT (ecc_tmp2 (reg2 r) (reg3 r)),
     push_bit 2 (NOT (reg1 r)) OR 3)"

lemma nand_calculate_ecc_eq: "nand_calculate_ecc dat = ecc_code_of (ecc_parity dat)"
  by (simp add: nand_calculate_ecc_def ecc_code_of_def Let_def)

lemma ecc_code_of_xor:
  assumes "ecc_code_of r = (r0, r1, r2)" and "ecc_code_of (regs_xor r (x, y, z)) = (c0, c1, c2)"
  shows "c0 XOR r0 = ecc_tmp1 y z" and "c1 XOR r1 = ecc_tmp2 y z" and "c2 XOR r2 = push_bit 2 x"
proof -
  have nn: "NOT (v XOR w) XOR NOT v = w" for v w :: u8
    by (rule bit_word_eqI) (auto simp: bit_simps)
  have pp: "(push_bit 2 (NOT (v XOR w)) OR 3) XOR (push_bit 2 (NOT v) OR 3) = push_bit 2 w" for v w :: u8
  proof -
    have m: "(3::u8) = mask 2" by (simp add: mask_numeral)
    show ?thesis unfolding m
      by (rule bit_word_eqI) (auto simp: bit_or_iff bit_xor_iff bit_mask_iff bit_push_bit_iff bit_not_iff)
  qed
  have "r0 = NOT (ecc_tmp1 (reg2 r) (reg3 r))" "c0 = NOT (ecc_tmp1 (reg2 r) (reg3 r) XOR ecc_tmp1 y z)"
    "r1 = NOT (ecc_tmp2 (reg2 r) (reg3 r))" "c1 = NOT (ecc_tmp2 (reg2 r) (reg3 r) XOR ecc_tmp2 y z)"
    "r2 = push_bit 2 (NOT (reg1 r)) OR 3" "c2 = push_bit 2 (NOT (reg1 r XOR x)) OR 3"
    using assms by (auto simp: ecc_code_of_def regs_xor_def ecc_tmp1_xor ecc_tmp2_xor)
  then show "c0 XOR r0 = ecc_tmp1 y z" and "c1 XOR r1 = ecc_tmp2 y z" and "c2 XOR r2 = push_bit 2 x"
    by (simp_all only: nn pp)
qed

lemma syndrome_flip:
  assumes "b < 8" "j < 256" "j < length dat"
    and "nand_calculate_ecc dat = (r0, r1, r2)"
    and "nand_calculate_ecc (dat[j := dat ! j XOR 2 ^ b]) = (c0, c1, c2)"
  shows "c0 XOR r0 = ecc_tmp1 (NOT (word_of_nat j)) (word_of_nat j)"
    and "c1 XOR r1 = ecc_tmp2 (NOT (word_of_nat j)) (word_of_nat j)"
    and "c2 XOR r2 = push_bit 2 (column_parity b AND 0x3f)"
  using ecc_code_of_xor [OF assms(4,5) [unfolded nand_calculate_ecc_eq ecc_parity_flip [OF assms(1-3)]]]
  by simp_all

text \<open>Two flipped bits: the two syndromes cancel to pairs of equal bits.\<close>

lemma syndrome_flip2:
  assumes "b < 8" "j < 256" "j < length dat" "c < 8" "k < 256" "k < length dat"
    and "nand_calculate_ecc dat = (r0, r1, r2)"
    and "nand_calculate_ecc (dat[j := dat ! j XOR 2 ^ b, k := dat[j := dat ! j XOR 2 ^ b] ! k XOR 2 ^ c]) = (c0, c1, c2)"
  defines "e \<equiv> word_of_nat j XOR word_of_nat k :: u8"
  shows "c0 XOR r0 = ecc_tmp1 e e" and "c1 XOR r1 = ecc_tmp2 e e"
    and "c2 XOR r2 = push_bit 2 ((column_parity b XOR column_parity c) AND 0x3f)"
proof -
  let ?d = "dat[j := dat ! j XOR 2 ^ b]"
  obtain m0 m1 m2 where m: "nand_calculate_ecc ?d = (m0, m1, m2)" by (metis prod_cases3)
  have "k < length ?d" using assms by simp
  note s1 = syndrome_flip [OF assms(1-3,7) m] and s2 = syndrome_flip [OF assms(4,5) this m assms(8)]
  have x3: "u XOR w = (u XOR v) XOR (v XOR w)" for u v w :: u8
    by (rule bit_word_eqI) (auto simp: bit_simps)
  have ne: "NOT u XOR NOT v = u XOR v" for u v :: u8
    by (rule bit_word_eqI) (auto simp: bit_simps)
  show "c0 XOR r0 = ecc_tmp1 e e" and "c1 XOR r1 = ecc_tmp2 e e"
    using x3 [of c0 r0 m0] x3 [of c1 r1 m1] s1 s2
    by (simp_all only: flip: ecc_tmp1_xor ecc_tmp2_xor) (simp_all add: e_def ne xor.commute)
  show "c2 XOR r2 = push_bit 2 ((column_parity b XOR column_parity c) AND 0x3f)"
    using x3 [of c2 r2 m2] s1 s2
    by (simp only: bit.conj_xor_distrib2 push_bit_xor xor.commute)
qed

lemma correct_flipped:
  assumes b: "b < 8" and j: "j < 256" "j < length dat"
  shows "nand_correct_data (dat[j := dat ! j XOR 2 ^ b]) (nand_calculate_ecc dat)
           (nand_calculate_ecc (dat[j := dat ! j XOR 2 ^ b])) = (1, dat)"
proof -
  let ?d = "dat[j := dat ! j XOR 2 ^ b]" and ?w = "word_of_nat j :: u8"
  let ?s1 = "ecc_tmp1 (NOT ?w) ?w" and ?s0 = "ecc_tmp2 (NOT ?w) ?w"
  obtain r0 r1 r2 where r: "nand_calculate_ecc dat = (r0, r1, r2)" by (metis prod_cases3)
  obtain c0 c1 c2 where c: "nand_calculate_ecc ?d = (c0, c1, c2)" by (metis prod_cases3)
  note syn = syndrome_flip [OF b j r c]
  have "?s1 \<noteq> 0"
    using ecc_tmp_pairs(1) [of ?w] by auto
  then have "?s0 OR ?s1 OR x \<noteq> 0" for x
    by (metis or_eq_0_iff)
  moreover have "unat (ucast ?w :: u32) = j"
    using j(1) by (simp add: unsigned_ucast_eq take_bit_nat_eq_self unat_of_nat)
  moreover have "unat (word_of_nat b :: u32) = b" using b by (simp add: unat_of_nat)
  ultimately show ?thesis
    unfolding nand_correct_data_def r c Let_def prod.case syn
    using ecc_tmp_pairs [of ?w] column_parity_checks [OF b] j(2)
    by (simp add: ecc_byteoffs_tmp xor.assoc)
qed


lemma countbits_step: "countbits n = of_bool (bit n 0) + countbits (drop_bit 1 n)"
proof (cases "n = 0")
  case True
  then show ?thesis by (simp add: countbits.simps)
next
  case False
  have "uint (n AND 1) = of_bool (bit n 0)"
    by (simp add: and_one_eq mod_2_eq_odd bit_0)
  with False show ?thesis by (subst countbits.simps) simp
qed

lemma even_countbits_pairs:
  "(\<And>i. bit n (2 * i) \<longleftrightarrow> bit n (Suc (2 * i))) \<Longrightarrow> even (countbits n)"
proof (induction "unat n" arbitrary: n rule: less_induct)
  case less
  show ?case
  proof (cases "n = 0")
    case True
    then show ?thesis by (simp add: countbits.simps)
  next
    case False
    let ?m = "drop_bit 1 (drop_bit 1 n)"
    have m: "?m = drop_bit 2 n" unfolding drop_bit_drop_bit one_add_one ..
    have "countbits n = of_bool (bit n 0) + (of_bool (bit (drop_bit 1 n) 0) + countbits ?m)"
      using countbits_step [of n] countbits_step [of "drop_bit 1 n"] by simp
    moreover have "bit (drop_bit 1 n) 0 \<longleftrightarrow> bit n 0"
      using less.prems [of 0] by (simp add: bit_drop_bit_eq)
    moreover have "even (countbits ?m)"
      unfolding m
    proof (rule less.hyps)
      have "unat (drop_bit 2 n) = unat n div 4" by (simp add: drop_bit_eq_div unat_div)
      then show "unat (drop_bit 2 n) < unat n" using False by (simp add: unat_gt_0)
      show "bit (drop_bit 2 n) (2 * i) \<longleftrightarrow> bit (drop_bit 2 n) (Suc (2 * i))" for i
        using less.prems [of "Suc i"] by (simp add: bit_drop_bit_eq)
    qed
    ultimately show ?thesis by simp
  qed
qed

lemma column_parity_pair_even:
  "b < 8 \<Longrightarrow> c < 8 \<Longrightarrow> (let v = push_bit 2 ((column_parity b XOR column_parity c) AND 0x3f) in
     (v XOR drop_bit 1 v) AND 0x55 = 0 \<and> (v = 0 \<longrightarrow> b = c))"
  unfolding lt8 by (elim insertE emptyE; simp add: column_parity_def)


definition paired :: "u8 \<Rightarrow> bool" where
  "paired v \<longleftrightarrow> (v XOR drop_bit 1 v) AND 0x55 = 0"

lemma paired_bits: "paired v \<Longrightarrow> bit v (2 * i) \<longleftrightarrow> bit v (Suc (2 * i))"
proof (cases "i < 4")
  case True
  assume "paired v"
  then have *: "bit ((v XOR drop_bit 1 v) AND 0x55) m = False" for m by (simp add: paired_def)
  from True have "i = 0 \<or> i = 1 \<or> i = 2 \<or> i = 3" by auto
  then show ?thesis
    using * [of 0] * [of 2] * [of 4] * [of 6]
    by (elim disjE) (simp_all add: bit_and_iff bit_xor_iff bit_drop_bit_eq eval_nat_numeral)
next
  case False
  then have "\<not> bit v (2 * i)" and "\<not> bit v (Suc (2 * i))" by (simp_all add: impossible_bit)
  then show ?thesis by simp
qed

lemma bit_ecc_join:
  "bit (ucast s0 OR push_bit 8 (ucast s1) OR push_bit 16 (ucast s2) :: u32) m \<longleftrightarrow>
   m < 8 \<and> bit (s0::u8) m \<or> 8 \<le> m \<and> m < 16 \<and> bit (s1::u8) (m - 8) \<or> 16 \<le> m \<and> m < 24 \<and> bit (s2::u8) (m - 16)"
  by (auto simp: bit_or_iff bit_push_bit_iff bit_unsigned_iff dest: bit_imp_le_length)

lemma even_countbits_join:
  assumes "paired s0" "paired s1" "paired s2"
  shows "even (countbits (ucast s0 OR push_bit 8 (ucast s1) OR push_bit 16 (ucast s2)))"
proof (rule even_countbits_pairs)
  fix i :: nat
  have "2 * i - 8 = 2 * (i - 4)" "2 * i - 16 = 2 * (i - 8)" by simp_all
  moreover have "8 \<le> 2 * i \<Longrightarrow> Suc (2 * i) - 8 = Suc (2 * (i - 4))" "16 \<le> 2 * i \<Longrightarrow> Suc (2 * i) - 16 = Suc (2 * (i - 8))" by auto
  moreover have "Suc (2 * i) < 8 \<longleftrightarrow> 2 * i < 8" "8 \<le> Suc (2 * i) \<longleftrightarrow> 8 \<le> 2 * i" "Suc (2 * i) < 16 \<longleftrightarrow> 2 * i < 16"
    "16 \<le> Suc (2 * i) \<longleftrightarrow> 16 \<le> 2 * i" "Suc (2 * i) < 24 \<longleftrightarrow> 2 * i < 24" by presburger+
  ultimately show "bit (ucast s0 OR push_bit 8 (ucast s1) OR push_bit 16 (ucast s2) :: u32) (2 * i) \<longleftrightarrow>
      bit (ucast s0 OR push_bit 8 (ucast s1) OR push_bit 16 (ucast s2) :: u32) (Suc (2 * i))"
    using paired_bits [OF assms(1), of i] paired_bits [OF assms(2), of "i - 4"]
      paired_bits [OF assms(3), of "i - 8"]
    unfolding bit_ecc_join by metis
qed

lemma paired_tmp: "paired (ecc_tmp1 e e)" "paired (ecc_tmp2 e e)"
  unfolding paired_def
  by (rule word_bit_eq8; simp only: bit_and_iff bit_drop_bit_eq bit_xor_iff;
      simp add: ecc_tmp_bits ecc_tmp_bits [unfolded One_nat_def numeral_3_eq_3])+

lemma ecc_tmp_eq_0: "ecc_tmp1 e e = 0 \<Longrightarrow> ecc_tmp2 e e = 0 \<Longrightarrow> e = 0"
proof (rule word_bit_eq8)
  assume "ecc_tmp1 e e = 0" "ecc_tmp2 e e = 0"
  then have "bit (ecc_tmp1 e e) m = False" "bit (ecc_tmp2 e e) m = False" for m by simp_all
  from this [of 7] this [of 5] this [of 3] this [of 1]
  show "bit e 0 = bit 0 0" "bit e 1 = bit 0 1" "bit e 2 = bit 0 2" "bit e 3 = bit 0 3"
    "bit e 4 = bit 0 4" "bit e 5 = bit 0 5" "bit e 6 = bit 0 6" "bit e 7 = bit 0 7"
    by (simp_all only: ecc_tmp_bits) simp_all
qed

lemma xor_eq_0D: "(u::u8) XOR v = 0 \<Longrightarrow> u = v"
proof (rule bit_word_eqI)
  fix n assume "u XOR v = 0"
  then have "bit (u XOR v) n = False" by simp
  then show "bit u n = bit v n" by (simp add: bit_xor_iff)
qed

lemma double_flip_detected:
  assumes b: "b < 8" "j < 256" "j < length dat" and c: "c < 8" "k < 256" "k < length dat"
    and ne: "(j, b) \<noteq> (k, c)"
  defines "da \<equiv> dat[j := dat ! j XOR 2 ^ b]"
  defines "db \<equiv> da[k := da ! k XOR 2 ^ c]"
  shows "nand_correct_data db (nand_calculate_ecc dat) (nand_calculate_ecc db) = (- EBADMSG, db)"
proof -
  let ?e = "word_of_nat j XOR word_of_nat k :: u8"
  let ?v = "push_bit 2 ((column_parity b XOR column_parity c) AND 0x3f)"
  obtain r0 r1 r2 where r: "nand_calculate_ecc dat = (r0, r1, r2)" by (metis prod_cases3)
  obtain c0 c1 c2 where cc: "nand_calculate_ecc db = (c0, c1, c2)" by (metis prod_cases3)
  note syn = syndrome_flip2 [OF b c r cc [unfolded db_def da_def]]
  have v: "paired ?v" "?v = 0 \<Longrightarrow> b = c"
    using column_parity_pair_even [OF b(1) c(1)] by (simp_all only: paired_def Let_def)
  have "ecc_tmp2 ?e ?e OR ecc_tmp1 ?e ?e OR ?v \<noteq> 0"
  proof
    assume "ecc_tmp2 ?e ?e OR ecc_tmp1 ?e ?e OR ?v = 0"
    then have "?v = 0" "ecc_tmp1 ?e ?e = 0" "ecc_tmp2 ?e ?e = 0" by (simp_all only: or_eq_0_iff)
    then have "b = c" "?e = 0" using v(2) ecc_tmp_eq_0 by blast+
    then have "(word_of_nat j :: u8) = word_of_nat k" by (blast dest: xor_eq_0D)
    then have "unat (word_of_nat j :: u8) = unat (word_of_nat k :: u8)" by simp
    then have "j = k" using b(2) c(2) by (simp add: unat_of_nat)
    with \<open>b = c\<close> ne show False by simp
  qed
  moreover have "(ecc_tmp1 ?e ?e XOR drop_bit 1 (ecc_tmp1 ?e ?e)) AND 0x55 \<noteq> 0x55"
    using paired_tmp(1) [of ?e] by (simp add: paired_def)
  moreover have "countbits (ucast (ecc_tmp2 ?e ?e) OR push_bit 8 (ucast (ecc_tmp1 ?e ?e)) OR push_bit 16 (ucast ?v)) \<noteq> 1"
    using even_countbits_join [OF paired_tmp(2) paired_tmp(1) v(1), of ?e ?e] by (metis odd_one)
  ultimately show ?thesis
    unfolding nand_correct_data_def r cc Let_def prod.case syn by (simp only: if_False simp_thms if_not_P)
qed


lemma countbits_0: "countbits 0 = 0"
  by (simp add: countbits.simps)

lemma countbits_pow2: "k < 32 \<Longrightarrow> countbits (2 ^ k) = 1"
proof (induction k)
  case 0
  show ?case using countbits_step [of 1] by (simp add: countbits_0)
next
  case (Suc k)
  have "drop_bit 1 (2 ^ Suc k :: u32) = 2 ^ k"
    using Suc.prems by (intro bit_word_eqI) (auto simp: bit_drop_bit_eq bit_exp_iff simp del: power_Suc)
  moreover have "\<not> bit (2 ^ Suc k :: u32) 0" by (simp add: bit_0)
  ultimately show ?case using countbits_step [of "2 ^ Suc k"] Suc by simp
qed

lemma code_byte_syndrome:
  assumes "b < 8"
  shows "countbits (ucast ((2::u8) ^ b)) = 1" "countbits (push_bit 8 (ucast ((2::u8) ^ b))) = 1"
    "countbits (push_bit 16 (ucast ((2::u8) ^ b))) = 1"
proof -
  have u: "(ucast ((2::u8) ^ b) :: u32) = 2 ^ b"
    using assms by (intro bit_word_eqI) (auto simp: bit_unsigned_iff bit_exp_iff)
  show "countbits (ucast ((2::u8) ^ b)) = 1" "countbits (push_bit 8 (ucast ((2::u8) ^ b))) = 1"
    "countbits (push_bit 16 (ucast ((2::u8) ^ b))) = 1"
    unfolding u push_bit_eq_mult power_add [symmetric] using assms by (auto intro!: countbits_pow2)
qed

fun flip_code :: "nat \<Rightarrow> nat \<Rightarrow> ecc_code \<Rightarrow> ecc_code" where
  "flip_code 0 b (c0, c1, c2) = (c0 XOR 2 ^ b, c1, c2)"
| "flip_code (Suc 0) b (c0, c1, c2) = (c0, c1 XOR 2 ^ b, c2)"
| "flip_code (Suc (Suc m)) b (c0, c1, c2) = (c0, c1, c2 XOR 2 ^ b)"

lemma code_flip_tolerated:
  assumes "b < 8"
  shows "nand_correct_data dat (flip_code m b code) code = (1, dat)"
proof -
  obtain c0 c1 c2 where c: "code = (c0, c1, c2)" by (metis prod_cases3)
  have x: "v XOR (v XOR w) = w" for v w :: u8
    by (rule bit_word_eqI) (auto simp: bit_simps)
  have nz: "\<not> 8 \<le> b" using assms by simp
  consider "m = 0" | "m = 1" | k where "m = Suc (Suc k)" by (metis One_nat_def not0_implies_Suc)
  then show ?thesis
    by cases (simp_all add: c nand_correct_data_def Let_def x nz code_byte_syndrome [OF assms])
qed


section \<open>Properties\<close>

text \<open>C26: The correction repairs any single flipped data bit: for a 256-byte block, every byte
  \<open>j\<close> and every bit \<open>b\<close> of it, \<open>nand_correct_data\<close> called with the code stored for the original
  block and the code calculated over the damaged one reports one corrected bit and returns the original block.\<close>

theorem ecc_corrects_single_bit:
  assumes "length dat = 256" and "j < 256" and "b < 8"
  shows "nand_correct_data (dat[j := dat ! j XOR 2 ^ b]) (nand_calculate_ecc dat)
           (nand_calculate_ecc (dat[j := dat ! j XOR 2 ^ b])) = (1, dat)"
  using assms by (intro correct_flipped) simp_all

theorem ecc_corrects_single_bit_witness:
  "nand_correct_data ((replicate 256 0)[10 := replicate 256 0 ! 10 XOR 2 ^ 3])
     (nand_calculate_ecc (replicate 256 0))
     (nand_calculate_ecc ((replicate 256 0)[10 := replicate 256 0 ! 10 XOR 2 ^ 3])) = (1, replicate 256 0)"
  by (rule ecc_corrects_single_bit) simp_all

text \<open>C27: Two flipped data bits are never accepted and never miscorrected: with any two
  different bit positions damaged, \<open>nand_correct_data\<close> leaves the block alone and returns
  \<open>-EBADMSG\<close>.\<close>

theorem ecc_detects_double_bit:
  assumes "length dat = 256" and "j < 256" and "b < 8" and "k < 256" and "c < 8" and "(j, b) \<noteq> (k, c)"
    and "da = dat[j := dat ! j XOR 2 ^ b]" and "db = da[k := da ! k XOR 2 ^ c]"
  shows "nand_correct_data db (nand_calculate_ecc dat) (nand_calculate_ecc db) = (- EBADMSG, db)"
  using assms by (simp add: double_flip_detected)

theorem ecc_detects_double_bit_witness:
  "nand_correct_data ((replicate 256 7)[0 := 6, 200 := 135]) (nand_calculate_ecc (replicate 256 7))
     (nand_calculate_ecc ((replicate 256 7)[0 := 6, 200 := 135])) =
   (- EBADMSG, (replicate 256 7)[0 := 6, 200 := 135])"
  by (rule ecc_detects_double_bit [where j = 0 and b = 0 and k = 200 and c = 7
        and da = "(replicate 256 7)[0 := 6]"]) (simp_all add: nth_list_update)

text \<open>C28: A flipped bit in the stored code itself does not damage good data: the function
  returns 1 and the data unchanged, for each of the 24 bits.\<close>

theorem ecc_tolerates_code_bit:
  assumes "m < 3" and "b < 8"
  shows "nand_correct_data dat (flip_code m b (nand_calculate_ecc dat)) (nand_calculate_ecc dat) = (1, dat)"
  using assms(2) by (rule code_flip_tolerated)

theorem ecc_tolerates_code_bit_witness:
  "nand_correct_data [1, 2] (flip_code 2 0 (nand_calculate_ecc [1, 2])) (nand_calculate_ecc [1, 2]) = (1, [1, 2])"
  by (rule ecc_tolerates_code_bit) simp_all

text \<open>The function reports "no error" exactly when the stored and the calculated code agree.\<close>

theorem ecc_clean_iff: "fst (nand_correct_data dat read_ecc calc_ecc) = 0 \<longleftrightarrow> read_ecc = calc_ecc"
proof -
  obtain r0 r1 r2 where r: "read_ecc = (r0, r1, r2)" by (metis prod_cases3)
  obtain c0 c1 c2 where c: "calc_ecc = (c0, c1, c2)" by (metis prod_cases3)
  have "(c1 XOR r1) OR (c0 XOR r0) OR (c2 XOR r2) = 0 \<longleftrightarrow> r0 = c0 \<and> r1 = c1 \<and> r2 = c2"
    by (auto simp: or_eq_0_iff dest: xor_eq_0D)
  then show ?thesis
    by (auto simp: r c nand_correct_data_def Let_def EBADMSG_def split: if_splits)
qed

end
