(* ===== verification/Mtd.thy ===== *)
theory Mtd
  imports Prelude
begin

text \<open>
  The data that the NAND code shares: the structures of \<open>include/linux/mtd/mtd.h\<close>,
  \<open>include/linux/mtd/bbm.h\<close>, \<open>include/linux/mtd/nand.h\<close> and \<open>include/nand.h\<close>.

  \<open>nand_st\<close> is everything that the code may change: the memory, the mutable fields of
  \<open>struct nand_chip\<close> and \<open>struct mtd_info\<close>, and the state \<open>hw\<close> of the hardware, whose type
  is a parameter.  \<open>mtd_info\<close> holds the fields that are fixed once the chip has been
  scanned: geometry and function pointers.  A function pointer is a function on
  \<open>nand_st\<close>, so that the callers are modelled for every driver that may stand behind it.
  An output parameter (\<open>*retlen\<close>, \<open>*ops\<close>) is passed in and its new value returned.
\<close>

section \<open>Status codes and option bits\<close>

abbreviation (input) EIO :: int where "EIO \<equiv> 5"
abbreviation (input) ENOMEM :: int where "ENOMEM \<equiv> 12"
abbreviation (input) EFAULT :: int where "EFAULT \<equiv> 14"
abbreviation (input) EINVAL :: int where "EINVAL \<equiv> 22"
abbreviation (input) ENOSPC :: int where "ENOSPC \<equiv> 28"
abbreviation (input) EROFS :: int where "EROFS \<equiv> 30"
abbreviation (input) EUCLEAN :: int where "EUCLEAN \<equiv> 117"
abbreviation (input) ENOTSUPP :: int where "ENOTSUPP \<equiv> 524"

abbreviation (input) NAND_BBT_SCANNED :: u32 where "NAND_BBT_SCANNED \<equiv> 0x40000000"
abbreviation (input) NAND_USE_FLASH_BBT :: u32 where "NAND_USE_FLASH_BBT \<equiv> 0x00010000"

abbreviation (input) NAND_CMD_READ0 :: int where "NAND_CMD_READ0 \<equiv> 0"
abbreviation (input) NAND_CMD_READ1 :: int where "NAND_CMD_READ1 \<equiv> 1"
abbreviation (input) NAND_CMD_RNDOUT :: int where "NAND_CMD_RNDOUT \<equiv> 5"
abbreviation (input) NAND_CMD_PAGEPROG :: int where "NAND_CMD_PAGEPROG \<equiv> 0x10"
abbreviation (input) NAND_CMD_READOOB :: int where "NAND_CMD_READOOB \<equiv> 0x50"
abbreviation (input) NAND_CMD_ERASE1 :: int where "NAND_CMD_ERASE1 \<equiv> 0x60"
abbreviation (input) NAND_CMD_STATUS :: int where "NAND_CMD_STATUS \<equiv> 0x70"
abbreviation (input) NAND_CMD_STATUS_MULTI :: int where "NAND_CMD_STATUS_MULTI \<equiv> 0x71"
abbreviation (input) NAND_CMD_SEQIN :: int where "NAND_CMD_SEQIN \<equiv> 0x80"
abbreviation (input) NAND_CMD_RNDIN :: int where "NAND_CMD_RNDIN \<equiv> 0x85"
abbreviation (input) NAND_CMD_ERASE2 :: int where "NAND_CMD_ERASE2 \<equiv> 0xd0"
abbreviation (input) NAND_CMD_RESET :: int where "NAND_CMD_RESET \<equiv> 0xff"

abbreviation (input) NAND_STATUS_FAIL :: int where "NAND_STATUS_FAIL \<equiv> 0x01"
abbreviation (input) NAND_STATUS_WP :: u8 where "NAND_STATUS_WP \<equiv> 0x80"

abbreviation (input) NAND_NO_AUTOINCR :: u32 where "NAND_NO_AUTOINCR \<equiv> 0x1"
abbreviation (input) NAND_BUSWIDTH_16 :: u32 where "NAND_BUSWIDTH_16 \<equiv> 0x2"
abbreviation (input) BBT_AUTO_REFRESH :: u32 where "BBT_AUTO_REFRESH \<equiv> 0x80"
abbreviation (input) NAND_NO_READRDY :: u32 where "NAND_NO_READRDY \<equiv> 0x100"
abbreviation (input) NAND_IS_AND :: u32 where "NAND_IS_AND \<equiv> 0x20"

section \<open>Structures\<close>

datatype oob_mode = MTD_OOB_PLACE | MTD_OOB_AUTO | MTD_OOB_RAW

record oob_ops =
  ops_mode :: oob_mode
  ops_len :: u32
  ops_retlen :: u32
  ops_ooblen :: u32
  ops_oobretlen :: u32
  ops_ooboffs :: u32
  ops_datbuf :: "nat option"
  ops_oobbuf :: "nat option"

text \<open>\<open>memset(&ops, 0, sizeof(ops))\<close>\<close>

definition oob_ops_zero :: oob_ops where
  "oob_ops_zero = \<lparr>ops_mode = MTD_OOB_PLACE, ops_len = 0, ops_retlen = 0, ops_ooblen = 0,
     ops_oobretlen = 0, ops_ooboffs = 0, ops_datbuf = None, ops_oobbuf = None\<rparr>"

datatype erase_status = MTD_ERASE_PENDING | MTD_ERASING | MTD_ERASE_DONE | MTD_ERASE_FAILED

record erase_info =
  erase_addr :: u64
  erase_len :: u64
  erase_fail_addr :: u64
  erase_state :: erase_status
  erase_scrub :: bool

record oobfree =
  of_offset :: u32
  of_length :: u32

record ecclayout =
  oobavail :: u32
  oobfree :: "oobfree list"
  eccpos :: "nat list"

record bbt_descr =
  bd_options :: u32
  bd_pages :: "int list"
  bd_offs :: nat
  bd_veroffs :: nat
  bd_version :: "u8 list"
  bd_len :: nat
  bd_maxblocks :: nat
  bd_reserved_block_code :: u8
  bd_pattern :: "u8 list"

record ecc_stats =
  st_corrected :: u32
  st_failed :: u32
  st_badblocks :: u32
  st_bbtblocks :: u32

datatype fl_state = FL_READY | FL_READING | FL_WRITING | FL_ERASING | FL_SYNCING

record 'h nand_st =
  ram :: memory
  chip_bbt :: "u8 list option"
  chip_options :: u32
  chip_pagebuf :: int
  chip_scrubbed :: bool
  chip_state :: fl_state
  chip_ops :: oob_ops
  bbt_td :: "bbt_descr option"
  bbt_md :: "bbt_descr option"
  badblock_pattern :: "bbt_descr option"
  ecc_stats :: ecc_stats
  hw :: 'h

text \<open>
  The geometry, the chip and its device are one record, in layers: each layer adds the function pointers
  that are implemented in terms of the layers before.  \<open>mtd_geom\<close> is the geometry of \<open>struct mtd_info\<close>;
  \<open>nand_core\<close> and \<open>nand_hw\<close> the board driver's part of \<open>struct nand_chip\<close> and the ECC parameters;
  \<open>nand_ecc\<close> the page access functions of \<open>struct nand_ecc_ctrl\<close>;
  \<open>nand_chip\<close> the operations of the chip;
  \<open>mtd_rw\<close> and \<open>mtd_info\<close> the operations of \<open>struct mtd_info\<close>.
\<close>

record mtd_geom =
  mtd_size :: u64
  erasesize :: u32
  writesize :: u32
  oobsize :: u32
  oobused :: u32
  mtd_oobavail :: u32

datatype ecc_mode = NAND_ECC_NONE | NAND_ECC_SOFT | NAND_ECC_HW | NAND_ECC_HW_SYNDROME | NAND_ECC_HW_OOB_FIRST

record 'h nand_core = mtd_geom +
  page_shift :: nat
  phys_erase_shift :: nat
  bbt_erase_shift :: nat
  chip_shift :: nat
  pagemask :: int
  numchips :: nat
  chipsize :: u64
  badblockpos :: nat
  subpagesize :: u32
  databuf :: nat
  oob_poi :: nat
  ecccode :: nat
  ecccalc :: nat
  ecclayout :: ecclayout
  ecc_mode :: ecc_mode
  ecc_size :: nat
  ecc_bytes :: nat
  ecc_steps :: nat
  ecc_total :: nat
  ecc_prepad :: nat
  ecc_postpad :: nat
  select_chip :: "int \<Rightarrow> 'h nand_st \<Rightarrow> 'h nand_st"
  cmdfunc :: "int \<Rightarrow> int \<Rightarrow> int \<Rightarrow> 'h nand_st \<Rightarrow> 'h nand_st"
  waitfunc :: "'h nand_st \<Rightarrow> int \<times> 'h nand_st"
  wait_ready :: "'h nand_st \<Rightarrow> 'h nand_st"
  read_byte :: "'h nand_st \<Rightarrow> u8 \<times> 'h nand_st"
  read_word :: "'h nand_st \<Rightarrow> u16 \<times> 'h nand_st"
  read_buf :: "nat \<Rightarrow> nat \<Rightarrow> 'h nand_st \<Rightarrow> 'h nand_st"
  write_buf :: "nat \<Rightarrow> nat \<Rightarrow> 'h nand_st \<Rightarrow> 'h nand_st"
  errstat :: "(fl_state \<Rightarrow> int \<Rightarrow> int \<Rightarrow> 'h nand_st \<Rightarrow> int \<times> 'h nand_st) option"
  ecc_hwctl :: "int \<Rightarrow> 'h nand_st \<Rightarrow> 'h nand_st"
  ecc_calculate :: "nat \<Rightarrow> nat \<Rightarrow> 'h nand_st \<Rightarrow> 'h nand_st"
  ecc_correct :: "nat \<Rightarrow> nat \<Rightarrow> nat option \<Rightarrow> 'h nand_st \<Rightarrow> int \<times> 'h nand_st"

text \<open>
  A driver may put a function of its own into \<open>block_bad\<close>; like every function of the chip it works on the chip as it is when
  it is called.  \<open>None\<close> leaves it to the scan, which puts in the default one.
\<close>

record 'h nand_hw = "'h nand_core" +
  block_bad_fn :: "('h nand_core \<Rightarrow> u64 \<Rightarrow> bool \<Rightarrow> 'h nand_st \<Rightarrow> int \<times> 'h nand_st) option"

record 'h nand_ecc = "'h nand_hw" +
  ecc_read_page_raw :: "nat \<Rightarrow> int \<Rightarrow> 'h nand_st \<Rightarrow> int \<times> 'h nand_st"
  ecc_read_page :: "nat \<Rightarrow> int \<Rightarrow> 'h nand_st \<Rightarrow> int \<times> 'h nand_st"
  ecc_read_subpage :: "u32 \<Rightarrow> u32 \<Rightarrow> nat \<Rightarrow> 'h nand_st \<Rightarrow> int \<times> 'h nand_st"
  ecc_write_page_raw :: "nat \<Rightarrow> 'h nand_st \<Rightarrow> 'h nand_st"
  ecc_write_page :: "nat \<Rightarrow> 'h nand_st \<Rightarrow> 'h nand_st"
  ecc_read_oob :: "int \<Rightarrow> bool \<Rightarrow> 'h nand_st \<Rightarrow> bool \<times> 'h nand_st"
  ecc_write_oob :: "int \<Rightarrow> 'h nand_st \<Rightarrow> int \<times> 'h nand_st"

record 'h nand_chip = "'h nand_ecc" +
  write_page :: "nat \<Rightarrow> int \<Rightarrow> bool \<Rightarrow> bool \<Rightarrow> 'h nand_st \<Rightarrow> int \<times> 'h nand_st"
  erase_cmd :: "int \<Rightarrow> 'h nand_st \<Rightarrow> 'h nand_st"
  block_bad :: "u64 \<Rightarrow> bool \<Rightarrow> 'h nand_st \<Rightarrow> int \<times> 'h nand_st"
  scan_bbt :: "'h nand_st \<Rightarrow> (int \<times> 'h nand_st) option"

record 'h mtd_rw = "'h nand_chip" +
  mtd_read :: "u64 \<Rightarrow> u32 \<Rightarrow> u32 \<Rightarrow> nat \<Rightarrow> 'h nand_st \<Rightarrow> ((int \<times> u32) \<times> 'h nand_st) option"
  mtd_write :: "u64 \<Rightarrow> u32 \<Rightarrow> u32 \<Rightarrow> nat \<Rightarrow> 'h nand_st \<Rightarrow> ((int \<times> u32) \<times> 'h nand_st) option"
  mtd_read_oob :: "u64 \<Rightarrow> oob_ops \<Rightarrow> 'h nand_st \<Rightarrow> ((int \<times> oob_ops) \<times> 'h nand_st) option"
  mtd_write_oob :: "u64 \<Rightarrow> oob_ops \<Rightarrow> 'h nand_st \<Rightarrow> ((int \<times> oob_ops) \<times> 'h nand_st) option"

record 'h mtd_info = "'h mtd_rw" +
  block_markbad :: "u64 \<Rightarrow> 'h nand_st \<Rightarrow> (int \<times> 'h nand_st) option"
  mtd_erase :: "erase_info \<Rightarrow> 'h nand_st \<Rightarrow> ((int \<times> erase_info) \<times> 'h nand_st) option"
  mtd_block_isbad :: "u64 \<Rightarrow> 'h nand_st \<Rightarrow> (int \<times> 'h nand_st) option"
  mtd_block_markbad :: "(u64 \<Rightarrow> 'h nand_st \<Rightarrow> (int \<times> 'h nand_st) option) option"

section \<open>The inline wrappers of \<open>include/nand.h\<close>\<close>

definition nand_read :: "'h mtd_info \<Rightarrow> u64 \<Rightarrow> u32 \<Rightarrow> nat \<Rightarrow> 'h nand_st \<Rightarrow> ((int \<times> u32) \<times> 'h nand_st) option" where
  "nand_read m ofs n buf s = mtd_read m ofs n n buf s"

definition nand_write :: "'h mtd_info \<Rightarrow> u64 \<Rightarrow> u32 \<Rightarrow> nat \<Rightarrow> 'h nand_st \<Rightarrow> ((int \<times> u32) \<times> 'h nand_st) option" where
  "nand_write m ofs n buf s = mtd_write m ofs n n buf s"

definition nand_block_isbad :: "'h mtd_info \<Rightarrow> u64 \<Rightarrow> 'h nand_st \<Rightarrow> (int \<times> 'h nand_st) option" where
  "nand_block_isbad m ofs s = mtd_block_isbad m ofs s"

text \<open>\<open>(int)(x >> n)\<close> of a 64-bit offset.\<close>

definition int_shift :: "u64 \<Rightarrow> nat \<Rightarrow> int" where
  "int_shift x n = sint (ucast (signed_drop_bit n x) :: u32)"

text \<open>\<open>x & ((loff_t)E - 1)\<close> and \<open>x & ~((loff_t)E - 1)\<close> for the erase block size \<open>E\<close>.\<close>

definition block_offset_of :: "'a mtd_geom_scheme \<Rightarrow> u64 \<Rightarrow> u64" where
  "block_offset_of m x = x AND ucast (erasesize m - 1)"

definition block_start_of :: "'a mtd_geom_scheme \<Rightarrow> u64 \<Rightarrow> u64" where
  "block_start_of m x = x AND NOT (ucast (erasesize m) - 1)"

lemma unat_block_offset_of [align_simps]:
  "pow2_size (erasesize m) \<Longrightarrow> unat (block_offset_of m x) = unat x mod unat (erasesize m)"
  by (simp add: block_offset_of_def align_simps)

lemma unat_block_start_of [align_simps]:
  "pow2_size (erasesize m) \<Longrightarrow> unat (block_start_of m x) = unat x - unat x mod unat (erasesize m)"
  by (simp add: block_start_of_def align_simps)

end
