(* ===== verification/NandUtil.thy ===== *)
theory NandUtil
  imports Mtd
begin

text \<open>
  The skip-bad-block layer of \<open>drivers/mtd/nand/nand_util.c\<close>: erasing with options, the
  length of an image including the bad blocks it steps over, reading and writing images with and
  without spare (yaffs) data, and the lock commands.  Console output is not modelled.  The
  \<open>while\<close> loops are \<open>partial_function (option)\<close>: \<open>None\<close> is a loop that does not end.
\<close>

section \<open>Bad-block aware length\<close>

partial_function (option) get_len_loop ::
  "'h mtd_info \<Rightarrow> u32 \<Rightarrow> u64 \<Rightarrow> u32 \<Rightarrow> u32 \<Rightarrow> 'h nand_st \<Rightarrow> ((u32 \<times> u32) \<times> 'h nand_st) option" where
  "get_len_loop m n offset len_incl_bad len_excl_bad s =
     (if \<not> len_excl_bad < n then Some ((len_incl_bad, len_excl_bad), s)
      else let block_len = ucast (ucast (erasesize m) - block_offset_of m offset) :: u32 in
        do {
          (bad, s) \<leftarrow> nand_block_isbad m (block_start_of m offset) s;
          (let excl = (if bad = 0 then len_excl_bad + block_len else len_excl_bad);
               incl = len_incl_bad + block_len;
               off = offset + ucast block_len
           in if mtd_size m \<le> off then Some ((incl, excl), s)
              else get_len_loop m n off incl excl s)
        })"

text \<open>The length including bad blocks and whether the image was truncated by the end of the device.\<close>

definition get_len_incl_bad ::
  "'h mtd_info \<Rightarrow> u64 \<Rightarrow> u32 \<Rightarrow> 'h nand_st \<Rightarrow> ((u32 \<times> bool) \<times> 'h nand_st) option" where
  "get_len_incl_bad m offset n s =
     (let align = ucast (block_offset_of m (offset + ucast n)) :: u32 in
      do {
        ((incl, excl), s) \<leftarrow> get_len_loop m n offset 0 0 s;
        (let truncate = excl < n;
             incl' = (if align \<noteq> 0 \<and> \<not> truncate then incl - (erasesize m - align) else incl)
         in Some ((incl', truncate), s))
      })"

section \<open>Writing an image\<close>

text \<open>\<open>page_empty\<close> returns 1 when a 32-bit word of the page differs from \<open>0xffffffff\<close>.\<close>

definition page_empty :: "memory \<Rightarrow> nat \<Rightarrow> u32 \<Rightarrow> int" where
  "page_empty mm buf pagesize =
     (if \<exists>i \<in> {0 ..< unat pagesize div 4}. load_bytes mm (buf + 4 * i) 4 \<noteq> replicate 4 0xff then 1 else 0)"

partial_function (option) write_skip_empty_loop ::
  "'h mtd_info \<Rightarrow> u64 \<Rightarrow> u32 \<Rightarrow> nat \<Rightarrow> u32 \<Rightarrow> 'h nand_st \<Rightarrow> ((int \<times> u32) \<times> 'h nand_st) option" where
  "write_skip_empty_loop m ofs left buf retlen s =
     (if left = 0 then Some ((0, retlen), s)
      else do {
        ((ret, n), s) \<leftarrow>
          (if page_empty (ram s) buf (writesize m) \<noteq> 0 then nand_write m ofs (writesize m) buf s
           else Some ((0, writesize m), s));
        (if ret \<noteq> 0 then Some ((ret, retlen), s)
         else write_skip_empty_loop m (ofs + ucast (writesize m)) (left - writesize m)
                (buf + unat (writesize m)) (retlen + n) s)
      })"

text \<open>The status and the new value of \<open>*len\<close>.\<close>

definition nand_write_skip_empty ::
  "'h mtd_info \<Rightarrow> u64 \<Rightarrow> u32 \<Rightarrow> nat \<Rightarrow> 'h nand_st \<Rightarrow> ((int \<times> u32) \<times> 'h nand_st) option" where
  "nand_write_skip_empty m ofs n buf s = write_skip_empty_loop m ofs n buf 0 s"

text \<open>How much of the request fits in the current block (the chunk of one loop round).\<close>

definition chunk_size :: "'h mtd_info \<Rightarrow> u64 \<Rightarrow> u32 \<Rightarrow> u32" where
  "chunk_size m offset n =
     (let block_offset = ucast (block_offset_of m offset) :: u32
      in if n < erasesize m - block_offset then n else erasesize m - block_offset)"

partial_function (option) write_skip_bad_loop ::
  "'h mtd_info \<Rightarrow> bool \<Rightarrow> u64 \<Rightarrow> u32 \<Rightarrow> nat \<Rightarrow> int \<Rightarrow> 'h nand_st \<Rightarrow> (int \<times> 'h nand_st) option" where
  "write_skip_bad_loop m skipempty offset n pbuf ret s =
     (if n = 0 then Some (0, s)
      else if mtd_size m \<le> offset then Some (ret, s)
      else do {
        (bad, s) \<leftarrow> nand_block_isbad m (block_start_of m offset) s;
        (if bad \<noteq> 0 then
           write_skip_bad_loop m skipempty (offset + ucast (erasesize m)) n pbuf ret s
         else do {
           ((ret, wrote), s) \<leftarrow>
             (if skipempty then nand_write_skip_empty m offset (chunk_size m offset n) pbuf s
              else nand_write m offset (chunk_size m offset n) pbuf s);
           (if ret \<noteq> 0 then Some (ret, s)
            else write_skip_bad_loop m skipempty (offset + ucast wrote) (n - wrote)
                   (pbuf + unat wrote) ret s)
         })
      })"

definition nand_write_skip_bad ::
  "'h mtd_info \<Rightarrow> u64 \<Rightarrow> u32 \<Rightarrow> nat \<Rightarrow> bool \<Rightarrow> 'h nand_st \<Rightarrow> (int \<times> 'h nand_st) option" where
  "nand_write_skip_bad m offset n buffer skipempty s =
     (if mtd_size m \<le> offset then Some (- EINVAL, s)
      else if offset AND ucast (writesize m - 1) \<noteq> 0 \<or> n AND (writesize m - 1) \<noteq> 0 then Some (- EINVAL, s)
      else do {
        ((_, truncate), s) \<leftarrow> get_len_incl_bad m offset n s;
        (if truncate then Some (- EINVAL, s)
         else write_skip_bad_loop m skipempty offset n buffer (- EINVAL) s)
      })"

section \<open>Reading an image\<close>

text \<open>
  The loop of \<open>nand_read_skip_bad\<close>: the status and how far \<open>pbuf\<close> has come.
\<close>

partial_function (option) read_skip_bad_loop ::
  "'h mtd_info \<Rightarrow> u64 \<Rightarrow> u32 \<Rightarrow> nat \<Rightarrow> 'h nand_st \<Rightarrow> ((int \<times> nat) \<times> 'h nand_st) option" where
  "read_skip_bad_loop m offset n pbuf s =
     (if n = 0 then Some ((0, pbuf), s)
      else if mtd_size m \<le> offset then Some ((0, pbuf), s)
      else do {
        (bad, s) \<leftarrow> nand_block_isbad m (block_start_of m offset) s;
        (if bad \<noteq> 0 then read_skip_bad_loop m (offset + ucast (erasesize m)) n pbuf s
         else do {
           ((ret, got), s) \<leftarrow> nand_read m offset (chunk_size m offset n) pbuf s;
           (if ret \<noteq> 0 \<and> ret \<noteq> - EUCLEAN then Some ((ret, pbuf), s)
            else read_skip_bad_loop m (offset + ucast got) (n - got) (pbuf + unat got) s)
         })
      })"

text \<open>The status and the new value of \<open>*length\<close>.\<close>

definition nand_read_skip_bad ::
  "'h mtd_info \<Rightarrow> u64 \<Rightarrow> u32 \<Rightarrow> nat \<Rightarrow> 'h nand_st \<Rightarrow> ((int \<times> u32) \<times> 'h nand_st) option" where
  "nand_read_skip_bad m offset len0 buffer s =
     (if len0 = 0 then Some ((- EINVAL, 0), s)
      else if mtd_size m \<le> offset then Some ((- EINVAL, 0), s)
      else if offset AND ucast (writesize m - 1) \<noteq> 0 then Some ((- EINVAL, 0), s)
      else
        let n1 = (if len0 AND (writesize m - 1) \<noteq> 0 then len0 AND NOT (writesize m - 1) else len0);
            n2 = (if mtd_size m < offset + ucast n1 then ucast (mtd_size m - offset) else n1)
        in if n2 = 0 then Some ((- EINVAL, 0), s)
           else do {
             (_, s) \<leftarrow> get_len_incl_bad m offset n2 s;
             ((ret, pbuf), s) \<leftarrow> read_skip_bad_loop m offset n2 buffer s;
             Some ((ret, word_of_nat (pbuf - buffer)), s)
           })"

section \<open>Images with spare data (yaffs)\<close>

fun fill_ecc_loop :: "oobfree list \<Rightarrow> nat \<Rightarrow> u32 \<Rightarrow> u32 \<Rightarrow> memory \<Rightarrow> u32 \<times> memory" where
  "fill_ecc_loop [] oob n offset mm = (offset, mm)"
| "fill_ecc_loop (f # fs) oob n offset mm =
     (if of_length f \<noteq> 0 \<and> offset < n then
        fill_ecc_loop fs oob n (of_offset f + of_length f)
          (if offset < of_offset f
           then fill_bytes mm (oob + unat offset) 0xff (unat (min n (of_offset f) - offset))
           else mm)
      else (offset, mm))"

definition nand_fill_ecc :: "('h, 'z) nand_hw_scheme \<Rightarrow> nat \<Rightarrow> u32 \<Rightarrow> memory \<Rightarrow> memory" where
  "nand_fill_ecc c oob n mm =
     (let (offset, mm) = fill_ecc_loop (oobfree (ecclayout c)) oob n 0 mm
      in if offset < n then fill_bytes mm (oob + unat offset) 0xff (unat (n - offset)) else mm)"

text \<open>The request for one page of an image: the page data followed by its spare bytes.\<close>

definition yaffs_ops :: "'h mtd_info \<Rightarrow> nat \<Rightarrow> oob_ops \<Rightarrow> oob_ops" where
  "yaffs_ops m pbuf ops =
     ops\<lparr>ops_datbuf := Some pbuf, ops_oobbuf := Some (pbuf + unat (writesize m)),
         ops_len := writesize m, ops_ooblen := oobused m, ops_ooboffs := 0, ops_mode := MTD_OOB_RAW\<rparr>"

text \<open>
  The page loop of one block.  The status is nonzero exactly when a page failed and the
  function is left; the offset and the buffer position are those reached.
\<close>

primrec yaffs_write_pages ::
  "'h mtd_info \<Rightarrow> nat \<Rightarrow> u64 \<Rightarrow> nat \<Rightarrow> oob_ops \<Rightarrow> 'h nand_st \<Rightarrow> ((int \<times> u64 \<times> nat \<times> oob_ops) \<times> 'h nand_st) option" where
  "yaffs_write_pages m 0 offset pbuf ops s = Some ((0, offset, pbuf, ops), s)"
| "yaffs_write_pages m (Suc k) offset pbuf ops s =
     do {
       ((ret, ops), s) \<leftarrow> mtd_write_oob m offset (yaffs_ops m pbuf ops) s;
       (if ret \<noteq> 0 then Some ((ret, offset, pbuf, ops), s)
        else yaffs_write_pages m k (offset + ucast (writesize m))
               (pbuf + unat (writesize m + oobused m)) ops s)
     }"

partial_function (option) write_yaffs_loop ::
  "'h mtd_info \<Rightarrow> u64 \<Rightarrow> u32 \<Rightarrow> nat \<Rightarrow> oob_ops \<Rightarrow> int \<Rightarrow> 'h nand_st \<Rightarrow> (int \<times> 'h nand_st) option" where
  "write_yaffs_loop m offset n pbuf ops ret s =
     (if n = 0 then Some (0, s)
      else if mtd_size m \<le> offset then Some (ret, s)
      else do {
        (bad, s) \<leftarrow> nand_block_isbad m (block_start_of m offset) s;
        (if bad \<noteq> 0 then write_yaffs_loop m (offset + ucast (erasesize m)) n pbuf ops ret s
         else let write_size = chunk_size m offset n; pages = unat (write_size div writesize m) in
           do {
             ((r, offset, pbuf, ops), s) \<leftarrow> yaffs_write_pages m pages offset pbuf ops s;
             (if r \<noteq> 0 then Some (r, s)
              else write_yaffs_loop m offset (n - write_size) pbuf ops (if pages = 0 then ret else 0) s)
           })
      })"

definition nand_write_yaffs_skip_bad ::
  "'h mtd_info \<Rightarrow> u64 \<Rightarrow> u32 \<Rightarrow> nat \<Rightarrow> 'h nand_st \<Rightarrow> (int \<times> 'h nand_st) option" where
  "nand_write_yaffs_skip_bad m offset n buffer s =
     (if mtd_size m \<le> offset then Some (- EINVAL, s)
      else if offset AND ucast (writesize m - 1) \<noteq> 0 then Some (- EINVAL, s)
      else if n mod (writesize m + oobused m) \<noteq> 0 then Some (- EINVAL, s)
      else let len_excl_oob = n div (writesize m + oobused m) * writesize m in
        do {
          ((_, truncate), s) \<leftarrow> get_len_incl_bad m offset len_excl_oob s;
          (if truncate then Some (- EINVAL, s)
           else write_yaffs_loop m offset len_excl_oob buffer oob_ops_zero (- EINVAL) s)
        })"

primrec yaffs_read_pages ::
  "'h mtd_info \<Rightarrow> nat \<Rightarrow> u64 \<Rightarrow> nat \<Rightarrow> oob_ops \<Rightarrow> 'h nand_st \<Rightarrow> ((int \<times> u64 \<times> nat \<times> oob_ops) \<times> 'h nand_st) option" where
  "yaffs_read_pages m 0 offset pbuf ops s = Some ((0, offset, pbuf, ops), s)"
| "yaffs_read_pages m (Suc k) offset pbuf ops s =
     do {
       ((ret, ops), s) \<leftarrow> mtd_read_oob m offset (yaffs_ops m pbuf ops) s;
       (if ret \<noteq> 0 then Some ((ret, offset, pbuf, ops), s)
        else yaffs_read_pages m k (offset + ucast (writesize m))
               (pbuf + unat (writesize m + oobused m)) ops
               (s\<lparr>ram := nand_fill_ecc m (pbuf + unat (writesize m)) (oobused m) (ram s)\<rparr>))
     }"

partial_function (option) read_yaffs_loop ::
  "'h mtd_info \<Rightarrow> u64 \<Rightarrow> u32 \<Rightarrow> nat \<Rightarrow> oob_ops \<Rightarrow> 'h nand_st \<Rightarrow> ((int \<times> nat) \<times> 'h nand_st) option" where
  "read_yaffs_loop m offset n pbuf ops s =
     (if n = 0 then Some ((0, pbuf), s)
      else if mtd_size m \<le> offset then Some ((0, pbuf), s)
      else do {
        (bad, s) \<leftarrow> nand_block_isbad m (block_start_of m offset) s;
        (if bad \<noteq> 0 then read_yaffs_loop m (offset + ucast (erasesize m)) n pbuf ops s
         else let read_size = chunk_size m offset n in
           do {
             ((r, offset, pbuf, ops), s) \<leftarrow>
               yaffs_read_pages m (unat (read_size div writesize m)) offset pbuf ops s;
             (if r \<noteq> 0 then Some ((r, pbuf), s)
              else read_yaffs_loop m offset (n - read_size) pbuf ops s)
           })
      })"

definition nand_read_yaffs_skip_bad ::
  "'h mtd_info \<Rightarrow> u64 \<Rightarrow> u32 \<Rightarrow> nat \<Rightarrow> 'h nand_st \<Rightarrow> ((int \<times> u32) \<times> 'h nand_st) option" where
  "nand_read_yaffs_skip_bad m offset len0 buffer s =
     (let page_oob = writesize m + oobused m;
          len_incl_oob = (if len0 mod page_oob \<noteq> 0 then len0 - len0 mod page_oob else len0);
          excl0 = len_incl_oob div page_oob * writesize m;
          len_excl_oob = (if mtd_size m < offset + ucast excl0 then ucast (mtd_size m - offset) else excl0)
      in if len0 = 0 then Some ((- EINVAL, 0), s)
         else if mtd_size m \<le> offset then Some ((- EINVAL, 0), s)
         else if offset AND ucast (writesize m - 1) \<noteq> 0 then Some ((- EINVAL, 0), s)
         else if len_excl_oob = 0 then Some ((- EINVAL, 0), s)
         else do {
           (_, s) \<leftarrow> get_len_incl_bad m offset len_excl_oob s;
           ((ret, pbuf), s) \<leftarrow> read_yaffs_loop m offset len_excl_oob buffer oob_ops_zero s;
           Some ((ret, word_of_nat (pbuf - buffer)), s)
         })"

section \<open>Erasing with options\<close>

record erase_options =
  opt_length :: u64
  opt_offset :: u64
  opt_quiet :: bool
  opt_jffs2 :: bool
  opt_scrub :: bool

text \<open>\<open>struct jffs2_unknown_node\<close> of a clean marker, as it lies in memory (little endian).\<close>

definition cleanmarker :: "u8 list" where
  "cleanmarker = [0x85, 0x19, 0x03, 0x20, 0x08, 0x00, 0x00, 0x00]"

text \<open>
  What happens after \<open>meminfo->erase\<close> has failed with \<open>result\<close>: the block is marked bad on an I/O
  error.  If that fails, the old \<open>block_bad\<close> function is put back around one more look at the block.
\<close>

definition nand_erase_failed ::
  "'h mtd_info \<Rightarrow> erase_options \<Rightarrow> u64 \<Rightarrow> int \<Rightarrow> 'h nand_st \<Rightarrow> (unit \<times> 'h nand_st) option" where
  "nand_erase_failed m opts addr result s =
     (case mtd_block_markbad m of
        None \<Rightarrow> Some ((), s)
      | Some markbad \<Rightarrow>
          if result = - EIO then do {
            (r, s) \<leftarrow> markbad addr s;
            (if r < 0 then do {
               (_, s) \<leftarrow> mtd_block_isbad m addr (if opt_scrub opts then s\<lparr>chip_scrubbed := False\<rparr> else s);
               Some ((), if opt_scrub opts then s\<lparr>chip_scrubbed := True\<rparr> else s)
             } else Some ((), s))
          } else Some ((), s))"

text \<open>The clean marker of a JFFS2 format; \<open>marker\<close> is the address of the local node on the stack.\<close>

definition nand_write_marker ::
  "'h mtd_info \<Rightarrow> erase_options \<Rightarrow> nat \<Rightarrow> u64 \<Rightarrow> 'h nand_st \<Rightarrow> (int \<times> 'h nand_st) option" where
  "nand_write_marker m opts marker addr s =
     (if opt_jffs2 opts \<and> 8 \<le> oobavail (ecclayout m) then
        let ops = (chip_ops s)\<lparr>ops_ooblen := 8, ops_datbuf := None, ops_oobbuf := Some marker,
                               ops_ooboffs := 0, ops_mode := MTD_OOB_AUTO\<rparr>
        in do {
          ((result, ops), s) \<leftarrow> mtd_write_oob m addr ops (s\<lparr>chip_ops := ops\<rparr>);
          Some (result, s\<lparr>chip_ops := ops\<rparr>)
        }
      else Some (0, s))"

text \<open>
  The loop over the erase blocks: \<open>Inl\<close> is a return from inside the loop, \<open>Inr\<close> the
  length erased when it ends.
\<close>

partial_function (option) nand_erase_loop ::
  "'h mtd_info \<Rightarrow> erase_options \<Rightarrow> nat \<Rightarrow> u64 \<Rightarrow> u64 \<Rightarrow> u64 \<Rightarrow> 'h nand_st \<Rightarrow> ((int + u64) \<times> 'h nand_st) option" where
  "nand_erase_loop m opts marker erase_length addr totalerase s =
     (if \<not> addr < opt_offset opts + erase_length then Some (Inr totalerase, s)
      else do {
        (bad, s) \<leftarrow> (if \<not> opt_scrub opts then mtd_block_isbad m addr s else Some (0, s));
        (if 0 < bad then
           nand_erase_loop m opts marker erase_length (addr + ucast (erasesize m)) totalerase s
         else if bad < 0 then Some (Inl (- 1), s)
         else if mtd_size m \<le> addr then Some (Inl (sint (ucast totalerase :: u32)), s)
         else do {
           ((result, _), s) \<leftarrow> mtd_erase m \<lparr>erase_addr = addr, erase_len = ucast (erasesize m),
              erase_fail_addr = 0, erase_state = MTD_ERASE_PENDING, erase_scrub = False\<rparr> s;
           (if result \<noteq> 0 then do {
              (_, s) \<leftarrow> nand_erase_failed m opts addr result s;
              nand_erase_loop m opts marker erase_length (addr + ucast (erasesize m)) totalerase s
            } else do {
              (result, s) \<leftarrow> nand_write_marker m opts marker addr s;
              nand_erase_loop m opts marker erase_length (addr + ucast (erasesize m))
                (if result \<noteq> 0 then totalerase else totalerase + ucast (erasesize m)) s
            })
         })
      })"

definition nand_erase_opts ::
  "'h mtd_info \<Rightarrow> erase_options \<Rightarrow> nat \<Rightarrow> 'h nand_st \<Rightarrow> (int \<times> 'h nand_st) option" where
  "nand_erase_opts m opts marker s0 =
     (let s1 = s0\<lparr>ram := store_bytes (ram s0) marker cleanmarker\<rparr>;
          s = (if opt_scrub opts then s1\<lparr>chip_scrubbed := True, chip_bbt := None\<rparr> else s1);
          len1 = (if word_sless (opt_length opts) (ucast (erasesize m)) then ucast (erasesize m)
                  else opt_length opts);
          len2 = (if mtd_size m < opt_offset opts + len1 then mtd_size m - opt_offset opts else len1)
      in if opt_length opts = 0 then Some (- 1, s)
         else do {
           (r, s) \<leftarrow> nand_erase_loop m opts marker len2 (opt_offset opts) 0 s;
           (case r of
              Inl ret \<Rightarrow> Some (ret, s)
            | Inr _ \<Rightarrow>
                if opt_scrub opts then
                  let s = s\<lparr>chip_scrubbed := False\<rparr> in
                  if chip_options s AND NAND_BBT_SCANNED = 0
                  then do { (_, s) \<leftarrow> scan_bbt m s; Some (0, s) }
                  else Some (0, s)
                else Some (0, s))
         })"

section \<open>Locking\<close>

abbreviation (input) NAND_CMD_LOCK :: int where "NAND_CMD_LOCK \<equiv> 0x2a"
abbreviation (input) NAND_CMD_LOCK_TIGHT :: int where "NAND_CMD_LOCK_TIGHT \<equiv> 0x2c"
abbreviation (input) NAND_CMD_UNLOCK1 :: int where "NAND_CMD_UNLOCK1 \<equiv> 0x23"
abbreviation (input) NAND_CMD_UNLOCK2 :: int where "NAND_CMD_UNLOCK2 \<equiv> 0x24"
abbreviation (input) NAND_CMD_LOCK_STATUS :: int where "NAND_CMD_LOCK_STATUS \<equiv> 0x7a"

definition nand_lock :: "'h mtd_info \<Rightarrow> bool \<Rightarrow> 'h nand_st \<Rightarrow> int \<times> 'h nand_st" where
  "nand_lock m tight s =
     (let c = m;
          s = select_chip c 0 s;
          s = cmdfunc c (if tight then NAND_CMD_LOCK_TIGHT else NAND_CMD_LOCK) (- 1) (- 1) s;
          (status, s) = waitfunc c s
      in (if status AND 0x01 \<noteq> 0 then - 1 else 0, select_chip c (- 1) s))"

definition nand_get_lock_status :: "'h mtd_info \<Rightarrow> u64 \<Rightarrow> 'h nand_st \<Rightarrow> int \<times> 'h nand_st" where
  "nand_get_lock_status m offset s =
     (let c = m;
          s = select_chip c (int_shift offset (chip_shift c)) s
      in if offset AND ucast (writesize m - 1) \<noteq> 0 then (- 1, select_chip c (- 1) s)
         else let s = cmdfunc c NAND_CMD_LOCK_STATUS (- 1) (int_shift offset (page_shift c) AND pagemask c) s;
                  (b, s) = read_byte c s
              in (uint (b AND 0x07), select_chip c (- 1) s))"

text \<open>
  \<open>start\<close> and \<open>length\<close> are 32-bit \<open>ulong\<close>s here.  A chip that answers the status command
  without its write-protect bit \<open>0x80\<close> is write protected.
\<close>

definition nand_unlock :: "'h mtd_info \<Rightarrow> u32 \<Rightarrow> u32 \<Rightarrow> 'h nand_st \<Rightarrow> int \<times> 'h nand_st" where
  "nand_unlock m start n s =
     (let c = m;
          s = select_chip c (uint (drop_bit (chip_shift c) start)) s;
          s = cmdfunc c NAND_CMD_STATUS (- 1) (- 1) s;
          (b, s) = read_byte c s
      in if b AND 0x80 = 0 then (- 1, select_chip c (- 1) s)
         else if start AND (erasesize m - 1) \<noteq> 0 then (- 1, select_chip c (- 1) s)
         else if n = 0 \<or> n AND (erasesize m - 1) \<noteq> 0 then (- 1, select_chip c (- 1) s)
         else let page = uint (drop_bit (page_shift c) start);
                  s = cmdfunc c NAND_CMD_UNLOCK1 (- 1) (page AND pagemask c) s;
                  page = page + uint (drop_bit (page_shift c) (n - erasesize m));
                  s = cmdfunc c NAND_CMD_UNLOCK2 (- 1) (page AND pagemask c) s;
                  (status, s) = waitfunc c s
              in (if status AND 0x01 \<noteq> 0 then - 1 else 0, select_chip c (- 1) s))"

end
