(* ===== verification/NandPage.thy ===== *)
theory NandPage
  imports Mtd
begin

text \<open>
  The page access functions of \<open>drivers/mtd/nand/nand_base.c\<close>: reading and writing one page with its
  spare bytes, raw or with error correction in software, in hardware or in a hardware with syndromes, and
  the transfer of spare bytes between the client's buffer and the free bytes of the layout.

  All of them run between the commands that open and close a page; the bytes go through the driver's
  \<open>read_buf\<close> and \<open>write_buf\<close>.
\<close>

section \<open>Copies\<close>

text \<open>\<open>memcpy(dst, src, n)\<close>\<close>

definition copy_bytes :: "nat \<Rightarrow> nat \<Rightarrow> nat \<Rightarrow> memory \<Rightarrow> memory" where
  "copy_bytes dst src n mm = store_bytes mm dst (load_bytes mm src n)"

definition upd_ram :: "(memory \<Rightarrow> memory) \<Rightarrow> 'h nand_st \<Rightarrow> 'h nand_st" where
  "upd_ram f s = s\<lparr>ram := f (ram s)\<rparr>"

text \<open>\<open>for (i = 0; i < n; i++) dst[i] = src[pos[i]]\<close> and \<open>dst[pos[i]] = src[i]\<close>.\<close>

definition gather_bytes :: "nat \<Rightarrow> nat \<Rightarrow> nat list \<Rightarrow> nat \<Rightarrow> memory \<Rightarrow> memory" where
  "gather_bytes dst src pos n = fold (\<lambda>i mm. mm (dst + i := mm (src + pos ! i))) [0..<n]"

definition scatter_bytes :: "nat \<Rightarrow> nat \<Rightarrow> nat list \<Rightarrow> nat \<Rightarrow> memory \<Rightarrow> memory" where
  "scatter_bytes dst src pos n = fold (\<lambda>i mm. mm (dst + pos ! i := mm (src + i))) [0..<n]"

section \<open>Raw pages\<close>

definition nand_read_page_raw :: "('h, 'z) nand_hw_scheme \<Rightarrow> nat \<Rightarrow> int \<Rightarrow> 'h nand_st \<Rightarrow> int \<times> 'h nand_st" where
  "nand_read_page_raw m buf page s =
     (0, read_buf m (oob_poi m) (unat (oobsize m)) (read_buf m buf (unat (writesize m)) s))"

definition nand_write_page_raw :: "('h, 'z) nand_hw_scheme \<Rightarrow> nat \<Rightarrow> 'h nand_st \<Rightarrow> 'h nand_st" where
  "nand_write_page_raw m buf s =
     write_buf m (oob_poi m) (unat (oobsize m)) (write_buf m buf (unat (writesize m)) s)"

text \<open>
  The spare bytes of one step of a page with syndromes: padding, code and padding.  The position in the
  spare area after it.
\<close>

definition read_padded ::
  "('h, 'z) nand_hw_scheme \<Rightarrow> nat \<Rightarrow> 'h nand_st \<Rightarrow> nat \<times> 'h nand_st" where
  "read_padded m oob s =
     (let s = (if ecc_prepad m \<noteq> 0 then read_buf m oob (ecc_prepad m) s else s); oob = oob + ecc_prepad m;
          s = read_buf m oob (ecc_bytes m) s; oob = oob + ecc_bytes m;
          s = (if ecc_postpad m \<noteq> 0 then read_buf m oob (ecc_postpad m) s else s)
      in (oob + ecc_postpad m, s))"

primrec read_raw_steps ::
  "('h, 'z) nand_hw_scheme \<Rightarrow> nat \<Rightarrow> nat \<Rightarrow> nat \<Rightarrow> 'h nand_st \<Rightarrow> nat \<times> 'h nand_st" where
  "read_raw_steps m 0 buf oob s = (oob, s)"
| "read_raw_steps m (Suc k) buf oob s =
     (let s = read_buf m buf (ecc_size m) s; (oob, s) = read_padded m oob s
      in read_raw_steps m k (buf + ecc_size m) oob s)"

text \<open>The spare bytes after the last step.\<close>

definition oob_rest :: "('h, 'z) nand_hw_scheme \<Rightarrow> nat \<Rightarrow> nat" where
  "oob_rest m oob = unat (oobsize m) - (oob - oob_poi m)"

definition nand_read_page_raw_syndrome ::
  "('h, 'z) nand_hw_scheme \<Rightarrow> nat \<Rightarrow> int \<Rightarrow> 'h nand_st \<Rightarrow> int \<times> 'h nand_st" where
  "nand_read_page_raw_syndrome m buf page s =
     (let (oob, s) = read_raw_steps m (ecc_steps m) buf (oob_poi m) s; n = oob_rest m oob
      in (0, if n \<noteq> 0 then read_buf m oob n s else s))"

text \<open>The write reads the code bytes back where it should write them.\<close>

primrec write_raw_steps ::
  "('h, 'z) nand_hw_scheme \<Rightarrow> nat \<Rightarrow> nat \<Rightarrow> nat \<Rightarrow> 'h nand_st \<Rightarrow> nat \<times> 'h nand_st" where
  "write_raw_steps m 0 buf oob s = (oob, s)"
| "write_raw_steps m (Suc k) buf oob s =
     (let s = write_buf m buf (ecc_size m) s;
          s = (if ecc_prepad m \<noteq> 0 then write_buf m oob (ecc_prepad m) s else s); oob = oob + ecc_prepad m;
          s = read_buf m oob (ecc_bytes m) s; oob = oob + ecc_bytes m;
          s = (if ecc_postpad m \<noteq> 0 then write_buf m oob (ecc_postpad m) s else s)
      in write_raw_steps m k (buf + ecc_size m) (oob + ecc_postpad m) s)"

definition nand_write_page_raw_syndrome :: "('h, 'z) nand_hw_scheme \<Rightarrow> nat \<Rightarrow> 'h nand_st \<Rightarrow> 'h nand_st" where
  "nand_write_page_raw_syndrome m buf s =
     (let (oob, s) = write_raw_steps m (ecc_steps m) buf (oob_poi m) s; n = oob_rest m oob
      in if n \<noteq> 0 then write_buf m oob n s else s)"

section \<open>Pages with error correction\<close>

definition count_ecc :: "int \<Rightarrow> 'h nand_st \<Rightarrow> 'h nand_st" where
  "count_ecc stat s =
     (if stat < 0 then s\<lparr>ecc_stats := (ecc_stats s)\<lparr>st_failed := st_failed (ecc_stats s) + 1\<rparr>\<rparr>
      else s\<lparr>ecc_stats := (ecc_stats s)\<lparr>st_corrected := st_corrected (ecc_stats s) + word_of_int stat\<rparr>\<rparr>)"

text \<open>The loop over the steps of a page: step \<open>k\<close> has its data at \<open>buf + k * size\<close> and its code at \<open>k * bytes\<close>.\<close>

definition calc_steps :: "('h, 'z) nand_hw_scheme \<Rightarrow> nat \<Rightarrow> nat \<Rightarrow> 'h nand_st \<Rightarrow> 'h nand_st" where
  "calc_steps m steps buf = fold (\<lambda>k. ecc_calculate m (buf + k * ecc_size m) (ecccalc m + k * ecc_bytes m)) [0..<steps]"

definition correct_steps :: "('h, 'z) nand_hw_scheme \<Rightarrow> nat \<Rightarrow> nat \<Rightarrow> 'h nand_st \<Rightarrow> 'h nand_st" where
  "correct_steps m steps buf = fold (\<lambda>k s.
     let (stat, s) = ecc_correct m (buf + k * ecc_size m) (ecccode m + k * ecc_bytes m)
                       (Some (ecccalc m + k * ecc_bytes m)) s
     in count_ecc stat s) [0..<steps]"

definition nand_read_page_swecc ::
  "('h, 'z) nand_hw_scheme \<Rightarrow> (nat \<Rightarrow> int \<Rightarrow> 'h nand_st \<Rightarrow> int \<times> 'h nand_st) \<Rightarrow> nat \<Rightarrow> int \<Rightarrow> 'h nand_st \<Rightarrow> int \<times> 'h nand_st" where
  "nand_read_page_swecc m read_page_raw buf page s =
     (let (_, s) = read_page_raw buf page s;
          s = calc_steps m (ecc_steps m) buf s;
          s = upd_ram (gather_bytes (ecccode m) (oob_poi m) (eccpos (ecclayout m)) (ecc_total m)) s
      in (0, correct_steps m (ecc_steps m) buf s))"

definition nand_write_page_swecc ::
  "('h, 'z) nand_hw_scheme \<Rightarrow> (nat \<Rightarrow> 'h nand_st \<Rightarrow> 'h nand_st) \<Rightarrow> nat \<Rightarrow> 'h nand_st \<Rightarrow> 'h nand_st" where
  "nand_write_page_swecc m write_page_raw buf s =
     write_page_raw buf
       (upd_ram (scatter_bytes (oob_poi m) (ecccalc m) (eccpos (ecclayout m)) (ecc_total m))
         (calc_steps m (ecc_steps m) buf s))"

definition nand_read_page_hwecc ::
  "('h, 'z) nand_hw_scheme \<Rightarrow> nat \<Rightarrow> int \<Rightarrow> 'h nand_st \<Rightarrow> int \<times> 'h nand_st" where
  "nand_read_page_hwecc m buf page s =
     (let s = fold (\<lambda>k s. ecc_calculate m (buf + k * ecc_size m) (ecccalc m + k * ecc_bytes m)
                            (read_buf m (buf + k * ecc_size m) (ecc_size m) (ecc_hwctl m 0 s))) [0..<ecc_steps m] s;
          s = read_buf m (oob_poi m) (unat (oobsize m)) s;
          s = upd_ram (gather_bytes (ecccode m) (oob_poi m) (eccpos (ecclayout m)) (ecc_total m)) s
      in (0, correct_steps m (ecc_steps m) buf s))"

definition nand_write_page_hwecc :: "('h, 'z) nand_hw_scheme \<Rightarrow> nat \<Rightarrow> 'h nand_st \<Rightarrow> 'h nand_st" where
  "nand_write_page_hwecc m buf s =
     (let s = fold (\<lambda>k s. ecc_calculate m (buf + k * ecc_size m) (ecccalc m + k * ecc_bytes m)
                            (write_buf m (buf + k * ecc_size m) (ecc_size m) (ecc_hwctl m 1 s))) [0..<ecc_steps m] s;
          s = upd_ram (scatter_bytes (oob_poi m) (ecccalc m) (eccpos (ecclayout m)) (ecc_total m)) s
      in write_buf m (oob_poi m) (unat (oobsize m)) s)"

definition nand_read_page_hwecc_oob_first ::
  "('h, 'z) nand_hw_scheme \<Rightarrow> nat \<Rightarrow> int \<Rightarrow> 'h nand_st \<Rightarrow> int \<times> 'h nand_st" where
  "nand_read_page_hwecc_oob_first m buf page s =
     (let s = cmdfunc m NAND_CMD_READOOB 0 page s;
          s = read_buf m (oob_poi m) (unat (oobsize m)) s;
          s = cmdfunc m NAND_CMD_READ0 0 page s;
          s = upd_ram (gather_bytes (ecccode m) (oob_poi m) (eccpos (ecclayout m)) (ecc_total m)) s
      in (0, fold (\<lambda>k s.
                let s = read_buf m (buf + k * ecc_size m) (ecc_size m) (ecc_hwctl m 0 s);
                    s = ecc_calculate m (buf + k * ecc_size m) (ecccalc m + k * ecc_bytes m) s;
                    (stat, s) = ecc_correct m (buf + k * ecc_size m) (ecccode m + k * ecc_bytes m) None s
                in count_ecc stat s) [0..<ecc_steps m] s))"

primrec read_syndrome_steps ::
  "('h, 'z) nand_hw_scheme \<Rightarrow> nat \<Rightarrow> nat \<Rightarrow> nat \<Rightarrow> 'h nand_st \<Rightarrow> nat \<times> 'h nand_st" where
  "read_syndrome_steps m 0 p oob s = (oob, s)"
| "read_syndrome_steps m (Suc k) p oob s =
     (let s = read_buf m p (ecc_size m) (ecc_hwctl m 0 s);
          s = (if ecc_prepad m \<noteq> 0 then read_buf m oob (ecc_prepad m) s else s); oob = oob + ecc_prepad m;
          s = read_buf m oob (ecc_bytes m) (ecc_hwctl m 2 s);
          (stat, s) = ecc_correct m p oob None s;
          s = count_ecc stat s; oob = oob + ecc_bytes m;
          s = (if ecc_postpad m \<noteq> 0 then read_buf m oob (ecc_postpad m) s else s)
      in read_syndrome_steps m k (p + ecc_size m) (oob + ecc_postpad m) s)"

definition nand_read_page_syndrome ::
  "('h, 'z) nand_hw_scheme \<Rightarrow> nat \<Rightarrow> int \<Rightarrow> 'h nand_st \<Rightarrow> int \<times> 'h nand_st" where
  "nand_read_page_syndrome m buf page s =
     (let (oob, s) = read_syndrome_steps m (ecc_steps m) buf (oob_poi m) s; i = oob_rest m oob
      in (0, if i \<noteq> 0 then read_buf m oob i s else s))"

primrec write_syndrome_steps ::
  "('h, 'z) nand_hw_scheme \<Rightarrow> nat \<Rightarrow> nat \<Rightarrow> nat \<Rightarrow> 'h nand_st \<Rightarrow> nat \<times> 'h nand_st" where
  "write_syndrome_steps m 0 p oob s = (oob, s)"
| "write_syndrome_steps m (Suc k) p oob s =
     (let s = write_buf m p (ecc_size m) (ecc_hwctl m 1 s);
          s = (if ecc_prepad m \<noteq> 0 then write_buf m oob (ecc_prepad m) s else s); oob = oob + ecc_prepad m;
          s = write_buf m oob (ecc_bytes m) (ecc_calculate m p oob s); oob = oob + ecc_bytes m;
          s = (if ecc_postpad m \<noteq> 0 then write_buf m oob (ecc_postpad m) s else s)
      in write_syndrome_steps m k (p + ecc_size m) (oob + ecc_postpad m) s)"

definition nand_write_page_syndrome :: "('h, 'z) nand_hw_scheme \<Rightarrow> nat \<Rightarrow> 'h nand_st \<Rightarrow> 'h nand_st" where
  "nand_write_page_syndrome m buf s =
     (let (oob, s) = write_syndrome_steps m (ecc_steps m) buf (oob_poi m) s; i = oob_rest m oob
      in if i \<noteq> 0 then write_buf m oob i s else s)"

section \<open>Part of a page with software error correction\<close>

text \<open>A gap in the positions of the code bytes of the steps read.\<close>

definition ecc_gaps :: "nat list \<Rightarrow> nat \<Rightarrow> nat \<Rightarrow> bool" where
  "ecc_gaps pos first n = (\<exists>i \<in> {0 ..< n - 1}. pos ! (i + first) + 1 \<noteq> pos ! (i + first + 1))"

definition nand_read_subpage ::
  "('h, 'z) nand_hw_scheme \<Rightarrow> u32 \<Rightarrow> u32 \<Rightarrow> nat \<Rightarrow> 'h nand_st \<Rightarrow> int \<times> 'h nand_st" where
  "nand_read_subpage m data_offs readlen bufpoi s =
     (let pos = eccpos (ecclayout m);
          busw = (if chip_options s AND NAND_BUSWIDTH_16 \<noteq> 0 then 2 else 1);
          start_step = unat data_offs div ecc_size m;
          end_step = unat (data_offs + readlen - 1) div ecc_size m;
          num_steps = end_step + 1 - start_step;
          datafrag_len = num_steps * ecc_size m; eccfrag_len = num_steps * ecc_bytes m;
          data_col_addr = start_step * ecc_size m; first = start_step * ecc_bytes m;
          s = (if data_col_addr \<noteq> 0 then cmdfunc m NAND_CMD_RNDOUT (int data_col_addr) (- 1) s else s);
          p = bufpoi + data_col_addr;
          s = calc_steps m num_steps p (read_buf m p datafrag_len s);
          s = (if ecc_gaps pos first eccfrag_len
               then read_buf m (oob_poi m) (unat (oobsize m)) (cmdfunc m NAND_CMD_RNDOUT (uint (writesize m)) (- 1) s)
               else let aligned_pos = pos ! first - pos ! first mod busw;
                        aligned_len = eccfrag_len + (if pos ! first mod busw \<noteq> 0 then 1 else 0)
                          + (if pos ! ((start_step + num_steps) * ecc_bytes m) mod busw \<noteq> 0 then 1 else 0)
                    in read_buf m (oob_poi m + aligned_pos) aligned_len
                         (cmdfunc m NAND_CMD_RNDOUT (uint (writesize m) + int aligned_pos) (- 1) s));
          s = upd_ram (gather_bytes (ecccode m) (oob_poi m) (drop first pos) eccfrag_len) s
      in (0, fold (\<lambda>k s.
                let (stat, s) = ecc_correct m (p + k * ecc_size m) (ecccode m + k * ecc_bytes m)
                                  (Some (ecccalc m + k * ecc_bytes m)) s
                in if stat = - 1
                   then s\<lparr>ecc_stats := (ecc_stats s)\<lparr>st_failed := st_failed (ecc_stats s) + 1\<rparr>\<rparr>
                   else s\<lparr>ecc_stats := (ecc_stats s)\<lparr>st_corrected := st_corrected (ecc_stats s) + word_of_int stat\<rparr>\<rparr>)
              [0..<num_steps] s))"

section \<open>Spare bytes\<close>

definition nand_read_oob_std ::
  "('h, 'z) nand_hw_scheme \<Rightarrow> int \<Rightarrow> bool \<Rightarrow> 'h nand_st \<Rightarrow> bool \<times> 'h nand_st" where
  "nand_read_oob_std m page sndcmd s =
     (False, read_buf m (oob_poi m) (unat (oobsize m))
               (if sndcmd then cmdfunc m NAND_CMD_READOOB 0 page s else s))"

definition nand_write_oob_std :: "('h, 'z) nand_hw_scheme \<Rightarrow> int \<Rightarrow> 'h nand_st \<Rightarrow> int \<times> 'h nand_st" where
  "nand_write_oob_std m page s =
     (let s = cmdfunc m NAND_CMD_SEQIN (uint (writesize m)) page s;
          s = write_buf m (oob_poi m) (unat (oobsize m)) s;
          s = cmdfunc m NAND_CMD_PAGEPROG (- 1) (- 1) s;
          (status, s) = waitfunc m s
      in (if status AND NAND_STATUS_FAIL \<noteq> 0 then - EIO else 0, s))"

definition syndrome_chunk :: "('h, 'z) nand_hw_scheme \<Rightarrow> nat" where
  "syndrome_chunk m = ecc_bytes m + ecc_prepad m + ecc_postpad m"

text \<open>The steps from number \<open>i\<close> on; the position in the spare area and the bytes left.\<close>

primrec read_oob_steps ::
  "('h, 'z) nand_hw_scheme \<Rightarrow> int \<Rightarrow> nat \<Rightarrow> nat \<Rightarrow> nat \<Rightarrow> nat \<Rightarrow> 'h nand_st \<Rightarrow> (nat \<times> nat) \<times> 'h nand_st" where
  "read_oob_steps m page 0 i bufpoi n s = ((bufpoi, n), s)"
| "read_oob_steps m page (Suc k) i bufpoi n s =
     (let pos = int (ecc_size m + i * (ecc_size m + syndrome_chunk m));
          s = (if i \<noteq> 0 then
                 (if 512 < writesize m then cmdfunc m NAND_CMD_RNDOUT pos (- 1) s
                  else cmdfunc m NAND_CMD_READ0 pos page s)
               else s);
          toread = min n (syndrome_chunk m)
      in read_oob_steps m page k (Suc i) (bufpoi + toread) (n - toread) (read_buf m bufpoi toread s))"

definition nand_read_oob_syndrome ::
  "('h, 'z) nand_hw_scheme \<Rightarrow> int \<Rightarrow> bool \<Rightarrow> 'h nand_st \<Rightarrow> bool \<times> 'h nand_st" where
  "nand_read_oob_syndrome m page sndcmd s =
     (let s = cmdfunc m NAND_CMD_READ0 (int (ecc_size m)) page s;
          ((bufpoi, n), s) = read_oob_steps m page (ecc_steps m) 0 (oob_poi m) (unat (oobsize m)) s
      in (True, if 0 < n then read_buf m bufpoi n s else s))"

text \<open>The filler \<open>0xFFFFFFFF\<close> is a local variable at \<open>fill\<close>.\<close>

function write_fill :: "('h, 'z) nand_hw_scheme \<Rightarrow> nat \<Rightarrow> nat \<Rightarrow> 'h nand_st \<Rightarrow> 'h nand_st" where
  "write_fill m fill n s =
     (if 0 < n then write_fill m fill (n - min n 4) (write_buf m fill (min n 4) s) else s)"
  by pat_completeness auto
termination by (relation "measure (\<lambda>(m, fill, n, s). n)") auto

primrec write_oob_steps ::
  "('h, 'z) nand_hw_scheme \<Rightarrow> nat \<Rightarrow> nat \<Rightarrow> nat \<Rightarrow> nat \<Rightarrow> nat \<Rightarrow> 'h nand_st \<Rightarrow> (nat \<times> nat) \<times> 'h nand_st" where
  "write_oob_steps m fill 0 i bufpoi n s = ((bufpoi, n), s)"
| "write_oob_steps m fill (Suc k) i bufpoi n s =
     (let s = (if i \<noteq> 0 then
                 (if writesize m \<le> 512
                  then write_fill m fill (ecc_size m) (upd_ram (\<lambda>mm. fill_bytes mm fill 0xff 4) s)
                  else cmdfunc m NAND_CMD_RNDIN (int (ecc_size m + i * (ecc_size m + syndrome_chunk m))) (- 1) s)
               else s);
          len = min n (syndrome_chunk m)
      in write_oob_steps m fill k (Suc i) (bufpoi + len) (n - len) (write_buf m bufpoi len s))"

definition nand_write_oob_syndrome ::
  "('h, 'z) nand_hw_scheme \<Rightarrow> nat \<Rightarrow> int \<Rightarrow> 'h nand_st \<Rightarrow> int \<times> 'h nand_st" where
  "nand_write_oob_syndrome m fill page s =
     (let nopad = ecc_prepad m = 0 \<and> ecc_postpad m = 0;
          pos = (if nopad then ecc_steps m * (ecc_size m + syndrome_chunk m) else ecc_size m);
          steps = (if nopad then 0 else ecc_steps m);
          s = cmdfunc m NAND_CMD_SEQIN (int pos) page s;
          ((bufpoi, n), s) = write_oob_steps m fill steps 0 (oob_poi m) (unat (oobsize m)) s;
          s = (if 0 < n then write_buf m bufpoi n s else s);
          s = cmdfunc m NAND_CMD_PAGEPROG (- 1) (- 1) s;
          (status, s) = waitfunc m s
      in (if status AND NAND_STATUS_FAIL \<noteq> 0 then - EIO else 0, s))"

text \<open>
  The two directions of the automatic placement.  Regions are stepped over while the offset lies beyond
  them; the lists of regions end with the first of length 0.
\<close>

fun transfer_auto :: "oobfree list \<Rightarrow> nat \<Rightarrow> nat \<Rightarrow> u32 \<Rightarrow> nat \<Rightarrow> memory \<Rightarrow> nat \<times> memory" where
  "transfer_auto [] poi oob roffs n mm = (oob, mm)"
| "transfer_auto (f # fs) poi oob roffs n mm =
     (if of_length f \<noteq> 0 \<and> n \<noteq> 0 then
        if roffs \<noteq> 0 \<and> of_length f \<le> roffs then transfer_auto fs poi oob (roffs - of_length f) n mm
        else let boffs = of_offset f + roffs; bytes = min n (unat (of_length f - roffs))
             in transfer_auto fs poi (oob + bytes) 0 (n - bytes) (copy_bytes oob (poi + unat boffs) bytes mm)
      else (oob, mm))"

definition nand_transfer_oob ::
  "('h, 'z) nand_hw_scheme \<Rightarrow> nat \<Rightarrow> oob_ops \<Rightarrow> nat \<Rightarrow> 'h nand_st \<Rightarrow> nat \<times> 'h nand_st" where
  "nand_transfer_oob m oob ops n s =
     (case ops_mode ops of
        MTD_OOB_AUTO \<Rightarrow>
          let (oob, mm) = transfer_auto (oobfree (ecclayout m)) (oob_poi m) oob (ops_ooboffs ops) n (ram s)
          in (oob, s\<lparr>ram := mm\<rparr>)
      | _ \<Rightarrow> (oob + n, upd_ram (copy_bytes oob (oob_poi m + unat (ops_ooboffs ops)) n) s))"

fun fill_auto :: "oobfree list \<Rightarrow> nat \<Rightarrow> nat \<Rightarrow> u32 \<Rightarrow> nat \<Rightarrow> memory \<Rightarrow> nat \<times> memory" where
  "fill_auto [] poi oob woffs n mm = (oob, mm)"
| "fill_auto (f # fs) poi oob woffs n mm =
     (if of_length f \<noteq> 0 \<and> n \<noteq> 0 then
        if woffs \<noteq> 0 \<and> of_length f \<le> woffs then fill_auto fs poi oob (woffs - of_length f) n mm
        else let boffs = of_offset f + woffs; bytes = min n (unat (of_length f - woffs))
             in fill_auto fs poi (oob + bytes) 0 (n - bytes) (copy_bytes (poi + unat boffs) oob bytes mm)
      else (oob, mm))"

definition nand_fill_oob ::
  "('h, 'z) nand_hw_scheme \<Rightarrow> nat \<Rightarrow> nat \<Rightarrow> oob_ops \<Rightarrow> 'h nand_st \<Rightarrow> nat \<times> 'h nand_st" where
  "nand_fill_oob m oob n ops s =
     (case ops_mode ops of
        MTD_OOB_AUTO \<Rightarrow>
          let (oob, mm) = fill_auto (oobfree (ecclayout m)) (oob_poi m) oob (ops_ooboffs ops) n (ram s)
          in (oob, s\<lparr>ram := mm\<rparr>)
      | _ \<Rightarrow> (oob + n, upd_ram (copy_bytes (oob_poi m + unat (ops_ooboffs ops)) oob n) s))"

section \<open>Automatic placement\<close>

text \<open>
  The free positions of a layout in the order they are filled, and the memory that a list of bytes put at
  positions gives.
\<close>

definition oob_positions :: "oobfree list \<Rightarrow> nat list" where
  "oob_positions fs = concat (map (\<lambda>f. [unat (of_offset f) ..< unat (of_offset f) + unat (of_length f)])
     (takeWhile (\<lambda>f. of_length f \<noteq> 0) fs))"

definition layout_fits :: "oobfree list \<Rightarrow> nat \<Rightarrow> bool" where
  "layout_fits fs n \<longleftrightarrow> n < 2 ^ 32 \<and> (\<forall>f \<in> set fs. unat (of_offset f) + unat (of_length f) \<le> n)"

definition put_at :: "memory \<Rightarrow> nat \<Rightarrow> nat list \<Rightarrow> u8 list \<Rightarrow> memory" where
  "put_at mm a ps vs = fold (\<lambda>(p, v) mm. mm (a + p := v)) (zip ps vs) mm"

lemma oob_positions_simps [simp]:
  "oob_positions [] = []"
  "oob_positions (f # fs) =
     (if of_length f \<noteq> 0 then [unat (of_offset f) ..< unat (of_offset f) + unat (of_length f)] @ oob_positions fs else [])"
  by (auto simp: oob_positions_def)

lemma layout_fits_Cons [simp]:
  "layout_fits (f # fs) n \<longleftrightarrow> unat (of_offset f) + unat (of_length f) \<le> n \<and> layout_fits fs n"
  by (auto simp: layout_fits_def)

lemma oob_positions_bound: "layout_fits fs n \<Longrightarrow> p \<in> set (oob_positions fs) \<Longrightarrow> p < n"
  by (induction fs) (auto split: if_splits)

lemma put_at_Nil [simp]: "put_at mm a [] vs = mm" "put_at mm a ps [] = mm"
  by (auto simp: put_at_def)

lemma put_at_Cons [simp]: "put_at mm a (p # ps) (v # vs) = put_at (mm (a + p := v)) a ps vs"
  by (simp add: put_at_def)

lemma put_at_append:
  "length ps = length vs \<Longrightarrow> put_at mm a (ps @ qs) (vs @ ws) = put_at (put_at mm a ps vs) a qs ws"
  by (simp add: put_at_def)

lemma put_at_other: "x \<notin> (+) a ` set ps \<Longrightarrow> put_at mm a ps vs x = mm x"
  by (induction ps vs arbitrary: mm rule: list_induct2') auto

lemma put_at_nth:
  "distinct ps \<Longrightarrow> length vs = length ps \<Longrightarrow> i < length ps \<Longrightarrow> put_at mm a ps vs (a + ps ! i) = vs ! i"
  by (induction ps vs arbitrary: mm i rule: list_induct2') (auto simp: nth_Cons put_at_other image_iff split: nat.splits)

lemma load_bytes_put_other:
  "(\<And>p. p \<in> set ps \<Longrightarrow> p < k) \<Longrightarrow> b + n \<le> a \<or> a + k \<le> b \<Longrightarrow>
   load_bytes (put_at mm a ps vs) b n = load_bytes mm b n"
proof (rule nth_equalityI)
  fix i assume a: "\<And>p. p \<in> set ps \<Longrightarrow> p < k" "b + n \<le> a \<or> a + k \<le> b" "i < length (load_bytes (put_at mm a ps vs) b n)"
  have "b + i \<noteq> a + p" if "p \<in> set ps" for p using a(1) [OF that] a(2,3) by auto
  then show "load_bytes (put_at mm a ps vs) b n ! i = load_bytes mm b n ! i"
    using a(3) by (subst (1 2) nth_load_bytes) (auto intro!: put_at_other)
qed simp

lemma copy_bytes_as_put:
  "copy_bytes (a + q) src n mm = put_at mm a [q ..< q + n] (load_bytes mm src n)"
proof (rule ext)
  fix x
  show "copy_bytes (a + q) src n mm x = put_at mm a [q ..< q + n] (load_bytes mm src n) x"
  proof (cases "a + q \<le> x \<and> x < a + q + n")
    case True
    then have "x = a + [q ..< q + n] ! (x - a - q)" "x - a - q < n" by auto
    then show ?thesis
      using put_at_nth [of "[q ..< q + n]" "load_bytes mm src n" "x - a - q" mm a] True
      by (simp add: copy_bytes_def store_bytes_def)
  next
    case False
    then show ?thesis by (subst put_at_other) (auto simp: copy_bytes_def store_bytes_def)
  qed
qed

lemma load_bytes_map: "load_bytes mm (a + q) n = map (\<lambda>p. mm (a + p)) [q ..< q + n]"
  by (rule nth_equalityI) (auto simp: nth_load_bytes add.assoc)

text \<open>The positions that a transfer from offset \<open>off\<close> of at most \<open>n\<close> bytes goes to or comes from.\<close>

definition oob_window :: "oobfree list \<Rightarrow> u32 \<Rightarrow> nat \<Rightarrow> nat list" where
  "oob_window fs off n = take n (drop (unat off) (oob_positions fs))"

lemma oob_window_Nil [simp]: "oob_window [] off n = []" "oob_window fs off 0 = []"
  by (auto simp: oob_window_def)

lemma oob_window_stop: "of_length f = 0 \<Longrightarrow> oob_window (f # fs) off n = []"
  by (simp add: oob_window_def)

lemma oob_window_skip:
  "of_length f \<noteq> 0 \<Longrightarrow> of_length f \<le> off \<Longrightarrow> oob_window (f # fs) off n = oob_window fs (off - of_length f) n"
  by (simp add: oob_window_def unat_sub word_le_nat_alt drop_append)

lemma oob_window_take:
  fixes n :: nat
  assumes "off < of_length f" and "unat (of_offset f) + unat (of_length f) < 2 ^ 32"
  defines "b \<equiv> min n (unat (of_length f - off))" and "q \<equiv> unat (of_offset f + off)"
  shows "oob_window (f # fs) off n = [q ..< q + b] @ oob_window fs 0 (n - b)"
proof -
  have q: "q = unat (of_offset f) + unat off"
    using assms(1,2) unfolding q_def by (intro unat_add_small) (auto simp: word_less_nat_alt)
  have b: "b = min n (unat (of_length f) - unat off)"
    using assms(1) by (simp add: b_def unat_sub word_le_nat_alt word_less_nat_alt)
  have nz: "of_length f \<noteq> 0" using assms(1) by auto
  have "drop (unat off) ([unat (of_offset f) ..< unat (of_offset f) + unat (of_length f)] @ oob_positions fs)
      = [q ..< unat (of_offset f) + unat (of_length f)] @ oob_positions fs"
    using assms(1) by (simp add: q word_less_nat_alt drop_upt)
  then show ?thesis
    using nz assms(1) by (auto simp: oob_window_def b q take_upt min_def word_less_nat_alt)
qed

lemma oob_window_bound: "layout_fits fs k \<Longrightarrow> p \<in> set (oob_window fs off n) \<Longrightarrow> p < k"
  unfolding oob_window_def by (meson in_set_dropD in_set_takeD oob_positions_bound)


lemma transfer_auto_spec:
  assumes "layout_fits fs k" and "oob + n \<le> poi \<or> poi + k \<le> oob"
  shows "transfer_auto fs poi oob off n mm =
    (oob + length (oob_window fs off n), store_bytes mm oob (map (\<lambda>p. mm (poi + p)) (oob_window fs off n)))"
  using assms
proof (induction fs arbitrary: oob off n mm)
  case (Cons f fs)
  show ?case
  proof (cases "of_length f \<noteq> 0 \<and> n \<noteq> 0")
    case False
    then show ?thesis by (auto simp: oob_window_stop)
  next
    case run: True
    show ?thesis
    proof (cases "of_length f \<le> off")
      case True
      then show ?thesis using Cons run by (cases "off = 0") (auto simp: oob_window_skip)
    next
      case False
      define b where "b = min n (unat (of_length f - off))"
      define q where "q = unat (of_offset f + off)"
      have off: "off < of_length f" using False by simp
      have win: "oob_window (f # fs) off n = [q ..< q + b] @ oob_window fs 0 (n - b)"
        using oob_window_take [OF off, where n = n] Cons.prems(1) by (simp add: b_def q_def layout_fits_def)
      let ?xs = "map (\<lambda>p. mm (poi + p)) [q ..< q + b]" and ?w = "oob_window fs 0 (n - b)"
      have copy: "copy_bytes oob (poi + q) b mm = store_bytes mm oob ?xs"
        by (simp add: copy_bytes_def load_bytes_map)
      have same: "store_bytes mm oob ?xs (poi + p) = mm (poi + p)" if "p \<in> set ?w" for p
        using oob_window_bound [OF _ that, of k] Cons.prems unfolding b_def by (auto simp: store_bytes_def)
      have "transfer_auto (f # fs) poi oob off n mm = transfer_auto fs poi (oob + b) 0 (n - b) (store_bytes mm oob ?xs)"
        using run False by (simp add: Let_def b_def q_def copy [unfolded b_def q_def])
      also have "\<dots> = (oob + b + length ?w,
          store_bytes (store_bytes mm oob ?xs) (oob + b) (map (\<lambda>p. store_bytes mm oob ?xs (poi + p)) ?w))"
        using Cons.prems by (subst Cons.IH) (auto simp: b_def)
      also have "map (\<lambda>p. store_bytes mm oob ?xs (poi + p)) ?w = map (\<lambda>p. mm (poi + p)) ?w"
        by (rule map_cong [OF refl same])
      also have "store_bytes (store_bytes mm oob ?xs) (oob + b) (map (\<lambda>p. mm (poi + p)) ?w)
          = store_bytes mm oob (map (\<lambda>p. mm (poi + p)) ([q ..< q + b] @ ?w))"
        using store_bytes_append [of mm oob ?xs] by simp
      finally show ?thesis by (simp add: win)
    qed
  qed
qed simp

lemma fill_auto_spec:
  assumes "layout_fits fs k" and "oob + n \<le> poi \<or> poi + k \<le> oob"
  shows "fill_auto fs poi oob off n mm =
    (oob + length (oob_window fs off n),
     put_at mm poi (oob_window fs off n) (load_bytes mm oob (length (oob_window fs off n))))"
  using assms
proof (induction fs arbitrary: oob off n mm)
  case (Cons f fs)
  show ?case
  proof (cases "of_length f \<noteq> 0 \<and> n \<noteq> 0")
    case False
    then show ?thesis by (auto simp: oob_window_stop)
  next
    case run: True
    show ?thesis
    proof (cases "of_length f \<le> off")
      case True
      then show ?thesis using Cons run by (cases "off = 0") (auto simp: oob_window_skip)
    next
      case False
      define b where "b = min n (unat (of_length f - off))"
      define q where "q = unat (of_offset f + off)"
      have off: "off < of_length f" using False by simp
      have win: "oob_window (f # fs) off n = [q ..< q + b] @ oob_window fs 0 (n - b)"
        using oob_window_take [OF off, where n = n] Cons.prems(1) by (simp add: b_def q_def layout_fits_def)
      let ?mm = "put_at mm poi [q ..< q + b] (load_bytes mm oob b)" and ?w = "oob_window fs 0 (n - b)"
      have bnd: "p < k" if "p \<in> set [q ..< q + b]" for p
        using oob_window_bound [of "f # fs" k p off n] that win Cons.prems(1) by simp
      have "length ?w \<le> n - b" "b \<le> n" by (simp_all add: oob_window_def b_def)
      then have "oob + b + length ?w \<le> poi \<or> poi + k \<le> oob + b" using Cons.prems(2) by linarith
      then have same: "load_bytes ?mm (oob + b) (length ?w) = load_bytes mm (oob + b) (length ?w)"
        using bnd by (intro load_bytes_put_other [where k = k]) auto
      have "fill_auto (f # fs) poi oob off n mm = fill_auto fs poi (oob + b) 0 (n - b) ?mm"
        using run False by (simp add: Let_def b_def q_def copy_bytes_as_put)
      also have "\<dots> = (oob + b + length ?w, put_at ?mm poi ?w (load_bytes ?mm (oob + b) (length ?w)))"
        using Cons.prems by (subst Cons.IH) (auto simp: b_def)
      finally show ?thesis
        by (simp add: win same load_bytes_append put_at_append)
    qed
  qed
qed simp


text \<open>Bytes placed into the free positions and taken from them again are the same.\<close>

lemma transfer_fill_auto:
  assumes fits: "layout_fits fs k" and dist: "distinct (oob_positions fs)"
    and src: "oob + n \<le> poi \<or> poi + k \<le> oob" and dst: "oob' + n \<le> poi \<or> poi + k \<le> oob'"
    and room: "unat off + n \<le> length (oob_positions fs)"
  shows "load_bytes (snd (transfer_auto fs poi oob' off n (snd (fill_auto fs poi oob off n mm)))) oob' n
       = load_bytes mm oob n"
proof -
  let ?w = "oob_window fs off n"
  have len: "length ?w = n" using room by (simp add: oob_window_def)
  have "distinct ?w" using dist by (simp add: oob_window_def)
  then have "map (\<lambda>p. put_at mm poi ?w (load_bytes mm oob n) (poi + p)) ?w = load_bytes mm oob n"
    by (intro nth_equalityI) (auto simp: len put_at_nth)
  then show ?thesis
    by (simp add: transfer_auto_spec [OF fits dst] fill_auto_spec [OF fits src] len load_store_same)
qed

end
