(* ===== verification/NandBbt.thy ===== *)
theory NandBbt
  imports Mtd
begin

text \<open>
  The bad block table of \<open>drivers/mtd/nand/nand_bbt.c\<close>.  The table in memory holds two bits per
  erase block (00 good, 01 worn, 10 reserved, 11 factory bad); the table in flash holds
  1, 2, 4 or 8 bits per block, inverted.  Buffers are addresses in the
  memory of the state.  The two table descriptors are fields of the state, named by a selector, since
  the code passes the same two objects around in both orders.  \<open>None\<close> is a loop that does not end or the use
  of a missing table or descriptor.

  \<open>nand_erase_nand\<close> of \<open>nand_base.c\<close> calls back into this file and is a parameter here.
\<close>

section \<open>Descriptors and options\<close>

abbreviation (input) NAND_BBT_NRBITS_MSK :: u32 where "NAND_BBT_NRBITS_MSK \<equiv> 0xf"
abbreviation (input) NAND_BBT_2BIT :: u32 where "NAND_BBT_2BIT \<equiv> 0x2"
abbreviation (input) NAND_BBT_LASTBLOCK :: u32 where "NAND_BBT_LASTBLOCK \<equiv> 0x10"
abbreviation (input) NAND_BBT_ABSPAGE :: u32 where "NAND_BBT_ABSPAGE \<equiv> 0x20"
abbreviation (input) NAND_BBT_PERCHIP :: u32 where "NAND_BBT_PERCHIP \<equiv> 0x80"
abbreviation (input) NAND_BBT_VERSION :: u32 where "NAND_BBT_VERSION \<equiv> 0x100"
abbreviation (input) NAND_BBT_CREATE :: u32 where "NAND_BBT_CREATE \<equiv> 0x200"
abbreviation (input) NAND_BBT_SCANALLPAGES :: u32 where "NAND_BBT_SCANALLPAGES \<equiv> 0x400"
abbreviation (input) NAND_BBT_SCANEMPTY :: u32 where "NAND_BBT_SCANEMPTY \<equiv> 0x800"
abbreviation (input) NAND_BBT_WRITE :: u32 where "NAND_BBT_WRITE \<equiv> 0x1000"
abbreviation (input) NAND_BBT_SAVECONTENT :: u32 where "NAND_BBT_SAVECONTENT \<equiv> 0x2000"
abbreviation (input) NAND_BBT_SCAN2NDPAGE :: u32 where "NAND_BBT_SCAN2NDPAGE \<equiv> 0x4000"

definition has_opt :: "bbt_descr \<Rightarrow> u32 \<Rightarrow> bool" where
  "has_opt d b \<longleftrightarrow> bd_options d AND b \<noteq> 0"

datatype bbt_sel = BBT_MAIN | BBT_MIRROR

fun get_descr :: "bbt_sel \<Rightarrow> 'h nand_st \<Rightarrow> bbt_descr option" where
  "get_descr BBT_MAIN s = bbt_td s"
| "get_descr BBT_MIRROR s = bbt_md s"

fun upd_descr :: "bbt_sel \<Rightarrow> (bbt_descr \<Rightarrow> bbt_descr) \<Rightarrow> 'h nand_st \<Rightarrow> 'h nand_st" where
  "upd_descr BBT_MAIN f s = s\<lparr>bbt_td := map_option f (bbt_td s)\<rparr>"
| "upd_descr BBT_MIRROR f s = s\<lparr>bbt_md := map_option f (bbt_md s)\<rparr>"

definition set_page :: "nat \<Rightarrow> int \<Rightarrow> bbt_descr \<Rightarrow> bbt_descr" where
  "set_page i p d = d\<lparr>bd_pages := (bd_pages d)[i := p]\<rparr>"

definition set_version :: "nat \<Rightarrow> u8 \<Rightarrow> bbt_descr \<Rightarrow> bbt_descr" where
  "set_version i v d = d\<lparr>bd_version := (bd_version d)[i := v]\<rparr>"

section \<open>The table in memory\<close>

text \<open>\<open>this->bbt[idx] |= v\<close>\<close>

definition bbt_or :: "nat \<Rightarrow> u8 \<Rightarrow> 'h nand_st \<Rightarrow> 'h nand_st" where
  "bbt_or idx v s = s\<lparr>chip_bbt := map_option (\<lambda>t. t[idx := t ! idx OR v]) (chip_bbt s)\<rparr>"

text \<open>The two bits of a block; \<open>block\<close> is twice the block number, as in the code.\<close>

definition bbt_entry :: "u8 list \<Rightarrow> nat \<Rightarrow> u8" where
  "bbt_entry t block = drop_bit (block AND 0x06) (t ! (block div 8)) AND 0x03"

definition nand_isbad_bbt :: "('h, 'z) nand_hw_scheme \<Rightarrow> u64 \<Rightarrow> bool \<Rightarrow> u8 list \<Rightarrow> int" where
  "nand_isbad_bbt m offs allowbbt t =
     (let block = unat (drop_bit (bbt_erase_shift m - 1) offs);
          res = bbt_entry t block
      in if res = 0 then 0
         else if res = 1 then 1
         else if res = 2 then (if allowbbt then 0 else 1)
         else 1)"

section \<open>Pattern checks\<close>

definition check_pattern :: "memory \<Rightarrow> nat \<Rightarrow> nat \<Rightarrow> nat \<Rightarrow> bbt_descr \<Rightarrow> int" where
  "check_pattern mm buf len paglen td =
     (let end = paglen + bd_offs td
      in if has_opt td NAND_BBT_SCANEMPTY \<and> (\<exists>i \<in> {0 ..< end}. mm (buf + i) \<noteq> 0xff) then - 1
         else if \<exists>i \<in> {0 ..< bd_len td}. mm (buf + end + i) \<noteq> bd_pattern td ! i then - 1
         else if has_opt td NAND_BBT_SCANEMPTY \<and> (\<exists>i \<in> {end + bd_len td ..< len}. mm (buf + i) \<noteq> 0xff) then - 1
         else 0)"

definition check_short_pattern :: "memory \<Rightarrow> nat \<Rightarrow> bbt_descr \<Rightarrow> int" where
  "check_short_pattern mm buf td =
     (if \<exists>i \<in> {0 ..< bd_len td}. mm (buf + bd_offs td + i) \<noteq> bd_pattern td ! i then - 1 else 0)"

section \<open>Reading the table from flash\<close>

definition count_badblock :: "'h nand_st \<Rightarrow> 'h nand_st" where
  "count_badblock s = s\<lparr>ecc_stats := (ecc_stats s)\<lparr>st_badblocks := st_badblocks (ecc_stats s) + 1\<rparr>\<rparr>"

definition count_bbtblock :: "'h nand_st \<Rightarrow> 'h nand_st" where
  "count_bbtblock s = s\<lparr>ecc_stats := (ecc_stats s)\<lparr>st_bbtblocks := st_bbtblocks (ecc_stats s) + 1\<rparr>\<rparr>"

text \<open>One entry \<open>tmp\<close> of the flash table; \<open>act\<close> is twice the block number from the start of the read.\<close>

definition read_bbt_entry :: "u8 \<Rightarrow> u8 \<Rightarrow> nat \<Rightarrow> nat \<Rightarrow> u8 \<Rightarrow> 'h nand_st \<Rightarrow> 'h nand_st" where
  "read_bbt_entry msk reserved_block_code offs act tmp s =
     (if tmp = msk then s
      else if reserved_block_code \<noteq> 0 \<and> tmp = reserved_block_code
      then count_bbtblock (bbt_or (offs + act div 8) (push_bit (act AND 0x06) 0x2) s)
      else count_badblock
             (bbt_or (offs + act div 8) (push_bit (act AND 0x06) (if tmp = 0 then 0x3 else 0x1)) s))"

text \<open>The entries of one byte, \<open>j = 0, bits, 2 * bits, ... < 8\<close>.\<close>

definition entry_shifts :: "nat \<Rightarrow> nat list" where
  "entry_shifts bits = filter (\<lambda>j. j mod bits = 0) [0..<8]"

definition read_bbt_byte :: "nat \<Rightarrow> u8 \<Rightarrow> nat \<Rightarrow> u8 \<Rightarrow> nat \<times> 'h nand_st \<Rightarrow> nat \<times> 'h nand_st" where
  "read_bbt_byte bits reserved_block_code offs dat =
     fold (\<lambda>j (act, s). (act + 2,
         read_bbt_entry (mask bits) reserved_block_code offs act (drop_bit j dat AND mask bits) s))
       (entry_shifts bits)"

partial_function (option) read_bbt_loop ::
  "('h, 'z) mtd_rw_scheme \<Rightarrow> nat \<Rightarrow> nat \<Rightarrow> nat \<Rightarrow> u8 \<Rightarrow> nat \<Rightarrow> u64 \<Rightarrow> u32 \<Rightarrow> nat \<Rightarrow> 'h nand_st \<Rightarrow> (int \<times> 'h nand_st) option" where
  "read_bbt_loop m buf bits offs reserved_block_code totlen from retlen act s =
     (if totlen = 0 then Some (0, s)
      else let n = min totlen (2 ^ bbt_erase_shift m) in
        do {
          ((res, retlen), s) \<leftarrow> mtd_read m from (word_of_nat n) retlen buf s;
          (if res < 0 \<and> retlen \<noteq> word_of_nat n then Some (res, s)
           else let (act, s) = fold (read_bbt_byte bits reserved_block_code offs) (load_bytes (ram s) buf n) (act, s)
                in read_bbt_loop m buf bits offs reserved_block_code (totlen - n) (from + word_of_nat n) retlen act s)
        })"

definition read_bbt ::
  "('h, 'z) mtd_rw_scheme \<Rightarrow> nat \<Rightarrow> int \<Rightarrow> nat \<Rightarrow> nat \<Rightarrow> nat \<Rightarrow> u8 \<Rightarrow> 'h nand_st \<Rightarrow> (int \<times> 'h nand_st) option" where
  "read_bbt m buf page num bits offs reserved_block_code s =
     read_bbt_loop m buf bits offs reserved_block_code (num * bits div 8)
       (push_bit (page_shift m) (word_of_int page)) 0 0 s"

definition blocks_of :: "('h, 'z) nand_hw_scheme \<Rightarrow> u64 \<Rightarrow> nat" where
  "blocks_of m sz = unat (drop_bit (bbt_erase_shift m) sz)"

text \<open>The loop over the chips; \<open>chip = None\<close> is \<open>-1\<close>, all chips.\<close>

fun read_abs_chips ::
  "('h, 'z) mtd_rw_scheme \<Rightarrow> nat \<Rightarrow> bbt_descr \<Rightarrow> nat option \<Rightarrow> nat list \<Rightarrow> nat \<Rightarrow> int \<Rightarrow> 'h nand_st \<Rightarrow> (int \<times> 'h nand_st) option" where
  "read_abs_chips m buf td chip [] offs res s = Some (0, s)"
| "read_abs_chips m buf td chip (i # is') offs res s =
     do {
       (res, s) \<leftarrow>
         (if chip = None \<or> chip = Some i
          then read_bbt m buf (bd_pages td ! i) (blocks_of m (chipsize m))
                 (unat (bd_options td AND NAND_BBT_NRBITS_MSK)) offs (bd_reserved_block_code td) s
          else Some (res, s));
       (if res \<noteq> 0 then Some (res, s)
        else read_abs_chips m buf td chip is' (offs + unat (drop_bit (bbt_erase_shift m + 2) (chipsize m))) res s)
     }"

definition read_abs_bbt ::
  "('h, 'z) mtd_rw_scheme \<Rightarrow> nat \<Rightarrow> bbt_sel \<Rightarrow> nat option \<Rightarrow> 'h nand_st \<Rightarrow> (int \<times> 'h nand_st) option" where
  "read_abs_bbt m buf sel chip s =
     do {
       td \<leftarrow> get_descr sel s;
       (if has_opt td NAND_BBT_PERCHIP
        then read_abs_chips m buf td chip [0..<numchips m] 0 0 s
        else do {
          (res, s) \<leftarrow> read_bbt m buf (bd_pages td ! 0) (blocks_of m (mtd_size m))
             (unat (bd_options td AND NAND_BBT_NRBITS_MSK)) 0 (bd_reserved_block_code td) s;
          Some (if res \<noteq> 0 then res else 0, s)
        })
     }"

section \<open>Scanning\<close>

text \<open>Both buffers of the request are \<open>buf\<close>.\<close>

definition scan_read_raw ::
  "('h, 'z) mtd_rw_scheme \<Rightarrow> nat \<Rightarrow> u64 \<Rightarrow> u32 \<Rightarrow> 'h nand_st \<Rightarrow> (int \<times> 'h nand_st) option" where
  "scan_read_raw m buf offs n s =
     do {
       ((ret, _), s) \<leftarrow> mtd_read_oob m offs
          (oob_ops_zero\<lparr>ops_mode := MTD_OOB_RAW, ops_ooboffs := 0, ops_ooblen := oobsize m,
             ops_oobbuf := Some buf, ops_datbuf := Some buf, ops_len := n\<rparr>) s;
       Some (ret, s)
     }"

definition scan_write_bbt ::
  "('h, 'z) mtd_rw_scheme \<Rightarrow> u64 \<Rightarrow> u32 \<Rightarrow> nat \<Rightarrow> nat \<Rightarrow> 'h nand_st \<Rightarrow> (int \<times> 'h nand_st) option" where
  "scan_write_bbt m offs n buf oob s =
     do {
       ((ret, _), s) \<leftarrow> mtd_write_oob m offs
          (oob_ops_zero\<lparr>ops_mode := MTD_OOB_PLACE, ops_ooboffs := 0, ops_ooblen := oobsize m,
             ops_datbuf := Some buf, ops_oobbuf := Some oob, ops_len := n\<rparr>) s;
       Some (ret, s)
     }"

definition read_version ::
  "('h, 'z) mtd_rw_scheme \<Rightarrow> nat \<Rightarrow> bbt_sel \<Rightarrow> bbt_descr \<Rightarrow> 'h nand_st \<Rightarrow> (unit \<times> 'h nand_st) option" where
  "read_version m buf sel d s =
     (if has_opt d NAND_BBT_VERSION then do {
        (_, s) \<leftarrow> scan_read_raw m buf (push_bit (page_shift m) (word_of_int (bd_pages d ! 0))) (writesize m) s;
        Some ((), upd_descr sel (set_version 0 (ram s (buf + unat (writesize m) + bd_veroffs d))) s)
      } else Some ((), s))"

definition read_abs_bbts ::
  "('h, 'z) mtd_rw_scheme \<Rightarrow> nat \<Rightarrow> 'h nand_st \<Rightarrow> (int \<times> 'h nand_st) option" where
  "read_abs_bbts m buf s =
     do {
       td \<leftarrow> get_descr BBT_MAIN s;
       (_, s) \<leftarrow> read_version m buf BBT_MAIN td s;
       (_, s) \<leftarrow> (case get_descr BBT_MIRROR s of None \<Rightarrow> Some ((), s)
                   | Some md \<Rightarrow> read_version m buf BBT_MIRROR md s);
       Some (1, s)
     }"

definition scan_block_full ::
  "('h, 'z) mtd_rw_scheme \<Rightarrow> bbt_descr \<Rightarrow> u64 \<Rightarrow> nat \<Rightarrow> u32 \<Rightarrow> nat \<Rightarrow> nat \<Rightarrow> 'h nand_st \<Rightarrow> (int \<times> 'h nand_st) option" where
  "scan_block_full m bd offs buf readlen scanlen n s =
     do {
       (ret, s) \<leftarrow> scan_read_raw m buf offs readlen s;
       (if ret \<noteq> 0 then Some (ret, s)
        else if \<exists>j \<in> {0 ..< n}. check_pattern (ram s) (buf + j * scanlen) scanlen (unat (writesize m)) bd \<noteq> 0
        then Some (1, s) else Some (0, s))
     }"

primrec scan_block_fast ::
  "('h, 'z) mtd_rw_scheme \<Rightarrow> bbt_descr \<Rightarrow> u64 \<Rightarrow> nat \<Rightarrow> nat \<Rightarrow> oob_ops \<Rightarrow> 'h nand_st \<Rightarrow> (int \<times> 'h nand_st) option" where
  "scan_block_fast m bd offs buf 0 ops s = Some (0, s)"
| "scan_block_fast m bd offs buf (Suc j) ops s =
     do {
       ((ret, ops), s) \<leftarrow> mtd_read_oob m offs ops s;
       (if ret \<noteq> 0 then Some (ret, s)
        else if check_short_pattern (ram s) buf bd \<noteq> 0 then Some (1, s)
        else scan_block_fast m bd (offs + ucast (writesize m)) buf j ops s)
     }"

definition scan_fast_ops :: "('h, 'z) mtd_rw_scheme \<Rightarrow> nat \<Rightarrow> oob_ops" where
  "scan_fast_ops m buf = oob_ops_zero\<lparr>ops_ooblen := oobsize m, ops_oobbuf := Some buf, ops_ooboffs := 0,
     ops_datbuf := None, ops_mode := MTD_OOB_PLACE\<rparr>"

primrec create_bbt_loop ::
  "('h, 'z) mtd_rw_scheme \<Rightarrow> bbt_descr \<Rightarrow> nat \<Rightarrow> u32 \<Rightarrow> nat \<Rightarrow> nat \<Rightarrow> nat \<Rightarrow> nat \<Rightarrow> u64 \<Rightarrow> 'h nand_st \<Rightarrow> (int \<times> 'h nand_st) option" where
  "create_bbt_loop m bd buf readlen scanlen n 0 i from s = Some (0, s)"
| "create_bbt_loop m bd buf readlen scanlen n (Suc k) i from s =
     do {
       (ret, s) \<leftarrow> (if has_opt bd NAND_BBT_SCANALLPAGES
                    then scan_block_full m bd from buf readlen scanlen n s
                    else scan_block_fast m bd from buf n (scan_fast_ops m buf) s);
       (if ret < 0 then Some (ret, s)
        else create_bbt_loop m bd buf readlen scanlen n k (i + 2) (from + push_bit (bbt_erase_shift m) 1)
               (if ret \<noteq> 0 then count_badblock (bbt_or (i div 8) (push_bit (i AND 0x6) 0x03) s) else s))
     }"

text \<open>\<open>i\<close> runs over twice the block numbers, in steps of two.\<close>

definition create_bbt ::
  "('h, 'z) mtd_rw_scheme \<Rightarrow> nat \<Rightarrow> bbt_descr \<Rightarrow> nat option \<Rightarrow> 'h nand_st \<Rightarrow> (int \<times> 'h nand_st) option" where
  "create_bbt m buf bd chip s =
     (let n = (if has_opt bd NAND_BBT_SCANALLPAGES then 2 ^ (bbt_erase_shift m - page_shift m)
               else if has_opt bd NAND_BBT_SCAN2NDPAGE then 2 else 1);
          scanlen = (if \<not> has_opt bd NAND_BBT_SCANEMPTY then 0 else unat (writesize m) + unat (oobsize m));
          readlen = (if \<not> has_opt bd NAND_BBT_SCANEMPTY then word_of_nat (bd_len bd)
                     else word_of_nat n * writesize m)
      in case chip of
           None \<Rightarrow>
             let numblocks = unat (drop_bit (bbt_erase_shift m - 1) (mtd_size m))
             in create_bbt_loop m bd buf readlen scanlen n ((numblocks + 1) div 2) 0 0 s
         | Some c \<Rightarrow>
             if numchips m \<le> c then Some (- EINVAL, s)
             else let numblocks = unat (drop_bit (bbt_erase_shift m - 1) (chipsize m));
                      startblock = c * numblocks
                  in create_bbt_loop m bd buf readlen scanlen n ((numblocks + 1) div 2) startblock
                       (push_bit (bbt_erase_shift m - 1) (word_of_nat startblock)) s)"


section \<open>Searching the table in flash\<close>

text \<open>The blocks \<open>startblock + dir * block\<close> that may hold a table, in the order of the search.\<close>

definition search_start :: "('h, 'z) nand_hw_scheme \<Rightarrow> bbt_descr \<Rightarrow> int" where
  "search_start m td =
     (let startblock = (if has_opt td NAND_BBT_LASTBLOCK then int (blocks_of m (mtd_size m)) - 1 else 0)
      in if has_opt td NAND_BBT_PERCHIP then startblock AND (int (blocks_of m (chipsize m)) - 1) else startblock)"

definition table_dir :: "bbt_descr \<Rightarrow> int" where
  "table_dir td = (if has_opt td NAND_BBT_LASTBLOCK then - 1 else 1)"

fun search_bbt_blocks ::
  "('h, 'z) mtd_rw_scheme \<Rightarrow> nat \<Rightarrow> bbt_sel \<Rightarrow> nat \<Rightarrow> int list \<Rightarrow> 'h nand_st \<Rightarrow> (unit \<times> 'h nand_st) option" where
  "search_bbt_blocks m buf sel i [] s = Some ((), s)"
| "search_bbt_blocks m buf sel i (actblock # bs) s =
     do {
       td \<leftarrow> get_descr sel s;
       (_, s) \<leftarrow> scan_read_raw m buf (push_bit (bbt_erase_shift m) (word_of_int actblock)) (writesize m) s;
       (if check_pattern (ram s) buf (unat (writesize m) + unat (oobsize m)) (unat (writesize m)) td = 0
        then let s = upd_descr sel (set_page i (push_bit (bbt_erase_shift m - page_shift m) actblock)) s
             in Some ((), if has_opt td NAND_BBT_VERSION
                          then upd_descr sel (set_version i (ram s (buf + unat (writesize m) + bd_veroffs td))) s
                          else s)
        else search_bbt_blocks m buf sel i bs s)
     }"

fun search_bbt_chips ::
  "('h, 'z) mtd_rw_scheme \<Rightarrow> nat \<Rightarrow> bbt_sel \<Rightarrow> nat list \<Rightarrow> int \<Rightarrow> 'h nand_st \<Rightarrow> (unit \<times> 'h nand_st) option" where
  "search_bbt_chips m buf sel [] startblock s = Some ((), s)"
| "search_bbt_chips m buf sel (i # is') startblock s =
     do {
       td \<leftarrow> get_descr sel s;
       (_, s) \<leftarrow> search_bbt_blocks m buf sel i
          (map (\<lambda>block. startblock + table_dir td * int block) [0..<bd_maxblocks td])
          (upd_descr sel (set_page i (- 1) \<circ> set_version i 0) s);
       search_bbt_chips m buf sel is' (startblock + int (blocks_of m (chipsize m))) s
     }"

definition search_bbt ::
  "('h, 'z) mtd_rw_scheme \<Rightarrow> nat \<Rightarrow> bbt_sel \<Rightarrow> 'h nand_st \<Rightarrow> (int \<times> 'h nand_st) option" where
  "search_bbt m buf sel s =
     do {
       td \<leftarrow> get_descr sel s;
       (_, s) \<leftarrow> search_bbt_chips m buf sel [0 ..< (if has_opt td NAND_BBT_PERCHIP then numchips m else 1)]
                   (search_start m td) s;
       Some (0, s)
     }"

definition search_read_bbts ::
  "('h, 'z) mtd_rw_scheme \<Rightarrow> nat \<Rightarrow> 'h nand_st \<Rightarrow> (int \<times> 'h nand_st) option" where
  "search_read_bbts m buf s =
     do {
       (_, s) \<leftarrow> search_bbt m buf BBT_MAIN s;
       (_, s) \<leftarrow> (if bbt_md s \<noteq> None then search_bbt m buf BBT_MIRROR s else Some (0, s));
       Some (1, s)
     }"

section \<open>Writing the table to flash\<close>

text \<open>
  What this file gets from elsewhere: \<open>nand_erase_nand(mtd, &einfo, 1)\<close> of \<open>nand_base.c\<close>, and
  the results of the allocations: of the table itself, of the
  buffer of a scan and of the buffer of an update.
\<close>

record 'h bbt_env =
  env_erase :: "erase_info \<Rightarrow> 'h nand_st \<Rightarrow> ((int \<times> erase_info) \<times> 'h nand_st) option"
  env_bbt_mem :: bool
  env_vbuf :: "nat option"
  env_kbuf :: "nat option"

definition bbt_numblocks :: "('h, 'z) nand_hw_scheme \<Rightarrow> bbt_descr \<Rightarrow> nat" where
  "bbt_numblocks m td = blocks_of m (if has_opt td NAND_BBT_PERCHIP then chipsize m else mtd_size m)"

text \<open>The first block of the list that is neither bad nor the block of the other table.\<close>

fun bbt_place ::
  "('h, 'z) nand_hw_scheme \<Rightarrow> u8 list \<Rightarrow> bbt_descr option \<Rightarrow> nat \<Rightarrow> int list \<Rightarrow> int option" where
  "bbt_place m t md chip [] = None"
| "bbt_place m t md chip (block # bs) =
     (let e = drop_bit (2 * (nat block mod 4)) (t ! (nat block div 4)) AND 0x03;
          page = push_bit (bbt_erase_shift m - page_shift m) block
      in if e = 1 \<or> e = 3 then bbt_place m t md chip bs
         else case md of
                None \<Rightarrow> Some page
              | Some d \<Rightarrow> if bd_pages d ! chip \<noteq> page then Some page else bbt_place m t md chip bs)"

definition place_start :: "bbt_descr \<Rightarrow> nat \<Rightarrow> nat \<Rightarrow> int" where
  "place_start td numblocks chip =
     (if has_opt td NAND_BBT_LASTBLOCK then int numblocks * (int chip + 1) - 1 else int chip * int numblocks)"

definition bbt_page ::
  "('h, 'z) nand_hw_scheme \<Rightarrow> u8 list \<Rightarrow> bbt_descr \<Rightarrow> bbt_descr option \<Rightarrow> nat \<Rightarrow> nat \<Rightarrow> int option" where
  "bbt_page m t td md numblocks chip =
     (if bd_pages td ! chip \<noteq> - 1 then Some (bd_pages td ! chip)
      else bbt_place m t md chip
             (map (\<lambda>i. place_start td numblocks chip + table_dir td * int i) [0..<bd_maxblocks td]))"

text \<open>\<open>sft\<close>, \<open>sftmsk\<close> and \<open>msk\<close> for the number of bits per block; \<open>None\<close> is \<open>-EINVAL\<close>.\<close>

definition bbt_masks :: "nat \<Rightarrow> u8 \<Rightarrow> (nat \<times> nat \<times> u8 list) option" where
  "bbt_masks bits rcode =
     (if bits = 1 then Some (3, 0x07, [0x00, 0x01, NOT rcode, 0x01])
      else if bits = 2 then Some (2, 0x06, [0x00, 0x01, NOT rcode, 0x03])
      else if bits = 4 then Some (1, 0x04, [0x00, 0x0C, NOT rcode, 0x0f])
      else if bits = 8 then Some (0, 0x00, [0x00, 0x0F, NOT rcode, 0xff])
      else None)"

text \<open>
  One round of the walk through the table in memory: block \<open>i\<close>, whose two bits are the low bits of
  \<open>dat\<close>, is cleared into the preset byte of the flash table at \<open>at'\<close>.
\<close>

definition encode_entry ::
  "nat \<Rightarrow> nat \<times> nat \<times> u8 list \<Rightarrow> nat \<Rightarrow> u8 \<Rightarrow> memory \<Rightarrow> memory" where
  "encode_entry at' f i dat mm =
     (case f of (sft, sftmsk, msk) \<Rightarrow>
        let a = at' + i div 2 ^ sft; sftcnt = (i * 2 ^ (3 - sft)) AND sftmsk
        in mm (a := mm a AND NOT (push_bit sftcnt (msk ! unat (dat AND 0x03)))))"

text \<open>The walk goes over whole bytes of the table, four blocks at a time.\<close>

definition bbt_encode :: "u8 list \<Rightarrow> nat \<Rightarrow> nat \<Rightarrow> nat \<Rightarrow> nat \<times> nat \<times> u8 list \<Rightarrow> memory \<Rightarrow> memory" where
  "bbt_encode t bbtoffs numblocks at' f =
     fold (\<lambda>i. encode_entry at' f i (drop_bit (2 * (i mod 4)) (t ! (bbtoffs + i div 4))))
       [0..<4 * ((numblocks + 3) div 4)]"

text \<open>
  The contents of the block before the write: read back (\<open>NAND_BBT_SAVECONTENT\<close>) or blank.
  \<open>Inr\<close> is the address, the length, the offset of the table and of its spare bytes.
\<close>

definition bbt_prepare ::
  "('h, 'z) mtd_rw_scheme \<Rightarrow> nat \<Rightarrow> bbt_descr \<Rightarrow> int \<Rightarrow> nat \<Rightarrow> nat \<Rightarrow> 'h nand_st \<Rightarrow>
     ((int + u64 \<times> u32 \<times> nat \<times> nat) \<times> 'h nand_st) option" where
  "bbt_prepare m buf td page numblocks sft s =
     (let to' = push_bit (page_shift m) (word_of_int page) in
      if has_opt td NAND_BBT_SAVECONTENT then
        let to = to' AND NOT (push_bit (bbt_erase_shift m) 1 - 1); n = push_bit (bbt_erase_shift m) (1 :: u32) in
        do {
          ((res, retlen), s) \<leftarrow> mtd_read m to n 0 buf s;
          (if res < 0 \<and> retlen \<noteq> n then Some (Inl res, s)
           else let ooblen = drop_bit (page_shift m) n * oobsize m in do {
             ((res, ops), s) \<leftarrow> mtd_read_oob m (to + ucast (writesize m))
                (oob_ops_zero\<lparr>ops_mode := MTD_OOB_PLACE, ops_ooboffs := 0, ops_datbuf := None,
                   ops_ooblen := ooblen, ops_oobbuf := Some (buf + unat n)\<rparr>) s;
             (if res < 0 \<or> ops_oobretlen ops \<noteq> ops_ooblen ops then Some (Inl res, s)
              else let pageoffs = nat (page - uint (drop_bit (page_shift m) to));
                       offs = pageoffs * 2 ^ page_shift m
                   in Some (Inr (to, n, offs, unat n + pageoffs * unat (oobsize m)),
                        s\<lparr>ram := fill_bytes (ram s) (buf + offs) 0xff (numblocks div 2 ^ sft)\<rparr>))
           })
        }
      else
        let n = (word_of_nat (numblocks div 2 ^ sft) + (writesize m - 1)) AND NOT (writesize m - 1);
            mm = fill_bytes (ram s) buf 0xff (unat n + unat (drop_bit (page_shift m) n * oobsize m));
            mm = store_bytes mm (buf + unat n + bd_offs td) (take (bd_len td) (bd_pattern td))
        in Some (Inr (to', n, 0, unat n), s\<lparr>ram := mm\<rparr>))"

text \<open>
  One chip; the result is the value that the function is left with, or \<open>0\<close>.  On the path that is left
  with \<open>res\<close> after a short read of the spare bytes, \<open>res\<close> may be \<open>0\<close>: the caller is told by the
  flag that the function is left.
\<close>

definition write_bbt_chip ::
  "'h bbt_env \<Rightarrow> ('h, 'z) mtd_rw_scheme \<Rightarrow> nat \<Rightarrow> bbt_sel \<Rightarrow> bbt_sel \<Rightarrow> nat \<Rightarrow> 'h nand_st \<Rightarrow>
     ((bool \<times> int) \<times> 'h nand_st) option" where
  "write_bbt_chip e m buf sel other chip s =
     do {
       td \<leftarrow> get_descr sel s;
       t \<leftarrow> chip_bbt s;
       (let numblocks = bbt_numblocks m td; bits = unat (bd_options td AND NAND_BBT_NRBITS_MSK);
            rcode = (if bd_reserved_block_code td = 0 then 0xff else bd_reserved_block_code td)
        in case bbt_page m t td (get_descr other s) numblocks chip of
             None \<Rightarrow> Some ((True, - ENOSPC), s)
           | Some page \<Rightarrow>
               (case bbt_masks bits rcode of
                  None \<Rightarrow> Some ((True, - EINVAL), s)
                | Some f \<Rightarrow>
                    do {
                      (r, s) \<leftarrow> bbt_prepare m buf td page numblocks (fst f) s;
                      (case r of
                         Inl res \<Rightarrow> Some ((True, res), s)
                       | Inr (to, n, offs, ooboffs) \<Rightarrow>
                           let mm = (if has_opt td NAND_BBT_VERSION
                                     then (ram s) (buf + ooboffs + bd_veroffs td := bd_version td ! chip) else ram s);
                               mm = bbt_encode t (chip * (numblocks div 4)) numblocks (buf + offs) f mm
                           in do {
                             ((res, _), s) \<leftarrow> env_erase e \<lparr>erase_addr = to, erase_len = push_bit (bbt_erase_shift m) 1,
                                erase_fail_addr = 0, erase_state = MTD_ERASE_PENDING, erase_scrub = False\<rparr> (s\<lparr>ram := mm\<rparr>);
                             (if res < 0 then Some ((True, res), s)
                              else do {
                                (res, s) \<leftarrow> scan_write_bbt m to n buf (buf + unat n) s;
                                (if res < 0 then Some ((True, res), s)
                                 else Some ((False, 0), upd_descr sel (set_page chip page) s))
                              })
                           })
                    }))
     }"

fun write_bbt_chips ::
  "'h bbt_env \<Rightarrow> ('h, 'z) mtd_rw_scheme \<Rightarrow> nat \<Rightarrow> bbt_sel \<Rightarrow> bbt_sel \<Rightarrow> nat list \<Rightarrow> 'h nand_st \<Rightarrow> (int \<times> 'h nand_st) option" where
  "write_bbt_chips e m buf sel other [] s = Some (0, s)"
| "write_bbt_chips e m buf sel other (chip # cs) s =
     do {
       ((left, res), s) \<leftarrow> write_bbt_chip e m buf sel other chip s;
       (if left then Some (res, s) else write_bbt_chips e m buf sel other cs s)
     }"

text \<open>\<open>chipsel = None\<close> is \<open>-1\<close>, the full device.\<close>

definition write_bbt ::
  "'h bbt_env \<Rightarrow> ('h, 'z) mtd_rw_scheme \<Rightarrow> nat \<Rightarrow> bbt_sel \<Rightarrow> bbt_sel \<Rightarrow> nat option \<Rightarrow> 'h nand_st \<Rightarrow> (int \<times> 'h nand_st) option" where
  "write_bbt e m buf sel other chipsel s =
     do {
       td \<leftarrow> get_descr sel s;
       write_bbt_chips e m buf sel other
         (if has_opt td NAND_BBT_PERCHIP
          then (case chipsel of None \<Rightarrow> [0..<numchips m] | Some c \<Rightarrow> [c])
          else [0]) s
     }"


section \<open>Creating and repairing the tables\<close>

text \<open>
  What \<open>check_create\<close> finds out about one chip: whether the table must be created by a scan, the
  table whose version goes to the other one, the tables to read back and
  the tables to write (\<open>0x01\<close> the main table, \<open>0x02\<close> the mirror).
\<close>

record check_plan =
  cp_create :: bool
  cp_version :: "bbt_sel option"
  cp_rd :: "bbt_sel option"
  cp_rd2 :: "bbt_sel option"
  cp_writeops :: u8

definition check_plan_of :: "bbt_descr \<Rightarrow> bbt_descr option \<Rightarrow> nat \<Rightarrow> check_plan" where
  "check_plan_of td md i =
     (case md of
        None \<Rightarrow>
          if bd_pages td ! i = - 1
          then \<lparr>cp_create = True, cp_version = None, cp_rd = None, cp_rd2 = None, cp_writeops = 0x01\<rparr>
          else \<lparr>cp_create = False, cp_version = None, cp_rd = Some BBT_MAIN, cp_rd2 = None, cp_writeops = 0\<rparr>
      | Some d \<Rightarrow>
          if bd_pages td ! i = - 1 \<and> bd_pages d ! i = - 1
          then \<lparr>cp_create = True, cp_version = None, cp_rd = None, cp_rd2 = None, cp_writeops = 0x03\<rparr>
          else if bd_pages td ! i = - 1
          then \<lparr>cp_create = False, cp_version = Some BBT_MIRROR, cp_rd = Some BBT_MIRROR, cp_rd2 = None, cp_writeops = 1\<rparr>
          else if bd_pages d ! i = - 1
          then \<lparr>cp_create = False, cp_version = Some BBT_MAIN, cp_rd = Some BBT_MAIN, cp_rd2 = None, cp_writeops = 2\<rparr>
          else if bd_version td ! i = bd_version d ! i
          then \<lparr>cp_create = False, cp_version = None, cp_rd = Some BBT_MAIN,
                 cp_rd2 = (if \<not> has_opt td NAND_BBT_VERSION then Some BBT_MIRROR else None), cp_writeops = 0\<rparr>
          else if word_sless 0 (bd_version td ! i - bd_version d ! i)
          then \<lparr>cp_create = False, cp_version = Some BBT_MAIN, cp_rd = Some BBT_MAIN, cp_rd2 = None, cp_writeops = 2\<rparr>
          else \<lparr>cp_create = False, cp_version = Some BBT_MIRROR, cp_rd = Some BBT_MIRROR, cp_rd2 = None, cp_writeops = 1\<rparr>)"

text \<open>The version is copied from the table named to the other one.\<close>

definition copy_version :: "nat \<Rightarrow> bbt_sel option \<Rightarrow> 'h nand_st \<Rightarrow> 'h nand_st" where
  "copy_version i v s =
     (case v of
        None \<Rightarrow> s
      | Some BBT_MAIN \<Rightarrow> upd_descr BBT_MIRROR (set_version i (bd_version (the (bbt_td s)) ! i)) s
      | Some BBT_MIRROR \<Rightarrow> upd_descr BBT_MAIN (set_version i (bd_version (the (bbt_md s)) ! i)) s)"

text \<open>The label \<open>writecheck\<close>; \<open>Inl\<close> leaves the function.\<close>

definition write_check ::
  "'h bbt_env \<Rightarrow> ('h, 'z) mtd_rw_scheme \<Rightarrow> nat \<Rightarrow> nat option \<Rightarrow> check_plan \<Rightarrow> 'h nand_st \<Rightarrow> (int \<times> 'h nand_st) option" where
  "write_check e m buf chipsel p s =
     do {
       (_, s) \<leftarrow> (case cp_rd p of None \<Rightarrow> Some (0, s) | Some rd \<Rightarrow> read_abs_bbt m buf rd chipsel s);
       (_, s) \<leftarrow> (case cp_rd2 p of None \<Rightarrow> Some (0, s) | Some rd \<Rightarrow> read_abs_bbt m buf rd chipsel s);
       td \<leftarrow> get_descr BBT_MAIN s;
       (res, s) \<leftarrow> (if cp_writeops p AND 0x01 \<noteq> 0 \<and> has_opt td NAND_BBT_WRITE
                    then write_bbt e m buf BBT_MAIN BBT_MIRROR chipsel s else Some (0, s));
       (if res < 0 then Some (res, s)
        else case get_descr BBT_MIRROR s of
               None \<Rightarrow> Some (0, s)
             | Some md \<Rightarrow>
                 if cp_writeops p AND 0x02 \<noteq> 0 \<and> has_opt md NAND_BBT_WRITE
                 then write_bbt e m buf BBT_MIRROR BBT_MAIN chipsel s else Some (0, s))
     }"

fun check_create_chips ::
  "'h bbt_env \<Rightarrow> ('h, 'z) mtd_rw_scheme \<Rightarrow> nat \<Rightarrow> bbt_descr \<Rightarrow> nat list \<Rightarrow> 'h nand_st \<Rightarrow> (int \<times> 'h nand_st) option" where
  "check_create_chips e m buf bd [] s = Some (0, s)"
| "check_create_chips e m buf bd (i # is') s =
     do {
       td \<leftarrow> get_descr BBT_MAIN s;
       (let chipsel = (if has_opt td NAND_BBT_PERCHIP then Some i else None);
            p = check_plan_of td (get_descr BBT_MIRROR s) i
        in if cp_create p \<and> \<not> has_opt td NAND_BBT_CREATE then check_create_chips e m buf bd is' s
           else do {
             (_, s) \<leftarrow> (if cp_create p then create_bbt m buf bd chipsel s else Some (0, s));
             (res, s) \<leftarrow> write_check e m buf chipsel p
                (if cp_create p then upd_descr BBT_MIRROR (set_version i 1) (upd_descr BBT_MAIN (set_version i 1) s)
                 else copy_version i (cp_version p) s);
             (if res < 0 then Some (res, s) else check_create_chips e m buf bd is' s)
           })
     }"

definition check_create ::
  "'h bbt_env \<Rightarrow> ('h, 'z) mtd_rw_scheme \<Rightarrow> nat \<Rightarrow> bbt_descr \<Rightarrow> 'h nand_st \<Rightarrow> (int \<times> 'h nand_st) option" where
  "check_create e m buf bd s =
     do {
       td \<leftarrow> get_descr BBT_MAIN s;
       check_create_chips e m buf bd [0 ..< (if has_opt td NAND_BBT_PERCHIP then numchips m else 1)] s
     }"

section \<open>Updating the tables and reserving their blocks\<close>

definition inc_version :: "nat \<Rightarrow> bbt_descr \<Rightarrow> bbt_descr" where
  "inc_version i d = set_version i (bd_version d ! i + 1) d"

definition nand_update_bbt ::
  "'h bbt_env \<Rightarrow> ('h, 'z) mtd_rw_scheme \<Rightarrow> u64 \<Rightarrow> 'h nand_st \<Rightarrow> (int \<times> 'h nand_st) option" where
  "nand_update_bbt e m offs s =
     (case (chip_bbt s, bbt_td s) of
        (Some _, Some td) \<Rightarrow>
          (case env_kbuf e of
             None \<Rightarrow> Some (- ENOMEM, s)
           | Some buf \<Rightarrow>
               let chip = (if has_opt td NAND_BBT_PERCHIP then unat (drop_bit (chip_shift m) offs) else 0);
                   chipsel = (if has_opt td NAND_BBT_PERCHIP then Some chip else None);
                   s = upd_descr BBT_MIRROR (inc_version chip) (upd_descr BBT_MAIN (inc_version chip) s)
               in do {
                 (res, s) \<leftarrow> (if has_opt td NAND_BBT_WRITE then write_bbt e m buf BBT_MAIN BBT_MIRROR chipsel s
                              else Some (0, s));
                 (if res < 0 then Some (res, s)
                  else case bbt_md s of
                         Some md \<Rightarrow> if has_opt md NAND_BBT_WRITE then write_bbt e m buf BBT_MIRROR BBT_MAIN chipsel s
                                    else Some (res, s)
                       | None \<Rightarrow> Some (res, s))
               })
      | _ \<Rightarrow> Some (- EINVAL, s))"

text \<open>Block \<open>block\<close> is marked as reserved; whether the table has changed.\<close>

definition mark_reserved :: "nat \<Rightarrow> 'h nand_st \<Rightarrow> bool \<times> 'h nand_st" where
  "mark_reserved block s =
     (let s' = bbt_or (2 * block div 8) (push_bit (2 * block AND 0x06) 0x2) s in (chip_bbt s' \<noteq> chip_bbt s, s'))"

text \<open>The blocks that a table of chip \<open>i\<close> may occupy, or its only block.\<close>

definition region_blocks :: "('h, 'z) nand_hw_scheme \<Rightarrow> bbt_descr \<Rightarrow> nat \<Rightarrow> nat list" where
  "region_blocks m td i =
     (let nrblocks = bbt_numblocks m td in
      if has_opt td NAND_BBT_ABSPAGE \<or> \<not> has_opt td NAND_BBT_WRITE then
        if bd_pages td ! i = - 1 then []
        else [nat (drop_bit (bbt_erase_shift m - page_shift m) (bd_pages td ! i))]
      else
        let block = (if has_opt td NAND_BBT_LASTBLOCK then (i + 1) * nrblocks - bd_maxblocks td else i * nrblocks)
        in [block ..< block + bd_maxblocks td])"

definition mark_blocks :: "nat list \<Rightarrow> 'h nand_st \<Rightarrow> bool \<times> 'h nand_st" where
  "mark_blocks bs s = fold (\<lambda>b (upd, s). let (u, s) = mark_reserved b s in (upd \<or> u, s)) bs (False, s)"

fun mark_bbt_chips ::
  "'h bbt_env \<Rightarrow> ('h, 'z) mtd_rw_scheme \<Rightarrow> bbt_sel \<Rightarrow> nat list \<Rightarrow> 'h nand_st \<Rightarrow> (unit \<times> 'h nand_st) option" where
  "mark_bbt_chips e m sel [] s = Some ((), s)"
| "mark_bbt_chips e m sel (i # is') s =
     do {
       td \<leftarrow> get_descr sel s;
       (let bs = region_blocks m td i; (update, s) = mark_blocks bs s
        in do {
          (_, s) \<leftarrow> (if update \<and> bd_reserved_block_code td \<noteq> 0
                     then nand_update_bbt e m (push_bit (bbt_erase_shift m) (word_of_nat (last bs))) s else Some (0, s));
          mark_bbt_chips e m sel is' s
        })
     }"

definition mark_bbt_region ::
  "'h bbt_env \<Rightarrow> ('h, 'z) mtd_rw_scheme \<Rightarrow> bbt_sel \<Rightarrow> 'h nand_st \<Rightarrow> (unit \<times> 'h nand_st) option" where
  "mark_bbt_region e m sel s =
     do {
       td \<leftarrow> get_descr sel s;
       mark_bbt_chips e m sel [0 ..< (if has_opt td NAND_BBT_PERCHIP then numchips m else 1)] s
     }"

section \<open>Scanning the device\<close>

text \<open>
  The descriptor that is scanned with is \<open>this->badblock_pattern\<close> when no table is kept in flash;
  the option that \<open>nand_memory_bbt\<close> clears is cleared in it.
\<close>

definition nand_memory_bbt ::
  "('h, 'z) mtd_rw_scheme \<Rightarrow> bbt_descr \<Rightarrow> 'h nand_st \<Rightarrow> (int \<times> 'h nand_st) option" where
  "nand_memory_bbt m bd s =
     (let bd = bd\<lparr>bd_options := bd_options bd AND NOT NAND_BBT_SCANEMPTY\<rparr>
      in create_bbt m (databuf m) bd None (s\<lparr>badblock_pattern := Some bd\<rparr>))"

definition nand_scan_bbt ::
  "'h bbt_env \<Rightarrow> ('h, 'z) mtd_rw_scheme \<Rightarrow> bbt_descr \<Rightarrow> 'h nand_st \<Rightarrow> (int \<times> 'h nand_st) option" where
  "nand_scan_bbt e m bd s =
     (if \<not> env_bbt_mem e then Some (- ENOMEM, s\<lparr>chip_bbt := None\<rparr>)
      else let s = s\<lparr>chip_bbt := Some (replicate (unat (drop_bit (bbt_erase_shift m + 2) (mtd_size m))) 0)\<rparr>
        in case bbt_td s of
             None \<Rightarrow> do {
               (res, s) \<leftarrow> nand_memory_bbt m bd s;
               Some (res, if res \<noteq> 0 then s\<lparr>chip_bbt := None\<rparr> else s)
             }
           | Some td \<Rightarrow>
               (case env_vbuf e of
                  None \<Rightarrow> Some (- ENOMEM, s\<lparr>chip_bbt := None\<rparr>)
                | Some buf \<Rightarrow> do {
                    (res, s) \<leftarrow> (if has_opt td NAND_BBT_ABSPAGE then read_abs_bbts m buf s
                                 else search_read_bbts m buf s);
                    (res, s) \<leftarrow> (if res \<noteq> 0 then check_create e m buf bd s else Some (res, s));
                    (_, s) \<leftarrow> mark_bbt_region e m BBT_MAIN s;
                    (_, s) \<leftarrow> (if bbt_md s \<noteq> None then mark_bbt_region e m BBT_MIRROR s else Some ((), s));
                    Some (res, s)
                  }))"

section \<open>The default descriptors\<close>

definition memorybased_small :: bbt_descr where
  "memorybased_small = \<lparr>bd_options = NAND_BBT_SCAN2NDPAGE, bd_pages = [0], bd_offs = 5, bd_veroffs = 0,
     bd_version = [0], bd_len = 1, bd_maxblocks = 0, bd_reserved_block_code = 0, bd_pattern = [0xff, 0xff]\<rparr>"

definition memorybased_large :: bbt_descr where
  "memorybased_large = memorybased_small\<lparr>bd_options := 0, bd_offs := 0, bd_len := 2\<rparr>"

definition flashbased_small :: bbt_descr where
  "flashbased_small = memorybased_small"

definition flashbased_large :: bbt_descr where
  "flashbased_large = memorybased_small\<lparr>bd_options := NAND_BBT_SCAN2NDPAGE, bd_offs := 0, bd_len := 2\<rparr>"

definition agand_flashbased :: bbt_descr where
  "agand_flashbased = memorybased_small\<lparr>bd_options := NAND_BBT_SCANEMPTY OR NAND_BBT_SCANALLPAGES, bd_offs := 0x20,
     bd_len := 6, bd_pattern := [0x1C, 0x71, 0xC7, 0x1C, 0x71, 0xC7]\<rparr>"

definition bbt_main_descr :: bbt_descr where
  "bbt_main_descr = \<lparr>bd_options = NAND_BBT_LASTBLOCK OR NAND_BBT_CREATE OR NAND_BBT_WRITE
       OR NAND_BBT_2BIT OR NAND_BBT_VERSION OR NAND_BBT_PERCHIP, bd_pages = [0], bd_offs = 8, bd_veroffs = 12,
     bd_version = [0], bd_len = 4, bd_maxblocks = 4, bd_reserved_block_code = 0,
     bd_pattern = [0x42, 0x62, 0x74, 0x30]\<rparr>"

definition bbt_mirror_descr :: bbt_descr where
  "bbt_mirror_descr = bbt_main_descr\<lparr>bd_pattern := [0x31, 0x74, 0x62, 0x42]\<rparr>"

definition default_tables :: "'h nand_st \<Rightarrow> 'h nand_st" where
  "default_tables s = (if bbt_td s = None then s\<lparr>bbt_td := Some bbt_main_descr, bbt_md := Some bbt_mirror_descr\<rparr> else s)"

definition default_pattern :: "bbt_descr \<Rightarrow> 'h nand_st \<Rightarrow> 'h nand_st" where
  "default_pattern d s = (if badblock_pattern s = None then s\<lparr>badblock_pattern := Some d\<rparr> else s)"

definition nand_default_bbt :: "'h bbt_env \<Rightarrow> ('h, 'z) mtd_rw_scheme \<Rightarrow> 'h nand_st \<Rightarrow> (int \<times> 'h nand_st) option" where
  "nand_default_bbt e m s =
     (if chip_options s AND NAND_IS_AND \<noteq> 0
      then let s = default_tables s
           in nand_scan_bbt e m agand_flashbased (s\<lparr>chip_options := chip_options s OR NAND_USE_FLASH_BBT\<rparr>)
      else let s = (if chip_options s AND NAND_USE_FLASH_BBT \<noteq> 0
                    then default_pattern (if 512 < writesize m then flashbased_large else flashbased_small) (default_tables s)
                    else default_pattern (if 512 < writesize m then memorybased_large else memorybased_small)
                           (s\<lparr>bbt_td := None, bbt_md := None\<rparr>))
           in do { bd \<leftarrow> badblock_pattern s; nand_scan_bbt e m bd s })"

end
