(* ===== verification/NandBase.thy ===== *)
theory NandBase
  imports NandPage NandBbt
begin

text \<open>
  The generic NAND layer of \<open>drivers/mtd/nand/nand_base.c\<close>: the operations behind the function pointers
  of \<open>struct mtd_info\<close> (read, write, spare bytes, erase, bad blocks) in terms of the
  page access functions and the board driver's functions.

  The local variables of the two page loops are records.  Page and chip numbers are
  \<open>int\<close>, lengths and columns 32-bit words as in the code.
\<close>

section \<open>Device and bad blocks\<close>

definition phys_erase_size :: "('h, 'z) nand_hw_scheme \<Rightarrow> u64" where
  "phys_erase_size m = push_bit (phys_erase_shift m) 1"

definition check_offs_len :: "('h, 'z) nand_hw_scheme \<Rightarrow> u64 \<Rightarrow> u64 \<Rightarrow> int" where
  "check_offs_len m ofs n =
     (if ofs AND (phys_erase_size m - 1) \<noteq> 0 \<or> n AND (phys_erase_size m - 1) \<noteq> 0 \<or> mtd_size m < ofs + n
      then - EINVAL else 0)"

definition nand_get_device :: "fl_state \<Rightarrow> 'h nand_st \<Rightarrow> 'h nand_st" where
  "nand_get_device new_state s = s\<lparr>chip_state := new_state\<rparr>"

definition nand_release_device :: "('h, 'z) nand_core_scheme \<Rightarrow> 'h nand_st \<Rightarrow> 'h nand_st" where
  "nand_release_device m s = select_chip m (- 1) s"

text \<open>\<open>(int)(ofs >> chip->page_shift) & chip->pagemask\<close>\<close>

definition page_of :: "('h, 'z) nand_core_scheme \<Rightarrow> u64 \<Rightarrow> int" where
  "page_of m ofs = int_shift ofs (page_shift m) AND pagemask m"

definition nand_block_bad :: "('h, 'z) nand_hw_scheme \<Rightarrow> u64 \<Rightarrow> bool \<Rightarrow> 'h nand_st \<Rightarrow> int \<times> 'h nand_st" where
  "nand_block_bad m ofs getchip s =
     (let page = page_of m ofs;
          s = (if getchip then select_chip m (int_shift ofs (chip_shift m)) (nand_get_device FL_READING s) else s);
          (res, s) =
            (if chip_options s AND NAND_BUSWIDTH_16 \<noteq> 0
             then let s = cmdfunc m NAND_CMD_READOOB (int (badblockpos m) AND 0xFE) page s;
                      (bad, s) = read_word m s;
                      bad = (if odd (badblockpos m) then drop_bit 8 bad else bad)
                  in (if bad AND 0xFF \<noteq> 0xff then 1 else 0, s)
             else let s = cmdfunc m NAND_CMD_READOOB (int (badblockpos m)) page s;
                      (b, s) = read_byte m s
                  in (if b \<noteq> 0xff then 1 else 0, s))
      in (res, if getchip then nand_release_device m s else s))"

text \<open>The driver under test: a status without the bit \<open>NAND_STATUS_WP\<close> means write protected.\<close>

definition nand_check_wp :: "('h, 'z) nand_hw_scheme \<Rightarrow> 'h nand_st \<Rightarrow> bool \<times> 'h nand_st" where
  "nand_check_wp m s =
     (let fl_state = chip_state s;
          s = cmdfunc m NAND_CMD_STATUS (- 1) (- 1) (s\<lparr>chip_state := FL_READING\<rparr>);
          (b, s) = read_byte m (s\<lparr>chip_state := fl_state\<rparr>)
      in (b AND NAND_STATUS_WP = 0, s))"

text \<open>The scrub of \<open>nand_util.c\<close> replaces \<open>block_bad\<close> by a function that finds no block bad.\<close>

definition block_bad_hook :: "('h, 'z) nand_chip_scheme \<Rightarrow> u64 \<Rightarrow> bool \<Rightarrow> 'h nand_st \<Rightarrow> int \<times> 'h nand_st" where
  "block_bad_hook m ofs getchip s = (if chip_scrubbed s then (0, s) else block_bad m ofs getchip s)"

definition nand_block_checkbad ::
  "('h, 'z) nand_chip_scheme \<Rightarrow> u64 \<Rightarrow> bool \<Rightarrow> bool \<Rightarrow> 'h nand_st \<Rightarrow> (int \<times> 'h nand_st) option" where
  "nand_block_checkbad m ofs getchip allowbbt s =
     do {
       (_, s) \<leftarrow> (if chip_options s AND NAND_BBT_SCANNED = 0
                  then scan_bbt m (s\<lparr>chip_options := chip_options s OR NAND_BBT_SCANNED\<rparr>)
                  else Some (0, s));
       (case chip_bbt s of
          None \<Rightarrow> Some (block_bad_hook m ofs getchip s)
        | Some t \<Rightarrow> Some (nand_isbad_bbt m ofs allowbbt t, s))
     }"

section \<open>Reading\<close>

record read_locals =
  rl_chipnr :: int
  rl_realpage :: int
  rl_page :: int
  rl_col :: u32
  rl_sndcmd :: bool
  rl_readlen :: u32
  rl_oobreadlen :: u32
  rl_buf :: nat
  rl_oob :: "nat option"

definition blkcheck :: "('h, 'z) nand_hw_scheme \<Rightarrow> int" where
  "blkcheck m = 2 ^ (phys_erase_shift m - page_shift m) - 1"

definition NAND_SUBPAGE_READ :: "('h, 'z) nand_hw_scheme \<Rightarrow> bool" where
  "NAND_SUBPAGE_READ m \<longleftrightarrow> ecc_mode m = NAND_ECC_SOFT \<and> 9 < page_shift m"

definition NAND_CANAUTOINCR :: "'h nand_st \<Rightarrow> bool" where
  "NAND_CANAUTOINCR s \<longleftrightarrow> chip_options s AND NAND_NO_AUTOINCR = 0"

definition max_oobsize :: "'a mtd_geom_scheme \<Rightarrow> oob_ops \<Rightarrow> u32" where
  "max_oobsize m ops = (if ops_mode ops = MTD_OOB_AUTO then mtd_oobavail m else oobsize m)"

definition read_bytes_of :: "'a mtd_geom_scheme \<Rightarrow> read_locals \<Rightarrow> u32" where
  "read_bytes_of m v = min (writesize m - rl_col v) (rl_readlen v)"

text \<open>The page is fetched from the chip into \<open>bufpoi\<close>.\<close>

definition read_ops_fetch ::
  "('h, 'z) nand_ecc_scheme \<Rightarrow> oob_ops \<Rightarrow> read_locals \<Rightarrow> 'h nand_st \<Rightarrow> int \<times> 'h nand_st" where
  "read_ops_fetch m ops v s =
     (let bytes = read_bytes_of m v; aligned = (bytes = writesize m);
          bufpoi = (if aligned then rl_buf v else databuf m);
          s = (if rl_sndcmd v then cmdfunc m NAND_CMD_READ0 0 (rl_page v) s else s)
      in if ops_mode ops = MTD_OOB_RAW then ecc_read_page_raw m bufpoi (rl_page v) s
         else if \<not> aligned \<and> NAND_SUBPAGE_READ m \<and> rl_oob v = None
         then ecc_read_subpage m (rl_col v) bytes bufpoi s
         else ecc_read_page m bufpoi (rl_page v) s)"

text \<open>One round of the loop up to \<open>readlen -= bytes\<close>; the status is negative when the loop is left.\<close>

definition read_ops_page ::
  "('h, 'z) nand_ecc_scheme \<Rightarrow> oob_ops \<Rightarrow> read_locals \<Rightarrow> 'h nand_st \<Rightarrow> (int \<times> read_locals) \<times> 'h nand_st" where
  "read_ops_page m ops v s =
     (let bytes = read_bytes_of m v; aligned = (bytes = writesize m) in
      if rl_realpage v \<noteq> chip_pagebuf s \<or> rl_oob v \<noteq> None then
        let (ret, s) = read_ops_fetch m ops v s; v = v\<lparr>rl_sndcmd := False\<rparr>
        in if ret < 0 then ((ret, v), s)
           else
             let s = (if \<not> aligned then
                        upd_ram (copy_bytes (rl_buf v) (databuf m + unat (rl_col v)) (unat bytes))
                          (if \<not> NAND_SUBPAGE_READ m \<and> rl_oob v = None then s\<lparr>chip_pagebuf := rl_realpage v\<rparr> else s)
                      else s);
                 v = v\<lparr>rl_buf := rl_buf v + unat bytes\<rparr>;
                 toread = min (rl_oobreadlen v) (max_oobsize m ops);
                 (v, s) = (case rl_oob v of
                     None \<Rightarrow> (v, s)
                   | Some oob \<Rightarrow>
                       if toread \<noteq> 0
                       then let (oob, s) = nand_transfer_oob m oob ops (unat toread) s
                            in (v\<lparr>rl_oob := Some oob, rl_oobreadlen := rl_oobreadlen v - toread\<rparr>, s)
                       else (v, s));
                 s = (if chip_options s AND NAND_NO_READRDY = 0 then wait_ready m s else s)
             in ((ret, v\<lparr>rl_readlen := rl_readlen v - bytes\<rparr>), s)
      else
        ((0, v\<lparr>rl_buf := rl_buf v + unat bytes, rl_readlen := rl_readlen v - bytes\<rparr>),
         upd_ram (copy_bytes (rl_buf v) (databuf m + unat (rl_col v)) (unat bytes)) s))"

text \<open>The end of a round: on to the next page.\<close>

definition read_ops_next ::
  "('h, 'z) nand_hw_scheme \<Rightarrow> read_locals \<Rightarrow> 'h nand_st \<Rightarrow> read_locals \<times> 'h nand_st" where
  "read_ops_next m v s =
     (let realpage = rl_realpage v + 1; page = realpage AND pagemask m;
          chipnr = (if page = 0 then rl_chipnr v + 1 else rl_chipnr v);
          s = (if page = 0 then select_chip m chipnr (select_chip m (- 1) s) else s)
      in (v\<lparr>rl_col := 0, rl_realpage := realpage, rl_page := page, rl_chipnr := chipnr,
            rl_sndcmd := rl_sndcmd v \<or> \<not> NAND_CANAUTOINCR s \<or> page AND blkcheck m = 0\<rparr>, s))"

text \<open>A page taken from the buffer leaves \<open>ret\<close> as the round before has set it.\<close>

partial_function (option) read_ops_loop ::
  "('h, 'z) nand_ecc_scheme \<Rightarrow> oob_ops \<Rightarrow> int \<Rightarrow> read_locals \<Rightarrow> 'h nand_st \<Rightarrow> ((int \<times> read_locals) \<times> 'h nand_st) option" where
  "read_ops_loop m ops ret0 v s =
     (let fetched = (rl_realpage v \<noteq> chip_pagebuf s \<or> rl_oob v \<noteq> None);
          ((r, v), s) = read_ops_page m ops v s;
          ret = (if fetched then r else ret0)
      in if fetched \<and> r < 0 then Some ((r, v), s)
         else if rl_readlen v = 0 then Some ((ret, v), s)
         else let (v, s) = read_ops_next m v s in read_ops_loop m ops ret v s)"

definition read_init :: "('h, 'z) nand_hw_scheme \<Rightarrow> u64 \<Rightarrow> oob_ops \<Rightarrow> nat \<Rightarrow> read_locals" where
  "read_init m from ops buf =
     \<lparr>rl_chipnr = int_shift from (chip_shift m), rl_realpage = int_shift from (page_shift m),
      rl_page = page_of m from, rl_col = ucast (from AND ucast (writesize m - 1)), rl_sndcmd = True,
      rl_readlen = ops_len ops, rl_oobreadlen = ops_ooblen ops, rl_buf = buf, rl_oob = ops_oobbuf ops\<rparr>"

definition nand_do_read_ops ::
  "('h, 'z) nand_ecc_scheme \<Rightarrow> u64 \<Rightarrow> oob_ops \<Rightarrow> 'h nand_st \<Rightarrow> ((int \<times> oob_ops) \<times> 'h nand_st) option" where
  "nand_do_read_ops m from ops s =
     do {
       buf \<leftarrow> ops_datbuf ops;
       (let stats = ecc_stats s; s = select_chip m (int_shift from (chip_shift m)) s
        in do {
          ((ret, v), s) \<leftarrow> read_ops_loop m ops 0 (read_init m from ops buf) s;
          (let ops = ops\<lparr>ops_retlen := ops_len ops - rl_readlen v,
                         ops_oobretlen := (if rl_oob v \<noteq> None then ops_ooblen ops - rl_oobreadlen v
                                           else ops_oobretlen ops)\<rparr>
           in Some ((if ret \<noteq> 0 then ret
                     else if st_failed (ecc_stats s) - st_failed stats \<noteq> 0 then - 74
                     else if st_corrected (ecc_stats s) - st_corrected stats \<noteq> 0 then - EUCLEAN else 0, ops), s))
        })
     }"

text \<open>\<open>nand_read\<close>: the chip's own request \<open>chip->ops\<close> is used, with the mode that the last user left in it.\<close>

definition nand_read_base ::
  "('h, 'z) nand_ecc_scheme \<Rightarrow> u64 \<Rightarrow> u32 \<Rightarrow> u32 \<Rightarrow> nat \<Rightarrow> 'h nand_st \<Rightarrow> ((int \<times> u32) \<times> 'h nand_st) option" where
  "nand_read_base m from n retlen buf s =
     (if mtd_size m < from + ucast n then Some ((- EINVAL, retlen), s)
      else if n = 0 then Some ((0, retlen), s)
      else let s = nand_get_device FL_READING s;
               ops = (chip_ops s)\<lparr>ops_len := n, ops_datbuf := Some buf, ops_oobbuf := None\<rparr>
           in do {
             ((ret, ops), s) \<leftarrow> nand_do_read_ops m from ops (s\<lparr>chip_ops := ops\<rparr>);
             Some ((ret, ops_retlen ops), nand_release_device m (s\<lparr>chip_ops := ops\<rparr>))
           })"

section \<open>Reading spare bytes\<close>

definition oob_limit :: "('h, 'z) nand_hw_scheme \<Rightarrow> oob_ops \<Rightarrow> u32" where
  "oob_limit m ops = (if ops_mode ops = MTD_OOB_AUTO then oobavail (ecclayout m) else oobsize m)"

text \<open>\<open>((mtd->size >> page_shift) - (ofs >> page_shift)) * len\<close>, the spare bytes from a page to the end.\<close>

definition oob_left :: "('h, 'z) nand_hw_scheme \<Rightarrow> u64 \<Rightarrow> u32 \<Rightarrow> u64" where
  "oob_left m ofs n = (drop_bit (page_shift m) (mtd_size m) - signed_drop_bit (page_shift m) ofs) * scast n"

partial_function (option) read_oob_loop ::
  "('h, 'z) nand_ecc_scheme \<Rightarrow> oob_ops \<Rightarrow> int \<Rightarrow> int \<Rightarrow> int \<Rightarrow> bool \<Rightarrow> int \<Rightarrow> int \<Rightarrow> nat \<Rightarrow> 'h nand_st \<Rightarrow> (unit \<times> 'h nand_st) option" where
  "read_oob_loop m ops chipnr realpage page sndcmd n readlen buf s =
     (let (sndcmd, s) = ecc_read_oob m page sndcmd s;
          n = min n readlen;
          (buf, s) = nand_transfer_oob m buf ops (unat (word_of_int n :: u32)) s;
          s = (if chip_options s AND NAND_NO_READRDY = 0 then wait_ready m s else s);
          readlen = readlen - n
      in if readlen = 0 then Some ((), s)
         else
           let realpage = realpage + 1; page = realpage AND pagemask m;
               chipnr = (if page = 0 then chipnr + 1 else chipnr);
               s = (if page = 0 then select_chip m chipnr (select_chip m (- 1) s) else s)
           in read_oob_loop m ops chipnr realpage page
                (sndcmd \<or> \<not> NAND_CANAUTOINCR s \<or> page AND blkcheck m = 0) n readlen buf s)"

definition nand_do_read_oob ::
  "('h, 'z) nand_ecc_scheme \<Rightarrow> u64 \<Rightarrow> oob_ops \<Rightarrow> 'h nand_st \<Rightarrow> ((int \<times> oob_ops) \<times> 'h nand_st) option" where
  "nand_do_read_oob m from ops s =
     (let len = oob_limit m ops in
      if len \<le> ops_ooboffs ops then Some ((- EINVAL, ops), s)
      else if mtd_size m \<le> from \<or> oob_left m from len < ucast (ops_ooboffs ops + ops_ooblen ops)
      then Some ((- EINVAL, ops), s)
      else do {
        buf \<leftarrow> ops_oobbuf ops;
        (_, s) \<leftarrow> read_oob_loop m ops (int_shift from (chip_shift m)) (int_shift from (page_shift m)) (page_of m from)
           True (sint len) (sint (ops_ooblen ops)) buf (select_chip m (int_shift from (chip_shift m)) s);
        Some ((0, ops\<lparr>ops_oobretlen := ops_ooblen ops\<rparr>), s)
      })"

definition nand_read_oob ::
  "('h, 'z) nand_ecc_scheme \<Rightarrow> u64 \<Rightarrow> oob_ops \<Rightarrow> 'h nand_st \<Rightarrow> ((int \<times> oob_ops) \<times> 'h nand_st) option" where
  "nand_read_oob m from ops0 s =
     (let ops = ops0\<lparr>ops_retlen := 0\<rparr> in
      if ops_datbuf ops \<noteq> None \<and> mtd_size m < from + ucast (ops_len ops) then Some ((- EINVAL, ops), s)
      else let s = nand_get_device FL_READING s in
        do {
          (r, s) \<leftarrow> (if ops_datbuf ops = None then nand_do_read_oob m from ops s else nand_do_read_ops m from ops s);
          Some (r, nand_release_device m s)
        })"

section \<open>Writing\<close>

definition nand_write_page ::
  "('h, 'z) nand_ecc_scheme \<Rightarrow> nat \<Rightarrow> int \<Rightarrow> bool \<Rightarrow> bool \<Rightarrow> 'h nand_st \<Rightarrow> int \<times> 'h nand_st" where
  "nand_write_page m buf page cached raw s =
     (let s = cmdfunc m NAND_CMD_SEQIN 0 page s;
          s = (if raw then ecc_write_page_raw m buf s else ecc_write_page m buf s);
          s = cmdfunc m NAND_CMD_PAGEPROG (- 1) (- 1) s;
          (status, s) = waitfunc m s;
          (status, s) = (case errstat m of
              None \<Rightarrow> (status, s)
            | Some f \<Rightarrow> if status AND NAND_STATUS_FAIL \<noteq> 0 then f FL_WRITING status page s else (status, s))
      in (if status AND NAND_STATUS_FAIL \<noteq> 0 then - EIO else 0, s))"

record write_locals =
  wl_chipnr :: int
  wl_realpage :: int
  wl_page :: int
  wl_column :: u32
  wl_writelen :: u32
  wl_oobwritelen :: u32
  wl_buf :: nat
  wl_oob :: "nat option"

text \<open>\<open>NOTALIGNED(x)\<close>\<close>

definition NOTALIGNED :: "('h, 'z) nand_hw_scheme \<Rightarrow> u64 \<Rightarrow> bool" where
  "NOTALIGNED m x \<longleftrightarrow> x AND ucast (subpagesize m - 1) \<noteq> 0"

text \<open>One round of the loop: the status, the bytes written and the locals.\<close>

definition write_ops_page ::
  "('h, 'z) nand_chip_scheme \<Rightarrow> oob_ops \<Rightarrow> write_locals \<Rightarrow> 'h nand_st \<Rightarrow> (int \<times> u32 \<times> write_locals) \<times> 'h nand_st" where
  "write_ops_page m ops v s =
     (let partial = wl_column v \<noteq> 0 \<or> wl_writelen v < writesize m - 1;
          bytes = (if partial
                   then word_of_int (min (sint (writesize m - wl_column v)) (sint (wl_writelen v))) else writesize m);
          cached = (\<not> partial \<and> writesize m < wl_writelen v \<and> wl_page v \<noteq> blkcheck m);
          s = (if partial
               then upd_ram (\<lambda>mm. copy_bytes (databuf m + unat (wl_column v)) (wl_buf v) (unat bytes)
                                    (fill_bytes mm (databuf m) 0xff (unat (writesize m)))) (s\<lparr>chip_pagebuf := - 1\<rparr>)
               else s);
          wbuf = (if partial then databuf m else wl_buf v);
          (v, s) = (case wl_oob v of
              None \<Rightarrow> (v, s)
            | Some oob \<Rightarrow>
                let n = min (wl_oobwritelen v) (max_oobsize m ops);
                    (oob, s) = nand_fill_oob m oob (unat n) ops s
                in (v\<lparr>wl_oob := Some oob, wl_oobwritelen := wl_oobwritelen v - n\<rparr>, s));
          (ret, s) = write_page m wbuf (wl_page v) cached (ops_mode ops = MTD_OOB_RAW) s
      in ((ret, bytes, v), s))"

partial_function (option) write_ops_loop ::
  "('h, 'z) nand_chip_scheme \<Rightarrow> oob_ops \<Rightarrow> write_locals \<Rightarrow> 'h nand_st \<Rightarrow> ((int \<times> write_locals) \<times> 'h nand_st) option" where
  "write_ops_loop m ops v s =
     (let ((ret, bytes, v), s) = write_ops_page m ops v s in
      if ret \<noteq> 0 then Some ((ret, v), s)
      else let v = v\<lparr>wl_writelen := wl_writelen v - bytes\<rparr> in
        if wl_writelen v = 0 then Some ((ret, v), s)
        else
          let realpage = wl_realpage v + 1; page = realpage AND pagemask m;
              chipnr = (if page = 0 then wl_chipnr v + 1 else wl_chipnr v);
              s = (if page = 0 then select_chip m chipnr (select_chip m (- 1) s) else s)
          in write_ops_loop m ops (v\<lparr>wl_column := 0, wl_buf := wl_buf v + unat bytes, wl_realpage := realpage,
               wl_page := page, wl_chipnr := chipnr\<rparr>) s)"

definition write_init :: "('h, 'z) nand_hw_scheme \<Rightarrow> u64 \<Rightarrow> oob_ops \<Rightarrow> nat \<Rightarrow> write_locals" where
  "write_init m to ops buf =
     \<lparr>wl_chipnr = int_shift to (chip_shift m), wl_realpage = int_shift to (page_shift m), wl_page = page_of m to,
      wl_column = ucast (to AND ucast (writesize m - 1)), wl_writelen = ops_len ops,
      wl_oobwritelen = ops_ooblen ops, wl_buf = buf, wl_oob = ops_oobbuf ops\<rparr>"

text \<open>Whether the page in the buffer is written to; the second shift is a 32-bit one.\<close>

definition writes_cached_page :: "('h, 'z) nand_hw_scheme \<Rightarrow> u64 \<Rightarrow> u32 \<Rightarrow> int \<Rightarrow> bool" where
  "writes_cached_page m to n pagebuf \<longleftrightarrow>
     word_sle to (push_bit (page_shift m) (word_of_int pagebuf)) \<and>
     word_sless (scast (push_bit (page_shift m) (word_of_int pagebuf :: u32))) (to + ucast n)"

definition nand_do_write_ops ::
  "('h, 'z) nand_chip_scheme \<Rightarrow> u64 \<Rightarrow> oob_ops \<Rightarrow> 'h nand_st \<Rightarrow> ((int \<times> oob_ops) \<times> 'h nand_st) option" where
  "nand_do_write_ops m to ops0 s =
     (let ops = ops0\<lparr>ops_retlen := 0\<rparr>; v = write_init m to ops (the (ops_datbuf ops)) in
      if ops_len ops = 0 then Some ((0, ops), s)
      else if NOTALIGNED m to \<or> NOTALIGNED m (ucast (ops_len ops)) then Some ((- EINVAL, ops), s)
      else if (wl_column v \<noteq> 0 \<or> ops_len ops AND (writesize m - 1) \<noteq> 0) \<and> ops_oobbuf ops \<noteq> None
      then Some ((- EINVAL, ops), s)
      else
        let s = select_chip m (int_shift to (chip_shift m)) s; (wp, s) = nand_check_wp m s in
        if wp then Some ((- EIO, ops), s)
        else
          let s = (if writes_cached_page m to (ops_len ops) (chip_pagebuf s) then s\<lparr>chip_pagebuf := - 1\<rparr> else s);
              s = (if ops_oobbuf ops = None
                   then upd_ram (\<lambda>mm. fill_bytes mm (oob_poi m) 0xff (unat (oobsize m))) s else s)
          in if ops_oobbuf ops \<noteq> None \<and> ops_ooboffs ops \<noteq> 0 \<and> max_oobsize m ops < ops_ooboffs ops + ops_ooblen ops
             then Some ((- EINVAL, ops), s)
             else do {
               ((ret, v), s) \<leftarrow> write_ops_loop m ops v s;
               Some ((ret, ops\<lparr>ops_retlen := ops_len ops - wl_writelen v,
                               ops_oobretlen := (if wl_oob v \<noteq> None then ops_ooblen ops else ops_oobretlen ops)\<rparr>), s)
             })"

definition nand_write_base ::
  "('h, 'z) nand_chip_scheme \<Rightarrow> u64 \<Rightarrow> u32 \<Rightarrow> u32 \<Rightarrow> nat \<Rightarrow> 'h nand_st \<Rightarrow> ((int \<times> u32) \<times> 'h nand_st) option" where
  "nand_write_base m to n retlen buf s =
     (if mtd_size m < to + ucast n then Some ((- EINVAL, retlen), s)
      else if n = 0 then Some ((0, retlen), s)
      else let s = nand_get_device FL_WRITING s;
               ops = (chip_ops s)\<lparr>ops_len := n, ops_datbuf := Some buf, ops_oobbuf := None\<rparr>
           in do {
             ((ret, ops), s) \<leftarrow> nand_do_write_ops m to ops (s\<lparr>chip_ops := ops\<rparr>);
             Some ((ret, ops_retlen ops), nand_release_device m (s\<lparr>chip_ops := ops\<rparr>))
           })"

section \<open>Writing spare bytes\<close>

definition nand_do_write_oob ::
  "('h, 'z) nand_ecc_scheme \<Rightarrow> u64 \<Rightarrow> oob_ops \<Rightarrow> 'h nand_st \<Rightarrow> (int \<times> oob_ops) \<times> 'h nand_st" where
  "nand_do_write_oob m to ops s =
     (let len = oob_limit m ops in
      if len < ops_ooboffs ops + ops_ooblen ops then ((- EINVAL, ops), s)
      else if len \<le> ops_ooboffs ops then ((- EINVAL, ops), s)
      else if mtd_size m \<le> to \<or> oob_left m to len < ucast (ops_ooboffs ops + ops_ooblen ops)
      then ((- EINVAL, ops), s)
      else
        let s = select_chip m (int_shift to (chip_shift m)) s;
            page = int_shift to (page_shift m);
            s = cmdfunc m NAND_CMD_RESET (- 1) (- 1) s;
            (wp, s) = nand_check_wp m s
        in if wp then ((- EROFS, ops), s)
           else
             let s = (if page = chip_pagebuf s then s\<lparr>chip_pagebuf := - 1\<rparr> else s);
                 blank = upd_ram (\<lambda>mm. fill_bytes mm (oob_poi m) 0xff (unat (oobsize m)));
                 (_, s) = nand_fill_oob m (the (ops_oobbuf ops)) (unat (ops_ooblen ops)) ops (blank s);
                 (status, s) = ecc_write_oob m (page AND pagemask m) s;
                 s = blank s
             in if status \<noteq> 0 then ((status, ops), s)
                else ((0, ops\<lparr>ops_oobretlen := ops_ooblen ops\<rparr>), s))"

definition nand_write_oob ::
  "('h, 'z) nand_chip_scheme \<Rightarrow> u64 \<Rightarrow> oob_ops \<Rightarrow> 'h nand_st \<Rightarrow> ((int \<times> oob_ops) \<times> 'h nand_st) option" where
  "nand_write_oob m to ops0 s =
     (let ops = ops0\<lparr>ops_retlen := 0\<rparr> in
      if ops_datbuf ops \<noteq> None \<and> mtd_size m < to + ucast (ops_len ops) then Some ((- EINVAL, ops), s)
      else let s = nand_get_device FL_WRITING s in
        do {
          (r, s) \<leftarrow> (if ops_datbuf ops = None
                     then Some (nand_do_write_oob m to ops s)
                     else nand_do_write_ops m to ops s);
          Some (r, nand_release_device m s)
        })"


section \<open>Erasing\<close>

definition single_erase_cmd :: "('h, 'z) nand_hw_scheme \<Rightarrow> int \<Rightarrow> 'h nand_st \<Rightarrow> 'h nand_st" where
  "single_erase_cmd m page s = cmdfunc m NAND_CMD_ERASE2 (- 1) (- 1) (cmdfunc m NAND_CMD_ERASE1 (- 1) page s)"

definition multi_erase_cmd :: "('h, 'z) nand_hw_scheme \<Rightarrow> int \<Rightarrow> 'h nand_st \<Rightarrow> 'h nand_st" where
  "multi_erase_cmd m page s =
     cmdfunc m NAND_CMD_ERASE2 (- 1) (- 1)
       (fold (\<lambda>i. cmdfunc m NAND_CMD_ERASE1 (- 1) (page + i)) [0, 1, 2, 3] s)"

record erase_locals =
  el_chipnr :: int
  el_page :: int
  el_len :: u64
  el_masked :: u32
  el_rewrite :: "u64 list"

abbreviation (input) BBT_PAGE_MASK :: u32 where "BBT_PAGE_MASK \<equiv> 0xffffff3f"

definition masked_page :: "int \<Rightarrow> 'h nand_st \<Rightarrow> u32" where
  "masked_page chipnr s = word_of_int (bd_pages (the (bbt_td s)) ! nat chipnr) AND BBT_PAGE_MASK"

text \<open>
  One block that is not refused: the page buffer is invalidated, the block erased and the status
  looked at.
\<close>

definition erase_block :: "('h, 'z) nand_chip_scheme \<Rightarrow> int \<Rightarrow> 'h nand_st \<Rightarrow> int \<times> 'h nand_st" where
  "erase_block m page s =
     (let s = (if page \<le> chip_pagebuf s \<and> chip_pagebuf s < page + (blkcheck m + 1) then s\<lparr>chip_pagebuf := - 1\<rparr> else s);
          s = erase_cmd m (page AND pagemask m) s;
          (status, s) = waitfunc m s
      in case errstat m of
           None \<Rightarrow> (status, s)
         | Some f \<Rightarrow> if status AND NAND_STATUS_FAIL \<noteq> 0 then f FL_ERASING status page s else (status, s))"

text \<open>The loop; the request with its new state and the locals.\<close>

partial_function (option) erase_loop ::
  "('h, 'z) nand_chip_scheme \<Rightarrow> bool \<Rightarrow> erase_info \<Rightarrow> erase_locals \<Rightarrow> 'h nand_st \<Rightarrow> ((erase_info \<times> erase_locals) \<times> 'h nand_st) option" where
  "erase_loop m allowbbt instr v s =
     (if el_len v = 0 then Some ((instr\<lparr>erase_state := MTD_ERASE_DONE\<rparr>, v), s)
      else do {
        (bad, s) \<leftarrow> (if \<not> erase_scrub instr
                     then nand_block_checkbad m (push_bit (page_shift m) (word_of_int (el_page v))) False allowbbt s
                     else Some (0, s));
        (if bad \<noteq> 0 then Some ((instr\<lparr>erase_state := MTD_ERASE_FAILED\<rparr>, v), s)
         else let (status, s) = erase_block m (el_page v) s in
           if status AND NAND_STATUS_FAIL \<noteq> 0
           then Some ((instr\<lparr>erase_state := MTD_ERASE_FAILED,
                             erase_fail_addr := push_bit (page_shift m) (word_of_int (el_page v))\<rparr>, v), s)
           else
             let rewrite = (if el_masked v \<noteq> 0xffffffff \<and> word_of_int (el_page v) AND BBT_PAGE_MASK = el_masked v
                            then (el_rewrite v)[nat (el_chipnr v) := push_bit (page_shift m) (word_of_int (el_page v))]
                            else el_rewrite v);
                 n = el_len v - phys_erase_size m; page = el_page v + (blkcheck m + 1);
                 v = v\<lparr>el_rewrite := rewrite, el_len := n, el_page := page\<rparr>
             in if n \<noteq> 0 \<and> page AND pagemask m = 0
                then let chipnr = el_chipnr v + 1; s = select_chip m chipnr (select_chip m (- 1) s);
                         masked = (if el_masked v \<noteq> 0xffffffff \<and> has_opt (the (bbt_td s)) NAND_BBT_PERCHIP
                                   then masked_page chipnr s else el_masked v)
                     in erase_loop m allowbbt instr (v\<lparr>el_chipnr := chipnr, el_masked := masked\<rparr>) s
                else erase_loop m allowbbt instr v s)
      })"

fun rewrite_tables ::
  "(u64 \<Rightarrow> 'h nand_st \<Rightarrow> (int \<times> 'h nand_st) option) \<Rightarrow> u64 list \<Rightarrow> 'h nand_st \<Rightarrow> (unit \<times> 'h nand_st) option" where
  "rewrite_tables upd [] s = Some ((), s)"
| "rewrite_tables upd (r # rs) s =
     (if r = 0 then rewrite_tables upd rs s else do { (_, s) \<leftarrow> upd r s; rewrite_tables upd rs s })"

text \<open>
  \<open>upd\<close> is \<open>nand_update_bbt\<close>, which is reached only without \<open>allowbbt\<close>.  \<open>fail_addr\<close> is first set to
  \<open>MTD_FAIL_ADDR_UNKNOWN\<close>, all ones.
\<close>

definition nand_erase_nand ::
  "(u64 \<Rightarrow> 'h nand_st \<Rightarrow> (int \<times> 'h nand_st) option) \<Rightarrow> ('h, 'z) nand_chip_scheme \<Rightarrow> erase_info \<Rightarrow> bool \<Rightarrow> 'h nand_st \<Rightarrow>
     ((int \<times> erase_info) \<times> 'h nand_st) option" where
  "nand_erase_nand upd m instr0 allowbbt s =
     (if erase_addr instr0 AND (phys_erase_size m - 1) \<noteq> 0 then Some ((- EINVAL, instr0), s)
      else if erase_len instr0 AND (phys_erase_size m - 1) \<noteq> 0 then Some ((- EINVAL, instr0), s)
      else if check_offs_len m (erase_addr instr0) (erase_len instr0) \<noteq> 0 then Some ((- EINVAL, instr0), s)
      else
        let instr = instr0\<lparr>erase_fail_addr := - 1\<rparr>;
            s = nand_get_device FL_ERASING s;
            page = int_shift (erase_addr instr) (page_shift m); chipnr = int_shift (erase_addr instr) (chip_shift m);
            s = select_chip m chipnr s; (wp, s) = nand_check_wp m s;
            masked = (if chip_options s AND BBT_AUTO_REFRESH \<noteq> 0 \<and> \<not> allowbbt then masked_page chipnr s
                      else 0xffffffff)
        in if wp then Some ((- EIO, instr\<lparr>erase_state := MTD_ERASE_FAILED\<rparr>), nand_release_device m s)
           else do {
             ((instr, v), s) \<leftarrow> erase_loop m allowbbt (instr\<lparr>erase_state := MTD_ERASING\<rparr>)
                \<lparr>el_chipnr = chipnr, el_page = page, el_len = erase_len instr, el_masked = masked,
                 el_rewrite = replicate (numchips m) 0\<rparr> s;
             (let ret = (if erase_state instr = MTD_ERASE_DONE then 0 else - EIO); s = nand_release_device m s
              in if el_masked v = 0xffffffff \<or> ret \<noteq> 0 then Some ((ret, instr), s)
                 else do { (_, s) \<leftarrow> rewrite_tables upd (el_rewrite v) s; Some ((ret, instr), s) })
           })"

definition nand_erase ::
  "(u64 \<Rightarrow> 'h nand_st \<Rightarrow> (int \<times> 'h nand_st) option) \<Rightarrow> ('h, 'z) nand_chip_scheme \<Rightarrow> erase_info \<Rightarrow> 'h nand_st \<Rightarrow>
     ((int \<times> erase_info) \<times> 'h nand_st) option" where
  "nand_erase upd m instr s = nand_erase_nand upd m instr False s"

text \<open>The environment of the bad block table code: the erase that it calls never updates a table.\<close>

definition bbt_env_of :: "('h, 'z) nand_chip_scheme \<Rightarrow> bool \<Rightarrow> nat option \<Rightarrow> nat option \<Rightarrow> 'h bbt_env" where
  "bbt_env_of m mem vbuf kbuf =
     \<lparr>env_erase = (\<lambda>instr. nand_erase_nand (\<lambda>_ _. None) m instr True), env_bbt_mem = mem, env_vbuf = vbuf, env_kbuf = kbuf\<rparr>"

section \<open>Bad blocks\<close>

definition nand_sync :: "('h, 'z) nand_hw_scheme \<Rightarrow> 'h nand_st \<Rightarrow> 'h nand_st" where
  "nand_sync m s = nand_release_device m (nand_get_device FL_SYNCING s)"

text \<open>
  \<open>mark\<close> is the address of the two zero bytes on the stack.  Without a table in flash
  the mark is written with the mode that the last user left in \<open>chip->ops\<close>.
\<close>

definition nand_default_block_markbad ::
  "'h bbt_env \<Rightarrow> ('h, 'z) mtd_rw_scheme \<Rightarrow> nat \<Rightarrow> u64 \<Rightarrow> 'h nand_st \<Rightarrow> (int \<times> 'h nand_st) option" where
  "nand_default_block_markbad e m mark ofs s =
     (let s = upd_ram (\<lambda>mm. store_bytes mm mark [0, 0]) s;
          block = nat (int_shift ofs (bbt_erase_shift m));
          s = bbt_or (block div 4) (push_bit (2 * (block mod 4)) 0x01) s
      in do {
        (ret, s) \<leftarrow> (if chip_options s AND NAND_USE_FLASH_BBT \<noteq> 0 then nand_update_bbt e m ofs s
           else let s = nand_get_device FL_WRITING s;
                    ops = (chip_ops s)\<lparr>ops_len := 2, ops_ooblen := 2, ops_datbuf := None, ops_oobbuf := Some mark,
                             ops_ooboffs := word_of_nat (badblockpos m) AND NOT 0x01\<rparr>;
                    ((ret, ops), s) = nand_do_write_oob m (ofs + ucast (oobsize m)) ops s
                in Some (ret, nand_release_device m (s\<lparr>chip_ops := ops\<rparr>)));
        Some (ret, if ret = 0 then count_badblock s else s)
      })"

definition nand_block_isbad_base ::
  "('h, 'z) nand_chip_scheme \<Rightarrow> u64 \<Rightarrow> 'h nand_st \<Rightarrow> (int \<times> 'h nand_st) option" where
  "nand_block_isbad_base m offs s =
     (if mtd_size m < offs then Some (- EINVAL, s) else nand_block_checkbad m offs True False s)"

definition nand_block_markbad ::
  "'h mtd_info \<Rightarrow> u64 \<Rightarrow> 'h nand_st \<Rightarrow> (int \<times> 'h nand_st) option" where
  "nand_block_markbad m ofs s =
     do {
       (ret, s) \<leftarrow> nand_block_isbad_base m ofs s;
       (if ret \<noteq> 0 then Some (if 0 < ret then 0 else ret, s)
        else do {
          (_, s) \<leftarrow> block_markbad m ofs s;
          (ret, s) \<leftarrow> nand_block_isbad_base m ofs s;
          (if 0 < ret then Some (0, s)
           else let ofs = (if ofs AND ucast (erasesize m - 1) \<noteq> 0
                           then ofs AND ucast (NOT (erasesize m - 1)) else ofs)
             in do {
               (_, s) \<leftarrow> mtd_erase m \<lparr>erase_addr = ofs, erase_len = ucast (erasesize m), erase_fail_addr = 0,
                  erase_state = MTD_ERASE_PENDING, erase_scrub = False\<rparr> s;
               (_, s) \<leftarrow> block_markbad m ofs s;
               (ret, s) \<leftarrow> nand_block_isbad_base m ofs s;
               Some (if ret \<noteq> 0 then (if 0 < ret then 0 else ret) else - EINVAL, s)
             })
        })
     }"

end
