(* ===== verification/NandScan.thy ===== *)
theory NandScan
  imports NandBase NandEcc
begin

text \<open>
  \<open>nand_scan_tail\<close> of \<open>drivers/mtd/nand/nand_base.c\<close>: the default spare byte layouts, the choice of the page
  access functions for the ECC mode, and the wiring of the operations of the chip and of the device.

  The function pointers that the code fills in when they are missing are taken to be missing.  The pointer
  \<open>scan_bbt\<close>, set before by \<open>nand_set_defaults\<close>, is put in here, since it calls the device's operations.
\<close>

section \<open>Layouts\<close>

definition nand_oob_8 :: ecclayout where
  "nand_oob_8 = \<lparr>oobavail = 0, oobfree = [\<lparr>of_offset = 3, of_length = 2\<rparr>, \<lparr>of_offset = 6, of_length = 2\<rparr>],
     eccpos = [0, 1, 2]\<rparr>"

definition nand_oob_16 :: ecclayout where
  "nand_oob_16 = \<lparr>oobavail = 0, oobfree = [\<lparr>of_offset = 8, of_length = 8\<rparr>], eccpos = [0, 1, 2, 3, 6, 7]\<rparr>"

definition nand_oob_64 :: ecclayout where
  "nand_oob_64 = \<lparr>oobavail = 0, oobfree = [\<lparr>of_offset = 2, of_length = 38\<rparr>], eccpos = [40..<64]\<rparr>"

definition nand_oob_128 :: ecclayout where
  "nand_oob_128 = \<lparr>oobavail = 0, oobfree = [\<lparr>of_offset = 2, of_length = 78\<rparr>], eccpos = [80..<128]\<rparr>"

text \<open>\<open>None\<close> is \<open>-EFAULT\<close>, a spare size without a default layout.\<close>

definition default_layout :: "u32 \<Rightarrow> ecclayout option" where
  "default_layout n =
     (if n = 8 then Some nand_oob_8 else if n = 16 then Some nand_oob_16
      else if n = 64 then Some nand_oob_64 else if n = 128 then Some nand_oob_128 else None)"

text \<open>The bytes available to clients: the regions before the first of length 0, at most 8 of them.\<close>

definition free_regions :: "ecclayout \<Rightarrow> oobfree list" where
  "free_regions l = takeWhile (\<lambda>f. of_length f \<noteq> 0) (take 8 (oobfree l))"

definition count_oobavail :: "ecclayout \<Rightarrow> ecclayout" where
  "count_oobavail l = l\<lparr>oobavail := sum_list (map of_length (free_regions l))\<rparr>"

section \<open>Software error correction\<close>

definition soft_calculate :: "nat \<Rightarrow> nat \<Rightarrow> 'h nand_st \<Rightarrow> 'h nand_st" where
  "soft_calculate dat code s =
     (let (c0, c1, c2) = nand_calculate_ecc (load_bytes (ram s) dat 256)
      in upd_ram (\<lambda>mm. store_bytes mm code [c0, c1, c2]) s)"

definition load_code :: "memory \<Rightarrow> nat \<Rightarrow> ecc_code" where
  "load_code mm a = (mm a, mm (a + 1), mm (a + 2))"

definition soft_correct :: "nat \<Rightarrow> nat \<Rightarrow> nat option \<Rightarrow> 'h nand_st \<Rightarrow> int \<times> 'h nand_st" where
  "soft_correct dat read_ecc calc_ecc s =
     (let (stat, dat') = nand_correct_data (load_bytes (ram s) dat 256) (load_code (ram s) read_ecc)
                           (load_code (ram s) (the calc_ecc))
      in (stat, upd_ram (\<lambda>mm. store_bytes mm dat dat') s))"

section \<open>The page access functions of an ECC mode\<close>

text \<open>The fallthroughs of the switch: hardware modes whose step is larger than a page fall back to software.\<close>

definition effective_mode :: "('h, 'z) nand_hw_scheme \<Rightarrow> ecc_mode" where
  "effective_mode d =
     (if ecc_mode d \<in> {NAND_ECC_HW_OOB_FIRST, NAND_ECC_HW, NAND_ECC_HW_SYNDROME} \<and> unat (writesize d) < ecc_size d
      then NAND_ECC_SOFT else ecc_mode d)"

text \<open>The ECC parameters of the mode, the steps and the total; \<open>None\<close> is the \<open>BUG()\<close> on a size that does not divide.\<close>

definition scan_ecc_params :: "'h nand_hw \<Rightarrow> 'h nand_hw option" where
  "scan_ecc_params d0 =
     (let d = (case effective_mode d0 of
          NAND_ECC_SOFT \<Rightarrow> d0\<lparr>ecc_mode := NAND_ECC_SOFT, ecc_size := 256, ecc_bytes := 3,
                             ecc_calculate := soft_calculate, ecc_correct := soft_correct\<rparr>
        | NAND_ECC_NONE \<Rightarrow> d0\<lparr>ecc_size := unat (writesize d0), ecc_bytes := 0\<rparr>
        | _ \<Rightarrow> d0);
          steps = unat (writesize d) div ecc_size d
      in if steps * ecc_size d \<noteq> unat (writesize d) then None
         else Some (d\<lparr>ecc_steps := steps, ecc_total := steps * ecc_bytes d\<rparr>))"

definition scan_ecc :: "nat \<Rightarrow> 'h nand_hw \<Rightarrow> 'h nand_ecc" where
  "scan_ecc fill d = nand_hw.extend d
     (case ecc_mode d of
        NAND_ECC_NONE \<Rightarrow> nand_ecc.fields (nand_read_page_raw d) (nand_read_page_raw d) (\<lambda>_ _ _ s. (0, s))
          (nand_write_page_raw d) (nand_write_page_raw d) (nand_read_oob_std d) (nand_write_oob_std d)
      | NAND_ECC_SOFT \<Rightarrow> nand_ecc.fields (nand_read_page_raw d) (nand_read_page_swecc d (nand_read_page_raw d))
          (nand_read_subpage d)
          (nand_write_page_raw d) (nand_write_page_swecc d (nand_write_page_raw d)) (nand_read_oob_std d) (nand_write_oob_std d)
      | NAND_ECC_HW \<Rightarrow> nand_ecc.fields (nand_read_page_raw d) (nand_read_page_hwecc d) (\<lambda>_ _ _ s. (0, s))
          (nand_write_page_raw d) (nand_write_page_hwecc d) (nand_read_oob_std d) (nand_write_oob_std d)
      | NAND_ECC_HW_OOB_FIRST \<Rightarrow> nand_ecc.fields (nand_read_page_raw d) (nand_read_page_hwecc_oob_first d) (\<lambda>_ _ _ s. (0, s))
          (nand_write_page_raw d) (nand_write_page_hwecc d) (nand_read_oob_std d) (nand_write_oob_std d)
      | NAND_ECC_HW_SYNDROME \<Rightarrow> nand_ecc.fields (nand_read_page_raw_syndrome d) (nand_read_page_syndrome d) (\<lambda>_ _ _ s. (0, s))
          (nand_write_page_raw_syndrome d) (nand_write_page_syndrome d) (nand_read_oob_syndrome d) (nand_write_oob_syndrome d fill))"

section \<open>The operations\<close>

text \<open>\<open>NAND_4PAGE_ARRAY\<close> is \<open>0x40\<close>; the erase command is chosen by \<open>nand_get_flash_type\<close>.\<close>

definition scan_chip :: "bool \<Rightarrow> 'h nand_ecc \<Rightarrow> ('h nand_st \<Rightarrow> (int \<times> 'h nand_st) option) \<Rightarrow> 'h nand_chip" where
  "scan_chip four_page c scan = nand_ecc.extend c
     (nand_chip.fields (nand_write_page c) (if four_page then multi_erase_cmd c else single_erase_cmd c)
        (case block_bad_fn c of None \<Rightarrow> nand_block_bad c | Some f \<Rightarrow> f (nand_core.truncate c)) scan)"

definition scan_rw :: "'h nand_chip \<Rightarrow> 'h mtd_rw" where
  "scan_rw c = nand_chip.extend c
     (mtd_rw.fields (nand_read_base c) (nand_write_base c) (nand_read_oob c) (nand_write_oob c))"

text \<open>
  The device without the markbad function, which is defined in terms of the others; then the whole device.
\<close>

definition scan_ops :: "'h bbt_env \<Rightarrow> nat \<Rightarrow> 'h mtd_rw \<Rightarrow> 'h mtd_info" where
  "scan_ops e mark r = mtd_rw.extend r
     (mtd_info.fields (nand_default_block_markbad e r mark) (nand_erase (nand_update_bbt e r) r)
        (nand_block_isbad_base r) None)"

definition scan_markbad :: "'h mtd_info \<Rightarrow> 'h mtd_info" where
  "scan_markbad m = m\<lparr>mtd_block_markbad := Some (nand_block_markbad m)\<rparr>"

text \<open>
  What the scan gets from the allocator and the stack: the memory of the buffers, the results of the
  allocations of the bad block table code and the addresses of two local variables.
\<close>

record scan_mem =
  sm_buffers :: "nat option"
  sm_bbt :: bool
  sm_vbuf :: "nat option"
  sm_kbuf :: "nat option"
  sm_mark :: nat
  sm_fill :: nat

text \<open>
  The table scan runs only after \<open>NAND_BBT_SCANNED\<close> has been set, so the erase that it may do never asks for a scan
  itself: its chip has none.
\<close>

definition build_device :: "scan_mem \<Rightarrow> bool \<Rightarrow> 'h nand_hw \<Rightarrow> 'h mtd_info" where
  "build_device sm four_page d =
     (let c = scan_ecc (sm_fill sm) d;
          c0 = scan_chip four_page c (\<lambda>_. None); r0 = scan_rw c0;
          e = bbt_env_of c0 (sm_bbt sm) (sm_vbuf sm) (sm_kbuf sm);
          r = scan_rw (scan_chip four_page c (nand_default_bbt e r0))
      in scan_markbad (scan_ops e (sm_mark sm) r))"

text \<open>\<open>struct nand_buffers\<close>: the codes, then the page data followed by the spare bytes.\<close>

definition place_buffers :: "nat \<Rightarrow> 'h nand_hw \<Rightarrow> 'h nand_hw" where
  "place_buffers b d = d\<lparr>ecccalc := b, ecccode := b + 4800, databuf := b + 9600, oob_poi := b + 9600 + unat (writesize d)\<rparr>"

text \<open>Subpage writes: \<open>cell_mlc\<close> tells that \<open>cellinfo\<close> shows a multi level cell; \<open>NAND_NO_SUBPAGE_WRITE\<close> is \<open>0x200\<close>.\<close>

definition subpage_shift :: "u32 \<Rightarrow> bool \<Rightarrow> nat \<Rightarrow> nat" where
  "subpage_shift options cell_mlc steps =
     (if options AND 0x200 = 0 \<and> \<not> cell_mlc
      then (if steps = 2 then 1 else if steps \<in> {4, 8, 16} then 2 else 0) else 0)"

text \<open>
  \<open>Inl\<close> is the error returned, \<open>Inr\<close> the device and the state it starts in; \<open>None\<close> is \<open>BUG()\<close>.
  \<open>NAND_SKIP_BBTSCAN\<close> is \<open>0x20000\<close>.
\<close>

definition nand_scan_tail ::
  "scan_mem \<Rightarrow> ecclayout option \<Rightarrow> bool \<Rightarrow> 'h nand_hw \<Rightarrow> 'h nand_st \<Rightarrow> (int + 'h mtd_info \<times> 'h nand_st) option" where
  "nand_scan_tail sm layout cell_mlc d s =
     (case sm_buffers sm of
        None \<Rightarrow> Some (Inl (- ENOMEM))
      | Some b \<Rightarrow>
          (case (case layout of Some l \<Rightarrow> Some l | None \<Rightarrow> default_layout (oobsize d)) of
             None \<Rightarrow> Some (Inl (- EFAULT))
           | Some l \<Rightarrow>
               do {
                 d \<leftarrow> scan_ecc_params (place_buffers b d);
                 (let l = count_oobavail l;
                      d = d\<lparr>ecclayout := l, mtd_oobavail := oobavail l,
                            subpagesize := drop_bit (subpage_shift (chip_options s) cell_mlc (ecc_steps d)) (writesize d)\<rparr>;
                      s = select_chip d (- 1) (s\<lparr>chip_state := FL_READY\<rparr>);
                      s = s\<lparr>chip_pagebuf := - 1,
                            chip_options := (if chip_options s AND 0x20000 \<noteq> 0
                                             then chip_options s OR NAND_BBT_SCANNED else chip_options s)\<rparr>
                  in Some (Inr (build_device sm (chip_options s AND 0x40 \<noteq> 0) d, s)))
               }))"

section \<open>The fields of the layers\<close>

text \<open>Each layer keeps the fields of the one below it.\<close>

lemma scan_ecc_fields [simp]:
  "mtd_size (scan_ecc fill d) = mtd_size d"
  "erasesize (scan_ecc fill d) = erasesize d"
  "writesize (scan_ecc fill d) = writesize d"
  "oobsize (scan_ecc fill d) = oobsize d"
  "oobused (scan_ecc fill d) = oobused d"
  "mtd_oobavail (scan_ecc fill d) = mtd_oobavail d"
  "page_shift (scan_ecc fill d) = page_shift d"
  "phys_erase_shift (scan_ecc fill d) = phys_erase_shift d"
  "bbt_erase_shift (scan_ecc fill d) = bbt_erase_shift d"
  "chip_shift (scan_ecc fill d) = chip_shift d"
  "pagemask (scan_ecc fill d) = pagemask d"
  "numchips (scan_ecc fill d) = numchips d"
  "chipsize (scan_ecc fill d) = chipsize d"
  "badblockpos (scan_ecc fill d) = badblockpos d"
  "subpagesize (scan_ecc fill d) = subpagesize d"
  "databuf (scan_ecc fill d) = databuf d"
  "oob_poi (scan_ecc fill d) = oob_poi d"
  "ecclayout (scan_ecc fill d) = ecclayout d"
  "ecc_mode (scan_ecc fill d) = ecc_mode d"
  "select_chip (scan_ecc fill d) = select_chip d"
  "cmdfunc (scan_ecc fill d) = cmdfunc d"
  "waitfunc (scan_ecc fill d) = waitfunc d"
  "wait_ready (scan_ecc fill d) = wait_ready d"
  "read_byte (scan_ecc fill d) = read_byte d"
  "read_word (scan_ecc fill d) = read_word d"
  "read_buf (scan_ecc fill d) = read_buf d"
  "write_buf (scan_ecc fill d) = write_buf d"
  "errstat (scan_ecc fill d) = errstat d"
  "block_bad_fn (scan_ecc fill d) = block_bad_fn d"
  by (simp_all add: scan_ecc_def nand_hw.defs)

lemma scan_chip_fields [simp]:
  "mtd_size (scan_chip four c scan) = mtd_size c"
  "erasesize (scan_chip four c scan) = erasesize c"
  "writesize (scan_chip four c scan) = writesize c"
  "oobsize (scan_chip four c scan) = oobsize c"
  "oobused (scan_chip four c scan) = oobused c"
  "mtd_oobavail (scan_chip four c scan) = mtd_oobavail c"
  "page_shift (scan_chip four c scan) = page_shift c"
  "phys_erase_shift (scan_chip four c scan) = phys_erase_shift c"
  "bbt_erase_shift (scan_chip four c scan) = bbt_erase_shift c"
  "chip_shift (scan_chip four c scan) = chip_shift c"
  "pagemask (scan_chip four c scan) = pagemask c"
  "numchips (scan_chip four c scan) = numchips c"
  "chipsize (scan_chip four c scan) = chipsize c"
  "badblockpos (scan_chip four c scan) = badblockpos c"
  "subpagesize (scan_chip four c scan) = subpagesize c"
  "databuf (scan_chip four c scan) = databuf c"
  "oob_poi (scan_chip four c scan) = oob_poi c"
  "ecclayout (scan_chip four c scan) = ecclayout c"
  "ecc_mode (scan_chip four c scan) = ecc_mode c"
  "select_chip (scan_chip four c scan) = select_chip c"
  "cmdfunc (scan_chip four c scan) = cmdfunc c"
  "waitfunc (scan_chip four c scan) = waitfunc c"
  "wait_ready (scan_chip four c scan) = wait_ready c"
  "read_byte (scan_chip four c scan) = read_byte c"
  "read_word (scan_chip four c scan) = read_word c"
  "read_buf (scan_chip four c scan) = read_buf c"
  "write_buf (scan_chip four c scan) = write_buf c"
  "errstat (scan_chip four c scan) = errstat c"
  "ecc_read_page_raw (scan_chip four c scan) = ecc_read_page_raw c"
  "ecc_read_page (scan_chip four c scan) = ecc_read_page c"
  "ecc_read_subpage (scan_chip four c scan) = ecc_read_subpage c"
  "ecc_write_page_raw (scan_chip four c scan) = ecc_write_page_raw c"
  "ecc_write_page (scan_chip four c scan) = ecc_write_page c"
  "ecc_read_oob (scan_chip four c scan) = ecc_read_oob c"
  "ecc_write_oob (scan_chip four c scan) = ecc_write_oob c"
  by (simp_all add: scan_chip_def nand_ecc.defs)

lemma scan_rw_fields [simp]:
  "mtd_size (scan_rw c) = mtd_size c"
  "erasesize (scan_rw c) = erasesize c"
  "writesize (scan_rw c) = writesize c"
  "oobsize (scan_rw c) = oobsize c"
  "oobused (scan_rw c) = oobused c"
  "mtd_oobavail (scan_rw c) = mtd_oobavail c"
  "page_shift (scan_rw c) = page_shift c"
  "phys_erase_shift (scan_rw c) = phys_erase_shift c"
  "bbt_erase_shift (scan_rw c) = bbt_erase_shift c"
  "chip_shift (scan_rw c) = chip_shift c"
  "pagemask (scan_rw c) = pagemask c"
  "numchips (scan_rw c) = numchips c"
  "chipsize (scan_rw c) = chipsize c"
  "badblockpos (scan_rw c) = badblockpos c"
  "subpagesize (scan_rw c) = subpagesize c"
  "databuf (scan_rw c) = databuf c"
  "oob_poi (scan_rw c) = oob_poi c"
  "ecclayout (scan_rw c) = ecclayout c"
  "ecc_mode (scan_rw c) = ecc_mode c"
  "select_chip (scan_rw c) = select_chip c"
  "cmdfunc (scan_rw c) = cmdfunc c"
  "waitfunc (scan_rw c) = waitfunc c"
  "wait_ready (scan_rw c) = wait_ready c"
  "read_byte (scan_rw c) = read_byte c"
  "read_word (scan_rw c) = read_word c"
  "read_buf (scan_rw c) = read_buf c"
  "write_buf (scan_rw c) = write_buf c"
  "errstat (scan_rw c) = errstat c"
  "ecc_read_page_raw (scan_rw c) = ecc_read_page_raw c"
  "ecc_read_page (scan_rw c) = ecc_read_page c"
  "ecc_read_subpage (scan_rw c) = ecc_read_subpage c"
  "ecc_write_page_raw (scan_rw c) = ecc_write_page_raw c"
  "ecc_write_page (scan_rw c) = ecc_write_page c"
  "ecc_read_oob (scan_rw c) = ecc_read_oob c"
  "ecc_write_oob (scan_rw c) = ecc_write_oob c"
  "write_page (scan_rw c) = write_page c"
  "erase_cmd (scan_rw c) = erase_cmd c"
  "block_bad (scan_rw c) = block_bad c"
  "scan_bbt (scan_rw c) = scan_bbt c"
  by (simp_all add: scan_rw_def nand_chip.defs)

lemma scan_ops_fields [simp]:
  "mtd_size (scan_ops e mark r) = mtd_size r"
  "erasesize (scan_ops e mark r) = erasesize r"
  "writesize (scan_ops e mark r) = writesize r"
  "oobsize (scan_ops e mark r) = oobsize r"
  "oobused (scan_ops e mark r) = oobused r"
  "mtd_oobavail (scan_ops e mark r) = mtd_oobavail r"
  "page_shift (scan_ops e mark r) = page_shift r"
  "phys_erase_shift (scan_ops e mark r) = phys_erase_shift r"
  "bbt_erase_shift (scan_ops e mark r) = bbt_erase_shift r"
  "chip_shift (scan_ops e mark r) = chip_shift r"
  "pagemask (scan_ops e mark r) = pagemask r"
  "numchips (scan_ops e mark r) = numchips r"
  "chipsize (scan_ops e mark r) = chipsize r"
  "badblockpos (scan_ops e mark r) = badblockpos r"
  "subpagesize (scan_ops e mark r) = subpagesize r"
  "databuf (scan_ops e mark r) = databuf r"
  "oob_poi (scan_ops e mark r) = oob_poi r"
  "ecclayout (scan_ops e mark r) = ecclayout r"
  "ecc_mode (scan_ops e mark r) = ecc_mode r"
  "select_chip (scan_ops e mark r) = select_chip r"
  "cmdfunc (scan_ops e mark r) = cmdfunc r"
  "waitfunc (scan_ops e mark r) = waitfunc r"
  "wait_ready (scan_ops e mark r) = wait_ready r"
  "read_byte (scan_ops e mark r) = read_byte r"
  "read_word (scan_ops e mark r) = read_word r"
  "read_buf (scan_ops e mark r) = read_buf r"
  "write_buf (scan_ops e mark r) = write_buf r"
  "errstat (scan_ops e mark r) = errstat r"
  "ecc_read_page_raw (scan_ops e mark r) = ecc_read_page_raw r"
  "ecc_read_page (scan_ops e mark r) = ecc_read_page r"
  "ecc_read_subpage (scan_ops e mark r) = ecc_read_subpage r"
  "ecc_write_page_raw (scan_ops e mark r) = ecc_write_page_raw r"
  "ecc_write_page (scan_ops e mark r) = ecc_write_page r"
  "ecc_read_oob (scan_ops e mark r) = ecc_read_oob r"
  "ecc_write_oob (scan_ops e mark r) = ecc_write_oob r"
  "write_page (scan_ops e mark r) = write_page r"
  "erase_cmd (scan_ops e mark r) = erase_cmd r"
  "block_bad (scan_ops e mark r) = block_bad r"
  "scan_bbt (scan_ops e mark r) = scan_bbt r"
  "mtd_read (scan_ops e mark r) = mtd_read r"
  "mtd_write (scan_ops e mark r) = mtd_write r"
  "mtd_read_oob (scan_ops e mark r) = mtd_read_oob r"
  "mtd_write_oob (scan_ops e mark r) = mtd_write_oob r"
  by (simp_all add: scan_ops_def mtd_rw.defs)

lemma scan_markbad_fields [simp]:
  "mtd_size (scan_markbad m) = mtd_size m"
  "erasesize (scan_markbad m) = erasesize m"
  "writesize (scan_markbad m) = writesize m"
  "oobsize (scan_markbad m) = oobsize m"
  "oobused (scan_markbad m) = oobused m"
  "mtd_oobavail (scan_markbad m) = mtd_oobavail m"
  "page_shift (scan_markbad m) = page_shift m"
  "phys_erase_shift (scan_markbad m) = phys_erase_shift m"
  "bbt_erase_shift (scan_markbad m) = bbt_erase_shift m"
  "chip_shift (scan_markbad m) = chip_shift m"
  "pagemask (scan_markbad m) = pagemask m"
  "numchips (scan_markbad m) = numchips m"
  "chipsize (scan_markbad m) = chipsize m"
  "badblockpos (scan_markbad m) = badblockpos m"
  "subpagesize (scan_markbad m) = subpagesize m"
  "databuf (scan_markbad m) = databuf m"
  "oob_poi (scan_markbad m) = oob_poi m"
  "ecclayout (scan_markbad m) = ecclayout m"
  "ecc_mode (scan_markbad m) = ecc_mode m"
  "select_chip (scan_markbad m) = select_chip m"
  "cmdfunc (scan_markbad m) = cmdfunc m"
  "waitfunc (scan_markbad m) = waitfunc m"
  "wait_ready (scan_markbad m) = wait_ready m"
  "read_byte (scan_markbad m) = read_byte m"
  "read_word (scan_markbad m) = read_word m"
  "read_buf (scan_markbad m) = read_buf m"
  "write_buf (scan_markbad m) = write_buf m"
  "errstat (scan_markbad m) = errstat m"
  "ecc_read_page_raw (scan_markbad m) = ecc_read_page_raw m"
  "ecc_read_page (scan_markbad m) = ecc_read_page m"
  "ecc_read_subpage (scan_markbad m) = ecc_read_subpage m"
  "ecc_write_page_raw (scan_markbad m) = ecc_write_page_raw m"
  "ecc_write_page (scan_markbad m) = ecc_write_page m"
  "ecc_read_oob (scan_markbad m) = ecc_read_oob m"
  "ecc_write_oob (scan_markbad m) = ecc_write_oob m"
  "write_page (scan_markbad m) = write_page m"
  "erase_cmd (scan_markbad m) = erase_cmd m"
  "block_bad (scan_markbad m) = block_bad m"
  "scan_bbt (scan_markbad m) = scan_bbt m"
  "mtd_read (scan_markbad m) = mtd_read m"
  "mtd_write (scan_markbad m) = mtd_write m"
  "mtd_read_oob (scan_markbad m) = mtd_read_oob m"
  "mtd_write_oob (scan_markbad m) = mtd_write_oob m"
  "block_markbad (scan_markbad m) = block_markbad m"
  "mtd_erase (scan_markbad m) = mtd_erase m"
  "mtd_block_isbad (scan_markbad m) = mtd_block_isbad m"
  by (simp_all add: scan_markbad_def)

text \<open>What each layer adds.\<close>

lemma scan_ecc_none [simp]:
  assumes "ecc_mode d = NAND_ECC_NONE"
  shows "ecc_read_page_raw (scan_ecc fill d) = nand_read_page_raw d"
    "ecc_read_page (scan_ecc fill d) = nand_read_page_raw d"
    "ecc_write_page_raw (scan_ecc fill d) = nand_write_page_raw d"
    "ecc_write_page (scan_ecc fill d) = nand_write_page_raw d"
    "ecc_read_oob (scan_ecc fill d) = nand_read_oob_std d"
    "ecc_write_oob (scan_ecc fill d) = nand_write_oob_std d"
  by (simp_all add: assms scan_ecc_def nand_hw.defs nand_ecc.defs)

lemma scan_chip_new [simp]:
  "write_page (scan_chip four c scan) = nand_write_page c"
  "erase_cmd (scan_chip four c scan) = (if four then multi_erase_cmd c else single_erase_cmd c)"
  "block_bad_fn c = None \<Longrightarrow> block_bad (scan_chip four c scan) = nand_block_bad c"
  "block_bad_fn c = Some f \<Longrightarrow> block_bad (scan_chip four c scan) = f (nand_core.truncate c)"
  "scan_bbt (scan_chip four c scan) = scan"
  by (simp_all add: scan_chip_def nand_ecc.defs nand_chip.defs)

lemma scan_rw_new [simp]:
  "mtd_read (scan_rw c) = nand_read_base c"
  "mtd_write (scan_rw c) = nand_write_base c"
  "mtd_read_oob (scan_rw c) = nand_read_oob c"
  "mtd_write_oob (scan_rw c) = nand_write_oob c"
  by (simp_all add: scan_rw_def nand_chip.defs mtd_rw.defs)

lemma scan_ops_new [simp]:
  "block_markbad (scan_ops e mark r) = nand_default_block_markbad e r mark"
  "mtd_erase (scan_ops e mark r) = nand_erase (nand_update_bbt e r) r"
  "mtd_block_isbad (scan_ops e mark r) = nand_block_isbad_base r"
  by (simp_all add: scan_ops_def mtd_rw.defs mtd_info.defs)

lemma scan_markbad_new [simp]: "mtd_block_markbad (scan_markbad m) = Some (nand_block_markbad m)"
  by (simp add: scan_markbad_def)

section \<open>The geometry of a chip\<close>

text \<open>
  \<open>ffs\<close> of \<open>include/linux/bitops.h\<close>, by halving: when the low \<open>k\<close> bits are clear, the argument (an \<open>int\<close>) is shifted by \<open>k\<close>.
\<close>

definition ffs_step :: "nat \<Rightarrow> u32 \<times> int \<Rightarrow> u32 \<times> int" where
  "ffs_step k = (\<lambda>(x, r). if x AND mask k = 0 then (signed_drop_bit k x, r + int k) else (x, r))"

definition generic_ffs :: "u32 \<Rightarrow> int" where
  "generic_ffs x = (if x = 0 then 0 else snd (fold ffs_step [16, 8, 4, 2, 1] (x, 1)))"

text \<open>What \<open>nand_get_flash_type\<close> derives from the sizes that it found, on the chip's part of the record.\<close>

definition scan_geometry :: "'h nand_hw \<Rightarrow> 'h nand_hw" where
  "scan_geometry d =
     (let ps = nat (generic_ffs (writesize d) - 1);
          es = nat (generic_ffs (erasesize d) - 1);
          cs = (if chipsize d AND 0xffffffff \<noteq> 0 then nat (generic_ffs (ucast (chipsize d)) - 1)
                else nat (generic_ffs (ucast (drop_bit 32 (chipsize d))) + 31))
      in d\<lparr>page_shift := ps, pagemask := sint (ucast (drop_bit ps (chipsize d) - 1) :: u32),
           phys_erase_shift := es, bbt_erase_shift := es, chip_shift := cs,
           badblockpos := (if 512 < writesize d then 0 else 5)\<rparr>)"

text \<open>The sizes coded in the fourth byte of the id of newer chips: page, spare and block size and bus width.\<close>

definition decode_extid :: "u8 \<Rightarrow> u32 \<times> u32 \<times> u32 \<times> bool" where
  "decode_extid extid =
     (let ws = push_bit (unat (extid AND 3)) 1024;
          oob = push_bit (unat (drop_bit 2 extid AND 1)) 8 * drop_bit 9 ws;
          es = push_bit (unat (drop_bit 4 extid AND 3)) (64 * 1024)
      in (ws, oob, es, drop_bit 6 extid AND 1 \<noteq> 0))"

end
