(* ===== verification/HinfcGen.thy ===== *)
theory HinfcGen
  imports Prelude
begin

text \<open>
  The small tables of the HiSilicon controller code: the generic searches of \<open>lib/match_table.c\<close>, the
  page and ECC types of \<open>drivers/mtd/nand/hinfc_gen.c\<close>, and the check of a yaffs image in
  \<open>drivers/mtd/nand/hinfc_yaffs.c\<close>, as it is compiled for the NFC 610 controller
  (\<open>CONFIG_NAND_FLASH_HINFC610\<close>).
\<close>

section \<open>Tables\<close>

record match_reg_type =
  mr_reg :: int
  mr_type :: int

record match_type_str =
  mt_type :: int
  mt_str :: string

fun reg2type :: "match_reg_type list \<Rightarrow> int \<Rightarrow> int \<Rightarrow> int" where
  "reg2type [] r def' = def'"
| "reg2type (e # t) r def' = (if mr_reg e = r then mr_type e else reg2type t r def')"

fun type2reg :: "match_reg_type list \<Rightarrow> int \<Rightarrow> int \<Rightarrow> int" where
  "type2reg [] ty def' = def'"
| "type2reg (e # t) ty def' = (if mr_type e = ty then mr_reg e else type2reg t ty def')"

text \<open>\<open>strncmp(a, b, n) == 0\<close> on strings without their terminating zero.\<close>

fun strneq :: "string \<Rightarrow> string \<Rightarrow> nat \<Rightarrow> bool" where
  "strneq a b 0 = True"
| "strneq [] [] (Suc n) = True"
| "strneq (x # a) (y # b) (Suc n) = (x = y \<and> strneq a b n)"
| "strneq a b n = False"

fun str2type :: "match_type_str list \<Rightarrow> string \<Rightarrow> nat \<Rightarrow> int \<Rightarrow> int" where
  "str2type [] str n def' = def'"
| "str2type (e # t) str n def' = (if strneq (mt_str e) str n then mt_type e else str2type t str n def')"

fun type2str :: "match_type_str list \<Rightarrow> int \<Rightarrow> string \<Rightarrow> string" where
  "type2str [] ty def' = def'"
| "type2str (e # t) ty def' = (if mt_type e = ty then mt_str e else type2str t ty def')"

section \<open>Page and ECC types\<close>

definition ecc2name :: "match_type_str list" where
  "ecc2name = map (\<lambda>(t, s). \<lparr>mt_type = t, mt_str = s\<rparr>)
     [(0, ''none''), (1, ''1bit/512''), (3, ''4bit/512''), (3, ''4bit/512''), (5, ''8bit/512''), (9, ''24bit/1k''),
      (13, ''40bit/1k''), (4, ''4byte/1k''), (6, ''8byte/1k''), (7, ''13bit/1k''), (5, ''16bit/1k''), (8, ''18bit/1k''),
      (10, ''27bit/1k''), (12, ''32bit/1k''), (14, ''41bit/1k''), (15, ''42bit/1k''), (16, ''48bit/1k''),
      (17, ''60bit/1k''), (19, ''72bit/1k''), (20, ''80bit/1k'')]"

definition nand_ecc_name :: "int \<Rightarrow> string" where
  "nand_ecc_name ty = type2str ecc2name ty ''unknown''"

definition page2name :: "match_type_str list" where
  "page2name = map (\<lambda>(t, s). \<lparr>mt_type = t, mt_str = s\<rparr>)
     [(0, ''512''), (2, ''2K''), (3, ''4K''), (4, ''8K''), (5, ''16K''), (6, ''32K'')]"

definition nand_page_name :: "int \<Rightarrow> string" where
  "nand_page_name ty = type2str page2name ty ''unknown''"

definition page2size :: "match_reg_type list" where
  "page2size = map (\<lambda>(r, t). \<lparr>mr_reg = r, mr_type = t\<rparr>)
     [(512, 0), (2048, 2), (4096, 3), (8192, 4), (16384, 5), (32768, 6)]"

definition nandpage_size2type :: "int \<Rightarrow> int" where
  "nandpage_size2type sz = reg2type page2size sz 2"

definition nandpage_type2size :: "nat \<Rightarrow> int" where
  "nandpage_type2size ty = 2 ^ (9 + ty)"

section \<open>Yaffs images\<close>

abbreviation (input) HINFC_VER_610 :: int where "HINFC_VER_610 \<equiv> 0x610"
abbreviation (input) HISFC_VER_400 :: int where "HISFC_VER_400 \<equiv> 0x400"
abbreviation (input) NAND_ECC_13BIT :: int where "NAND_ECC_13BIT \<equiv> 7"
abbreviation (input) NAND_ECC_32BIT :: int where "NAND_ECC_32BIT \<equiv> 12"

text \<open>What \<open>get_nand_info()\<close> tells of the board.\<close>

record host_info =
  hi_hostver :: int
  hi_pagesize :: int
  hi_ecctype :: int

text \<open>\<open>struct yaffs2_tag\<close>: the magic at 0, the controller version at 8, the page size at 16.\<close>

definition YAFFS2_SIGN_MAGIC :: "u8 list" where
  "YAFFS2_SIGN_MAGIC = map of_char ''YFSS!V10''"

definition yaffs_check :: "host_info \<Rightarrow> memory \<Rightarrow> nat \<Rightarrow> u32 \<Rightarrow> u32 \<Rightarrow> int" where
  "yaffs_check h mm buffer writesize n =
     (if n < 512 then - 1
      else if load_bytes mm buffer 8 \<noteq> YAFFS2_SIGN_MAGIC then - 1
      else if writesize \<noteq> load_u32 mm (buffer + 16) then - 1
      else if hi_hostver h = HINFC_VER_610 then
        if hi_pagesize h = 2048 \<and> hi_ecctype h = NAND_ECC_13BIT
           \<or> hi_pagesize h = 2048 \<and> hi_ecctype h = NAND_ECC_32BIT
           \<or> hi_pagesize h = 4096 \<and> hi_ecctype h = NAND_ECC_13BIT then - 1
        else if uint (load_u32 mm (buffer + 8)) \<noteq> HINFC_VER_610 \<and> uint (load_u32 mm (buffer + 8)) \<noteq> HISFC_VER_400 then - 1
        else 0
      else - 1)"

lemma type2size_size2type:
  "ty \<in> {0, 2, 3, 4, 5, 6} \<Longrightarrow> nandpage_size2type (nandpage_type2size ty) = int ty"
  by (auto simp: nandpage_size2type_def nandpage_type2size_def page2size_def)

end
