(* ===== verification/HinfcTab.thy ===== *)
theory HinfcTab
  imports Mtd HinfcGen
begin

text \<open>
  The tables of the NFC 610 and 620 controllers and the choice of an ECC strength from them:
  \<open>drivers/mtd/nand/hinfc610_gen.c\<close>, \<open>hinfc620_gen.c\<close>, \<open>hinfc610_ecc_info.c\<close> and the functions of
  \<open>hinfc610.c\<close> that look into them, as compiled with \<open>CONFIG_SUPPORT_YAFFS\<close> (defined in \<open>hinfc610.h\<close>).

  A call of \<open>PR_BUG\<close> prints a message and never returns; a function that can get there gives \<open>None\<close>.
\<close>

section \<open>Page and ECC types\<close>

abbreviation (input) NAND_PAGE_2K :: nat where "NAND_PAGE_2K \<equiv> 2"
abbreviation (input) NAND_PAGE_4K :: nat where "NAND_PAGE_4K \<equiv> 3"
abbreviation (input) NAND_PAGE_8K :: nat where "NAND_PAGE_8K \<equiv> 4"
abbreviation (input) NAND_PAGE_16K :: nat where "NAND_PAGE_16K \<equiv> 5"
abbreviation (input) NAND_PAGE_32K :: nat where "NAND_PAGE_32K \<equiv> 6"

abbreviation (input) NAND_ECC_TYPE_NONE :: int where "NAND_ECC_TYPE_NONE \<equiv> 0"
abbreviation (input) NAND_ECC_8BIT :: int where "NAND_ECC_8BIT \<equiv> 3"
abbreviation (input) NAND_ECC_16BIT :: int where "NAND_ECC_16BIT \<equiv> 5"
abbreviation (input) NAND_ECC_18BIT :: int where "NAND_ECC_18BIT \<equiv> 8"
abbreviation (input) NAND_ECC_24BIT :: int where "NAND_ECC_24BIT \<equiv> 9"
abbreviation (input) NAND_ECC_27BIT :: int where "NAND_ECC_27BIT \<equiv> 10"
abbreviation (input) NAND_ECC_28BIT :: int where "NAND_ECC_28BIT \<equiv> 11"
abbreviation (input) NAND_ECC_40BIT :: int where "NAND_ECC_40BIT \<equiv> 13"
abbreviation (input) NAND_ECC_41BIT :: int where "NAND_ECC_41BIT \<equiv> 14"
abbreviation (input) NAND_ECC_42BIT :: int where "NAND_ECC_42BIT \<equiv> 15"
abbreviation (input) NAND_ECC_48BIT :: int where "NAND_ECC_48BIT \<equiv> 16"
abbreviation (input) NAND_ECC_60BIT :: int where "NAND_ECC_60BIT \<equiv> 17"
abbreviation (input) NAND_ECC_64BIT :: int where "NAND_ECC_64BIT \<equiv> 18"
abbreviation (input) NAND_ECC_72BIT :: int where "NAND_ECC_72BIT \<equiv> 19"
abbreviation (input) NAND_ECC_80BIT :: int where "NAND_ECC_80BIT \<equiv> 20"

text \<open>\<open>hinfc610_gen.c\<close>\<close>

definition page_type2reg610 :: "match_reg_type list" where
  "page_type2reg610 = map (\<lambda>(r, t). \<lparr>mr_reg = r, mr_type = t\<rparr>) [(1, 2), (2, 3), (3, 4), (4, 5), (5, 6)]"

definition hinfc610_page_type2reg :: "int \<Rightarrow> int" where
  "hinfc610_page_type2reg ty = type2reg page_type2reg610 ty 0"

definition hinfc610_page_reg2type :: "int \<Rightarrow> int" where
  "hinfc610_page_reg2type r = reg2type page_type2reg610 r 0"

definition ecc_type2reg610 :: "match_reg_type list" where
  "ecc_type2reg610 = map (\<lambda>(r, t). \<lparr>mr_reg = r, mr_type = t\<rparr>)
     [(0, NAND_ECC_TYPE_NONE), (1, NAND_ECC_8BIT), (2, NAND_ECC_13BIT), (3, NAND_ECC_18BIT), (4, NAND_ECC_24BIT),
      (5, NAND_ECC_27BIT), (6, NAND_ECC_32BIT), (7, NAND_ECC_41BIT), (8, NAND_ECC_48BIT), (9, NAND_ECC_60BIT),
      (10, NAND_ECC_72BIT), (11, NAND_ECC_80BIT)]"

definition hinfc610_ecc_type2reg :: "int \<Rightarrow> int" where
  "hinfc610_ecc_type2reg ty = type2reg ecc_type2reg610 ty 0"

definition hinfc610_ecc_reg2type :: "int \<Rightarrow> int" where
  "hinfc610_ecc_reg2type r = reg2type ecc_type2reg610 r 0"

text \<open>\<open>hinfc620_gen.c\<close>; its table of pages is the same.\<close>

definition hinfc620_page_type2reg :: "int \<Rightarrow> int" where
  "hinfc620_page_type2reg ty = type2reg page_type2reg610 ty 0"

definition hinfc620_page_reg2type :: "int \<Rightarrow> int" where
  "hinfc620_page_reg2type r = reg2type page_type2reg610 r 0"

definition ecc_type2reg620 :: "match_reg_type list" where
  "ecc_type2reg620 = map (\<lambda>(r, t). \<lparr>mr_reg = r, mr_type = t\<rparr>)
     [(0, NAND_ECC_TYPE_NONE), (2, NAND_ECC_8BIT), (3, NAND_ECC_16BIT), (4, NAND_ECC_24BIT), (5, NAND_ECC_40BIT),
      (6, NAND_ECC_64BIT), (7, NAND_ECC_28BIT), (8, NAND_ECC_42BIT)]"

definition hinfc620_ecc_type2reg :: "int \<Rightarrow> int" where
  "hinfc620_ecc_type2reg ty = type2reg ecc_type2reg620 ty 0"

definition hinfc620_ecc_reg2type :: "int \<Rightarrow> int" where
  "hinfc620_ecc_reg2type r = reg2type ecc_type2reg620 r 0"

text \<open>The interface that looks at the version of the controller.\<close>

abbreviation (input) HINFC_VER_620 :: int where "HINFC_VER_620 \<equiv> 0x620"

definition hinfc610_ecc_type2reg_intf :: "int \<Rightarrow> int \<Rightarrow> int" where
  "hinfc610_ecc_type2reg_intf version ty =
     (if version = HINFC_VER_620 then hinfc620_ecc_type2reg ty else hinfc610_ecc_type2reg ty)"

definition hinfc610_ecc_reg2type_intf :: "int \<Rightarrow> int \<Rightarrow> int" where
  "hinfc610_ecc_reg2type_intf version r =
     (if version = HINFC_VER_620 then hinfc620_ecc_reg2type r else hinfc610_ecc_reg2type r)"

section \<open>Configurations\<close>

text \<open>A configuration: page type, ECC type, the spare bytes it needs and the first free region (offset, length).\<close>

record nand_config_table =
  pagetype :: nat
  cfg_ecctype :: int
  cfg_oobsize :: u32
  cfg_layout :: oobfree

definition nand_ecc_default :: oobfree where
  "nand_ecc_default = \<lparr>of_offset = 2, of_length = 30\<rparr>"

definition nand_ecc_2k_13bit :: oobfree where
  "nand_ecc_2k_13bit = \<lparr>of_offset = 2, of_length = 14\<rparr>"

abbreviation (input) config_row :: "nat \<Rightarrow> int \<Rightarrow> u32 \<Rightarrow> oobfree \<Rightarrow> nand_config_table" where
  "config_row p e n l \<equiv> \<lparr>pagetype = p, cfg_ecctype = e, cfg_oobsize = n, cfg_layout = l\<rparr>"

definition hinfc610_hw_pin_config_table :: "nand_config_table list" where
  "hinfc610_hw_pin_config_table =
     [config_row NAND_PAGE_32K NAND_ECC_60BIT 3520 nand_ecc_default,
      config_row NAND_PAGE_32K NAND_ECC_41BIT 2368 nand_ecc_default,
      config_row NAND_PAGE_32K NAND_ECC_TYPE_NONE 32 nand_ecc_default,
      config_row NAND_PAGE_16K NAND_ECC_80BIT 1376 nand_ecc_default,
      config_row NAND_PAGE_16K NAND_ECC_72BIT 1376 nand_ecc_default,
      config_row NAND_PAGE_16K NAND_ECC_41BIT 1184 nand_ecc_default,
      config_row NAND_PAGE_16K NAND_ECC_TYPE_NONE 32 nand_ecc_default,
      config_row NAND_PAGE_8K NAND_ECC_80BIT 1152 nand_ecc_default,
      config_row NAND_PAGE_8K NAND_ECC_72BIT 1040 nand_ecc_default,
      config_row NAND_PAGE_8K NAND_ECC_60BIT 896 nand_ecc_default,
      config_row NAND_PAGE_8K NAND_ECC_41BIT 608 nand_ecc_default,
      config_row NAND_PAGE_8K NAND_ECC_24BIT 368 nand_ecc_default,
      config_row NAND_PAGE_8K NAND_ECC_TYPE_NONE 32 nand_ecc_default,
      config_row NAND_PAGE_4K NAND_ECC_27BIT 224 nand_ecc_default,
      config_row NAND_PAGE_4K NAND_ECC_24BIT 200 nand_ecc_default,
      config_row NAND_PAGE_4K NAND_ECC_18BIT 160 nand_ecc_default,
      config_row NAND_PAGE_4K NAND_ECC_13BIT 112 nand_ecc_2k_13bit,
      config_row NAND_PAGE_4K NAND_ECC_8BIT 88 nand_ecc_default,
      config_row NAND_PAGE_4K NAND_ECC_TYPE_NONE 32 nand_ecc_default,
      config_row NAND_PAGE_2K NAND_ECC_27BIT 128 nand_ecc_default,
      config_row NAND_PAGE_2K NAND_ECC_24BIT 116 nand_ecc_default,
      config_row NAND_PAGE_2K NAND_ECC_18BIT 96 nand_ecc_default,
      config_row NAND_PAGE_2K NAND_ECC_13BIT 64 nand_ecc_2k_13bit,
      config_row NAND_PAGE_2K NAND_ECC_8BIT 60 nand_ecc_default,
      config_row NAND_PAGE_2K NAND_ECC_TYPE_NONE 32 nand_ecc_default]"

definition hinfc610_hw_auto_config_table :: "nand_config_table list" where
  "hinfc610_hw_auto_config_table =
     [config_row NAND_PAGE_32K NAND_ECC_80BIT 4544 nand_ecc_default,
      config_row NAND_PAGE_32K NAND_ECC_60BIT 3520 nand_ecc_default,
      config_row NAND_PAGE_32K NAND_ECC_41BIT 2368 nand_ecc_default,
      config_row NAND_PAGE_32K NAND_ECC_TYPE_NONE 32 nand_ecc_default,
      config_row NAND_PAGE_16K NAND_ECC_80BIT 1376 nand_ecc_default,
      config_row NAND_PAGE_16K NAND_ECC_60BIT 1760 nand_ecc_default,
      config_row NAND_PAGE_16K NAND_ECC_41BIT 1184 nand_ecc_default,
      config_row NAND_PAGE_16K NAND_ECC_TYPE_NONE 32 nand_ecc_default,
      config_row NAND_PAGE_8K NAND_ECC_80BIT 1152 nand_ecc_default,
      config_row NAND_PAGE_8K NAND_ECC_60BIT 896 nand_ecc_default,
      config_row NAND_PAGE_8K NAND_ECC_41BIT 608 nand_ecc_default,
      config_row NAND_PAGE_8K NAND_ECC_24BIT 368 nand_ecc_default,
      config_row NAND_PAGE_8K NAND_ECC_TYPE_NONE 32 nand_ecc_default,
      config_row NAND_PAGE_4K NAND_ECC_24BIT 200 nand_ecc_default,
      config_row NAND_PAGE_4K NAND_ECC_8BIT 88 nand_ecc_default,
      config_row NAND_PAGE_4K NAND_ECC_TYPE_NONE 32 nand_ecc_default,
      config_row NAND_PAGE_2K NAND_ECC_24BIT 116 nand_ecc_default,
      config_row NAND_PAGE_2K NAND_ECC_8BIT 60 nand_ecc_default,
      config_row NAND_PAGE_2K NAND_ECC_TYPE_NONE 32 nand_ecc_default]"

definition hinfc620_hw_auto_config_table :: "nand_config_table list" where
  "hinfc620_hw_auto_config_table =
     [config_row NAND_PAGE_16K NAND_ECC_64BIT 1824 nand_ecc_default,
      config_row NAND_PAGE_16K NAND_ECC_40BIT 1152 nand_ecc_default,
      config_row NAND_PAGE_16K NAND_ECC_TYPE_NONE 32 nand_ecc_default,
      config_row NAND_PAGE_8K NAND_ECC_64BIT 928 nand_ecc_default,
      config_row NAND_PAGE_8K NAND_ECC_40BIT 592 nand_ecc_default,
      config_row NAND_PAGE_8K NAND_ECC_24BIT 368 nand_ecc_default,
      config_row NAND_PAGE_8K NAND_ECC_TYPE_NONE 32 nand_ecc_default,
      config_row NAND_PAGE_4K NAND_ECC_24BIT 200 nand_ecc_default,
      config_row NAND_PAGE_4K NAND_ECC_8BIT 88 nand_ecc_default,
      config_row NAND_PAGE_4K NAND_ECC_TYPE_NONE 32 nand_ecc_default,
      config_row NAND_PAGE_2K NAND_ECC_24BIT 116 nand_ecc_default,
      config_row NAND_PAGE_2K NAND_ECC_8BIT 60 nand_ecc_default,
      config_row NAND_PAGE_2K NAND_ECC_TYPE_NONE 32 nand_ecc_default]"

definition hinfc610_soft_auto_config_table :: "nand_config_table list" where
  "hinfc610_soft_auto_config_table =
     [config_row NAND_PAGE_32K NAND_ECC_80BIT 4544 nand_ecc_default,
      config_row NAND_PAGE_32K NAND_ECC_72BIT 4096 nand_ecc_default,
      config_row NAND_PAGE_32K NAND_ECC_60BIT 3520 nand_ecc_default,
      config_row NAND_PAGE_32K NAND_ECC_48BIT 2752 nand_ecc_default,
      config_row NAND_PAGE_32K NAND_ECC_41BIT 2368 nand_ecc_default,
      config_row NAND_PAGE_32K NAND_ECC_TYPE_NONE 32 nand_ecc_default,
      config_row NAND_PAGE_16K NAND_ECC_80BIT 1376 nand_ecc_default,
      config_row NAND_PAGE_16K NAND_ECC_72BIT 1376 nand_ecc_default,
      config_row NAND_PAGE_16K NAND_ECC_60BIT 1760 nand_ecc_default,
      config_row NAND_PAGE_16K NAND_ECC_48BIT 1376 nand_ecc_default,
      config_row NAND_PAGE_16K NAND_ECC_41BIT 1184 nand_ecc_default,
      config_row NAND_PAGE_16K NAND_ECC_TYPE_NONE 32 nand_ecc_default,
      config_row NAND_PAGE_8K NAND_ECC_80BIT 1152 nand_ecc_default,
      config_row NAND_PAGE_8K NAND_ECC_72BIT 1040 nand_ecc_default,
      config_row NAND_PAGE_8K NAND_ECC_60BIT 896 nand_ecc_default,
      config_row NAND_PAGE_8K NAND_ECC_48BIT 704 nand_ecc_default,
      config_row NAND_PAGE_8K NAND_ECC_41BIT 608 nand_ecc_default,
      config_row NAND_PAGE_8K NAND_ECC_32BIT 480 nand_ecc_default,
      config_row NAND_PAGE_8K NAND_ECC_27BIT 416 nand_ecc_default,
      config_row NAND_PAGE_8K NAND_ECC_24BIT 368 nand_ecc_default,
      config_row NAND_PAGE_8K NAND_ECC_TYPE_NONE 32 nand_ecc_default,
      config_row NAND_PAGE_4K NAND_ECC_32BIT 256 nand_ecc_default,
      config_row NAND_PAGE_4K NAND_ECC_27BIT 224 nand_ecc_default,
      config_row NAND_PAGE_4K NAND_ECC_24BIT 200 nand_ecc_default,
      config_row NAND_PAGE_4K NAND_ECC_18BIT 160 nand_ecc_default,
      config_row NAND_PAGE_4K NAND_ECC_8BIT 88 nand_ecc_default,
      config_row NAND_PAGE_4K NAND_ECC_TYPE_NONE 32 nand_ecc_default,
      config_row NAND_PAGE_2K NAND_ECC_27BIT 128 nand_ecc_default,
      config_row NAND_PAGE_2K NAND_ECC_24BIT 116 nand_ecc_default,
      config_row NAND_PAGE_2K NAND_ECC_18BIT 96 nand_ecc_default,
      config_row NAND_PAGE_2K NAND_ECC_8BIT 60 nand_ecc_default,
      config_row NAND_PAGE_2K NAND_ECC_TYPE_NONE 32 nand_ecc_default]"

definition hinfc620_soft_auto_config_table :: "nand_config_table list" where
  "hinfc620_soft_auto_config_table =
     [config_row NAND_PAGE_16K NAND_ECC_64BIT 1824 nand_ecc_default,
      config_row NAND_PAGE_16K NAND_ECC_42BIT 1216 nand_ecc_default,
      config_row NAND_PAGE_16K NAND_ECC_40BIT 1152 nand_ecc_default,
      config_row NAND_PAGE_16K NAND_ECC_TYPE_NONE 32 nand_ecc_default,
      config_row NAND_PAGE_8K NAND_ECC_64BIT 928 nand_ecc_default,
      config_row NAND_PAGE_8K NAND_ECC_42BIT 624 nand_ecc_default,
      config_row NAND_PAGE_8K NAND_ECC_40BIT 592 nand_ecc_default,
      config_row NAND_PAGE_8K NAND_ECC_28BIT 432 nand_ecc_default,
      config_row NAND_PAGE_8K NAND_ECC_24BIT 368 nand_ecc_default,
      config_row NAND_PAGE_8K NAND_ECC_TYPE_NONE 32 nand_ecc_default,
      config_row NAND_PAGE_4K NAND_ECC_28BIT 232 nand_ecc_default,
      config_row NAND_PAGE_4K NAND_ECC_24BIT 200 nand_ecc_default,
      config_row NAND_PAGE_4K NAND_ECC_8BIT 88 nand_ecc_default,
      config_row NAND_PAGE_4K NAND_ECC_TYPE_NONE 32 nand_ecc_default,
      config_row NAND_PAGE_2K NAND_ECC_28BIT 132 nand_ecc_default,
      config_row NAND_PAGE_2K NAND_ECC_24BIT 116 nand_ecc_default,
      config_row NAND_PAGE_2K NAND_ECC_8BIT 60 nand_ecc_default,
      config_row NAND_PAGE_2K NAND_ECC_TYPE_NONE 32 nand_ecc_default]"

definition hinfc610_support_randomizer :: "int \<Rightarrow> int \<Rightarrow> bool" where
  "hinfc610_support_randomizer pagesize ecctype =
     (if pagesize = 8192 then NAND_ECC_24BIT \<le> ecctype \<and> ecctype \<le> NAND_ECC_80BIT
      else if pagesize = 16384 \<or> pagesize = 32768 then NAND_ECC_40BIT \<le> ecctype \<and> ecctype \<le> NAND_ECC_80BIT
      else False)"

text \<open>The loop over the table; \<open>best\<close> is the best configuration so far.  Without any the code hangs.\<close>

definition config_fits :: "'a mtd_geom_scheme \<Rightarrow> nand_config_table \<Rightarrow> bool" where
  "config_fits m cfg \<longleftrightarrow> nandpage_type2size (pagetype cfg) = uint (writesize m) \<and> cfg_oobsize cfg \<le> oobsize m"

fun best_ecc_loop :: "'a mtd_geom_scheme \<Rightarrow> nand_config_table list \<Rightarrow> nand_config_table option \<Rightarrow> nand_config_table option" where
  "best_ecc_loop m [] best = best"
| "best_ecc_loop m (cfg # t) best =
     (if nandpage_type2size (pagetype cfg) \<noteq> uint (writesize m) then best_ecc_loop m t best
      else if oobsize m < cfg_oobsize cfg then best_ecc_loop m t best
      else best_ecc_loop m t
             (case best of None \<Rightarrow> Some cfg | Some b \<Rightarrow> if cfg_ecctype b < cfg_ecctype cfg then Some cfg else best))"

definition hinfc610_get_best_ecc :: "nand_config_table list \<Rightarrow> 'a mtd_geom_scheme \<Rightarrow> nand_config_table option" where
  "hinfc610_get_best_ecc config m = best_ecc_loop m config None"

definition hinfc610_force_ecc ::
  "nand_config_table list \<Rightarrow> 'a mtd_geom_scheme \<Rightarrow> nat \<Rightarrow> int \<Rightarrow> bool \<Rightarrow> nand_config_table option" where
  "hinfc610_force_ecc config m ptype etype allow_pagediv =
     (case List.find (\<lambda>cfg. pagetype cfg = ptype \<and> cfg_ecctype cfg = etype) config of
        None \<Rightarrow> None
      | Some fit \<Rightarrow>
          let sz = nandpage_type2size ptype in
          if sz \<noteq> uint (writesize m) \<and> (uint (writesize m) < sz \<or> \<not> allow_pagediv) then None
          else if oobsize m < cfg_oobsize fit then None
          else Some fit)"

text \<open>
  The check of the configuration that the hardware came up with, by the fields of its control register; a stronger
  ECC than is known to fit, another page size, or a randomizer that is needed and off never return.  With a
  pin configuration a weaker ECC is taken over.  \<open>0x10\<close> is \<open>NAND_RANDOMIZER\<close>.
\<close>

definition hinfc610_check_config ::
  "int \<Rightarrow> u32 \<Rightarrow> u32 \<Rightarrow> u32 \<Rightarrow> nand_config_table \<Rightarrow> bool \<Rightarrow> nand_config_table option" where
  "hinfc610_check_config version nfc_con host_flags dev_flags best is_hw_auto =
     (let ptype = hinfc610_page_reg2type (uint (drop_bit 1 nfc_con AND 0x07));
          etype = hinfc610_ecc_reg2type_intf version (uint (drop_bit 9 nfc_con AND 0x0f))
      in if ptype \<noteq> int (pagetype best) then None
         else if cfg_ecctype best < etype then None
         else if dev_flags AND 0x10 \<noteq> 0 \<and> host_flags AND 0x10 = 0 then None
         else if etype < cfg_ecctype best \<and> \<not> is_hw_auto then Some (best\<lparr>cfg_ecctype := etype\<rparr>)
         else Some best)"

section \<open>Counting the bits that were corrected\<close>

text \<open>\<open>get_8bits\<close> and \<open>get_16bits\<close> count the bits set.\<close>

fun count_bits :: "nat \<Rightarrow> 'a::len word \<Rightarrow> nat" where
  "count_bits 0 b = 0"
| "count_bits (Suc n) b = (if b AND 1 \<noteq> 0 then 1 else 0) + count_bits n (drop_bit 1 b)"

definition get_8bits :: "u8 \<Rightarrow> nat" where
  "get_8bits b = (if b = 0xff then 8 else if b = 0 then 0 else count_bits 8 b)"

definition get_16bits :: "u16 \<Rightarrow> nat" where
  "get_16bits b = (if b = 0xffff then 16 else if b = 0 then 0 else count_bits 16 b)"

text \<open>A row of the table of \<open>hinfc610_ecc_info.c\<close>; the section count also tells which registers are read.\<close>

record ecc_info_t =
  ei_pagesize :: int
  ei_ecctype :: int
  ei_threshold :: nat
  ei_section :: nat

definition hinfc610_ecc_info :: "ecc_info_t list" where
  "hinfc610_ecc_info = map (\<lambda>(p, e, t, n). \<lparr>ei_pagesize = p, ei_ecctype = e, ei_threshold = t, ei_section = n\<rparr>)
     [(32768, NAND_ECC_80BIT, 70, 32), (32768, NAND_ECC_72BIT, 63, 32), (32768, NAND_ECC_60BIT, 54, 32),
      (32768, NAND_ECC_48BIT, 40, 32), (32768, NAND_ECC_42BIT, 36, 32), (32768, NAND_ECC_41BIT, 35, 32),
      (32768, NAND_ECC_40BIT, 34, 32), (16384, NAND_ECC_80BIT, 70, 16), (16384, NAND_ECC_72BIT, 63, 16),
      (16384, NAND_ECC_60BIT, 54, 16), (16384, NAND_ECC_48BIT, 40, 16), (16384, NAND_ECC_42BIT, 36, 16),
      (16384, NAND_ECC_41BIT, 35, 16), (16384, NAND_ECC_40BIT, 34, 16), (8192, NAND_ECC_80BIT, 70, 8),
      (8192, NAND_ECC_72BIT, 63, 8), (8192, NAND_ECC_60BIT, 54, 8), (8192, NAND_ECC_48BIT, 40, 8),
      (8192, NAND_ECC_42BIT, 36, 8), (8192, NAND_ECC_41BIT, 35, 8), (8192, NAND_ECC_40BIT, 34, 8),
      (8192, NAND_ECC_32BIT, 24, 8), (8192, NAND_ECC_28BIT, 25, 8), (8192, NAND_ECC_27BIT, 24, 8),
      (8192, NAND_ECC_24BIT, 21, 8), (4096, NAND_ECC_32BIT, 24, 4), (4096, NAND_ECC_28BIT, 25, 4),
      (4096, NAND_ECC_27BIT, 24, 4), (4096, NAND_ECC_24BIT, 21, 4), (4096, NAND_ECC_18BIT, 15, 4),
      (4096, NAND_ECC_16BIT, 13, 4), (4096, NAND_ECC_13BIT, 11, 4), (4096, NAND_ECC_8BIT, 7, 4),
      (2048, NAND_ECC_32BIT, 24, 2), (2048, NAND_ECC_28BIT, 25, 2), (2048, NAND_ECC_27BIT, 24, 2),
      (2048, NAND_ECC_24BIT, 21, 2), (2048, NAND_ECC_18BIT, 15, 2), (2048, NAND_ECC_16BIT, 13, 2),
      (2048, NAND_ECC_13BIT, 11, 2), (2048, NAND_ECC_8BIT, 7, 2)]"

text \<open>\<open>None\<close> is the result \<open>-1\<close>; the loop ends at the first row whose ECC type is 0.\<close>

definition hinfc610_ecc_info_init :: "int \<Rightarrow> int \<Rightarrow> ecc_info_t option" where
  "hinfc610_ecc_info_init etype sz = List.find (\<lambda>i. ei_ecctype i = etype \<and> ei_pagesize i = sz) hinfc610_ecc_info"

definition hinfc610_read_bitsflaps_reg :: "nat \<Rightarrow> u32 \<Rightarrow> u8 list" where
  "hinfc610_read_bitsflaps_reg n r = map (\<lambda>i. ucast (drop_bit (8 * i) r)) [0 ..< n]"

definition hinfc610_max_bitsflags :: "u8 list \<Rightarrow> nat" where
  "hinfc610_max_bitsflags ecc = fold (\<lambda>b num. if num < unat b then unat b else num) (rev ecc) 0"

text \<open>The registers that hold the counters of the sections, four to a register.\<close>

definition bitsflap_regs :: "nat \<Rightarrow> nat list" where
  "bitsflap_regs section =
     (if section = 32 then [0xA0, 0xA4, 0xA8, 0xAC, 0xDC, 0xE0, 0xE4, 0xE8]
      else if section = 16 then [0xA0, 0xA4, 0xA8, 0xAC]
      else if section = 8 then [0xA0, 0xA4] else [0xA0])"

end
