(* ===== verification/NandCommand.thy ===== *)
theory NandCommand
  imports Mtd
begin

text \<open>
  The default command functions of \<open>drivers/mtd/nand/nand_base.c\<close>: the bus cycles that a command
  makes on a chip with small pages (\<open>nand_command\<close>) and on one with large pages (\<open>nand_command_lp\<close>),
  and the wait for the end of a program or erase (\<open>nand_wait\<close>).

  \<open>bus\<close> is what the driver does: a call of \<open>cmd_ctrl\<close> with its data and control bits, a delay, a wait for the
  ready line, or the poll of the status after a reset.
\<close>

datatype bus = CmdCtrl int int | Delay | WaitReady | PollReady

abbreviation (input) NAND_CMD_NONE :: int where "NAND_CMD_NONE \<equiv> - 1"
abbreviation (input) NAND_CTRL_CHANGE :: int where "NAND_CTRL_CHANGE \<equiv> 0x80"
abbreviation (input) NAND_NCE :: int where "NAND_NCE \<equiv> 0x01"
abbreviation (input) NAND_CLE :: int where "NAND_CLE \<equiv> 0x02"
abbreviation (input) NAND_ALE :: int where "NAND_ALE \<equiv> 0x04"
abbreviation (input) NAND_CMD_READSTART :: int where "NAND_CMD_READSTART \<equiv> 0x30"
abbreviation (input) NAND_CMD_RNDOUTSTART :: int where "NAND_CMD_RNDOUTSTART \<equiv> 0xE0"
abbreviation (input) NAND_CMD_CACHEDPROG :: int where "NAND_CMD_CACHEDPROG \<equiv> 0x15"
abbreviation (input) NAND_CMD_DEPLETE1 :: int where "NAND_CMD_DEPLETE1 \<equiv> 0x100"

text \<open>What the two functions look at: bus width, page size, chip size and the ready line.\<close>

record cmd_chip =
  cc_busw16 :: bool
  cc_writesize :: int
  cc_chipsize :: int
  cc_dev_ready :: bool

text \<open>Calls of \<open>cmd_ctrl\<close> in an address phase: only the first one announces the change of the control lines.\<close>

definition address_cycles :: "int list \<Rightarrow> bus list" where
  "address_cycles ds =
     (case ds of [] \<Rightarrow> []
      | d # ds \<Rightarrow> CmdCtrl d (NAND_NCE OR NAND_ALE OR NAND_CTRL_CHANGE) # map (\<lambda>d. CmdCtrl d (NAND_NCE OR NAND_ALE)) ds)"

definition adjust_column :: "cmd_chip \<Rightarrow> int \<Rightarrow> int" where
  "adjust_column c column = (if cc_busw16 c then drop_bit 1 column else column)"

text \<open>The end of a command whose busy time must be waited for.\<close>

definition wait_busy :: "cmd_chip \<Rightarrow> bus list" where
  "wait_busy c = (if cc_dev_ready c then [Delay, WaitReady] else [Delay])"

definition reset_poll :: "cmd_chip \<Rightarrow> int \<Rightarrow> bus list" where
  "reset_poll c ctrl =
     (if cc_dev_ready c then [Delay, WaitReady]
      else [Delay, CmdCtrl NAND_CMD_STATUS ctrl, CmdCtrl NAND_CMD_NONE (NAND_NCE OR NAND_CTRL_CHANGE), PollReady])"

text \<open>
  Small pages.  A program starts with the read command that selects the area (the first or second half of the
  page, or the spare bytes); the column is compared as an unsigned number.
\<close>

definition seqin_select :: "cmd_chip \<Rightarrow> int \<Rightarrow> int \<times> int" where
  "seqin_select c column =
     (if cc_writesize c \<le> column mod 2 ^ 32 then (NAND_CMD_READOOB, column - cc_writesize c)
      else if column < 256 then (NAND_CMD_READ0, column)
      else (NAND_CMD_READ1, column - 256))"

definition nand_command :: "cmd_chip \<Rightarrow> int \<Rightarrow> int \<Rightarrow> int \<Rightarrow> bus list" where
  "nand_command c cmd column0 page_addr =
     (let ctrl = NAND_NCE OR NAND_CLE;
          (readcmd, column) = (if cmd = NAND_CMD_SEQIN then seqin_select c column0 else (0, column0));
          latch = (if cmd = NAND_CMD_SEQIN
                   then [CmdCtrl readcmd (ctrl OR NAND_CTRL_CHANGE), CmdCtrl cmd ctrl]
                   else [CmdCtrl cmd (ctrl OR NAND_CTRL_CHANGE)]);
          addr = (if column \<noteq> - 1 then [adjust_column c column] else [])
                 @ (if page_addr \<noteq> - 1
                    then [page_addr, drop_bit 8 page_addr]
                         @ (if 32 * 2 ^ 20 < cc_chipsize c then [drop_bit 16 page_addr] else [])
                    else []);
          done' = [CmdCtrl NAND_CMD_NONE (NAND_NCE OR NAND_CTRL_CHANGE)];
          tail =
            (if cmd \<in> {NAND_CMD_PAGEPROG, NAND_CMD_ERASE1, NAND_CMD_ERASE2, NAND_CMD_SEQIN, NAND_CMD_STATUS} then []
             else if cmd = NAND_CMD_RESET then reset_poll c (ctrl OR NAND_CTRL_CHANGE)
             else wait_busy c)
      in latch @ address_cycles addr @ done' @ tail)"

text \<open>Large pages: two column cycles; a read of the spare bytes is a read beyond the page.\<close>

definition lp_address :: "cmd_chip \<Rightarrow> int \<Rightarrow> int \<Rightarrow> int list" where
  "lp_address c column page_addr =
     (if column \<noteq> - 1 then [adjust_column c column, drop_bit 8 (adjust_column c column)] else [])
     @ (if page_addr \<noteq> - 1
        then [page_addr, drop_bit 8 page_addr] @ (if 128 * 2 ^ 20 < cc_chipsize c then [drop_bit 16 page_addr] else [])
        else [])"

definition nand_command_lp :: "cmd_chip \<Rightarrow> int \<Rightarrow> int \<Rightarrow> int \<Rightarrow> bus list" where
  "nand_command_lp c cmd0 column0 page_addr =
     (let column = (if cmd0 = NAND_CMD_READOOB then column0 + cc_writesize c else column0);
          cmd = (if cmd0 = NAND_CMD_READOOB then NAND_CMD_READ0 else cmd0);
          ctrl = NAND_NCE OR NAND_CLE OR NAND_CTRL_CHANGE;
          none = CmdCtrl NAND_CMD_NONE (NAND_NCE OR NAND_CTRL_CHANGE);
          tail =
            (if cmd \<in> {NAND_CMD_CACHEDPROG, NAND_CMD_PAGEPROG, NAND_CMD_ERASE1, NAND_CMD_ERASE2, NAND_CMD_SEQIN,
                        NAND_CMD_RNDIN, NAND_CMD_STATUS, NAND_CMD_DEPLETE1} then []
             else if cmd \<in> {0x72, 0x73, 0x74, 0x75, 0x76} then [Delay]
             else if cmd = NAND_CMD_RESET then reset_poll c ctrl
             else if cmd = NAND_CMD_RNDOUT then [CmdCtrl NAND_CMD_RNDOUTSTART ctrl, none]
             else if cmd = NAND_CMD_READ0 then [CmdCtrl NAND_CMD_READSTART ctrl, none] @ wait_busy c
             else wait_busy c)
      in [CmdCtrl (cmd AND 0xff) ctrl] @ address_cycles (lp_address c column page_addr) @ [none] @ tail)"

section \<open>Waiting\<close>

text \<open>
  \<open>get_timer\<close> (the time since the start) and \<open>dev_ready\<close> are functions of the board.  The status is read after the
  chip has become ready; \<open>0x01\<close> is a timeout.
\<close>

partial_function (option) nand_wait_loop ::
  "('h, 'z) nand_hw_scheme \<Rightarrow> ('h nand_st \<Rightarrow> nat \<times> 'h nand_st) \<Rightarrow> ('h nand_st \<Rightarrow> bool \<times> 'h nand_st) option \<Rightarrow> nat \<Rightarrow>
     'h nand_st \<Rightarrow> (int \<times> 'h nand_st) option" where
  "nand_wait_loop m get_timer dev_ready timeo s =
     (let (t, s) = get_timer s in
      if timeo < t then Some (0x01, s)
      else let (ready, s) = (case dev_ready of
                Some f \<Rightarrow> f s
              | None \<Rightarrow> (let (b, s) = read_byte m s in (b AND 0x40 \<noteq> 0, s)))
        in if ready then (let (b, s) = read_byte m s in Some (uint b, s))
           else nand_wait_loop m get_timer dev_ready timeo s)"

definition nand_wait ::
  "('h, 'z) nand_hw_scheme \<Rightarrow> nat \<Rightarrow> ('h nand_st \<Rightarrow> nat \<times> 'h nand_st) \<Rightarrow> ('h nand_st \<Rightarrow> bool \<times> 'h nand_st) option \<Rightarrow>
     'h nand_st \<Rightarrow> (int \<times> 'h nand_st) option" where
  "nand_wait m hz get_timer dev_ready s =
     (let timeo = (if chip_state s = FL_ERASING then hz * 400 div 1000 else hz * 20 div 1000);
          s = (if chip_state s = FL_ERASING \<and> chip_options s AND NAND_IS_AND \<noteq> 0
               then cmdfunc m NAND_CMD_STATUS_MULTI (- 1) (- 1) s else cmdfunc m NAND_CMD_STATUS (- 1) (- 1) s)
      in nand_wait_loop m get_timer dev_ready timeo s)"

end
