(* ===== verification/Hinfc610.thy ===== *)
theory Hinfc610
  imports HinfcTab NandBase NandCommand
begin

text \<open>
  The driver of the NAND flash controller V610, \<open>drivers/mtd/nand/hinfc610.c\<close>: the functions that it puts into
  \<open>struct nand_chip\<close>, in terms of reads and writes of the controller's registers.

  The controller is not code of this repository: \<open>nfc_ctl\<close> is a parameter that tells what a register read or write does
  to the bus, that is to the controller with its chip, to the memory that the controller reads and writes by DMA
  (\<open>host->buffer\<close>) and to the window of the controller's own memory (\<open>chip->IO_ADDR_R\<close>).  The time since the
  start of a wait is a parameter too.  The functions of the read retry and of the synchronous mode that were found for the chip are fields of \<open>hinfc_cfg\<close>
  (they are those of the theory \<open>HinfcRetry\<close>).

  \<open>PR_BUG\<close> prints a message and never returns.  The flag \<open>stuck\<close> is set there: what the model computes from such a state on
  does not happen.
\<close>

section \<open>The controller\<close>

record 'c nfc_bus =
  dma_mem :: memory
  io_mem :: memory
  nfc :: 'c

record 'c nfc_ctl =
  reg_read :: "nat \<Rightarrow> 'c nfc_bus \<Rightarrow> u32 \<times> 'c nfc_bus"
  reg_write :: "nat \<Rightarrow> u32 \<Rightarrow> 'c nfc_bus \<Rightarrow> 'c nfc_bus"
  elapsed :: "'c nfc_bus \<Rightarrow> nat \<times> 'c nfc_bus"

abbreviation (input) HINFC610_CON :: nat where "HINFC610_CON \<equiv> 0x00"
abbreviation (input) HINFC610_PWIDTH :: nat where "HINFC610_PWIDTH \<equiv> 0x04"
abbreviation (input) HINFC610_CMD :: nat where "HINFC610_CMD \<equiv> 0x0C"
abbreviation (input) HINFC610_ADDRL :: nat where "HINFC610_ADDRL \<equiv> 0x10"
abbreviation (input) HINFC610_ADDRH :: nat where "HINFC610_ADDRH \<equiv> 0x14"
abbreviation (input) HINFC610_DATA_NUM :: nat where "HINFC610_DATA_NUM \<equiv> 0x18"
abbreviation (input) HINFC610_OP :: nat where "HINFC610_OP \<equiv> 0x1C"
abbreviation (input) HINFC610_STATUS :: nat where "HINFC610_STATUS \<equiv> 0x20"
abbreviation (input) HINFC610_INTS :: nat where "HINFC610_INTS \<equiv> 0x28"
abbreviation (input) HINFC610_INTCLR :: nat where "HINFC610_INTCLR \<equiv> 0x2C"
abbreviation (input) HINFC610_DMA_CTRL :: nat where "HINFC610_DMA_CTRL \<equiv> 0x60"
abbreviation (input) HINFC610_DMA_ADDR_DATA :: nat where "HINFC610_DMA_ADDR_DATA \<equiv> 0x64"
abbreviation (input) HINFC610_DMA_ADDR_OOB :: nat where "HINFC610_DMA_ADDR_OOB \<equiv> 0x68"
abbreviation (input) HINFC610_DMA_LEN :: nat where "HINFC610_DMA_LEN \<equiv> 0x6C"
abbreviation (input) HINFC610_DMA_PARA :: nat where "HINFC610_DMA_PARA \<equiv> 0x70"
abbreviation (input) HINFC610_DMA_ADDR_DATA1 :: nat where "HINFC610_DMA_ADDR_DATA1 \<equiv> 0xB4"
abbreviation (input) HINFC610_DMA_ADDR_DATA2 :: nat where "HINFC610_DMA_ADDR_DATA2 \<equiv> 0xB8"
abbreviation (input) HINFC610_DMA_ADDR_DATA3 :: nat where "HINFC610_DMA_ADDR_DATA3 \<equiv> 0xBC"
abbreviation (input) HINFC610_DMA_ADDR_DATA4 :: nat where "HINFC610_DMA_ADDR_DATA4 \<equiv> 0xEC"
abbreviation (input) HINFC610_DMA_ADDR_DATA5 :: nat where "HINFC610_DMA_ADDR_DATA5 \<equiv> 0xF0"
abbreviation (input) HINFC610_DMA_ADDR_DATA6 :: nat where "HINFC610_DMA_ADDR_DATA6 \<equiv> 0xF4"
abbreviation (input) HINFC610_DMA_ADDR_DATA7 :: nat where "HINFC610_DMA_ADDR_DATA7 \<equiv> 0xF8"

abbreviation (input) HINFC610_OP_READ_DATA_EN :: u32 where "HINFC610_OP_READ_DATA_EN \<equiv> 0x02"
abbreviation (input) HINFC610_OP_WAIT_READY_EN :: u32 where "HINFC610_OP_WAIT_READY_EN \<equiv> 0x04"
abbreviation (input) HINFC610_OP_CMD2_EN :: u32 where "HINFC610_OP_CMD2_EN \<equiv> 0x08"
abbreviation (input) HINFC610_OP_ADDR_EN :: u32 where "HINFC610_OP_ADDR_EN \<equiv> 0x20"
abbreviation (input) HINFC610_OP_CMD1_EN :: u32 where "HINFC610_OP_CMD1_EN \<equiv> 0x40"
abbreviation (input) HINFC610_OP_READID_EN :: u32 where "HINFC610_OP_READID_EN \<equiv> 0x1000"
abbreviation (input) HINFC610_OP_RW_REG_EN :: u32 where "HINFC610_OP_RW_REG_EN \<equiv> 0x2000"
abbreviation (input) HINFC610_DATA_NUM_RANDOM_EN :: u32 where "HINFC610_DATA_NUM_RANDOM_EN \<equiv> 0x4000"

abbreviation (input) HINFC610_CON_RANDOMIZER_EN :: u32 where "HINFC610_CON_RANDOMIZER_EN \<equiv> 0x4000"
abbreviation (input) HINFC610_CON_NF_MODE_MASK :: u32 where "HINFC610_CON_NF_MODE_MASK \<equiv> 0x18000"

abbreviation (input) HINFC610_PS_UC_ECC :: u32 where "HINFC610_PS_UC_ECC \<equiv> 0x01"
abbreviation (input) HINFC610_PS_BAD_BLOCK :: u32 where "HINFC610_PS_BAD_BLOCK \<equiv> 0x02"
abbreviation (input) HINFC610_PS_EMPTY_PAGE :: u32 where "HINFC610_PS_EMPTY_PAGE \<equiv> 0x04"
abbreviation (input) HINFC610_PS_EPM_ERROR :: u32 where "HINFC610_PS_EPM_ERROR \<equiv> 0x0100"
abbreviation (input) HINFC610_PS_BBM_ERROR :: u32 where "HINFC610_PS_BBM_ERROR \<equiv> 0x0200"

abbreviation (input) NAND_CMD_READID :: int where "NAND_CMD_READID \<equiv> 0x90"
abbreviation (input) NAND_CMD_SYNC_RESET :: int where "NAND_CMD_SYNC_RESET \<equiv> 0xfc"

section \<open>The host\<close>

text \<open>
  What the read retry remembers: \<open>rr_data\<close> and \<open>need_rr_data\<close> of the host, and the static variables of the files
  \<open>hinfc610_read_retry_*.c\<close>.
\<close>

record rr_state =
  rr_data :: "u8 list"
  need_rr_data :: bool
  bg_bdie_rr_org_exist :: bool
  bg_bdie_rr_org :: "u8 list"
  entry_rr_flag :: bool
  bg_cdie_eslc_param :: "u8 list"
  cg_adie_eslc_param :: "u8 list"

text \<open>\<open>bbm\<close> and \<open>epm\<close> of the code point into the buffer: here they are offsets.\<close>

record 'c hinfc_host =
  offset :: u32
  command :: u32
  chipselect :: int
  ecctype :: int
  bbm_bitsflap :: u8
  NFC_CON :: u32
  NFC_CON_ECC_NONE :: u32
  addr_cycle :: u32
  addr_value0 :: u32
  addr_value1 :: u32
  cache_addr_value0 :: u32
  cache_addr_value1 :: u32
  column :: u32
  block_page_mask :: u32
  dma_oob :: u32
  dma_buffer :: u32
  pagesize :: u32
  host_oobsize :: u32
  ecc_section :: nat
  max_bitsflap :: int
  bbm :: nat
  epm :: nat
  host_flags :: u32
  page_status :: u32
  stuck :: bool
  host_rr :: rr_state
  bus :: "'c nfc_bus"

record 'c read_retry_t =
  retry_type :: nat
  rr_count :: nat
  set_rr_param :: "nat \<Rightarrow> 'c hinfc_host \<Rightarrow> int \<times> 'c hinfc_host"
  get_rr_param :: "('c hinfc_host \<Rightarrow> int \<times> 'c hinfc_host) option"
  reset_rr_param :: "'c hinfc_host \<Rightarrow> int \<times> 'c hinfc_host"
  enable_enhanced_slc :: "(bool \<Rightarrow> 'c hinfc_host \<Rightarrow> int \<times> 'c hinfc_host) option"

datatype sync_type = NAND_TYPE_TOGGLE_10 | NAND_TYPE_ONFI_23 | NAND_TYPE_ONFI_30

record 'c nand_sync =
  sync_type :: sync_type
  sync_enable :: "'c hinfc_host \<Rightarrow> 'c hinfc_host"
  sync_disable :: "'c hinfc_host \<Rightarrow> 'c hinfc_host"

text \<open>What is fixed once the chip is known: the controller, the functions found for the chip, the largest chip select.\<close>

record 'c hinfc_cfg =
  ctl :: "'c nfc_ctl"
  read_retry :: "'c read_retry_t option"
  sync :: "'c nand_sync option"
  max_chip :: int
  large_chip :: bool

definition HINFC610_IS_SYNC :: "'c hinfc_host \<Rightarrow> bool" where
  "HINFC610_IS_SYNC h \<longleftrightarrow> NFC_CON h AND HINFC610_CON_NF_MODE_MASK \<noteq> 0"

definition IS_NAND_RANDOM :: "'c hinfc_host \<Rightarrow> bool" where
  "IS_NAND_RANDOM h \<longleftrightarrow> host_flags h AND 0x10 \<noteq> 0"

definition IS_NAND_SYNC_ASYNC :: "'c hinfc_host \<Rightarrow> bool" where
  "IS_NAND_SYNC_ASYNC h \<longleftrightarrow> host_flags h AND 0x40 \<noteq> 0"

definition IS_PS :: "u32 \<Rightarrow> 'c hinfc_host \<Rightarrow> bool" where
  "IS_PS b h \<longleftrightarrow> page_status h AND b \<noteq> 0"

definition PR_BUG :: "'c hinfc_host \<Rightarrow> 'c hinfc_host" where
  "PR_BUG h = h\<lparr>stuck := True\<rparr>"

section \<open>Register access\<close>

definition hinfc_write :: "'c hinfc_cfg \<Rightarrow> u32 \<Rightarrow> nat \<Rightarrow> 'c hinfc_host \<Rightarrow> 'c hinfc_host" where
  "hinfc_write c v r h = h\<lparr>bus := reg_write (ctl c) r v (bus h)\<rparr>"

definition hinfc_read :: "'c hinfc_cfg \<Rightarrow> nat \<Rightarrow> 'c hinfc_host \<Rightarrow> u32 \<times> 'c hinfc_host" where
  "hinfc_read c r h = (let (v, b) = reg_read (ctl c) r (bus h) in (v, h\<lparr>bus := b\<rparr>))"

text \<open>The two wait loops: a register is read until it shows the end, at most \<open>timeout\<close> times more.\<close>

fun wait_reg :: "'c hinfc_cfg \<Rightarrow> nat \<Rightarrow> (u32 \<Rightarrow> bool) \<Rightarrow> nat \<Rightarrow> 'c hinfc_host \<Rightarrow> 'c hinfc_host" where
  "wait_reg c r waiting timeout h =
     (let (v, h) = hinfc_read c r h in
      if waiting v \<and> 0 < timeout then wait_reg c r waiting (timeout - 1) h
      else if timeout = 0 then PR_BUG h else h)"

declare wait_reg.simps [simp del]

definition WAIT_CONTROLLER_FINISH :: "'c hinfc_cfg \<Rightarrow> 'c hinfc_host \<Rightarrow> 'c hinfc_host" where
  "WAIT_CONTROLLER_FINISH c = wait_reg c HINFC610_STATUS (\<lambda>v. v AND 0x1 = 0) 0xF0000000"

definition hinfc610_dma_transfer :: "'c hinfc_cfg \<Rightarrow> bool \<Rightarrow> 'c hinfc_host \<Rightarrow> 'c hinfc_host" where
  "hinfc610_dma_transfer c todev h =
     (let a = dma_buffer h;
          h = hinfc_write c a HINFC610_DMA_ADDR_DATA h;
          h = hinfc_write c (a + 4096) HINFC610_DMA_ADDR_DATA1 h;
          h = hinfc_write c (a + 8192) HINFC610_DMA_ADDR_DATA2 h;
          h = hinfc_write c (a + 12288) HINFC610_DMA_ADDR_DATA3 h;
          h = hinfc_write c (a + 16384) HINFC610_DMA_ADDR_DATA4 h;
          h = hinfc_write c (a + 20480) HINFC610_DMA_ADDR_DATA5 h;
          h = hinfc_write c (a + 24576) HINFC610_DMA_ADDR_DATA6 h;
          h = hinfc_write c (a + 28672) HINFC610_DMA_ADDR_DATA7 h;
          h = hinfc_write c (dma_oob h) HINFC610_DMA_ADDR_OOB h;
          h = (if ecctype h = NAND_ECC_TYPE_NONE
               then hinfc_write c 0x3 HINFC610_DMA_PARA
                      (hinfc_write c (push_bit 16 (host_oobsize h AND 0x1FFF)) HINFC610_DMA_LEN h)
               else hinfc_write c 0xf HINFC610_DMA_PARA h);
          v = 0x71 OR push_bit 7 (if addr_cycle h = 4 then 1 else 0) OR push_bit 8 (word_of_int (chipselect h) AND 0x03);
          h = hinfc_write c (if todev then v OR 0x2 else v) HINFC610_DMA_CTRL h
      in wait_reg c HINFC610_DMA_CTRL (\<lambda>v. v AND 0x1 \<noteq> 0) 0xF0000000 h)"

definition hinfc610_enable_ecc_randomizer :: "'c hinfc_cfg \<Rightarrow> bool \<Rightarrow> bool \<Rightarrow> 'c hinfc_host \<Rightarrow> 'c hinfc_host" where
  "hinfc610_enable_ecc_randomizer c ecc_en randomizer_en h =
     (let h = (if IS_NAND_RANDOM h
               then (if randomizer_en
                     then h\<lparr>NFC_CON := NFC_CON h OR HINFC610_CON_RANDOMIZER_EN,
                            NFC_CON_ECC_NONE := NFC_CON_ECC_NONE h OR HINFC610_CON_RANDOMIZER_EN\<rparr>
                     else h\<lparr>NFC_CON := NFC_CON h AND NOT HINFC610_CON_RANDOMIZER_EN,
                            NFC_CON_ECC_NONE := NFC_CON_ECC_NONE h AND NOT HINFC610_CON_RANDOMIZER_EN\<rparr>)
               else h)
      in hinfc_write c (if ecc_en then NFC_CON h else NFC_CON_ECC_NONE h) HINFC610_CON h)"

section \<open>The synchronous mode\<close>

text \<open>On this chip \<open>hinfc610_sync_clock\<close> does nothing.\<close>

definition sync_mode :: "sync_type \<Rightarrow> u32" where
  "sync_mode t = (case t of NAND_TYPE_TOGGLE_10 \<Rightarrow> 0x8000 | NAND_TYPE_ONFI_23 \<Rightarrow> 0x10000 | NAND_TYPE_ONFI_30 \<Rightarrow> 0x18000)"

definition hinfc610_sync_entry :: "'c hinfc_cfg \<Rightarrow> 'c hinfc_host \<Rightarrow> 'c hinfc_host" where
  "hinfc610_sync_entry c h =
     (case sync c of
        None \<Rightarrow> PR_BUG h
      | Some sy \<Rightarrow>
          if HINFC610_IS_SYNC h then PR_BUG h
          else let h = sync_enable sy h; m = sync_mode (sync_type sy)
               in h\<lparr>NFC_CON := NFC_CON h OR m, NFC_CON_ECC_NONE := NFC_CON_ECC_NONE h OR m\<rparr>)"

definition hinfc610_sync_exit :: "'c hinfc_cfg \<Rightarrow> 'c hinfc_host \<Rightarrow> 'c hinfc_host" where
  "hinfc610_sync_exit c h =
     (if \<not> HINFC610_IS_SYNC h then PR_BUG h
      else let h = (case sync c of None \<Rightarrow> h | Some sy \<Rightarrow> sync_disable sy h)
           in h\<lparr>NFC_CON := NFC_CON h AND NOT HINFC610_CON_NF_MODE_MASK,
                NFC_CON_ECC_NONE := NFC_CON_ECC_NONE h AND NOT HINFC610_CON_NF_MODE_MASK\<rparr>)"

section \<open>Commands\<close>

text \<open>The byte of the bad block mark and the 16-bit word of the empty page mark.\<close>

definition bbm_byte :: "'c hinfc_host \<Rightarrow> u8" where
  "bbm_byte h = dma_mem (bus h) (bbm h)"

definition epm_word :: "'c hinfc_host \<Rightarrow> u16" where
  "epm_word h = ucast (dma_mem (bus h) (epm h)) OR push_bit 8 (ucast (dma_mem (bus h) (epm h + 1)))"

definition store_dma :: "nat \<Rightarrow> u8 list \<Rightarrow> 'c hinfc_host \<Rightarrow> 'c hinfc_host" where
  "store_dma a bs h = h\<lparr>bus := (bus h)\<lparr>dma_mem := store_bytes (dma_mem (bus h)) a bs\<rparr>\<rparr>"

definition hinfc610_send_cmd_pageprog :: "'c hinfc_cfg \<Rightarrow> 'c hinfc_host \<Rightarrow> 'c hinfc_host" where
  "hinfc610_send_cmd_pageprog c h =
     (let h = (if IS_NAND_SYNC_ASYNC h then hinfc610_sync_entry c h else h);
          h = hinfc610_enable_ecc_randomizer c True True h;
          h = hinfc_write c (addr_value0 h AND 0xffff0000) HINFC610_ADDRL h;
          h = hinfc_write c (addr_value1 h) HINFC610_ADDRH h;
          h = hinfc_write c 0x701080 HINFC610_CMD h;
          h = store_dma (epm h) [0, 0] h;
          h = hinfc610_dma_transfer c True h
      in if IS_NAND_SYNC_ASYNC h then hinfc610_sync_exit c h else h)"

definition hinfc610_get_data_status :: "'c hinfc_host \<Rightarrow> u32" where
  "hinfc610_get_data_status h =
     (let st = (if IS_PS HINFC610_PS_UC_ECC h then HINFC610_PS_UC_ECC else 0);
          first = (drop_bit 16 (addr_value0 h) AND block_page_mask h = 0);
          odd_mark = (first \<and> bbm_byte h \<noteq> 0x00 \<and> bbm_byte h \<noteq> 0xFF);
          st1 = (if odd_mark then st OR HINFC610_PS_BBM_ERROR else st)
      in if first \<and> bbm_byte h = 0x00 then st OR HINFC610_PS_BAD_BLOCK
         else if odd_mark \<and> (\<not> IS_PS HINFC610_PS_UC_ECC h \<or> get_8bits (bbm_byte h) < 6) then st1 OR HINFC610_PS_BAD_BLOCK
         else if epm_word h = 0 then st1
         else if epm_word h = 0xFFFF then st1 OR HINFC610_PS_EMPTY_PAGE
         else let st2 = st1 OR HINFC610_PS_EPM_ERROR
              in if IS_PS HINFC610_PS_UC_ECC h \<and> 12 < get_16bits (epm_word h) then st2 OR HINFC610_PS_EMPTY_PAGE else st2)"

text \<open>The counters of corrected bits; \<open>want\<close> tells whether the maximum is asked for.\<close>

definition read_bitsflaps :: "'c hinfc_cfg \<Rightarrow> nat list \<Rightarrow> nat \<Rightarrow> 'c hinfc_host \<Rightarrow> u8 list \<times> 'c hinfc_host" where
  "read_bitsflaps c regs n h =
     fold (\<lambda>r (ecc, h). let (v, h) = hinfc_read c r h in (ecc @ hinfc610_read_bitsflaps_reg n v, h)) regs ([], h)"

definition hinfc610_dump :: "'c hinfc_cfg \<Rightarrow> bool \<Rightarrow> 'c hinfc_host \<Rightarrow> 'c hinfc_host" where
  "hinfc610_dump c want h =
     (let n = ecc_section h; (ecc, h) = read_bitsflaps c (bitsflap_regs n) (min n 4) h
      in h\<lparr>max_bitsflap := (if want then int (hinfc610_max_bitsflags ecc) else max_bitsflap h), bbm_bitsflap := last ecc\<rparr>)"

text \<open>A read of the page that the address tells.\<close>

definition read_page_cmds :: "'c hinfc_cfg \<Rightarrow> 'c hinfc_host \<Rightarrow> 'c hinfc_host" where
  "read_page_cmds c h =
     (let h = hinfc_write c 0x60 HINFC610_INTCLR h;
          h = hinfc_write c (NFC_CON h) HINFC610_CON h;
          h = hinfc_write c (addr_value0 h AND 0xffff0000) HINFC610_ADDRL h;
          h = hinfc_write c (addr_value1 h) HINFC610_ADDRH h;
          h = hinfc_write c 0x3000 HINFC610_CMD h
      in hinfc610_dma_transfer c False h)"

text \<open>The loop over the retry settings \<open>ix\<close>, then the reset.\<close>

fun read_retry_loop :: "'c hinfc_cfg \<Rightarrow> 'c read_retry_t \<Rightarrow> nat list \<Rightarrow> 'c hinfc_host \<Rightarrow> 'c hinfc_host" where
  "read_retry_loop c rr [] h = h"
| "read_retry_loop c rr (ix # ixs) h =
     (if \<not> IS_PS HINFC610_PS_UC_ECC h then h
      else let h = hinfc_write c 0x60 HINFC610_INTCLR h;
               h = hinfc610_enable_ecc_randomizer c False False h;
               h = snd (set_rr_param rr ix h);
               h = hinfc610_enable_ecc_randomizer c True True h;
               h = read_page_cmds c h;
               (v, h) = hinfc_read c HINFC610_INTS h;
               h = h\<lparr>page_status := (if v AND 0x40 \<noteq> 0 then page_status h OR HINFC610_PS_UC_ECC
                                      else page_status h AND NOT HINFC610_PS_UC_ECC)\<rparr>
           in read_retry_loop c rr ixs h)"

definition hinfc610_do_read_retry :: "'c hinfc_cfg \<Rightarrow> 'c read_retry_t \<Rightarrow> 'c hinfc_host \<Rightarrow> 'c hinfc_host" where
  "hinfc610_do_read_retry c rr h =
     (let h = read_retry_loop c rr [1 ..< rr_count rr] h;
          h = hinfc610_enable_ecc_randomizer c False False h
      in snd (reset_rr_param rr h))"

definition hinfc610_send_cmd_readstart :: "'c hinfc_cfg \<Rightarrow> 'c hinfc_host \<Rightarrow> 'c hinfc_host" where
  "hinfc610_send_cmd_readstart c h =
     (if addr_value0 h = cache_addr_value0 h \<and> addr_value1 h = cache_addr_value1 h then h
      else
        let h = (if IS_NAND_SYNC_ASYNC h then hinfc610_sync_entry c h else h);
            h = h\<lparr>page_status := 0\<rparr>;
            h = hinfc610_enable_ecc_randomizer c True True h;
            h = read_page_cmds c h;
            (v, h) = hinfc_read c HINFC610_INTS h;
            h = (if v AND 0x40 \<noteq> 0 then h\<lparr>page_status := page_status h OR HINFC610_PS_UC_ECC\<rparr> else h);
            h = (if read_retry c \<noteq> None \<or> IS_NAND_RANDOM h
                 then let h = h\<lparr>page_status := page_status h OR hinfc610_get_data_status h\<rparr>
                      in if IS_PS HINFC610_PS_EMPTY_PAGE h
                         then (if IS_NAND_RANDOM h
                               then h\<lparr>bus := (bus h)\<lparr>dma_mem :=
                                        fill_bytes (dma_mem (bus h)) 0 0xff (unat (pagesize h + host_oobsize h))\<rparr>\<rparr>
                               else h)
                         else if \<not> IS_PS HINFC610_PS_BAD_BLOCK h
                         then (case read_retry c of
                                 Some rr \<Rightarrow> if IS_PS HINFC610_PS_UC_ECC h then hinfc610_do_read_retry c rr h else h
                               | None \<Rightarrow> h)
                         else h
                 else h);
            h = (if IS_NAND_SYNC_ASYNC h then hinfc610_sync_exit c h else h);
            h = (if \<not> IS_PS HINFC610_PS_UC_ECC h then hinfc610_dump c True h
                 else hinfc610_dump c False (h\<lparr>max_bitsflap := - 1\<rparr>))
        in h\<lparr>cache_addr_value0 := addr_value0 h, cache_addr_value1 := addr_value1 h\<rparr>)"

definition OP_cs :: "'c hinfc_host \<Rightarrow> u32" where
  "OP_cs h = push_bit 7 (word_of_int (chipselect h) AND 3)"

definition hinfc610_send_cmd_erase :: "'c hinfc_cfg \<Rightarrow> 'c hinfc_host \<Rightarrow> 'c hinfc_host" where
  "hinfc610_send_cmd_erase c h =
     (let h = hinfc610_enable_ecc_randomizer c False False h;
          h = hinfc_write c (addr_value0 h) HINFC610_ADDRL h;
          h = hinfc_write c 0xd060 HINFC610_CMD h;
          h = hinfc_write c (HINFC610_OP_WAIT_READY_EN OR HINFC610_OP_CMD2_EN OR HINFC610_OP_CMD1_EN OR HINFC610_OP_ADDR_EN
                OR OP_cs h OR push_bit 9 (addr_cycle h AND 7)) HINFC610_OP h
      in WAIT_CONTROLLER_FINISH c h)"

definition hinfc610_send_cmd_sync_readid :: "'c hinfc_cfg \<Rightarrow> 'c hinfc_host \<Rightarrow> 'c hinfc_host" where
  "hinfc610_send_cmd_sync_readid c h =
     (let h = hinfc610_enable_ecc_randomizer c False False h;
          h = hinfc_write c 0x10 HINFC610_DATA_NUM h;
          h = hinfc_write c 0x90 HINFC610_CMD h;
          h = hinfc_write c 0 HINFC610_ADDRL h;
          h = hinfc_write c (HINFC610_OP_CMD1_EN OR HINFC610_OP_ADDR_EN OR HINFC610_OP_READ_DATA_EN OR OP_cs h OR 0x200
                OR HINFC610_OP_READID_EN OR HINFC610_OP_RW_REG_EN) HINFC610_OP h
      in WAIT_CONTROLLER_FINISH c (h\<lparr>addr_cycle := 0\<rparr>))"

definition hinfc610_send_cmd_async_readid :: "'c hinfc_cfg \<Rightarrow> 'c hinfc_host \<Rightarrow> 'c hinfc_host" where
  "hinfc610_send_cmd_async_readid c h =
     (let h = hinfc610_enable_ecc_randomizer c False False h;
          h = hinfc_write c 0x10 HINFC610_DATA_NUM h;
          h = hinfc_write c 0x90 HINFC610_CMD h;
          h = hinfc_write c 0 HINFC610_ADDRL h;
          h = hinfc_write c (HINFC610_OP_CMD1_EN OR HINFC610_OP_ADDR_EN OR HINFC610_OP_READ_DATA_EN OR OP_cs h OR 0x200) HINFC610_OP h
      in WAIT_CONTROLLER_FINISH c (h\<lparr>addr_cycle := 0\<rparr>))"

definition hinfc610_send_cmd_readid :: "'c hinfc_cfg \<Rightarrow> 'c hinfc_host \<Rightarrow> 'c hinfc_host" where
  "hinfc610_send_cmd_readid c h =
     (if HINFC610_IS_SYNC h then hinfc610_send_cmd_sync_readid c h else hinfc610_send_cmd_async_readid c h)"

definition hinfc610_send_cmd_status :: "'c hinfc_cfg \<Rightarrow> 'c hinfc_host \<Rightarrow> 'c hinfc_host" where
  "hinfc610_send_cmd_status c h =
     (let h = hinfc610_enable_ecc_randomizer c False False h;
          h = hinfc_write c 0x10 HINFC610_DATA_NUM h;
          h = hinfc_write c 0x70 HINFC610_CMD h;
          h = hinfc_write c (HINFC610_OP_CMD1_EN OR HINFC610_OP_READ_DATA_EN OR OP_cs h) HINFC610_OP h
      in WAIT_CONTROLLER_FINISH c h)"

definition hinfc610_send_cmd_reset :: "'c hinfc_cfg \<Rightarrow> 'c hinfc_host \<Rightarrow> 'c hinfc_host" where
  "hinfc610_send_cmd_reset c h =
     (let h = hinfc_write c (if HINFC610_IS_SYNC h then 0xfc else 0xff) HINFC610_CMD h;
          h = hinfc_write c (HINFC610_OP_CMD1_EN OR OP_cs h OR HINFC610_OP_WAIT_READY_EN) HINFC610_OP h
      in WAIT_CONTROLLER_FINISH c h)"

section \<open>The functions of the chip\<close>

definition addr_phase :: "int \<Rightarrow> int \<Rightarrow> 'c hinfc_host \<Rightarrow> 'c hinfc_host" where
  "addr_phase dat ctrl h =
     (let h = (if ctrl AND NAND_CTRL_CHANGE \<noteq> 0 then h\<lparr>addr_cycle := 0, addr_value0 := 0, addr_value1 := 0\<rparr> else h);
          byte = (word_of_int (dat AND 0xff) :: u32);
          h = (if 4 \<le> addr_cycle h
               then h\<lparr>addr_value1 := addr_value1 h OR push_bit (unat (addr_cycle h - 4) * 8) byte\<rparr>
               else h\<lparr>addr_value0 := addr_value0 h OR push_bit (unat (addr_cycle h) * 8) byte\<rparr>)
      in h\<lparr>addr_cycle := addr_cycle h + 1\<rparr>)"

definition cmd_phase :: "'c hinfc_cfg \<Rightarrow> int \<Rightarrow> 'c hinfc_host \<Rightarrow> 'c hinfc_host" where
  "cmd_phase c dat h0 =
     (let cmd = dat AND 0xff; h = h0\<lparr>command := word_of_int cmd\<rparr> in
      if cmd = NAND_CMD_PAGEPROG then hinfc610_send_cmd_pageprog c h
      else if cmd = NAND_CMD_READSTART then hinfc610_send_cmd_readstart c h
      else if cmd = NAND_CMD_ERASE2 then hinfc610_send_cmd_erase c h
      else if cmd = NAND_CMD_READID
      then hinfc610_send_cmd_readid c (h\<lparr>bus := (bus h)\<lparr>io_mem := fill_bytes (io_mem (bus h)) 0 0 0x10\<rparr>\<rparr>)
      else if cmd = NAND_CMD_STATUS then hinfc610_send_cmd_status c h
      else if cmd = NAND_CMD_RESET then hinfc610_send_cmd_reset c h
      else h)"

definition hinfc610_cmd_ctrl :: "'c hinfc_cfg \<Rightarrow> int \<Rightarrow> int \<Rightarrow> 'c hinfc_host \<Rightarrow> 'c hinfc_host" where
  "hinfc610_cmd_ctrl c dat ctrl h =
     (let h = (if ctrl AND NAND_ALE \<noteq> 0 then addr_phase dat ctrl h else h);
          cmd = (ctrl AND NAND_CLE \<noteq> 0 \<and> ctrl AND NAND_CTRL_CHANGE \<noteq> 0);
          h = (if cmd then cmd_phase c dat h else h);
          h = hinfc610_enable_ecc_randomizer c True True h;
          h = (if dat = NAND_CMD_NONE \<and> addr_cycle h \<noteq> 0 \<and>
                  (command h = word_of_int NAND_CMD_SEQIN \<or> command h = word_of_int NAND_CMD_READ0
                   \<or> command h = word_of_int NAND_CMD_READID)
               then h\<lparr>offset := 0, column := addr_value0 h AND 0xffff\<rparr> else h)
      in if cmd \<and> dat AND 0xff = NAND_CMD_READSTART then h
         else h\<lparr>cache_addr_value0 := - 1, cache_addr_value1 := - 1\<rparr>)"

definition hinfc610_select_chip :: "'c hinfc_cfg \<Rightarrow> int \<Rightarrow> 'c hinfc_host \<Rightarrow> 'c hinfc_host" where
  "hinfc610_select_chip c cs h =
     (if cs < 0 then h
      else let h = (if max_chip c < cs then PR_BUG h else h) in h\<lparr>chipselect := cs\<rparr>)"

definition hinfc610_read_byte :: "'c hinfc_host \<Rightarrow> u8 \<times> 'c hinfc_host" where
  "hinfc610_read_byte h =
     (if command h = word_of_int NAND_CMD_STATUS then (io_mem (bus h) 0, h)
      else let h = h\<lparr>offset := offset h + 1\<rparr> in
        if command h = word_of_int NAND_CMD_READID then (io_mem (bus h) (unat (offset h) - 1), h)
        else (dma_mem (bus h) (unat (column h) + unat (offset h) - 1), h))"

definition hinfc610_read_word :: "'c hinfc_host \<Rightarrow> u16 \<times> 'c hinfc_host" where
  "hinfc610_read_word h =
     (let h = h\<lparr>offset := offset h + 2\<rparr>; a = unat (column h) + unat (offset h) - 2
      in (ucast (dma_mem (bus h) a) OR push_bit 8 (ucast (dma_mem (bus h) (a + 1))), h))"

text \<open>The buffers of the two copies: from the memory to the DMA buffer and back.\<close>

definition hinfc610_write_buf :: "nat \<Rightarrow> nat \<Rightarrow> 'c hinfc_host nand_st \<Rightarrow> 'c hinfc_host nand_st" where
  "hinfc610_write_buf buf n s =
     (let h = store_dma (unat (column (hw s)) + unat (offset (hw s))) (load_bytes (ram s) buf n) (hw s)
      in s\<lparr>hw := h\<lparr>offset := offset h + word_of_nat n\<rparr>\<rparr>)"

definition hinfc610_read_buf :: "nat \<Rightarrow> nat \<Rightarrow> 'c hinfc_host nand_st \<Rightarrow> 'c hinfc_host nand_st" where
  "hinfc610_read_buf buf n s =
     (let h = hw s; bs = load_bytes (dma_mem (bus h)) (unat (column h) + unat (offset h)) n
      in s\<lparr>ram := store_bytes (ram s) buf bs, hw := h\<lparr>offset := offset h + word_of_nat n\<rparr>\<rparr>)"

section \<open>The chip\<close>

definition on_hw :: "('h \<Rightarrow> 'h) \<Rightarrow> 'h nand_st \<Rightarrow> 'h nand_st" where
  "on_hw f s = s\<lparr>hw := f (hw s)\<rparr>"

definition of_hw :: "('h \<Rightarrow> 'a \<times> 'h) \<Rightarrow> 'h nand_st \<Rightarrow> 'a \<times> 'h nand_st" where
  "of_hw f s = (let (x, h) = f (hw s) in (x, s\<lparr>hw := h\<rparr>))"

definition get_timer :: "'c hinfc_cfg \<Rightarrow> 'c hinfc_host \<Rightarrow> nat \<times> 'c hinfc_host" where
  "get_timer c h = (let (t, b) = elapsed (ctl c) (bus h) in (t, h\<lparr>bus := b\<rparr>))"

text \<open>
  \<open>hinfc610_dev_ready\<close> is always true, so \<open>nand_wait_ready\<close> looks at the clock once, and there is no poll after a reset.
\<close>

definition bus_cycle :: "'c hinfc_cfg \<Rightarrow> NandCommand.bus \<Rightarrow> 'c hinfc_host \<Rightarrow> 'c hinfc_host" where
  "bus_cycle c b h =
     (case b of
        CmdCtrl dat ctrl \<Rightarrow> hinfc610_cmd_ctrl c dat ctrl h
      | WaitReady \<Rightarrow> snd (get_timer c h)
      | Delay \<Rightarrow> h
      | PollReady \<Rightarrow> h)"

definition hinfc610_cmdfunc :: "'c hinfc_cfg \<Rightarrow> cmd_chip \<Rightarrow> int \<Rightarrow> int \<Rightarrow> int \<Rightarrow> 'c hinfc_host nand_st \<Rightarrow> 'c hinfc_host nand_st" where
  "hinfc610_cmdfunc c cc cmd col page = on_hw (fold (bus_cycle c) (nand_command_lp cc cmd col page))"

definition hinfc610_dev_ready :: "'h nand_st \<Rightarrow> bool \<times> 'h nand_st" where
  "hinfc610_dev_ready s = (True, s)"

text \<open>
  The chip with the driver's functions, on the geometry that the scan found; \<open>hz\<close> is \<open>CONFIG_SYS_HZ\<close>.
  \<open>nand_wait\<close> needs the functions that are put in before.
\<close>

definition hinfc610_cmd_chip :: "('h, 'z) nand_hw_scheme \<Rightarrow> cmd_chip" where
  "hinfc610_cmd_chip d = \<lparr>cc_busw16 = False, cc_writesize = uint (writesize d), cc_chipsize = uint (chipsize d), cc_dev_ready = True\<rparr>"

definition hinfc610_nand_init :: "'c hinfc_cfg \<Rightarrow> 'c hinfc_host nand_hw \<Rightarrow> 'c hinfc_host nand_hw" where
  "hinfc610_nand_init c d =
     d\<lparr>ecc_mode := NAND_ECC_NONE,
       select_chip := (\<lambda>cs. on_hw (hinfc610_select_chip c cs)),
       cmdfunc := hinfc610_cmdfunc c (hinfc610_cmd_chip d),
       wait_ready := on_hw (\<lambda>h. snd (get_timer c h)),
       read_byte := of_hw hinfc610_read_byte,
       read_word := of_hw hinfc610_read_word,
       read_buf := hinfc610_read_buf,
       write_buf := hinfc610_write_buf\<rparr>"

definition hinfc610_chip :: "'c hinfc_cfg \<Rightarrow> nat \<Rightarrow> 'c hinfc_host nand_hw \<Rightarrow> 'c hinfc_host nand_hw" where
  "hinfc610_chip c hz d =
     (let d = hinfc610_nand_init c d
      in d\<lparr>waitfunc := (\<lambda>s. the (nand_wait d hz (of_hw (get_timer c)) (Some hinfc610_dev_ready) s))\<rparr>)"

end
