(* ===== verification/NandIdent.thy ===== *)
theory NandIdent
  imports NandScan Hinfc610
begin

text \<open>
  Finding out what chip is there: the id tables \<open>nand_flash_ids\<close> (\<open>drivers/mtd/nand/nand_ids.c\<close>, without the
  museum ids, which the boards do not configure) and \<open>nand_flash_special_dev\<close> (\<open>nand_spl_ids.c\<close>), and the first part of
  the scan, \<open>nand_get_flash_type\<close> and \<open>nand_scan_ident\<close> of \<open>nand_base.c\<close>.
\<close>

section \<open>Tables\<close>

abbreviation (input) ENODEV :: int where "ENODEV \<equiv> 19"

abbreviation (input) NAND_4PAGE_ARRAY :: u32 where "NAND_4PAGE_ARRAY \<equiv> 0x40"
abbreviation (input) NAND_SAMSUNG_LP_OPTIONS :: u32 where "NAND_SAMSUNG_LP_OPTIONS \<equiv> 0x1C"
abbreviation (input) LP_OPTIONS :: u32 where "LP_OPTIONS \<equiv> NAND_SAMSUNG_LP_OPTIONS OR NAND_NO_READRDY OR NAND_NO_AUTOINCR"
abbreviation (input) LP_OPTIONS16 :: u32 where "LP_OPTIONS16 \<equiv> LP_OPTIONS OR NAND_BUSWIDTH_16"
abbreviation (input) NAND_CHIPOPTIONS_MSK :: u32 where "NAND_CHIPOPTIONS_MSK \<equiv> 0xFFFE"

abbreviation (input) NAND_RR_NONE :: nat where "NAND_RR_NONE \<equiv> 0"
abbreviation (input) NAND_RR_HYNIX_BG_BDIE :: nat where "NAND_RR_HYNIX_BG_BDIE \<equiv> 0x10"
abbreviation (input) NAND_RR_HYNIX_BG_CDIE :: nat where "NAND_RR_HYNIX_BG_CDIE \<equiv> 0x11"
abbreviation (input) NAND_RR_HYNIX_CG_ADIE :: nat where "NAND_RR_HYNIX_CG_ADIE \<equiv> 0x12"
abbreviation (input) NAND_RR_MICRON :: nat where "NAND_RR_MICRON \<equiv> 0x20"
abbreviation (input) NAND_RR_SAMSUNG :: nat where "NAND_RR_SAMSUNG \<equiv> 0x30"
abbreviation (input) NAND_RR_TOSHIBA_24nm :: nat where "NAND_RR_TOSHIBA_24nm \<equiv> 0x40"
abbreviation (input) NAND_RR_TOSHIBA_19nm :: nat where "NAND_RR_TOSHIBA_19nm \<equiv> 0x41"

record flash_dev =
  fd_name :: string
  fd_id :: int
  fd_pagesize :: u32
  fd_chipsize :: u32
  fd_erasesize :: u32
  fd_options :: u32

text \<open>\<open>struct nand_dev_t\<close>: what the chip's driver and the controller's driver tell each other.\<close>

record nand_dev =
  dev_type :: flash_dev
  dev_ids :: "u8 list"
  dev_oobsize :: int
  dev_ecctype :: int
  dev_flags :: u32
  dev_rr_type :: nat
  dev_hostver :: int

record special_dev =
  spl_name :: string
  spl_id :: "u8 list"
  spl_len :: nat
  spl_chipsize :: u64
  spl_probe :: "(nand_dev \<Rightarrow> nand_dev) option"
  spl_pagesize :: u32
  spl_erasesize :: u32
  spl_oobsize :: u32
  spl_options :: u32
  spl_rr_type :: nat
  spl_badblock_pos :: nat
  spl_flags :: u32

text \<open>The chips whose sizes are coded in the fourth byte of the id, in the way of their maker.\<close>

definition probe_sizes :: "u32 list \<Rightarrow> int list \<Rightarrow> u32 list \<Rightarrow> nat \<Rightarrow> nat \<Rightarrow> u8 \<Rightarrow> nand_dev \<Rightarrow> nand_dev" where
  "probe_sizes pagesizes oobsizes blocksizes blocktype oobtype id3 dev =
     dev\<lparr>dev_type := (dev_type dev)\<lparr>fd_options := 0, fd_pagesize := pagesizes ! unat (id3 AND 0x03),
                                    fd_erasesize := blocksizes ! blocktype\<rparr>,
         dev_oobsize := oobsizes ! oobtype\<rparr>"

definition hynix_probe_v02 :: "nand_dev \<Rightarrow> nand_dev" where
  "hynix_probe_v02 dev =
     (let id3 = dev_ids dev ! 3
      in probe_sizes [2048, 4096, 8192, 0] [128, 224, 448, 0, 0, 0, 0, 0]
           [0x20000, 0x40000, 0x80000, 0xC0000, 0x100000, 0x200000, 0, 0]
           (unat ((drop_bit 5 id3 AND 0x04) OR (drop_bit 4 id3 AND 0x03)))
           (unat ((drop_bit 2 id3 AND 0x03) OR (drop_bit 4 id3 AND 0x04))) id3 dev)"

definition samsung_probe_v02 :: "nand_dev \<Rightarrow> nand_dev" where
  "samsung_probe_v02 dev =
     (let id3 = dev_ids dev ! 3
      in probe_sizes [2048, 4096, 8192, 0] [0, 128, 218, 400, 436, 0, 0, 0]
           [0x20000, 0x40000, 0x80000, 0x100000, 0, 0, 0, 0]
           (unat ((drop_bit 5 id3 AND 0x04) OR (drop_bit 4 id3 AND 0x03)))
           (unat ((drop_bit 4 id3 AND 0x04) OR (drop_bit 2 id3 AND 0x03))) id3 dev)"

text \<open>Rows of the table, without and with a probe function.\<close>

definition fixed_row ::
  "string \<Rightarrow> u8 list \<Rightarrow> nat \<Rightarrow> u64 \<Rightarrow> u32 \<Rightarrow> u32 \<Rightarrow> u32 \<Rightarrow> nat \<Rightarrow> nat \<Rightarrow> u32 \<Rightarrow> special_dev" where
  "fixed_row name ids len cs ps es oob rr bbp flags =
     \<lparr>spl_name = name, spl_id = ids, spl_len = len, spl_chipsize = cs, spl_probe = None, spl_pagesize = ps,
      spl_erasesize = es, spl_oobsize = oob, spl_options = 0, spl_rr_type = rr, spl_badblock_pos = bbp, spl_flags = flags\<rparr>"

definition probed_row :: "string \<Rightarrow> u8 list \<Rightarrow> nat \<Rightarrow> u64 \<Rightarrow> (nand_dev \<Rightarrow> nand_dev) \<Rightarrow> nat \<Rightarrow> nat \<Rightarrow> u32 \<Rightarrow> special_dev" where
  "probed_row name ids len cs pr rr bbp flags =
     (fixed_row name ids len cs 0 0 0 rr bbp flags)\<lparr>spl_probe := Some pr\<rparr>"

text \<open>Micron, MLC and the first SLC chips.\<close>

definition micron_rows :: "special_dev list" where
  "micron_rows =
  [
   fixed_row ''MT29F64G08CBABA'' [0x2C, 0x64, 0x44, 0x4B, 0xA9, 0x00, 0x00, 0x00] 8 0x200000000 0x2000 0x200000 744 NAND_RR_MICRON 2 0x70,
   fixed_row ''MT29F32G08CBADA'' [0x2C, 0x44, 0x44, 0x4B, 0xA9, 0x00, 0x00, 0x00] 8 0x100000000 0x2000 0x200000 744 NAND_RR_MICRON 2 0x10,
   fixed_row ''MT29F8G08ABxBA'' [0x2C, 0x38, 0x00, 0x26, 0x85, 0x00, 0x00, 0x00] 8 0x40000000 0x1000 0x80000 224 NAND_RR_NONE 2 0x0,
   fixed_row ''MT29F16G08CBABx'' [0x2C, 0x48, 0x04, 0x46, 0x85, 0x00, 0x00, 0x00] 8 0x80000000 0x1000 0x100000 224 NAND_RR_NONE 2 0x0,
   fixed_row ''MT29F16G08CBACA'' [0x2C, 0x48, 0x04, 0x4A, 0xA5, 0x00, 0x00, 0x00] 8 0x80000000 0x1000 0x100000 224 NAND_RR_NONE 2 0x0,
   fixed_row ''MT29F32G08CBACA'' [0x2C, 0x68, 0x04, 0x4A, 0xA9, 0x00, 0x00, 0x00] 8 0x100000000 0x1000 0x100000 224 NAND_RR_NONE 2 0x0,
   fixed_row ''MT29F64G08CxxAA'' [0x2C, 0x88, 0x04, 0x4B, 0xA9, 0x00, 0x00, 0x00] 8 0x200000000 0x2000 0x200000 448 NAND_RR_NONE 2 0x0,
   fixed_row ''MT29F256G08CJAAA'' [0x2C, 0xA8, 0x05, 0xCB, 0xA9, 0x00, 0x00, 0x00] 8 0x400000000 0x2000 0x200000 448 NAND_RR_NONE 2 0x0,
   fixed_row ''MT29F256G08CMCBB'' [0x2C, 0x64, 0x44, 0x4B, 0xA9, 0x00, 0x00, 0x00] 8 0x200000000 0x2000 0x200000 744 NAND_RR_NONE 2 0x0]"

text \<open>Micron, SLC.\<close>

definition micron_slc_rows :: "special_dev list" where
  "micron_slc_rows =
  [
   fixed_row ''MT29F8G08ABACA'' [0x2C, 0xD3, 0x90, 0xA6, 0x64, 0x00, 0x00, 0x00] 5 0x40000000 0x1000 0x40000 224 NAND_RR_NONE 2 0x0,
   fixed_row ''MT29F4G08ABAEA'' [0x2C, 0xDC, 0x90, 0xA6, 0x54, 0x00, 0x00, 0x00] 5 0x20000000 0x1000 0x40000 224 NAND_RR_NONE 2 0x0,
   fixed_row ''MT29F2G08ABAFA'' [0x2C, 0xDA, 0x90, 0x95, 0x04, 0x00, 0x00, 0x00] 5 0x10000000 0x800 0x20000 224 NAND_RR_NONE 2 0x0,
   fixed_row ''MT29F16G08ABACA'' [0x2C, 0x48, 0x00, 0x26, 0xA9, 0x00, 0x00, 0x00] 5 0x80000000 0x1000 0x80000 224 NAND_RR_NONE 2 0x0]"

text \<open>Toshiba.\<close>

definition toshiba_rows :: "special_dev list" where
  "toshiba_rows =
  [
   fixed_row ''TC58NVG4D2FTA00'' [0x98, 0xD5, 0x94, 0x32, 0x76, 0x55, 0x00, 0x00] 6 0x80000000 0x2000 0x100000 448 NAND_RR_NONE 3 0x0,
   fixed_row ''TH58NVG6D2FTA20'' [0x98, 0xD7, 0x94, 0x32, 0x76, 0x55, 0x00, 0x00] 6 0x100000000 0x2000 0x100000 448 NAND_RR_NONE 3 0x0,
   fixed_row ''TC58NVG5D2HTA00 24nm'' [0x98, 0xD7, 0x94, 0x32, 0x76, 0x56, 0x08, 0x00] 6 0x100000000 0x2000 0x100000 640 NAND_RR_TOSHIBA_24nm 3 0x10,
   fixed_row ''TC58NVG6D2GTA00'' [0x98, 0xDE, 0x94, 0x82, 0x76, 0x00, 0x00, 0x00] 5 0x200000000 0x2000 0x200000 640 NAND_RR_NONE 3 0x0,
   fixed_row ''TC58NVG6DCJTA00 19nm'' [0x98, 0xDE, 0x84, 0x93, 0x72, 0x57, 0x08, 0x04] 8 0x200000000 0x4000 0x400000 1280 NAND_RR_TOSHIBA_24nm 3 0x10,
   fixed_row ''TC58TEG5DCJTA00 19nm'' [0x98, 0xD7, 0x84, 0x93, 0x72, 0x57, 0x08, 0x04] 6 0x100000000 0x4000 0x400000 1280 NAND_RR_TOSHIBA_24nm 3 0x50,
   fixed_row ''TC58NVG0S3HTA00'' [0x98, 0xF1, 0x80, 0x15, 0x72, 0x00, 0x00, 0x00] 5 0x8000000 0x800 0x20000 128 NAND_RR_NONE 2 0x0,
   fixed_row ''TC58NVG1S3HTA00'' [0x98, 0xDA, 0x90, 0x15, 0x76, 0x00, 0x00, 0x00] 5 0x10000000 0x800 0x20000 128 NAND_RR_NONE 2 0x0,
   fixed_row ''TC58NVG5T2JTA00 19nm TLC'' [0x98, 0xD7, 0x98, 0x92, 0x72, 0x57, 0x08, 0x10] 6 0x100000000 0x2000 0x400000 1024 NAND_RR_TOSHIBA_24nm 3 0x10,
   fixed_row ''TC58TEG5DCKTAx0 19nm MLC'' [0x98, 0xD7, 0x84, 0x93, 0x72, 0x50, 0x08, 0x04] 6 0x100000000 0x4000 0x400000 1280 NAND_RR_TOSHIBA_19nm 3 0x10,
   fixed_row ''Tx58TEGxDDKTAx0 19nm MLC'' [0x98, 0xDE, 0x94, 0x93, 0x76, 0x50, 0x00, 0x00] 6 0x100000000 0x4000 0x400000 1280 NAND_RR_TOSHIBA_19nm 3 0x10]"

text \<open>Samsung.\<close>

definition samsung_rows :: "special_dev list" where
  "samsung_rows =
  [
   probed_row ''K9LB(HC/PD/MD)G08U0(1)D'' [0xEC, 0xD7, 0xD5, 0x29, 0x38, 0x41, 0x00, 0x00] 6 0x100000000 samsung_probe_v02 NAND_RR_NONE 1 0x0,
   probed_row ''K9GAG08U0E'' [0xEC, 0xD5, 0x84, 0x72, 0x50, 0x42, 0x00, 0x00] 6 0x80000000 samsung_probe_v02 NAND_RR_NONE 3 0x0,
   probed_row ''K9LBG08U0E'' [0xEC, 0xD7, 0xC5, 0x72, 0x54, 0x42, 0x00, 0x00] 6 0x100000000 samsung_probe_v02 NAND_RR_NONE 3 0x0,
   probed_row ''K9G8G08U0C'' [0xEC, 0xD3, 0x84, 0x72, 0x50, 0x42, 0x00, 0x00] 6 0x40000000 samsung_probe_v02 NAND_RR_NONE 3 0x0,
   fixed_row ''K9GAG08U0F'' [0xEC, 0xD5, 0x94, 0x76, 0x54, 0x43, 0x00, 0x00] 6 0x80000000 0x2000 0x100000 512 NAND_RR_NONE 3 0x0,
   fixed_row ''K9LBG08U0M'' [0xEC, 0xD7, 0x55, 0xB6, 0x78, 0x00, 0x00, 0x00] 5 0x100000000 0x1000 0x80000 128 NAND_RR_NONE 1 0x0,
   fixed_row ''K9GBG08U0A 20nm'' [0xEC, 0xD7, 0x94, 0x7A, 0x54, 0x43, 0x00, 0x00] 6 0x100000000 0x2000 0x100000 640 NAND_RR_SAMSUNG 3 0x10,
   fixed_row ''K9GBG08U0B'' [0xEC, 0xD7, 0x94, 0x7E, 0x64, 0x44, 0x00, 0x00] 6 0x100000000 0x2000 0x100000 1024 NAND_RR_SAMSUNG 3 0x10]"

text \<open>Hynix, MIRA and Powerflash.\<close>

definition other_rows :: "special_dev list" where
  "other_rows =
  [
   probed_row ''H27UAG8T2A'' [0xAD, 0xD5, 0x94, 0x25, 0x44, 0x41, 0x00, 0x00] 6 0x80000000 hynix_probe_v02 NAND_RR_NONE 3 0x0,
   probed_row ''H27UAG8T2B'' [0xAD, 0xD5, 0x94, 0x9A, 0x74, 0x42, 0x00, 0x00] 6 0x80000000 hynix_probe_v02 NAND_RR_NONE 3 0x0,
   probed_row ''H27UBG8T2A'' [0xAD, 0xD7, 0x94, 0x9A, 0x74, 0x42, 0x00, 0x00] 6 0x100000000 hynix_probe_v02 NAND_RR_NONE 3 0x0,
   fixed_row ''H27UBG8T2BTR 26nm'' [0xAD, 0xD7, 0x94, 0xDA, 0x74, 0xC3, 0x00, 0x00] 6 0x100000000 0x2000 0x200000 640 NAND_RR_HYNIX_BG_BDIE 3 0x10,
   fixed_row ''H27UCG8T2A'' [0xAD, 0xDE, 0x94, 0xDA, 0x74, 0xC4, 0x00, 0x00] 6 0x200000000 0x2000 0x200000 640 NAND_RR_HYNIX_CG_ADIE 3 0x10,
   fixed_row ''H27UBG8T2C'' [0xAD, 0xD7, 0x94, 0x91, 0x60, 0x44, 0x00, 0x00] 6 0x100000000 0x2000 0x200000 640 NAND_RR_HYNIX_BG_CDIE 3 0x10,
   fixed_row ''P1UAGA30AT-GCA'' [0xC8, 0xD5, 0x14, 0x29, 0x34, 0x01, 0x00, 0x00] 6 0x80000000 0x1000 0x80000 218 NAND_RR_NONE 3 0x0,
   fixed_row ''PSU8GA30AT-GIA/ASU8GA30IT-G30CA'' [0xC8, 0xD3, 0x90, 0x19, 0x34, 0x01, 0x00, 0x00] 6 0x40000000 0x1000 0x40000 218 NAND_RR_NONE 3 0x0,
   fixed_row ''PSU2GA30AT'' [0x7F, 0x7F, 0x7F, 0x7F, 0xC8, 0xDA, 0x00, 0x15] 8 0x10000000 0x800 0x20000 64 NAND_RR_NONE 3 0x0]"

definition nand_flash_special_dev :: "special_dev list" where
  "nand_flash_special_dev = micron_rows @ micron_slc_rows @ toshiba_rows @ samsung_rows @ other_rows"

lemmas special_table = nand_flash_special_dev_def micron_rows_def micron_slc_rows_def toshiba_rows_def samsung_rows_def other_rows_def

text \<open>The ids of the chips; a page size of 0 means that the sizes are in the id.\<close>

definition nand_flash_ids :: "flash_dev list" where
  "nand_flash_ids =
  [
   \<lparr>fd_name = ''NAND 16MiB 1,8V 8-bit'', fd_id = 0x33, fd_pagesize = 512, fd_chipsize = 16, fd_erasesize = 0x4000, fd_options = 0\<rparr>,
   \<lparr>fd_name = ''NAND 16MiB 3,3V 8-bit'', fd_id = 0x73, fd_pagesize = 512, fd_chipsize = 16, fd_erasesize = 0x4000, fd_options = 0\<rparr>,
   \<lparr>fd_name = ''NAND 16MiB 1,8V 16-bit'', fd_id = 0x43, fd_pagesize = 512, fd_chipsize = 16, fd_erasesize = 0x4000, fd_options = NAND_BUSWIDTH_16\<rparr>,
   \<lparr>fd_name = ''NAND 16MiB 3,3V 16-bit'', fd_id = 0x53, fd_pagesize = 512, fd_chipsize = 16, fd_erasesize = 0x4000, fd_options = NAND_BUSWIDTH_16\<rparr>,
   \<lparr>fd_name = ''NAND 32MiB 1,8V 8-bit'', fd_id = 0x35, fd_pagesize = 512, fd_chipsize = 32, fd_erasesize = 0x4000, fd_options = 0\<rparr>,
   \<lparr>fd_name = ''NAND 32MiB 3,3V 8-bit'', fd_id = 0x75, fd_pagesize = 512, fd_chipsize = 32, fd_erasesize = 0x4000, fd_options = 0\<rparr>,
   \<lparr>fd_name = ''NAND 32MiB 1,8V 16-bit'', fd_id = 0x45, fd_pagesize = 512, fd_chipsize = 32, fd_erasesize = 0x4000, fd_options = NAND_BUSWIDTH_16\<rparr>,
   \<lparr>fd_name = ''NAND 32MiB 3,3V 16-bit'', fd_id = 0x55, fd_pagesize = 512, fd_chipsize = 32, fd_erasesize = 0x4000, fd_options = NAND_BUSWIDTH_16\<rparr>,
   \<lparr>fd_name = ''NAND 64MiB 1,8V 8-bit'', fd_id = 0x36, fd_pagesize = 512, fd_chipsize = 64, fd_erasesize = 0x4000, fd_options = 0\<rparr>,
   \<lparr>fd_name = ''NAND 64MiB 3,3V 8-bit'', fd_id = 0x76, fd_pagesize = 512, fd_chipsize = 64, fd_erasesize = 0x4000, fd_options = 0\<rparr>,
   \<lparr>fd_name = ''NAND 64MiB 1,8V 16-bit'', fd_id = 0x46, fd_pagesize = 512, fd_chipsize = 64, fd_erasesize = 0x4000, fd_options = NAND_BUSWIDTH_16\<rparr>,
   \<lparr>fd_name = ''NAND 64MiB 3,3V 16-bit'', fd_id = 0x56, fd_pagesize = 512, fd_chipsize = 64, fd_erasesize = 0x4000, fd_options = NAND_BUSWIDTH_16\<rparr>,
   \<lparr>fd_name = ''NAND 128MiB 1,8V 8-bit'', fd_id = 0x78, fd_pagesize = 512, fd_chipsize = 128, fd_erasesize = 0x4000, fd_options = 0\<rparr>,
   \<lparr>fd_name = ''NAND 128MiB 1,8V 8-bit'', fd_id = 0x39, fd_pagesize = 512, fd_chipsize = 128, fd_erasesize = 0x4000, fd_options = 0\<rparr>,
   \<lparr>fd_name = ''NAND 128MiB 3,3V 8-bit'', fd_id = 0x79, fd_pagesize = 512, fd_chipsize = 128, fd_erasesize = 0x4000, fd_options = 0\<rparr>,
   \<lparr>fd_name = ''NAND 128MiB 1,8V 16-bit'', fd_id = 0x72, fd_pagesize = 512, fd_chipsize = 128, fd_erasesize = 0x4000, fd_options = NAND_BUSWIDTH_16\<rparr>,
   \<lparr>fd_name = ''NAND 128MiB 1,8V 16-bit'', fd_id = 0x49, fd_pagesize = 512, fd_chipsize = 128, fd_erasesize = 0x4000, fd_options = NAND_BUSWIDTH_16\<rparr>,
   \<lparr>fd_name = ''NAND 128MiB 3,3V 16-bit'', fd_id = 0x74, fd_pagesize = 512, fd_chipsize = 128, fd_erasesize = 0x4000, fd_options = NAND_BUSWIDTH_16\<rparr>,
   \<lparr>fd_name = ''NAND 128MiB 3,3V 16-bit'', fd_id = 0x59, fd_pagesize = 512, fd_chipsize = 128, fd_erasesize = 0x4000, fd_options = NAND_BUSWIDTH_16\<rparr>,
   \<lparr>fd_name = ''NAND 256MiB 3,3V 8-bit'', fd_id = 0x71, fd_pagesize = 512, fd_chipsize = 256, fd_erasesize = 0x4000, fd_options = 0\<rparr>,
   \<lparr>fd_name = ''NAND 64MiB 1,8V 8-bit'', fd_id = 0xa2, fd_pagesize = 0, fd_chipsize = 64, fd_erasesize = 0, fd_options = LP_OPTIONS\<rparr>,
   \<lparr>fd_name = ''NAND 64MiB 3,3V 8-bit'', fd_id = 0xf2, fd_pagesize = 0, fd_chipsize = 64, fd_erasesize = 0, fd_options = LP_OPTIONS\<rparr>,
   \<lparr>fd_name = ''NAND 64MiB 1,8V 16-bit'', fd_id = 0xb2, fd_pagesize = 0, fd_chipsize = 64, fd_erasesize = 0, fd_options = LP_OPTIONS16\<rparr>,
   \<lparr>fd_name = ''NAND 64MiB 3,3V 16-bit'', fd_id = 0xc2, fd_pagesize = 0, fd_chipsize = 64, fd_erasesize = 0, fd_options = LP_OPTIONS16\<rparr>,
   \<lparr>fd_name = ''NAND 128MiB 1,8V 8-bit'', fd_id = 0xa1, fd_pagesize = 0, fd_chipsize = 128, fd_erasesize = 0, fd_options = LP_OPTIONS\<rparr>,
   \<lparr>fd_name = ''NAND 128MiB 3,3V 8-bit'', fd_id = 0xf1, fd_pagesize = 0, fd_chipsize = 128, fd_erasesize = 0, fd_options = LP_OPTIONS\<rparr>,
   \<lparr>fd_name = ''NAND 128MiB 3,3V 8-bit'', fd_id = 0xd1, fd_pagesize = 0, fd_chipsize = 128, fd_erasesize = 0, fd_options = LP_OPTIONS\<rparr>,
   \<lparr>fd_name = ''NAND 128MiB 1,8V 16-bit'', fd_id = 0xb1, fd_pagesize = 0, fd_chipsize = 128, fd_erasesize = 0, fd_options = LP_OPTIONS16\<rparr>,
   \<lparr>fd_name = ''NAND 128MiB 3,3V 16-bit'', fd_id = 0xc1, fd_pagesize = 0, fd_chipsize = 128, fd_erasesize = 0, fd_options = LP_OPTIONS16\<rparr>,
   \<lparr>fd_name = ''NAND 256MiB 1,8V 8-bit'', fd_id = 0xaa, fd_pagesize = 0, fd_chipsize = 256, fd_erasesize = 0, fd_options = LP_OPTIONS\<rparr>,
   \<lparr>fd_name = ''NAND 256MiB 3,3V 8-bit'', fd_id = 0xda, fd_pagesize = 0, fd_chipsize = 256, fd_erasesize = 0, fd_options = LP_OPTIONS\<rparr>,
   \<lparr>fd_name = ''NAND 256MiB 1,8V 16-bit'', fd_id = 0xba, fd_pagesize = 0, fd_chipsize = 256, fd_erasesize = 0, fd_options = LP_OPTIONS16\<rparr>,
   \<lparr>fd_name = ''NAND 256MiB 3,3V 16-bit'', fd_id = 0xca, fd_pagesize = 0, fd_chipsize = 256, fd_erasesize = 0, fd_options = LP_OPTIONS16\<rparr>,
   \<lparr>fd_name = ''NAND 512MiB 1,8V 8-bit'', fd_id = 0xac, fd_pagesize = 0, fd_chipsize = 512, fd_erasesize = 0, fd_options = LP_OPTIONS\<rparr>,
   \<lparr>fd_name = ''NAND 512MiB 3,3V 8-bit'', fd_id = 0xdc, fd_pagesize = 0, fd_chipsize = 512, fd_erasesize = 0, fd_options = LP_OPTIONS\<rparr>,
   \<lparr>fd_name = ''NAND 512MiB 1,8V 16-bit'', fd_id = 0xbc, fd_pagesize = 0, fd_chipsize = 512, fd_erasesize = 0, fd_options = LP_OPTIONS16\<rparr>,
   \<lparr>fd_name = ''NAND 512MiB 3,3V 16-bit'', fd_id = 0xcc, fd_pagesize = 0, fd_chipsize = 512, fd_erasesize = 0, fd_options = LP_OPTIONS16\<rparr>,
   \<lparr>fd_name = ''NAND 1GiB 1,8V 8-bit'', fd_id = 0xa3, fd_pagesize = 0, fd_chipsize = 1024, fd_erasesize = 0, fd_options = LP_OPTIONS\<rparr>,
   \<lparr>fd_name = ''NAND 1GiB 3,3V 8-bit'', fd_id = 0xd3, fd_pagesize = 0, fd_chipsize = 1024, fd_erasesize = 0, fd_options = LP_OPTIONS\<rparr>,
   \<lparr>fd_name = ''NAND 1GiB 1,8V 16-bit'', fd_id = 0xb3, fd_pagesize = 0, fd_chipsize = 1024, fd_erasesize = 0, fd_options = LP_OPTIONS16\<rparr>,
   \<lparr>fd_name = ''NAND 1GiB 3,3V 16-bit'', fd_id = 0xc3, fd_pagesize = 0, fd_chipsize = 1024, fd_erasesize = 0, fd_options = LP_OPTIONS16\<rparr>,
   \<lparr>fd_name = ''NAND 2GiB 1,8V 8-bit'', fd_id = 0xa5, fd_pagesize = 0, fd_chipsize = 2048, fd_erasesize = 0, fd_options = LP_OPTIONS\<rparr>,
   \<lparr>fd_name = ''NAND 2GiB 3,3V 8-bit'', fd_id = 0xd5, fd_pagesize = 0, fd_chipsize = 2048, fd_erasesize = 0, fd_options = LP_OPTIONS\<rparr>,
   \<lparr>fd_name = ''NAND 2GiB 1,8V 16-bit'', fd_id = 0xb5, fd_pagesize = 0, fd_chipsize = 2048, fd_erasesize = 0, fd_options = LP_OPTIONS16\<rparr>,
   \<lparr>fd_name = ''NAND 2GiB 3,3V 16-bit'', fd_id = 0xc5, fd_pagesize = 0, fd_chipsize = 2048, fd_erasesize = 0, fd_options = LP_OPTIONS16\<rparr>,
   \<lparr>fd_name = ''AND 128MiB 3,3V 8-bit'', fd_id = 0x01, fd_pagesize = 2048, fd_chipsize = 128, fd_erasesize = 0x4000, fd_options = NAND_IS_AND OR NAND_NO_AUTOINCR OR NAND_NO_READRDY OR NAND_4PAGE_ARRAY OR BBT_AUTO_REFRESH\<rparr>]"

section \<open>The table of special chips\<close>

text \<open>\<open>nandtag\<close>, which the loader passes to the kernel.\<close>

record nand_tag =
  tag_id :: "u8 list"
  tag_length :: nat
  tag_chipsize :: u64
  tag_pagesize :: u32
  tag_erasesize :: u32
  tag_oobsize :: u32
  tag_options :: u32
  tag_name :: string

text \<open>\<open>memcmp\<close> on the bytes that count: the first row that agrees with the id.\<close>

definition special_row :: "u8 list \<Rightarrow> special_dev option" where
  "special_row ids = List.find (\<lambda>r. take (spl_len r) ids = take (spl_len r) (spl_id r)) nand_flash_special_dev"

definition apply_row :: "special_dev \<Rightarrow> nand_dev \<Rightarrow> nand_dev" where
  "apply_row r dev =
     (let dev = (case spl_probe r of
                   Some probe \<Rightarrow> probe dev
                 | None \<Rightarrow> dev\<lparr>dev_type := (dev_type dev)\<lparr>fd_options := spl_options r, fd_pagesize := spl_pagesize r,
                                                          fd_erasesize := spl_erasesize r\<rparr>,
                               dev_oobsize := uint (spl_oobsize r)\<rparr>)
      in dev\<lparr>dev_rr_type := spl_rr_type r, dev_flags := spl_flags r,
             dev_type := (dev_type dev)\<lparr>fd_id := uint (dev_ids dev ! 1), fd_chipsize := ucast (drop_bit 20 (spl_chipsize r)),
                                        fd_name := spl_name r\<rparr>\<rparr>)"

definition row_tag :: "special_dev \<Rightarrow> nand_dev \<Rightarrow> nand_tag" where
  "row_tag r dev =
     \<lparr>tag_id = dev_ids dev, tag_length = spl_len r, tag_chipsize = spl_chipsize r, tag_pagesize = spl_pagesize r,
      tag_erasesize = spl_erasesize r, tag_oobsize = spl_oobsize r, tag_options = fd_options (dev_type dev),
      tag_name = take 15 (fd_name (dev_type dev))\<rparr>"

text \<open>\<open>read_byte\<close>, some times.\<close>

primrec read_ids :: "nat \<Rightarrow> ('h, 'z) nand_hw_scheme \<Rightarrow> 'h nand_st \<Rightarrow> u8 list \<times> 'h nand_st" where
  "read_ids 0 d s = ([], s)"
| "read_ids (Suc n) d s = (let (b, s) = read_byte d s; (bs, s) = read_ids n d s in (b # bs, s))"

text \<open>
  The first two bytes of the id are in \<open>dev\<close>; the others are read here.  A chip that is not in the table is asked for its
  id once more, so that the next byte read is the third again.
\<close>

definition nand_get_special_flash_type ::
  "('h, 'z) nand_hw_scheme \<Rightarrow> nand_dev \<Rightarrow> 'h nand_st \<Rightarrow> nand_tag option \<times> nand_dev \<times> 'h nand_st" where
  "nand_get_special_flash_type d dev s =
     (let (bs, s) = read_ids 6 d s; dev = dev\<lparr>dev_ids := take 2 (dev_ids dev) @ bs\<rparr>
      in case special_row (dev_ids dev) of
           Some r \<Rightarrow> (let dev = apply_row r dev in (Some (row_tag r dev), dev, s))
         | None \<Rightarrow> (None, dev\<lparr>dev_rr_type := NAND_RR_NONE\<rparr>, snd (read_ids 2 d (cmdfunc d NAND_CMD_READID 0 (- 1) s))))"

section \<open>The type of the chip\<close>

text \<open>\<open>nand_info_ex\<close>, for the rest of the loader.  It is filled once.\<close>

record mtd_info_ex =
  ex_chipsize :: u64
  ex_erasesize :: u32
  ex_pagesize :: u32
  ex_numchips :: nat
  ex_oobsize :: u32
  ex_oobused :: u32
  ex_ecctype :: int
  ex_ids :: "u8 list"
  ex_name :: string
  ex_hostver :: int

text \<open>
  The hooks of the scan: whether the table of special chips is registered (\<open>nand_get_spl_flash_type\<close>), the controller's
  \<open>nand_param_adjust\<close> (its return value, not 0 for an error; \<open>None\<close>: it does not return), and \<open>nand_command_lp\<close> for a
  chip whose \<open>cmdfunc\<close> is the default one.
\<close>

record 'h ident_env =
  spl_registered :: bool
  param_adjust :: "('h nand_hw \<Rightarrow> nand_dev \<Rightarrow> 'h nand_st \<Rightarrow> (int \<times> 'h nand_hw \<times> nand_dev \<times> 'h nand_st) option) option"
  command_lp :: "('h nand_hw \<Rightarrow> int \<Rightarrow> int \<Rightarrow> int \<Rightarrow> 'h nand_st \<Rightarrow> 'h nand_st) option"

text \<open>What is known when the type is found, and what the scan leaves behind beside the state.\<close>

record 'h found =
  fo_type :: flash_dev
  fo_busw :: bool
  fo_cellinfo :: "u8 option"
  fo_tag :: "nand_tag option"
  fo_hw :: "'h nand_hw"
  fo_dev :: nand_dev

definition chip_bytes :: "flash_dev \<Rightarrow> u64" where
  "chip_bytes ty = push_bit 20 (ucast (fd_chipsize ty))"

text \<open>
  The sizes of the chip, before the controller has its say: from the table of special chips, else from the row of the device id
  and, for the newer chips, from the bytes that follow in the id.
\<close>

definition find_type ::
  "'h ident_env \<Rightarrow> u8 \<Rightarrow> u8 \<Rightarrow> 'h nand_hw \<Rightarrow> nand_dev \<Rightarrow> 'h nand_st \<Rightarrow> 'h found option \<times> 'h nand_st" where
  "find_type e maf dev_id d dev s =
     (let dev = dev\<lparr>dev_ids := [maf, dev_id] @ drop 2 (dev_ids dev)\<rparr>;
          (tag, dev, s) = (if spl_registered e then nand_get_special_flash_type d dev s else (None, dev, s))
      in if tag \<noteq> None
         then let ty = dev_type dev
              in (Some \<lparr>fo_type = ty, fo_busw = fd_options ty AND NAND_BUSWIDTH_16 \<noteq> 0, fo_cellinfo = None, fo_tag = tag,
                        fo_hw = d\<lparr>chipsize := chip_bytes ty, erasesize := fd_erasesize ty, writesize := fd_pagesize ty,
                                  oobsize := word_of_int (dev_oobsize dev)\<rparr>, fo_dev = dev\<rparr>, s)
         else
           case List.find (\<lambda>ty. fd_id ty = uint dev_id) nand_flash_ids of
             None \<Rightarrow> (None, s)
           | Some ty \<Rightarrow>
               if fd_pagesize ty = 0
               then let (cell, s) = read_byte d s; (extid, s) = read_byte d s; (ws, oob, es, wide) = decode_extid extid
                    in (Some \<lparr>fo_type = ty, fo_busw = wide, fo_cellinfo = Some cell, fo_tag = None,
                             fo_hw = d\<lparr>chipsize := chip_bytes ty, erasesize := es, writesize := ws, oobsize := oob\<rparr>,
                             fo_dev = dev\<lparr>dev_oobsize := uint oob\<rparr>\<rparr>, s)
               else (Some \<lparr>fo_type = ty, fo_busw = fd_options ty AND NAND_BUSWIDTH_16 \<noteq> 0, fo_cellinfo = None, fo_tag = None,
                          fo_hw = d\<lparr>chipsize := chip_bytes ty, erasesize := fd_erasesize ty, writesize := fd_pagesize ty,
                                    oobsize := fd_pagesize ty div 32\<rparr>,
                          fo_dev = dev\<lparr>dev_oobsize := uint (fd_pagesize ty div 32)\<rparr>\<rparr>, s))"

text \<open>The chip's options from the table; the Samsung ones stay for a Samsung chip or one with its sizes in the table.\<close>

definition ident_options :: "u8 \<Rightarrow> flash_dev \<Rightarrow> u32 \<Rightarrow> u32" where
  "ident_options maf ty options =
     (let options = (options AND NOT NAND_CHIPOPTIONS_MSK) OR (fd_options ty AND NAND_CHIPOPTIONS_MSK) OR NAND_NO_AUTOINCR
      in if maf \<noteq> 0xec \<and> fd_pagesize ty = 0 then options AND NOT NAND_SAMSUNG_LP_OPTIONS else options)"

definition info_ex :: "string \<Rightarrow> 'h nand_hw \<Rightarrow> nand_dev \<Rightarrow> mtd_info_ex" where
  "info_ex name d dev =
     \<lparr>ex_chipsize = chipsize d, ex_erasesize = erasesize d, ex_pagesize = writesize d, ex_numchips = 1, ex_oobsize = oobsize d,
      ex_oobused = oobused d, ex_ecctype = dev_ecctype dev, ex_ids = dev_ids dev, ex_name = take 15 name,
      ex_hostver = dev_hostver dev\<rparr>"

text \<open>
  What follows when the type is found: the controller is set up for the chip, then the chip.  \<open>name\<close> is \<open>mtd->name\<close>, which
  the type gives when the board does not, \<open>ex\<close> is \<open>nand_info_ex\<close>.
\<close>

definition set_up_chip ::
  "'h ident_env \<Rightarrow> string option \<Rightarrow> mtd_info_ex option \<Rightarrow> u8 \<Rightarrow> 'h found \<Rightarrow> 'h nand_st \<Rightarrow>
     ((int + u8 \<times> 'h found \<times> mtd_info_ex) \<times> 'h nand_st) option" where
  "set_up_chip e name ex maf f s =
     do {
       (err, d, dev, s) \<leftarrow> (case param_adjust e of
                              None \<Rightarrow> Some (0, fo_hw f, fo_dev f, s)
                            | Some adjust \<Rightarrow> adjust (fo_hw f) (fo_dev f) s);
       (if err \<noteq> 0 then Some (Inl (- ENODEV), s)
        else if fo_busw f \<noteq> (chip_options s AND NAND_BUSWIDTH_16 \<noteq> 0) then Some (Inl (- EINVAL), s)
        else
          let info = (case ex of Some x \<Rightarrow> x
                      | None \<Rightarrow> info_ex (case name of Some n \<Rightarrow> n | None \<Rightarrow> fd_name (fo_type f)) d dev);
              d = scan_geometry d;
              d = (case command_lp e of Some lp \<Rightarrow> if 512 < writesize d then d\<lparr>cmdfunc := lp d\<rparr> else d | None \<Rightarrow> d);
              s = s\<lparr>chip_options := ident_options maf (fo_type f) (chip_options s)\<rparr>
          in Some (Inr (maf, f\<lparr>fo_hw := d, fo_dev := dev\<rparr>, info), s))
     }"

definition nand_get_flash_type ::
  "'h ident_env \<Rightarrow> string option \<Rightarrow> mtd_info_ex option \<Rightarrow> 'h nand_hw \<Rightarrow> nand_dev \<Rightarrow> 'h nand_st \<Rightarrow>
     ((int + u8 \<times> 'h found \<times> mtd_info_ex) \<times> 'h nand_st) option" where
  "nand_get_flash_type e name ex d dev s =
     (let s = cmdfunc d NAND_CMD_RESET (- 1) (- 1) (select_chip d 0 s);
          (maf, s) = read_byte d (cmdfunc d NAND_CMD_READID 0 (- 1) s); (dev_id, s) = read_byte d s;
          (tmp_manf, s) = read_byte d (cmdfunc d NAND_CMD_READID 0 (- 1) s); (tmp_id, s) = read_byte d s
      in if tmp_manf \<noteq> maf \<or> tmp_id \<noteq> dev_id then Some (Inl (- ENODEV), s)
         else
           case find_type e maf dev_id d dev s of
             (None, s) \<Rightarrow> Some (Inl (- ENODEV), s)
           | (Some f, s) \<Rightarrow> set_up_chip e name ex maf f s)"

text \<open>The chips from the \<open>i\<close>-th on, as long as they are of the same type; \<open>left\<close> of them are allowed for.\<close>

primrec count_chips :: "nat \<Rightarrow> nat \<Rightarrow> u8 \<Rightarrow> int \<Rightarrow> ('h, 'z) nand_hw_scheme \<Rightarrow> 'h nand_st \<Rightarrow> nat \<times> 'h nand_st" where
  "count_chips 0 i maf tid d s = (i, s)"
| "count_chips (Suc left) i maf tid d s =
       (let s = cmdfunc d NAND_CMD_READID 0 (- 1) (cmdfunc d NAND_CMD_RESET (- 1) (- 1) (select_chip d (int i) s));
            (b, s) = read_byte d s
        in if b \<noteq> maf then (i, s)
           else let (b', s) = read_byte d s
                in if uint b' \<noteq> tid then (i, s) else count_chips left (Suc i) maf tid d s)"

text \<open>\<open>nand_scan_ident\<close>: the chips found, the device's sizes and the state, or the error.\<close>

definition nand_scan_ident ::
  "'h ident_env \<Rightarrow> nat \<Rightarrow> string option \<Rightarrow> mtd_info_ex option \<Rightarrow> 'h nand_hw \<Rightarrow> nand_dev \<Rightarrow> 'h nand_st \<Rightarrow>
     ((int + 'h found \<times> mtd_info_ex) \<times> 'h nand_st) option" where
  "nand_scan_ident e maxchips name ex d dev s =
     do {
       (r, s) \<leftarrow> nand_get_flash_type e name ex d dev s;
       (case r of
          Inl err \<Rightarrow> Some (Inl err, select_chip d (- 1) s)
        | Inr (maf, f, info) \<Rightarrow>
            let d = fo_hw f; (n, s) = count_chips (maxchips - 1) 1 maf (fd_id (fo_type f)) d s;
                d = d\<lparr>numchips := n, mtd_size := of_nat n * chipsize d\<rparr>
            in Some (Inr (f\<lparr>fo_hw := d\<rparr>, info\<lparr>ex_numchips := n\<rparr>), s))
     }"

text \<open>\<open>nand_scan\<close>: identify, then build the device.  \<open>cell_mlc\<close> is the test of bit 2 or 3 of \<open>cellinfo\<close>.\<close>

definition nand_scan ::
  "scan_mem \<Rightarrow> ecclayout option \<Rightarrow> 'h ident_env \<Rightarrow> nat \<Rightarrow> string option \<Rightarrow> mtd_info_ex option \<Rightarrow> 'h nand_hw \<Rightarrow> nand_dev \<Rightarrow>
     'h nand_st \<Rightarrow> (int + 'h mtd_info \<times> 'h nand_st) option" where
  "nand_scan sm layout e maxchips name ex d dev s =
     do {
       (r, s) \<leftarrow> nand_scan_ident e maxchips name ex d dev s;
       (case r of
          Inl err \<Rightarrow> Some (Inl err)
        | Inr (f, info) \<Rightarrow>
            nand_scan_tail sm layout (case fo_cellinfo f of None \<Rightarrow> False | Some c \<Rightarrow> c AND 0x0C \<noteq> 0) (fo_hw f) s)
     }"

end
