(* ===== verification/NandLogif.thy ===== *)
theory NandLogif
  imports NandUtil
begin

text \<open>
  The logical NAND of \<open>common/nand_logif.c\<close>: a partition in which the bad blocks are
  stepped over, so that the client's offsets count good blocks only.  The handle keeps a cache of the bad
  blocks found so far, one bit per block, filled from the front as far as it is asked for.

  The handle is passed along with the state.  The results of \<open>malloc\<close> and the address of the static page
  buffer are parameters; the addresses of the handle and its cache are not modelled.
\<close>

section \<open>The handle and its cache of bad blocks\<close>

record bbt_cache_t =
  bc_length :: u64
  bc_shift :: nat
  bc_bbt :: "u8 list"

record nand_logic_t =
  nl_address :: u64
  nl_length :: u64
  nl_erasesize :: u64
  nl_cache :: bbt_cache_t

definition BLOCK_ALIGN :: "nand_logic_t \<Rightarrow> u64 \<Rightarrow> u64" where
  "BLOCK_ALIGN nl x = x AND NOT (nl_erasesize nl - 1)"

definition BLOCK_ALIGN_ROUND_OUT :: "nand_logic_t \<Rightarrow> u64 \<Rightarrow> u64" where
  "BLOCK_ALIGN_ROUND_OUT nl x = (x + nl_erasesize nl - 1) AND NOT (nl_erasesize nl - 1)"

definition is_aligned_to :: "u64 \<Rightarrow> u64 \<Rightarrow> bool" where
  "is_aligned_to sz x \<longleftrightarrow> x AND (sz - 1) = 0"

text \<open>The number of trailing zero bits of the erase size.\<close>

partial_function (option) erase_shift_loop :: "u32 \<Rightarrow> nat \<Rightarrow> nat option" where
  "erase_shift_loop esz shift =
     (if esz AND 0x01 = 0 then erase_shift_loop (drop_bit 1 esz) (shift + 1) else Some shift)"

text \<open>\<open>mem\<close> tells whether \<open>malloc\<close> succeeds; \<open>None\<close> in the result is the error \<open>-1\<close>.\<close>

definition bbt_cache_init :: "bool \<Rightarrow> u64 \<Rightarrow> u64 \<Rightarrow> bbt_cache_t option option" where
  "bbt_cache_init mem len esz =
     do {
       shift \<leftarrow> erase_shift_loop (ucast esz) 0;
       (let bytes = ucast (drop_bit 3 (drop_bit shift len + 7)) :: u32
        in Some (if \<not> mem then None
                 else Some \<lparr>bc_length = 0, bc_shift = shift, bc_bbt = replicate (unat bytes) 0\<rparr>))
     }"

text \<open>\<open>BBT_POS\<close>: the index of the byte and the bit in it.\<close>

definition BBT_POS :: "bbt_cache_t \<Rightarrow> u64 \<Rightarrow> nat \<times> u8" where
  "BBT_POS c off = (let idx = unat (ucast (drop_bit (bc_shift c) off) :: u32) in (idx div 8, push_bit (idx mod 8) 1))"

definition cache_set :: "bbt_cache_t \<Rightarrow> u64 \<Rightarrow> bbt_cache_t" where
  "cache_set c off = (let (pos, bit) = BBT_POS c off in c\<lparr>bc_bbt := (bc_bbt c)[pos := bc_bbt c ! pos OR bit]\<rparr>)"

definition cache_get :: "bbt_cache_t \<Rightarrow> u64 \<Rightarrow> bool" where
  "cache_get c off = (let (pos, bit) = BBT_POS c off in bc_bbt c ! pos AND bit \<noteq> 0)"

partial_function (option) cache_fill ::
  "'h mtd_info \<Rightarrow> u64 \<Rightarrow> nand_logic_t \<Rightarrow> 'h nand_st \<Rightarrow> (nand_logic_t \<times> 'h nand_st) option" where
  "cache_fill m off_by_ptn nl s =
     (if \<not> bc_length (nl_cache nl) \<le> off_by_ptn then Some (nl, s)
      else do {
        (bad, s) \<leftarrow> nand_block_isbad m (bc_length (nl_cache nl) + nl_address nl) s;
        (let c = (if bad \<noteq> 0 then cache_set (nl_cache nl) (bc_length (nl_cache nl)) else nl_cache nl);
             c = c\<lparr>bc_length := bc_length c + nl_erasesize nl\<rparr>
         in cache_fill m off_by_ptn (nl\<lparr>nl_cache := c\<rparr>) s)
      })"

definition bbt_cache_isbad_block ::
  "'h mtd_info \<Rightarrow> u64 \<Rightarrow> nand_logic_t \<Rightarrow> 'h nand_st \<Rightarrow> (bool \<times> nand_logic_t \<times> 'h nand_st) option" where
  "bbt_cache_isbad_block m offset nl s =
     (let off_by_ptn = offset - nl_address nl in
      do {
        (nl, s) \<leftarrow> cache_fill m off_by_ptn nl s;
        Some (cache_get (nl_cache nl) off_by_ptn, nl, s)
      })"

definition bbt_cache_markbad_block ::
  "'h mtd_info \<Rightarrow> u64 \<Rightarrow> nand_logic_t \<Rightarrow> 'h nand_st \<Rightarrow> (int \<times> nand_logic_t \<times> 'h nand_st) option" where
  "bbt_cache_markbad_block m offset nl s =
     (let nl = nl\<lparr>nl_cache := cache_set (nl_cache nl) (offset - nl_address nl)\<rparr> in
      do {
        markbad \<leftarrow> mtd_block_markbad m;
        (ret, s) \<leftarrow> markbad offset s;
        Some (ret, nl, s)
      })"

section \<open>Logical and physical lengths\<close>

partial_function (option) logic_to_phy_loop ::
  "'h mtd_info \<Rightarrow> u64 \<Rightarrow> u64 \<Rightarrow> u64 \<Rightarrow> u64 \<Rightarrow> nand_logic_t \<Rightarrow> 'h nand_st \<Rightarrow> ((u64 \<times> u64) \<times> nand_logic_t \<times> 'h nand_st) option" where
  "logic_to_phy_loop m logiclength offset len_incl_bad len_excl_bad nl s =
     (if \<not> len_excl_bad < logiclength then Some ((len_incl_bad, len_excl_bad), nl, s)
      else do {
        (bad, nl, s) \<leftarrow> bbt_cache_isbad_block m offset nl s;
        (let excl = (if bad then len_excl_bad else len_excl_bad + nl_erasesize nl);
             incl = len_incl_bad + nl_erasesize nl;
             offset = offset + nl_erasesize nl
         in if nl_address nl + nl_length nl \<le> offset then Some ((incl, excl), nl, s)
            else logic_to_phy_loop m logiclength offset incl excl nl s)
      })"

definition logic_to_phylength ::
  "'h mtd_info \<Rightarrow> u64 \<Rightarrow> nand_logic_t \<Rightarrow> 'h nand_st \<Rightarrow> ((u64 \<times> bool) \<times> nand_logic_t \<times> 'h nand_st) option" where
  "logic_to_phylength m logiclength nl s =
     do {
       ((incl, excl), nl, s) \<leftarrow> logic_to_phy_loop m logiclength (nl_address nl) 0 0 nl s;
       Some ((incl, excl < logiclength), nl, s)
     }"

section \<open>Opening\<close>

text \<open>
  \<open>dev\<close> tells that a current device exists, \<open>mem\<close> that the handle, \<open>cmem\<close> that the cache can be
  allocated.  The inner option is the handle or \<open>NULL\<close>.
\<close>

definition nand_logic_open ::
  "bool \<Rightarrow> bool \<Rightarrow> bool \<Rightarrow> 'a mtd_geom_scheme \<Rightarrow> u64 \<Rightarrow> u64 \<Rightarrow> nand_logic_t option option" where
  "nand_logic_open dev mem cmem m address len =
     (if \<not> dev then Some None
      else if \<not> is_aligned_to (ucast (erasesize m)) address \<or> \<not> is_aligned_to (ucast (erasesize m)) len then Some None
      else if mtd_size m < address \<or> mtd_size m < len \<or> mtd_size m < address + len then Some None
      else if \<not> mem then Some None
      else do {
        c \<leftarrow> bbt_cache_init cmem len (ucast (erasesize m));
        Some (map_option (\<lambda>c. \<lparr>nl_address = address, nl_length = len, nl_erasesize = ucast (erasesize m), nl_cache = c\<rparr>) c)
      })"

section \<open>Erasing\<close>

partial_function (option) logic_erase_loop ::
  "'h mtd_info \<Rightarrow> erase_info \<Rightarrow> u64 \<Rightarrow> u64 \<Rightarrow> nand_logic_t \<Rightarrow> 'h nand_st \<Rightarrow> (int \<times> nand_logic_t \<times> 'h nand_st) option" where
  "logic_erase_loop m erase n totalerase nl s =
     (if n = 0 then Some (sint totalerase, nl, s)
      else if nl_address nl + nl_length nl \<le> erase_addr erase then Some (sint totalerase, nl, s)
      else
        let next = (\<lambda>e. e\<lparr>erase_addr := erase_addr e + ucast (erasesize m)\<rparr>) in
        do {
          (ret, s) \<leftarrow> mtd_block_isbad m (erase_addr erase) s;
          (if 0 < ret then logic_erase_loop m (next erase) n totalerase nl s
           else if ret < 0 then Some (- 1, nl, s)
           else do {
             ((ret, erase), s) \<leftarrow> mtd_erase m erase s;
             (if ret \<noteq> 0 then
                (if mtd_block_markbad m \<noteq> None \<and> ret = - EIO then do {
                   (ret, nl, s) \<leftarrow> bbt_cache_markbad_block m (erase_addr erase) nl s;
                   (if ret < 0 then Some (- 1, nl, s) else logic_erase_loop m (next erase) n totalerase nl s)
                 } else logic_erase_loop m (next erase) n totalerase nl s)
              else logic_erase_loop m (next erase) (n - ucast (erasesize m)) (totalerase + ucast (erasesize m)) nl s)
           })
        })"

definition nand_logic_erase ::
  "'h mtd_info \<Rightarrow> u64 \<Rightarrow> u64 \<Rightarrow> nand_logic_t \<Rightarrow> 'h nand_st \<Rightarrow> (int \<times> nand_logic_t \<times> 'h nand_st) option" where
  "nand_logic_erase m offset n nl s =
     (if n = 0 then Some (- 1, nl, s)
      else if \<not> is_aligned_to (ucast (erasesize m)) offset \<or> \<not> is_aligned_to (ucast (erasesize m)) n
      then Some (- 1, nl, s)
      else if nl_length nl < offset then Some (- 1, nl, s)
      else do {
        ((phylength, truncate), nl, s) \<leftarrow> logic_to_phylength m offset nl s;
        (if truncate then Some (- 1, nl, s)
         else logic_erase_loop m \<lparr>erase_addr = nl_address nl + phylength, erase_len = ucast (erasesize m),
                erase_fail_addr = 0, erase_state = MTD_ERASE_PENDING, erase_scrub = False\<rparr>
                (if nl_length nl < offset + n then nl_length nl - offset else n) 0 nl s)
      })"

section \<open>Writing\<close>

text \<open>\<open>find_next_block\<close>: the next good block after \<open>newaddr\<close>, \<open>None\<close> inside when the partition ends.\<close>

partial_function (option) next_good_block ::
  "'h mtd_info \<Rightarrow> u64 \<Rightarrow> nand_logic_t \<Rightarrow> 'h nand_st \<Rightarrow> (u64 option \<times> nand_logic_t \<times> 'h nand_st) option" where
  "next_good_block m newaddr nl s =
     (let newaddr = newaddr + ucast (erasesize m) in
      if nl_address nl + nl_length nl \<le> newaddr then Some (None, nl, s)
      else do {
        (bad, nl, s) \<leftarrow> bbt_cache_isbad_block m newaddr nl s;
        (if bad then next_good_block m newaddr nl s else Some (Some newaddr, nl, s))
      })"

definition page_request :: "'a mtd_geom_scheme \<Rightarrow> nat \<Rightarrow> u32 \<Rightarrow> oob_ops" where
  "page_request m buf ooblen =
     oob_ops_zero\<lparr>ops_datbuf := Some buf, ops_oobbuf := Some (buf + unat (writesize m)),
       ops_len := writesize m, ops_ooblen := ooblen, ops_mode := MTD_OOB_RAW\<rparr>"

text \<open>
  The pages of the bad block are copied one by one: \<open>Inl (-1)\<close> is a page that cannot be read, \<open>Inr (Inl a)\<close>
  a failed write at \<open>a\<close>, \<open>Inr (Inr a)\<close> the end, with the address after the last page written.
\<close>

partial_function (option) move_pages ::
  "'h mtd_info \<Rightarrow> nat \<Rightarrow> bool \<Rightarrow> u64 \<Rightarrow> u64 \<Rightarrow> u32 \<Rightarrow> 'h nand_st \<Rightarrow> ((int + u64 + u64) \<times> 'h nand_st) option" where
  "move_pages m dbuf withoob badaddr newaddr move_length s =
     do {
       ((ret, ops), s) \<leftarrow> mtd_read_oob m badaddr (page_request m dbuf (oobsize m)) s;
       (if ret < 0 then Some (Inl (- 1), s)
        else do {
          (ret, s) \<leftarrow>
            (if withoob then
               let s = s\<lparr>ram := nand_fill_ecc m (dbuf + unat (writesize m)) (ops_ooblen ops) (ram s)\<rparr>
               in do { ((ret, _), s) \<leftarrow> mtd_write_oob m newaddr ops s; Some (ret, s) }
             else do { ((ret, _), s) \<leftarrow> nand_write m newaddr (writesize m) dbuf s; Some (ret, s) });
          (if ret < 0 then Some (Inr (Inl newaddr), s)
           else let move_length = move_length - writesize m; newaddr = newaddr + ucast (writesize m) in
             if move_length = 0 then Some (Inr (Inr newaddr), s)
             else move_pages m dbuf withoob (badaddr + ucast (writesize m)) newaddr move_length s)
        })
     }"

partial_function (option) move_loop ::
  "'h mtd_info \<Rightarrow> nat \<Rightarrow> bool \<Rightarrow> u64 \<Rightarrow> u64 \<Rightarrow> nand_logic_t \<Rightarrow> 'h nand_st \<Rightarrow> ((int \<times> u64) \<times> nand_logic_t \<times> 'h nand_st) option" where
  "move_loop m dbuf withoob phyaddr_org badaddr nl s =
     do {
       (new, nl, s) \<leftarrow> next_good_block m (BLOCK_ALIGN nl badaddr) nl s;
       (case new of
          None \<Rightarrow> Some ((- 1, phyaddr_org), nl, s)
        | Some newaddr \<Rightarrow> do {
            (r, s) \<leftarrow> move_pages m dbuf withoob (BLOCK_ALIGN nl phyaddr_org) newaddr
               (ucast phyaddr_org AND (ucast (nl_erasesize nl) - 1)) s;
            (case r of
               Inl ret \<Rightarrow> Some ((ret, phyaddr_org), nl, s)
             | Inr (Inr newaddr) \<Rightarrow> Some ((0, newaddr), nl, s)
             | Inr (Inl newaddr) \<Rightarrow>
                 let badaddr = BLOCK_ALIGN nl newaddr in
                 do {
                   (ret, nl, s) \<leftarrow> bbt_cache_markbad_block m badaddr nl s;
                   (if ret \<noteq> 0 then Some ((- 1, phyaddr_org), nl, s)
                    else move_loop m dbuf withoob phyaddr_org badaddr nl s)
                 })
          })
     }"

text \<open>The status and the new value of \<open>*phyaddress\<close>.\<close>

definition move_data ::
  "'h mtd_info \<Rightarrow> nat \<Rightarrow> bool \<Rightarrow> u64 \<Rightarrow> nand_logic_t \<Rightarrow> 'h nand_st \<Rightarrow> ((int \<times> u64) \<times> nand_logic_t \<times> 'h nand_st) option" where
  "move_data m dbuf withoob phyaddress nl s =
     (if ucast phyaddress AND (ucast (nl_erasesize nl) - 1 :: u32) = 0
      then Some ((0, phyaddress + nl_erasesize nl), nl, s)
      else move_loop m dbuf withoob phyaddress phyaddress nl s)"

text \<open>One page; with spare bytes the address is passed as an \<open>int\<close>.\<close>

definition logic_write_page ::
  "'h mtd_info \<Rightarrow> bool \<Rightarrow> u64 \<Rightarrow> nat \<Rightarrow> 'h nand_st \<Rightarrow> ((int \<times> nat) \<times> 'h nand_st) option" where
  "logic_write_page m withoob phyaddress buf s =
     (if withoob then do {
        ((ret, ops), s) \<leftarrow> mtd_write_oob m (scast (ucast phyaddress :: u32)) (page_request m buf (oobused m)) s;
        Some ((ret, unat (ops_len ops + ops_ooblen ops)), s)
      } else do {
        ((ret, _), s) \<leftarrow> nand_write m phyaddress (writesize m) buf s;
        Some ((ret, unat (writesize m)), s)
      })"

text \<open>
  The pages of one block.  \<open>Inl\<close> leaves the function; \<open>Inr\<close> holds the new address, the
  length left and the position in the buffer.
\<close>

partial_function (option) logic_write_block ::
  "'h mtd_info \<Rightarrow> nat \<Rightarrow> bool \<Rightarrow> u32 \<Rightarrow> u64 \<Rightarrow> u32 \<Rightarrow> nat \<Rightarrow> nand_logic_t \<Rightarrow> 'h nand_st \<Rightarrow>
     ((int + u64 \<times> u32 \<times> nat) \<times> nand_logic_t \<times> 'h nand_st) option" where
  "logic_write_block m dbuf withoob write_length phyaddress n buf nl s =
     (if write_length = 0 then Some (Inr (phyaddress, n, buf), nl, s)
      else do {
        ((ret, step), s) \<leftarrow> logic_write_page m withoob phyaddress buf s;
        (if ret < 0 then
           let badaddr = BLOCK_ALIGN nl phyaddress in
           do {
             ((ret, phyaddress), nl, s) \<leftarrow> move_data m dbuf withoob phyaddress nl s;
             (if ret \<noteq> 0 then Some (Inl ret, nl, s)
              else do {
                (ret, nl, s) \<leftarrow> bbt_cache_markbad_block m badaddr nl s;
                (if ret \<noteq> 0 then Some (Inl (- 1), nl, s)
                 else logic_write_block m dbuf withoob write_length phyaddress n buf nl s)
              })
           }
         else logic_write_block m dbuf withoob (write_length - writesize m) (phyaddress + ucast (writesize m))
                (n - writesize m) (buf + step) nl s)
      })"

partial_function (option) logic_write_loop ::
  "'h mtd_info \<Rightarrow> nat \<Rightarrow> bool \<Rightarrow> int \<Rightarrow> u64 \<Rightarrow> u32 \<Rightarrow> nat \<Rightarrow> nand_logic_t \<Rightarrow> 'h nand_st \<Rightarrow> (int \<times> nand_logic_t \<times> 'h nand_st) option" where
  "logic_write_loop m dbuf withoob retlen phyaddress n buf nl s =
     (if n = 0 then Some (retlen, nl, s)
      else if nl_address nl + nl_length nl \<le> phyaddress then Some (- 1, nl, s)
      else do {
        (bad, nl, s) \<leftarrow> bbt_cache_isbad_block m (BLOCK_ALIGN nl phyaddress) nl s;
        (if bad then logic_write_loop m dbuf withoob retlen (phyaddress + ucast (erasesize m)) n buf nl s
         else do {
           (r, nl, s) \<leftarrow> logic_write_block m dbuf withoob (chunk_size m phyaddress n) phyaddress n buf nl s;
           (case r of
              Inl ret \<Rightarrow> Some (ret, nl, s)
            | Inr (phyaddress, n, buf) \<Rightarrow> logic_write_loop m dbuf withoob retlen phyaddress n buf nl s)
         })
      })"

definition nand_logic_do_write ::
  "'h mtd_info \<Rightarrow> nat \<Rightarrow> u64 \<Rightarrow> u32 \<Rightarrow> nat \<Rightarrow> bool \<Rightarrow> nand_logic_t \<Rightarrow> 'h nand_st \<Rightarrow> (int \<times> nand_logic_t \<times> 'h nand_st) option" where
  "nand_logic_do_write m dbuf phyaddress n buf withoob nl s =
     logic_write_loop m dbuf withoob
       (sint (if withoob then n div writesize m * (writesize m + oobused m) else n)) phyaddress n buf nl s"

text \<open>The physical address of a logical offset whose length, rounded up to blocks, is \<open>phylength\<close>.\<close>

definition phy_address :: "'a mtd_geom_scheme \<Rightarrow> nand_logic_t \<Rightarrow> u64 \<Rightarrow> u64 \<Rightarrow> u64" where
  "phy_address m nl phylength offset =
     (if \<not> is_aligned_to (nl_erasesize nl) offset
      then phylength - ucast (erasesize m) + (offset AND (nl_erasesize nl - 1)) + nl_address nl
      else phylength + nl_address nl)"

definition nand_logic_write ::
  "'h mtd_info \<Rightarrow> nat \<Rightarrow> u64 \<Rightarrow> u32 \<Rightarrow> nat \<Rightarrow> bool \<Rightarrow> nand_logic_t \<Rightarrow> 'h nand_st \<Rightarrow> (int \<times> nand_logic_t \<times> 'h nand_st) option" where
  "nand_logic_write m dbuf offset n buf withoob nl s =
     (if n = 0 then Some (- 1, nl, s)
      else if \<not> is_aligned_to (ucast (writesize m)) offset \<or> n AND (writesize m - 1) \<noteq> 0 then Some (- 1, nl, s)
      else do {
        ((_, truncate), nl, s) \<leftarrow> logic_to_phylength m (BLOCK_ALIGN_ROUND_OUT nl (offset + ucast n)) nl s;
        (if nl_length nl < offset \<or> nl_length nl < ucast n \<or> truncate then Some (- 1, nl, s)
         else do {
           ((phylength, _), nl, s) \<leftarrow> logic_to_phylength m (BLOCK_ALIGN_ROUND_OUT nl offset) nl s;
           nand_logic_do_write m dbuf (phy_address m nl phylength offset) n buf withoob nl s
         })
      })"

section \<open>Reading\<close>

text \<open>The pages of one block with their spare bytes; the status is \<open>-1\<close> when a page cannot be read.\<close>

partial_function (option) logic_read_pages ::
  "'h mtd_info \<Rightarrow> u64 \<Rightarrow> u64 \<Rightarrow> u32 \<Rightarrow> nat \<Rightarrow> u64 \<Rightarrow> 'h nand_st \<Rightarrow> ((int + u64 \<times> u32 \<times> nat \<times> u64) \<times> 'h nand_st) option" where
  "logic_read_pages m read_length phyaddress n buf totalread s =
     (if read_length = 0 then Some (Inr (phyaddress, n, buf, totalread), s)
      else do {
        ((ret, ops), s) \<leftarrow> mtd_read_oob m phyaddress (page_request m buf (oobused m)) s;
        (if ret < 0 then Some (Inl (- 1), s)
         else logic_read_pages m (read_length - ucast (writesize m)) (phyaddress + ucast (writesize m))
                (n - writesize m) (buf + unat (writesize m + oobused m))
                (totalread + ucast (writesize m + oobused m))
                (s\<lparr>ram := nand_fill_ecc m (buf + unat (writesize m)) (ops_ooblen ops) (ram s)\<rparr>))
      })"

text \<open>\<open>return totalread\<close> from a function of type \<open>int\<close>.\<close>

definition int_of_total :: "u64 \<Rightarrow> int" where
  "int_of_total t = sint (ucast t :: u32)"

partial_function (option) logic_read_oob_loop ::
  "'h mtd_info \<Rightarrow> u64 \<Rightarrow> u32 \<Rightarrow> nat \<Rightarrow> u64 \<Rightarrow> nand_logic_t \<Rightarrow> 'h nand_st \<Rightarrow> (int \<times> nand_logic_t \<times> 'h nand_st) option" where
  "logic_read_oob_loop m phyaddress n buf totalread nl s =
     (if n = 0 then Some (int_of_total totalread, nl, s)
      else if nl_address nl + nl_length nl \<le> phyaddress then Some (int_of_total totalread, nl, s)
      else do {
        (bad, nl, s) \<leftarrow> bbt_cache_isbad_block m (BLOCK_ALIGN nl phyaddress) nl s;
        (if bad then logic_read_oob_loop m (phyaddress + ucast (erasesize m)) n buf totalread nl s
         else do {
           (r, s) \<leftarrow> logic_read_pages m (ucast (chunk_size m phyaddress n)) phyaddress n buf totalread s;
           (case r of
              Inl ret \<Rightarrow> Some (ret, nl, s)
            | Inr (phyaddress, n, buf, totalread) \<Rightarrow> logic_read_oob_loop m phyaddress n buf totalread nl s)
         })
      })"

text \<open>Without spare bytes any negative status of \<open>nand_read\<close>, \<open>-EUCLEAN\<close> too, is returned.\<close>

partial_function (option) logic_read_loop ::
  "'h mtd_info \<Rightarrow> u64 \<Rightarrow> u32 \<Rightarrow> nat \<Rightarrow> u64 \<Rightarrow> nand_logic_t \<Rightarrow> 'h nand_st \<Rightarrow> (int \<times> nand_logic_t \<times> 'h nand_st) option" where
  "logic_read_loop m phyaddress n buf totalread nl s =
     (if n = 0 then Some (int_of_total totalread, nl, s)
      else if nl_address nl + nl_length nl \<le> phyaddress then Some (int_of_total totalread, nl, s)
      else do {
        (bad, nl, s) \<leftarrow> bbt_cache_isbad_block m (BLOCK_ALIGN nl phyaddress) nl s;
        (if bad then logic_read_loop m (phyaddress + ucast (erasesize m)) n buf totalread nl s
         else do {
           ((ret, got), s) \<leftarrow> nand_read m phyaddress (chunk_size m phyaddress n) buf s;
           (if ret < 0 then Some (ret, nl, s)
            else logic_read_loop m (phyaddress + ucast got) (n - got) (buf + unat got) (totalread + ucast got) nl s)
         })
      })"

definition nand_logic_read ::
  "'h mtd_info \<Rightarrow> u64 \<Rightarrow> u32 \<Rightarrow> nat \<Rightarrow> bool \<Rightarrow> nand_logic_t \<Rightarrow> 'h nand_st \<Rightarrow> (int \<times> nand_logic_t \<times> 'h nand_st) option" where
  "nand_logic_read m offset len0 buf withoob nl s =
     (if len0 = 0 then Some (- 1, nl, s)
      else if \<not> is_aligned_to (ucast (writesize m)) offset \<or> len0 AND (writesize m - 1) \<noteq> 0 then Some (- 1, nl, s)
      else if nl_length nl \<le> offset then Some (- 1, nl, s)
      else do {
        ((phylength, truncate), nl, s) \<leftarrow> logic_to_phylength m (BLOCK_ALIGN_ROUND_OUT nl offset) nl s;
        (if truncate then Some (- 1, nl, s)
         else
           let n = (if nl_length nl < offset + ucast len0 then ucast (nl_length nl - offset) else len0);
               phyaddress = phy_address m nl phylength offset
           in if withoob then logic_read_oob_loop m phyaddress n buf 0 nl s
              else logic_read_loop m phyaddress n buf 0 nl s)
      })"

end
