(* ===== verification/CmdNand.thy ===== *)
theory CmdNand
  imports NandUtil HinfcGen
begin

text \<open>
  The \<open>nand\<close> command of \<open>common/cmd_nand.c\<close>: parsing of the arguments (with the number parsers of
  \<open>lib/vsprintf.c\<close>), the sub-commands, and the burn-in test \<open>nand ew\<close> / \<open>nand ewc\<close>, which erases a range and
  writes and compares it block by block, over and over.

  Of the console output only what a burn-in test reports is kept, as a list of events.  What the command
  reads from its surroundings (environment, keyboard, allocator) is in a record.
\<close>

section \<open>Numbers\<close>

text \<open>The character classes of \<open>lib/ctype.c\<close> on ASCII codes.\<close>

definition isdigit :: "char \<Rightarrow> bool" where
  "isdigit c \<longleftrightarrow> of_char c \<in> {48 :: nat .. 57}"

definition islower :: "char \<Rightarrow> bool" where
  "islower c \<longleftrightarrow> of_char c \<in> {97 :: nat .. 122}"

definition isxdigit :: "char \<Rightarrow> bool" where
  "isxdigit c \<longleftrightarrow> isdigit c \<or> of_char c \<in> {65 :: nat .. 70} \<or> of_char c \<in> {97 :: nat .. 102}"

text \<open>\<open>isdigit(*cp) ? *cp - '0' : (islower(*cp) ? toupper(*cp) : *cp) - 'A' + 10\<close>\<close>

definition digit_value :: "char \<Rightarrow> nat" where
  "digit_value c = (if isdigit c then of_char c - 48
                    else (if islower c then of_char c - 32 else of_char c) - 65 + 10)"

fun strtoull_loop :: "u64 \<Rightarrow> nat \<Rightarrow> string \<Rightarrow> u64 \<times> string" where
  "strtoull_loop result base [] = (result, [])"
| "strtoull_loop result base (c # cs) =
     (if isxdigit c \<and> digit_value c < base
      then strtoull_loop (result * word_of_nat base + word_of_nat (digit_value c)) base cs
      else (result, c # cs))"

text \<open>The prefix: \<open>0x\<close> before a hexadecimal digit selects base 16, a leading 0 is dropped.\<close>

fun strto_prefix :: "string \<Rightarrow> nat \<Rightarrow> string \<times> nat" where
  "strto_prefix (CHR ''0'' # cs) base =
     (case cs of
        CHR ''x'' # d # _ \<Rightarrow> if isxdigit d then (tl cs, 16) else (cs, if base = 0 then 8 else base)
      | _ \<Rightarrow> (cs, if base = 0 then 8 else base))"
| "strto_prefix cs base = (cs, if base = 0 then 10 else base)"

text \<open>The value and the rest of the string.\<close>

definition simple_strtoull :: "string \<Rightarrow> nat \<Rightarrow> u64 \<times> string" where
  "simple_strtoull cp base = (let (cp, base) = strto_prefix cp base in strtoull_loop 0 base cp)"

text \<open>The 32-bit version computes the same digits in an \<open>unsigned long\<close>.\<close>

definition simple_strtoul :: "string \<Rightarrow> nat \<Rightarrow> u32" where
  "simple_strtoul cp base = ucast (fst (simple_strtoull cp base))"

definition str2ll :: "string \<Rightarrow> bool \<times> u64" where
  "str2ll p = (let (num, rest) = simple_strtoull p 16 in (p \<noteq> [] \<and> rest = [], num))"

text \<open>The offset and the size of the arguments; \<open>None\<close> is the error \<open>-1\<close>.\<close>

definition arg_off_size :: "string list \<Rightarrow> 'a mtd_geom_scheme \<Rightarrow> (u64 \<times> u64) option" where
  "arg_off_size argv m =
     do {
       off \<leftarrow> (case argv of [] \<Rightarrow> Some 0
               | a # _ \<Rightarrow> let (ok, n) = str2ll a in if ok then Some n else None);
       sz \<leftarrow> (case argv of _ # b # _ \<Rightarrow> let (ok, n) = str2ll b in if ok then Some n else None
                | _ \<Rightarrow> Some (mtd_size m - off));
       Some (off, sz)
     }"

section \<open>The burn-in test\<close>

datatype event =
    WriteFailed int
  | ReadFailed int
  | CompareFailed u64
  | Progress u64 int
  | Rate int int

text \<open>The variables of the test that hold something when the arguments have been parsed; its flags are numbers of which only 0 is false.\<close>

record ew_locals =
  el_off :: u64
  el_size :: u64
  el_count :: int
  el_curcnt :: int
  el_compare :: bool
  el_print :: bool
  el_shown :: int
  el_bufsize :: u32
  el_ret :: int

text \<open>
  The surroundings of a command.  \<open>ce_poll k\<close> is what the keyboard holds at the \<open>k\<close>-th look at it.  \<open>ce_behind\<close> belongs to
  the compiler: what becomes of the variables when a word is stored in the four bytes behind \<open>count\<close> on the stack.
\<close>

record cmd_env =
  ce_named :: bool
  ce_marker :: nat
  ce_datbuf :: "nat option"
  ce_oobbuf :: "nat option"
  ce_getc :: string
  ce_poll :: "nat \<Rightarrow> string"
  ce_host :: host_info
  ce_behind :: "u32 \<Rightarrow> ew_locals \<Rightarrow> ew_locals"

text \<open>The percentage of the range that is done; \<open>n\<close> and the length are halved until the length fits 32 bits.\<close>

partial_function (option) scale_down :: "u64 \<Rightarrow> u64 \<Rightarrow> (u64 \<times> u64) option" where
  "scale_down n len =
     (if len AND 0xFFFFFFFF00000000 \<noteq> 0 then scale_down (drop_bit 1 n) (signed_drop_bit 1 len) else Some (n, len))"

definition ew_percent :: "'a mtd_geom_scheme \<Rightarrow> u64 \<Rightarrow> u64 \<Rightarrow> u64 \<Rightarrow> int option" where
  "ew_percent m rw_addr off sz =
     do {
       (n, len) \<leftarrow> scale_down ((rw_addr + ucast (erasesize m) - off) * 100) sz;
       Some (sint (ucast (n div ucast (ucast len :: u32)) :: u32))
     }"

text \<open>
  One block: the write, the optional read back and comparison.  The buffers are fixed memory,
  \<open>waddr\<close> and, half the buffer after it, \<open>raddr\<close>; the length of the buffer is a signed number.
\<close>

definition ew_waddr :: nat where
  "ew_waddr = 0x80900000"

definition ew_raddr :: "u32 \<Rightarrow> nat" where
  "ew_raddr bufsize =
     nat (int ew_waddr + (if sint bufsize < 0 then - (- sint bufsize div 2) else sint bufsize div 2))"

definition ew_block ::
  "'h mtd_info \<Rightarrow> nat \<Rightarrow> bool \<Rightarrow> u64 \<Rightarrow> 'h nand_st \<Rightarrow> ((int \<times> event list) \<times> 'h nand_st) option" where
  "ew_block m raddr need_compare rw_addr s =
     do {
       (ret, s) \<leftarrow> nand_write_skip_bad m rw_addr (erasesize m) ew_waddr False s;
       (let ev1 = (if ret < 0 then [WriteFailed ret] else []) in
        if need_compare then do {
          ((ret, rw_size), s) \<leftarrow> nand_read_skip_bad m rw_addr (erasesize m) raddr s;
          (let ev2 = (if ret < 0 then [ReadFailed ret] else []);
               ev3 = (if load_bytes (ram s) ew_waddr (unat rw_size) \<noteq> load_bytes (ram s) raddr (unat rw_size)
                      then [CompareFailed rw_addr] else [])
           in Some ((ret, ev1 @ ev2 @ ev3), s))
        } else Some ((ret, ev1), s))
     }"

text \<open>
  The state of the test besides the device: the last status, whether the percentage is shown and which it was last, the looks at
  the keyboard, the report.
\<close>

record ew_state =
  ew_ret :: int
  ew_print :: bool
  ew_shown :: int
  ew_polls :: nat
  ew_events :: "event list"

definition ew_report :: "int \<Rightarrow> u64 \<Rightarrow> ew_state \<Rightarrow> ew_state" where
  "ew_report percent rw_addr w =
     (if ew_print w \<and> percent \<noteq> ew_shown w
      then w\<lparr>ew_shown := percent, ew_events := ew_events w @ [Progress rw_addr percent]\<rparr> else w)"

text \<open>The loop over the blocks of the range; whether the keyboard has said \<open>stop\<close>.\<close>

partial_function (option) ew_pass ::
  "cmd_env \<Rightarrow> 'h mtd_info \<Rightarrow> nat \<Rightarrow> bool \<Rightarrow> u64 \<Rightarrow> u64 \<Rightarrow> u64 \<Rightarrow> ew_state \<Rightarrow> 'h nand_st \<Rightarrow>
     ((bool \<times> ew_state) \<times> 'h nand_st) option" where
  "ew_pass e m raddr need_compare off sz rw_addr w s =
     (if \<not> word_sless rw_addr (off + sz) then Some ((False, w), s)
      else do {
        ((ret, ev), s) \<leftarrow> ew_block m raddr need_compare rw_addr s;
        percent \<leftarrow> (if ew_print w then ew_percent m rw_addr off sz else Some 0);
        (let w = ew_report percent rw_addr (w\<lparr>ew_ret := ret, ew_events := ew_events w @ ev\<rparr>);
             key = ce_poll e (ew_polls w); w = w\<lparr>ew_polls := ew_polls w + 1\<rparr>
         in if take 4 key = ''stop'' then Some ((True, w), s)
            else ew_pass e m raddr need_compare off sz (rw_addr + ucast (erasesize m)) w s)
      })"

text \<open>\<open>while (count--)\<close>; a negative count runs until it is stopped.\<close>

partial_function (option) ew_loop ::
  "cmd_env \<Rightarrow> 'h mtd_info \<Rightarrow> nat \<Rightarrow> bool \<Rightarrow> u64 \<Rightarrow> u64 \<Rightarrow> int \<Rightarrow> int \<Rightarrow> int \<Rightarrow> ew_state \<Rightarrow> 'h nand_st \<Rightarrow>
     (ew_state \<times> 'h nand_st) option" where
  "ew_loop e m raddr need_compare off sz rounds count curcnt w s =
     (if count = 0 then Some (w, s)
      else do {
        (ret, s) \<leftarrow> nand_erase_opts m \<lparr>opt_length = sz, opt_offset = off, opt_quiet = False, opt_jffs2 = False,
                                      opt_scrub = False\<rparr> (ce_marker e) s;
        ((stopped, w), s) \<leftarrow> ew_pass e m raddr need_compare off sz off (w\<lparr>ew_ret := ret\<rparr>) s;
        ew_loop e m raddr need_compare off sz rounds (if stopped then 0 else count - 1) (curcnt + 1)
          (w\<lparr>ew_events := ew_events w @ [Rate curcnt rounds]\<rparr>) s
      })"

text \<open>
  The checks on the range, in the code's order: the first 1 MiB holds the boot loader.
\<close>

definition ew_range_ok :: "'a mtd_geom_scheme \<Rightarrow> u64 \<Rightarrow> u64 \<Rightarrow> bool" where
  "ew_range_ok m off sz \<longleftrightarrow>
     \<not> word_sless off 0x100000 \<and> \<not> mtd_size m < off + sz \<and>
     off AND ucast (erasesize m - 1) = 0 \<and> sz AND ucast (erasesize m - 1) = 0"

text \<open>
  The count of \<open>-t\<close>: \<open>str2ll\<close> stores the number as eight bytes at the address of the four of \<open>count\<close>.  The low half is the
  count, a signed number; the high half goes to what lies behind it.
\<close>

definition ew_store_count :: "cmd_env \<Rightarrow> string list \<Rightarrow> ew_locals \<Rightarrow> ew_locals" where
  "ew_store_count e argv l =
     (if 6 \<le> length argv \<and> argv ! 4 = ''-t''
      then let num = snd (str2ll (argv ! 5))
           in (ce_behind e (ucast (drop_bit 32 num)) l)\<lparr>el_count := sint (ucast num :: u32)\<rparr>
      else l)"

text \<open>The variables after the arguments; \<open>None\<close> is an error in the offset or the size.\<close>

definition ew_args :: "cmd_env \<Rightarrow> 'a mtd_geom_scheme \<Rightarrow> string list \<Rightarrow> ew_locals option" where
  "ew_args e m argv =
     map_option (\<lambda>(off, sz). ew_store_count e argv
         \<lparr>el_off = off, el_size = sz, el_count = 1, el_curcnt = 1, el_compare = (argv ! 1 = ''ewc''), el_print = True,
          el_shown = - 1, el_bufsize = erasesize m * 2, el_ret = 0\<rparr>)
       (arg_off_size (drop 2 argv) m)"

definition do_nand_ew ::
  "cmd_env \<Rightarrow> 'h mtd_info \<Rightarrow> string list \<Rightarrow> 'h nand_st \<Rightarrow> ((int \<times> event list) \<times> 'h nand_st) option" where
  "do_nand_ew e m argv s =
     (case ew_args e m argv of
        None \<Rightarrow> Some ((1, []), s)
      | Some l \<Rightarrow>
          if \<not> ew_range_ok m (el_off l) (el_size l) then Some ((1, []), s)
          else do {
            (w, s) \<leftarrow> ew_loop e m (ew_raddr (el_bufsize l)) (el_compare l) (el_off l) (el_size l) (el_count l) (el_count l) (el_curcnt l)
               \<lparr>ew_ret = el_ret l, ew_print = el_print l, ew_shown = el_shown l, ew_polls = 0, ew_events = []\<rparr>
               (s\<lparr>ram := fill_bytes (ram s) ew_waddr 0 (unat (el_bufsize l))\<rparr>);
            Some ((if ew_ret w = 0 then 0 else 1, ew_events w), s)
          })"

section \<open>The other sub-commands\<close>

text \<open>\<open>nand bad\<close>: the offsets of the bad blocks.\<close>

partial_function (option) nand_bad_loop :: "'h mtd_info \<Rightarrow> u64 \<Rightarrow> u64 list \<Rightarrow> 'h nand_st \<Rightarrow> (u64 list \<times> 'h nand_st) option" where
  "nand_bad_loop m off acc s =
     (if \<not> off < mtd_size m then Some (acc, s)
      else do {
        (bad, s) \<leftarrow> nand_block_isbad m off s;
        nand_bad_loop m (off + ucast (erasesize m)) (if bad \<noteq> 0 then acc @ [off] else acc) s
      })"

text \<open>\<open>nand erase [clean]\<close> and \<open>nand scrub\<close>; a scrub asks for \<open>y\<close> and return.\<close>

definition do_nand_erase :: "cmd_env \<Rightarrow> 'h mtd_info \<Rightarrow> string list \<Rightarrow> 'h nand_st \<Rightarrow> (int \<times> 'h nand_st) option" where
  "do_nand_erase e m argv s =
     (let clean = 2 < length argv \<and> argv ! 2 = ''clean''; scrub = argv ! 1 = ''scrub''
      in case arg_off_size (drop (if clean then 3 else 2) argv) m of
           None \<Rightarrow> Some (1, s)
         | Some (off, sz) \<Rightarrow>
             if off AND ucast (erasesize m - 1) \<noteq> 0 then Some (1, s)
             else if sz AND ucast (erasesize m - 1) \<noteq> 0 then Some (1, s)
             else if scrub \<and> take 2 (ce_getc e) \<noteq> [CHR ''y'', CHR 0x0D] then Some (- 1, s)
             else do {
               (ret, s) \<leftarrow> nand_erase_opts m \<lparr>opt_length = sz, opt_offset = off, opt_quiet = False, opt_jffs2 = clean,
                                             opt_scrub = scrub\<rparr> (ce_marker e) s;
               Some (if ret = 0 then 0 else 1, s)
             })"

text \<open>The page that is dumped, with its spare bytes in a buffer of their own; 1 is a failure.\<close>

definition nand_dump :: "cmd_env \<Rightarrow> 'h mtd_info \<Rightarrow> u64 \<Rightarrow> 'h nand_st \<Rightarrow> (int \<times> 'h nand_st) option" where
  "nand_dump e m off s =
     (case (ce_datbuf e, ce_oobbuf e) of
        (Some datbuf, Some oobbuf) \<Rightarrow>
          do {
            ((i, _), s) \<leftarrow> mtd_read_oob m (off AND NOT (ucast (writesize m) - 1))
               (oob_ops_zero\<lparr>ops_datbuf := Some datbuf, ops_oobbuf := Some oobbuf, ops_len := writesize m,
                  ops_ooblen := oobsize m, ops_mode := MTD_OOB_RAW\<rparr>) s;
            Some (if i < 0 then 1 else 0, s)
          }
      | _ \<Rightarrow> Some (1, s))"

text \<open>The command returns 1 after a dump that worked.\<close>

definition do_nand_dump :: "cmd_env \<Rightarrow> 'h mtd_info \<Rightarrow> string list \<Rightarrow> 'h nand_st \<Rightarrow> (int \<times> 'h nand_st) option" where
  "do_nand_dump e m argv s =
     (if length argv < 3 then Some (1, s)
      else do {
        (ret, s) \<leftarrow> nand_dump e m (fst (simple_strtoull (argv ! 2) 16)) s;
        Some (if ret = 0 then 1 else 0, s)
      })"

text \<open>The suffix of a command, from its first dot on.\<close>

definition cmd_suffix :: "string \<Rightarrow> string" where
  "cmd_suffix cmd = dropWhile (\<lambda>c. c \<noteq> CHR ''.'') cmd"

definition page_aligned :: "'a mtd_geom_scheme \<Rightarrow> u64 \<Rightarrow> u32 \<Rightarrow> bool" where
  "page_aligned m off rw_size \<longleftrightarrow> off AND ucast (writesize m - 1) = 0 \<and> rw_size AND (writesize m - 1) = 0"

text \<open>The write commands without spare bytes check the range before they write; \<open>Inl\<close> is a return from the command.\<close>

definition checked_write ::
  "'h mtd_info \<Rightarrow> u64 \<Rightarrow> u32 \<Rightarrow> nat \<Rightarrow> bool \<Rightarrow> 'h nand_st \<Rightarrow> ((int + int) \<times> 'h nand_st) option" where
  "checked_write m off rw_size addr skipempty s =
     (if mtd_size m < off + ucast rw_size then Some (Inl 1, s)
      else if \<not> page_aligned m off rw_size then Some (Inl 1, s)
      else do { (ret, s) \<leftarrow> nand_write_skip_bad m off rw_size addr skipempty s; Some (Inr ret, s) })"

definition do_oob :: "'h mtd_info \<Rightarrow> bool \<Rightarrow> u64 \<Rightarrow> u64 \<Rightarrow> nat \<Rightarrow> 'h nand_st \<Rightarrow> ((int + int) \<times> 'h nand_st) option" where
  "do_oob m rd off sz addr s =
     (if mtd_size m < off then Some (Inl 1, s)
      else let ops = oob_ops_zero\<lparr>ops_oobbuf := Some addr, ops_ooblen := ucast sz, ops_mode := MTD_OOB_RAW\<rparr> in
        do {
          ((ret, _), s) \<leftarrow> (if rd then mtd_read_oob m off ops s else mtd_write_oob m off ops s);
          Some (Inr ret, s)
        })"

definition do_yaffs ::
  "cmd_env \<Rightarrow> 'h mtd_info \<Rightarrow> bool \<Rightarrow> bool \<Rightarrow> u64 \<Rightarrow> u64 \<Rightarrow> nat \<Rightarrow> 'h nand_st \<Rightarrow> ((int + int) \<times> 'h nand_st) option" where
  "do_yaffs e m check rd off sz addr s =
     (let rw_size = ucast sz :: u32; wsize = rw_size div (writesize m + oobused m) * writesize m in
      if rd then
        if check then do { ((ret, _), s) \<leftarrow> nand_read_yaffs_skip_bad m off rw_size addr s; Some (Inr ret, s) }
        else Some (Inl 1, s)
      else if mtd_size m < off + ucast wsize then Some (Inl 1, s)
      else if check \<and> yaffs_check (ce_host e) (ram s) addr (writesize m) (ucast sz) \<noteq> 0 then Some (Inl 1, s)
      else do { (ret, s) \<leftarrow> nand_write_yaffs_skip_bad m off rw_size addr s; Some (Inr ret, s) })"

text \<open>\<open>nand read\<close> and \<open>nand write\<close> with their suffixes.\<close>

definition do_nand_rw :: "cmd_env \<Rightarrow> 'h mtd_info \<Rightarrow> string list \<Rightarrow> 'h nand_st \<Rightarrow> (int \<times> 'h nand_st) option" where
  "do_nand_rw e m argv s =
     (if length argv < 4 then Some (1, s)
      else
        let addr = unat (simple_strtoul (argv ! 2) 16); rd = take 4 (argv ! 1) = ''read''; sfx = cmd_suffix (argv ! 1)
        in case arg_off_size (drop 3 argv) m of
             None \<Rightarrow> Some (1, s)
           | Some (off, sz) \<Rightarrow>
               do {
                 (r, s) \<leftarrow>
                   (if sfx \<in> {[], ''.jffs2'', ''.e'', ''.i''} then
                      if rd then do { ((ret, _), s) \<leftarrow> nand_read_skip_bad m off (ucast sz) addr s; Some (Inr ret, s) }
                      else checked_write m off (ucast sz) addr False s
                    else if sfx = ''.oob'' then do_oob m rd off sz addr s
                    else if sfx = ''.yaffs'' then do_yaffs e m True rd off sz addr s
                    else if sfx = ''.ubifs'' then
                      if rd then Some (Inl 0, s) else checked_write m off (ucast sz) addr True s
                    else if sfx = ''.yaffsuc'' then do_yaffs e m False rd off sz addr s
                    else Some (Inl 1, s));
                 Some (case r of Inl ret \<Rightarrow> ret | Inr ret \<Rightarrow> if ret = 0 then 0 else 1, s)
               })"

fun markbad_list :: "'h mtd_info \<Rightarrow> string list \<Rightarrow> int \<Rightarrow> 'h nand_st \<Rightarrow> (int \<times> 'h nand_st) option" where
  "markbad_list m [] ret s = Some (ret, s)"
| "markbad_list m (a # as) ret s =
     do {
       markbad \<leftarrow> mtd_block_markbad m;
       (r, s) \<leftarrow> markbad (fst (simple_strtoull a 16)) s;
       markbad_list m as (if r \<noteq> 0 then 1 else ret) s
     }"

definition do_nand_markbad :: "'h mtd_info \<Rightarrow> string list \<Rightarrow> 'h nand_st \<Rightarrow> (int \<times> 'h nand_st) option" where
  "do_nand_markbad m argv s = (if length argv \<le> 2 then Some (1, s) else markbad_list m (drop 2 argv) 0 s)"

section \<open>The command\<close>

text \<open>
  The dispatch.  The current device is a number next to the state; there is one device, number 0.  The lock
  commands are not compiled in.
\<close>

definition known_commands :: "string \<Rightarrow> bool" where
  "known_commands cmd \<longleftrightarrow>
     cmd \<in> {''bad'', ''erase'', ''scrub'', ''markbad'', ''biterr'', ''lock'', ''unlock'', ''ew'', ''ewc''} \<or>
     take 4 cmd = ''dump'' \<or> take 4 cmd = ''read'' \<or> take 5 cmd = ''write''"

definition do_nand ::
  "cmd_env \<Rightarrow> 'h mtd_info \<Rightarrow> string list \<Rightarrow> int \<times> 'h nand_st \<Rightarrow> ((int \<times> event list) \<times> int \<times> 'h nand_st) option" where
  "do_nand e m argv st =
     (let (dev, s) = st; cmd = argv ! 1;
          silent = (\<lambda>r. do { (ret, s) \<leftarrow> r; Some ((ret, []), dev, s) })
      in if length argv < 2 then Some ((1, []), dev, s)
         else if cmd = ''info'' then Some ((0, []), dev, s)
         else if cmd = ''device'' then
           if length argv < 3 then Some ((0, []), dev, s)
           else let d = sint (simple_strtoul (argv ! 2) 10)
                in if d < 0 \<or> 1 \<le> d \<or> \<not> ce_named e then Some ((1, []), dev, s) else Some ((0, []), d, s)
         else if \<not> known_commands cmd then Some ((1, []), dev, s)
         else if dev < 0 \<or> 1 \<le> dev \<or> \<not> ce_named e then Some ((1, []), dev, s)
         else if cmd = ''bad'' then silent (do { (_, s) \<leftarrow> nand_bad_loop m 0 [] s; Some (0, s) })
         else if take 2 cmd = ''ew'' then do { (r, s) \<leftarrow> do_nand_ew e m argv s; Some (r, dev, s) }
         else if cmd \<in> {''erase'', ''scrub''} then silent (do_nand_erase e m argv s)
         else if take 4 cmd = ''dump'' then silent (do_nand_dump e m argv s)
         else if take 4 cmd = ''read'' \<or> take 5 cmd = ''write'' then silent (do_nand_rw e m argv s)
         else if cmd = ''markbad'' then silent (do_nand_markbad m argv s)
         else Some ((1, []), dev, s))"

section \<open>Loading an image\<close>

text \<open>
  \<open>img\<close> stands for the image library of \<open>common/image.c\<close>: the size of the image whose first page is in memory,
  \<open>None\<close> for an unknown type.  \<open>autostart\<close> is the environment's; the boot itself is not modelled.
  The result is the status and whether the load address was set.
\<close>

definition nand_load_image ::
  "(memory \<Rightarrow> nat \<Rightarrow> u32 option) \<Rightarrow> bool \<Rightarrow> 'h mtd_info \<Rightarrow> u64 \<Rightarrow> nat \<Rightarrow> string \<Rightarrow> 'h nand_st \<Rightarrow> ((int \<times> bool) \<times> 'h nand_st) option" where
  "nand_load_image img autostart m offset addr cmd s =
     (if cmd_suffix cmd \<notin> {[], ''.jffs2'', ''.e'', ''.i''} then Some ((1, False), s)
      else do {
        ((r, _), s) \<leftarrow> nand_read_skip_bad m offset (writesize m) addr s;
        (if r \<noteq> 0 then Some ((1, False), s)
         else case img (ram s) addr of
                None \<Rightarrow> Some ((1, False), s)
              | Some cnt \<Rightarrow> do {
                  ((r, _), s) \<leftarrow> nand_read_skip_bad m offset cnt addr s;
                  (if r \<noteq> 0 then Some ((1, False), s) else Some ((if autostart then 1 else 0, True), s))
                })
      })"

text \<open>The arguments of \<open>nboot\<close>: \<open>bootdevice\<close> is the environment's; the default load address is \<open>0x80008000\<close>.\<close>

definition nandboot_args :: "string list \<Rightarrow> string option \<Rightarrow> (u32 \<times> string option \<times> u64) option" where
  "nandboot_args argv bootdevice =
     (case argv of
        [_] \<Rightarrow> Some (0x80008000, bootdevice, 0)
      | [_, a] \<Rightarrow> Some (simple_strtoul a 16, bootdevice, 0)
      | [_, a, d] \<Rightarrow> Some (simple_strtoul a 16, Some d, 0)
      | [_, a, d, off] \<Rightarrow> Some (simple_strtoul a 16, Some d, fst (simple_strtoull off 16))
      | _ \<Rightarrow> None)"

definition do_nandboot ::
  "(memory \<Rightarrow> nat \<Rightarrow> u32 option) \<Rightarrow> bool \<Rightarrow> string option \<Rightarrow> cmd_env \<Rightarrow> 'h mtd_info \<Rightarrow> string list \<Rightarrow> 'h nand_st \<Rightarrow>
     ((int \<times> bool) \<times> 'h nand_st) option" where
  "do_nandboot img autostart bootdevice e m argv s =
     (case nandboot_args argv bootdevice of
        Some (addr, Some boot_device, offset) \<Rightarrow>
          let idx = sint (simple_strtoul boot_device 16) in
          if idx < 0 \<or> 1 \<le> idx \<or> \<not> ce_named e then Some ((1, False), s)
          else nand_load_image img autostart m offset (unat addr) (argv ! 0) s
      | _ \<Rightarrow> Some ((1, False), s))"

end
