(* ===== verification/BbtProps.thy ===== *)
theory BbtProps
  imports NandScan
begin

text \<open>
  The memory bad block table: two bits for each block, four blocks in a byte.  \<open>bbt_entry t (2 * b)\<close> is the entry of
  block \<open>b\<close>: 0 for a good block, 1 for a worn one, 2 for a reserved one, 3 for one that the maker has marked.
\<close>

section \<open>Entries\<close>

lemma and_push_bit: "n AND push_bit k x = push_bit k (drop_bit k n AND x)" for n x :: nat
  by (rule bit_eqI) (auto simp: bit_simps)

lemma and_6: "n AND 6 = 2 * (n div 2 mod 4 :: nat)"
proof -
  have 3: "(3 :: nat) = mask 2" by (simp add: mask_eq_exp_minus_1)
  have "n AND push_bit 1 3 = push_bit 1 (take_bit 2 (drop_bit 1 n))"
    unfolding and_push_bit 3 by (simp only: take_bit_eq_mask)
  then show ?thesis by (simp add: push_bit_eq_mult take_bit_eq_mod drop_bit_eq_div)
qed

lemma bbt_entry_block: "bbt_entry t (2 * b) = take_bit 2 (drop_bit (2 * (b mod 4)) (t ! (b div 4)))"
proof -
  have "(3 :: u8) = mask 2" by (simp add: mask_eq_exp_minus_1)
  then show ?thesis unfolding bbt_entry_def and_6 by (simp add: take_bit_eq_mask)
qed

lemma bbt_entry_odd: "bbt_entry t n = bbt_entry t (2 * (n div 2))"
proof -
  have "n div 8 = 2 * (n div 2) div 8" by presburger
  then show ?thesis by (simp add: bbt_entry_def and_6)
qed

text \<open>The table with the bits \<open>v\<close> set in the entry of a block, as \<open>bbt_or\<close> does it.\<close>

definition table_or :: "nat \<Rightarrow> u8 \<Rightarrow> u8 list \<Rightarrow> u8 list" where
  "table_or b v t = t[b div 4 := t ! (b div 4) OR push_bit (2 * (b mod 4)) v]"

lemma length_table_or [simp]: "length (table_or b v t) = length t"
  by (simp add: table_or_def)

lemma bbt_entry_same:
  assumes "b div 4 < length t" "take_bit 2 v = v"
  shows "bbt_entry (table_or b v t) (2 * b) = bbt_entry t (2 * b) OR v"
proof (rule bit_word_eqI)
  fix n assume "n < LENGTH(8)"
  have "bit v n \<Longrightarrow> n < 2" using assms(2) by (metis bit_take_bit_iff)
  moreover have "2 * (b mod 4) + n < 8" if "n < 2" using that by simp
  ultimately show "bit (bbt_entry (table_or b v t) (2 * b)) n = bit (bbt_entry t (2 * b) OR v) n"
    using assms(1) by (auto simp: table_or_def bbt_entry_block bit_simps)
qed

lemma bbt_entry_other:
  assumes "b' \<noteq> b" "take_bit 2 v = v"
  shows "bbt_entry (table_or b v t) (2 * b') = bbt_entry t (2 * b')"
proof (cases "b' div 4 = b div 4 \<and> b div 4 < length t")
  case False
  then show ?thesis by (auto simp: table_or_def bbt_entry_block nth_list_update list_update_beyond)
next
  case True
  then have ne: "b' mod 4 \<noteq> b mod 4" using assms(1) by (metis div_mult_mod_eq)
  have v: "bit v n \<Longrightarrow> n < 2" for n using assms(2) by (metis bit_take_bit_iff)
  show ?thesis
  proof (rule bit_word_eqI)
    fix n assume "n < LENGTH(8)"
    have "\<not> (2 * (b mod 4) \<le> 2 * (b' mod 4) + n \<and> bit v (2 * (b' mod 4) + n - 2 * (b mod 4)))" if "n < 2"
      using v [of "2 * (b' mod 4) + n - 2 * (b mod 4)"] ne that by linarith
    then show "bit (bbt_entry (table_or b v t) (2 * b')) n = bit (bbt_entry t (2 * b')) n"
      using True by (auto simp: table_or_def bbt_entry_block bit_simps)
  qed
qed

lemma bbt_or_table: "bbt_or (b div 4) (push_bit (2 * (b mod 4)) v) s = s\<lparr>chip_bbt := map_option (table_or b v) (chip_bbt s)\<rparr>"
  by (simp add: bbt_or_def table_or_def [abs_def])

text \<open>The answer for an address, in terms of the entry of its block.\<close>

lemma nand_isbad_bbt_entry:
  assumes "1 \<le> bbt_erase_shift m"
  shows "nand_isbad_bbt m a allowbbt t =
     (let e = bbt_entry t (2 * (unat a div 2 ^ bbt_erase_shift m)) in if e = 0 \<or> e = 2 \<and> allowbbt then 0 else 1)"
proof -
  have "unat (drop_bit (bbt_erase_shift m - 1) a) = unat a div 2 ^ (bbt_erase_shift m - 1)"
    using unsigned_less [of a, where 'a = nat]
    by (subst unsigned_drop_bit_eq) (simp add: take_bit_nat_eq_self drop_bit_eq_div [where 'a = nat])
  moreover have "unat a div 2 ^ (bbt_erase_shift m - 1) div 2 = unat a div 2 ^ bbt_erase_shift m"
    using assms by (simp add: div_mult2_eq [symmetric] power_minus_mult flip: power_Suc2)
  ultimately have "bbt_entry t (unat (drop_bit (bbt_erase_shift m - 1) a)) =
      bbt_entry t (2 * (unat a div 2 ^ bbt_erase_shift m))"
    by (subst bbt_entry_odd) simp
  then show ?thesis by (simp add: nand_isbad_bbt_def Let_def)
qed

end
