(* ===== verification/MtdDev.thy ===== *)
theory MtdDev
  imports NandUtil
begin

text \<open>
  What the layers above rely on: the contract of the device behind \<open>struct mtd_info\<close>, as a locale, and the
  lemmas of \<open>nand_util.c\<close> that follow from it.

  \<open>inv\<close> is the invariant of the device's state, \<open>flash\<close> its data bytes by device address, \<open>bad\<close> its bad
  blocks by number, \<open>priv\<close> the memory that the driver works in.  Programming a page can only clear
  bits: a write leaves the conjunction of the old and the new data.  Write and erase may fail, and a failed one may
  leave anything in the range that it was asked to change, but nowhere else; a failed erase may even have destroyed
  the mark of its block, and marking a block bad may not succeed.  \<open>mtd_reliable\<close> is a device on which nothing fails.
\<close>

section \<open>Addresses of good blocks\<close>

definition good_addrs :: "nat \<Rightarrow> nat \<Rightarrow> (nat \<Rightarrow> bool) \<Rightarrow> nat \<Rightarrow> nat list" where
  "good_addrs E S bd off = filter (\<lambda>a. \<not> bd (a div E)) [off ..< S]"

lemma good_addrs_end [simp]: "S \<le> off \<Longrightarrow> good_addrs E S bd off = []"
  by (simp add: good_addrs_def)

lemma set_good_addrs: "a \<in> set (good_addrs E S bd off) \<longleftrightarrow> off \<le> a \<and> a < S \<and> \<not> bd (a div E)"
  by (auto simp: good_addrs_def)

lemma distinct_good_addrs [simp]: "distinct (good_addrs E S bd off)"
  by (simp add: good_addrs_def)

lemma length_good_addrs: "length (good_addrs E S bd off) \<le> S - off"
  using length_filter_le [of _ "[off ..< S]"] by (simp add: good_addrs_def)

lemma block_end: "0 < E \<Longrightarrow> off + (E - off mod E) = (off div E + 1) * (E :: nat)"
proof -
  assume "0 < E"
  then have "off mod E < E" by simp
  moreover have "off div E * E + off mod E = off" by simp
  ultimately show ?thesis by (simp only: distrib_right)
qed

lemma same_block:
  assumes "off \<le> a" "a < off + (E - off mod E)" "0 < E"
  shows "a div E = off div (E :: nat)"
proof (rule div_nat_eqI)
  show "E * (off div E) \<le> a" using assms(1) times_div_less_eq_dividend [of E off] by linarith
  show "a < E * Suc (off div E)" using assms(2) block_end [OF assms(3), of off] by (simp add: mult.commute)
qed

lemma good_addrs_split:
  "off \<le> b \<Longrightarrow> b \<le> S \<Longrightarrow> good_addrs E S bd off = filter (\<lambda>a. \<not> bd (a div E)) [off ..< b] @ good_addrs E S bd b"
  using upt_add_eq_append [of off b "S - b"] by (simp add: good_addrs_def)

lemma good_addrs_good:
  assumes "0 < E" "\<not> bd (off div E)" "c \<le> E - off mod E" "off + c \<le> S"
  shows "good_addrs E S bd off = [off ..< off + c] @ good_addrs E S bd (off + c)"
proof -
  have "a div E = off div E" if "a \<in> set [off ..< off + c]" for a
    using that assms(1,3) by (intro same_block) auto
  then have "filter (\<lambda>a. \<not> bd (a div E)) [off ..< off + c] = [off ..< off + c]"
    using assms(2) by (metis (mono_tags, lifting) filter_True)
  then show ?thesis using assms(4) good_addrs_split [of off "off + c" S E bd] by simp
qed

lemma good_addrs_bad:
  assumes "0 < E" "bd (off div E)" "off + (E - off mod E) \<le> S"
  shows "good_addrs E S bd off = good_addrs E S bd (off + (E - off mod E))"
proof -
  define b where "b = off + (E - off mod E)"
  have "a div E = off div E" if "a \<in> set [off ..< b]" for a
    using that assms(1) by (intro same_block) (auto simp: b_def)
  then have "filter (\<lambda>a. \<not> bd (a div E)) [off ..< b] = []"
    using assms(2) by (metis (mono_tags, lifting) filter_False)
  moreover have "off \<le> b" unfolding b_def by (rule le_add1)
  moreover have "b \<le> S" using assms(3) by (simp add: b_def)
  ultimately show ?thesis using good_addrs_split [of off b S E bd] by (simp add: b_def)
qed

lemma block_end_le:
  assumes "0 < E" "E dvd S" "off < S"
  shows "off + (E - off mod E) \<le> (S :: nat)"
proof -
  obtain k where S: "S = E * k" using assms by auto
  then have "off div E < k" using assms by (simp add: div_less_iff_less_mult mult.commute)
  then have "(off div E + 1) * E \<le> S" by (metis S Suc_eq_plus1 Suc_leI mult.commute mult_le_mono2)
  then show ?thesis by (simp only: block_end [OF assms(1)])
qed

section \<open>The contract\<close>

definition ram_kept :: "nat set \<Rightarrow> 'h nand_st \<Rightarrow> 'h nand_st \<Rightarrow> bool" where
  "ram_kept priv s s' \<longleftrightarrow> (\<forall>x. x \<notin> priv \<longrightarrow> ram s' x = ram s x)"

lemma ram_kept_refl [simp]: "ram_kept priv s s" by (simp add: ram_kept_def)

lemma ram_kept_trans: "ram_kept priv s s' \<Longrightarrow> ram_kept priv s' s'' \<Longrightarrow> ram_kept priv s s''"
  by (simp add: ram_kept_def)

lemma ram_keptD: "ram_kept priv s s' \<Longrightarrow> x \<notin> priv \<Longrightarrow> ram s' x = ram s x"
  by (simp add: ram_kept_def)

locale mtd_dev =
  fixes m :: "'h mtd_info"
    and inv :: "'h nand_st \<Rightarrow> bool"
    and flash :: "'h nand_st \<Rightarrow> nat \<Rightarrow> u8"
    and bad :: "'h nand_st \<Rightarrow> nat \<Rightarrow> bool"
    and priv :: "nat set"
  assumes erasesize_pow2: "pow2_size (erasesize m)"
    and writesize_pow2: "pow2_size (writesize m)"
    and page_words: "4 \<le> unat (writesize m)"
    and page_block: "unat (writesize m) dvd unat (erasesize m)"
    and block_size: "unat (erasesize m) dvd unat (mtd_size m)"
    and size_bound: "unat (mtd_size m) < 2 ^ 62"
    and ram_law: "inv s \<Longrightarrow> inv (s\<lparr>ram := mm\<rparr>) \<and> flash (s\<lparr>ram := mm\<rparr>) = flash s \<and> bad (s\<lparr>ram := mm\<rparr>) = bad s"
    and isbad_law: "inv s \<Longrightarrow> unat (erasesize m) dvd unat a \<Longrightarrow> a < mtd_size m \<Longrightarrow>
      \<exists>r s'. mtd_block_isbad m a s = Some (r, s') \<and> 0 \<le> r \<and> (r \<noteq> 0 \<longleftrightarrow> bad s (unat a div unat (erasesize m))) \<and>
             inv s' \<and> flash s' = flash s \<and> bad s' = bad s \<and> ram_kept priv s s'"
    and read_law: "inv s \<Longrightarrow> 0 < n \<Longrightarrow> unat (writesize m) dvd unat from \<Longrightarrow> unat (writesize m) dvd unat n \<Longrightarrow>
      unat from + unat n \<le> unat (mtd_size m) \<Longrightarrow> {buf ..< buf + unat n} \<inter> priv = {} \<Longrightarrow>
      \<exists>s'. mtd_read m from n k buf s = Some ((0, n), s') \<and> inv s' \<and> flash s' = flash s \<and> bad s' = bad s \<and>
           (\<forall>x. x \<notin> priv \<longrightarrow>
             ram s' x = (if buf \<le> x \<and> x < buf + unat n then flash s (unat from + (x - buf)) else ram s x))"
    and write_law: "inv s \<Longrightarrow> 0 < n \<Longrightarrow> unat (writesize m) dvd unat to \<Longrightarrow> unat (writesize m) dvd unat n \<Longrightarrow>
      unat to + unat n \<le> unat (mtd_size m) \<Longrightarrow> {buf ..< buf + unat n} \<inter> priv = {} \<Longrightarrow>
      \<exists>ret k' s'. mtd_write m to n k buf s = Some ((ret, k'), s') \<and> inv s' \<and> bad s' = bad s \<and> ram_kept priv s s' \<and>
           ret \<le> 0 \<and> (\<forall>a. a < unat to \<or> unat to + unat n \<le> a \<longrightarrow> flash s' a = flash s a) \<and>
           (ret = 0 \<longrightarrow> k' = n \<and>
             (\<forall>i < unat n. flash s' (unat to + i) = flash s (unat to + i) AND ram s (buf + i)))"
    and erase_law: "inv s \<Longrightarrow> unat (erasesize m) dvd unat a \<Longrightarrow> a < mtd_size m \<Longrightarrow>
      \<exists>ret e' s'. mtd_erase m \<lparr>erase_addr = a, erase_len = ucast (erasesize m), erase_fail_addr = 0,
             erase_state = MTD_ERASE_PENDING, erase_scrub = False\<rparr> s = Some ((ret, e'), s') \<and>
           inv s' \<and> ram_kept priv s s' \<and> (ret = 0 \<or> ret = - EIO) \<and>
           (\<forall>b. b \<noteq> unat a div unat (erasesize m) \<longrightarrow> bad s' b = bad s b) \<and>
           (\<forall>x. x div unat (erasesize m) \<noteq> unat a div unat (erasesize m) \<longrightarrow> flash s' x = flash s x) \<and>
           (bad s (unat a div unat (erasesize m)) \<longrightarrow> ret \<noteq> 0 \<and> flash s' = flash s \<and> bad s' = bad s) \<and>
           (ret = 0 \<longrightarrow> bad s' = bad s \<and>
             (\<forall>x. x div unat (erasesize m) = unat a div unat (erasesize m) \<longrightarrow> flash s' x = 0xff))"
    and markbad_law: "inv s \<Longrightarrow> unat (erasesize m) dvd unat a \<Longrightarrow> a < mtd_size m \<Longrightarrow>
      \<exists>f ret s'. mtd_block_markbad m = Some f \<and> f a s = Some (ret, s') \<and> inv s' \<and> ram_kept priv s s' \<and> ret \<le> 0 \<and>
           (\<forall>b. b \<noteq> unat a div unat (erasesize m) \<longrightarrow> bad s' b = bad s b) \<and>
           (\<forall>x. x div unat (erasesize m) \<noteq> unat a div unat (erasesize m) \<longrightarrow> flash s' x = flash s x) \<and>
           (ret = 0 \<longrightarrow> bad s' (unat a div unat (erasesize m)))"

text \<open>A device whose write and erase operations do not fail.\<close>

locale mtd_reliable = mtd_dev m inv flash bad priv
  for m :: "'h mtd_info" and inv flash bad priv +
  assumes write_ok: "inv s \<Longrightarrow> 0 < n \<Longrightarrow> unat (writesize m) dvd unat to \<Longrightarrow> unat (writesize m) dvd unat n \<Longrightarrow>
      unat to + unat n \<le> unat (mtd_size m) \<Longrightarrow> {buf ..< buf + unat n} \<inter> priv = {} \<Longrightarrow>
      mtd_write m to n k buf s = Some ((ret, k'), s') \<Longrightarrow> ret = 0"
    and erase_ok: "inv s \<Longrightarrow> unat (erasesize m) dvd unat a \<Longrightarrow> a < mtd_size m \<Longrightarrow>
      \<not> bad s (unat a div unat (erasesize m)) \<Longrightarrow>
      mtd_erase m \<lparr>erase_addr = a, erase_len = ucast (erasesize m), erase_fail_addr = 0,
             erase_state = MTD_ERASE_PENDING, erase_scrub = False\<rparr> s = Some ((ret, e'), s') \<Longrightarrow> ret = 0"

end
