(* ===== verification/NandUtilProps.thy ===== *)
theory NandUtilProps
  imports MtdDev
begin

text \<open>
  What the functions of \<open>nand_util.c\<close> do on a device that keeps the contract \<open>mtd_dev\<close>: the length of an
  image over bad blocks, writing and reading images that step over them, and erasing.  \<open>good s off\<close> are the
  addresses from \<open>off\<close> on that lie in good blocks: byte \<open>i\<close> of an image belongs at the \<open>i\<close>-th of them.
\<close>

lemma length_cleanmarker: "length cleanmarker = 8" by (simp add: cleanmarker_def)

context mtd_dev begin

abbreviation (input) "W \<equiv> unat (writesize m)"
abbreviation (input) "E \<equiv> unat (erasesize m)"
abbreviation (input) "S \<equiv> unat (mtd_size m)"
abbreviation (input) "good s off \<equiv> good_addrs E S (bad s) off"

lemma E_pos: "0 < E" using pow2_size_pos [OF erasesize_pow2] .
lemma W_pos: "0 < W" using page_words by simp
lemma W_dvd_S: "W dvd S" using page_block block_size dvd_trans by blast

lemma block_start: "unat (block_start_of m a) div E = unat a div E"
proof -
  have "unat (block_start_of m a) = unat a div E * E"
    by (simp add: unat_block_start_of [OF erasesize_pow2] minus_mod_eq_div_mult)
  then show ?thesis using E_pos by simp
qed

lemma block_start_le: "block_start_of m a \<le> a"
  by (simp add: word_le_nat_alt unat_block_start_of [OF erasesize_pow2])

lemma isbad_start:
  assumes "inv s" "a < mtd_size m"
  shows "\<exists>r s'. nand_block_isbad m (block_start_of m a) s = Some (r, s') \<and> 0 \<le> r \<and> (r = 0 \<longleftrightarrow> \<not> bad s (unat a div E)) \<and>
             inv s' \<and> flash s' = flash s \<and> bad s' = bad s \<and> ram_kept priv s s'"
proof -
  have lt: "block_start_of m a < mtd_size m" by (rule le_less_trans [OF block_start_le assms(2)])
  have al: "E dvd unat (block_start_of m a)"
    by (simp add: unat_block_start_of [OF erasesize_pow2] dvd_minus_mod)
  from isbad_law [OF assms(1) al lt] show ?thesis
    unfolding nand_block_isbad_def block_start by blast
qed

lemma block_left:
  "unat (ucast (ucast (erasesize m) - block_offset_of m a) :: u32) = E - unat a mod E"
proof -
  have "unat (block_offset_of m a) = unat a mod E" by (rule unat_block_offset_of [OF erasesize_pow2])
  moreover have "unat a mod E < E" using E_pos by simp
  ultimately have "unat (ucast (erasesize m) - block_offset_of m a) = E - unat a mod E"
    by (subst unat_sub) (simp_all add: word_le_nat_alt unat_ucast_u64)
  moreover have "E - unat a mod E < 2 ^ 32" using u32_lt [of "erasesize m"] by simp
  ultimately show ?thesis by (simp add: unsigned_ucast_eq take_bit_nat_eq_self)
qed

lemma get_len_loop:
  assumes "inv s" "off < mtd_size m" "unat excl + length (good s (unat off)) < 2 ^ 32 \<or> unat n + E \<le> 2 ^ 32"
  shows "\<exists>incl' excl' s'. get_len_loop m n off incl excl s = Some ((incl', excl'), s') \<and> inv s' \<and> flash s' = flash s \<and>
      bad s' = bad s \<and> ram_kept priv s s' \<and> (excl' < n \<longleftrightarrow> unat excl + length (good s (unat off)) < unat n)"
  using assms
proof (induction "S - unat off" arbitrary: off incl excl s rule: less_induct)
  case less
  show ?case
  proof (cases "excl < n")
    case False
    then show ?thesis using less.prems
      by (subst get_len_loop.simps) (auto simp: word_less_nat_alt)
  next
    case run: True
    define b :: u32 where "b = ucast (ucast (erasesize m) - block_offset_of m off)"
    define off' where "off' = off + ucast b"
    define excl' where "excl' = (if bad s (unat off div E) then excl else excl + b)"
    have b: "unat b = E - unat off mod E" unfolding b_def by (rule block_left)
    have offS: "unat off < S" using less.prems(2) by (simp add: word_less_nat_alt)
    have le: "unat off + (E - unat off mod E) \<le> S" by (rule block_end_le [OF E_pos block_size offS])
    have off': "unat off' = unat off + (E - unat off mod E)"
      unfolding off'_def using le b size_bound by (subst unat_add_u64) auto
    have pos: "0 < E - unat off mod E" using E_pos by simp
    have good: "length (good s (unat off)) =
        (if bad s (unat off div E) then 0 else E - unat off mod E) + length (good s (unat off'))"
    proof (cases "bad s (unat off div E)")
      case True
      then show ?thesis using good_addrs_bad [where bd = "bad s", OF E_pos True le] by (simp add: off')
    next
      case False
      then show ?thesis using good_addrs_good [where bd = "bad s", OF E_pos False order_refl le] by (simp add: off')
    qed
    have small: "unat excl + unat b < 2 ^ 32" if "\<not> bad s (unat off div E)"
      using less.prems(3) run b that good u32_lt [of n] by (auto simp: word_less_nat_alt)
    have excl': "unat excl' = unat excl + (if bad s (unat off div E) then 0 else E - unat off mod E)"
      using small b unat_add_small [of excl b] by (auto simp: excl'_def)
    obtain r s1 where r: "nand_block_isbad m (block_start_of m off) s = Some (r, s1)"
        "r = 0 \<longleftrightarrow> \<not> bad s (unat off div E)" "inv s1" "flash s1 = flash s" "bad s1 = bad s" "ram_kept priv s s1"
      using isbad_start [OF less.prems(1,2)] by blast
    have step: "get_len_loop m n off incl excl s =
        (if mtd_size m \<le> off' then Some ((incl + b, excl'), s1) else get_len_loop m n off' (incl + b) excl' s1)"
      using run r(1,2) by (subst get_len_loop.simps) (auto simp: b_def off'_def excl'_def Let_def)
    show ?thesis
    proof (cases "mtd_size m \<le> off'")
      case True
      then have "good s (unat off') = []" by (simp add: word_le_nat_alt)
      then show ?thesis using True step r good excl' by (auto simp: word_less_nat_alt)
    next
      case False
      have "S - unat off' < S - unat off" using off' pos offS by linarith
      moreover have "off' < mtd_size m" using False by simp
      moreover have "unat excl' + length (good s1 (unat off')) < 2 ^ 32 \<or> unat n + E \<le> 2 ^ 32"
        using less.prems(3) excl' good r(5) by (auto split: if_splits)
      ultimately obtain i2 e2 s2 where "get_len_loop m n off' (incl + b) excl' s1 = Some ((i2, e2), s2)" "inv s2"
          "flash s2 = flash s1" "bad s2 = bad s1" "ram_kept priv s1 s2"
          "e2 < n \<longleftrightarrow> unat excl' + length (good s1 (unat off')) < unat n"
        using less.hyps [of off' s1 excl' "incl + b"] r(3) by blast
      then show ?thesis using step False r good excl' ram_kept_trans [OF r(6)] by auto
    qed
  qed
qed

lemma get_len_incl_bad:
  assumes "inv s" "off < mtd_size m" "unat n + E \<le> 2 ^ 32"
  shows "\<exists>incl s'. get_len_incl_bad m off n s = Some ((incl, length (good s (unat off)) < unat n), s') \<and> inv s' \<and>
      flash s' = flash s \<and> bad s' = bad s \<and> ram_kept priv s s'"
  using get_len_loop [OF assms(1,2), of 0 n 0] assms(3) by (auto simp: get_len_incl_bad_def Let_def)

text \<open>One round of the loops over the blocks.\<close>

lemma chunk: "unat (chunk_size m off n) = min (unat n) (E - unat off mod E)"
proof -
  have "unat (ucast (block_offset_of m off) :: u32) = unat off mod E"
    using unat_block_offset_of [OF erasesize_pow2, of off] E_pos u32_lt [of "erasesize m"]
      mod_less_divisor [OF E_pos, of "unat off"]
    by (simp add: unsigned_ucast_eq take_bit_nat_eq_self)
  moreover have "unat off mod E < E" using E_pos by simp
  ultimately show ?thesis
    by (auto simp: chunk_size_def Let_def word_less_nat_alt unat_sub_u32 word_le_nat_alt)
qed

lemma W_dvd_chunk: "W dvd unat n \<Longrightarrow> W dvd unat off \<Longrightarrow> W dvd unat (chunk_size m off n)"
  using page_block by (auto simp: chunk min_def dvd_mod intro!: dvd_diff_nat)

text \<open>A chunk in a good block, and what remains.\<close>

lemma good_chunk:
  fixes off :: u64 and n :: u32
  assumes "\<not> bd (unat off div E)" "unat off < S"
  defines "c \<equiv> unat (chunk_size m off n)"
  shows "good_addrs E S bd (unat off) = [unat off ..< unat off + c] @ good_addrs E S bd (unat off + c)"
    and "unat off + c \<le> S" and "c \<le> unat n" and "0 < unat n \<Longrightarrow> 0 < c"
    and "c < unat n \<Longrightarrow> (unat off + c) mod E = 0"
proof -
  have le: "unat off + (E - unat off mod E) \<le> S" by (rule block_end_le [OF E_pos block_size assms(2)])
  have c: "c \<le> E - unat off mod E" by (simp add: c_def chunk)
  show "unat off + c \<le> S" using le c by linarith
  then show "good_addrs E S bd (unat off) = [unat off ..< unat off + c] @ good_addrs E S bd (unat off + c)"
    by (rule good_addrs_good [where bd = bd, OF E_pos assms(1) c])
  show "c \<le> unat n" by (simp add: c_def chunk)
  show "0 < unat n \<Longrightarrow> 0 < c" using E_pos by (simp add: c_def chunk)
  assume "c < unat n"
  then have "c = E - unat off mod E" by (auto simp: c_def chunk min_def split: if_splits)
  then show "(unat off + c) mod E = 0" using block_end [OF E_pos, of "unat off"] by simp
qed

text \<open>The next block after a bad one.\<close>

lemma skip_block:
  fixes off :: u64
  assumes "unat off mod E = 0" "bd (unat off div E)" "unat off < S"
  shows "unat (off + ucast (erasesize m)) = unat off + E" and "unat off + E \<le> S"
    and "good_addrs E S bd (unat off) = good_addrs E S bd (unat off + E)" and "(unat off + E) mod E = 0"
proof -
  show le: "unat off + E \<le> S" using block_end_le [OF E_pos block_size assms(3)] assms(1) by simp
  then show "unat (off + ucast (erasesize m)) = unat off + E" using size_bound by (subst unat_add_u64) auto
  show "good_addrs E S bd (unat off) = good_addrs E S bd (unat off + E)"
    using good_addrs_bad [where bd = bd, OF E_pos assms(2), of S] assms(1) le by simp
  show "(unat off + E) mod E = 0" using assms(1) by simp
qed

lemma page_empty_0:
  assumes "page_empty mm buf (writesize m) = 0" "i < W"
  shows "mm (buf + i) = 0xff"
proof -
  obtain k where W: "W = 4 * k"
  proof -
    obtain j where "W = 2 ^ j" using writesize_pow2 by (elim pow2_sizeE)
    moreover have "2 \<le> j" using page_words calculation by (cases "j < 2") (auto simp: less_2_cases_iff)
    ultimately obtain l where "j = 2 + l" using le_Suc_ex by blast
    then have "W = 4 * 2 ^ l" using \<open>W = 2 ^ j\<close> by simp
    then show thesis by (rule that)
  qed
  have "load_bytes mm (buf + 4 * (i div 4)) 4 = replicate 4 0xff"
    using assms W unfolding page_empty_def by (auto split: if_splits)
  then have "load_bytes mm (buf + 4 * (i div 4)) 4 ! (i mod 4) = replicate 4 0xff ! (i mod 4)" by simp
  then show ?thesis by (simp add: nth_load_bytes add.commute)
qed

text \<open>What a write of \<open>n\<close> bytes to consecutive addresses does, whichever of the two functions makes it.\<close>

definition write_never_fails :: bool where
  "write_never_fails \<longleftrightarrow> (\<forall>s n to buf k ret k' s'. inv s \<longrightarrow> 0 < n \<longrightarrow> W dvd unat to \<longrightarrow> W dvd unat n \<longrightarrow>
     unat to + unat n \<le> S \<longrightarrow> {buf ..< buf + unat n} \<inter> priv = {} \<longrightarrow>
     mtd_write m to n k buf s = Some ((ret, k'), s') \<longrightarrow> ret = 0)"

definition wrote_range :: "nat \<Rightarrow> nat \<Rightarrow> nat \<Rightarrow> int \<Rightarrow> 'h nand_st \<Rightarrow> 'h nand_st \<Rightarrow> bool" where
  "wrote_range to n buf ret s s' \<longleftrightarrow>
     inv s' \<and> bad s' = bad s \<and> ram_kept priv s s' \<and> ret \<le> 0 \<and> (write_never_fails \<longrightarrow> ret = 0) \<and>
     (\<forall>a. a < to \<or> to + n \<le> a \<longrightarrow> flash s' a = flash s a) \<and>
     (ret = 0 \<longrightarrow> (\<forall>i < n. flash s' (to + i) = flash s (to + i) AND ram s (buf + i)))"

lemma wrote_range_0: "inv s \<Longrightarrow> wrote_range to 0 buf 0 s s" by (simp add: wrote_range_def)

lemma write_range:
  assumes "inv s" "0 < n" "W dvd unat to" "W dvd unat n" "unat to + unat n \<le> S" "{buf ..< buf + unat n} \<inter> priv = {}"
  shows "\<exists>ret k' s'. mtd_write m to n k buf s = Some ((ret, k'), s') \<and> wrote_range (unat to) (unat n) buf ret s s' \<and>
      (ret = 0 \<longrightarrow> k' = n)"
proof -
  obtain ret k' s' where w: "mtd_write m to n k buf s = Some ((ret, k'), s')" "inv s'" "bad s' = bad s" "ram_kept priv s s'"
     "ret \<le> 0" "\<forall>a. a < unat to \<or> unat to + unat n \<le> a \<longrightarrow> flash s' a = flash s a"
     "ret = 0 \<longrightarrow> k' = n \<and> (\<forall>i < unat n. flash s' (unat to + i) = flash s (unat to + i) AND ram s (buf + i))"
    using write_law [OF assms, of k] by blast
  have "write_never_fails \<longrightarrow> ret = 0" using w(1) assms unfolding write_never_fails_def by blast
  then show ?thesis using w by (simp add: wrote_range_def)
qed

lemma write_skip_empty_loop:
  assumes "inv s" "W dvd unat ofs" "W dvd unat n" "unat ofs + unat n \<le> S" "{buf ..< buf + unat n} \<inter> priv = {}"
  shows "\<exists>ret k s'. write_skip_empty_loop m ofs n buf k0 s = Some ((ret, k), s') \<and>
      wrote_range (unat ofs) (unat n) buf ret s s' \<and> (ret = 0 \<longrightarrow> k = k0 + n)"
  using assms
proof (induction "unat n" arbitrary: ofs n buf k0 s rule: less_induct)
  case less
  show ?case
  proof (cases "n = 0")
    case True
    then show ?thesis using less.prems(1)
      by (subst write_skip_empty_loop.simps) (simp add: wrote_range_0)
  next
    case False
    then have n0: "0 < unat n" by (simp add: unat_gt_0)
    then have Wn: "W \<le> unat n" using less.prems(3) dvd_imp_le by blast
    let ?n' = "n - writesize m" and ?o' = "ofs + ucast (writesize m)"
    have n': "unat ?n' = unat n - W" using Wn by (simp add: unat_sub_u32 word_le_nat_alt)
    have o': "unat ?o' = unat ofs + W" using Wn less.prems(4) size_bound by (subst unat_add_u64) auto
    have disj: "{buf ..< buf + W} \<inter> priv = {}" "{buf + W ..< buf + W + unat ?n'} \<inter> priv = {}"
      using less.prems(5) Wn n' by (auto simp: disjoint_iff)
    have W0: "0 < writesize m" using W_pos by (simp add: word_gt_0 unat_gt_0)
    have fit: "unat ofs + W \<le> S" using less.prems(4) Wn by linarith
    let ?op = "if page_empty (ram s) buf (writesize m) \<noteq> 0 then nand_write m ofs (writesize m) buf s
               else Some ((0, writesize m), s)"
    obtain ret k1 s1 where op: "?op = Some ((ret, k1), s1)" "wrote_range (unat ofs) W buf ret s s1" "ret = 0 \<longrightarrow> k1 = writesize m"
    proof (cases "page_empty (ram s) buf (writesize m) = 0")
      case True
      then have "wrote_range (unat ofs) W buf 0 s s"
        using page_empty_0 [OF True] less.prems(1) by (simp add: wrote_range_def and_0xff)
      then show thesis using True that [of 0 "writesize m" s] by simp
    next
      case False
      obtain ret k' s' where "mtd_write m ofs (writesize m) (writesize m) buf s = Some ((ret, k'), s')"
         "wrote_range (unat ofs) W buf ret s s'" "ret = 0 \<longrightarrow> k' = writesize m"
        using write_range [OF less.prems(1) W0 less.prems(2) dvd_refl fit disj(1)] by blast
      then show thesis using False that by (simp add: nand_write_def)
    qed
    show ?thesis
    proof (cases "ret = 0")
      case False
      then show ?thesis using op n0 Wn
        by (subst write_skip_empty_loop.simps) (auto simp: unat_gt_0 wrote_range_def)
    next
      case True
      have s1: "inv s1" "bad s1 = bad s" "ram_kept priv s s1" using op(2) by (simp_all add: wrote_range_def)
      obtain ret2 k2 s2 where ih: "write_skip_empty_loop m ?o' ?n' (buf + W) (k0 + k1) s1 = Some ((ret2, k2), s2)"
         "wrote_range (unat ?o') (unat ?n') (buf + W) ret2 s1 s2" "ret2 = 0 \<longrightarrow> k2 = k0 + k1 + ?n'"
        using less.hyps [of ?n' s1 ?o' "buf + W" "k0 + k1"] s1(1) n' o' n0 Wn W_pos less.prems disj(2) by auto
      have run: "write_skip_empty_loop m ofs n buf k0 s = Some ((ret2, k2), s2)"
        using op(1) True ih(1) \<open>n \<noteq> 0\<close> by (subst write_skip_empty_loop.simps) simp
      have "flash s2 (unat ofs + i) = flash s (unat ofs + i) AND ram s (buf + i)" if "ret2 = 0" "i < unat n" for i
      proof (cases "i < W")
        case True
        then show ?thesis using ih(2) op(2) \<open>ret = 0\<close> o' by (auto simp: wrote_range_def)
      next
        case False
        then obtain j where j: "i = W + j" using le_Suc_ex not_less by blast
        then have jn: "j < unat ?n'" using that(2) n' by auto
        have "buf + i \<notin> priv" using less.prems(5) that(2) by (auto simp: disjoint_iff)
        then have "ram s1 (buf + W + j) = ram s (buf + i)" using ram_keptD [OF s1(3), of "buf + i"] by (simp add: j add.assoc)
        moreover have "flash s1 (unat ?o' + j) = flash s (unat ofs + i)" using op(2) by (auto simp: wrote_range_def o' j add.assoc)
        ultimately show ?thesis using ih(2) that(1) jn by (auto simp: wrote_range_def o' j add.assoc)
      qed
      moreover have "flash s2 a = flash s a" if "a < unat ofs \<or> unat ofs + unat n \<le> a" for a
        using that ih(2) op(2) o' n' Wn by (auto simp: wrote_range_def)
      ultimately have "wrote_range (unat ofs) (unat n) buf ret2 s s2"
        using ih(2) s1(2) ram_kept_trans [OF s1(3)] by (auto simp: wrote_range_def)
      then show ?thesis using run ih(3) op(3) True by auto
    qed
  qed
qed


text \<open>What a write that steps over bad blocks does: \<open>g\<close> are the addresses that it reaches.\<close>

definition wrote_list :: "nat list \<Rightarrow> nat \<Rightarrow> int \<Rightarrow> 'h nand_st \<Rightarrow> 'h nand_st \<Rightarrow> bool" where
  "wrote_list g buf ret s s' \<longleftrightarrow>
     inv s' \<and> bad s' = bad s \<and> ram_kept priv s s' \<and> ret \<le> 0 \<and> (write_never_fails \<longrightarrow> ret = 0) \<and>
     (\<forall>a. a \<notin> set g \<longrightarrow> flash s' a = flash s a) \<and>
     (ret = 0 \<longrightarrow> (\<forall>i < length g. flash s' (g ! i) = flash s (g ! i) AND ram s (buf + i)))"

lemma wrote_list_Nil: "inv s \<Longrightarrow> wrote_list [] buf 0 s s" by (simp add: wrote_list_def)

lemma wrote_range_list: "wrote_range to n buf ret s s' \<Longrightarrow> wrote_list [to ..< to + n] buf ret s s'"
  by (auto simp: wrote_list_def wrote_range_def)

lemma wrote_list_fail:
  "wrote_list g buf ret s s' \<Longrightarrow> ret \<noteq> 0 \<Longrightarrow> wrote_list (g @ g') buf ret s s'"
  by (simp add: wrote_list_def)

lemma wrote_list_append:
  assumes "wrote_list g buf 0 s s1" "wrote_list g' (buf + length g) ret s1 s2" "distinct (g @ g')"
    "{buf ..< buf + length (g @ g')} \<inter> priv = {}"
  shows "wrote_list (g @ g') buf ret s s2"
proof -
  have "flash s2 ((g @ g') ! i) = flash s ((g @ g') ! i) AND ram s (buf + i)"
    if "ret = 0" "i < length (g @ g')" for i
  proof (cases "i < length g")
    case True
    then have "g ! i \<notin> set g'" using assms(3) by (auto simp: disjoint_iff)
    then show ?thesis using assms(1,2) True by (simp add: wrote_list_def nth_append)
  next
    case False
    then obtain j where j: "i = length g + j" using le_Suc_ex not_less by blast
    then have jg: "j < length g'" using that(2) by simp
    then have "g' ! j \<notin> set g" using assms(3) nth_mem by (fastforce simp: disjoint_iff)
    moreover have "ram s1 (buf + i) = ram s (buf + i)"
      using assms(1,4) that(2) by (auto simp: wrote_list_def disjoint_iff intro!: ram_keptD)
    ultimately show ?thesis using assms(1,2) j jg that(1) by (simp add: wrote_list_def nth_append add.assoc)
  qed
  then show ?thesis using assms(1,2) ram_kept_trans by (auto simp: wrote_list_def)
qed

lemma write_chunk:
  assumes "inv s" "W dvd unat ofs" "W dvd unat c" "0 < unat c" "unat ofs + unat c \<le> S"
    "{buf ..< buf + unat c} \<inter> priv = {}"
  shows "\<exists>ret k s'. (if skipempty then nand_write_skip_empty m ofs c buf s else nand_write m ofs c buf s) =
      Some ((ret, k), s') \<and> wrote_range (unat ofs) (unat c) buf ret s s' \<and> (ret = 0 \<longrightarrow> k = c)"
proof (cases skipempty)
  case True
  then show ?thesis using write_skip_empty_loop [OF assms(1,2,3,5,6), of 0] by (simp add: nand_write_skip_empty_def)
next
  case False
  have "0 < c" using assms(4) by (simp add: word_gt_0 unat_gt_0)
  then show ?thesis using False write_range [OF assms(1) _ assms(2,3,5,6)] by (simp add: nand_write_def)
qed

lemma good_next:
  assumes "unat off < S" "unat off mod E = 0 \<or> \<not> bd (unat off div E)" "0 < unat (n :: u32)"
    "unat n \<le> length (good_addrs E S bd (unat off))"
  shows "length (good_addrs E S bd (unat off)) \<noteq> 0"
  using assms by linarith

lemma write_skip_bad_loop:
  assumes "inv s" "W dvd unat off" "W dvd unat n" "unat n \<le> length (good s (unat off))"
    "unat off mod E = 0 \<or> \<not> bad s (unat off div E) \<or> n = 0" "{buf ..< buf + unat n} \<inter> priv = {}"
  shows "\<exists>ret s'. write_skip_bad_loop m skipempty off n buf r0 s = Some (ret, s') \<and>
      wrote_list (take (unat n) (good s (unat off))) buf ret s s'"
  using assms
proof (induction "S - unat off" arbitrary: off n buf s r0 rule: less_induct)
  case less
  show ?case
  proof (cases "n = 0")
    case True
    then show ?thesis using less.prems(1) by (subst write_skip_bad_loop.simps) (simp add: wrote_list_Nil)
  next
    case False
    then have n0: "0 < unat n" by (simp add: unat_gt_0)
    have offS: "unat off < S" using less.prems(4) n0 good_addrs_end [of S "unat off"] by (cases "unat off < S") auto
    then have notend: "\<not> mtd_size m \<le> off" by (simp add: word_le_nat_alt)
    obtain r s1 where r: "nand_block_isbad m (block_start_of m off) s = Some (r, s1)"
        "r = 0 \<longleftrightarrow> \<not> bad s (unat off div E)" "inv s1" "flash s1 = flash s" "bad s1 = bad s" "ram_kept priv s s1"
      using isbad_start [OF less.prems(1)] notend by (meson not_le)
    have same: "wrote_list g b ret s s'" if "wrote_list g b ret s1 s'" "{b ..< b + length g} \<inter> priv = {}" for g b ret s'
      using that r(4,5) ram_kept_trans [OF r(6)] ram_keptD [OF r(6)] by (auto simp: wrote_list_def disjoint_iff)
    show ?thesis
    proof (cases "bad s (unat off div E)")
      case True
      then have al: "unat off mod E = 0" using less.prems(5) False by simp
      note sk = skip_block [where bd = "bad s", OF al True offS]
      have "S - unat (off + ucast (erasesize m)) < S - unat off" using sk(1) E_pos offS by simp
      moreover have "W dvd unat (off + ucast (erasesize m))" using sk(1) page_block less.prems(2) by simp
      ultimately obtain ret s' where ih: "write_skip_bad_loop m skipempty (off + ucast (erasesize m)) n buf r0 s1 = Some (ret, s')"
          "wrote_list (take (unat n) (good s (unat off))) buf ret s1 s'"
        using less.hyps [of "off + ucast (erasesize m)" s1 n buf r0] r(3,5) less.prems sk by auto
      moreover have "wrote_list (take (unat n) (good s (unat off))) buf ret s s'"
        by (rule same [OF ih(2)]) (use less.prems(4,6) in simp)
      ultimately show ?thesis using r False notend True by (subst write_skip_bad_loop.simps) simp
    next
      case ok: False
      define c where "c = chunk_size m off n"
      note gc = good_chunk [where bd = "bad s" and n = n, OF ok offS, folded c_def]
      have c: "W dvd unat c" "0 < unat c" "unat c \<le> unat n"
        using W_dvd_chunk less.prems(2,3) gc(3,4) n0 by (auto simp: c_def)
      have "{buf ..< buf + unat c} \<inter> priv = {}" using less.prems(6) c(3) by (auto simp: disjoint_iff)
      from write_chunk [OF r(3) less.prems(2) c(1,2) gc(2) this]
      obtain ret k s2 where w: "(if skipempty then nand_write_skip_empty m off c buf s1 else nand_write m off c buf s1) =
          Some ((ret, k), s2)" "wrote_range (unat off) (unat c) buf ret s1 s2" "ret = 0 \<longrightarrow> k = c"
        by blast
      have part: "take (unat n) (good s (unat off)) =
          [unat off ..< unat off + unat c] @ take (unat n - unat c) (good s (unat off + unat c))"
        using gc(1) c(3) by simp
      let ?g = "[unat off ..< unat off + unat c]" and ?g' = "take (unat n - unat c) (good s (unat off + unat c))"
      have len: "length (?g @ ?g') = unat n" using less.prems(4) part by (metis length_take min.absorb2)
      have g: "wrote_list ?g buf ret s1 s2" by (rule wrote_range_list [OF w(2)])
      show ?thesis
      proof (cases "ret = 0")
        case False
        have "wrote_list (?g @ ?g') buf ret s s2"
          by (rule same [OF wrote_list_fail [OF g False]]) (use less.prems(6) len in simp)
        moreover have "write_skip_bad_loop m skipempty off n buf r0 s = Some (ret, s2)"
          using r w(1) False \<open>n \<noteq> 0\<close> notend ok unfolding c_def by (subst write_skip_bad_loop.simps) simp
        ultimately show ?thesis using part by auto
      next
        case ret: True
        let ?o = "off + ucast c" and ?n = "n - c"
        have o: "unat ?o = unat off + unat c" using gc(2) size_bound by (subst unat_add_u64) auto
        have n: "unat ?n = unat n - unat c" using c(3) by (simp add: unat_sub_u32 word_le_nat_alt)
        have s2: "inv s2" "bad s2 = bad s" using w(2) r(5) by (simp_all add: wrote_range_def)
        have step: "write_skip_bad_loop m skipempty off n buf r0 s =
            write_skip_bad_loop m skipempty ?o ?n (buf + unat c) 0 s2"
          using r w(1,3) ret \<open>n \<noteq> 0\<close> notend ok unfolding c_def by (subst write_skip_bad_loop.simps) simp
        have "S - unat ?o < S - unat off" using o c(2) offS by simp
        moreover have "W dvd unat ?o" "W dvd unat ?n" using o n c less.prems(2,3) by simp_all
        moreover have "unat ?n \<le> length (good s2 (unat ?o))" using len n o s2(2) by simp
        moreover have "unat ?o mod E = 0 \<or> \<not> bad s2 (unat ?o div E) \<or> ?n = 0"
          using gc(5) o n by (metis eq_iff_diff_eq_0 le_neq_implies_less c(3) word_unat_eq_iff)
        moreover have "{buf + unat c ..< buf + unat c + unat ?n} \<inter> priv = {}"
          using less.prems(6) n c(3) by (auto simp: disjoint_iff)
        ultimately have "\<exists>ret' s3. write_skip_bad_loop m skipempty ?o ?n (buf + unat c) 0 s2 = Some (ret', s3) \<and>
            wrote_list (take (unat ?n) (good s2 (unat ?o))) (buf + unat c) ret' s2 s3"
          using s2(1) by (intro less.hyps)
        then obtain ret' s3 where ih: "write_skip_bad_loop m skipempty ?o ?n (buf + unat c) 0 s2 = Some (ret', s3)"
            "wrote_list (take (unat ?n) (good s2 (unat ?o))) (buf + unat c) ret' s2 s3"
          by blast
        have "wrote_list (?g @ ?g') buf ret' s1 s3"
        proof (rule wrote_list_append)
          show "wrote_list ?g buf 0 s1 s2" using g ret by simp
          show "wrote_list ?g' (buf + length ?g) ret' s2 s3" using ih(2) n o s2(2) by simp
          show "distinct (?g @ ?g')" using part distinct_take [OF distinct_good_addrs] by metis
          show "{buf ..< buf + length (?g @ ?g')} \<inter> priv = {}" using less.prems(6) by (simp only: len)
        qed
        from same [OF this] have "wrote_list (?g @ ?g') buf ret' s s3" using less.prems(6) by (simp only: len)
        then show ?thesis using step ih(1) part by auto
      qed
    qed
  qed
qed


lemma nand_write_skip_bad:
  assumes "inv s" "unat off < S" "W dvd unat off" "W dvd unat n" "unat n + E \<le> 2 ^ 32"
    "unat off mod E = 0 \<or> \<not> bad s (unat off div E)" "{buf ..< buf + unat n} \<inter> priv = {}"
  shows "\<exists>ret s'. nand_write_skip_bad m off n buf skipempty s = Some (ret, s') \<and>
      (if length (good s (unat off)) < unat n
       then ret = - EINVAL \<and> inv s' \<and> flash s' = flash s \<and> bad s' = bad s \<and> ram_kept priv s s'
       else wrote_list (take (unat n) (good s (unat off))) buf ret s s')"
proof -
  have lt: "off < mtd_size m" using assms(2) by (simp add: word_less_nat_alt)
  obtain incl s1 where g: "get_len_incl_bad m off n s = Some ((incl, length (good s (unat off)) < unat n), s1)"
      "inv s1" "flash s1 = flash s" "bad s1 = bad s" "ram_kept priv s s1"
    using get_len_incl_bad [OF assms(1) lt assms(5)] by blast
  have guards: "off AND ucast (writesize m - 1) = 0" "n AND (writesize m - 1) = 0"
    using assms(3,4) by (simp_all add: u64_pow2_offset u32_pow2_aligned writesize_pow2)
  show ?thesis
  proof (cases "length (good s (unat off)) < unat n")
    case True
    then show ?thesis using g lt guards by (auto simp: nand_write_skip_bad_def not_le)
  next
    case False
    then obtain ret s' where w: "write_skip_bad_loop m skipempty off n buf (- EINVAL) s1 = Some (ret, s')"
        "wrote_list (take (unat n) (good s (unat off))) buf ret s1 s'"
      using write_skip_bad_loop [OF g(2) assms(3,4), of buf skipempty "- EINVAL"] g(4) assms(6,7) by auto
    have "wrote_list (take (unat n) (good s (unat off))) buf ret s s'"
      using w(2) g(3,4) ram_kept_trans [OF g(5)] ram_keptD [OF g(5)] assms(7) by (auto simp: wrote_list_def disjoint_iff)
    then show ?thesis using False g w(1) lt guards by (auto simp: nand_write_skip_bad_def not_le)
  qed
qed

text \<open>Reading.  What the memory holds after \<open>k\<close> bytes from the addresses \<open>g\<close> have been read.\<close>

definition has_read :: "nat list \<Rightarrow> nat \<Rightarrow> 'h nand_st \<Rightarrow> 'h nand_st \<Rightarrow> bool" where
  "has_read g buf s s' \<longleftrightarrow> inv s' \<and> flash s' = flash s \<and> bad s' = bad s \<and>
     (\<forall>x. x \<notin> priv \<longrightarrow> ram s' x = (if buf \<le> x \<and> x < buf + length g then flash s (g ! (x - buf)) else ram s x))"

lemma has_read_Nil: "inv s' \<Longrightarrow> flash s' = flash s \<Longrightarrow> bad s' = bad s \<Longrightarrow> ram_kept priv s s' \<Longrightarrow> has_read [] buf s s'"
  by (auto simp: has_read_def ram_kept_def)

lemma has_read_append:
  assumes "has_read g buf s s1" "has_read g' (buf + length g) s1 s2"
  shows "has_read (g @ g') buf s s2"
  using assms by (auto simp: has_read_def nth_append)

lemma read_skip_bad_loop:
  assumes "inv s" "W dvd unat off" "W dvd unat n" "{buf ..< buf + unat n} \<inter> priv = {}"
    "unat off mod E = 0 \<or> \<not> bad s (unat off div E) \<or> n = 0 \<or> S \<le> unat off"
  shows "\<exists>s'. read_skip_bad_loop m off n buf s =
        Some ((0, buf + min (unat n) (length (good s (unat off)))), s') \<and>
      has_read (take (unat n) (good s (unat off))) buf s s'"
  using assms
proof (induction "S - unat off" arbitrary: off n buf s rule: less_induct)
  case less
  show ?case
  proof (cases "n = 0 \<or> S \<le> unat off")
    case True
    then show ?thesis using less.prems(1)
      by (subst read_skip_bad_loop.simps) (auto simp: has_read_Nil word_le_nat_alt)
  next
    case False
    then have n0: "n \<noteq> 0" "0 < unat n" and offS: "unat off < S" by (simp_all add: unat_gt_0)
    then have notend: "\<not> mtd_size m \<le> off" by (simp add: word_le_nat_alt)
    obtain r s1 where r: "nand_block_isbad m (block_start_of m off) s = Some (r, s1)"
        "r = 0 \<longleftrightarrow> \<not> bad s (unat off div E)" "inv s1" "flash s1 = flash s" "bad s1 = bad s" "ram_kept priv s s1"
      using isbad_start [OF less.prems(1)] notend by (meson not_le)
    have same: "has_read g b s s'" if "has_read g b s1 s'" for g b s'
      using has_read_append [OF has_read_Nil [OF r(3-6)]] that by simp
    show ?thesis
    proof (cases "bad s (unat off div E)")
      case True
      then have al: "unat off mod E = 0" using less.prems(5) False by simp
      note sk = skip_block [where bd = "bad s", OF al True offS]
      have "S - unat (off + ucast (erasesize m)) < S - unat off" using sk(1) E_pos offS by simp
      moreover have "W dvd unat (off + ucast (erasesize m))" using sk(1) page_block less.prems(2) by simp
      ultimately obtain s' where ih: "read_skip_bad_loop m (off + ucast (erasesize m)) n buf s1 =
            Some ((0, buf + min (unat n) (length (good s (unat off)))), s')"
          "has_read (take (unat n) (good s (unat off))) buf s1 s'"
        using less.hyps [of "off + ucast (erasesize m)" s1 n buf] r(3,5) less.prems sk by auto
      then show ?thesis using r n0 notend True same by (subst read_skip_bad_loop.simps) simp
    next
      case ok: False
      define c where "c = chunk_size m off n"
      note gc = good_chunk [where bd = "bad s" and n = n, OF ok offS, folded c_def]
      have c: "W dvd unat c" "0 < unat c" "unat c \<le> unat n" "0 < c"
        using W_dvd_chunk less.prems(2,3) gc(3,4) n0 by (auto simp: c_def word_gt_0 unat_gt_0)
      have "{buf ..< buf + unat c} \<inter> priv = {}" using less.prems(4) c(3) by (auto simp: disjoint_iff)
      from read_law [OF r(3) c(4) less.prems(2) c(1) gc(2) this, of c]
      obtain s2 where w: "nand_read m off c buf s1 = Some ((0, c), s2)" and s2: "inv s2" "flash s2 = flash s1" "bad s2 = bad s1"
         and rd0: "\<forall>x. x \<notin> priv \<longrightarrow> ram s2 x =
             (if buf \<le> x \<and> x < buf + unat c then flash s1 (unat off + (x - buf)) else ram s1 x)"
        unfolding nand_read_def by blast
      have rd: "has_read [unat off ..< unat off + unat c] buf s1 s2"
        using rd0 s2 by (auto simp: has_read_def)
      let ?o = "off + ucast c" and ?n = "n - c"
      have o: "unat ?o = unat off + unat c" using gc(2) size_bound by (subst unat_add_u64) auto
      have n: "unat ?n = unat n - unat c" using c(3) by (simp add: unat_sub_u32 word_le_nat_alt)
      have part: "good s (unat off) = [unat off ..< unat off + unat c] @ good s (unat ?o)" using gc(1) by (simp add: o)
      have step: "read_skip_bad_loop m off n buf s = read_skip_bad_loop m ?o ?n (buf + unat c) s2"
        using r w n0 notend ok unfolding c_def by (subst read_skip_bad_loop.simps) simp
      have "S - unat ?o < S - unat off" using o c(2) offS by simp
      moreover have "W dvd unat ?o" "W dvd unat ?n" using o n c less.prems(2,3) by simp_all
      moreover have "{buf + unat c ..< buf + unat c + unat ?n} \<inter> priv = {}"
        using less.prems(4) n c(3) by (auto simp: disjoint_iff)
      moreover have "unat ?o mod E = 0 \<or> \<not> bad s2 (unat ?o div E) \<or> ?n = 0 \<or> S \<le> unat ?o"
        using gc(5) o n by (metis eq_iff_diff_eq_0 le_neq_implies_less c(3) word_unat_eq_iff)
      ultimately have "\<exists>s'. read_skip_bad_loop m ?o ?n (buf + unat c) s2 =
            Some ((0, buf + unat c + min (unat ?n) (length (good s2 (unat ?o)))), s') \<and>
          has_read (take (unat ?n) (good s2 (unat ?o))) (buf + unat c) s2 s'"
        using s2(1) by (intro less.hyps)
      then obtain s3 where ih: "read_skip_bad_loop m ?o ?n (buf + unat c) s2 =
            Some ((0, buf + unat c + min (unat n - unat c) (length (good s (unat ?o)))), s3)"
          "has_read (take (unat n - unat c) (good s (unat ?o))) (buf + unat c) s2 s3"
        unfolding n using s2(3) r(5) by auto
      have "has_read (take (unat n) (good s (unat off))) buf s1 s3"
        using has_read_append [OF rd] ih(2) part c(3) by simp
      moreover have "unat c + min (unat n - unat c) (length (good s (unat ?o))) = min (unat n) (length (good s (unat off)))"
        using part c(3) by simp
      ultimately show ?thesis using step ih(1) same by (auto simp: add.assoc)
    qed
  qed
qed


lemma nand_read_skip_bad:
  assumes "inv s" "unat off < S" "W dvd unat off" "W \<le> unat n" "unat n + E \<le> 2 ^ 32"
    "unat off mod E = 0 \<or> \<not> bad s (unat off div E)" "{buf ..< buf + unat n} \<inter> priv = {}"
  defines "k \<equiv> unat n - unat n mod W"
  shows "\<exists>s'. nand_read_skip_bad m off n buf s = Some ((0, word_of_nat (min k (length (good s (unat off))))), s') \<and>
      has_read (take k (good s (unat off))) buf s s'"
proof -
  have lt: "off < mtd_size m" using assms(2) by (simp add: word_less_nat_alt)
  have al: "off AND ucast (writesize m - 1) = 0" using assms(3) by (simp add: u64_pow2_offset writesize_pow2)
  define n1 where "n1 = (if n AND (writesize m - 1) \<noteq> 0 then n AND NOT (writesize m - 1) else n)"
  define n2 where "n2 = (if mtd_size m < off + ucast n1 then ucast (mtd_size m - off) else n1)"
  have n1: "unat n1 = k"
    using u32_pow2_down [OF writesize_pow2, of n] u32_pow2_aligned [OF writesize_pow2, of n]
    by (auto simp: n1_def k_def)
  have off1: "unat (off + ucast n1) = unat off + k"
    using u32_lt [of n1] assms(2) size_bound by (subst unat_add_u64) (simp_all add: n1)
  have n2: "unat n2 = min k (S - unat off)"
  proof (cases "S < unat off + k")
    case True
    then have "S - unat off < k" using assms(2) by simp
    then have "S - unat off < 2 ^ 32" using u32_lt [of n1] n1 by linarith
    then show ?thesis using True off1 assms(2)
      by (simp add: n2_def word_less_nat_alt unat_sub word_le_nat_alt unsigned_ucast_eq take_bit_nat_eq_self min_def)
  next
    case False
    then show ?thesis using off1 n1 by (simp add: n2_def word_less_nat_alt min_def)
  qed
  have "W \<le> k" using assms(4) by (metis W_pos div_greater_zero_iff dvd_imp_le dvd_minus_mod k_def minus_mod_eq_mult_div
      mult_is_0 neq0_conv)
  then have "n2 \<noteq> 0" using n2 W_pos assms(2) by (auto simp: min_def simp flip: unat_eq_0 split: if_splits)
  have "n \<noteq> 0" using assms(4) W_pos by auto
  have Wn2: "W dvd unat n2"
    using W_dvd_S assms(3) by (auto simp: n2 k_def min_def dvd_minus_mod intro: dvd_diff_nat)
  have "unat n2 \<le> unat n" using n2 by (simp add: k_def)
  then have n2E: "unat n2 + E \<le> 2 ^ 32" using assms(5) by linarith
  obtain incl b s1 where g: "get_len_incl_bad m off n2 s = Some ((incl, b), s1)"
      "inv s1" "flash s1 = flash s" "bad s1 = bad s" "ram_kept priv s s1"
    using get_len_incl_bad [OF assms(1) lt n2E] by blast
  have "{buf ..< buf + unat n2} \<inter> priv = {}" using assms(7) \<open>unat n2 \<le> unat n\<close> by (auto simp: disjoint_iff)
  with read_skip_bad_loop [OF g(2) assms(3) Wn2 this] assms(6) g(4)
  obtain s2 where r: "read_skip_bad_loop m off n2 buf s1 =
        Some ((0, buf + min (unat n2) (length (good s (unat off)))), s2)"
      "has_read (take (unat n2) (good s (unat off))) buf s1 s2" by auto
  have cut: "min (unat n2) (length (good s (unat off))) = min k (length (good s (unat off)))"
     "take (unat n2) (good s (unat off)) = take k (good s (unat off))"
    using length_good_addrs [of E S "bad s" "unat off"] by (auto simp: n2 min_def)
  have "has_read (take k (good s (unat off))) buf s s2"
    using has_read_append [OF has_read_Nil [OF g(2-5)]] r(2) cut(2) by simp
  moreover have "nand_read_skip_bad m off n buf s = Some ((0, word_of_nat (min k (length (good s (unat off))))), s2)"
    using \<open>n \<noteq> 0\<close> \<open>n2 \<noteq> 0\<close> lt al g(1) r(1) cut(1)
    by (simp add: nand_read_skip_bad_def not_le Let_def flip: n1_def n2_def)
  ultimately show ?thesis by blast
qed

text \<open>What was written to erased blocks is read back.\<close>

lemma write_read_skip_bad:
  assumes "inv s" "unat off < S" "W dvd unat off" "W dvd unat n" "n \<noteq> 0" "unat n + E \<le> 2 ^ 32"
    "unat off mod E = 0 \<or> \<not> bad s (unat off div E)"
    "{buf ..< buf + unat n} \<inter> priv = {}" "{buf2 ..< buf2 + unat n} \<inter> priv = {}"
    "unat n \<le> length (good s (unat off))"
    "\<And>a. a \<in> set (good s (unat off)) \<Longrightarrow> flash s a = 0xff"
    "nand_write_skip_bad m off n buf skipempty s = Some (0, s1)"
  shows "\<exists>s2. nand_read_skip_bad m off n buf2 s1 = Some ((0, n), s2) \<and>
      load_bytes (ram s2) buf2 (unat n) = load_bytes (ram s) buf (unat n)"
proof -
  let ?g = "take (unat n) (good s (unat off))"
  have w: "wrote_list ?g buf 0 s s1"
    using nand_write_skip_bad [OF assms(1-4,6-8), of skipempty] assms(10,12) by auto
  then have s1: "inv s1" "bad s1 = bad s" by (simp_all add: wrote_list_def)
  have len: "length ?g = unat n" using assms(10) by simp
  have Wn: "W \<le> unat n" using assms(4,5) by (simp add: dvd_imp_le unat_gt_0)
  have k: "unat n - unat n mod W = unat n" using assms(4) by (simp add: dvd_eq_mod_eq_0)
  obtain s2 where r: "nand_read_skip_bad m off n buf2 s1 = Some ((0, n), s2)" "has_read ?g buf2 s1 s2"
    using nand_read_skip_bad [OF s1(1) assms(2,3) Wn assms(6), of buf2] assms(7,9,10) by (auto simp: k s1(2) min_def)
  have "ram s2 (buf2 + i) = ram s (buf + i)" if i: "i < unat n" for i
  proof -
    have "?g ! i \<in> set (good s (unat off))" using i len by (metis in_set_takeD nth_mem)
    then have "flash s1 (?g ! i) = ram s (buf + i)"
      using w i len assms(11) by (auto simp: wrote_list_def and.commute [of "0xff"])
    moreover have "buf2 + i \<notin> priv" using assms(9) i by (auto simp: disjoint_iff)
    ultimately show ?thesis using r(2) i len by (simp add: has_read_def)
  qed
  then have "load_bytes (ram s2) buf2 (unat n) = load_bytes (ram s) buf (unat n)"
    by (intro nth_equalityI) (simp_all add: nth_load_bytes)
  with r(1) show ?thesis by blast
qed


text \<open>
  Erasing.  \<open>blocks_from lo stop\<close> are the blocks that start in the range.  \<open>erased_blocks\<close> is what erasing a set of
  blocks may do: outside of it, and in bad blocks, nothing changes.  \<open>blank_blocks\<close> is what it does when no erase
  fails: the good blocks of the set are blank.
\<close>

definition blocks_from :: "nat \<Rightarrow> nat \<Rightarrow> nat set" where
  "blocks_from lo stop = {b. lo \<le> b * E \<and> b * E < stop}"

definition erased_blocks :: "nat set \<Rightarrow> 'h nand_st \<Rightarrow> 'h nand_st \<Rightarrow> bool" where
  "erased_blocks B s s' \<longleftrightarrow> inv s' \<and> ram_kept priv s s' \<and>
     (\<forall>b. b \<notin> B \<or> bad s b \<longrightarrow> bad s' b = bad s b) \<and>
     (\<forall>x. x div E \<notin> B \<or> bad s (x div E) \<longrightarrow> flash s' x = flash s x)"

definition blank_blocks :: "nat set \<Rightarrow> 'h nand_st \<Rightarrow> 'h nand_st \<Rightarrow> bool" where
  "blank_blocks B s s' \<longleftrightarrow> bad s' = bad s \<and> (\<forall>x. x div E \<in> B \<longrightarrow> bad s (x div E) \<or> flash s' x = 0xff)"

definition erase_never_fails :: bool where
  "erase_never_fails \<longleftrightarrow> (\<forall>s a ret e' s'. inv s \<longrightarrow> E dvd unat a \<longrightarrow> a < mtd_size m \<longrightarrow> \<not> bad s (unat a div E) \<longrightarrow>
     mtd_erase m \<lparr>erase_addr = a, erase_len = ucast (erasesize m), erase_fail_addr = 0,
             erase_state = MTD_ERASE_PENDING, erase_scrub = False\<rparr> s = Some ((ret, e'), s') \<longrightarrow> ret = 0)"

lemma erased_none: "inv s' \<Longrightarrow> flash s' = flash s \<Longrightarrow> bad s' = bad s \<Longrightarrow> ram_kept priv s s' \<Longrightarrow> erased_blocks B s s'"
  by (simp add: erased_blocks_def)

lemma erased_union: "erased_blocks A s s1 \<Longrightarrow> erased_blocks B s1 s2 \<Longrightarrow> erased_blocks (A \<union> B) s s2"
  unfolding erased_blocks_def Un_iff by (metis ram_kept_trans)

lemma blank_none: "flash s' = flash s \<Longrightarrow> bad s' = bad s \<Longrightarrow> blank_blocks {} s s'"
  by (simp add: blank_blocks_def)

lemma blank_union:
  "blank_blocks A s s1 \<Longrightarrow> blank_blocks B s1 s2 \<Longrightarrow> erased_blocks B s1 s2 \<Longrightarrow> A \<inter> B = {} \<Longrightarrow> blank_blocks (A \<union> B) s s2"
  unfolding blank_blocks_def erased_blocks_def disjoint_iff Un_iff by metis

lemma blocks_step:
  assumes "a mod E = 0" "a < stop"
  shows "blocks_from a stop = {a div E} \<union> blocks_from (a + E) stop" "a div E \<notin> blocks_from (a + E) stop"
proof -
  define q where "q = a div E"
  have a: "a = q * E" using assms(1) by (simp add: q_def mod_0_imp_dvd)
  have le: "(q * E \<le> b * E) = (q \<le> b)" "(q * E + E \<le> b * E) = (Suc q \<le> b)" for b
    using mult_le_cancel2 [of q E b] mult_le_cancel2 [of "Suc q" E b] E_pos by (simp_all add: add.commute)
  show "blocks_from a stop = {a div E} \<union> blocks_from (a + E) stop"
    using assms(2) E_pos unfolding blocks_from_def q_def [symmetric] a le by (auto simp: not_less_eq_eq dest: le_neq_implies_less)
  show "a div E \<notin> blocks_from (a + E) stop" unfolding blocks_from_def q_def [symmetric] by (simp add: a le)
qed

lemma erase_one:
  assumes "inv s" "unat a mod E = 0" "unat a < S" "\<not> bad s (unat a div E)" "\<not> opt_scrub opts" "\<not> opt_jffs2 opts"
  obtains result e s1 s2 where
    "mtd_erase m \<lparr>erase_addr = a, erase_len = ucast (erasesize m), erase_fail_addr = 0,
             erase_state = MTD_ERASE_PENDING, erase_scrub = False\<rparr> s = Some ((result, e), s1)"
    "if result \<noteq> 0 then nand_erase_failed m opts a result s1 = Some ((), s2)
     else nand_write_marker m opts marker a s1 = Some (0, s2)"
    "erased_blocks {unat a div E} s s2" "erase_never_fails \<longrightarrow> blank_blocks {unat a div E} s s2"
proof -
  have al: "E dvd unat a" "a < mtd_size m" using assms(2,3) by (simp_all add: mod_0_imp_dvd word_less_nat_alt)
  from erase_law [OF assms(1) al] obtain result e s1 where
      e: "mtd_erase m \<lparr>erase_addr = a, erase_len = ucast (erasesize m), erase_fail_addr = 0,
             erase_state = MTD_ERASE_PENDING, erase_scrub = False\<rparr> s = Some ((result, e), s1)"
      "inv s1" "ram_kept priv s s1" "result = 0 \<or> result = - EIO" "\<forall>b. b \<noteq> unat a div E \<longrightarrow> bad s1 b = bad s b"
      "\<forall>x. x div E \<noteq> unat a div E \<longrightarrow> flash s1 x = flash s x"
      "result = 0 \<longrightarrow> bad s1 = bad s \<and> (\<forall>x. x div E = unat a div E \<longrightarrow> flash s1 x = 0xff)" by blast
  have fails: "result = 0" if erase_never_fails
    using that e(1) assms(1,4) al unfolding erase_never_fails_def by blast
  show thesis
  proof (cases "result = 0")
    case True
    show thesis
      by (rule that [OF e(1), of s1])
        (use True e assms(4,6) in \<open>auto simp: nand_write_marker_def erased_blocks_def blank_blocks_def\<close>)
  next
    case False
    obtain f r s2 where f: "mtd_block_markbad m = Some f" "f a s1 = Some (r, s2)" "inv s2" "ram_kept priv s1 s2"
        "\<forall>b. b \<noteq> unat a div E \<longrightarrow> bad s2 b = bad s1 b" "\<forall>x. x div E \<noteq> unat a div E \<longrightarrow> flash s2 x = flash s1 x"
      using markbad_law [OF e(2) al] by blast
    obtain r' s3 where i: "mtd_block_isbad m a s2 = Some (r', s3)" "inv s3" "flash s3 = flash s2" "bad s3 = bad s2"
        "ram_kept priv s2 s3"
      using isbad_law [OF f(3) al] by blast
    define s4 where "s4 = (if r < 0 then s3 else s2)"
    have run: "nand_erase_failed m opts a result s1 = Some ((), s4)"
      using False e(4) f(1,2) i(1) assms(5) by (auto simp: nand_erase_failed_def s4_def)
    have s4: "inv s4" "ram_kept priv s s4" "\<forall>b. b \<noteq> unat a div E \<longrightarrow> bad s4 b = bad s b"
        "\<forall>x. x div E \<noteq> unat a div E \<longrightarrow> flash s4 x = flash s x"
      using e f i ram_kept_trans [OF ram_kept_trans [OF e(3) f(4)] i(5)] ram_kept_trans [OF e(3) f(4)] by (auto simp: s4_def)
    show thesis
      by (rule that [OF e(1), of s4]) (use False run s4 fails assms(4) in \<open>auto simp: erased_blocks_def\<close>)
  qed
qed

lemma nand_erase_loop:
  assumes "inv s" "unat addr mod E = 0" "unat (opt_offset opts + n) \<le> S" "\<not> opt_scrub opts" "\<not> opt_jffs2 opts"
  shows "\<exists>tot' s'. nand_erase_loop m opts marker n addr tot s = Some (Inr tot', s') \<and>
      erased_blocks (blocks_from (unat addr) (unat (opt_offset opts + n))) s s' \<and>
      (erase_never_fails \<longrightarrow> blank_blocks (blocks_from (unat addr) (unat (opt_offset opts + n))) s s')"
  using assms(1,2)
proof (induction "S - unat addr" arbitrary: addr tot s rule: less_induct)
  case less
  let ?stop = "unat (opt_offset opts + n)" and ?addr' = "addr + ucast (erasesize m)"
  show ?case
  proof (cases "addr < opt_offset opts + n")
    case False
    then have "blocks_from (unat addr) ?stop = {}" by (auto simp: blocks_from_def word_less_nat_alt)
    then show ?thesis using False less.prems(1)
      by (subst nand_erase_loop.simps) (simp add: erased_none blank_none)
  next
    case True
    then have lt: "unat addr < ?stop" by (simp add: word_less_nat_alt)
    then have aS: "unat addr < S" "addr < mtd_size m" using assms(3) by (simp_all add: word_less_nat_alt)
    have le: "unat addr + E \<le> S" using block_end_le [OF E_pos block_size aS(1)] less.prems(2) by simp
    have a': "unat ?addr' = unat addr + E" using le size_bound by (subst unat_add_u64) auto
    let ?B = "blocks_from (unat addr + E) ?stop"
    have ih: "\<exists>tot' s'. nand_erase_loop m opts marker n ?addr' t s1 = Some (Inr tot', s') \<and>
        erased_blocks ?B s1 s' \<and> (erase_never_fails \<longrightarrow> blank_blocks ?B s1 s')" if "inv s1" for t s1
      using less.hyps [of ?addr' s1 t] that a' aS(1) E_pos less.prems(2) by simp
    have blocks: "blocks_from (unat addr) ?stop = {unat addr div E} \<union> ?B" "{unat addr div E} \<inter> ?B = {}"
      using blocks_step [OF less.prems(2) lt] by auto
    obtain r s1 where r: "mtd_block_isbad m addr s = Some (r, s1)" "0 \<le> r" "(r \<noteq> 0) = bad s (unat addr div E)"
        "inv s1" "flash s1 = flash s" "bad s1 = bad s" "ram_kept priv s s1"
      using isbad_law [OF less.prems(1) _ aS(2)] less.prems(2) by (auto simp: mod_0_imp_dvd)
    show ?thesis
    proof (cases "bad s (unat addr div E)")
      case bd: True
      obtain tot' s' where i: "nand_erase_loop m opts marker n ?addr' tot s1 = Some (Inr tot', s')"
          "erased_blocks ?B s1 s'" "erase_never_fails \<longrightarrow> blank_blocks ?B s1 s'" using ih [OF r(4)] by blast
      have "erased_blocks {unat addr div E} s s1" "blank_blocks {unat addr div E} s s1"
        using r bd by (auto simp: erased_blocks_def blank_blocks_def)
      then have "erased_blocks (blocks_from (unat addr) ?stop) s s'"
          "erase_never_fails \<longrightarrow> blank_blocks (blocks_from (unat addr) ?stop) s s'"
        unfolding blocks(1) using erased_union i(2,3) blank_union blocks(2) by blast+
      moreover have "nand_erase_loop m opts marker n addr tot s = Some (Inr tot', s')"
        using True assms(4) r(1-3) bd i(1) by (subst nand_erase_loop.simps) simp
      ultimately show ?thesis by blast
    next
      case ok: False
      then have "\<not> bad s1 (unat addr div E)" by (simp add: r(6))
      from erase_one [OF r(4) less.prems(2) aS(1) this assms(4,5), of marker]
      obtain result e s2 s3 where e: "mtd_erase m \<lparr>erase_addr = addr, erase_len = ucast (erasesize m), erase_fail_addr = 0,
             erase_state = MTD_ERASE_PENDING, erase_scrub = False\<rparr> s1 = Some ((result, e), s2)"
          "if result \<noteq> 0 then nand_erase_failed m opts addr result s2 = Some ((), s3)
           else nand_write_marker m opts marker addr s2 = Some (0, s3)"
          "erased_blocks {unat addr div E} s1 s3" "erase_never_fails \<longrightarrow> blank_blocks {unat addr div E} s1 s3" by blast
      have es: "erased_blocks {unat addr div E} s s3" "erase_never_fails \<longrightarrow> blank_blocks {unat addr div E} s s3"
        using e(3,4) r(4-7) ram_kept_trans [OF r(7)] by (auto simp: erased_blocks_def blank_blocks_def)
      then have "inv s3" by (simp add: erased_blocks_def)
      then obtain tot' s' where i: "nand_erase_loop m opts marker n ?addr'
            (if result \<noteq> 0 then tot else tot + ucast (erasesize m)) s3 = Some (Inr tot', s')"
          "erased_blocks ?B s3 s'" "erase_never_fails \<longrightarrow> blank_blocks ?B s3 s'" using ih by blast
      have "erased_blocks (blocks_from (unat addr) ?stop) s s'"
          "erase_never_fails \<longrightarrow> blank_blocks (blocks_from (unat addr) ?stop) s s'"
        unfolding blocks(1) using erased_union es i(2,3) blank_union blocks(2) by blast+
      moreover have "nand_erase_loop m opts marker n addr tot s = Some (Inr tot', s')"
        using True assms(4) r(1-3) ok aS(2) e(1,2) i(1)
        by (subst nand_erase_loop.simps) (auto split: if_splits)
      ultimately show ?thesis by blast
    qed
  qed
qed

lemma nand_erase_opts:
  assumes "inv s" "{marker ..< marker + 8} \<subseteq> priv" "E dvd unat (opt_offset opts)" "unat (opt_offset opts) < S"
    "opt_length opts \<noteq> 0" "unat (opt_length opts) < 2 ^ 62" "\<not> opt_scrub opts" "\<not> opt_jffs2 opts"
  defines "stop \<equiv> min S (unat (opt_offset opts) + max E (unat (opt_length opts)))"
  shows "\<exists>s'. nand_erase_opts m opts marker s = Some (0, s') \<and>
      erased_blocks (blocks_from (unat (opt_offset opts)) stop) s s' \<and>
      (erase_never_fails \<longrightarrow> blank_blocks (blocks_from (unat (opt_offset opts)) stop) s s')"
proof -
  define len1 where "len1 = (if word_sless (opt_length opts) (ucast (erasesize m)) then ucast (erasesize m)
                  else opt_length opts)"
  define len2 where "len2 = (if mtd_size m < opt_offset opts + len1 then mtd_size m - opt_offset opts else len1)"
  note s1 = ram_law [OF assms(1), of "store_bytes (ram s) marker cleanmarker", THEN conjunct1]
    ram_law [OF assms(1), of "store_bytes (ram s) marker cleanmarker", THEN conjunct2, THEN conjunct1]
    ram_law [OF assms(1), of "store_bytes (ram s) marker cleanmarker", THEN conjunct2, THEN conjunct2]
  have s0: "ram_kept priv s (s\<lparr>ram := store_bytes (ram s) marker cleanmarker\<rparr>)"
    using assms(2) by (auto simp: ram_kept_def store_bytes_def length_cleanmarker)
  have "word_sless (opt_length opts) (ucast (erasesize m)) = (unat (opt_length opts) < E)"
    using assms(6) u32_lt [of "erasesize m"] by (simp add: word_sless_small unat_ucast_u64)
  then have len1: "unat len1 = max E (unat (opt_length opts))" by (simp add: len1_def unat_ucast_u64)
  have "unat len1 < 2 ^ 62" using len1 assms(6) u32_lt [of "erasesize m"] by simp
  then have o1: "unat (opt_offset opts + len1) = unat (opt_offset opts) + unat len1"
    using assms(4) size_bound by (subst unat_add_small) simp_all
  have "unat (opt_offset opts + len2) = stop"
    using assms(4) o1 by (simp add: len2_def word_less_nat_alt stop_def len1 min_def)
  then have o2: "unat (opt_offset opts + len2) \<le> S" "unat (opt_offset opts + len2) = stop" by (simp_all add: stop_def)
  have "unat (opt_offset opts) mod E = 0" using assms(3) by simp
  from nand_erase_loop [OF s1(1) this o2(1) assms(7,8), of marker 0] obtain tot' s' where
      l: "nand_erase_loop m opts marker len2 (opt_offset opts) 0 (s\<lparr>ram := store_bytes (ram s) marker cleanmarker\<rparr>) = Some (Inr tot', s')"
        "erased_blocks (blocks_from (unat (opt_offset opts)) stop) (s\<lparr>ram := store_bytes (ram s) marker cleanmarker\<rparr>) s'"
        "erase_never_fails \<longrightarrow>
          blank_blocks (blocks_from (unat (opt_offset opts)) stop) (s\<lparr>ram := store_bytes (ram s) marker cleanmarker\<rparr>) s'"
    unfolding o2 by blast
  have "nand_erase_opts m opts marker s = Some (0, s')"
    using l(1) assms(5,7) by (simp add: nand_erase_opts_def flip: len1_def len2_def)
  moreover have "erased_blocks (blocks_from (unat (opt_offset opts)) stop) s s'"
      "erase_never_fails \<longrightarrow> blank_blocks (blocks_from (unat (opt_offset opts)) stop) s s'"
    using l(2,3) s1(2,3) ram_kept_trans [OF s0] by (auto simp: erased_blocks_def blank_blocks_def)
  ultimately show ?thesis by blast
qed

end


text \<open>On a device that does not fail.\<close>

context mtd_reliable begin

lemma never_fails: "erase_never_fails" "write_never_fails"
  unfolding erase_never_fails_def write_never_fails_def using erase_ok write_ok by blast+

end

end
