(* ===== verification/EwProps.thy ===== *)
theory EwProps
  imports NandUtilProps CmdNand
begin

text \<open>
  The burn-in test on a device that keeps the contract: it ends, changes nothing below its range and nothing in bad
  blocks, reports a difference exactly when the chip holds something else than was written, and reports nothing on a
  device that works.
\<close>

section \<open>What the test leaves alone\<close>

lemma scale_down_ends:
  assumes "unat len < 2 ^ 63"
  shows "\<exists>n' len'. scale_down n len = Some (n', len')"
  using assms
proof (induction "unat len" arbitrary: n len rule: less_induct)
  case less
  show ?case
  proof (cases "len AND 0xFFFFFFFF00000000 = 0")
    case True
    then show ?thesis by (subst scale_down.simps) simp
  next
    case False
    have "take_bit 63 len = len"
      by (rule word_unat_eq_iff [THEN iffD2]) (use less.prems in \<open>simp add: unsigned_take_bit_eq take_bit_nat_eq_self\<close>)
    then have "\<not> bit len 63" by (metis bit_take_bit_iff less_irrefl)
    then have d: "signed_drop_bit 1 len = drop_bit 1 len"
      by (intro bit_word_eqI) (auto simp: bit_signed_drop_bit_iff bit_drop_bit_eq min_def not_less
          simp del: bit_0 dest: le_neq_implies_less bit_imp_le_length)
    have "unat (drop_bit 1 len) = unat len div 2"
      by (simp add: drop_bit_eq_div unat_div_distrib)
    moreover have "len \<noteq> 0" using False by auto
    ultimately have "unat (drop_bit 1 len) < unat len" using unat_gt_0 [of len] by simp
    then have "\<exists>n' len'. scale_down (drop_bit 1 n) (signed_drop_bit 1 len) = Some (n', len')"
      using less.hyps less.prems unfolding d by simp
    then show ?thesis using False by (subst scale_down.simps) simp
  qed
qed

lemma unat_sint_pos: "0 \<le> sint (x :: u64) \<Longrightarrow> int (unat x) = sint x"
  using sint_lt [of x] by (simp add: uint_sint take_bit_int_eq_self)

text \<open>The place of the second buffer.\<close>

lemma ew_raddr_bounds:
  assumes "0 \<le> sint b" "sint b \<le> 2 * int e"
  shows "ew_waddr \<le> ew_raddr b" "ew_raddr b \<le> ew_waddr + e"
  using assms by (simp_all add: ew_raddr_def nat_le_iff le_nat_iff)

lemma ew_bufsize:
  assumes "sint b = 2 * int e"
  shows "unat b = 2 * e" "ew_raddr b = ew_waddr + e"
proof -
  have "int (unat b) = sint b" using sint_lt [of b] assms by (simp add: uint_sint take_bit_int_eq_self)
  then show "unat b = 2 * e" using assms by linarith
  show "ew_raddr b = ew_waddr + e" using assms by (simp add: ew_raddr_def nat_add_distrib)
qed

context mtd_dev begin

text \<open>What no step of the test may change: the bytes below \<open>lo\<close> and the bad blocks.\<close>

definition keeps :: "nat \<Rightarrow> 'h nand_st \<Rightarrow> 'h nand_st \<Rightarrow> bool" where
  "keeps lo s s' \<longleftrightarrow> inv s' \<and> (\<forall>b. bad s b \<longrightarrow> bad s' b) \<and>
     (\<forall>x. x < lo \<or> bad s (x div E) \<longrightarrow> flash s' x = flash s x)"

lemma keeps_trans: "keeps lo s s1 \<Longrightarrow> keeps lo s1 s2 \<Longrightarrow> keeps lo s s2"
  by (simp add: keeps_def)

lemma keeps_mono: "keeps hi s s' \<Longrightarrow> lo \<le> hi \<Longrightarrow> keeps lo s s'"
  by (auto simp: keeps_def)

lemma keeps_ram: "inv s \<Longrightarrow> keeps lo s (s\<lparr>ram := mm\<rparr>)"
  using ram_law by (simp add: keeps_def)

lemma keeps_erased: "erased_blocks (blocks_from lo stop) s s' \<Longrightarrow> keeps lo s s'"
proof -
  assume e: "erased_blocks (blocks_from lo stop) s s'"
  have "x div E \<notin> blocks_from lo stop" if "x < lo" for x
    using that by (auto simp: blocks_from_def) (metis div_times_less_eq_dividend leD le_trans)
  then show ?thesis using e by (auto simp: keeps_def erased_blocks_def)
qed

lemma keeps_erase_opts:
  assumes "inv s" "{marker ..< marker + 8} \<subseteq> priv" "unat (opt_offset opts) mod E = 0" "\<not> opt_scrub opts" "\<not> opt_jffs2 opts"
  shows "\<exists>ret s'. nand_erase_opts m opts marker s = Some (ret, s') \<and> keeps (unat (opt_offset opts)) s s'"
proof -
  define len1 where "len1 = (if word_sless (opt_length opts) (ucast (erasesize m)) then ucast (erasesize m)
                  else opt_length opts)"
  define len2 where "len2 = (if mtd_size m < opt_offset opts + len1 then mtd_size m - opt_offset opts else len1)"
  define s1 where "s1 = s\<lparr>ram := store_bytes (ram s) marker cleanmarker\<rparr>"
  have s1: "inv s1" "keeps (unat (opt_offset opts)) s s1" using ram_law assms(1) keeps_ram by (auto simp: s1_def)
  have "opt_offset opts + len2 \<le> mtd_size m" by (auto simp: len2_def not_less)
  then have "unat (opt_offset opts + len2) \<le> S" by (simp add: word_le_nat_alt)
  from nand_erase_loop [OF s1(1) assms(3) this assms(4,5), of marker 0] obtain tot s' where
      l: "nand_erase_loop m opts marker len2 (opt_offset opts) 0 s1 = Some (Inr tot, s')"
        "keeps (unat (opt_offset opts)) s1 s'" using keeps_erased by blast
  show ?thesis
  proof (cases "opt_length opts = 0")
    case True
    then show ?thesis using s1 assms(4) by (simp add: nand_erase_opts_def s1_def)
  next
    case False
    then have "nand_erase_opts m opts marker s = Some (0, s')"
      using l(1) assms(4) by (simp add: nand_erase_opts_def flip: len1_def len2_def s1_def)
    then show ?thesis using keeps_trans [OF s1(2) l(2)] by blast
  qed
qed

lemma E_bound: "E + E \<le> 2 ^ 32"
proof -
  obtain k where "k < 32" "E = 2 ^ k" using erasesize_pow2 by (elim pow2_sizeE)
  then have "(2 :: nat) ^ Suc k \<le> 2 ^ 32" by (intro power_increasing) simp_all
  then show ?thesis using \<open>E = 2 ^ k\<close> by simp
qed

lemma keeps_block:
  assumes "inv s" "unat a mod E = 0" "unat a < S" "{ew_waddr ..< ew_waddr + 2 * E} \<inter> priv = {}"
    "ew_waddr \<le> raddr" "raddr \<le> ew_waddr + E"
  shows "\<exists>r s'. ew_block m raddr need_compare a s = Some (r, s') \<and> keeps (unat a) s s'"
proof -
  have al: "W dvd unat a" "W dvd E" using assms(2) page_block by (auto intro: dvd_trans)
  have buf: "{ew_waddr ..< ew_waddr + E} \<inter> priv = {}" "{raddr ..< raddr + E} \<inter> priv = {}"
    using assms(4-6) by (auto simp: disjoint_iff)
  obtain ret s1 where w: "nand_write_skip_bad m a (erasesize m) ew_waddr False s = Some (ret, s1)" "keeps (unat a) s s1"
  proof -
    obtain ret s1 where w: "nand_write_skip_bad m a (erasesize m) ew_waddr False s = Some (ret, s1)"
      "if length (good s (unat a)) < E
       then ret = - EINVAL \<and> inv s1 \<and> flash s1 = flash s \<and> bad s1 = bad s \<and> ram_kept priv s s1
       else wrote_list (take E (good s (unat a))) ew_waddr ret s s1"
      using nand_write_skip_bad [OF assms(1,3) al E_bound disjI1 [OF assms(2)] buf(1)] by blast
    have "x \<notin> set (take E (good s (unat a)))" if "x < unat a \<or> bad s (x div E)" for x
      using that set_take_subset [of E "good s (unat a)"] by (auto simp: set_good_addrs)
    then have "keeps (unat a) s s1" using w(2) by (auto simp: keeps_def wrote_list_def split: if_splits)
    with w(1) show thesis by (rule that)
  qed
  show ?thesis
  proof (cases need_compare)
    case False
    then show ?thesis using w by (simp add: ew_block_def)
  next
    case True
    have "inv s1" using w(2) by (simp add: keeps_def)
    have "W \<le> E" using page_block E_pos by (simp add: dvd_imp_le)
    from nand_read_skip_bad [OF \<open>inv s1\<close> assms(3) al(1) this E_bound disjI1 [OF assms(2)] buf(2)]
    obtain n s2 where r: "nand_read_skip_bad m a (erasesize m) raddr s1 = Some ((0, n), s2)" "keeps (unat a) s1 s2"
      by (auto simp: has_read_def keeps_def)
    then show ?thesis using True w keeps_trans [OF w(2) r(2)] by (simp add: ew_block_def Let_def)
  qed
qed

lemma ew_percent_ends:
  assumes "unat a < S" "off \<le> a" "a < off + sz" "unat (off + sz) \<le> S"
  shows "\<exists>p. ew_percent m a off sz = Some p"
proof -
  have "off \<le> off + sz" using assms(2,3) by simp
  then have "unat sz = unat (off + sz) - unat off" using unat_sub [of off "off + sz"] by simp
  then have "unat sz < 2 ^ 63" using assms(4) size_bound by simp
  then obtain n l where "scale_down ((a + ucast (erasesize m) - off) * 100) sz = Some (n, l)"
    using scale_down_ends by blast
  then show ?thesis by (simp add: ew_percent_def)
qed

lemma ew_shown_ends:
  assumes "unat a < S" "off \<le> a" "a < off + sz" "unat (off + sz) \<le> S"
  shows "\<exists>p. (if shown then ew_percent m a off sz else Some 0) = Some p"
  using ew_percent_ends [OF assms] by (cases shown) auto

lemma keeps_pass:
  assumes "inv s" "unat a mod E = 0" "off \<le> a" "unat (off + sz) \<le> S" "unat a < 2 ^ 63"
    "{ew_waddr ..< ew_waddr + 2 * E} \<inter> priv = {}" "ew_waddr \<le> raddr" "raddr \<le> ew_waddr + E"
  shows "\<exists>r s'. ew_pass e m raddr need_compare off sz a w s = Some (r, s') \<and> keeps (unat off) s s'"
  using assms(1-3,5)
proof (induction "S - unat a" arbitrary: a w s rule: less_induct)
  case less
  have "unat (off + sz) < 2 ^ 63" using assms(4) size_bound by simp
  then have cmp: "word_sless a (off + sz) \<longleftrightarrow> unat a < unat (off + sz)"
    using less.prems(4) by (intro word_sless_small)
  show ?case
  proof (cases "unat a < unat (off + sz)")
    case False
    then have "ew_pass e m raddr need_compare off sz a w s = Some ((False, w), s)"
      using cmp by (subst ew_pass.simps) simp
    then show ?thesis using less.prems(1) by (auto simp: keeps_def)
  next
    case True
    then have aS: "unat a < S" using assms(4) by simp
    obtain ret ev s1 where b: "ew_block m raddr need_compare a s = Some ((ret, ev), s1)" "keeps (unat a) s s1"
      using keeps_block [OF less.prems(1,2) aS assms(6-8), of need_compare] by force
    obtain p where p: "(if ew_print w then ew_percent m a off sz else Some 0) = Some p"
      using ew_shown_ends [OF aS less.prems(3) _ assms(4)] True by (auto simp: word_less_nat_alt simp del: if_split)
    let ?a = "a + ucast (erasesize m)"
    have le: "unat a + E \<le> S" using block_end_le [OF E_pos block_size aS] less.prems(2) by simp
    have a': "unat ?a = unat a + E" using le size_bound by (subst unat_add_u64) auto
    have k1: "keeps (unat off) s s1" using keeps_mono [OF b(2)] less.prems(3) by (simp add: word_le_nat_alt)
    have "\<exists>r s'. ew_pass e m raddr need_compare off sz ?a w' s1 = Some (r, s') \<and> keeps (unat off) s1 s'" for w'
      using less.hyps [of ?a s1 w'] a' le aS E_pos k1 less.prems(2,3) size_bound
      by (auto simp: keeps_def word_le_nat_alt)
    then show ?thesis using True cmp b(1) p k1 keeps_trans [OF k1]
      by (subst ew_pass.simps) (simp add: Let_def, blast)
  qed
qed

lemma keeps_loop:
  assumes "inv s" "unat off mod E = 0" "unat off < 2 ^ 63" "unat (off + sz) \<le> S" "0 \<le> count"
    "{ew_waddr ..< ew_waddr + 2 * E} \<inter> priv = {}" "{ce_marker e ..< ce_marker e + 8} \<subseteq> priv" "ew_waddr \<le> raddr" "raddr \<le> ew_waddr + E"
  shows "\<exists>w' s'. ew_loop e m raddr need_compare off sz rounds count curcnt w s = Some (w', s') \<and> keeps (unat off) s s'"
  using assms(1,5)
proof (induction "nat count" arbitrary: count curcnt w s rule: less_induct)
  case less
  show ?case
  proof (cases "count = 0")
    case True
    then show ?thesis using less.prems(1) by (subst ew_loop.simps) (simp add: keeps_def)
  next
    case False
    let ?o = "\<lparr>opt_length = sz, opt_offset = off, opt_quiet = False, opt_jffs2 = False, opt_scrub = False\<rparr>"
    obtain ret s1 where er: "nand_erase_opts m ?o (ce_marker e) s = Some (ret, s1)" "keeps (unat off) s s1"
      using keeps_erase_opts [OF less.prems(1) assms(7), of ?o] assms(2) by auto
    then have "inv s1" by (simp add: keeps_def)
    from keeps_pass [OF this assms(2) order_refl assms(4,3,6,8,9)] obtain stopped w1 s2 where
       ps: "ew_pass e m raddr need_compare off sz off (w\<lparr>ew_ret := ret\<rparr>) s1 = Some ((stopped, w1), s2)" "keeps (unat off) s1 s2"
      by (metis surj_pair)
    then have "inv s2" by (simp add: keeps_def)
    define c where "c = (if stopped then 0 else count - 1)"
    have c: "nat c < nat count" "0 \<le> c" using less.prems(2) False by (auto simp: c_def)
    obtain w' s' where l: "ew_loop e m raddr need_compare off sz rounds c (curcnt + 1)
          (w1\<lparr>ew_events := ew_events w1 @ [Rate curcnt rounds]\<rparr>) s2 = Some (w', s')" "keeps (unat off) s2 s'"
      using less.hyps [OF c(1) \<open>inv s2\<close> c(2)] by blast
    then have "ew_loop e m raddr need_compare off sz rounds count curcnt w s = Some (w', s')"
      using False er(1) ps(1) unfolding c_def by (subst ew_loop.simps) simp
    then show ?thesis using keeps_trans [OF keeps_trans [OF er(2) ps(2)] l(2)] by blast
  qed
qed

lemma do_nand_ew_keeps:
  assumes "inv s" "\<And>l. ew_args e m argv = Some l \<Longrightarrow> 0 \<le> el_count l \<and> 0 \<le> sint (el_bufsize l) \<and> sint (el_bufsize l) \<le> 2 * int E"
    "{ew_waddr ..< ew_waddr + 2 * E} \<inter> priv = {}" "{ce_marker e ..< ce_marker e + 8} \<subseteq> priv"
  shows "\<exists>r s'. do_nand_ew e m argv s = Some (r, s') \<and> keeps 0x100000 s s'"
proof (cases "\<exists>l. ew_args e m argv = Some l \<and> ew_range_ok m (el_off l) (el_size l)")
  case False
  then show ?thesis using assms(1) by (auto simp: do_nand_ew_def keeps_def split: option.split)
next
  case True
  then obtain l where a: "ew_args e m argv = Some l" "ew_range_ok m (el_off l) (el_size l)" by blast
  define off sz where "off = el_off l" and "sz = el_size l"
  have ok: "ew_range_ok m off sz" using a(2) by (simp add: off_def sz_def)
  then have "0x100000 \<le> sint off" by (auto simp: ew_range_ok_def word_sless_alt)
  then have eq: "int (unat off) = sint off" by (intro unat_sint_pos) simp
  have "sint off < 2 ^ 63" using sint_lt [of off] by simp
  then have o1: "unat off < 2 ^ 63" unfolding eq [symmetric] by (metis of_nat_less_numeral_power_cancel_iff)
  have o2: "0x100000 \<le> unat off" using \<open>0x100000 \<le> sint off\<close> unfolding eq [symmetric] by linarith
  have o4: "unat off mod E = 0" using ok
    by (simp add: ew_range_ok_def u64_pow2_offset erasesize_pow2 dvd_eq_mod_eq_0)
  have o3: "unat (off + sz) \<le> S" using ok by (simp add: ew_range_ok_def not_less word_le_nat_alt)
  let ?s = "s\<lparr>ram := fill_bytes (ram s) ew_waddr 0 (unat (el_bufsize l))\<rparr>"
  let ?w = "\<lparr>ew_ret = el_ret l, ew_print = el_print l, ew_shown = el_shown l, ew_polls = 0, ew_events = []\<rparr>"
  have "inv ?s" "keeps 0x100000 s ?s" using ram_law assms(1) keeps_ram by auto
  moreover have "ew_waddr \<le> ew_raddr (el_bufsize l)" "ew_raddr (el_bufsize l) \<le> ew_waddr + E" "0 \<le> el_count l"
    using assms(2) [OF a(1)] ew_raddr_bounds by blast+
  ultimately obtain w s' where "ew_loop e m (ew_raddr (el_bufsize l)) (el_compare l) off sz (el_count l) (el_count l) (el_curcnt l) ?w ?s =
      Some (w, s')" "keeps (unat off) ?s s'"
    using keeps_loop [OF _ o4 o1 o3 _ assms(3,4)] by blast
  then show ?thesis using a ok keeps_trans [OF \<open>keeps 0x100000 s ?s\<close> keeps_mono [OF _ o2]]
    by (simp add: do_nand_ew_def off_def sz_def)
qed

end

section \<open>What the test reports\<close>

context mtd_dev begin

text \<open>
  One block of the test with comparison, when there is room for a block: the read does not fail, and a difference is
  reported exactly when a byte of the chip is not what the buffer holds.
\<close>

lemma ew_block_compare:
  assumes "inv s" "unat a mod E = 0" "unat a < S" "{ew_waddr ..< ew_waddr + 2 * E} \<inter> priv = {}"
    "E \<le> length (good s (unat a))"
  shows "\<exists>ev s'. ew_block m (ew_waddr + E) True a s = Some ((0, ev), s') \<and> inv s' \<and> bad s' = bad s \<and>
    (\<forall>x. ew_waddr \<le> x \<and> x < ew_waddr + E \<longrightarrow> ram s' x = ram s x) \<and>
    (CompareFailed a \<in> set ev \<longleftrightarrow> (\<exists>i < E. flash s' (good s (unat a) ! i) \<noteq> ram s (ew_waddr + i))) \<and>
    set ev \<subseteq> {WriteFailed r |r. r < 0} \<union> {CompareFailed a} \<and>
    (write_never_fails \<longrightarrow> set ev \<subseteq> {CompareFailed a} \<and>
       (\<forall>i < E. flash s' (good s (unat a) ! i) = flash s (good s (unat a) ! i) AND ram s (ew_waddr + i)))"
proof -
  let ?g = "take E (good s (unat a))"
  have al: "W dvd unat a" "W dvd E" using assms(2) page_block by (auto intro: dvd_trans)
  have buf: "{ew_waddr ..< ew_waddr + E} \<inter> priv = {}" "{ew_waddr + E ..< ew_waddr + E + E} \<inter> priv = {}"
    using assms(4) by (auto simp: disjoint_iff)
  have g: "length ?g = E" "\<And>i. i < E \<Longrightarrow> ?g ! i = good s (unat a) ! i" using assms(5) by simp_all
  obtain ret s1 where w: "nand_write_skip_bad m a (erasesize m) ew_waddr False s = Some (ret, s1)"
      "wrote_list ?g ew_waddr ret s s1"
    using nand_write_skip_bad [OF assms(1,3) al E_bound disjI1 [OF assms(2)] buf(1), of False] assms(5) by auto
  then have s1: "inv s1" "bad s1 = bad s" "ram_kept priv s s1" "ret \<le> 0" "write_never_fails \<Longrightarrow> ret = 0"
    by (simp_all add: wrote_list_def)
  have "W \<le> E" using page_block E_pos by (simp add: dvd_imp_le)
  from nand_read_skip_bad [OF s1(1) assms(3) al(1) this E_bound disjI1 [OF assms(2)] buf(2)]
  obtain s2 where r: "nand_read_skip_bad m a (erasesize m) (ew_waddr + E) s1 = Some ((0, erasesize m), s2)"
      "has_read ?g (ew_waddr + E) s1 s2"
    using al(2) assms(5) by (auto simp: s1(2) dvd_eq_mod_eq_0 min_def)
  have wbuf: "ram s2 x = ram s x" if "ew_waddr \<le> x" "x < ew_waddr + E" for x
  proof -
    have "x \<notin> priv" using buf(1) that by (auto simp: disjoint_iff)
    then show ?thesis using r(2) that ram_keptD [OF s1(3)] by (simp add: has_read_def g(1))
  qed
  have rbuf: "ram s2 (ew_waddr + E + i) = flash s2 (good s (unat a) ! i)" if "i < E" for i
  proof -
    have "ew_waddr + E + i \<notin> priv" using buf(2) that by (auto simp: disjoint_iff)
    then show ?thesis using r(2) that g by (simp add: has_read_def)
  qed
  have diff: "load_bytes (ram s2) ew_waddr E \<noteq> load_bytes (ram s2) (ew_waddr + E) E \<longleftrightarrow>
      (\<exists>i < E. flash s2 (good s (unat a) ! i) \<noteq> ram s (ew_waddr + i))"
    by (auto simp: list_eq_iff_nth_eq nth_load_bytes wbuf rbuf)
  define ev where "ev = (if ret < 0 then [WriteFailed ret] else []) @
      (if load_bytes (ram s2) ew_waddr E \<noteq> load_bytes (ram s2) (ew_waddr + E) E then [CompareFailed a] else [])"
  have "ew_block m (ew_waddr + E) True a s = Some ((0, ev), s2)" using w(1) r(1) by (simp add: ew_block_def ev_def)
  moreover have "inv s2" "bad s2 = bad s" "flash s2 = flash s1" using r(2) s1(2) by (simp_all add: has_read_def)
  moreover have "CompareFailed a \<in> set ev \<longleftrightarrow> (\<exists>i < E. flash s2 (good s (unat a) ! i) \<noteq> ram s (ew_waddr + i))"
    unfolding diff [symmetric] by (auto simp: ev_def)
  moreover have "set ev \<subseteq> {WriteFailed r |r. r < 0} \<union> {CompareFailed a}" by (auto simp: ev_def)
  moreover have "set ev \<subseteq> {CompareFailed a}" if write_never_fails using s1(5) [OF that] by (auto simp: ev_def)
  moreover have "flash s1 (good s (unat a) ! i) = flash s (good s (unat a) ! i) AND ram s (ew_waddr + i)"
    if write_never_fails "i < E" for i
    using w(2) s1(5) [OF that(1)] that(2) g by (simp add: wrote_list_def)
  ultimately show ?thesis using wbuf by auto
qed

text \<open>A block from which on all blocks are bad: the write refuses, which is reported, and nothing is read.\<close>

lemma ew_block_no_room:
  assumes "inv s" "unat a mod E = 0" "unat a < S" "{ew_waddr ..< ew_waddr + 2 * E} \<inter> priv = {}" "good s (unat a) = []"
  shows "\<exists>s'. ew_block m (ew_waddr + E) need_compare a s =
      Some ((if need_compare then 0 else - EINVAL, [WriteFailed (- EINVAL)]), s') \<and> inv s' \<and> flash s' = flash s \<and> bad s' = bad s"
proof -
  have al: "W dvd unat a" "W dvd E" using assms(2) page_block by (auto intro: dvd_trans)
  have buf: "{ew_waddr ..< ew_waddr + E} \<inter> priv = {}" "{ew_waddr + E ..< ew_waddr + E + E} \<inter> priv = {}"
    using assms(4) by (auto simp: disjoint_iff)
  obtain s1 where w: "nand_write_skip_bad m a (erasesize m) ew_waddr False s = Some (- EINVAL, s1)"
      "inv s1" "flash s1 = flash s" "bad s1 = bad s"
    using nand_write_skip_bad [OF assms(1,3) al E_bound disjI1 [OF assms(2)] buf(1), of False] assms(5) E_pos by auto
  show ?thesis
  proof (cases need_compare)
    case False
    then show ?thesis using w by (simp add: ew_block_def)
  next
    case True
    have "W \<le> E" using page_block E_pos by (simp add: dvd_imp_le)
    from nand_read_skip_bad [OF w(2) assms(3) al(1) this E_bound disjI1 [OF assms(2)] buf(2)]
    obtain s2 where "nand_read_skip_bad m a (erasesize m) (ew_waddr + E) s1 = Some ((0, 0), s2)" "has_read [] (ew_waddr + E) s1 s2"
      using assms(5) by (auto simp: w(4))
    then show ?thesis using w True by (simp add: ew_block_def Let_def has_read_def)
  qed
qed

end

text \<open>The events that report a fault.\<close>

definition faults :: "event list \<Rightarrow> event list" where
  "faults ev = filter (\<lambda>e. case e of WriteFailed _ \<Rightarrow> True | ReadFailed _ \<Rightarrow> True | CompareFailed _ \<Rightarrow> True | _ \<Rightarrow> False) ev"

lemma faults_append [simp]: "faults (xs @ ys) = faults xs @ faults ys" by (simp add: faults_def)

lemma faults_simps [simp]: "faults [] = []" "faults [Progress a p] = []" "faults [Rate c r] = []"
  by (simp_all add: faults_def)

lemma faults_report [simp]: "faults (ew_events (ew_report p a w)) = faults (ew_events w)"
  by (simp add: ew_report_def)

context mtd_reliable begin

text \<open>The pattern of the test is all zeros, which a working chip takes whatever was programmed before.\<close>

lemma ew_block_clean:
  assumes "inv s" "unat a mod E = 0" "unat a < S" "{ew_waddr ..< ew_waddr + 2 * E} \<inter> priv = {}"
    "E \<le> length (good s (unat a))" "\<And>x. ew_waddr \<le> x \<Longrightarrow> x < ew_waddr + E \<Longrightarrow> ram s x = 0"
  shows "\<exists>s'. ew_block m (ew_waddr + E) True a s = Some ((0, []), s') \<and> inv s' \<and> bad s' = bad s \<and>
    (\<forall>x. ew_waddr \<le> x \<and> x < ew_waddr + E \<longrightarrow> ram s' x = 0)"
proof -
  obtain ev s' where b: "ew_block m (ew_waddr + E) True a s = Some ((0, ev), s')" "inv s'" "bad s' = bad s"
    "\<forall>x. ew_waddr \<le> x \<and> x < ew_waddr + E \<longrightarrow> ram s' x = ram s x"
    "CompareFailed a \<in> set ev \<longleftrightarrow> (\<exists>i < E. flash s' (good s (unat a) ! i) \<noteq> ram s (ew_waddr + i))"
    "set ev \<subseteq> {CompareFailed a}"
    "\<forall>i < E. flash s' (good s (unat a) ! i) = flash s (good s (unat a) ! i) AND ram s (ew_waddr + i)"
    using ew_block_compare [OF assms(1-5)] never_fails(2) by blast
  have "CompareFailed a \<notin> set ev" using b(5,7) assms(6) by simp
  then have "ev = []" using b(6) by (cases ev) auto
  then show ?thesis using b(1-4) assms(6) by auto
qed


lemma good_mono: "lo \<le> hi \<Longrightarrow> length (good s hi) \<le> length (good s lo)"
proof (cases "hi \<le> S")
  case True
  assume "lo \<le> hi"
  then show ?thesis using good_addrs_split [of lo hi S E "bad s"] True by simp
qed (simp add: good_addrs_end)

text \<open>The state that a clean run keeps: \<open>bd\<close> are the bad blocks.\<close>

definition clean :: "(nat \<Rightarrow> bool) \<Rightarrow> 'h nand_st \<Rightarrow> bool" where
  "clean bd s \<longleftrightarrow> inv s \<and> bad s = bd \<and> (\<forall>x. ew_waddr \<le> x \<and> x < ew_waddr + E \<longrightarrow> ram s x = 0)"

lemma clean_pass:
  assumes "clean bd s" "unat a mod E = 0" "off \<le> a" "unat (off + sz) \<le> S" "unat a < 2 ^ 63"
    "{ew_waddr ..< ew_waddr + 2 * E} \<inter> priv = {}" "E dvd unat (off + sz)" "off + sz \<noteq> 0"
    "E \<le> length (good_addrs E S bd (unat (off + sz) - E))" "ew_ret w = 0 \<or> a < off + sz"
  shows "\<exists>b w' s'. ew_pass e m (ew_waddr + E) True off sz a w s = Some ((b, w'), s') \<and> clean bd s' \<and>
      faults (ew_events w') = faults (ew_events w) \<and> ew_ret w' = 0"
  using assms(1-3,5,10)
proof (induction "S - unat a" arbitrary: a w s rule: less_induct)
  case less
  have "unat (off + sz) < 2 ^ 63" using assms(4) size_bound by simp
  then have cmp: "word_sless a (off + sz) \<longleftrightarrow> unat a < unat (off + sz)"
    using less.prems(4) by (intro word_sless_small)
  show ?case
  proof (cases "unat a < unat (off + sz)")
    case False
    then have "ew_pass e m (ew_waddr + E) True off sz a w s = Some ((False, w), s)"
      using cmp by (subst ew_pass.simps) simp
    then show ?thesis using less.prems(1,5) False by (auto simp: word_less_nat_alt)
  next
    case True
    then have aS: "unat a < S" using assms(4) by simp
    have inv: "inv s" and bd: "bad s = bd" using less.prems(1) by (simp_all add: clean_def)
    have "unat a + E \<le> unat (off + sz)"
      using block_end_le [OF E_pos assms(7) True] less.prems(2) by simp
    then have "unat a \<le> unat (off + sz) - E" by linarith
    from order_trans [OF assms(9) good_mono [OF this, of s, unfolded bd]]
    have "E \<le> length (good s (unat a))" by (simp add: bd)
    then obtain s1 where b: "ew_block m (ew_waddr + E) True a s = Some ((0, []), s1)" "clean bd s1"
      using ew_block_clean [OF inv less.prems(2) aS assms(6)] less.prems(1) by (auto simp: clean_def)
    obtain p where p: "(if ew_print w then ew_percent m a off sz else Some 0) = Some p"
      using ew_shown_ends [OF aS less.prems(3) _ assms(4)] True by (auto simp: word_less_nat_alt simp del: if_split)
    define w1 where "w1 = (let w = ew_report p a (w\<lparr>ew_ret := 0, ew_events := ew_events w @ []\<rparr>)
      in w\<lparr>ew_polls := ew_polls w + 1\<rparr>)"
    have w1: "ew_ret w1 = 0" "faults (ew_events w1) = faults (ew_events w)"
      by (simp_all add: w1_def Let_def ew_report_def)
    let ?a = "a + ucast (erasesize m)"
    have le: "unat a + E \<le> S" using block_end_le [OF E_pos block_size aS] less.prems(2) by simp
    have a': "unat ?a = unat a + E" using le size_bound by (subst unat_add_u64) auto
    have "\<exists>b w' s'. ew_pass e m (ew_waddr + E) True off sz ?a w1 s1 = Some ((b, w'), s') \<and> clean bd s' \<and>
        faults (ew_events w') = faults (ew_events w1) \<and> ew_ret w' = 0"
      by (rule less.hyps)
        (use a' le aS E_pos b(2) w1(1) less.prems(2,3) size_bound in \<open>auto simp: word_le_nat_alt\<close>)
    then show ?thesis using True cmp b p w1
      by (subst ew_pass.simps) (auto simp: Let_def w1_def)
  qed
qed

lemma clean_erase:
  assumes "clean bd s" "{marker ..< marker + 8} \<subseteq> priv" "E dvd unat (opt_offset opts)" "unat (opt_offset opts) < S"
    "opt_length opts \<noteq> 0" "unat (opt_length opts) < 2 ^ 62" "\<not> opt_scrub opts" "\<not> opt_jffs2 opts"
    "{ew_waddr ..< ew_waddr + 2 * E} \<inter> priv = {}"
  shows "\<exists>s'. nand_erase_opts m opts marker s = Some (0, s') \<and> clean bd s'"
proof -
  obtain s' where e: "nand_erase_opts m opts marker s = Some (0, s')" "inv s'" "ram_kept priv s s'" "bad s' = bad s"
    using nand_erase_opts [of s marker opts] assms never_fails(1) by (auto simp: clean_def erased_blocks_def blank_blocks_def)
  have "ram s' x = ram s x" if "ew_waddr \<le> x" "x < ew_waddr + E" for x
    using ram_keptD [OF e(3), of x] assms(9) that by (auto simp: disjoint_iff)
  then show ?thesis using e assms(1) by (simp add: clean_def)
qed

lemma clean_loop:
  assumes "clean bd s" "E dvd unat off" "unat off + unat sz \<le> S" "E dvd unat sz" "sz \<noteq> 0" "0 \<le> count"
    "{ew_waddr ..< ew_waddr + 2 * E} \<inter> priv = {}" "{ce_marker e ..< ce_marker e + 8} \<subseteq> priv"
    "E \<le> length (good_addrs E S bd (unat off + unat sz - E))" "ew_ret w = 0"
  shows "\<exists>w' s'. ew_loop e m (ew_waddr + E) True off sz rounds count curcnt w s = Some (w', s') \<and>
      faults (ew_events w') = faults (ew_events w) \<and> ew_ret w' = 0 \<and> clean bd s'"
  using assms(1,6,10)
proof (induction "nat count" arbitrary: count curcnt w s rule: less_induct)
  case less
  have sz: "0 < unat sz" using assms(5) by (simp add: unat_gt_0)
  have sum: "unat (off + sz) = unat off + unat sz"
    using assms(3) size_bound by (subst unat_add_small) simp_all
  show ?case
  proof (cases "count = 0")
    case True
    then show ?thesis using less.prems(1,3) by (subst ew_loop.simps) simp
  next
    case False
    let ?o = "\<lparr>opt_length = sz, opt_offset = off, opt_quiet = False, opt_jffs2 = False, opt_scrub = False\<rparr>"
    have "unat off < S" "unat sz < 2 ^ 62" using assms(3) sz size_bound by linarith+
    then obtain s1 where er: "nand_erase_opts m ?o (ce_marker e) s = Some (0, s1)" "clean bd s1"
      using clean_erase [OF less.prems(1) assms(8), of ?o] assms(2,5,7) by auto
    have "\<exists>b w' s'. ew_pass e m (ew_waddr + E) True off sz off (w\<lparr>ew_ret := 0\<rparr>) s1 = Some ((b, w'), s') \<and> clean bd s' \<and>
        faults (ew_events w') = faults (ew_events (w\<lparr>ew_ret := 0\<rparr>)) \<and> ew_ret w' = 0"
      by (rule clean_pass)
        (use er(2) assms sum sz size_bound in \<open>auto simp: dvd_eq_mod_eq_0 word_less_nat_alt simp flip: unat_eq_0\<close>)
    then obtain stopped w1 s2 where ps: "ew_pass e m (ew_waddr + E) True off sz off (w\<lparr>ew_ret := 0\<rparr>) s1 = Some ((stopped, w1), s2)"
      "clean bd s2" "faults (ew_events w1) = faults (ew_events w)" "ew_ret w1 = 0" by auto
    define c where "c = (if stopped then 0 else count - 1)"
    have c: "nat c < nat count" "0 \<le> c" using less.prems(2) False by (auto simp: c_def)
    obtain w' s' where l: "ew_loop e m (ew_waddr + E) True off sz rounds c (curcnt + 1)
          (w1\<lparr>ew_events := ew_events w1 @ [Rate curcnt rounds]\<rparr>) s2 = Some (w', s')"
        "faults (ew_events w') = faults (ew_events w)" "ew_ret w' = 0" "clean bd s'"
      using less.hyps [OF c(1) ps(2) c(2), of "w1\<lparr>ew_events := ew_events w1 @ [Rate curcnt rounds]\<rparr>" "curcnt + 1"] ps(3,4)
      by auto
    have "ew_loop e m (ew_waddr + E) True off sz rounds count curcnt w s = Some (w', s')"
      using False er(1) ps(1) l(1) unfolding c_def by (subst ew_loop.simps) simp
    then show ?thesis using l(2-4) by blast
  qed
qed

lemma do_nand_ew_clean:
  assumes "inv s" "ew_args e m argv = Some l" "el_compare l" "0 \<le> el_count l" "el_ret l = 0" "sint (el_bufsize l) = 2 * int E"
    "ew_range_ok m (el_off l) (el_size l)" "unat (el_off l) + unat (el_size l) \<le> S" "el_size l \<noteq> 0"
    "{ew_waddr ..< ew_waddr + 2 * E} \<inter> priv = {}" "{ce_marker e ..< ce_marker e + 8} \<subseteq> priv"
    "E \<le> length (good s (unat (el_off l) + unat (el_size l) - E))"
  shows "\<exists>ev s'. do_nand_ew e m argv s = Some ((0, ev), s') \<and> faults ev = []"
proof -
  let ?s = "s\<lparr>ram := fill_bytes (ram s) ew_waddr 0 (unat (el_bufsize l))\<rparr>"
  let ?w = "\<lparr>ew_ret = el_ret l, ew_print = el_print l, ew_shown = el_shown l, ew_polls = 0, ew_events = []\<rparr>"
  note b = ew_bufsize [OF assms(6)]
  have "clean (bad s) ?s" using assms(1) ram_law unfolding b(1)
    by (auto simp: clean_def fill_bytes_def store_bytes_def)
  moreover have "E dvd unat (el_off l)" "E dvd unat (el_size l)" using assms(7)
    by (simp_all add: ew_range_ok_def u64_pow2_offset erasesize_pow2)
  ultimately have "\<exists>w' s'. ew_loop e m (ew_waddr + E) True (el_off l) (el_size l) (el_count l) (el_count l) (el_curcnt l) ?w ?s = Some (w', s') \<and>
      faults (ew_events w') = faults (ew_events ?w) \<and> ew_ret w' = 0 \<and> clean (bad s) s'"
    using assms(4,5,8-12) by (intro clean_loop) simp_all
  then obtain w s' where "ew_loop e m (ew_waddr + E) True (el_off l) (el_size l) (el_count l) (el_count l) (el_curcnt l) ?w ?s = Some (w, s')"
    "faults (ew_events w) = []" "ew_ret w = 0" by auto
  then show ?thesis using assms(2,3,7) by (simp add: do_nand_ew_def b(2))
qed

end

end
