(* ===== verification/NandDriver.thy ===== *)
theory NandDriver
  imports BbtProps MtdDev
begin

text \<open>
  The board driver that the generic layer is built on, as a locale: what the functions that it puts into
  \<open>struct nand_chip\<close> (select, commands, wait, byte and buffer transfers) promise for one chip without software error
  correction (\<open>NAND_ECC_NONE\<close>, the mode of the controller of this board, which corrects by itself).  From it the contract
  \<open>mtd_dev\<close> is proved for the device that \<open>nand_scan_tail\<close> builds.

  The contract is a state machine: \<open>reading\<close>, \<open>loading\<close> and \<open>in_status\<close> tell what the chip has been asked for.
  \<open>cells\<close> are the bytes of the pages, spare bytes behind the data.  A failed program operation may leave bits of the
  page as they were; a failed erase operation may leave anything in its block.
\<close>

section \<open>The contract of a driver\<close>

text \<open>Only the hardware has changed, and not the cells.\<close>

definition quiet :: "('h \<Rightarrow> bool) \<Rightarrow> ('h \<Rightarrow> int \<Rightarrow> nat \<Rightarrow> u8) \<Rightarrow> 'h nand_st \<Rightarrow> 'h nand_st \<Rightarrow> bool" where
  "quiet ok cells s s' \<longleftrightarrow> s' = s\<lparr>hw := hw s'\<rparr> \<and> ok (hw s') \<and> cells (hw s') = cells (hw s)"

definition page_bytes :: "'a mtd_geom_scheme \<Rightarrow> nat" where
  "page_bytes m = unat (writesize m) + unat (oobsize m)"

definition block_pages :: "('h, 'z) nand_hw_scheme \<Rightarrow> int" where
  "block_pages m = 2 ^ (phys_erase_shift m - page_shift m)"

text \<open>The bytes of a page that a program operation must get right: the data and the mark of a bad block.\<close>

definition vital :: "('h, 'z) nand_hw_scheme \<Rightarrow> nat \<Rightarrow> bool" where
  "vital m i \<longleftrightarrow> i < unat (writesize m) \<or> i = unat (writesize m) + badblockpos m"

locale nand_driver =
  fixes d :: "'h nand_hw"
    and ok :: "'h \<Rightarrow> bool"
    and cells :: "'h \<Rightarrow> int \<Rightarrow> nat \<Rightarrow> u8"
    and in_status :: "'h \<Rightarrow> bool"
    and reading :: "'h \<Rightarrow> int \<Rightarrow> nat \<Rightarrow> bool"
    and loading :: "'h \<Rightarrow> int \<Rightarrow> nat \<Rightarrow> (nat \<Rightarrow> u8) \<Rightarrow> bool"
  assumes shifts: "2 \<le> page_shift d" "page_shift d \<le> phys_erase_shift d" "phys_erase_shift d \<le> chip_shift d"
      "phys_erase_shift d < 32" "chip_shift d < 62" "chip_shift d < page_shift d + 31"
    and sizes: "writesize d = 2 ^ page_shift d" "erasesize d = 2 ^ phys_erase_shift d" "mtd_size d = 2 ^ chip_shift d"
      "bbt_erase_shift d = phys_erase_shift d" "pagemask d = mask (chip_shift d - page_shift d)"
      "oobsize d < writesize d"
    and subpages: "pow2_size (subpagesize d)" "subpagesize d \<le> writesize d"
    and modes: "ecc_mode d = NAND_ECC_NONE" "errstat d = None" "layout_fits (oobfree (ecclayout d)) (unat (oobsize d))"
      "oobavail (ecclayout d) \<le> oobsize d"
    and mark_position: "badblockpos d < unat (oobsize d)"
    and default_block_bad: "block_bad_fn d = None"
    and select_law: "ok (hw s) \<Longrightarrow> chip = 0 \<or> chip = - 1 \<Longrightarrow> quiet ok cells s (select_chip d chip s)"
    and ready_law: "ok (hw s) \<Longrightarrow> quiet ok cells s (wait_ready d s)"
    and reset_law: "ok (hw s) \<Longrightarrow> quiet ok cells s (cmdfunc d NAND_CMD_RESET (- 1) (- 1) s)"
    and status_law: "ok (hw s) \<Longrightarrow> s' = cmdfunc d NAND_CMD_STATUS (- 1) (- 1) s \<Longrightarrow>
      quiet ok cells s s' \<and> in_status (hw s')"
    and status_byte_law: "ok (hw s) \<Longrightarrow> in_status (hw s) \<Longrightarrow> read_byte d s = (b, s') \<Longrightarrow>
      quiet ok cells s s' \<and> b AND NAND_STATUS_WP \<noteq> 0"
    and read_cmd_law: "ok (hw s) \<Longrightarrow> 0 \<le> p \<Longrightarrow> p \<le> pagemask d \<Longrightarrow> s' = cmdfunc d NAND_CMD_READ0 0 p s \<Longrightarrow>
      quiet ok cells s s' \<and> reading (hw s') p 0"
    and readoob_cmd_law: "ok (hw s) \<Longrightarrow> 0 \<le> p \<Longrightarrow> p \<le> pagemask d \<Longrightarrow> c < unat (oobsize d) \<Longrightarrow>
      s' = cmdfunc d NAND_CMD_READOOB (int c) p s \<Longrightarrow>
      quiet ok cells s s' \<and> reading (hw s') p (unat (writesize d) + c)"
    and read_byte_law: "ok (hw s) \<Longrightarrow> reading (hw s) p c \<Longrightarrow> c < page_bytes d \<Longrightarrow> read_byte d s = (b, s') \<Longrightarrow>
      quiet ok cells s s' \<and> b = cells (hw s) p c"
    and read_buf_law: "ok (hw s) \<Longrightarrow> reading (hw s) p c \<Longrightarrow> c + n \<le> page_bytes d \<Longrightarrow>
      s' = read_buf d buf n s \<Longrightarrow>
      s' = s\<lparr>hw := hw s', ram := store_bytes (ram s) buf (map (cells (hw s) p) [c ..< c + n])\<rparr> \<and>
      ok (hw s') \<and> cells (hw s') = cells (hw s) \<and> reading (hw s') p (c + n)"
    and seqin_law: "ok (hw s) \<Longrightarrow> 0 \<le> p \<Longrightarrow> p \<le> pagemask d \<Longrightarrow> c < page_bytes d \<Longrightarrow>
      s' = cmdfunc d NAND_CMD_SEQIN (int c) p s \<Longrightarrow> quiet ok cells s s' \<and> (\<exists>r. loading (hw s') p c r)"
    and write_buf_law: "ok (hw s) \<Longrightarrow> loading (hw s) p c r \<Longrightarrow> c + n \<le> page_bytes d \<Longrightarrow>
      s' = write_buf d buf n s \<Longrightarrow>
      quiet ok cells s s' \<and>
      loading (hw s') p (c + n) (\<lambda>i. if c \<le> i \<and> i < c + n then ram s (buf + (i - c)) else r i)"
    and program_law: "ok (hw s) \<Longrightarrow> loading (hw s) p c r \<Longrightarrow> chip_options s AND NAND_IS_AND = 0 \<Longrightarrow>
      waitfunc d (cmdfunc d NAND_CMD_PAGEPROG (- 1) (- 1) s) = (st, s') \<Longrightarrow>
      s' = s\<lparr>hw := hw s'\<rparr> \<and> ok (hw s') \<and> (\<forall>q. q \<noteq> p \<longrightarrow> cells (hw s') q = cells (hw s) q) \<and>
      (\<exists>k. (\<forall>i. vital d i \<longrightarrow> cells (hw s') p i = cells (hw s) p i AND (r i OR k i)) \<and>
           (st AND NAND_STATUS_FAIL = 0 \<longrightarrow> k = (\<lambda>_. 0)))"
    and erase_law: "ok (hw s) \<Longrightarrow> 0 \<le> p \<Longrightarrow> p \<le> pagemask d \<Longrightarrow> chip_options s AND NAND_IS_AND = 0 \<Longrightarrow>
      waitfunc d (cmdfunc d NAND_CMD_ERASE2 (- 1) (- 1) (cmdfunc d NAND_CMD_ERASE1 (- 1) p s)) = (st, s') \<Longrightarrow>
      s' = s\<lparr>hw := hw s'\<rparr> \<and> ok (hw s') \<and>
      (\<forall>q. q div block_pages d \<noteq> p div block_pages d \<longrightarrow> cells (hw s') q = cells (hw s) q) \<and>
      (st AND NAND_STATUS_FAIL = 0 \<longrightarrow>
        (\<forall>q i. q div block_pages d = p div block_pages d \<longrightarrow> i < page_bytes d \<longrightarrow> cells (hw s') q i = 0xff))"

section \<open>Arithmetic of the page numbers\<close>

lemma unat_drop_bit: "unat (drop_bit n (x :: u64)) = unat x div 2 ^ n"
  using unsigned_less [of x, where 'a = nat]
  by (subst unsigned_drop_bit_eq) (simp add: take_bit_nat_eq_self drop_bit_eq_div [where 'a = nat])

lemma int_shift_small:
  assumes "unat x < 2 ^ 63" "unat x div 2 ^ n < 2 ^ 31"
  shows "int_shift x n = int (unat x div 2 ^ n)"
proof -
  have "take_bit 63 x = x"
    by (rule word_unat_eq_iff [THEN iffD2]) (use assms(1) in \<open>simp add: unsigned_take_bit_eq take_bit_nat_eq_self\<close>)
  then have "\<not> bit x 63" by (metis bit_take_bit_iff less_irrefl)
  then have d: "signed_drop_bit n x = drop_bit n x"
    by (intro bit_word_eqI) (auto simp: bit_signed_drop_bit_iff bit_drop_bit_eq min_def not_less
        simp del: bit_0 dest: le_neq_implies_less bit_imp_le_length)
  have "unat (drop_bit n x) = unat x div 2 ^ n" by (rule unat_drop_bit)
  then have "unat (ucast (drop_bit n x) :: u32) = unat x div 2 ^ n"
    using assms(2) by (simp add: unsigned_ucast_eq take_bit_nat_eq_self)
  then show ?thesis using assms(2) sint_small [of "ucast (drop_bit n x) :: u32"] by (simp add: int_shift_def d)
qed

lemma int_and_mask: "0 \<le> p \<Longrightarrow> p \<le> mask k \<Longrightarrow> p AND mask k = (p :: int)"
  unfolding take_bit_eq_mask [symmetric] by (rule take_bit_int_eq_self) (simp_all add: mask_eq_exp_minus_1)


context nand_driver begin

abbreviation (input) "W \<equiv> 2 ^ page_shift d :: nat"
abbreviation (input) "pages \<equiv> 2 ^ (chip_shift d - page_shift d) :: nat"

lemma pow2_sizes: "pow2_size (writesize d)" "pow2_size (erasesize d)"
proof -
  show "pow2_size (erasesize d)" using shifts(4) sizes(2) by (auto simp: pow2_size_def)
  have "page_shift d < 32" using shifts by simp
  then show "pow2_size (writesize d)" using sizes(1) by (auto simp: pow2_size_def)
qed

lemma unat_sizes: "unat (writesize d) = W" "unat (erasesize d) = 2 ^ phys_erase_shift d"
    "unat (mtd_size d) = 2 ^ chip_shift d"
  using shifts by (simp_all add: sizes unat_pow2)

lemma size_pages: "2 ^ chip_shift d = W * pages"
  using shifts by (simp flip: power_add)

lemma size_bounds: "(2 ^ chip_shift d :: nat) < 2 ^ 62" "pages < 2 ^ 31"
proof -
  show "(2 ^ chip_shift d :: nat) < 2 ^ 62" using shifts by (intro power_strict_increasing) simp_all
  have "chip_shift d - page_shift d < 31" using shifts by simp
  then show "pages < 2 ^ 31" by (intro power_strict_increasing) simp_all
qed

lemma pagemask: "pagemask d = int pages - 1" by (simp add: sizes mask_eq_exp_minus_1)

lemma page_and: "p < pages \<Longrightarrow> int p AND pagemask d = int p"
  using int_and_mask [of "int p" "chip_shift d - page_shift d"] by (simp add: sizes mask_eq_exp_minus_1)

lemma shift_page:
  assumes "unat a < 2 ^ chip_shift d"
  shows "int_shift a (page_shift d) = int (unat a div W)" "unat a div W < pages"
    "int_shift a (chip_shift d) = 0" "page_of d a = int (unat a div W)"
proof -
  show lt: "unat a div W < pages" using assms by (simp add: size_pages less_mult_imp_div_less mult.commute)
  show eq: "int_shift a (page_shift d) = int (unat a div W)"
    using assms size_bounds lt by (intro int_shift_small) simp_all
  show "int_shift a (chip_shift d) = 0"
    using assms size_bounds by (subst int_shift_small) simp_all
  show "page_of d a = int (unat a div W)" unfolding page_of_def eq by (rule page_and [OF lt])
qed

lemma quiet_refl: "ok (hw s) \<Longrightarrow> quiet ok cells s s" by (simp add: quiet_def)

lemma quiet_trans: "quiet ok cells s s1 \<Longrightarrow> quiet ok cells s1 s2 \<Longrightarrow> quiet ok cells s s2"
  by (cases s, cases s1, cases s2) (simp add: quiet_def)


text \<open>Only the hardware and the memory have changed, and not the cells.\<close>

definition kept :: "'h nand_st \<Rightarrow> 'h nand_st \<Rightarrow> bool" where
  "kept s s' \<longleftrightarrow> s' = s\<lparr>hw := hw s', ram := ram s'\<rparr> \<and> ok (hw s') \<and> cells (hw s') = cells (hw s)"

lemma kept_trans: "kept s s1 \<Longrightarrow> kept s1 s2 \<Longrightarrow> kept s s2"
  by (cases s, cases s1, cases s2) (simp add: kept_def)

lemma quiet_kept: "quiet ok cells s s' \<longleftrightarrow> kept s s' \<and> ram s' = ram s"
  by (cases s, cases s') (auto simp: quiet_def kept_def)

lemma keptD:
  assumes "kept s s'"
  shows "ok (hw s')" "cells (hw s') = cells (hw s)" "chip_pagebuf s' = chip_pagebuf s" "chip_options s' = chip_options s"
    "chip_bbt s' = chip_bbt s" "ecc_stats s' = ecc_stats s" "chip_ops s' = chip_ops s" "chip_scrubbed s' = chip_scrubbed s"
  using assms by (cases s, cases s', simp add: kept_def)+

lemma kept_ram: "ok (hw s) \<Longrightarrow> kept s (s\<lparr>ram := mm\<rparr>)" by (simp add: kept_def)

text \<open>The data byte at a device address.\<close>

definition data_at :: "'h nand_st \<Rightarrow> nat \<Rightarrow> u8" where
  "data_at s a = cells (hw s) (int (a div W)) (a mod W)"

lemma data_at_page: "i < W \<Longrightarrow> data_at s (W * p + i) = cells (hw s) (int p) i"
  by (simp add: data_at_def)

lemma data_at_kept: "kept s s' \<Longrightarrow> data_at s' = data_at s"
  by (rule ext) (simp add: data_at_def keptD)

subsection \<open>Reading\<close>

lemma read_page:
  assumes "ok (hw s)" "p < pages"
  shows "\<exists>s'. nand_read_page_raw d buf (int p) (cmdfunc d NAND_CMD_READ0 0 (int p) s) = (0, s') \<and> kept s s' \<and>
    ram s' = store_bytes (store_bytes (ram s) buf (map (cells (hw s) (int p)) [0 ..< W])) (oob_poi d)
               (map (cells (hw s) (int p)) [W ..< page_bytes d])"
proof -
  let ?s1 = "cmdfunc d NAND_CMD_READ0 0 (int p) s"
  have 1: "kept s ?s1" "ram ?s1 = ram s" "reading (hw ?s1) (int p) 0"
    using read_cmd_law [OF assms(1) _ _ refl, of "int p"] assms(2) by (simp_all add: pagemask quiet_kept)
  let ?s2 = "read_buf d buf W ?s1"
  have 2: "kept ?s1 ?s2" "ram ?s2 = store_bytes (ram s) buf (map (cells (hw s) (int p)) [0 ..< W])"
      "reading (hw ?s2) (int p) W"
    using read_buf_law [OF keptD(1) [OF 1(1)] 1(3) _ refl, of W buf] 1(2) keptD(2) [OF 1(1)]
    by (cases ?s1; cases ?s2; simp add: kept_def page_bytes_def unat_sizes)+
  let ?s3 = "read_buf d (oob_poi d) (unat (oobsize d)) ?s2"
  have 3: "kept ?s2 ?s3" "ram ?s3 = store_bytes (ram ?s2) (oob_poi d) (map (cells (hw s) (int p)) [W ..< page_bytes d])"
    using read_buf_law [OF keptD(1) [OF 2(1)] 2(3) _ refl, of "unat (oobsize d)" "oob_poi d"] keptD(2) [OF 1(1)] keptD(2) [OF 2(1)]
    by (cases ?s2; cases ?s3; simp add: kept_def page_bytes_def unat_sizes)+
  have "nand_read_page_raw d buf (int p) ?s1 = (0, ?s3)" by (simp add: nand_read_page_raw_def unat_sizes)
  then show ?thesis using kept_trans [OF kept_trans [OF 1(1) 2(1)] 3(1)] 2(2) 3(2) by auto
qed


abbreviation (input) "spare_area \<equiv> {oob_poi d ..< oob_poi d + unat (oobsize d)}"

abbreviation (input) "the_chip fill scan \<equiv> scan_chip False (scan_ecc fill d) scan"

lemma W_less: "unat (oobsize d) < W" "0 < W"
  using sizes(6) unat_sizes(1) by (simp_all add: word_less_nat_alt)

text \<open>The locals at the start of a round that reads page \<open>p\<close>.\<close>

definition read_at :: "nat \<Rightarrow> u32 \<Rightarrow> u32 \<Rightarrow> nat \<Rightarrow> read_locals" where
  "read_at p n ooblen buf = \<lparr>rl_chipnr = 0, rl_realpage = int p, rl_page = int p, rl_col = 0, rl_sndcmd = True,
     rl_readlen = n, rl_oobreadlen = ooblen, rl_buf = buf, rl_oob = None\<rparr>"

lemma read_ops_page:
  assumes "ok (hw s)" "p < pages" "chip_pagebuf s = - 1" "W \<le> unat n"
  shows "\<exists>s'. read_ops_page (the_chip fill scan) ops (read_at p n ooblen buf) s =
      ((0, (read_at p n ooblen buf)\<lparr>rl_sndcmd := False, rl_buf := buf + W, rl_readlen := n - writesize d\<rparr>), s') \<and>
    kept s s' \<and> (\<forall>x. x \<notin> spare_area \<longrightarrow>
      ram s' x = (if buf \<le> x \<and> x < buf + W then data_at s (W * p + (x - buf)) else ram s x))"
proof -
  obtain s1 where r: "nand_read_page_raw d buf (int p) (cmdfunc d NAND_CMD_READ0 0 (int p) s) = (0, s1)" "kept s s1"
    "ram s1 = store_bytes (store_bytes (ram s) buf (map (cells (hw s) (int p)) [0 ..< W])) (oob_poi d)
               (map (cells (hw s) (int p)) [W ..< page_bytes d])"
    using read_page [OF assms(1,2)] by blast
  define s2 where "s2 = (if chip_options s1 AND NAND_NO_READRDY = 0 then wait_ready d s1 else s1)"
  have s2: "kept s1 s2" "ram s2 = ram s1"
    using ready_law [OF keptD(1) [OF r(2)]] quiet_refl [OF keptD(1) [OF r(2)]] by (simp_all add: s2_def quiet_kept)
  have full: "read_bytes_of (the_chip fill scan) (read_at p n ooblen buf) = writesize d"
    using assms(4) by (simp add: read_bytes_of_def read_at_def min_def word_le_nat_alt unat_sizes)
  have "read_ops_page (the_chip fill scan) ops (read_at p n ooblen buf) s =
      ((0, (read_at p n ooblen buf)\<lparr>rl_sndcmd := False, rl_buf := buf + W, rl_readlen := n - writesize d\<rparr>), s2)"
    using full r(1) assms(3)
    by (simp add: read_ops_page_def read_ops_fetch_def Let_def modes unat_sizes s2_def)
       (simp add: read_at_def unat_sizes)
  moreover have "ram s2 x = (if buf \<le> x \<and> x < buf + W then data_at s (W * p + (x - buf)) else ram s x)"
    if "x \<notin> spare_area" for x
    using that data_at_page [of "x - buf" s p]
    by (auto simp: s2(2) r(3) store_bytes_def page_bytes_def unat_sizes simp del: add_diff_assoc Nat.add_diff_assoc)
  ultimately show ?thesis using kept_trans [OF r(2) s2(1)] by blast
qed

lemma read_ops_loop:
  assumes "ok (hw s)" "chip_pagebuf s = - 1" "chip_options s AND NAND_NO_AUTOINCR \<noteq> 0"
    "0 < unat n" "W dvd unat n" "W * p + unat n \<le> 2 ^ chip_shift d" "{buf ..< buf + unat n} \<inter> spare_area = {}"
  shows "\<exists>v' s'. read_ops_loop (the_chip fill scan) ops 0 (read_at p n ooblen buf) s = Some ((0, v'), s') \<and>
    rl_readlen v' = 0 \<and> rl_oob v' = None \<and> kept s s' \<and> (\<forall>x. x \<notin> spare_area \<longrightarrow>
      ram s' x = (if buf \<le> x \<and> x < buf + unat n
                  then data_at s (W * p + (x - buf)) else ram s x))"
  using assms
proof (induction "unat n" arbitrary: n p buf s rule: less_induct)
  case less
  let ?c = "the_chip fill scan" and ?v = "read_at p n ooblen buf" and ?n = "n - writesize d"
  have Wn: "W \<le> unat n" using less.prems(4,5) by (simp add: dvd_imp_le)
  have n': "unat ?n = unat n - W" using Wn by (simp add: unat_sub_u32 word_le_nat_alt unat_sizes)
  have "W * (p + 1) \<le> W * pages" using less.prems(6) Wn by (simp add: size_pages algebra_simps)
  then have p: "p < pages" using W_less(2) by (simp only: mult_le_cancel1) simp
  obtain s1 where r: "read_ops_page ?c ops ?v s =
        ((0, ?v\<lparr>rl_sndcmd := False, rl_buf := buf + W, rl_readlen := ?n\<rparr>), s1)"
      "kept s s1" "\<forall>x. x \<notin> spare_area \<longrightarrow>
      ram s1 x = (if buf \<le> x \<and> x < buf + W then data_at s (W * p + (x - buf)) else ram s x)"
    using read_ops_page [OF less.prems(1) p less.prems(2) Wn] by blast
  have fetched: "rl_realpage ?v \<noteq> chip_pagebuf s \<or> rl_oob ?v \<noteq> None"
    by (simp add: read_at_def less.prems(2))
  show ?case
  proof (cases "?n = 0")
    case True
    then have "unat n = W" using n' Wn by simp
    then show ?thesis using r fetched True
      by (subst read_ops_loop.simps) (auto simp: read_at_def)
  next
    case False
    then have n0: "0 < unat ?n" by (simp add: unat_gt_0)
    then have "W * (p + 1) < W * pages" using less.prems(6) n' by (simp add: size_pages algebra_simps)
    then have p1: "p + 1 < pages" by (simp only: mult_less_cancel1)
    have page1: "(1 + int p) AND pagemask d = 1 + int p" using page_and [OF p1] by (simp add: add.commute)
    have soft: "chip_pagebuf s1 = - 1" "chip_options s1 AND NAND_NO_AUTOINCR \<noteq> 0" "ok (hw s1)"
      using less.prems(2,3) keptD [OF r(2)] by simp_all
    have nxt: "read_ops_next ?c (?v\<lparr>rl_sndcmd := False, rl_buf := buf + W, rl_readlen := ?n\<rparr>) s1 =
        (read_at (p + 1) ?n ooblen (buf + W), s1)"
      using soft(2) page1 by (simp add: read_ops_next_def read_at_def NAND_CANAUTOINCR_def Let_def add.commute)
    have step: "read_ops_loop ?c ops 0 ?v s = read_ops_loop ?c ops 0 (read_at (p + 1) ?n ooblen (buf + W)) s1"
      using r(1) fetched False nxt by (subst read_ops_loop.simps) (simp add: Let_def read_at_def)
    have "{buf + W ..< buf + W + unat ?n} \<inter> spare_area = {}" using less.prems(7) n' Wn by (auto simp: disjoint_iff)
    moreover have "W * (p + 1) + unat ?n \<le> 2 ^ chip_shift d" using less.prems(6) n' Wn by (simp add: algebra_simps)
    moreover have "W dvd unat ?n" using less.prems(5) n' by simp
    moreover have "unat ?n < unat n" unfolding n' by (rule diff_less [OF W_less(2) less.prems(4)])
    ultimately obtain v' s' where ih: "read_ops_loop ?c ops 0 (read_at (p + 1) ?n ooblen (buf + W)) s1 = Some ((0, v'), s')"
        "rl_readlen v' = 0" "rl_oob v' = None" "kept s1 s'"
        "\<forall>x. x \<notin> spare_area \<longrightarrow> ram s' x = (if buf + W \<le> x \<and> x < buf + W + unat ?n
          then data_at s1 (W * (p + 1) + (x - (buf + W)))
          else ram s1 x)"
      using less.hyps [OF _ soft(3,1,2) n0, of "p + 1" "buf + W"] by blast
    have "ram s' x = (if buf \<le> x \<and> x < buf + unat n
        then data_at s (W * p + (x - buf)) else ram s x)"
      if x: "x \<notin> spare_area" for x
    proof (cases "buf + W \<le> x")
      case True
      then have "W * (p + 1) + (x - (buf + W)) = W * p + (x - buf)" by (simp add: algebra_simps)
      then show ?thesis using True x ih(5) r(3) data_at_kept [OF r(2)] n' Wn by auto
    next
      case False
      then show ?thesis using x ih(5) r(3) Wn by auto
    qed
    then show ?thesis using step ih kept_trans [OF r(2) ih(4)] by auto
  qed
qed


text \<open>The state that the operations start in and keep.\<close>

definition drv_inv :: "'h nand_st \<Rightarrow> bool" where
  "drv_inv s \<longleftrightarrow> ok (hw s) \<and> chip_pagebuf s = - 1 \<and> chip_options s AND NAND_BBT_SCANNED \<noteq> 0 \<and>
     chip_options s AND NAND_NO_AUTOINCR \<noteq> 0 \<and> chip_options s AND NAND_USE_FLASH_BBT = 0 \<and>
     chip_options s AND BBT_AUTO_REFRESH = 0 \<and> chip_options s AND NAND_BUSWIDTH_16 = 0 \<and>
     chip_options s AND NAND_IS_AND = 0 \<and> \<not> chip_scrubbed s \<and>
     (\<forall>t. chip_bbt s = Some t \<longrightarrow> 2 ^ (chip_shift d - phys_erase_shift d) \<le> 4 * length t)"

lemma drv_inv_kept: "drv_inv s \<Longrightarrow> kept s s' \<Longrightarrow> drv_inv s'"
  using keptD [of s s'] by (simp add: drv_inv_def)

text \<open>Changes that no law looks at.\<close>

lemma drv_inv_soft [simp]:
  "drv_inv (s\<lparr>chip_state := st\<rparr>) = drv_inv s" "drv_inv (s\<lparr>chip_ops := ops\<rparr>) = drv_inv s"
  "drv_inv (s\<lparr>ram := mm\<rparr>) = drv_inv s" "drv_inv (s\<lparr>ecc_stats := es\<rparr>) = drv_inv s"
  by (simp_all add: drv_inv_def)

lemma data_at_soft [simp]:
  "data_at (s\<lparr>chip_state := st\<rparr>) = data_at s" "data_at (s\<lparr>chip_ops := ops\<rparr>) = data_at s"
  "data_at (s\<lparr>ram := mm\<rparr>) = data_at s" "data_at (s\<lparr>ecc_stats := es\<rparr>) = data_at s"
  by (rule ext; simp add: data_at_def)+

lemma nand_read_base:
  assumes "drv_inv s" "n \<noteq> 0" "W dvd unat a" "W dvd unat n" "unat a + unat n \<le> 2 ^ chip_shift d"
    "{buf ..< buf + unat n} \<inter> spare_area = {}"
  shows "\<exists>s'. nand_read_base (the_chip fill scan) a n k buf s = Some ((0, n), s') \<and> drv_inv s' \<and>
    data_at s' = data_at s \<and> cells (hw s') = cells (hw s) \<and> chip_bbt s' = chip_bbt s \<and> (\<forall>x. x \<notin> spare_area \<longrightarrow>
      ram s' x = (if buf \<le> x \<and> x < buf + unat n then data_at s (unat a + (x - buf)) else ram s x))"
proof -
  let ?c = "the_chip fill scan"
  define p where "p = unat a div W"
  have fr: "unat a = W * p" using assms(3) by (simp add: p_def)
  have n0: "0 < unat n" using assms(2) by (simp add: unat_gt_0)
  have lt: "unat a < 2 ^ chip_shift d" using assms(5) n0 by linarith
  have bound: "\<not> mtd_size d < a + ucast n"
    using assms(5) size_bounds(1) unat_add_u64 [of a n] by (simp add: word_less_nat_alt unat_sizes)
  define ops where "ops = (chip_ops s)\<lparr>ops_len := n, ops_datbuf := Some buf, ops_oobbuf := None\<rparr>"
  define s0 where "s0 = s\<lparr>chip_state := FL_READING, chip_ops := ops\<rparr>"
  have ok: "ok (hw s0)" using assms(1) by (simp add: drv_inv_def s0_def)
  define s1 where "s1 = select_chip d 0 s0"
  have s1: "kept s0 s1" "ram s1 = ram s0" using select_law [OF ok] by (simp_all add: quiet_kept s1_def)
  have i1: "drv_inv s1" by (rule drv_inv_kept [OF _ s1(1)]) (simp add: s0_def assms(1))
  have col: "a AND ucast (writesize d - 1) = 0"
    using assms(3) by (simp add: u64_pow2_offset [OF pow2_sizes(1)] unat_sizes)
  have init: "read_init ?c a ops buf = read_at p n (ops_ooblen ops) buf"
    using shift_page [OF lt] assms(3)
    by (simp add: read_init_def read_at_def p_def page_of_def ops_def col)
  have soft: "chip_pagebuf s1 = - 1" "chip_options s1 AND NAND_NO_AUTOINCR \<noteq> 0" "W * p + unat n \<le> 2 ^ chip_shift d"
    using i1 assms(5) by (simp_all add: drv_inv_def fr)
  obtain v' s2 where l: "read_ops_loop ?c ops 0 (read_at p n (ops_ooblen ops) buf) s1 = Some ((0, v'), s2)"
      "rl_readlen v' = 0" "rl_oob v' = None" "kept s1 s2"
      "\<forall>x. x \<notin> spare_area \<longrightarrow> ram s2 x = (if buf \<le> x \<and> x < buf + unat n
          then data_at s1 (W * p + (x - buf)) else ram s1 x)"
    using read_ops_loop [OF keptD(1) [OF s1(1)] soft(1,2) n0 assms(4) soft(3) assms(6)] by blast
  define ops' where "ops' = ops\<lparr>ops_retlen := n, ops_oobretlen := ops_oobretlen ops\<rparr>"
  define s3 where "s3 = s2\<lparr>chip_ops := ops'\<rparr>"
  have r: "nand_do_read_ops ?c a ops s0 = Some ((0, ops'), s2)"
    using l(1-3) shift_page [OF lt] keptD(6) [OF s1(1)] keptD(6) [OF l(4)] init
    by (simp add: nand_do_read_ops_def Let_def s1_def [symmetric] ops'_def) (simp add: ops_def)
  have i2: "drv_inv s3" "ok (hw s3)" using drv_inv_kept [OF i1 l(4)] by (simp_all add: s3_def drv_inv_def)
  define s4 where "s4 = nand_release_device ?c s3"
  have s4: "kept s3 s4" "ram s4 = ram s3"
    using select_law [OF i2(2)] by (simp_all add: quiet_kept s4_def nand_release_device_def)
  have "nand_read_base ?c a n k buf s = Some ((0, n), s4)"
    using r bound assms(2) by (simp add: nand_read_base_def Let_def nand_get_device_def s0_def ops_def s3_def s4_def ops'_def)
  moreover have "drv_inv s4" by (rule drv_inv_kept [OF i2(1) s4(1)])
  moreover have "data_at s4 = data_at s"
    using data_at_kept [OF s4(1)] data_at_kept [OF l(4)] data_at_kept [OF s1(1)] by (simp add: s3_def s0_def)
  moreover have "cells (hw s4) = cells (hw s)"
    using keptD(2) [OF s4(1)] keptD(2) [OF l(4)] keptD(2) [OF s1(1)] by (simp add: s3_def s0_def)
  moreover have "chip_bbt s4 = chip_bbt s"
    using keptD(5) [OF s4(1)] keptD(5) [OF l(4)] keptD(5) [OF s1(1)] by (simp add: s3_def s0_def)
  moreover have "ram s4 x = (if buf \<le> x \<and> x < buf + unat n then data_at s (unat a + (x - buf)) else ram s x)"
    if "x \<notin> spare_area" for x
    using l(5) that data_at_kept [OF s1(1)] by (simp add: s4(2) s3_def s1(2) s0_def fr)
  ultimately show ?thesis by blast
qed


subsection \<open>Writing\<close>

text \<open>Only the hardware has changed.\<close>

definition driven :: "'h nand_st \<Rightarrow> 'h nand_st \<Rightarrow> bool" where
  "driven s s' \<longleftrightarrow> s' = s\<lparr>hw := hw s'\<rparr> \<and> ok (hw s')"

lemma driven_refl: "ok (hw s) \<Longrightarrow> driven s s" by (simp add: driven_def)

lemma driven_trans: "driven s s1 \<Longrightarrow> driven s1 s2 \<Longrightarrow> driven s s2"
  by (cases s, cases s1, cases s2) (simp add: driven_def)

lemma quiet_driven: "quiet ok cells s s' \<longleftrightarrow> driven s s' \<and> cells (hw s') = cells (hw s)"
  by (auto simp: quiet_def driven_def)

lemma drivenD:
  assumes "driven s s'"
  shows "ok (hw s')" "ram s' = ram s" "chip_pagebuf s' = chip_pagebuf s" "chip_options s' = chip_options s"
    "chip_bbt s' = chip_bbt s" "chip_ops s' = chip_ops s" "chip_scrubbed s' = chip_scrubbed s"
  using assms by (cases s, cases s', simp add: driven_def)+

lemma drv_inv_driven: "drv_inv s \<Longrightarrow> driven s s' \<Longrightarrow> drv_inv s'"
  using drivenD [of s s'] by (simp add: drv_inv_def)

text \<open>Whether the chip ever reports that a page could not be programmed.\<close>

definition program_works :: bool where
  "program_works \<longleftrightarrow> (\<forall>s p c r st s'. ok (hw s) \<longrightarrow> loading (hw s) p c r \<longrightarrow> chip_options s AND NAND_IS_AND = 0 \<longrightarrow>
     waitfunc d (cmdfunc d NAND_CMD_PAGEPROG (- 1) (- 1) s) = (st, s') \<longrightarrow> st AND NAND_STATUS_FAIL = 0)"

lemma program_worksD:
  "program_works \<Longrightarrow> ok (hw s) \<Longrightarrow> loading (hw s) p c r \<Longrightarrow> chip_options s AND NAND_IS_AND = 0 \<Longrightarrow>
   waitfunc d (cmdfunc d NAND_CMD_PAGEPROG (- 1) (- 1) s) = (st, s') \<Longrightarrow> st AND NAND_STATUS_FAIL = 0"
  unfolding program_works_def by blast

text \<open>The mark of a bad block in a page.\<close>

definition mark_at :: "'h \<Rightarrow> int \<Rightarrow> u8" where
  "mark_at h p = cells h p (W + badblockpos d)"

lemma mark_at_cells: "cells h = cells h' \<Longrightarrow> mark_at h = mark_at h'"
  by (rule ext) (simp add: mark_at_def)

lemma vital_simps: "i < W \<Longrightarrow> vital d i" "vital d (W + badblockpos d)"
  by (simp_all add: vital_def unat_sizes)

text \<open>A page written with \<open>0xff\<close> in the spare bytes keeps its mark, even when the program operation fails.\<close>

lemma nand_write_page:
  assumes "ok (hw s)" "p < pages" "chip_options s AND NAND_IS_AND = 0" "ram s (oob_poi d + badblockpos d) = 0xff"
  shows "\<exists>ret s'. nand_write_page (scan_ecc fill d) buf (int p) cached raw s = (ret, s') \<and> (ret = 0 \<or> ret = - EIO) \<and>
    driven s s' \<and> (\<forall>q. q \<noteq> int p \<longrightarrow> cells (hw s') q = cells (hw s) q) \<and> mark_at (hw s') = mark_at (hw s) \<and>
    (program_works \<longrightarrow> ret = 0) \<and>
    (ret = 0 \<longrightarrow> (\<forall>i < W. cells (hw s') (int p) i = cells (hw s) (int p) i AND ram s (buf + i)))"
proof -
  let ?s1 = "cmdfunc d NAND_CMD_SEQIN 0 (int p) s"
  have "0 < page_bytes d" using W_less(2) by (simp add: page_bytes_def unat_sizes)
  then obtain r0 where 1: "driven s ?s1" "cells (hw ?s1) = cells (hw s)" "loading (hw ?s1) (int p) 0 r0"
    using seqin_law [OF assms(1) _ _ _ refl, of "int p" 0] assms(2) by (auto simp: quiet_driven pagemask)
  let ?s2 = "write_buf d buf W ?s1"
  have 2: "driven ?s1 ?s2" "cells (hw ?s2) = cells (hw s)"
     "loading (hw ?s2) (int p) W (\<lambda>i. if i < W then ram s (buf + i) else r0 i)"
    using write_buf_law [OF drivenD(1) [OF 1(1)] 1(3) _ refl, of W buf] 1(2) drivenD(2) [OF 1(1)]
    by (simp_all add: quiet_driven page_bytes_def unat_sizes cong: if_cong)
  let ?s3 = "write_buf d (oob_poi d) (unat (oobsize d)) ?s2"
  define r where "r = (\<lambda>i. if W \<le> i \<and> i < W + unat (oobsize d) then ram s (oob_poi d + (i - W))
     else if i < W then ram s (buf + i) else r0 i)"
  have 3: "driven ?s2 ?s3" "cells (hw ?s3) = cells (hw s)"
     "loading (hw ?s3) (int p) (W + unat (oobsize d)) r"
    using write_buf_law [OF drivenD(1) [OF 2(1)] 2(3) _ refl, of "unat (oobsize d)" "oob_poi d"] 2(2)
      drivenD(2) [OF 1(1)] drivenD(2) [OF 2(1)]
    by (simp_all add: quiet_driven page_bytes_def unat_sizes r_def cong: if_cong)
  have d3: "driven s ?s3" by (rule driven_trans [OF driven_trans [OF 1(1) 2(1)] 3(1)])
  obtain st s4 where w: "waitfunc d (cmdfunc d NAND_CMD_PAGEPROG (- 1) (- 1) ?s3) = (st, s4)" by fastforce
  have opts: "chip_options ?s3 AND NAND_IS_AND = 0" using drivenD(4) [OF d3] assms(3) by simp
  note law = program_law [OF drivenD(1) [OF d3] 3(3) opts w, unfolded 3(2)]
  then obtain k where k: "\<forall>i. vital d i \<longrightarrow> cells (hw s4) (int p) i = cells (hw s) (int p) i AND (r i OR k i)"
    "st AND NAND_STATUS_FAIL = 0 \<longrightarrow> k = (\<lambda>_. 0)" by (elim conjE exE) (rule that; assumption)
  have 4: "driven ?s3 s4" "\<And>q. q \<noteq> int p \<Longrightarrow> cells (hw s4) q = cells (hw s) q"
    "\<And>i. vital d i \<Longrightarrow> cells (hw s4) (int p) i = cells (hw s) (int p) i AND (r i OR k i)"
    "st AND NAND_STATUS_FAIL = 0 \<Longrightarrow> k = (\<lambda>_. 0)"
    using law k by (simp_all add: driven_def)
  have run: "nand_write_page (scan_ecc fill d) buf (int p) cached raw s =
      (if st AND NAND_STATUS_FAIL \<noteq> 0 then - EIO else 0, s4)"
    using w by (simp add: nand_write_page_def modes nand_write_page_raw_def unat_sizes Let_def)
  have "cells (hw s4) (int p) i = cells (hw s) (int p) i AND ram s (buf + i)"
    if "st AND NAND_STATUS_FAIL = 0" "i < W" for i
    using 4(3) [OF vital_simps(1) [OF that(2)]] 4(4) [OF that(1)] that(2) by (simp add: r_def)
  moreover have "mark_at (hw s4) q = mark_at (hw s) q" for q
  proof (cases "q = int p")
    case True
    have "r (W + badblockpos d) = - 1" using mark_position assms(4) by (simp add: r_def)
    then show ?thesis using 4(3) [OF vital_simps(2)] True by (simp add: mark_at_def)
  qed (simp add: mark_at_def 4(2))
  moreover have "st AND NAND_STATUS_FAIL = 0" if program_works
    by (rule program_worksD [OF that drivenD(1) [OF d3] 3(3) opts w])
  moreover have "driven s s4" by (rule driven_trans [OF d3 4(1)])
  ultimately show ?thesis using run 4(2) by auto
qed


definition write_at :: "nat \<Rightarrow> u32 \<Rightarrow> u32 \<Rightarrow> nat \<Rightarrow> write_locals" where
  "write_at p n ooblen buf = \<lparr>wl_chipnr = 0, wl_realpage = int p, wl_page = int p, wl_column = 0, wl_writelen = n,
     wl_oobwritelen = ooblen, wl_buf = buf, wl_oob = None\<rparr>"

lemma data_at_other: "(\<And>q. q \<noteq> int p \<Longrightarrow> cells (hw s') q = cells (hw s) q) \<Longrightarrow> a div W \<noteq> p \<Longrightarrow> data_at s' a = data_at s a"
  by (simp add: data_at_def)

lemma write_ops_page:
  assumes "ok (hw s)" "p < pages" "chip_options s AND NAND_IS_AND = 0" "ram s (oob_poi d + badblockpos d) = 0xff"
    "W \<le> unat n"
  shows "\<exists>ret s'. write_ops_page (the_chip fill scan) ops (write_at p n ooblen buf) s =
      ((ret, writesize d, write_at p n ooblen buf), s') \<and> (ret = 0 \<or> ret = - EIO) \<and> driven s s' \<and>
    mark_at (hw s') = mark_at (hw s) \<and> (program_works \<longrightarrow> ret = 0) \<and> (\<forall>a. a div W \<noteq> p \<longrightarrow> data_at s' a = data_at s a) \<and>
    (ret = 0 \<longrightarrow> (\<forall>i < W. data_at s' (W * p + i) = data_at s (W * p + i) AND ram s (buf + i)))"
proof -
  have full: "\<not> n < writesize d - 1"
  proof
    assume "n < writesize d - 1"
    then have "unat n < unat (writesize d - 1)" by (simp add: word_less_nat_alt)
    also have "unat (writesize d - 1) \<le> W" using unat_sub_u32 [of 1 "writesize d"] W_less(2)
      by (simp add: unat_sizes word_le_nat_alt)
    finally show False using assms(5) by simp
  qed
  define cached where "cached = (writesize d < n \<and> int p \<noteq> blkcheck d)"
  obtain ret s' where w: "nand_write_page (scan_ecc fill d) buf (int p) cached (ops_mode ops = MTD_OOB_RAW) s = (ret, s')"
     "ret = 0 \<or> ret = - EIO" "driven s s'" "\<forall>q. q \<noteq> int p \<longrightarrow> cells (hw s') q = cells (hw s) q"
     "mark_at (hw s') = mark_at (hw s)" "program_works \<longrightarrow> ret = 0" "ret = 0 \<longrightarrow> (\<forall>i < W. cells (hw s') (int p) i = cells (hw s) (int p) i AND ram s (buf + i))"
    using nand_write_page [OF assms(1-4)] by blast
  have "write_ops_page (the_chip fill scan) ops (write_at p n ooblen buf) s = ((ret, writesize d, write_at p n ooblen buf), s')"
    using w(1) full by (simp add: write_ops_page_def Let_def write_at_def cached_def blkcheck_def)
  then show ?thesis using w by (auto simp: data_at_page intro: data_at_other)
qed

lemma write_ops_loop:
  assumes "ok (hw s)" "0 < unat n" "W dvd unat n" "W * p + unat n \<le> 2 ^ chip_shift d"
    "chip_options s AND NAND_IS_AND = 0" "ram s (oob_poi d + badblockpos d) = 0xff"
  shows "\<exists>ret v' s'. write_ops_loop (the_chip fill scan) ops (write_at p n ooblen buf) s = Some ((ret, v'), s') \<and>
    (ret = 0 \<or> ret = - EIO) \<and> driven s s' \<and> wl_oob v' = None \<and>
    mark_at (hw s') = mark_at (hw s) \<and> (program_works \<longrightarrow> ret = 0) \<and>
    (\<forall>a. a < W * p \<or> W * p + unat n \<le> a \<longrightarrow> data_at s' a = data_at s a) \<and>
    (ret = 0 \<longrightarrow> wl_writelen v' = 0 \<and>
      (\<forall>i < unat n. data_at s' (W * p + i) = data_at s (W * p + i) AND ram s (buf + i)))"
  using assms
proof (induction "unat n" arbitrary: n p buf s rule: less_induct)
  case less
  let ?c = "the_chip fill scan" and ?v = "write_at p n ooblen buf" and ?n = "n - writesize d"
  have Wn: "W \<le> unat n" using less.prems(2,3) by (simp add: dvd_imp_le)
  have n': "unat ?n = unat n - W" using Wn by (simp add: unat_sub_u32 word_le_nat_alt unat_sizes)
  have "W * (p + 1) \<le> W * pages" using less.prems(4) Wn by (simp add: size_pages algebra_simps)
  then have p: "p < pages" using W_less(2) by (simp only: mult_le_cancel1) simp
  obtain ret s1 where r: "write_ops_page ?c ops ?v s = ((ret, writesize d, ?v), s1)" "ret = 0 \<or> ret = - EIO" "driven s s1"
      "\<forall>a. a div W \<noteq> p \<longrightarrow> data_at s1 a = data_at s a"
      "mark_at (hw s1) = mark_at (hw s)" "program_works \<longrightarrow> ret = 0"
      "ret = 0 \<longrightarrow> (\<forall>i < W. data_at s1 (W * p + i) = data_at s (W * p + i) AND ram s (buf + i))"
    using write_ops_page [OF less.prems(1) p less.prems(5,6) Wn] by blast
  have out: "data_at s1 a = data_at s a" if "a < W * p \<or> W * p + W \<le> a" for a
  proof -
    have "W * (a div W) \<le> a" "a < W + W * (a div W)"
      using times_div_less_eq_dividend [of W a] dividend_less_times_div [OF W_less(2), of a] by simp_all
    then have "a div W \<noteq> p" using that by (intro notI, hypsubst) linarith
    then show ?thesis using r(4) by blast
  qed
  show ?case
  proof (cases "ret = 0 \<and> ?n \<noteq> 0")
    case False
    then have "write_ops_loop ?c ops ?v s = Some ((ret, if ret = 0 then ?v\<lparr>wl_writelen := 0\<rparr> else ?v), s1)"
      using r(1) by (subst write_ops_loop.simps) (auto simp: write_at_def)
    moreover have "unat n = W" if "ret = 0" using that False n' Wn by simp
    ultimately show ?thesis using r out Wn by (auto simp: write_at_def)
  next
    case True
    then have n0: "0 < unat ?n" by (simp add: unat_gt_0)
    then have "W * (p + 1) < W * pages" using less.prems(4) n' by (simp add: size_pages algebra_simps)
    then have p1: "p + 1 < pages" by (simp only: mult_less_cancel1)
    have page1: "(1 + int p) AND pagemask d = 1 + int p" using page_and [OF p1] by (simp add: add.commute)
    have step: "write_ops_loop ?c ops ?v s = write_ops_loop ?c ops (write_at (p + 1) ?n ooblen (buf + W)) s1"
      using r(1) True page1 by (subst write_ops_loop.simps) (simp add: Let_def write_at_def add.commute unat_sizes)
    have "W * (p + 1) + unat ?n \<le> 2 ^ chip_shift d" using less.prems(4) n' Wn by (simp add: algebra_simps)
    moreover have "W dvd unat ?n" using less.prems(3) n' by simp
    moreover have "unat ?n < unat n" unfolding n' by (rule diff_less [OF W_less(2) less.prems(2)])
    moreover have "chip_options s1 AND NAND_IS_AND = 0" "ram s1 (oob_poi d + badblockpos d) = 0xff"
      using less.prems(5,6) drivenD(2,4) [OF r(3)] by simp_all
    ultimately obtain ret' v' s' where ih: "write_ops_loop ?c ops (write_at (p + 1) ?n ooblen (buf + W)) s1 = Some ((ret', v'), s')"
        "ret' = 0 \<or> ret' = - EIO" "driven s1 s'" "wl_oob v' = None"
        "\<forall>a. a < W * (p + 1) \<or> W * (p + 1) + unat ?n \<le> a \<longrightarrow> data_at s' a = data_at s1 a"
        "mark_at (hw s') = mark_at (hw s1)" "program_works \<longrightarrow> ret' = 0" "ret' = 0 \<longrightarrow> wl_writelen v' = 0 \<and>
      (\<forall>i < unat ?n. data_at s' (W * (p + 1) + i) = data_at s1 (W * (p + 1) + i) AND ram s1 (buf + W + i))"
      using less.hyps [OF _ drivenD(1) [OF r(3)] n0, of "p + 1" "buf + W"] by blast
    have "data_at s' (W * p + i) = data_at s (W * p + i) AND ram s (buf + i)" if "ret' = 0" "i < unat n" for i
    proof (cases "i < W")
      case i: True
      then show ?thesis using ih(5) r(7) True by (simp add: algebra_simps)
    next
      case False
      then obtain j where j: "i = W + j" using le_Suc_ex not_less by blast
      then have "j < unat ?n" using that(2) n' by simp
      moreover have "data_at s1 (W * (p + 1) + j) = data_at s (W * (p + 1) + j)" by (rule out) (simp add: algebra_simps)
      ultimately show ?thesis using ih(8) that(1) drivenD(2) [OF r(3)] by (simp add: j algebra_simps)
    qed
    moreover have "data_at s' a = data_at s a" if "a < W * p \<or> W * p + unat n \<le> a" for a
      using that ih(5) out n' Wn by (auto simp: algebra_simps)
    ultimately show ?thesis using step ih r(5) driven_trans [OF r(3) ih(3)] by auto
  qed
qed


lemma nand_check_wp_layers [simp]:
  "nand_check_wp (the_chip fill scan) = nand_check_wp d" "nand_check_wp (scan_rw (the_chip fill scan)) = nand_check_wp d"
  by (rule ext; simp add: nand_check_wp_def)+

lemma nand_check_wp:
  assumes "ok (hw s)"
  shows "\<exists>s'. nand_check_wp d s = (False, s') \<and> quiet ok cells s s'"
proof -
  let ?s1 = "cmdfunc d NAND_CMD_STATUS (- 1) (- 1) (s\<lparr>chip_state := FL_READING\<rparr>)"
  have 1: "quiet ok cells (s\<lparr>chip_state := FL_READING\<rparr>) ?s1" "in_status (hw ?s1)"
    using status_law [of "s\<lparr>chip_state := FL_READING\<rparr>", OF _ refl] assms by simp_all
  define s2 where "s2 = ?s1\<lparr>chip_state := chip_state s\<rparr>"
  have 2: "quiet ok cells s s2" "in_status (hw s2)"
    using 1 by (cases s, cases ?s1, simp add: quiet_def s2_def)+
  then have ok2: "ok (hw s2)" by (simp add: quiet_def)
  obtain b s3 where b: "read_byte d s2 = (b, s3)" by fastforce
  have "quiet ok cells s2 s3" "b AND NAND_STATUS_WP \<noteq> 0" using status_byte_law [OF ok2 2(2) b] by simp_all
  then show ?thesis using b quiet_trans [OF 2(1)] by (simp add: nand_check_wp_def Let_def flip: s2_def)
qed

lemma subpage_aligned:
  fixes a :: u64
  assumes "W dvd unat a"
  shows "a AND ucast (subpagesize d - 1) = 0"
proof -
  obtain j where j: "j < 32" "unat (subpagesize d) = 2 ^ j" using subpages(1) by (elim pow2_sizeE)
  have "(2 :: nat) ^ j \<le> 2 ^ page_shift d" using subpages(2) j(2) by (simp add: word_le_nat_alt unat_sizes)
  then have "j \<le> page_shift d" by (simp add: power_increasing_iff)
  then have "(2 :: nat) ^ j dvd W" by (rule le_imp_power_dvd)
  then show ?thesis using assms j(2) by (simp add: u64_pow2_offset [OF subpages(1)] dvd_trans)
qed

lemma nand_write_base:
  assumes "drv_inv s" "n \<noteq> 0" "W dvd unat a" "W dvd unat n" "unat a + unat n \<le> 2 ^ chip_shift d"
    "{buf ..< buf + unat n} \<inter> spare_area = {}"
  shows "\<exists>ret k' s'. nand_write_base (the_chip fill scan) a n k buf s = Some ((ret, k'), s') \<and> drv_inv s' \<and>
    chip_bbt s' = chip_bbt s \<and> mark_at (hw s') = mark_at (hw s) \<and> (\<forall>x. x \<notin> spare_area \<longrightarrow> ram s' x = ram s x) \<and> ret \<le> 0 \<and>
    (program_works \<longrightarrow> ret = 0) \<and>
    (\<forall>x. x < unat a \<or> unat a + unat n \<le> x \<longrightarrow> data_at s' x = data_at s x) \<and>
    (ret = 0 \<longrightarrow> k' = n \<and>
       (\<forall>i < unat n. data_at s' (unat a + i) = data_at s (unat a + i) AND ram s (buf + i)))"
proof -
  let ?c = "the_chip fill scan"
  define p where "p = unat a div W"
  have fr: "unat a = W * p" using assms(3) by (simp add: p_def)
  have n0: "0 < unat n" using assms(2) by (simp add: unat_gt_0)
  have lt: "unat a < 2 ^ chip_shift d" using assms(5) n0 by linarith
  have bound: "\<not> mtd_size d < a + ucast n"
    using assms(5) size_bounds(1) unat_add_u64 [of a n] by (simp add: word_less_nat_alt unat_sizes)
  define ops where "ops = (chip_ops s)\<lparr>ops_len := n, ops_datbuf := Some buf, ops_oobbuf := None\<rparr>"
  define ops1 where "ops1 = ops\<lparr>ops_retlen := 0\<rparr>"
  define s0 where "s0 = s\<lparr>chip_state := FL_WRITING, chip_ops := ops\<rparr>"
  have ok: "ok (hw s0)" using assms(1) by (simp add: drv_inv_def s0_def)
  define s1 where "s1 = select_chip d 0 s0"
  have s1: "quiet ok cells s0 s1" using select_law [OF ok] by (simp add: s1_def)
  then have "ok (hw s1)" by (simp add: quiet_def)
  then obtain s2 where s2: "nand_check_wp d s1 = (False, s2)" "quiet ok cells s1 s2" using nand_check_wp by blast
  have q: "quiet ok cells s0 s2" by (rule quiet_trans [OF s1 s2(2)])
  then have q': "driven s0 s2" by (simp add: quiet_driven)
  have i2: "drv_inv s2" by (rule drv_inv_driven [OF _ q']) (simp add: s0_def assms(1))
  then have pb: "(if b then s2\<lparr>chip_pagebuf := - 1\<rparr> else s2) = s2" for b by (simp add: drv_inv_def)
  define s3 where "s3 = upd_ram (\<lambda>mm. fill_bytes mm (oob_poi d) 0xff (unat (oobsize d))) s2"
  have s3: "drv_inv s3" "ok (hw s3)" "data_at s3 = data_at s" "chip_bbt s3 = chip_bbt s"
      "chip_options s3 AND NAND_IS_AND = 0" "ram s3 (oob_poi d + badblockpos d) = 0xff" "mark_at (hw s3) = mark_at (hw s)"
      "\<forall>x. x \<notin> spare_area \<longrightarrow> ram s3 x = ram s x"
  proof -
    have hw3: "hw s3 = hw s2" "ram s3 = fill_bytes (ram s2) (oob_poi d) 0xff (unat (oobsize d))" by (simp_all add: s3_def upd_ram_def)
    have cells: "cells (hw s2) = cells (hw s)" using q by (simp add: quiet_def s0_def)
    show i3: "drv_inv s3" using i2 by (simp add: s3_def upd_ram_def)
    then show "ok (hw s3)" "chip_options s3 AND NAND_IS_AND = 0" by (simp_all only: drv_inv_def)
    show "data_at s3 = data_at s" "mark_at (hw s3) = mark_at (hw s)"
      by (simp_all add: data_at_def [abs_def] mark_at_def [abs_def] hw3 cells)
    show "chip_bbt s3 = chip_bbt s" using drivenD(5) [OF q'] by (simp add: s3_def upd_ram_def s0_def)
    show "ram s3 (oob_poi d + badblockpos d) = 0xff"
      using mark_position by (simp add: hw3 fill_bytes_def store_bytes_def)
    show "\<forall>x. x \<notin> spare_area \<longrightarrow> ram s3 x = ram s x"
      using drivenD(2) [OF q'] by (auto simp: hw3 fill_bytes_def store_bytes_def s0_def)
  qed
  have col: "a AND ucast (writesize d - 1) = 0"
    using assms(3) by (simp add: u64_pow2_offset [OF pow2_sizes(1)] unat_sizes)
  have al: "a AND ucast (subpagesize d - 1) = 0" "(ucast n :: u64) AND ucast (subpagesize d - 1) = 0"
    using assms(3,4) by (simp_all add: subpage_aligned unat_ucast_u64)
  have init: "write_init ?c a ops1 buf = write_at p n (ops_ooblen ops) buf"
    using shift_page [OF lt] assms(3)
    by (simp add: write_init_def write_at_def p_def page_of_def ops_def ops1_def col)
  obtain ret v' s4 where l: "write_ops_loop ?c ops1 (write_at p n (ops_ooblen ops) buf) s3 = Some ((ret, v'), s4)"
    "ret = 0 \<or> ret = - EIO" "driven s3 s4" "wl_oob v' = None" "mark_at (hw s4) = mark_at (hw s3)" "program_works \<longrightarrow> ret = 0"
    "\<forall>x. x < W * p \<or> W * p + unat n \<le> x \<longrightarrow> data_at s4 x = data_at s3 x"
    "ret = 0 \<longrightarrow> wl_writelen v' = 0 \<and>
      (\<forall>i < unat n. data_at s4 (W * p + i) = data_at s3 (W * p + i) AND ram s3 (buf + i))"
    using write_ops_loop [OF s3(2) n0 assms(4) assms(5) [unfolded fr] s3(5,6)] by blast
  define ops' where "ops' = ops1\<lparr>ops_retlen := n - wl_writelen v', ops_oobretlen := ops_oobretlen ops1\<rparr>"
  have fields: "ops_len ops1 = n" "ops_oobbuf ops1 = None" "ops_datbuf ops1 = Some buf"
    by (simp_all add: ops1_def ops_def)
  have w: "nand_do_write_ops ?c a ops s0 = Some ((ret, ops'), s4)"
    unfolding nand_do_write_ops_def Let_def ops1_def [symmetric] fields option.sel init
    using shift_page [OF lt] s2(1) assms(2) al l(1,4)
    by (simp add: NOTALIGNED_def s1_def [symmetric] pb s3_def [symmetric] ops'_def fields)
  have i4: "drv_inv (s4\<lparr>chip_ops := ops'\<rparr>)" "ok (hw (s4\<lparr>chip_ops := ops'\<rparr>))"
    using drv_inv_driven [OF s3(1) l(3)] drivenD(1) [OF l(3)] by simp_all
  define s5 where "s5 = nand_release_device ?c (s4\<lparr>chip_ops := ops'\<rparr>)"
  have q5: "quiet ok cells (s4\<lparr>chip_ops := ops'\<rparr>) s5"
    using select_law [OF i4(2)] by (simp add: s5_def nand_release_device_def)
  then have d5: "driven (s4\<lparr>chip_ops := ops'\<rparr>) s5" "data_at s5 = data_at s4" "mark_at (hw s5) = mark_at (hw s4)"
    by (auto simp: quiet_driven data_at_def mark_at_def fun_eq_iff)
  have run: "nand_write_base ?c a n k buf s = Some ((ret, n - wl_writelen v'), s5)"
    using w bound assms(2)
    by (simp add: nand_write_base_def Let_def nand_get_device_def s0_def ops_def s5_def)
       (simp add: ops'_def ops1_def ops_def)
  have "ram s3 (buf + i) = ram s (buf + i)" if "i < unat n" for i
    using s3(8) assms(6) that by (auto simp: disjoint_iff)
  moreover have "ram s5 x = ram s x" if "x \<notin> spare_area" for x
    using s3(8) that drivenD(2) [OF l(3)] drivenD(2) [OF d5(1)] by simp
  moreover have "chip_bbt s5 = chip_bbt s" using drivenD(5) [OF d5(1)] drivenD(5) [OF l(3)] s3(4) by simp
  moreover have "drv_inv s5" by (rule drv_inv_driven [OF i4(1) d5(1)])
  ultimately show ?thesis using run l(2,5-8) d5(2,3) s3(3,7) by (auto simp: fr)
qed



end

end
