(* ===== verification/NandDevice.thy ===== *)
theory NandDevice
  imports NandDriver
begin

text \<open>
  Bad blocks, erasing and marking blocks bad over a board driver, and the device that the scan builds for it: the
  contract \<open>mtd_dev\<close> is proved for \<open>build_device\<close>.

  A chip without a table in memory (the driver of this board sets \<open>NAND_BBT_SCANNED\<close> before the scan, so that none is
  ever built) tells a bad block by the mark in the spare bytes of its first page.
\<close>

context nand_driver begin

section \<open>Bad blocks\<close>

abbreviation (input) "blocks \<equiv> 2 ^ (chip_shift d - phys_erase_shift d) :: nat"
abbreviation (input) "E \<equiv> 2 ^ phys_erase_shift d :: nat"
abbreviation (input) "first_page b \<equiv> int (b * 2 ^ (phys_erase_shift d - page_shift d))"

definition bad_block :: "'h nand_st \<Rightarrow> nat \<Rightarrow> bool" where
  "bad_block s b \<longleftrightarrow> b < blocks \<and>
     (case chip_bbt s of Some t \<Rightarrow> bbt_entry t (2 * b) \<noteq> 0 | None \<Rightarrow> mark_at (hw s) (first_page b) \<noteq> 0xff)"

lemma bad_block_soft [simp]:
  "bad_block (s\<lparr>chip_state := st\<rparr>) = bad_block s" "bad_block (s\<lparr>chip_ops := ops\<rparr>) = bad_block s"
  "bad_block (s\<lparr>ram := mm\<rparr>) = bad_block s" "bad_block (s\<lparr>ecc_stats := es\<rparr>) = bad_block s"
  by (rule ext; simp add: bad_block_def split: option.split)+

lemma bad_block_cong: "chip_bbt s' = chip_bbt s \<Longrightarrow> mark_at (hw s') = mark_at (hw s) \<Longrightarrow> bad_block s' = bad_block s"
  by (rule ext) (simp add: bad_block_def split: option.split)

lemma bad_block_same:
  "chip_bbt s' = chip_bbt s \<Longrightarrow> mark_at (hw s') (first_page b) = mark_at (hw s) (first_page b) \<Longrightarrow>
   bad_block s' b = bad_block s b"
  by (simp add: bad_block_def split: option.split)

lemma size_blocks: "2 ^ chip_shift d = E * blocks"
  using shifts by (simp flip: power_add)

lemma block_bound: "a < 2 ^ chip_shift d \<Longrightarrow> a div E < blocks"
  by (simp add: size_blocks less_mult_imp_div_less mult.commute)

lemma block_pages_nat: "block_pages d = int (2 ^ (phys_erase_shift d - page_shift d))"
  by (simp add: block_pages_def)

lemma page_block: "E = W * 2 ^ (phys_erase_shift d - page_shift d)"
  using shifts by (simp flip: power_add)

lemma data_block: "int (x div W) div block_pages d = int (x div E)"
  by (simp only: block_pages_nat page_block div_mult2_eq zdiv_int)

lemma first_page_block: "first_page b div block_pages d = int b"
  by (simp add: block_pages_def)

lemma block_first_page: "E dvd a \<Longrightarrow> a div W = a div E * 2 ^ (phys_erase_shift d - page_shift d)"
  unfolding page_block by (elim dvdE) simp

abbreviation (input) "the_rw fill scan \<equiv> scan_rw (the_chip fill scan)"

text \<open>Only the hardware and the state of the chip's lock have changed, and not the cells.\<close>

definition calm :: "'h nand_st \<Rightarrow> 'h nand_st \<Rightarrow> bool" where
  "calm s s' \<longleftrightarrow> s' = s\<lparr>hw := hw s', chip_state := chip_state s'\<rparr> \<and> ok (hw s') \<and> cells (hw s') = cells (hw s)"

lemma calm_refl: "ok (hw s) \<Longrightarrow> calm s s" by (simp add: calm_def)

lemma calm_trans: "calm s s1 \<Longrightarrow> calm s1 s2 \<Longrightarrow> calm s s2"
  by (cases s, cases s1, cases s2) (simp add: calm_def)

lemma quiet_calm: "quiet ok cells s s' \<Longrightarrow> calm s s'"
  by (cases s, cases s') (simp add: quiet_def calm_def)

lemma calmD:
  assumes "calm s s'"
  shows "ok (hw s')" "ram s' = ram s" "chip_options s' = chip_options s" "chip_bbt s' = chip_bbt s"
    "chip_pagebuf s' = chip_pagebuf s" "data_at s' = data_at s" "bad_block s' = bad_block s" "mark_at (hw s') = mark_at (hw s)"
    "cells (hw s') = cells (hw s)"
  using assms mark_at_cells [of "hw s'" "hw s"]
  by (cases s, cases s', simp add: calm_def data_at_def fun_eq_iff bad_block_def split: option.split)+

lemma drv_inv_calm: "drv_inv s \<Longrightarrow> calm s s' \<Longrightarrow> drv_inv s'"
  by (cases s, cases s') (simp add: drv_inv_def calm_def)

lemma block_bad_layers [simp]: "block_bad_hook (the_rw fill scan) = block_bad_hook (the_chip fill scan)"
  by (intro ext) (simp add: block_bad_hook_def)

text \<open>Looking at the mark of a block.\<close>

lemma nand_block_bad:
  assumes "drv_inv s" "E dvd unat a" "unat a < 2 ^ chip_shift d"
  shows "\<exists>s'. nand_block_bad (scan_ecc fill d) a getchip s =
      (if mark_at (hw s) (first_page (unat a div E)) \<noteq> 0xff then 1 else 0, s') \<and> calm s s'"
proof -
  define pg where "pg = first_page (unat a div E)"
  have page: "page_of (scan_ecc fill d) a = pg"
    using shift_page(4) [OF assms(3)] block_first_page [OF assms(2)] by (simp add: page_of_def pg_def)
  have "pg < int pages" using shift_page(2) [OF assms(3)] unfolding block_first_page [OF assms(2)] of_nat_less_iff pg_def .
  then have p: "0 \<le> pg" "pg \<le> pagemask d" by (simp_all add: pagemask pg_def)
  define s1 where "s1 = (if getchip then select_chip d 0 (nand_get_device FL_READING s) else s)"
  have i: "ok (hw s)" using assms(1) by (simp add: drv_inv_def)
  have 1: "calm s s1"
  proof (cases getchip)
    case True
    have "quiet ok cells (nand_get_device FL_READING s) s1"
      using select_law [of "nand_get_device FL_READING s" 0] i True by (simp add: s1_def nand_get_device_def)
    then have "calm (nand_get_device FL_READING s) s1" by (rule quiet_calm)
    moreover have "calm s (nand_get_device FL_READING s)" using i by (simp add: calm_def nand_get_device_def)
    ultimately show ?thesis by (rule calm_trans [rotated])
  qed (simp add: s1_def calm_refl i)
  define s2 where "s2 = cmdfunc d NAND_CMD_READOOB (int (badblockpos d)) pg s1"
  have 2: "quiet ok cells s1 s2" "reading (hw s2) pg (W + badblockpos d)"
    using readoob_cmd_law [OF calmD(1) [OF 1] p mark_position] by (simp_all add: s2_def unat_sizes)
  obtain b s3 where b: "read_byte d s2 = (b, s3)" by fastforce
  have ok2: "ok (hw s2)" "W + badblockpos d < page_bytes d"
    using 2(1) mark_position by (simp_all add: quiet_def page_bytes_def unat_sizes)
  have 3: "quiet ok cells s2 s3" "b = mark_at (hw s) pg"
    using read_byte_law [OF ok2(1) 2(2) ok2(2) b] 2(1) calmD(9) [OF 1] by (simp_all add: mark_at_def quiet_def)
  have c3: "calm s s3" by (rule calm_trans [OF calm_trans [OF 1 quiet_calm [OF 2(1)]] quiet_calm [OF 3(1)]])
  define s4 where "s4 = (if getchip then nand_release_device d s3 else s3)"
  have "calm s3 s4"
    using quiet_calm [OF select_law [OF calmD(1) [OF c3], of "- 1"]] calm_refl [OF calmD(1) [OF c3]]
    by (simp add: s4_def nand_release_device_def)
  then have c4: "calm s s4" by (rule calm_trans [OF c3])
  have narrow: "chip_options s1 AND NAND_BUSWIDTH_16 = 0" using assms(1) calmD(3) [OF 1] by (simp add: drv_inv_def)
  have "nand_block_bad (scan_ecc fill d) a getchip s = (if mark_at (hw s) pg \<noteq> 0xff then 1 else 0, s4)"
    unfolding nand_block_bad_def Let_def page scan_ecc_fields shift_page(3) [OF assms(3)] s1_def [symmetric]
    using b narrow by (simp add: s2_def [symmetric] 3(2) s4_def nand_release_device_def)
  then show ?thesis using c4 unfolding pg_def by blast
qed

lemma checkbad:
  assumes "drv_inv s" "E dvd unat a" "unat a < 2 ^ chip_shift d"
  shows "\<exists>s'. nand_block_checkbad (the_rw fill scan) a getchip False s =
    Some (if bad_block s (unat a div E) then 1 else 0, s') \<and> calm s s'"
proof (cases "chip_bbt s")
  case None
  obtain s' where b: "nand_block_bad (scan_ecc fill d) a getchip s =
      (if mark_at (hw s) (first_page (unat a div E)) \<noteq> 0xff then 1 else 0, s')" "calm s s'"
    using nand_block_bad [OF assms] by blast
  have "nand_block_checkbad (the_rw fill scan) a getchip False s = Some (if bad_block s (unat a div E) then 1 else 0, s')"
    using assms(1) block_bound [OF assms(3)] b(1) None
    by (simp add: nand_block_checkbad_def drv_inv_def block_bad_hook_def bad_block_def default_block_bad)
  then show ?thesis using b(2) by blast
next
  case (Some t)
  have "nand_isbad_bbt (the_rw fill scan) a False t = (if bad_block s (unat a div E) then 1 else 0)"
    using nand_isbad_bbt_entry [of "the_rw fill scan" a False t] block_bound [OF assms(3)] shifts
    by (simp add: sizes(4) Some bad_block_def)
  then show ?thesis using assms(1) Some by (auto simp: nand_block_checkbad_def drv_inv_def intro: calm_refl)
qed

lemma isbad_base:
  assumes "drv_inv s" "E dvd unat a" "unat a < 2 ^ chip_shift d"
  shows "\<exists>s'. nand_block_isbad_base (the_rw fill scan) a s = Some (if bad_block s (unat a div E) then 1 else 0, s') \<and> calm s s'"
  using checkbad [OF assms] assms(3) by (simp add: nand_block_isbad_base_def word_less_nat_alt unat_sizes)

section \<open>Erasing\<close>

text \<open>Whether the chip ever reports that a block could not be erased.\<close>

definition erase_works :: bool where
  "erase_works \<longleftrightarrow> (\<forall>s p st s'. ok (hw s) \<longrightarrow> 0 \<le> p \<longrightarrow> p \<le> pagemask d \<longrightarrow> chip_options s AND NAND_IS_AND = 0 \<longrightarrow>
     waitfunc d (cmdfunc d NAND_CMD_ERASE2 (- 1) (- 1) (cmdfunc d NAND_CMD_ERASE1 (- 1) p s)) = (st, s') \<longrightarrow>
     st AND NAND_STATUS_FAIL = 0)"

lemma erase_worksD:
  "erase_works \<Longrightarrow> ok (hw s) \<Longrightarrow> 0 \<le> p \<Longrightarrow> p \<le> pagemask d \<Longrightarrow> chip_options s AND NAND_IS_AND = 0 \<Longrightarrow>
   waitfunc d (cmdfunc d NAND_CMD_ERASE2 (- 1) (- 1) (cmdfunc d NAND_CMD_ERASE1 (- 1) p s)) = (st, s') \<Longrightarrow>
   st AND NAND_STATUS_FAIL = 0"
  unfolding erase_works_def by blast

lemma erase_block:
  assumes "ok (hw s)" "p < pages" "chip_pagebuf s = - 1" "chip_options s AND NAND_IS_AND = 0"
  shows "\<exists>st s'. erase_block (the_rw fill scan) (int p) s = (st, s') \<and> driven s s' \<and>
    (\<forall>x. x div E \<noteq> W * p div E \<longrightarrow> data_at s' x = data_at s x) \<and>
    (\<forall>b. b \<noteq> W * p div E \<longrightarrow> mark_at (hw s') (first_page b) = mark_at (hw s) (first_page b)) \<and>
    (erase_works \<longrightarrow> st AND NAND_STATUS_FAIL = 0) \<and>
    (st AND NAND_STATUS_FAIL = 0 \<longrightarrow>
       (\<forall>x. x div E = W * p div E \<longrightarrow> data_at s' x = 0xff) \<and> mark_at (hw s') (first_page (W * p div E)) = 0xff)"
proof -
  have p: "0 \<le> int p" "int p \<le> pagemask d" using assms(2) by (simp_all add: pagemask)
  obtain st s3 where w: "waitfunc d (cmdfunc d NAND_CMD_ERASE2 (- 1) (- 1) (cmdfunc d NAND_CMD_ERASE1 (- 1) (int p) s)) = (st, s3)"
    by fastforce
  note 3 = erase_law [OF assms(1) p assms(4) w]
  have "\<not> (int p \<le> chip_pagebuf s)" using assms(3) by simp
  then have "erase_block (the_rw fill scan) (int p) s = (st, s3)"
    using w page_and [OF assms(2)] by (simp add: erase_block_def single_erase_cmd_def modes Let_def)
  moreover have "driven s s3" using 3 by (simp add: driven_def)
  moreover have blk: "int p div block_pages d = int (W * p div E)" using data_block [of "W * p"] by simp
  moreover have "x mod W < page_bytes d" for x
    using trans_less_add1 [OF mod_less_divisor [OF W_less(2)]] by (simp add: page_bytes_def unat_sizes)
  moreover have "W + badblockpos d < page_bytes d" using mark_position by (simp add: page_bytes_def unat_sizes)
  moreover have "st AND NAND_STATUS_FAIL = 0" if erase_works
    by (rule erase_worksD [OF that assms(1) p assms(4) w])
  moreover have "mark_at (hw s3) (first_page b) = mark_at (hw s) (first_page b)" if "b \<noteq> W * p div E" for b
  proof -
    have "first_page b div block_pages d \<noteq> int p div block_pages d" using that unfolding first_page_block blk by simp
    then show ?thesis using 3 unfolding mark_at_def by metis
  qed
  moreover have "mark_at (hw s3) (first_page (W * p div E)) = 0xff" if "st AND NAND_STATUS_FAIL = 0"
  proof -
    have "first_page (W * p div E) div block_pages d = int p div block_pages d" unfolding first_page_block blk by simp
    then show ?thesis using 3 that \<open>W + badblockpos d < page_bytes d\<close> unfolding mark_at_def by metis
  qed
  moreover have "data_at s3 x = data_at s x" if "x div E \<noteq> W * p div E" for x
  proof -
    have "int (x div W) div block_pages d \<noteq> int p div block_pages d" using that unfolding data_block blk by simp
    then show ?thesis using 3 unfolding data_at_def by metis
  qed
  moreover have "data_at s3 x = 0xff" if "st AND NAND_STATUS_FAIL = 0" "x div E = W * p div E" for x
  proof -
    have "int (x div W) div block_pages d = int p div block_pages d" using that(2) unfolding data_block blk by simp
    then show ?thesis using 3 that(1) \<open>\<And>x. x mod W < page_bytes d\<close> unfolding data_at_def by metis
  qed
  ultimately show ?thesis by blast
qed


text \<open>The device as it is built, and its request to erase one block.\<close>

abbreviation (input) "one_block a \<equiv> \<lparr>erase_addr = a, erase_len = ucast (erasesize d), erase_fail_addr = 0,
  erase_state = MTD_ERASE_PENDING, erase_scrub = False\<rparr>"

lemma ucast_minus_1: "pow2_size n \<Longrightarrow> (ucast n :: u64) - 1 = ucast (n - 1)"
  by (elim pow2_sizeE) (simp add: ucast_pow2 ucast_pow2_minus_1 mask_eq_decr_exp)

lemma block_mask: "(x AND (phys_erase_size d - 1) = 0) = (E dvd unat x)"
proof -
  have "phys_erase_size d = ucast (erasesize d)"
    using shifts by (simp add: phys_erase_size_def sizes(2) ucast_pow2 push_bit_eq_mult)
  then show ?thesis by (simp add: ucast_minus_1 pow2_sizes(2) u64_pow2_offset unat_sizes)
qed

lemma page_address:
  assumes "unat a = W * p"
  shows "push_bit (page_shift d) (word_of_int (int p)) = (a :: u64)"
proof -
  have "push_bit (page_shift d) (word_of_int (int p)) = (word_of_nat (W * p) :: u64)"
    by (simp add: push_bit_eq_mult mult.commute)
  then show ?thesis by (simp flip: assms)
qed

lemma phys_erase_size: "phys_erase_size d = ucast (erasesize d)" "unat (phys_erase_size d) = E"
proof -
  show "phys_erase_size d = ucast (erasesize d)"
    using shifts by (simp add: phys_erase_size_def sizes(2) ucast_pow2 push_bit_eq_mult)
  then show "unat (phys_erase_size d) = E" by (simp add: unat_ucast_u64 unat_sizes)
qed

lemma phys_erase_size_layers [simp]: "phys_erase_size (the_rw fill scan) = phys_erase_size d"
  by (simp add: phys_erase_size_def)

lemma nand_erase:
  assumes "drv_inv s" "E dvd unat a" "unat a < 2 ^ chip_shift d"
  shows "\<exists>ret e' s'. nand_erase upd (the_rw fill scan) (one_block a) s = Some ((ret, e'), s') \<and> drv_inv s' \<and>
    ram s' = ram s \<and> (ret = 0 \<or> ret = - EIO) \<and>
    (\<forall>b. b \<noteq> unat a div E \<longrightarrow> bad_block s' b = bad_block s b) \<and>
    (\<forall>x. x div E \<noteq> unat a div E \<longrightarrow> data_at s' x = data_at s x) \<and>
    (bad_block s (unat a div E) \<longrightarrow> ret \<noteq> 0 \<and> data_at s' = data_at s \<and> bad_block s' = bad_block s) \<and>
    (erase_works \<and> \<not> bad_block s (unat a div E) \<longrightarrow> ret = 0) \<and>
    (ret = 0 \<longrightarrow> bad_block s' = bad_block s \<and> (\<forall>x. x div E = unat a div E \<longrightarrow> data_at s' x = 0xff))"
proof -
  let ?r = "the_rw fill scan"
  define p where "p = unat a div W"
  have "W dvd E" unfolding page_block by simp
  then have a: "unat a = W * p" using assms(2) by (simp add: p_def dvd_trans)
  have p: "p < pages" "int_shift a (page_shift d) = int p" "int_shift a (chip_shift d) = 0"
    using shift_page [OF assms(3)] by (simp_all add: p_def)
  have aE: "unat a + E \<le> 2 ^ chip_shift d"
    using block_end_le [of E "2 ^ chip_shift d" "unat a"] assms(2,3) by (simp add: size_blocks)
  have guards: "a AND (phys_erase_size d - 1) = 0" "ucast (erasesize d) AND (phys_erase_size d - 1) = 0"
    "\<not> mtd_size d < a + ucast (erasesize d)"
    using assms(2) aE size_bounds(1) unat_add_u64 [of a "erasesize d"]
    by (simp_all add: block_mask unat_ucast_u64 unat_sizes word_less_nat_alt)
  have size: "(ucast (erasesize d) :: u64) \<noteq> 0" using phys_erase_size by (metis less_irrefl unat_0 zero_less_numeral zero_less_power)
  define s0 where "s0 = s\<lparr>chip_state := FL_ERASING\<rparr>"
  have ok: "ok (hw s0)" using assms(1) by (simp add: drv_inv_def s0_def)
  define s1 where "s1 = select_chip d 0 s0"
  have s1: "quiet ok cells s0 s1" using select_law [OF ok] by (simp add: s1_def)
  then have "ok (hw s1)" by (simp add: quiet_def)
  then obtain s2 where s2: "nand_check_wp d s1 = (False, s2)" "quiet ok cells s1 s2" using nand_check_wp by blast
  have q: "driven s0 s2" "cells (hw s2) = cells (hw s)"
    using quiet_trans [OF s1 s2(2)] by (simp_all add: quiet_driven s0_def)
  have i2: "drv_inv s2" "ok (hw s2)" "chip_pagebuf s2 = - 1" "chip_options s2 AND BBT_AUTO_REFRESH = 0"
  proof -
    show "drv_inv s2" by (rule drv_inv_driven [OF _ q(1)]) (simp add: s0_def assms(1))
    then show "ok (hw s2)" "chip_pagebuf s2 = - 1" "chip_options s2 AND BBT_AUTO_REFRESH = 0" by (simp_all add: drv_inv_def)
  qed
  have same: "data_at s2 = data_at s" "bad_block s2 = bad_block s" "ram s2 = ram s"
    using q drivenD [OF q(1)] bad_block_cong [of s2 s] mark_at_cells [of "hw s2" "hw s"]
    by (simp_all add: data_at_def fun_eq_iff s0_def)
  define instr where "instr = (one_block a)\<lparr>erase_fail_addr := - 1, erase_state := MTD_ERASING\<rparr>"
  define v where "v = \<lparr>el_chipnr = 0, el_page = int p, el_len = ucast (erasesize d), el_masked = 0xffffffff,
                 el_rewrite = replicate (numchips d) 0\<rparr>"
  obtain s3 where c: "nand_block_checkbad ?r a False False s2 = Some (if bad_block s (unat a div E) then 1 else 0, s3)"
      "calm s2 s3"
    using checkbad [OF i2(1) assms(2,3)] unfolding same(2) by blast
  have i3: "drv_inv s3" "ok (hw s3)" "chip_pagebuf s3 = - 1" "chip_options s3 AND NAND_IS_AND = 0"
  proof -
    show "drv_inv s3" by (rule drv_inv_calm [OF i2(1) c(2)])
    then show "ok (hw s3)" "chip_pagebuf s3 = - 1" "chip_options s3 AND NAND_IS_AND = 0" by (simp_all add: drv_inv_def)
  qed
  have same3: "data_at s3 = data_at s" "bad_block s3 = bad_block s" "ram s3 = ram s"
    using calmD [OF c(2)] same by simp_all
  have "\<exists>instr' v' s4. erase_loop ?r False instr v s2 = Some ((instr', v'), s4) \<and> el_masked v' = 0xffffffff \<and>
      driven s3 s4 \<and> (\<forall>x. x div E \<noteq> unat a div E \<longrightarrow> data_at s4 x = data_at s x) \<and>
      (\<forall>b. b \<noteq> unat a div E \<longrightarrow> bad_block s4 b = bad_block s b) \<and>
      (bad_block s (unat a div E) \<longrightarrow>
         erase_state instr' \<noteq> MTD_ERASE_DONE \<and> data_at s4 = data_at s \<and> bad_block s4 = bad_block s) \<and>
      (erase_works \<and> \<not> bad_block s (unat a div E) \<longrightarrow> erase_state instr' = MTD_ERASE_DONE) \<and>
      (erase_state instr' = MTD_ERASE_DONE \<longrightarrow>
         bad_block s4 = bad_block s \<and> (\<forall>x. x div E = unat a div E \<longrightarrow> data_at s4 x = 0xff))"
  proof (cases "bad_block s (unat a div E)")
    case True
    have "erase_loop ?r False instr v s2 = Some ((instr\<lparr>erase_state := MTD_ERASE_FAILED\<rparr>, v), s3)"
      using c(1) True page_address [OF a] size
      by (subst erase_loop.simps) (simp add: v_def instr_def)
    then show ?thesis using driven_refl [OF i3(2)] same3(1,2) True by (auto simp: v_def)
  next
    case False
    obtain st s4 where e: "erase_block ?r (int p) s3 = (st, s4)" "driven s3 s4"
      "\<forall>x. x div E \<noteq> W * p div E \<longrightarrow> data_at s4 x = data_at s3 x"
      "\<forall>b. b \<noteq> W * p div E \<longrightarrow> mark_at (hw s4) (first_page b) = mark_at (hw s3) (first_page b)"
      "erase_works \<longrightarrow> st AND NAND_STATUS_FAIL = 0"
      "st AND NAND_STATUS_FAIL = 0 \<longrightarrow>
        (\<forall>x. x div E = W * p div E \<longrightarrow> data_at s4 x = 0xff) \<and> mark_at (hw s4) (first_page (W * p div E)) = 0xff"
      using erase_block [OF i3(2) p(1) i3(3,4)] by blast
    have other: "bad_block s4 b = bad_block s b" if "b \<noteq> unat a div E" for b
      using bad_block_same [OF drivenD(5) [OF e(2)], of b] e(4) that same3(2) by (simp add: a)
    have own: "bad_block s4 (unat a div E) = bad_block s (unat a div E)" if "st AND NAND_STATUS_FAIL = 0"
    proof (cases "chip_bbt s3")
      case None
      then show ?thesis using e(6) that drivenD(5) [OF e(2)] False by (simp add: bad_block_def a)
    next
      case (Some t)
      have "bad_block s4 = bad_block s3" using drivenD(5) [OF e(2)] Some by (simp add: bad_block_def fun_eq_iff)
      then show ?thesis using same3(2) by simp
    qed
    have all: "bad_block s4 = bad_block s" if "st AND NAND_STATUS_FAIL = 0"
      by (rule ext) (use other own [OF that] in metis)
    define v' where "v' = v\<lparr>el_len := 0, el_page := int p + (blkcheck d + 1)\<rparr>"
    define instr' where "instr' = (if st AND NAND_STATUS_FAIL \<noteq> 0
       then instr\<lparr>erase_state := MTD_ERASE_FAILED, erase_fail_addr := a\<rparr> else instr\<lparr>erase_state := MTD_ERASE_DONE\<rparr>)"
    have last: "erase_loop ?r False instr v' s4 = Some ((instr\<lparr>erase_state := MTD_ERASE_DONE\<rparr>, v'), s4)"
      by (subst erase_loop.simps) (simp add: v'_def)
    have run: "erase_loop ?r False instr v s2 =
        Some ((instr', if st AND NAND_STATUS_FAIL \<noteq> 0 then v else v'), s4)"
      using c(1) False page_address [OF a] size e(1) last
      by (subst erase_loop.simps) (simp add: v_def instr_def instr'_def v'_def phys_erase_size(1) blkcheck_def Let_def)
    have masked: "el_masked (if st AND NAND_STATUS_FAIL \<noteq> 0 then v else v') = 0xffffffff" by (simp add: v_def v'_def)
    have done_iff: "erase_state instr' = MTD_ERASE_DONE \<longleftrightarrow> st AND NAND_STATUS_FAIL = 0" by (simp add: instr'_def)
    have data: "data_at s4 x = data_at s x" if "x div E \<noteq> unat a div E" for x
      using e(3) that by (simp add: a same3(1))
    have blank: "data_at s4 x = 0xff" if "st AND NAND_STATUS_FAIL = 0" "x div E = unat a div E" for x
      using e(6) that by (simp add: a)
    show ?thesis
      by (rule exI [of _ instr'], rule exI [of _ "if st AND NAND_STATUS_FAIL \<noteq> 0 then v else v'"], rule exI [of _ s4])
         (use run masked e(2,5) data other False all blank in \<open>simp add: done_iff\<close>)
  qed
  then obtain instr' v' s4 where l: "erase_loop ?r False instr v s2 = Some ((instr', v'), s4)" "el_masked v' = 0xffffffff"
      "driven s3 s4" "\<forall>x. x div E \<noteq> unat a div E \<longrightarrow> data_at s4 x = data_at s x"
      "\<forall>b. b \<noteq> unat a div E \<longrightarrow> bad_block s4 b = bad_block s b"
      "bad_block s (unat a div E) \<longrightarrow>
         erase_state instr' \<noteq> MTD_ERASE_DONE \<and> data_at s4 = data_at s \<and> bad_block s4 = bad_block s"
      "erase_works \<and> \<not> bad_block s (unat a div E) \<longrightarrow> erase_state instr' = MTD_ERASE_DONE"
      "erase_state instr' = MTD_ERASE_DONE \<longrightarrow>
         bad_block s4 = bad_block s \<and> (\<forall>x. x div E = unat a div E \<longrightarrow> data_at s4 x = 0xff)" by blast
  define s5 where "s5 = nand_release_device ?r s4"
  have q5: "quiet ok cells s4 s5"
    using select_law [OF drivenD(1) [OF l(3)]] by (simp add: s5_def nand_release_device_def)
  then have d5: "driven s4 s5" "data_at s5 = data_at s4" "bad_block s5 = bad_block s4"
    using calmD(6,7) [OF quiet_calm [OF q5]] by (simp_all add: quiet_driven)
  have i5: "drv_inv s5" by (rule drv_inv_driven [OF drv_inv_driven [OF i3(1) l(3)] d5(1)])
  have run: "nand_erase upd ?r (one_block a) s = Some ((if erase_state instr' = MTD_ERASE_DONE then 0 else - EIO, instr'), s5)"
    using guards s2(1) l(1) [unfolded v_def instr_def] l(2) i2(4) p(2,3)
    by (simp add: nand_erase_def nand_erase_nand_def check_offs_len_def nand_get_device_def s0_def [symmetric]
        s1_def [symmetric] s5_def Let_def)
  have "ram s5 = ram s" using drivenD(2) [OF d5(1)] drivenD(2) [OF l(3)] same3(3) by simp
  then show ?thesis
    by (intro exI [of _ "if erase_state instr' = MTD_ERASE_DONE then 0 else - EIO"] exI [of _ instr'] exI [of _ s5])
       (use run i5 l(4-8) [folded d5(2,3)] in simp)
qed

section \<open>Marking a block bad\<close>

lemma nand_write_oob_std:
  assumes "ok (hw s)" "p < pages" "chip_options s AND NAND_IS_AND = 0"
  shows "\<exists>ret s'. nand_write_oob_std d (int p) s = (ret, s') \<and> driven s s' \<and> ret \<le> 0 \<and>
    (\<forall>q. q \<noteq> int p \<longrightarrow> cells (hw s') q = cells (hw s) q)"
proof -
  let ?s1 = "cmdfunc d NAND_CMD_SEQIN (uint (writesize d)) (int p) s"
  have "uint (writesize d) = int W" by (simp only: uint_nat unat_sizes)
  moreover have "W < page_bytes d" using mark_position by (simp add: page_bytes_def unat_sizes)
  ultimately obtain r0 where 1: "driven s ?s1" "cells (hw ?s1) = cells (hw s)" "loading (hw ?s1) (int p) W r0"
    using seqin_law [OF assms(1) _ _ _ refl, of "int p" W] assms(2) by (auto simp: quiet_driven pagemask)
  let ?s2 = "write_buf d (oob_poi d) (unat (oobsize d)) ?s1"
  obtain r where 2: "driven ?s1 ?s2" "cells (hw ?s2) = cells (hw s)" "loading (hw ?s2) (int p) (W + unat (oobsize d)) r"
    using write_buf_law [OF drivenD(1) [OF 1(1)] 1(3) _ refl, of "unat (oobsize d)" "oob_poi d"] 1(2)
    by (auto simp: quiet_driven page_bytes_def unat_sizes)
  have d2: "driven s ?s2" by (rule driven_trans [OF 1(1) 2(1)])
  obtain st s4 where w: "waitfunc d (cmdfunc d NAND_CMD_PAGEPROG (- 1) (- 1) ?s2) = (st, s4)" by fastforce
  have opts: "chip_options ?s2 AND NAND_IS_AND = 0" using drivenD(4) [OF d2] assms(3) by simp
  note 3 = program_law [OF drivenD(1) [OF d2] 2(3) opts w, unfolded 2(2)]
  have "driven ?s2 s4" "\<forall>q. q \<noteq> int p \<longrightarrow> cells (hw s4) q = cells (hw s) q" using 3 by (simp_all add: driven_def)
  moreover have "nand_write_oob_std d (int p) s = (if st AND NAND_STATUS_FAIL \<noteq> 0 then - EIO else 0, s4)"
    using w by (simp add: nand_write_oob_std_def Let_def)
  ultimately show ?thesis using driven_trans [OF d2] by auto
qed

lemma fill_oob_ram:
  assumes "unat (ops_ooboffs ops) + n \<le> unat (oobsize d)" "oob + n \<le> oob_poi d \<or> oob_poi d + unat (oobsize d) \<le> oob"
  shows "\<exists>r mm. nand_fill_oob (the_rw fill scan) oob n ops s = (r, s\<lparr>ram := mm\<rparr>) \<and> (\<forall>x. x \<notin> spare_area \<longrightarrow> mm x = ram s x)"
proof (cases "ops_mode ops = MTD_OOB_AUTO")
  case True
  let ?w = "oob_window (oobfree (ecclayout d)) (ops_ooboffs ops) n"
  have "x \<notin> (+) (oob_poi d) ` set ?w" if "x \<notin> spare_area" for x
    using that oob_window_bound [OF modes(3)] by force
  then have "\<forall>x. x \<notin> spare_area \<longrightarrow> put_at (ram s) (oob_poi d) ?w (load_bytes (ram s) oob (length ?w)) x = ram s x"
    by (simp add: put_at_other)
  moreover have "nand_fill_oob (the_rw fill scan) oob n ops s =
      (oob + length ?w, s\<lparr>ram := put_at (ram s) (oob_poi d) ?w (load_bytes (ram s) oob (length ?w))\<rparr>)"
    using True by (simp add: nand_fill_oob_def fill_auto_spec [OF modes(3) assms(2)])
  ultimately show ?thesis by blast
next
  case False
  then have "nand_fill_oob (the_rw fill scan) oob n ops s =
      (oob + n, s\<lparr>ram := copy_bytes (oob_poi d + unat (ops_ooboffs ops)) oob n (ram s)\<rparr>)"
    by (cases "ops_mode ops") (simp_all add: nand_fill_oob_def upd_ram_def)
  moreover have "copy_bytes (oob_poi d + unat (ops_ooboffs ops)) oob n (ram s) x = ram s x" if "x \<notin> spare_area" for x
    using that assms(1) by (auto simp: copy_bytes_def store_bytes_def)
  ultimately show ?thesis by blast
qed

lemma oob_layers [simp]: "oob_limit (the_rw fill scan) = oob_limit d" "oob_left (the_rw fill scan) = oob_left d"
  by (intro ext; simp add: oob_limit_def oob_left_def)+

lemma do_write_oob:
  assumes "drv_inv s" "unat a < 2 ^ chip_shift d" "ops_oobbuf ops = Some oob"
    "unat (ops_ooboffs ops) + unat (ops_ooblen ops) < 2 ^ 32"
    "oob + unat (ops_ooblen ops) \<le> oob_poi d \<or> oob_poi d + unat (oobsize d) \<le> oob"
  shows "\<exists>r s'. nand_do_write_oob (the_rw fill scan) a ops s = (r, s') \<and> drv_inv s' \<and> chip_bbt s' = chip_bbt s \<and>
    (\<forall>x. x \<notin> spare_area \<longrightarrow> ram s' x = ram s x) \<and>
    (\<forall>q. q \<noteq> int (unat a div W) \<longrightarrow> cells (hw s') q = cells (hw s) q)"
proof (cases "oob_limit d ops < ops_ooboffs ops + ops_ooblen ops \<or> oob_limit d ops \<le> ops_ooboffs ops \<or>
    mtd_size d \<le> a \<or> oob_left d a (oob_limit d ops) < ucast (ops_ooboffs ops + ops_ooblen ops)")
  case True
  then have "nand_do_write_oob (the_rw fill scan) a ops s = ((- EINVAL, ops), s)"
    by (auto simp: nand_do_write_oob_def Let_def)
  then show ?thesis using assms(1) by simp
next
  case False
  let ?r = "the_rw fill scan"
  define p where "p = unat a div W"
  have p: "p < pages" "int_shift a (page_shift d) = int p" "int_shift a (chip_shift d) = 0"
    using shift_page [OF assms(2)] by (simp_all add: p_def)
  have room: "unat (ops_ooboffs ops) + unat (ops_ooblen ops) \<le> unat (oobsize d)"
  proof -
    have "ops_ooboffs ops + ops_ooblen ops \<le> oobsize d" using False modes(4)
      by (cases "ops_mode ops = MTD_OOB_AUTO") (auto simp: oob_limit_def not_less intro: order_trans)
    then show ?thesis using unat_add_small [of "ops_ooboffs ops" "ops_ooblen ops"] assms(4) by (simp add: word_le_nat_alt)
  qed
  define s1 where "s1 = select_chip d 0 s"
  have s1: "quiet ok cells s s1" using select_law assms(1) by (simp add: s1_def drv_inv_def)
  define s2 where "s2 = cmdfunc d NAND_CMD_RESET (- 1) (- 1) s1"
  have s2: "quiet ok cells s s2" using quiet_trans [OF s1 reset_law] s1 by (simp add: s2_def quiet_def)
  then have "ok (hw s2)" by (simp add: quiet_def)
  then obtain s3 where s3: "nand_check_wp d s2 = (False, s3)" "quiet ok cells s2 s3" using nand_check_wp by blast
  have q: "driven s s3" "cells (hw s3) = cells (hw s)" using quiet_trans [OF s2 s3(2)] by (simp_all add: quiet_driven)
  have i3: "drv_inv s3" by (rule drv_inv_driven [OF assms(1) q(1)])
  have pb: "int p \<noteq> chip_pagebuf s3" using i3 by (simp add: drv_inv_def)
  define blank where "blank = (\<lambda>mm. fill_bytes mm (oob_poi d) 0xff (unat (oobsize d)))"
  have blank: "blank mm x = mm x" if "x \<notin> spare_area" for mm x
    using that by (auto simp: blank_def fill_bytes_def store_bytes_def)
  obtain r mm where f: "nand_fill_oob ?r oob (unat (ops_ooblen ops)) ops (s3\<lparr>ram := blank (ram s3)\<rparr>) = (r, s3\<lparr>ram := mm\<rparr>)"
      "\<forall>x. x \<notin> spare_area \<longrightarrow> mm x = blank (ram s3) x"
    using fill_oob_ram [OF room assms(5), of fill scan "s3\<lparr>ram := blank (ram s3)\<rparr>"] by auto
  have "ok (hw (s3\<lparr>ram := mm\<rparr>))" "chip_options (s3\<lparr>ram := mm\<rparr>) AND NAND_IS_AND = 0"
    using i3 by (simp_all add: drv_inv_def)
  from nand_write_oob_std [OF this(1) p(1) this(2)] obtain ret s4 where w: "nand_write_oob_std d (int p) (s3\<lparr>ram := mm\<rparr>) = (ret, s4)"
      "driven (s3\<lparr>ram := mm\<rparr>) s4" "\<forall>q. q \<noteq> int p \<longrightarrow> cells (hw s4) q = cells (hw s3) q" by auto
  define s5 where "s5 = s4\<lparr>ram := blank (ram s4)\<rparr>"
  have i5: "drv_inv s5" using drv_inv_driven [OF _ w(2)] i3 by (simp add: s5_def)
  have "\<exists>r. nand_do_write_oob ?r a ops s = (r, s5)"
    using False p s3(1) pb w(1) f(1) page_and [OF p(1)] assms(3) modes(1)
    by (simp add: nand_do_write_oob_def Let_def upd_ram_def s1_def [symmetric] s2_def [symmetric] s5_def blank_def
        del: not_less not_le)
  moreover have "chip_bbt s5 = chip_bbt s" using drivenD(5) [OF w(2)] drivenD(5) [OF q(1)] by (simp add: s5_def)
  moreover have "ram s5 x = ram s x" if "x \<notin> spare_area" for x
    using that f(2) drivenD(2) [OF w(2)] drivenD(2) [OF q(1)] by (simp add: s5_def blank)
  moreover have "cells (hw s5) q = cells (hw s) q" if "q \<noteq> int (unat a div W)" for q
    using that w(3) q(2) by (simp add: s5_def p_def)
  ultimately show ?thesis using i5 by blast
qed

end




section \<open>The device\<close>

text \<open>
  The device that the scan builds for such a driver.  \<open>priv\<close> is the memory that the driver and the callers' stack
  frames use: the spare bytes of the page buffer and the mark of a bad block are in it.
\<close>

locale nand_device = nand_driver d ok cells in_status reading loading
  for d :: "'h nand_hw" and ok cells in_status reading loading +
  fixes sm :: scan_mem
    and priv :: "nat set"
  assumes work_area: "{oob_poi d ..< oob_poi d + unat (oobsize d)} \<subseteq> priv" "{sm_mark sm ..< sm_mark sm + 2} \<subseteq> priv"
      "sm_mark sm + 2 \<le> oob_poi d \<or> oob_poi d + unat (oobsize d) \<le> sm_mark sm"

context nand_device begin

text \<open>At most the block \<open>b\<close> has been touched.\<close>

definition touched :: "nat \<Rightarrow> 'h nand_st \<Rightarrow> 'h nand_st \<Rightarrow> bool" where
  "touched b s s' \<longleftrightarrow> drv_inv s' \<and> ram_kept priv s s' \<and> (\<forall>b'. b' \<noteq> b \<longrightarrow> bad_block s' b' = bad_block s b') \<and>
     (\<forall>x. x div E \<noteq> b \<longrightarrow> data_at s' x = data_at s x)"

lemma touched_trans: "touched b s s1 \<Longrightarrow> touched b s1 s2 \<Longrightarrow> touched b s s2"
  by (simp add: touched_def ram_kept_def)

lemma touched_calm: "drv_inv s \<Longrightarrow> calm s s' \<Longrightarrow> touched b s s'"
  using drv_inv_calm [of s s'] calmD [of s s'] by (simp add: touched_def ram_kept_def)

lemma touched_inv: "touched b s s' \<Longrightarrow> drv_inv s'" by (simp add: touched_def)

lemma default_markbad:
  assumes "drv_inv s" "E dvd unat a" "unat a < 2 ^ chip_shift d"
  shows "\<exists>ret s'. nand_default_block_markbad e (the_rw fill scan) (sm_mark sm) a s = Some (ret, s') \<and> drv_inv s' \<and>
    chip_bbt s' = map_option (table_or (unat a div E) 1) (chip_bbt s) \<and> touched (unat a div E) s s'"
proof -
  let ?r = "the_rw fill scan" and ?b = "unat a div E"
  define s1 where "s1 = (s\<lparr>ram := store_bytes (ram s) (sm_mark sm) [0, 0]\<rparr>)\<lparr>chip_bbt := map_option (table_or ?b 1) (chip_bbt s)\<rparr>"
  have "?b < blocks" by (rule block_bound [OF assms(3)])
  also have "blocks \<le> pages" using shifts by (intro power_increasing) simp_all
  finally have "?b < 2 ^ 31" using size_bounds(2) by linarith
  then have b: "int_shift a (phys_erase_shift d) = int ?b"
    using assms(3) size_bounds by (intro int_shift_small) simp_all
  have i1: "drv_inv s1" using assms(1) by (auto simp: s1_def drv_inv_def)
  define ops where "ops = (chip_ops s)\<lparr>ops_len := 2, ops_ooblen := 2, ops_datbuf := None, ops_oobbuf := Some (sm_mark sm),
                             ops_ooboffs := word_of_nat (badblockpos d) AND NOT 0x01\<rparr>"
  define s2 where "s2 = s1\<lparr>chip_state := FL_WRITING\<rparr>"
  let ?a = "a + ucast (oobsize d)"
  have i2: "drv_inv s2" "chip_bbt s2 = map_option (table_or ?b 1) (chip_bbt s)" "cells (hw s2) = cells (hw s)"
      "ram_kept priv s s2"
    using i1 work_area(2) by (auto simp: s2_def s1_def ram_kept_def store_bytes_def)
  have "W dvd E" unfolding page_block by simp
  then have aW: "W dvd unat a" using assms(2) by (rule dvd_trans)
  have aE: "unat a + E \<le> 2 ^ chip_shift d"
    using block_end_le [of E "2 ^ chip_shift d" "unat a"] assms(2,3) by (simp add: size_blocks)
  have "W \<le> E" using page_block by simp
  then have lt: "unat a + unat (oobsize d) < 2 ^ chip_shift d" using aE W_less(1) by linarith
  then have ua: "unat ?a = unat a + unat (oobsize d)" using size_bounds(1) by (subst unat_add_u64) simp_all
  have page: "unat ?a div W = unat a div W" using aW W_less(1) by (auto simp: ua elim!: dvdE)
  have "unat (word_of_nat (badblockpos d) AND NOT 0x01 :: u32) \<le> unat (word_of_nat (badblockpos d) :: u32)"
    using word_and_le2 [of "word_of_nat (badblockpos d)" "NOT 0x01 :: u32"] by (simp add: word_le_nat_alt)
  also have "\<dots> < 2 ^ 31"
  proof -
    have "page_shift d \<le> 31" using shifts by simp
    then have "(2 :: nat) ^ page_shift d \<le> 2 ^ 31" by (intro power_increasing) simp_all
    then have "badblockpos d < 2 ^ 31" using mark_position W_less(1) by linarith
    then show ?thesis by (simp add: unat_of_nat)
  qed
  finally have offs: "unat (ops_ooboffs ops) + unat (ops_ooblen ops) < 2 ^ 32" by (simp add: ops_def)
  have "drv_inv s2" "unat ?a < 2 ^ chip_shift d" using i2(1) lt ua by simp_all
  from do_write_oob [OF this _ offs, of "sm_mark sm" fill scan] work_area(3) obtain r ops' s3 where
     w: "nand_do_write_oob ?r ?a ops s2 = ((r, ops'), s3)" "drv_inv s3" "chip_bbt s3 = chip_bbt s2"
       "\<forall>x. x \<notin> spare_area \<longrightarrow> ram s3 x = ram s2 x" "\<forall>q. q \<noteq> int (unat a div W) \<longrightarrow> cells (hw s3) q = cells (hw s2) q"
    by (auto simp: ops_def page)
  define s4 where "s4 = nand_release_device ?r (s3\<lparr>chip_ops := ops'\<rparr>)"
  have "ok (hw (s3\<lparr>chip_ops := ops'\<rparr>))" using w(2) by (simp add: drv_inv_def)
  then have q4: "quiet ok cells (s3\<lparr>chip_ops := ops'\<rparr>) s4"
    using select_law by (simp add: s4_def nand_release_device_def)
  then have d4: "driven (s3\<lparr>chip_ops := ops'\<rparr>) s4" "cells (hw s4) = cells (hw s3)"
    by (auto simp: quiet_driven)
  have i4: "drv_inv s4" by (rule drv_inv_driven [OF _ d4(1)]) (simp add: w(2))
  have opt: "chip_options s AND NAND_USE_FLASH_BBT = 0" using assms(1) by (simp add: drv_inv_def)
  define s5 where "s5 = (if r = 0 then count_badblock s4 else s4)"
  have run: "nand_default_block_markbad e ?r (sm_mark sm) a s = Some (r, s5)"
  proof -
    have "bbt_or (nat (int_shift a (bbt_erase_shift ?r)) div 4) (push_bit (2 * (nat (int_shift a (bbt_erase_shift ?r)) mod 4)) 1)
        (upd_ram (\<lambda>mm. store_bytes mm (sm_mark sm) [0, 0]) s) = s1"
      unfolding scan_rw_fields scan_chip_fields scan_ecc_fields sizes(4) b nat_int bbt_or_table
      by (simp add: upd_ram_def s1_def)
    moreover have "nand_get_device FL_WRITING s1 = s2" by (simp add: nand_get_device_def s2_def)
    moreover have "chip_ops s2 = chip_ops s" "chip_options s1 = chip_options s" by (simp_all add: s2_def s1_def)
    ultimately show ?thesis using opt w(1)
      by (simp add: nand_default_block_markbad_def Let_def ops_def s4_def s5_def)
  qed
  have soft: "drv_inv s5 = drv_inv s4" "chip_bbt s5 = chip_bbt s4" "hw s5 = hw s4" "ram s5 = ram s4"
    by (simp_all add: s5_def count_badblock_def)
  have "ram_kept priv s s5"
  proof -
    have "ram s3 x = ram s2 x" if "x \<notin> priv" for x using w(4) work_area(1) that by blast
    then show ?thesis using i2(4) drivenD(2) [OF d4(1)] by (simp add: ram_kept_def soft)
  qed
  moreover have other: "cells (hw s5) q = cells (hw s) q" if "q \<noteq> int (unat a div W)" for q
    using that w(5) i2(3) d4(2) by (simp add: soft)
  have "data_at s5 x = data_at s x" if "x div E \<noteq> ?b" for x
  proof -
    have "x div W \<noteq> unat a div W" using that unfolding page_block by (auto simp: div_mult2_eq)
    then show ?thesis using other unfolding data_at_def by simp
  qed
  moreover have bbt: "chip_bbt s5 = map_option (table_or ?b 1) (chip_bbt s)"
    using drivenD(5) [OF d4(1)] w(3) i2(2) by (simp add: soft)
  moreover have "bad_block s5 b' = bad_block s b'" if "b' \<noteq> ?b" for b'
  proof (cases "chip_bbt s")
    case None
    have "first_page b' div block_pages d \<noteq> int (unat a div W) div block_pages d"
      using that unfolding first_page_block data_block by simp
    then have "mark_at (hw s5) (first_page b') = mark_at (hw s) (first_page b')"
      using other unfolding mark_at_def by metis
    then show ?thesis using bad_block_same [of s5 s b'] bbt None by simp
  next
    case (Some t)
    have "take_bit 2 (1 :: u8) = 1" by simp
    then show ?thesis using bbt bbt_entry_other [OF that] Some by (simp add: bad_block_def)
  qed
  ultimately have "touched ?b s s5" using i4 soft(1) unfolding touched_def by blast
  then show ?thesis using run i4 soft(1) bbt by blast
qed

text \<open>The functions of the device, through the layers.\<close>

abbreviation (input) "dev \<equiv> build_device sm False d"

lemma dev_fields:
  "erasesize dev = erasesize d" "writesize dev = writesize d" "mtd_size dev = mtd_size d"
  by (simp_all add: build_device_def Let_def)

lemma dev_read: "\<exists>scan. mtd_read dev = nand_read_base (the_chip (sm_fill sm) scan)"
  by (auto simp: build_device_def Let_def)

lemma dev_write: "\<exists>scan. mtd_write dev = nand_write_base (the_chip (sm_fill sm) scan)"
  by (auto simp: build_device_def Let_def)

lemma dev_erase: "\<exists>upd scan. mtd_erase dev = nand_erase upd (the_rw (sm_fill sm) scan)"
  by (auto simp: build_device_def Let_def)

lemma dev_isbad: "\<exists>scan. mtd_block_isbad dev = nand_block_isbad_base (the_rw (sm_fill sm) scan)"
  by (auto simp: build_device_def Let_def)

lemma isbad_layers: "nand_block_isbad_base (scan_ops e mark r) = nand_block_isbad_base r"
  by (intro ext) (simp add: nand_block_isbad_base_def nand_block_checkbad_def block_bad_hook_def nand_isbad_bbt_def
      cong: option.case_cong if_cong)

lemma dev_markbad: "\<exists>e scan. mtd_block_markbad dev =
    Some (nand_block_markbad (scan_ops e (sm_mark sm) (the_rw (sm_fill sm) scan)))"
  by (auto simp: build_device_def Let_def)

lemma markbad_step:
  assumes "drv_inv s" "E dvd unat a" "unat a < 2 ^ chip_shift d"
  shows "\<exists>ret r s1 s2. nand_default_block_markbad e (the_rw fill scan) (sm_mark sm) a s = Some (ret, s1) \<and>
    nand_block_isbad_base (the_rw fill scan) a s1 = Some (r, s2) \<and> touched (unat a div E) s s2 \<and>
    r = (if bad_block s2 (unat a div E) then 1 else 0) \<and> (chip_bbt s \<noteq> None \<longrightarrow> r = 1)"
proof -
  let ?b = "unat a div E"
  obtain ret s1 where m: "nand_default_block_markbad e (the_rw fill scan) (sm_mark sm) a s = Some (ret, s1)" "drv_inv s1"
      "chip_bbt s1 = map_option (table_or ?b 1) (chip_bbt s)" "touched ?b s s1"
    using default_markbad [OF assms] by blast
  obtain s2 where c: "nand_block_isbad_base (the_rw fill scan) a s1 = Some (if bad_block s1 ?b then 1 else 0, s2)" "calm s1 s2"
    using isbad_base [OF m(2) assms(2,3)] by blast
  have "bad_block s1 ?b" if "chip_bbt s \<noteq> None"
  proof -
    obtain t where t: "chip_bbt s = Some t" using \<open>chip_bbt s \<noteq> None\<close> by auto
    then have len: "blocks \<le> 4 * length t" using assms(1) by (simp add: drv_inv_def)
    have b: "?b < blocks" by (rule block_bound [OF assms(3)])
    then have idx: "?b div 4 < length t" using len by linarith
    have one: "take_bit 2 (1 :: u8) = 1" by simp
    have "bbt_entry t (2 * ?b) OR 1 \<noteq> 0"
      using bit_or_iff [of "bbt_entry t (2 * ?b)" 1 0] by (metis bit_0_eq bit_1_0 bot_apply bot_bool_def)
    then show ?thesis using b bbt_entry_same [OF idx one] by (simp add: bad_block_def m(3) t)
  qed
  moreover have "touched ?b s s2" by (rule touched_trans [OF m(4) touched_calm [OF m(2) c(2)]])
  ultimately show ?thesis using m(1) c(1) calmD(7) [OF c(2)] by auto
qed

text \<open>
  The block is marked, erased and marked again when the mark does not show.  With a table in memory the first attempt
  always succeeds.
\<close>

lemma nand_block_markbad:
  assumes "drv_inv s" "E dvd unat a" "unat a < 2 ^ chip_shift d"
  shows "\<exists>ret s'. nand_block_markbad (scan_ops e (sm_mark sm) (the_rw fill scan)) a s = Some (ret, s') \<and>
    touched (unat a div E) s s' \<and> ret \<le> 0 \<and> (ret = 0 \<longrightarrow> bad_block s' (unat a div E)) \<and> (chip_bbt s \<noteq> None \<longrightarrow> ret = 0)"
proof -
  let ?b = "unat a div E" and ?m = "scan_ops e (sm_mark sm) (the_rw fill scan)"
  have al: "a AND ucast (erasesize d - 1) = 0"
    using assms(2) by (simp add: u64_pow2_offset [OF pow2_sizes(2)] unat_sizes)
  obtain s0 where 0: "nand_block_isbad_base (the_rw fill scan) a s = Some (if bad_block s ?b then 1 else 0, s0)" "calm s s0"
    using isbad_base [OF assms] by blast
  have i0: "drv_inv s0" "touched ?b s s0" "bad_block s0 = bad_block s" "chip_bbt s0 = chip_bbt s"
    using drv_inv_calm [OF assms(1) 0(2)] touched_calm [OF assms(1) 0(2)] calmD [OF 0(2)] by simp_all
  show ?thesis
  proof (cases "bad_block s ?b")
    case True
    then have "nand_block_markbad ?m a s = Some (0, s0)" using 0(1) by (simp add: nand_block_markbad_def isbad_layers)
    then show ?thesis using i0 True by auto
  next
    case good: False
    obtain ret1 r1 s1 s2 where 1: "nand_default_block_markbad e (the_rw fill scan) (sm_mark sm) a s0 = Some (ret1, s1)"
       "nand_block_isbad_base (the_rw fill scan) a s1 = Some (r1, s2)" "touched ?b s0 s2"
       "r1 = (if bad_block s2 ?b then 1 else 0)" "chip_bbt s0 \<noteq> None \<longrightarrow> r1 = 1"
      using markbad_step [OF i0(1) assms(2,3)] by blast
    have t2: "touched ?b s s2" by (rule touched_trans [OF i0(2) 1(3)])
    show ?thesis
    proof (cases "bad_block s2 ?b")
      case True
      then have "nand_block_markbad ?m a s = Some (0, s2)"
        using 0(1) 1 good by (simp add: nand_block_markbad_def isbad_layers)
      then show ?thesis using t2 True by auto
    next
      case False
      obtain ret3 e3 s3 where 3: "nand_erase (nand_update_bbt e (the_rw fill scan)) (the_rw fill scan) (one_block a) s2 = Some ((ret3, e3), s3)"
         "drv_inv s3" "ram s3 = ram s2" "\<forall>b. b \<noteq> ?b \<longrightarrow> bad_block s3 b = bad_block s2 b"
         "\<forall>x. x div E \<noteq> ?b \<longrightarrow> data_at s3 x = data_at s2 x"
        using nand_erase [OF touched_inv [OF t2] assms(2,3)] by blast
      have "touched ?b s2 s3" using 3(2-5) by (simp add: touched_def ram_kept_def)
      then have t3: "touched ?b s s3" by (rule touched_trans [OF t2])
      obtain ret4 r4 s4 s5 where 4: "nand_default_block_markbad e (the_rw fill scan) (sm_mark sm) a s3 = Some (ret4, s4)"
         "nand_block_isbad_base (the_rw fill scan) a s4 = Some (r4, s5)" "touched ?b s3 s5"
         "r4 = (if bad_block s5 ?b then 1 else 0)"
        using markbad_step [OF 3(2) assms(2,3)] by blast
      have "nand_block_markbad ?m a s = Some (if r4 \<noteq> 0 then 0 else - EINVAL, s5)"
        using 0(1) 1 3(1) 4(1,2,4) good False al by (simp add: nand_block_markbad_def isbad_layers)
      moreover have "touched ?b s s5" by (rule touched_trans [OF t3 4(3)])
      moreover have "chip_bbt s = None" using 1(4,5) False i0(4) by auto
      ultimately show ?thesis using 4(4) by auto
    qed
  qed
qed


lemma isbad_law_dev:
  assumes "drv_inv s" "E dvd unat a" "a < mtd_size d"
  shows "\<exists>r s'. mtd_block_isbad dev a s = Some (r, s') \<and> 0 \<le> r \<and> (r \<noteq> 0) = bad_block s (unat a div E) \<and>
      drv_inv s' \<and> data_at s' = data_at s \<and> bad_block s' = bad_block s \<and> ram_kept priv s s'"
proof -
  have lt: "unat a < 2 ^ chip_shift d" using assms(3) by (simp add: word_less_nat_alt unat_sizes)
  obtain s' where "mtd_block_isbad dev a s = Some (if bad_block s (unat a div E) then 1 else 0, s')" "calm s s'"
    using dev_isbad isbad_base [OF assms(1,2) lt] by metis
  then show ?thesis using drv_inv_calm [OF assms(1)] calmD by (auto simp: ram_kept_def)
qed

lemma read_law_dev:
  assumes "drv_inv s" "0 < n" "W dvd unat a" "W dvd unat n" "unat a + unat n \<le> 2 ^ chip_shift d"
    "{buf ..< buf + unat n} \<inter> priv = {}"
  shows "\<exists>s'. mtd_read dev a n k buf s = Some ((0, n), s') \<and> drv_inv s' \<and> data_at s' = data_at s \<and>
      bad_block s' = bad_block s \<and> (\<forall>x. x \<notin> priv \<longrightarrow>
        ram s' x = (if buf \<le> x \<and> x < buf + unat n then data_at s (unat a + (x - buf)) else ram s x))"
proof -
  have n: "n \<noteq> 0" using assms(2) by auto
  have buf: "{buf ..< buf + unat n} \<inter> spare_area = {}" using assms(6) work_area(1) by blast
  obtain scan where "mtd_read dev = nand_read_base (the_chip (sm_fill sm) scan)" using dev_read by blast
  with nand_read_base [OF assms(1) n assms(3-5) buf, of "sm_fill sm" scan k]
  obtain s' where r: "mtd_read dev a n k buf s = Some ((0, n), s')" "drv_inv s'" "data_at s' = data_at s" "cells (hw s') = cells (hw s)"
     "chip_bbt s' = chip_bbt s" "\<forall>x. x \<notin> spare_area \<longrightarrow>
      ram s' x = (if buf \<le> x \<and> x < buf + unat n then data_at s (unat a + (x - buf)) else ram s x)" by auto
  have "\<forall>x. x \<notin> priv \<longrightarrow> x \<notin> spare_area" using work_area(1) by blast
  then show ?thesis using r(1-3,6) bad_block_cong [OF r(5) mark_at_cells [OF r(4)]] by blast
qed

lemma write_law_dev:
  assumes "drv_inv s" "0 < n" "W dvd unat a" "W dvd unat n" "unat a + unat n \<le> 2 ^ chip_shift d"
    "{buf ..< buf + unat n} \<inter> priv = {}"
  shows "\<exists>ret k' s'. mtd_write dev a n k buf s = Some ((ret, k'), s') \<and> drv_inv s' \<and> bad_block s' = bad_block s \<and>
      ram_kept priv s s' \<and> ret \<le> 0 \<and> (\<forall>x. x < unat a \<or> unat a + unat n \<le> x \<longrightarrow> data_at s' x = data_at s x) \<and>
      (program_works \<longrightarrow> ret = 0) \<and>
      (ret = 0 \<longrightarrow> k' = n \<and> (\<forall>i < unat n. data_at s' (unat a + i) = data_at s (unat a + i) AND ram s (buf + i)))"
proof -
  have n: "n \<noteq> 0" using assms(2) by auto
  have buf: "{buf ..< buf + unat n} \<inter> spare_area = {}" using assms(6) work_area(1) by blast
  obtain scan where "mtd_write dev = nand_write_base (the_chip (sm_fill sm) scan)" using dev_write by blast
  with nand_write_base [OF assms(1) n assms(3-5) buf, of "sm_fill sm" scan k]
  obtain ret k' s' where r: "mtd_write dev a n k buf s = Some ((ret, k'), s')" "drv_inv s'" "chip_bbt s' = chip_bbt s"
      "mark_at (hw s') = mark_at (hw s)" "\<forall>x. x \<notin> spare_area \<longrightarrow> ram s' x = ram s x" "ret \<le> 0" "program_works \<longrightarrow> ret = 0"
    "\<forall>x. x < unat a \<or> unat a + unat n \<le> x \<longrightarrow> data_at s' x = data_at s x"
    "ret = 0 \<longrightarrow> k' = n \<and> (\<forall>i < unat n. data_at s' (unat a + i) = data_at s (unat a + i) AND ram s (buf + i))"
    by auto
  have "ram_kept priv s s'" using r(5) work_area(1) unfolding ram_kept_def by blast
  then show ?thesis using r(1,2,6-9) bad_block_cong [OF r(3,4)] by blast
qed

lemma erase_law_dev:
  assumes "drv_inv s" "E dvd unat a" "a < mtd_size d"
  shows "\<exists>ret e' s'. mtd_erase dev (one_block a) s = Some ((ret, e'), s') \<and> drv_inv s' \<and> ram_kept priv s s' \<and>
      (ret = 0 \<or> ret = - EIO) \<and> (\<forall>b. b \<noteq> unat a div E \<longrightarrow> bad_block s' b = bad_block s b) \<and>
      (\<forall>x. x div E \<noteq> unat a div E \<longrightarrow> data_at s' x = data_at s x) \<and>
      (bad_block s (unat a div E) \<longrightarrow> ret \<noteq> 0 \<and> data_at s' = data_at s \<and> bad_block s' = bad_block s) \<and>
      (erase_works \<and> \<not> bad_block s (unat a div E) \<longrightarrow> ret = 0) \<and>
      (ret = 0 \<longrightarrow> bad_block s' = bad_block s \<and> (\<forall>x. x div E = unat a div E \<longrightarrow> data_at s' x = 0xff))"
proof -
  have lt: "unat a < 2 ^ chip_shift d" using assms(3) by (simp add: word_less_nat_alt unat_sizes)
  obtain upd scan where "mtd_erase dev = nand_erase upd (the_rw (sm_fill sm) scan)" using dev_erase by blast
  with nand_erase [OF assms(1,2) lt, of upd "sm_fill sm" scan]
  obtain ret e' s' where r: "mtd_erase dev (one_block a) s = Some ((ret, e'), s')" "drv_inv s'" "ram s' = ram s"
    "ret = 0 \<or> ret = - EIO" "\<forall>b. b \<noteq> unat a div E \<longrightarrow> bad_block s' b = bad_block s b"
    "\<forall>x. x div E \<noteq> unat a div E \<longrightarrow> data_at s' x = data_at s x"
    "bad_block s (unat a div E) \<longrightarrow> ret \<noteq> 0 \<and> data_at s' = data_at s \<and> bad_block s' = bad_block s"
    "erase_works \<and> \<not> bad_block s (unat a div E) \<longrightarrow> ret = 0"
    "ret = 0 \<longrightarrow> bad_block s' = bad_block s \<and> (\<forall>x. x div E = unat a div E \<longrightarrow> data_at s' x = 0xff)" by auto
  have "ram_kept priv s s'" by (simp add: ram_kept_def r(3))
  then show ?thesis using r(1,2,4-9) by blast
qed

lemma markbad_law_dev:
  assumes "drv_inv s" "E dvd unat a" "a < mtd_size d"
  shows "\<exists>f ret s'. mtd_block_markbad dev = Some f \<and> f a s = Some (ret, s') \<and> drv_inv s' \<and> ram_kept priv s s' \<and> ret \<le> 0 \<and>
      (\<forall>b. b \<noteq> unat a div E \<longrightarrow> bad_block s' b = bad_block s b) \<and>
      (\<forall>x. x div E \<noteq> unat a div E \<longrightarrow> data_at s' x = data_at s x) \<and> (ret = 0 \<longrightarrow> bad_block s' (unat a div E))"
proof -
  have lt: "unat a < 2 ^ chip_shift d" using assms(3) by (simp add: word_less_nat_alt unat_sizes)
  obtain e scan where f: "mtd_block_markbad dev = Some (nand_block_markbad (scan_ops e (sm_mark sm) (the_rw (sm_fill sm) scan)))"
    using dev_markbad by blast
  show ?thesis unfolding f using nand_block_markbad [OF assms(1,2) lt, of e "sm_fill sm" scan]
    by (simp add: touched_def) blast
qed

end

sublocale nand_device \<subseteq> mtd: mtd_dev "build_device sm False d" drv_inv data_at bad_block priv
proof (unfold_locales, unfold dev_fields unat_sizes)
  show "pow2_size (erasesize d)" "pow2_size (writesize d)" by (rule pow2_sizes)+
  show "4 \<le> W" using power_increasing [of 2 "page_shift d" "2 :: nat"] shifts(1) by simp
  show "W dvd E" unfolding page_block by simp
  show "E dvd 2 ^ chip_shift d" unfolding size_blocks by simp
  show "2 ^ chip_shift d < (2 ^ 62 :: nat)" by (rule size_bounds(1))
  fix s :: "'h nand_st" and a to :: u64 and n :: u32 and buf k assume i: "drv_inv s"
  { assume "0 < n" "W dvd unat to" "W dvd unat n" "unat to + unat n \<le> 2 ^ chip_shift d" "{buf ..< buf + unat n} \<inter> priv = {}"
    from write_law_dev [OF i this, of k]
    show "\<exists>ret k' s'. mtd_write dev to n k buf s = Some ((ret, k'), s') \<and> drv_inv s' \<and> bad_block s' = bad_block s \<and>
           ram_kept priv s s' \<and> ret \<le> 0 \<and>
           (\<forall>a. a < unat to \<or> unat to + unat n \<le> a \<longrightarrow> data_at s' a = data_at s a) \<and>
           (ret = 0 \<longrightarrow> k' = n \<and> (\<forall>i<unat n. data_at s' (unat to + i) = data_at s (unat to + i) AND ram s (buf + i)))"
      by blast }
  { assume "E dvd unat a" "a < mtd_size d"
    from erase_law_dev [OF i this]
    show "\<exists>ret e' s'. mtd_erase dev (one_block a) s = Some ((ret, e'), s') \<and> drv_inv s' \<and> ram_kept priv s s' \<and>
           (ret = 0 \<or> ret = - EIO) \<and> (\<forall>b. b \<noteq> unat a div E \<longrightarrow> bad_block s' b = bad_block s b) \<and>
           (\<forall>x. x div E \<noteq> unat a div E \<longrightarrow> data_at s' x = data_at s x) \<and>
           (bad_block s (unat a div E) \<longrightarrow> ret \<noteq> 0 \<and> data_at s' = data_at s \<and> bad_block s' = bad_block s) \<and>
           (ret = 0 \<longrightarrow> bad_block s' = bad_block s \<and> (\<forall>x. x div E = unat a div E \<longrightarrow> data_at s' x = 0xff))"
      by blast }
qed ((rule isbad_law_dev read_law_dev markbad_law_dev; assumption) | simp)+

text \<open>A device on which nothing fails.\<close>

locale nand_reliable = nand_device d ok cells in_status reading loading sm priv
  for d :: "'h nand_hw" and ok cells in_status reading loading sm priv +
  assumes works: program_works erase_works

sublocale nand_reliable \<subseteq> mtd: mtd_reliable "build_device sm False d" drv_inv data_at bad_block priv
proof (unfold_locales, unfold dev_fields unat_sizes)
  fix s :: "'h nand_st" and to :: u64 and n :: u32 and buf k ret k' s'
  assume i: "drv_inv s" and a: "0 < n" "W dvd unat to" "W dvd unat n" "unat to + unat n \<le> 2 ^ chip_shift d"
    "{buf ..< buf + unat n} \<inter> priv = {}" and w: "mtd_write dev to n k buf s = Some ((ret, k'), s')"
  show "ret = 0" using write_law_dev [OF i a, of k] w works(1) by auto
next
  fix s :: "'h nand_st" and a :: u64 and ret e' s'
  assume i: "drv_inv s" and a: "E dvd unat a" "a < mtd_size d" and b: "\<not> bad_block s (unat a div E)"
    and e: "mtd_erase dev (one_block a) s = Some ((ret, e'), s')"
  show "ret = 0" using erase_law_dev [OF i a] e b works(2) by auto
qed

end
