(* ===== verification/Hinfc610Init.thy ===== *)
theory Hinfc610Init
  imports Hinfc610
begin

text \<open>
  The rest of \<open>drivers/mtd/nand/hinfc610.c\<close>: reading without error correction, the test for a bad block that replaces
  \<open>nand_block_bad\<close> for the chips of some makers, and the set-up of the host and of the chip
  (\<open>hinfc610_nand_init\<close>, \<open>hinfc610_param_adjust\<close>).  \<open>None\<close> is a \<open>PR_BUG\<close>, which never returns.
\<close>

section \<open>Bad blocks\<close>

definition hinfc610_read_raw_data :: "'c hinfc_cfg \<Rightarrow> int \<Rightarrow> u32 \<Rightarrow> u32 \<Rightarrow> 'c hinfc_host \<Rightarrow> 'c hinfc_host" where
  "hinfc610_read_raw_data c page ofs n h =
     (let h = (if IS_NAND_SYNC_ASYNC h then hinfc610_sync_entry c h else h);
          h = h\<lparr>bus := (bus h)\<lparr>io_mem := fill_bytes (io_mem (bus h)) 0 0 (unat n)\<rparr>\<rparr>;
          h = hinfc610_enable_ecc_randomizer c False False h;
          h = hinfc_write c 0x60 HINFC610_INTCLR h;
          h = h\<lparr>addr_cycle := (if large_chip c then 5 else 4),
                addr_value0 := (ofs AND 0xFFFF) OR push_bit 16 (word_of_int page AND 0xFFFF),
                addr_value1 := (if large_chip c then word_of_int (drop_bit 16 page) AND 0xFF else 0)\<rparr>;
          h = hinfc_write c (addr_value0 h) HINFC610_ADDRL h;
          h = hinfc_write c (addr_value1 h) HINFC610_ADDRH h;
          h = hinfc_write c 0x3000 HINFC610_CMD h;
          h = hinfc_write c ((0x3FFF AND n) OR HINFC610_DATA_NUM_RANDOM_EN) HINFC610_DATA_NUM h;
          h = hinfc_write c (HINFC610_OP_READ_DATA_EN OR HINFC610_OP_WAIT_READY_EN OR HINFC610_OP_CMD2_EN OR HINFC610_OP_ADDR_EN
                OR HINFC610_OP_CMD1_EN OR OP_cs h OR push_bit 9 (addr_cycle h AND 7)) HINFC610_OP h;
          h = WAIT_CONTROLLER_FINISH c (h\<lparr>addr_cycle := 0\<rparr>)
      in if IS_NAND_SYNC_ASYNC h then hinfc610_sync_exit c h else h)"

abbreviation (input) NAND_BBT_2ND_PAGE :: u32 where "NAND_BBT_2ND_PAGE \<equiv> 0x10000000"
abbreviation (input) NAND_BBT_LAST_PAGE :: u32 where "NAND_BBT_LAST_PAGE \<equiv> 0x20000000"

text \<open>One page is looked at: whether it tells that the block is bad.\<close>

definition bad_page :: "'c hinfc_cfg \<Rightarrow> ('c hinfc_host, 'z) nand_core_scheme \<Rightarrow> int \<Rightarrow> 'c hinfc_host nand_st \<Rightarrow> bool \<times> 'c hinfc_host nand_st" where
  "bad_page c m page s =
     (let s = cmdfunc m NAND_CMD_READOOB (int (badblockpos m)) page s; (b, s) = read_byte m s
      in if b \<noteq> 0xFF then (bbm_bitsflap (hw s) \<noteq> 0xff \<or> get_8bits b < 6, s)
         else
           let h = hw s; h = h\<lparr>page_status := page_status h OR hinfc610_get_data_status h\<rparr>; s = s\<lparr>hw := h\<rparr>
           in if \<not> IS_PS HINFC610_PS_EMPTY_PAGE h then (False, s)
              else if bbm_bitsflap h < 8 then (False, s)
              else let h = hinfc610_read_raw_data c page (word_of_nat (badblockpos m) + writesize m) 4 h
                   in (get_8bits (io_mem (bus h) 0) \<le> 2, s\<lparr>hw := h\<rparr>))"

text \<open>
  The pages are the first, the second and the last of the block, as the options ask for; \<open>bbm\<close> is 0 before the second.
\<close>

function block_bad_loop ::
  "'c hinfc_cfg \<Rightarrow> ('c hinfc_host, 'z) nand_core_scheme \<Rightarrow> u32 \<Rightarrow> u64 \<Rightarrow> 'c hinfc_host nand_st \<Rightarrow> int \<times> 'c hinfc_host nand_st" where
  "block_bad_loop c m mark ofs s =
     (let (bad, s) = bad_page c m (page_of m ofs) s in
      if bad then (1, s)
      else if mark = NAND_BBT_LAST_PAGE then (0, s)
      else if mark = 0
      then if chip_options s AND NAND_BBT_2ND_PAGE \<noteq> 0 then block_bad_loop c m NAND_BBT_2ND_PAGE (ofs + ucast (writesize m)) s
           else (0, s)
      else if mark = NAND_BBT_2ND_PAGE
      then if chip_options s AND NAND_BBT_LAST_PAGE \<noteq> 0
           then block_bad_loop c m NAND_BBT_LAST_PAGE (ofs - ucast (writesize m) + ucast (erasesize m - writesize m)) s
           else (0, s)
      else (0, s))"
  by pat_completeness auto
termination
  by (relation "measure (\<lambda>(c, m, mark, ofs, s). if mark = 0 then 2 else if mark = NAND_BBT_2ND_PAGE then 1 else 0)") auto

definition hinfc610_nand_block_bad ::
  "'c hinfc_cfg \<Rightarrow> ('c hinfc_host, 'z) nand_core_scheme \<Rightarrow> u64 \<Rightarrow> bool \<Rightarrow> 'c hinfc_host nand_st \<Rightarrow> int \<times> 'c hinfc_host nand_st" where
  "hinfc610_nand_block_bad c m ofs getchip s =
     (let mark = (if chip_options s AND NAND_BBT_2ND_PAGE = 0 \<and> chip_options s AND NAND_BBT_LAST_PAGE \<noteq> 0
                  then NAND_BBT_2ND_PAGE else 0);
          s = (if getchip then select_chip m (int_shift ofs (chip_shift m)) (nand_get_device FL_READING s) else s);
          (res, s) = block_bad_loop c m mark ofs s
      in (res, if getchip then nand_release_device m (select_chip m (- 1) s) else s))"

text \<open>Which makers' chips are tested in that way, and what is added to the chip's options.\<close>

definition hinfc610_chip_adjust :: "u8 \<Rightarrow> u32 \<Rightarrow> bool \<times> u32" where
  "hinfc610_chip_adjust manf options =
     (if manf \<notin> {0x98, 0xec, 0xad, 0x2c} then (True, options OR NAND_BBT_2ND_PAGE OR NAND_BBT_LAST_PAGE)
      else (False, options))"

section \<open>The host before the chip is known\<close>

text \<open>
  What \<open>hinfc610_nand_init\<close> sets in the host, from the version and the registers \<open>STATUS\<close>, \<open>CON\<close> and \<open>BOOT_CFG\<close>;
  \<open>config_done\<close> tells that the system controller was started from NAND.  The flags are \<open>NANDC_HW_AUTO\<close> (1),
  \<open>NANDC_CONFIG_DONE\<close> (2), \<open>NANDC_IS_SYNC_BOOT\<close> (4) and \<open>NAND_RANDOMIZER\<close> (0x10).
\<close>

definition init_flags :: "int \<Rightarrow> u32 \<Rightarrow> u32 \<Rightarrow> u32 \<Rightarrow> bool \<Rightarrow> u32" where
  "init_flags version status con boot_cfg config_done =
     (if version = 0x620 \<and> status AND 0x100000 \<noteq> 0 \<or> version = 0x610 \<and> con AND HINFC610_CON_RANDOMIZER_EN \<noteq> 0 then 0x10 else 0)
     OR (if version = 0x620 \<or> boot_cfg AND 0x2000 \<noteq> 0 then 1 else 0)
     OR (if version \<noteq> 0x620 \<and> boot_cfg AND 0x1000 \<noteq> 0 then 4 else 0)
     OR (if config_done then 2 else 0)"

definition init_host :: "int \<Rightarrow> u32 \<Rightarrow> u32 \<Rightarrow> u32 \<Rightarrow> bool \<Rightarrow> 'c hinfc_host \<Rightarrow> 'c hinfc_host" where
  "init_host version status con boot_cfg config_done h =
     (let h = h\<lparr>addr_cycle := 0, addr_value0 := 0, addr_value1 := 0, cache_addr_value0 := - 1, cache_addr_value1 := - 1,
                chipselect := 0, host_flags := init_flags version status con boot_cfg config_done,
                NFC_CON := con OR 0x101,
                NFC_CON_ECC_NONE := (con OR 0x101) AND NOT 0x1E00 AND NOT HINFC610_CON_RANDOMIZER_EN\<rparr>
      in if version \<noteq> 0x620 \<and> boot_cfg AND 0x1000 \<noteq> 0
         then h\<lparr>NFC_CON := NFC_CON h OR 0x8000, NFC_CON_ECC_NONE := NFC_CON_ECC_NONE h OR 0x8000\<rparr> else h)"

section \<open>The host for a chip\<close>

text \<open>
  The configuration that \<open>hinfc610_param_adjust\<close> chooses and the host's flags after it: automatic or by pins when the board
  starts from NAND, by the chip's sizes otherwise.
\<close>

definition choose_config ::
  "int \<Rightarrow> bool \<Rightarrow> u32 \<Rightarrow> u32 \<Rightarrow> u32 \<Rightarrow> 'a mtd_geom_scheme \<Rightarrow> (nand_config_table \<times> u32) option" where
  "choose_config version nand_boot nfc_con flags dev_flags m =
     (let off = (if dev_flags AND 0x10 = 0 then flags AND NOT 0x10 else flags) in
      if nand_boot
      then if flags AND 1 \<noteq> 0
           then (case hinfc610_get_best_ecc (if version = 0x620 then hinfc620_hw_auto_config_table else hinfc610_hw_auto_config_table) m of
                   None \<Rightarrow> None
                 | Some best \<Rightarrow>
                     if flags AND 2 \<noteq> 0
                     then map_option (\<lambda>b. (b, flags)) (hinfc610_check_config version nfc_con flags dev_flags best True)
                     else Some (best, off))
           else (case hinfc610_get_best_ecc hinfc610_hw_pin_config_table m of
                   None \<Rightarrow> None
                 | Some best \<Rightarrow> map_option (\<lambda>b. (b, flags)) (hinfc610_check_config version nfc_con flags dev_flags best False))
      else (case hinfc610_get_best_ecc (if version = 0x620 then hinfc620_soft_auto_config_table else hinfc610_soft_auto_config_table) m of
              None \<Rightarrow> None
            | Some best \<Rightarrow> Some (best, off)))"

text \<open>The flags that come from the chip, and the check of the synchronous boot mode.\<close>

definition merge_flags :: "int \<Rightarrow> u32 \<Rightarrow> u32 \<Rightarrow> u32 option" where
  "merge_flags version flags dev_flags =
     (let flags = flags OR (dev_flags AND (if version = 0x620 then 0x10 else 0xF0))
      in if (flags AND 4 \<noteq> 0) \<noteq> (dev_flags AND 0x80 \<noteq> 0) then None else Some flags)"

text \<open>A page larger than the controller's is divided, by the loop over \<open>writesize\<close>.\<close>

function page_divisions :: "u32 \<Rightarrow> u32 \<Rightarrow> nat" where
  "page_divisions ws ps = (if ps < ws then Suc (page_divisions (drop_bit 1 ws) ps) else 0)"
  by pat_completeness auto
termination
proof (relation "measure (\<lambda>(ws, ps). unat ws)")
  fix ws ps :: u32
  assume "ps < ws"
  then have "0 < unat ws" by (auto simp: unat_gt_0)
  moreover have "unat (drop_bit 1 ws) = unat ws div 2"
    using unsigned_less [of ws, where 'a = nat]
    by (subst unsigned_drop_bit_eq) (simp add: take_bit_nat_eq_self drop_bit_eq_div [where 'a = nat])
  ultimately show "((drop_bit 1 ws, ps), ws, ps) \<in> measure (\<lambda>(ws, ps). unat ws)" by simp
qed simp

declare page_divisions.simps [simp del]

text \<open>The fields of the host, the buffers blank, and the page and ECC fields of the control register.\<close>

definition con_fields :: "int \<Rightarrow> nand_config_table \<Rightarrow> u32 \<Rightarrow> u32" where
  "con_fields version best con =
     (con AND NOT 0xE AND NOT 0x1E00)
     OR push_bit 1 (word_of_int (hinfc610_page_type2reg (int (pagetype best))) AND 0x07)
     OR push_bit 9 (word_of_int (hinfc610_ecc_type2reg_intf version (cfg_ecctype best)) AND 0x0f)"

definition con_none_fields :: "nand_config_table \<Rightarrow> u32 \<Rightarrow> u32" where
  "con_none_fields best con =
     (con AND NOT 0xE AND NOT 0x1E00) OR push_bit 1 (word_of_int (hinfc610_page_type2reg (int (pagetype best))) AND 0x07)"

definition setup_host :: "int \<Rightarrow> nand_config_table \<Rightarrow> u32 \<Rightarrow> 'a mtd_geom_scheme \<Rightarrow> 'c hinfc_host \<Rightarrow> 'c hinfc_host" where
  "setup_host version best buforg m h =
     (let sz = word_of_int (nandpage_type2size (pagetype best));
          oob = (if cfg_ecctype best \<noteq> NAND_ECC_TYPE_NONE then cfg_oobsize best else oobsize m);
          buffer = (buforg + 63) AND NOT 63
      in h\<lparr>ecctype := cfg_ecctype best, pagesize := sz, host_oobsize := oob,
           block_page_mask := erasesize m div writesize m - 1,
           dma_buffer := buffer, dma_oob := buffer + sz, bbm := unat sz,
           epm := unat sz + unat (of_offset (cfg_layout best)) + 28,
           bus := (bus h)\<lparr>io_mem := fill_bytes (io_mem (bus h)) 0 0xff (2048 + 128),
                          dma_mem := fill_bytes (dma_mem (bus h)) 0 0xff (unat (sz + oob))\<rparr>,
           NFC_CON := con_fields version best (NFC_CON h),
           NFC_CON_ECC_NONE := con_none_fields best (NFC_CON_ECC_NONE h)\<rparr>)"

text \<open>The number of pages of a block, as the boot code is told; other numbers leave the register alone.\<close>

definition write_boot_set :: "'c hinfc_cfg \<Rightarrow> u32 \<Rightarrow> 'c hinfc_host \<Rightarrow> 'c hinfc_host" where
  "write_boot_set c pagenum h =
     (let (v, h) = hinfc_read c 0x94 h; v = v AND NOT 0x3
      in if pagenum = 64 then hinfc_write c v 0x94 h
         else if pagenum = 128 then hinfc_write c (v OR 1) 0x94 h
         else if pagenum = 256 then hinfc_write c (v OR 2) 0x94 h
         else if pagenum = 512 then hinfc_write c (v OR 3) 0x94 h
         else h)"

text \<open>
  The set-up of a chip: \<open>buforg\<close> is the buffer that \<open>kmalloc\<close> gave (\<open>Inl 1\<close> without one), \<open>rr_type\<close> the kind of read
  retry that the chip needs, 0 for none, \<open>rw_latch\<close> the timing found for it.  \<open>hinfc610_get_sync_info\<close> (theory \<open>HinfcRetry\<close>) is not
  called, and the change of a divided chip's sizes is left out; the sizes are never divided (\<open>choose_config_writesize\<close>).
\<close>

definition hinfc610_param_adjust ::
  "'c hinfc_cfg \<Rightarrow> int \<Rightarrow> bool \<Rightarrow> u32 \<Rightarrow> nat \<Rightarrow> u32 option \<Rightarrow> u32 option \<Rightarrow> 'a mtd_geom_scheme \<Rightarrow> 'c hinfc_host \<Rightarrow>
     (int + nand_config_table \<times> 'c hinfc_host) option" where
  "hinfc610_param_adjust c version nand_boot dev_flags rr_type buforg rw_latch m h =
     do {
       (best, flags) \<leftarrow> choose_config version nand_boot (NFC_CON h) (host_flags h) dev_flags m;
       flags \<leftarrow> merge_flags version flags dev_flags;
       (case buforg of
          None \<Rightarrow> Some (Inl 1)
        | Some b \<Rightarrow>
            let h = setup_host version best b m (h\<lparr>host_flags := flags\<rparr>);
                h = hinfc610_enable_ecc_randomizer c True True h;
                oob = (if cfg_ecctype best \<noteq> NAND_ECC_TYPE_NONE then cfg_oobsize best else oobsize m)
            in if 32768 < writesize m \<or> 4800 < oob then None
               else
                 let h = write_boot_set c (erasesize m div writesize m) h in
                 if rr_type \<noteq> 0 \<and> read_retry c = None then None
                 else if rr_type \<noteq> 0 \<and> \<not> IS_NAND_RANDOM h then None
                 else if IS_NAND_RANDOM h \<and> \<not> hinfc610_support_randomizer (uint (pagesize h)) (ecctype h) then None
                 else do {
                   info \<leftarrow> hinfc610_ecc_info_init (ecctype h) (uint (pagesize h));
                   l \<leftarrow> rw_latch;
                   Some (Inr (best, hinfc_write c l HINFC610_PWIDTH (h\<lparr>ecc_section := ei_section info\<rparr>)))
                 })
     }"

end
