(* ===== verification/HinfcDriver.thy ===== *)
theory HinfcDriver
  imports Hinfc610 NandDevice
begin

text \<open>
  The driver of the controller V610 fulfils the contract \<open>nand_driver\<close>, for every controller that behaves as the driver's
  register definitions tell.  The chip is one that needs neither a read retry nor the randomizer nor the
  synchronous mode.
\<close>

section \<open>Address bytes\<close>

definition byte_of :: "int \<Rightarrow> u32" where
  "byte_of x = word_of_int (x AND 0xff)"

lemma bit_byte_of: "bit (byte_of x) n \<longleftrightarrow> n < 8 \<and> bit x n"
proof -
  have "byte_of x = word_of_int (take_bit 8 x)" by (simp add: byte_of_def take_bit_eq_mask mask_eq_exp_minus_1)
  then show ?thesis by (auto simp: bit_word_of_int_iff bit_take_bit_iff)
qed

definition addr_word :: "int \<Rightarrow> int \<Rightarrow> int \<Rightarrow> int \<Rightarrow> u32" where
  "addr_word a b e f = byte_of a OR push_bit 8 (byte_of b) OR push_bit 16 (byte_of e) OR push_bit 24 (byte_of f)"

lemma byte_pair: "byte_of x OR push_bit 8 (byte_of (drop_bit 8 x)) = word_of_int (take_bit 16 x)"
proof (rule bit_word_eqI)
  fix n assume "n < LENGTH(32)"
  have "8 \<le> n \<Longrightarrow> 8 + (n - 8) = n" by simp
  then show "bit (byte_of x OR push_bit 8 (byte_of (drop_bit 8 x))) n = bit (word_of_int (take_bit 16 x) :: u32) n"
    using \<open>n < LENGTH(32)\<close> by (auto simp: bit_or_iff bit_push_bit_iff bit_byte_of bit_drop_bit_eq bit_word_of_int_iff bit_take_bit_iff)
qed

lemma unat_take: "0 \<le> x \<Longrightarrow> k < 32 \<Longrightarrow> unat (word_of_int (take_bit k x) :: u32) = nat (x mod 2 ^ k)"
proof -
  assume a: "0 \<le> x" "k < 32"
  have "x mod 2 ^ k < 2 ^ k" by simp
  also have "(2 :: int) ^ k < 2 ^ 32" using a(2) by (intro power_strict_increasing) simp_all
  finally have "x mod 2 ^ k < 2 ^ 32" .
  then show ?thesis by (simp add: unat_eq_nat_uint uint_word_of_int take_bit_eq_mod)
qed

text \<open>The parts of an address word.\<close>

lemma addr_word_high: "drop_bit 16 (addr_word a b e (drop_bit 8 e)) = word_of_int (take_bit 16 e)"
proof (rule bit_word_eqI)
  fix n assume n: "n < LENGTH(32)"
  have "n < 8 \<Longrightarrow> \<not> 24 \<le> 16 + n" "8 \<le> n \<Longrightarrow> 8 + (16 + n - 24) = n" by simp_all
  then show "bit (drop_bit 16 (addr_word a b e (drop_bit 8 e))) n = bit (word_of_int (take_bit 16 e) :: u32) n"
    using n by (auto simp: addr_word_def bit_or_iff bit_push_bit_iff bit_byte_of bit_drop_bit_eq bit_word_of_int_iff bit_take_bit_iff)
qed

lemma addr_word_low: "addr_word a (drop_bit 8 a) e f AND 0xffff = word_of_int (take_bit 16 a)"
proof (rule bit_word_eqI)
  fix n assume n: "n < LENGTH(32)"
  have m: "(0xffff :: u32) = mask 16" by (simp add: mask_eq_exp_minus_1)
  have "8 \<le> n \<Longrightarrow> 8 + (n - 8) = n" by simp
  then show "bit (addr_word a (drop_bit 8 a) e f AND 0xffff) n = bit (word_of_int (take_bit 16 a) :: u32) n"
    unfolding m using n
    by (auto simp: addr_word_def bit_or_iff bit_and_iff bit_mask_iff bit_push_bit_iff bit_byte_of bit_drop_bit_eq bit_word_of_int_iff bit_take_bit_iff)
qed

lemma addr_word_row: "byte_of e OR push_bit 8 (byte_of (drop_bit 8 e)) OR push_bit 16 (byte_of (drop_bit 16 e)) = word_of_int (take_bit 24 e)"
proof (rule bit_word_eqI)
  fix n assume n: "n < LENGTH(32)"
  have "8 \<le> n \<Longrightarrow> 8 + (n - 8) = n" "16 \<le> n \<Longrightarrow> 16 + (n - 16) = n" by simp_all
  then show "bit (byte_of e OR push_bit 8 (byte_of (drop_bit 8 e)) OR push_bit 16 (byte_of (drop_bit 16 e))) n =
      bit (word_of_int (take_bit 24 e) :: u32) n"
    using n by (cases "n < 16")
      (auto simp: bit_or_iff bit_push_bit_iff bit_byte_of bit_drop_bit_eq bit_word_of_int_iff bit_take_bit_iff)
qed

lemma addr_phase_first: "addr_phase a 0x85 h = h\<lparr>addr_cycle := 1, addr_value0 := byte_of a, addr_value1 := 0\<rparr>"
  by (simp add: addr_phase_def byte_of_def)

lemma addr_phase_next:
  "addr_cycle h = 1 \<Longrightarrow> addr_phase a 5 h = h\<lparr>addr_cycle := 2, addr_value0 := addr_value0 h OR push_bit 8 (byte_of a)\<rparr>"
  "addr_cycle h = 2 \<Longrightarrow> addr_phase a 5 h = h\<lparr>addr_cycle := 3, addr_value0 := addr_value0 h OR push_bit 16 (byte_of a)\<rparr>"
  "addr_cycle h = 3 \<Longrightarrow> addr_phase a 5 h = h\<lparr>addr_cycle := 4, addr_value0 := addr_value0 h OR push_bit 24 (byte_of a)\<rparr>"
  "addr_cycle h = 4 \<Longrightarrow> addr_phase a 5 h = h\<lparr>addr_cycle := 5, addr_value1 := addr_value1 h OR byte_of a\<rparr>"
  by (simp_all add: addr_phase_def byte_of_def Let_def word_le_nat_alt)

definition addr_phases :: "int list \<Rightarrow> 'c hinfc_host \<Rightarrow> 'c hinfc_host" where
  "addr_phases ds h = (case ds of [] \<Rightarrow> h | d # ds \<Rightarrow> fold (\<lambda>d. addr_phase d 5) ds (addr_phase d 0x85 h))"

lemma addr_phases_values:
  "addr_phases [a, b, e, f, g] h = h\<lparr>addr_cycle := 5, addr_value0 := addr_word a b e f, addr_value1 := byte_of g\<rparr>"
  "addr_phases [a, b, e, f] h = h\<lparr>addr_cycle := 4, addr_value0 := addr_word a b e f, addr_value1 := 0\<rparr>"
  "addr_phases [a, b, e] h =
     h\<lparr>addr_cycle := 3, addr_value0 := byte_of a OR push_bit 8 (byte_of b) OR push_bit 16 (byte_of e), addr_value1 := 0\<rparr>"
  "addr_phases [a, b] h = h\<lparr>addr_cycle := 2, addr_value0 := byte_of a OR push_bit 8 (byte_of b), addr_value1 := 0\<rparr>"
  by (simp_all add: addr_phases_def addr_phase_first addr_phase_next addr_word_def or.assoc)

section \<open>The contract of the controller\<close>

text \<open>\<open>rg\<close> is the contents of the registers: the page that the address registers tell, and the set-up of a transfer.\<close>

definition page_reg :: "(nat \<Rightarrow> u32) \<Rightarrow> int" where
  "page_reg rg = int (unat (drop_bit 16 (rg HINFC610_ADDRL)) + 65536 * unat (rg HINFC610_ADDRH))"

definition dma_ready :: "u32 \<Rightarrow> u32 \<Rightarrow> u32 \<Rightarrow> (nat \<Rightarrow> u32) \<Rightarrow> bool" where
  "dma_ready base oob con rg \<longleftrightarrow>
     rg HINFC610_DMA_ADDR_DATA = base \<and> rg HINFC610_DMA_ADDR_DATA1 = base + 4096 \<and>
     rg HINFC610_DMA_ADDR_DATA2 = base + 8192 \<and> rg HINFC610_DMA_ADDR_DATA3 = base + 12288 \<and>
     rg HINFC610_DMA_ADDR_DATA4 = base + 16384 \<and> rg HINFC610_DMA_ADDR_DATA5 = base + 20480 \<and>
     rg HINFC610_DMA_ADDR_DATA6 = base + 24576 \<and> rg HINFC610_DMA_ADDR_DATA7 = base + 28672 \<and>
     rg HINFC610_DMA_ADDR_OOB = oob \<and> rg HINFC610_DMA_PARA = 0xf \<and> rg HINFC610_CON = con"

locale nfc_controller =
  fixes ct :: "'c nfc_ctl"
    and base oob con :: u32
    and data_bytes spare_bytes mark_pos :: nat
    and large :: bool
    and ppb npages :: int
    and up :: "'c \<Rightarrow> bool"
    and reg :: "'c \<Rightarrow> nat \<Rightarrow> u32"
    and cells :: "'c \<Rightarrow> int \<Rightarrow> nat \<Rightarrow> u8"
    and failed :: "'c \<Rightarrow> bool"
    and busy :: "'c \<Rightarrow> nat"
  assumes passive_law: "up (nfc b) \<Longrightarrow> r \<noteq> HINFC610_OP \<Longrightarrow> r \<noteq> HINFC610_DMA_CTRL \<Longrightarrow> b' = reg_write ct r v b \<Longrightarrow>
      up (nfc b') \<and> reg (nfc b') = (reg (nfc b))(r := v) \<and> cells (nfc b') = cells (nfc b) \<and>
      failed (nfc b') = failed (nfc b) \<and> dma_mem b' = dma_mem b \<and> io_mem b' = io_mem b"
    and reg_read_law: "up (nfc b) \<Longrightarrow> reg_read ct r b = (v, b') \<Longrightarrow>
      up (nfc b') \<and> reg (nfc b') = reg (nfc b) \<and> cells (nfc b') = cells (nfc b) \<and>
      failed (nfc b') = failed (nfc b) \<and> dma_mem b' = dma_mem b \<and> io_mem b' = io_mem b \<and>
      busy (nfc b') = busy (nfc b) - 1 \<and>
      (busy (nfc b) = 0 \<longrightarrow> (r = HINFC610_STATUS \<longrightarrow> v AND 1 \<noteq> 0) \<and> (r = HINFC610_DMA_CTRL \<longrightarrow> v AND 1 = 0))"
    and clock_law: "up (nfc b) \<Longrightarrow> elapsed ct b = (t, b') \<Longrightarrow>
      up (nfc b') \<and> reg (nfc b') = reg (nfc b) \<and> cells (nfc b') = cells (nfc b) \<and>
      failed (nfc b') = failed (nfc b) \<and> dma_mem b' = dma_mem b \<and> io_mem b' = io_mem b"
    and dma_read_law: "up (nfc b) \<Longrightarrow> dma_ready base oob con (reg (nfc b)) \<Longrightarrow> reg (nfc b) HINFC610_CMD = 0x3000 \<Longrightarrow>
      page_reg (reg (nfc b)) = p \<Longrightarrow> p < npages \<Longrightarrow>
      b' = reg_write ct HINFC610_DMA_CTRL (if large then 0x71 else 0xF1) b \<Longrightarrow>
      up (nfc b') \<and> cells (nfc b') = cells (nfc b) \<and> io_mem b' = io_mem b \<and> busy (nfc b') < 0xF0000000 \<and>
      (\<forall>i < data_bytes + spare_bytes. dma_mem b' i = cells (nfc b) p i)"
    and dma_write_law: "up (nfc b) \<Longrightarrow> dma_ready base oob con (reg (nfc b)) \<Longrightarrow> reg (nfc b) HINFC610_CMD = 0x701080 \<Longrightarrow>
      page_reg (reg (nfc b)) = p \<Longrightarrow> p < npages \<Longrightarrow>
      b' = reg_write ct HINFC610_DMA_CTRL (if large then 0x73 else 0xF3) b \<Longrightarrow>
      up (nfc b') \<and> dma_mem b' = dma_mem b \<and> io_mem b' = io_mem b \<and> busy (nfc b') < 0xF0000000 \<and>
      (\<forall>q. q \<noteq> p \<longrightarrow> cells (nfc b') q = cells (nfc b) q) \<and>
      (\<exists>k. (\<forall>i. i < data_bytes \<or> i = data_bytes + mark_pos \<longrightarrow>
              cells (nfc b') p i = cells (nfc b) p i AND (dma_mem b i OR k i)) \<and>
           (\<not> failed (nfc b') \<longrightarrow> k = (\<lambda>_. 0)))"
    and erase_op_law: "up (nfc b) \<Longrightarrow> reg (nfc b) HINFC610_CMD = 0xd060 \<Longrightarrow> int (unat (reg (nfc b) HINFC610_ADDRL)) = p \<Longrightarrow>
      p < npages \<Longrightarrow> b' = reg_write ct HINFC610_OP (if large then 0x66C else 0x46C) b \<Longrightarrow>
      up (nfc b') \<and> dma_mem b' = dma_mem b \<and> busy (nfc b') < 0xF0000000 \<and>
      (\<forall>q. q div ppb \<noteq> p div ppb \<longrightarrow> cells (nfc b') q = cells (nfc b) q) \<and>
      (\<not> failed (nfc b') \<longrightarrow>
        (\<forall>q i. q div ppb = p div ppb \<longrightarrow> i < data_bytes + spare_bytes \<longrightarrow> cells (nfc b') q i = 0xff))"
    and status_op_law: "up (nfc b) \<Longrightarrow> reg (nfc b) HINFC610_CMD = 0x70 \<Longrightarrow> b' = reg_write ct HINFC610_OP 0x42 b \<Longrightarrow>
      up (nfc b') \<and> cells (nfc b') = cells (nfc b) \<and> dma_mem b' = dma_mem b \<and> busy (nfc b') < 0xF0000000 \<and>
      io_mem b' 0 AND 0x80 \<noteq> 0 \<and> (io_mem b' 0 AND 1 \<noteq> 0 \<longleftrightarrow> failed (nfc b))"
    and reset_op_law: "up (nfc b) \<Longrightarrow> reg (nfc b) HINFC610_CMD = 0xff \<Longrightarrow> b' = reg_write ct HINFC610_OP 0x44 b \<Longrightarrow>
      up (nfc b') \<and> cells (nfc b') = cells (nfc b) \<and> dma_mem b' = dma_mem b \<and> busy (nfc b') < 0xF0000000"

section \<open>The chip\<close>

text \<open>
  A chip over this controller that needs neither randomizer nor read retry, of a maker whose chips keep the default test for bad
  blocks, and whose sizes are those that the scan accepts.
\<close>

locale hinfc_device =
  nfc_controller ct base oob con data_bytes spare_bytes mark_pos large ppb npages up reg cells failed busy
  for ct :: "'c nfc_ctl" and base oob con data_bytes spare_bytes mark_pos large ppb npages up reg cells failed busy +
  fixes c :: "'c hinfc_cfg"
    and hz :: nat
    and d :: "'c hinfc_host nand_hw"
  assumes cfg: "ctl c = ct" "read_retry c = None" "0 \<le> max_chip c"
    and chip_shifts: "2 \<le> page_shift d" "page_shift d \<le> phys_erase_shift d" "phys_erase_shift d \<le> chip_shift d"
      "phys_erase_shift d < 32" "chip_shift d < 62"
    and chip_sizes: "writesize d = 2 ^ page_shift d" "erasesize d = 2 ^ phys_erase_shift d" "mtd_size d = 2 ^ chip_shift d"
      "bbt_erase_shift d = phys_erase_shift d" "pagemask d = mask (chip_shift d - page_shift d)"
      "oobsize d < writesize d"
    and chip_subpages: "pow2_size (subpagesize d)" "subpagesize d \<le> writesize d"
    and chip_modes: "errstat d = None" "layout_fits (oobfree (ecclayout d)) (unat (oobsize d))"
      "oobavail (ecclayout d) \<le> oobsize d" "badblockpos d < unat (oobsize d)" "block_bad_fn d = None"
    and page_sizes: "data_bytes = unat (writesize d)" "spare_bytes = unat (oobsize d)" "mark_pos = badblockpos d"
      "data_bytes + spare_bytes \<le> 65536"
    and numbers: "npages = 2 ^ (chip_shift d - page_shift d)" "ppb = 2 ^ (phys_erase_shift d - page_shift d)"
      "large \<longleftrightarrow> 128 * 2 ^ 20 < uint (chipsize d)" "npages \<le> (if large then 2 ^ 24 else 2 ^ 16)"

context hinfc_device begin

definition still :: "'c nfc_bus \<Rightarrow> 'c nfc_bus \<Rightarrow> bool" where
  "still b b' \<longleftrightarrow> up (nfc b') \<and> cells (nfc b') = cells (nfc b) \<and> failed (nfc b') = failed (nfc b) \<and>
     dma_mem b' = dma_mem b \<and> io_mem b' = io_mem b"

lemma still_refl: "up (nfc b) \<Longrightarrow> still b b" by (simp add: still_def)
lemma still_trans: "still b b1 \<Longrightarrow> still b1 b2 \<Longrightarrow> still b b2" by (simp add: still_def)
lemma still_up: "still b b' \<Longrightarrow> up (nfc b')" by (simp add: still_def)

text \<open>Passive register accesses, and the wait for the end of an operation.\<close>

lemma write_still:
  assumes "up (nfc (bus h))" "r \<noteq> HINFC610_OP" "r \<noteq> HINFC610_DMA_CTRL"
  shows "\<exists>b'. hinfc_write c v r h = h\<lparr>bus := b'\<rparr> \<and> still (bus h) b' \<and> reg (nfc b') = (reg (nfc (bus h)))(r := v)"
  by (rule exI [of _ "reg_write ct r v (bus h)"])
     (use passive_law [OF assms(1-3) refl, of v] in \<open>simp add: hinfc_write_def cfg still_def\<close>)

lemma read_still:
  assumes "up (nfc (bus h))"
  shows "\<exists>v b'. hinfc_read c r h = (v, h\<lparr>bus := b'\<rparr>) \<and> still (bus h) b' \<and> reg (nfc b') = reg (nfc (bus h)) \<and>
    busy (nfc b') = busy (nfc (bus h)) - 1 \<and>
    (busy (nfc (bus h)) = 0 \<longrightarrow> (r = HINFC610_STATUS \<longrightarrow> v AND 1 \<noteq> 0) \<and> (r = HINFC610_DMA_CTRL \<longrightarrow> v AND 1 = 0))"
proof -
  obtain v b' where r: "reg_read ct r (bus h) = (v, b')" by fastforce
  show ?thesis
    by (rule exI [of _ v], rule exI [of _ b']) (use reg_read_law [OF assms r] in \<open>simp add: hinfc_read_def cfg r still_def\<close>)
qed

lemma wait_still:
  assumes "up (nfc (bus h))" "busy (nfc (bus h)) < n"
    "\<And>v b b'. up (nfc b) \<Longrightarrow> busy (nfc b) = 0 \<Longrightarrow> reg_read ct r b = (v, b') \<Longrightarrow> \<not> waiting v"
  shows "\<exists>b'. wait_reg c r waiting n h = h\<lparr>bus := b'\<rparr> \<and> still (bus h) b' \<and> reg (nfc b') = reg (nfc (bus h))"
  using assms(1,2)
proof (induction n arbitrary: h)
  case (Suc n)
  obtain v b1 where r: "reg_read ct r (bus h) = (v, b1)" by fastforce
  let ?h1 = "h\<lparr>bus := b1\<rparr>"
  have 1: "hinfc_read c r h = (v, ?h1)" "still (bus h) b1" "reg (nfc b1) = reg (nfc (bus h))"
      "busy (nfc b1) = busy (nfc (bus h)) - 1"
    using reg_read_law [OF Suc.prems(1) r] by (simp_all add: hinfc_read_def cfg r still_def)
  show ?case
  proof (cases "waiting v")
    case False
    then have "wait_reg c r waiting (Suc n) h = ?h1" by (subst wait_reg.simps) (simp add: 1(1))
    then show ?thesis using 1 by auto
  next
    case True
    have "busy (nfc (bus h)) \<noteq> 0" using assms(3) [OF Suc.prems(1) _ r] True by blast
    then have "busy (nfc (bus ?h1)) < n" using 1(4) Suc.prems(2) by simp
    then obtain b' where "wait_reg c r waiting n ?h1 = ?h1\<lparr>bus := b'\<rparr>" "still b1 b'" "reg (nfc b') = reg (nfc b1)"
      using Suc.IH [of ?h1] still_up [OF 1(2)] by auto
    moreover have "wait_reg c r waiting (Suc n) h = wait_reg c r waiting n ?h1"
      using True by (subst wait_reg.simps) (simp add: 1(1))
    ultimately show ?thesis using still_trans [OF 1(2)] 1(3) by auto
  qed
qed simp

lemma wait_status:
  assumes "up (nfc (bus h))" "busy (nfc (bus h)) < 0xF0000000"
  shows "\<exists>b'. WAIT_CONTROLLER_FINISH c h = h\<lparr>bus := b'\<rparr> \<and> still (bus h) b' \<and> reg (nfc b') = reg (nfc (bus h))"
  unfolding WAIT_CONTROLLER_FINISH_def by (rule wait_still [OF assms]) (use reg_read_law in blast)

lemma wait_dma:
  assumes "up (nfc (bus h))" "busy (nfc (bus h)) < 0xF0000000"
  shows "\<exists>b'. wait_reg c HINFC610_DMA_CTRL (\<lambda>v. v AND 0x1 \<noteq> 0) 0xF0000000 h = h\<lparr>bus := b'\<rparr> \<and> still (bus h) b' \<and>
    reg (nfc b') = reg (nfc (bus h))"
  by (rule wait_still [OF assms]) (use reg_read_law in blast)


section \<open>The state of the host\<close>

definition host_ok :: "'c hinfc_host \<Rightarrow> bool" where
  "host_ok h \<longleftrightarrow> \<not> stuck h \<and> up (nfc (bus h)) \<and> host_flags h AND 0x50 = 0 \<and> con AND HINFC610_CON_NF_MODE_MASK = 0 \<and>
     NFC_CON h = con \<and> ecctype h \<noteq> NAND_ECC_TYPE_NONE \<and> dma_buffer h = base \<and> dma_oob h = oob \<and> chipselect h = 0 \<and>
     data_bytes \<le> epm h \<and> epm h \<noteq> data_bytes + mark_pos \<and> epm h + 1 \<noteq> data_bytes + mark_pos"

lemma flag_bits:
  assumes "(x :: u32) AND 0x50 = 0"
  shows "x AND 0x10 = 0" "x AND 0x40 = 0"
proof -
  have "x AND 0x10 = (x AND 0x50) AND 0x10" by (simp add: and.assoc)
  then show "x AND 0x10 = 0" unfolding assms by simp
  have "x AND 0x40 = (x AND 0x50) AND 0x40" by (simp add: and.assoc)
  then show "x AND 0x40 = 0" unfolding assms by simp
qed

lemma host_modes:
  assumes "host_ok h"
  shows "\<not> IS_NAND_RANDOM h" "\<not> IS_NAND_SYNC_ASYNC h" "\<not> HINFC610_IS_SYNC h"
  using assms flag_bits [of "host_flags h"]
  by (simp_all add: host_ok_def IS_NAND_RANDOM_def IS_NAND_SYNC_ASYNC_def HINFC610_IS_SYNC_def)

text \<open>A host whose bus has gone on, and one whose address and buffer position have been changed.\<close>

lemma host_ok_bus: "host_ok h \<Longrightarrow> up (nfc b) \<Longrightarrow> host_ok (h\<lparr>bus := b\<rparr>)"
  by (simp add: host_ok_def)

lemma host_ok_soft [simp]:
  "host_ok (h\<lparr>offset := x1\<rparr>) = host_ok h" "host_ok (h\<lparr>command := x2\<rparr>) = host_ok h" "host_ok (h\<lparr>column := x3\<rparr>) = host_ok h"
  "host_ok (h\<lparr>addr_cycle := x4\<rparr>) = host_ok h" "host_ok (h\<lparr>addr_value0 := x5\<rparr>) = host_ok h"
  "host_ok (h\<lparr>addr_value1 := x6\<rparr>) = host_ok h" "host_ok (h\<lparr>cache_addr_value0 := x7\<rparr>) = host_ok h"
  "host_ok (h\<lparr>cache_addr_value1 := x8\<rparr>) = host_ok h" "host_ok (h\<lparr>page_status := x9\<rparr>) = host_ok h"
  "host_ok (h\<lparr>max_bitsflap := x10\<rparr>) = host_ok h" "host_ok (h\<lparr>bbm_bitsflap := x11\<rparr>) = host_ok h"
  by (simp_all add: host_ok_def)

lemma host_okD:
  assumes "host_ok h"
  shows "up (nfc (bus h))" "NFC_CON h = con" "ecctype h \<noteq> NAND_ECC_TYPE_NONE" "dma_buffer h = base" "dma_oob h = oob"
    "chipselect h = 0" "\<not> stuck h" "OP_cs h = 0"
  using assms by (simp_all add: host_ok_def OP_cs_def)

lemma enable_still:
  assumes "host_ok h"
  shows "\<exists>b'. hinfc610_enable_ecc_randomizer c en rnd h = h\<lparr>bus := b'\<rparr> \<and> still (bus h) b' \<and>
    reg (nfc b') = (reg (nfc (bus h)))(HINFC610_CON := (if en then con else NFC_CON_ECC_NONE h))"
proof -
  have "hinfc610_enable_ecc_randomizer c en rnd h = hinfc_write c (if en then con else NFC_CON_ECC_NONE h) HINFC610_CON h"
    using host_modes(1) [OF assms] host_okD(2) [OF assms] by (simp add: hinfc610_enable_ecc_randomizer_def)
  then show ?thesis
    using write_still [OF host_okD(1) [OF assms], of HINFC610_CON "if en then con else NFC_CON_ECC_NONE h"] by simp
qed

definition rset :: "u32 \<times> nat \<Rightarrow> (nat \<Rightarrow> u32) \<Rightarrow> nat \<Rightarrow> u32" where
  "rset x f = f(snd x := fst x)"

lemma rset_pair: "rset (v, r) f = f(r := v)" by (simp add: rset_def)

definition writes :: "(u32 \<times> nat) list \<Rightarrow> 'c hinfc_host \<Rightarrow> 'c hinfc_host" where
  "writes vs = fold (\<lambda>(v, r) h. hinfc_write c v r h) vs"

lemma writes_simps [simp]: "writes [] h = h" "writes ((v, r) # vs) h = writes vs (hinfc_write c v r h)"
  by (simp_all add: writes_def)

lemma writes_still:
  assumes "up (nfc (bus h))" "\<forall>r \<in> snd ` set vs. r \<noteq> HINFC610_OP \<and> r \<noteq> HINFC610_DMA_CTRL"
  shows "\<exists>b'. writes vs h = h\<lparr>bus := b'\<rparr> \<and> still (bus h) b' \<and> reg (nfc b') = fold rset vs (reg (nfc (bus h)))"
  using assms
proof (induction vs arbitrary: h)
  case Nil
  then show ?case by (intro exI [of _ "bus h"]) (simp add: still_refl)
next
  case (Cons x vs)
  obtain v r where x: "x = (v, r)" by fastforce
  obtain b1 where 1: "hinfc_write c v r h = h\<lparr>bus := b1\<rparr>" "still (bus h) b1" "reg (nfc b1) = (reg (nfc (bus h)))(r := v)"
    using write_still [OF Cons.prems(1), of r v] Cons.prems(2) x by auto
  let ?h1 = "h\<lparr>bus := b1\<rparr>"
  have "up (nfc (bus ?h1))" "\<forall>r \<in> snd ` set vs. r \<noteq> HINFC610_OP \<and> r \<noteq> HINFC610_DMA_CTRL"
    using Cons.prems(2) still_up [OF 1(2)] by simp_all
  from Cons.IH [OF this] obtain b' where 2: "writes vs ?h1 = ?h1\<lparr>bus := b'\<rparr>" "still (bus ?h1) b'"
      "reg (nfc b') = fold rset vs (reg (nfc (bus ?h1)))" by blast
  have "still (bus h) b'" using still_trans [OF 1(2), of b'] 2(2) by simp
  then show ?case
    by (intro exI [of _ b']) (use 1(1,3) 2(1,3) in \<open>simp add: x rset_pair\<close>)
qed

lemma write_soft [simp]:
  "dma_buffer (hinfc_write c v r h) = dma_buffer h" "dma_oob (hinfc_write c v r h) = dma_oob h"
  "ecctype (hinfc_write c v r h) = ecctype h" "addr_cycle (hinfc_write c v r h) = addr_cycle h"
  "chipselect (hinfc_write c v r h) = chipselect h" "NFC_CON (hinfc_write c v r h) = NFC_CON h"
  "addr_value0 (hinfc_write c v r h) = addr_value0 h" "addr_value1 (hinfc_write c v r h) = addr_value1 h"
  "OP_cs (hinfc_write c v r h) = OP_cs h" "epm (hinfc_write c v r h) = epm h"
  by (simp_all add: hinfc_write_def OP_cs_def)

text \<open>The set-up of a transfer, up to the write of the control register that starts it.\<close>

lemma dma_setup:
  assumes "host_ok h" "reg (nfc (bus h)) HINFC610_CON = con" "addr_cycle h = (if large then 5 else 4)"
    "start = (if todev then (if large then 0x73 else 0xF3) else (if large then 0x71 else 0xF1))"
  shows "\<exists>b1. hinfc610_dma_transfer c todev h =
      wait_reg c HINFC610_DMA_CTRL (\<lambda>v. v AND 0x1 \<noteq> 0) 0xF0000000
        (hinfc_write c start HINFC610_DMA_CTRL (h\<lparr>bus := b1\<rparr>)) \<and>
    still (bus h) b1 \<and> dma_ready base oob con (reg (nfc b1)) \<and>
    (\<forall>r \<in> {HINFC610_CMD, HINFC610_ADDRL, HINFC610_ADDRH}. reg (nfc b1) r = reg (nfc (bus h)) r)"
proof -
  let ?vs = "[(base, HINFC610_DMA_ADDR_DATA), (base + 4096, HINFC610_DMA_ADDR_DATA1), (base + 8192, HINFC610_DMA_ADDR_DATA2),
    (base + 12288, HINFC610_DMA_ADDR_DATA3), (base + 16384, HINFC610_DMA_ADDR_DATA4), (base + 20480, HINFC610_DMA_ADDR_DATA5),
    (base + 24576, HINFC610_DMA_ADDR_DATA6), (base + 28672, HINFC610_DMA_ADDR_DATA7), (oob, HINFC610_DMA_ADDR_OOB),
    (0xf, HINFC610_DMA_PARA)]"
  obtain b1 where 1: "writes ?vs h = h\<lparr>bus := b1\<rparr>" "still (bus h) b1"
      "reg (nfc b1) = fold rset ?vs (reg (nfc (bus h)))"
    using writes_still [OF host_okD(1) [OF assms(1)], of ?vs] by auto
  have "hinfc610_dma_transfer c todev h =
      wait_reg c HINFC610_DMA_CTRL (\<lambda>v. v AND 0x1 \<noteq> 0) 0xF0000000
        (hinfc_write c start HINFC610_DMA_CTRL (writes ?vs h))"
    using host_okD [OF assms(1)] assms(3,4) by (simp add: hinfc610_dma_transfer_def Let_def)
  then show ?thesis
    by (intro exI [of _ b1]) (use 1 assms(2) in \<open>simp add: dma_ready_def rset_pair\<close>)
qed

section \<open>The commands\<close>

text \<open>The host's address is that of the page \<open>p\<close>.\<close>

definition addressed :: "'c hinfc_host \<Rightarrow> int \<Rightarrow> bool" where
  "addressed h p \<longleftrightarrow> int (unat (drop_bit 16 (addr_value0 h)) + 65536 * unat (addr_value1 h)) = p \<and> p < npages \<and>
     addr_cycle h = (if large then 5 else 4)"

lemma drop_high: "drop_bit 16 (x :: u32) AND 65535 = drop_bit 16 x"
proof -
  have m: "(65535 :: u32) = mask 16" by (simp add: mask_eq_exp_minus_1)
  show ?thesis
    unfolding m by (rule bit_word_eqI) (auto simp: bit_simps dest: bit_imp_le_length)
qed

lemma read_page_cmds:
  assumes "host_ok h" "addressed h p"
  shows "\<exists>b'. read_page_cmds c h = h\<lparr>bus := b'\<rparr> \<and> up (nfc b') \<and> cells (nfc b') = cells (nfc (bus h)) \<and>
    (\<forall>i < data_bytes + spare_bytes. dma_mem b' i = cells (nfc (bus h)) p i)"
proof -
  let ?vs = "[(0x60, HINFC610_INTCLR), (con, HINFC610_CON), (addr_value0 h AND 0xffff0000, HINFC610_ADDRL),
    (addr_value1 h, HINFC610_ADDRH), (0x3000, HINFC610_CMD)]"
  obtain b0 where 0: "writes ?vs h = h\<lparr>bus := b0\<rparr>" "still (bus h) b0" "reg (nfc b0) = fold rset ?vs (reg (nfc (bus h)))"
    using writes_still [OF host_okD(1) [OF assms(1)], of ?vs] by auto
  have run: "read_page_cmds c h = hinfc610_dma_transfer c False (writes ?vs h)"
    using host_okD(2) [OF assms(1)] by (simp add: read_page_cmds_def Let_def)
  have ok0: "host_ok (h\<lparr>bus := b0\<rparr>)" by (rule host_ok_bus [OF assms(1) still_up [OF 0(2)]])
  have con0: "reg (nfc (bus (h\<lparr>bus := b0\<rparr>))) HINFC610_CON = con" by (simp add: 0(3) rset_pair)
  have cyc0: "addr_cycle (h\<lparr>bus := b0\<rparr>) = (if large then 5 else 4)" using assms(2) by (simp add: addressed_def)
  obtain b1 where 1: "hinfc610_dma_transfer c False (h\<lparr>bus := b0\<rparr>) =
      wait_reg c HINFC610_DMA_CTRL (\<lambda>v. v AND 0x1 \<noteq> 0) 0xF0000000
        (hinfc_write c (if large then 0x71 else 0xF1) HINFC610_DMA_CTRL (h\<lparr>bus := b1\<rparr>))"
     "still b0 b1" "dma_ready base oob con (reg (nfc b1))"
     "\<forall>r \<in> {HINFC610_CMD, HINFC610_ADDRL, HINFC610_ADDRH}. reg (nfc b1) r = reg (nfc b0) r"
    using dma_setup [OF ok0 con0 cyc0, of _ False] by auto
  have cmd: "reg (nfc b1) HINFC610_CMD = 0x3000" "page_reg (reg (nfc b1)) = p" "p < npages"
    using 1(4) assms(2) by (simp_all add: 0(3) rset_pair page_reg_def drop_high addressed_def)
  define b2 where "b2 = reg_write ct HINFC610_DMA_CTRL (if large then 0x71 else 0xF1) b1"
  have 2: "up (nfc b2)" "cells (nfc b2) = cells (nfc b1)" "busy (nfc b2) < 0xF0000000"
    "\<forall>i < data_bytes + spare_bytes. dma_mem b2 i = cells (nfc b1) p i"
    using dma_read_law [OF still_up [OF 1(2)] 1(3) cmd b2_def] by simp_all
  have "hinfc_write c (if large then 0x71 else 0xF1) HINFC610_DMA_CTRL (h\<lparr>bus := b1\<rparr>) = h\<lparr>bus := b2\<rparr>"
    by (simp add: hinfc_write_def cfg b2_def)
  with wait_dma [of "h\<lparr>bus := b2\<rparr>"] 2(1,3) obtain b3 where 3: "hinfc610_dma_transfer c False (h\<lparr>bus := b0\<rparr>) = h\<lparr>bus := b3\<rparr>" "still b2 b3"
    by (auto simp: 1(1))
  have s: "still (bus h) b1" by (rule still_trans [OF 0(2) 1(2)])
  show ?thesis
    by (intro exI [of _ b3]) (use run 0(1) 3 2 s in \<open>simp add: still_def\<close>)
qed

text \<open>The host after a read: what it keeps about the page, the cached address and the bus have changed.\<close>

lemma read_bitsflaps_still:
  assumes "up (nfc (bus h))"
  shows "\<exists>ecc b'. read_bitsflaps c regs n h = (ecc, h\<lparr>bus := b'\<rparr>) \<and> still (bus h) b'"
proof -
  have "\<exists>ecc b'. fold (\<lambda>r (ecc, h). let (v, h) = hinfc_read c r h in (ecc @ hinfc610_read_bitsflaps_reg n v, h)) regs (acc, h) =
     (ecc, h\<lparr>bus := b'\<rparr>) \<and> still (bus h) b'" for acc
    using assms
  proof (induction regs arbitrary: acc h)
    case Nil
    then show ?case by (intro exI [of _ acc] exI [of _ "bus h"]) (simp add: still_refl)
  next
    case (Cons r regs)
    obtain v b1 where 1: "hinfc_read c r h = (v, h\<lparr>bus := b1\<rparr>)" "still (bus h) b1"
      using read_still [OF Cons.prems, of r] by blast
    have "up (nfc (bus (h\<lparr>bus := b1\<rparr>)))" using still_up [OF 1(2)] by simp
    from Cons.IH [OF this, of "acc @ hinfc610_read_bitsflaps_reg n v"] obtain ecc b' where
      2: "fold (\<lambda>r (ecc, h). let (v, h) = hinfc_read c r h in (ecc @ hinfc610_read_bitsflaps_reg n v, h)) regs
           (acc @ hinfc610_read_bitsflaps_reg n v, h\<lparr>bus := b1\<rparr>) = (ecc, h\<lparr>bus := b1\<rparr>\<lparr>bus := b'\<rparr>)"
         "still (bus (h\<lparr>bus := b1\<rparr>)) b'" by blast
    have "still (bus h) b'" using still_trans [OF 1(2), of b'] 2(2) by simp
    then show ?case using 1(1) 2(1) by (intro exI [of _ ecc] exI [of _ b']) simp
  qed
  then show ?thesis by (simp add: read_bitsflaps_def)
qed

definition after_read :: "'c hinfc_host \<Rightarrow> 'c hinfc_host \<Rightarrow> bool" where
  "after_read h h' \<longleftrightarrow> (\<exists>ps mb bb. h' = h\<lparr>page_status := ps, max_bitsflap := mb, bbm_bitsflap := bb,
     cache_addr_value0 := addr_value0 h, cache_addr_value1 := addr_value1 h, bus := bus h'\<rparr>)"

lemma dump_still:
  assumes "up (nfc (bus h))"
  shows "\<exists>mb bb b'. hinfc610_dump c want h = h\<lparr>max_bitsflap := mb, bbm_bitsflap := bb, bus := b'\<rparr> \<and> still (bus h) b'"
proof -
  obtain ecc b' where "read_bitsflaps c (bitsflap_regs (ecc_section h)) (min (ecc_section h) 4) h = (ecc, h\<lparr>bus := b'\<rparr>)" "still (bus h) b'"
    using read_bitsflaps_still [OF assms] by blast
  then show ?thesis
    by (intro exI [of _ "if want then int (hinfc610_max_bitsflags ecc) else max_bitsflap h"] exI [of _ "last ecc"] exI [of _ b'])
       (simp add: hinfc610_dump_def)
qed

lemma addressed_high: "addressed h p \<Longrightarrow> addr_value1 h \<noteq> - 1"
proof
  assume a: "addressed h p" and m: "addr_value1 h = - 1"
  have "npages \<le> 2 ^ 24" using numbers(4) by (simp split: if_splits)
  then have "p < 2 ^ 24" using a by (simp add: addressed_def)
  then have "65536 * int (unat (addr_value1 h)) < 2 ^ 24" using a unfolding addressed_def by linarith
  moreover have "unat (- 1 :: u32) = 2 ^ 32 - 1" by (simp add: unsigned_minus_1_eq_mask mask_eq_exp_minus_1)
  ultimately show False by (simp add: m)
qed

lemma readstart:
  assumes "host_ok h" "addressed h p" "cache_addr_value1 h = - 1"
  shows "\<exists>h'. hinfc610_send_cmd_readstart c h = h' \<and> after_read h h' \<and> host_ok h' \<and>
    cells (nfc (bus h')) = cells (nfc (bus h)) \<and>
    (\<forall>i < data_bytes + spare_bytes. dma_mem (bus h') i = cells (nfc (bus h)) p i)"
proof -
  note modes = host_modes [OF assms(1)]
  let ?h0 = "h\<lparr>page_status := 0\<rparr>"
  have ok0: "host_ok ?h0" using assms(1) by simp
  obtain b1 where 1: "hinfc610_enable_ecc_randomizer c True True ?h0 = ?h0\<lparr>bus := b1\<rparr>" "still (bus h) b1"
    using enable_still [OF ok0] by auto
  let ?h1 = "?h0\<lparr>bus := b1\<rparr>"
  have ok1: "host_ok ?h1" by (rule host_ok_bus [OF ok0 still_up [OF 1(2)]])
  have a1: "addressed ?h1 p" using assms(2) by (simp add: addressed_def)
  from read_page_cmds [OF ok1 a1] obtain b2 where 2: "read_page_cmds c ?h1 = ?h0\<lparr>bus := b2\<rparr>" "up (nfc b2)"
      "cells (nfc b2) = cells (nfc b1)" "\<forall>i < data_bytes + spare_bytes. dma_mem b2 i = cells (nfc b1) p i" by auto
  obtain v b3 where 3: "hinfc_read c HINFC610_INTS (?h0\<lparr>bus := b2\<rparr>) = (v, ?h0\<lparr>bus := b3\<rparr>)" "still b2 b3"
    using read_still [of "?h0\<lparr>bus := b2\<rparr>" HINFC610_INTS] 2(2) by auto
  define h3 where "h3 = (if v AND 0x40 \<noteq> 0 then (?h0\<lparr>bus := b3\<rparr>)\<lparr>page_status := HINFC610_PS_UC_ECC\<rparr> else ?h0\<lparr>bus := b3\<rparr>)"
  define h4 where "h4 = (if IS_PS HINFC610_PS_UC_ECC h3 then h3\<lparr>max_bitsflap := - 1\<rparr> else h3)"
  define want where "want = (\<not> IS_PS HINFC610_PS_UC_ECC h3)"
  have b4: "bus h4 = b3" by (simp add: h4_def h3_def)
  then have "up (nfc (bus h4))" using still_up [OF 3(2)] by simp
  then obtain mb bb b5 where 5: "hinfc610_dump c want h4 = h4\<lparr>max_bitsflap := mb, bbm_bitsflap := bb, bus := b5\<rparr>" "still b3 b5"
    using dump_still b4 by metis
  define h' where "h' = (h4\<lparr>max_bitsflap := mb, bbm_bitsflap := bb, bus := b5\<rparr>)
     \<lparr>cache_addr_value0 := addr_value0 h, cache_addr_value1 := addr_value1 h\<rparr>"
  have flags: "\<not> IS_NAND_RANDOM (h\<lparr>page_status := x, bus := y\<rparr>)" "\<not> IS_NAND_SYNC_ASYNC (h\<lparr>page_status := x, bus := y\<rparr>)"
      "\<not> IS_NAND_SYNC_ASYNC (h\<lparr>page_status := x\<rparr>)" for x y
    using modes by (simp_all add: IS_NAND_RANDOM_def IS_NAND_SYNC_ASYNC_def)
  have flags3: "\<not> IS_NAND_RANDOM h3" "\<not> IS_NAND_SYNC_ASYNC h3" 
    using modes by (simp_all add: IS_NAND_RANDOM_def IS_NAND_SYNC_ASYNC_def h3_def)
  have addr: "addr_value0 (h4\<lparr>max_bitsflap := mb, bbm_bitsflap := bb, bus := b5\<rparr>) = addr_value0 h"
      "addr_value1 (h4\<lparr>max_bitsflap := mb, bbm_bitsflap := bb, bus := b5\<rparr>) = addr_value1 h"
    by (simp_all add: h4_def h3_def)
  have h3: "(if v AND 0x40 \<noteq> 0 then (?h0\<lparr>bus := b3\<rparr>)\<lparr>page_status := page_status (?h0\<lparr>bus := b3\<rparr>) OR HINFC610_PS_UC_ECC\<rparr>
      else ?h0\<lparr>bus := b3\<rparr>) = h3" by (simp add: h3_def)
  have dump: "\<not> IS_PS HINFC610_PS_UC_ECC h3 \<Longrightarrow>
        hinfc610_dump c True h3 = h4\<lparr>max_bitsflap := mb, bbm_bitsflap := bb, bus := b5\<rparr>"
      "IS_PS HINFC610_PS_UC_ECC h3 \<Longrightarrow>
        hinfc610_dump c False (h3\<lparr>max_bitsflap := - 1\<rparr>) = h4\<lparr>max_bitsflap := mb, bbm_bitsflap := bb, bus := b5\<rparr>"
    using 5(1) by (simp_all add: h4_def want_def)
  have miss: "\<not> (addr_value0 h = cache_addr_value0 h \<and> addr_value1 h = cache_addr_value1 h)"
    using assms(3) addressed_high [OF assms(2)] by simp
  have "hinfc610_send_cmd_readstart c h = h'"
    unfolding hinfc610_send_cmd_readstart_def if_not_P [OF miss] Let_def if_not_P [OF modes(2)] 1(1) 2(1) 3(1) prod.case h3
    using cfg(2) flags3 addr by (cases "IS_PS HINFC610_PS_UC_ECC h3") (simp_all add: dump h'_def)
  moreover have "after_read h h'"
    unfolding after_read_def
    by (intro exI [of _ "page_status h'"] exI [of _ mb] exI [of _ bb]) (simp add: h'_def h4_def h3_def)
  moreover have s: "still b2 b5" by (rule still_trans [OF 3(2) 5(2)])
  then have "host_ok h'" using assms(1) still_up [OF s] by (simp add: h'_def h4_def h3_def host_ok_def)
  moreover have "bus h' = b5" by (simp add: h'_def)
  ultimately show ?thesis using s 1(2) 2(3,4) by (auto simp: still_def)
qed

definition vital_byte :: "nat \<Rightarrow> bool" where
  "vital_byte i \<longleftrightarrow> i < data_bytes \<or> i = data_bytes + mark_pos"

lemma pageprog:
  assumes "host_ok h" "addressed h p"
  shows "\<exists>b' k. hinfc610_send_cmd_pageprog c h = h\<lparr>bus := b'\<rparr> \<and> up (nfc b') \<and>
    (\<forall>q. q \<noteq> p \<longrightarrow> cells (nfc b') q = cells (nfc (bus h)) q) \<and>
    (\<forall>i. vital_byte i \<longrightarrow> cells (nfc b') p i = cells (nfc (bus h)) p i AND (dma_mem (bus h) i OR k i)) \<and>
    (\<not> failed (nfc b') \<longrightarrow> k = (\<lambda>_. 0))"
proof -
  obtain b0 where 0: "hinfc610_enable_ecc_randomizer c True True h = h\<lparr>bus := b0\<rparr>" "still (bus h) b0"
      "reg (nfc b0) HINFC610_CON = con"
    using enable_still [OF assms(1)] by fastforce
  let ?vs = "[(addr_value0 h AND 0xffff0000, HINFC610_ADDRL), (addr_value1 h, HINFC610_ADDRH), (0x701080, HINFC610_CMD)]"
  have up0: "up (nfc (bus (h\<lparr>bus := b0\<rparr>)))" using still_up [OF 0(2)] by simp
  obtain b1 where 1: "writes ?vs (h\<lparr>bus := b0\<rparr>) = h\<lparr>bus := b1\<rparr>" "still b0 b1" "reg (nfc b1) = fold rset ?vs (reg (nfc b0))"
    using writes_still [OF up0, of ?vs] by auto
  define b2 where "b2 = b1\<lparr>dma_mem := store_bytes (dma_mem b1) (epm h) [0, 0]\<rparr>"
  have s2: "up (nfc b2)" "cells (nfc b2) = cells (nfc (bus h))" "reg (nfc b2) = reg (nfc b1)"
    using still_trans [OF 0(2) 1(2)] by (simp_all add: b2_def still_def)
  have store: "store_dma (epm h) [0, 0] (h\<lparr>bus := b1\<rparr>) = h\<lparr>bus := b2\<rparr>" by (simp add: store_dma_def b2_def)
  have ok2: "host_ok (h\<lparr>bus := b2\<rparr>)" by (rule host_ok_bus [OF assms(1) s2(1)])
  have con2: "reg (nfc (bus (h\<lparr>bus := b2\<rparr>))) HINFC610_CON = con" by (simp add: s2(3) 1(3) rset_pair 0(3))
  have cyc: "addr_cycle (h\<lparr>bus := b2\<rparr>) = (if large then 5 else 4)" using assms(2) by (simp add: addressed_def)
  obtain b3 where 3: "hinfc610_dma_transfer c True (h\<lparr>bus := b2\<rparr>) =
      wait_reg c HINFC610_DMA_CTRL (\<lambda>v. v AND 0x1 \<noteq> 0) 0xF0000000
        (hinfc_write c (if large then 0x73 else 0xF3) HINFC610_DMA_CTRL (h\<lparr>bus := b3\<rparr>))"
     "still b2 b3" "dma_ready base oob con (reg (nfc b3))"
     "\<forall>r \<in> {HINFC610_CMD, HINFC610_ADDRL, HINFC610_ADDRH}. reg (nfc b3) r = reg (nfc b2) r"
    using dma_setup [OF ok2 con2 cyc, of _ True] by auto
  have cmd: "reg (nfc b3) HINFC610_CMD = 0x701080" "page_reg (reg (nfc b3)) = p" "p < npages"
    using 3(4) assms(2) by (simp_all add: s2(3) 1(3) rset_pair page_reg_def drop_high addressed_def)
  define b4 where "b4 = reg_write ct HINFC610_DMA_CTRL (if large then 0x73 else 0xF3) b3"
  note 4 = dma_write_law [OF still_up [OF 3(2)] 3(3) cmd b4_def]
  then obtain k where k: "(\<forall>i. i < data_bytes \<or> i = data_bytes + mark_pos \<longrightarrow>
        cells (nfc b4) p i = cells (nfc b3) p i AND (dma_mem b3 i OR k i)) \<and> (\<not> failed (nfc b4) \<longrightarrow> k = (\<lambda>_. 0))"
    by (elim conjE) (erule exE)
  have "hinfc_write c (if large then 0x73 else 0xF3) HINFC610_DMA_CTRL (h\<lparr>bus := b3\<rparr>) = h\<lparr>bus := b4\<rparr>"
    by (simp add: hinfc_write_def cfg b4_def)
  with wait_dma [of "h\<lparr>bus := b4\<rparr>"] 4 obtain b5 where 5: "hinfc610_dma_transfer c True (h\<lparr>bus := b2\<rparr>) = h\<lparr>bus := b5\<rparr>" "still b4 b5"
    by (auto simp: 3(1))
  have soft: "epm (writes ?vs (h\<lparr>bus := b0\<rparr>)) = epm h" "addr_value0 (h\<lparr>bus := b0\<rparr>) = addr_value0 h"
     "addr_value1 (h\<lparr>bus := b0\<rparr>) = addr_value1 h" by simp_all
  have noseq: "\<not> IS_NAND_SYNC_ASYNC (h\<lparr>bus := b5\<rparr>)"
    using host_modes(2) [OF assms(1)] by (simp add: IS_NAND_SYNC_ASYNC_def)
  have w: "hinfc_write c 0x701080 HINFC610_CMD (hinfc_write c (addr_value1 h) HINFC610_ADDRH
      (hinfc_write c (addr_value0 h AND 0xffff0000) HINFC610_ADDRL (h\<lparr>bus := b0\<rparr>))) = h\<lparr>bus := b1\<rparr>"
    using 1(1) by simp
  have run: "hinfc610_send_cmd_pageprog c h = h\<lparr>bus := b5\<rparr>"
    using host_modes(2) [OF assms(1)] noseq
    by (simp add: hinfc610_send_cmd_pageprog_def Let_def 0(1) w store 5(1))
  have byte: "dma_mem b3 i = dma_mem (bus h) i" if "vital_byte i" for i
  proof -
    have "dma_mem b1 i = dma_mem (bus h) i" "dma_mem b3 i = dma_mem b2 i"
      using still_trans [OF 0(2) 1(2)] 3(2) by (simp_all add: still_def)
    moreover have "\<not> (epm h \<le> i \<and> i < epm h + 2)"
      using that assms(1) by (auto simp: vital_byte_def host_ok_def)
    ultimately show ?thesis by (auto simp: b2_def store_bytes_def)
  qed
  show ?thesis
    by (rule exI [of _ b5], rule exI [of _ k])
       (use run 5(2) 4 k byte 3(2) s2(2) in \<open>simp add: still_def vital_byte_def\<close>)
qed

text \<open>Commands to the chip itself.\<close>

lemma op_chain:
  assumes "host_ok h" "\<forall>r \<in> snd ` set vs. r \<noteq> HINFC610_OP \<and> r \<noteq> HINFC610_DMA_CTRL"
  shows "\<exists>b1. writes vs (hinfc610_enable_ecc_randomizer c False False h) = h\<lparr>bus := b1\<rparr> \<and> still (bus h) b1 \<and>
    reg (nfc b1) = fold rset vs ((reg (nfc (bus h)))(HINFC610_CON := NFC_CON_ECC_NONE h))"
proof -
  obtain b0 where 0: "hinfc610_enable_ecc_randomizer c False False h = h\<lparr>bus := b0\<rparr>" "still (bus h) b0"
      "reg (nfc b0) = (reg (nfc (bus h)))(HINFC610_CON := NFC_CON_ECC_NONE h)"
    using enable_still [OF assms(1), of False] by auto
  have up0: "up (nfc (bus (h\<lparr>bus := b0\<rparr>)))" using still_up [OF 0(2)] by simp
  obtain b1 where 1: "writes vs (h\<lparr>bus := b0\<rparr>) = h\<lparr>bus := b1\<rparr>" "still b0 b1" "reg (nfc b1) = fold rset vs (reg (nfc b0))"
    using writes_still [OF up0 assms(2)] by auto
  show ?thesis by (intro exI [of _ b1]) (use 0 1 still_trans [OF 0(2) 1(2)] in simp)
qed

lemma enable_soft:
  assumes "host_ok h"
  shows "OP_cs (hinfc610_enable_ecc_randomizer c en rnd h) = 0"
    "addr_value0 (hinfc610_enable_ecc_randomizer c en rnd h) = addr_value0 h"
    "addr_cycle (hinfc610_enable_ecc_randomizer c en rnd h) = addr_cycle h"
  using host_modes(1) [OF assms] host_okD(8) [OF assms] by (simp_all add: hinfc610_enable_ecc_randomizer_def)

lemma send_erase:
  assumes "host_ok h" "int (unat (addr_value0 h)) = p" "p < npages" "addr_cycle h = (if large then 3 else 2)"
  shows "\<exists>b'. hinfc610_send_cmd_erase c h = h\<lparr>bus := b'\<rparr> \<and> up (nfc b') \<and>
    (\<forall>q. q div ppb \<noteq> p div ppb \<longrightarrow> cells (nfc b') q = cells (nfc (bus h)) q) \<and>
    (\<not> failed (nfc b') \<longrightarrow>
      (\<forall>q i. q div ppb = p div ppb \<longrightarrow> i < data_bytes + spare_bytes \<longrightarrow> cells (nfc b') q i = 0xff))"
proof -
  let ?vs = "[(addr_value0 h, HINFC610_ADDRL), (0xd060, HINFC610_CMD)]"
  obtain b1 where 1: "writes ?vs (hinfc610_enable_ecc_randomizer c False False h) = h\<lparr>bus := b1\<rparr>" "still (bus h) b1"
    "reg (nfc b1) = fold rset ?vs ((reg (nfc (bus h)))(HINFC610_CON := NFC_CON_ECC_NONE h))"
    using op_chain [OF assms(1), of ?vs] by auto
  define v :: u32 where "v = (if large then 0x66C else 0x46C)"
  define b2 where "b2 = reg_write ct HINFC610_OP v b1"
  have 2: "up (nfc b2)" "busy (nfc b2) < 0xF0000000"
      "\<forall>q. q div ppb \<noteq> p div ppb \<longrightarrow> cells (nfc b2) q = cells (nfc (bus h)) q"
      "\<not> failed (nfc b2) \<longrightarrow> (\<forall>q i. q div ppb = p div ppb \<longrightarrow> i < data_bytes + spare_bytes \<longrightarrow> cells (nfc b2) q i = 0xff)"
    using erase_op_law [OF still_up [OF 1(2)] _ _ assms(3) b2_def [unfolded v_def]] 1(2,3) assms(2)
    by (simp_all add: rset_pair still_def)
  have "hinfc610_send_cmd_erase c h = WAIT_CONTROLLER_FINISH c (hinfc_write c v HINFC610_OP
      (writes ?vs (hinfc610_enable_ecc_randomizer c False False h)))"
    using assms(4) enable_soft [OF assms(1)] by (simp add: hinfc610_send_cmd_erase_def Let_def v_def)
  also have "hinfc_write c v HINFC610_OP (writes ?vs (hinfc610_enable_ecc_randomizer c False False h)) = h\<lparr>bus := b2\<rparr>"
    unfolding 1(1) by (simp add: hinfc_write_def cfg b2_def)
  finally obtain b3 where 3: "hinfc610_send_cmd_erase c h = h\<lparr>bus := b3\<rparr>" "still b2 b3"
    using wait_status [of "h\<lparr>bus := b2\<rparr>"] 2(1,2) by auto
  show ?thesis by (intro exI [of _ b3]) (use 2 3 in \<open>simp add: still_def\<close>)
qed

lemma send_status:
  assumes "host_ok h"
  shows "\<exists>b'. hinfc610_send_cmd_status c h = h\<lparr>bus := b'\<rparr> \<and> up (nfc b') \<and> cells (nfc b') = cells (nfc (bus h)) \<and>
    dma_mem b' = dma_mem (bus h) \<and> io_mem b' 0 AND 0x80 \<noteq> 0 \<and> (io_mem b' 0 AND 1 \<noteq> 0 \<longleftrightarrow> failed (nfc (bus h)))"
proof -
  let ?vs = "[(0x10, HINFC610_DATA_NUM), (0x70, HINFC610_CMD)]"
  obtain b1 where 1: "writes ?vs (hinfc610_enable_ecc_randomizer c False False h) = h\<lparr>bus := b1\<rparr>" "still (bus h) b1"
    "reg (nfc b1) = fold rset ?vs ((reg (nfc (bus h)))(HINFC610_CON := NFC_CON_ECC_NONE h))"
    using op_chain [OF assms, of ?vs] by auto
  define b2 where "b2 = reg_write ct HINFC610_OP 0x42 b1"
  have 2: "up (nfc b2)" "busy (nfc b2) < 0xF0000000" "cells (nfc b2) = cells (nfc (bus h))" "dma_mem b2 = dma_mem (bus h)"
      "io_mem b2 0 AND 0x80 \<noteq> 0" "io_mem b2 0 AND 1 \<noteq> 0 \<longleftrightarrow> failed (nfc (bus h))"
    using status_op_law [OF still_up [OF 1(2)] _ b2_def] 1(2,3) by (simp_all add: rset_pair still_def)
  have "hinfc610_send_cmd_status c h = WAIT_CONTROLLER_FINISH c (hinfc_write c 0x42 HINFC610_OP
      (writes ?vs (hinfc610_enable_ecc_randomizer c False False h)))"
    using enable_soft [OF assms] by (simp add: hinfc610_send_cmd_status_def Let_def)
  also have "hinfc_write c 0x42 HINFC610_OP (writes ?vs (hinfc610_enable_ecc_randomizer c False False h)) = h\<lparr>bus := b2\<rparr>"
    unfolding 1(1) by (simp add: hinfc_write_def cfg b2_def)
  finally obtain b3 where 3: "hinfc610_send_cmd_status c h = h\<lparr>bus := b3\<rparr>" "still b2 b3"
    using wait_status [of "h\<lparr>bus := b2\<rparr>"] 2(1,2) by auto
  show ?thesis by (intro exI [of _ b3]) (use 2 3 in \<open>simp add: still_def\<close>)
qed

lemma send_reset:
  assumes "host_ok h"
  shows "\<exists>b'. hinfc610_send_cmd_reset c h = h\<lparr>bus := b'\<rparr> \<and> up (nfc b') \<and> cells (nfc b') = cells (nfc (bus h))"
proof -
  obtain b1 where 1: "hinfc_write c 0xff HINFC610_CMD h = h\<lparr>bus := b1\<rparr>" "still (bus h) b1"
    "reg (nfc b1) = (reg (nfc (bus h)))(HINFC610_CMD := 0xff)"
    using write_still [OF host_okD(1) [OF assms], of HINFC610_CMD "0xff"] by auto
  define b2 where "b2 = reg_write ct HINFC610_OP 0x44 b1"
  have 2: "up (nfc b2)" "busy (nfc b2) < 0xF0000000" "cells (nfc b2) = cells (nfc (bus h))"
    using reset_op_law [OF still_up [OF 1(2)] _ b2_def] 1(2,3) by (simp_all add: still_def)
  have "hinfc610_send_cmd_reset c h = WAIT_CONTROLLER_FINISH c (hinfc_write c 0x44 HINFC610_OP (hinfc_write c 0xff HINFC610_CMD h))"
    using host_okD(8) [OF assms] host_modes(3) [OF assms] by (simp add: hinfc610_send_cmd_reset_def Let_def)
  also have "hinfc_write c 0x44 HINFC610_OP (hinfc_write c 0xff HINFC610_CMD h) = h\<lparr>bus := b2\<rparr>"
    unfolding 1(1) by (simp add: hinfc_write_def cfg b2_def)
  finally obtain b3 where 3: "hinfc610_send_cmd_reset c h = h\<lparr>bus := b3\<rparr>" "still b2 b3"
    using wait_status [of "h\<lparr>bus := b2\<rparr>"] 2(1,2) by auto
  show ?thesis by (intro exI [of _ b3]) (use 2 3 in \<open>simp add: still_def\<close>)
qed

section \<open>The bus cycles\<close>

definition uncached :: "'c hinfc_host \<Rightarrow> 'c hinfc_host" where
  "uncached h = h\<lparr>cache_addr_value0 := - 1, cache_addr_value1 := - 1\<rparr>"

lemma uncached_simps [simp]:
  "bus (uncached h) = bus h" "command (uncached h) = command h" "addr_cycle (uncached h) = addr_cycle h"
  "addr_value0 (uncached h) = addr_value0 h" "addr_value1 (uncached h) = addr_value1 h" "column (uncached h) = column h"
  "offset (uncached h) = offset h" "host_ok (uncached h) = host_ok h" "cache_addr_value1 (uncached h) = - 1"
  "uncached (uncached h) = uncached h" "uncached (h\<lparr>bus := b\<rparr>) = (uncached h)\<lparr>bus := b\<rparr>"
  by (simp_all add: uncached_def)

lemma enable_host:
  assumes "host_ok h"
  obtains b' where "hinfc610_enable_ecc_randomizer c True True h = h\<lparr>bus := b'\<rparr>" "still (bus h) b'"
  using enable_still [OF assms] by blast

lemma ctrl_addr:
  assumes "host_ok h" "dat \<noteq> - 1" "ctrl = 0x85 \<or> ctrl = 0x05"
  shows "\<exists>b'. hinfc610_cmd_ctrl c dat ctrl h = (uncached (addr_phase dat ctrl h))\<lparr>bus := b'\<rparr> \<and> still (bus h) b'"
proof -
  have ok: "host_ok (addr_phase dat ctrl h)" "bus (addr_phase dat ctrl h) = bus h"
    using assms(1) by (simp_all add: addr_phase_def Let_def)
  obtain b' where "hinfc610_enable_ecc_randomizer c True True (addr_phase dat ctrl h) = (addr_phase dat ctrl h)\<lparr>bus := b'\<rparr>"
      "still (bus h) b'"
    using enable_host [OF ok(1)] ok(2) by metis
  then show ?thesis
    by (intro exI [of _ b']) (use assms(2,3) in \<open>auto simp: hinfc610_cmd_ctrl_def uncached_def\<close>)
qed

lemma addr_phase_uncached: "addr_phase dat ctrl (uncached h) = uncached (addr_phase dat ctrl h)"
  "addr_phase dat ctrl (h\<lparr>bus := b\<rparr>) = (addr_phase dat ctrl h)\<lparr>bus := b\<rparr>"
  by (simp_all add: addr_phase_def uncached_def Let_def)

lemma fold_addr_bus: "fold (\<lambda>a. addr_phase a x) ds (h\<lparr>bus := b\<rparr>) =
    (fold (\<lambda>a. addr_phase a x) ds h)\<lparr>bus := b\<rparr>"
  for h :: "'c hinfc_host"
  by (induction ds arbitrary: h) (simp_all add: addr_phase_uncached(2))

lemma addr_phase_ok: "host_ok (addr_phase dat ctrl h) = host_ok h" "bus (addr_phase dat ctrl h) = bus h"
  by (simp_all add: addr_phase_def Let_def)

lemma bus_cycle_ctrl: "bus_cycle c (CmdCtrl x y) h = hinfc610_cmd_ctrl c x y h"
  by (simp add: bus_cycle_def)

lemma ctrl_addr_list:
  assumes "host_ok h" "\<forall>a \<in> set ds. a \<noteq> - 1"
  shows "\<exists>b'. fold (bus_cycle c) (map (\<lambda>a. CmdCtrl a (NAND_NCE OR NAND_ALE)) ds) (uncached h) =
      (uncached (fold (\<lambda>a. addr_phase a 5) ds h))\<lparr>bus := b'\<rparr> \<and> still (bus h) b'"
  using assms
proof (induction ds arbitrary: h)
  case Nil
  then show ?case by (intro exI [of _ "bus h"]) (simp add: still_refl host_okD uncached_def)
next
  case (Cons a ds)
  have "host_ok (uncached h)" "a \<noteq> - 1" using Cons.prems by simp_all
  then obtain b1 where 1: "hinfc610_cmd_ctrl c a 5 (uncached h) = (uncached (addr_phase a 5 (uncached h)))\<lparr>bus := b1\<rparr>"
      "still (bus (uncached h)) b1"
    using ctrl_addr [of "uncached h" a 5] by blast
  let ?h1 = "(addr_phase a 5 h)\<lparr>bus := b1\<rparr>"
  have ok1: "host_ok ?h1" using Cons.prems(1) still_up [OF 1(2)] by (simp add: host_ok_bus addr_phase_ok)
  have next': "hinfc610_cmd_ctrl c a 5 (uncached h) = uncached ?h1" by (simp add: 1(1) addr_phase_uncached)
  have "\<forall>a \<in> set ds. a \<noteq> - 1" using Cons.prems(2) by simp
  from Cons.IH [OF ok1 this] obtain b' where 2: "fold (bus_cycle c) (map (\<lambda>a. CmdCtrl a (NAND_NCE OR NAND_ALE)) ds) (uncached ?h1) =
      (uncached (fold (\<lambda>a. addr_phase a 5) ds ?h1))\<lparr>bus := b'\<rparr>" "still (bus ?h1) b'" by blast
  have "still (bus h) b'" using still_trans [OF 1(2), of b'] 2(2) by simp
  then show ?case
    by (intro exI [of _ b']) (use 2(1) next' fold_addr_bus in \<open>simp add: bus_cycle_ctrl\<close>)
qed

lemma ctrl_addresses:
  assumes "host_ok h" "\<forall>a \<in> set ds. a \<noteq> - 1"
  shows "\<exists>b'. fold (bus_cycle c) (address_cycles ds) (uncached h) = (uncached (addr_phases ds h))\<lparr>bus := b'\<rparr> \<and> still (bus h) b'"
proof (cases ds)
  case Nil
  then show ?thesis
    by (intro exI [of _ "bus h"]) (simp add: address_cycles_def addr_phases_def still_refl host_okD [OF assms(1)] uncached_def)
next
  case (Cons a ds')
  have "host_ok (uncached h)" "a \<noteq> - 1" using assms Cons by simp_all
  then obtain b1 where 1: "hinfc610_cmd_ctrl c a 0x85 (uncached h) = (uncached (addr_phase a 0x85 (uncached h)))\<lparr>bus := b1\<rparr>"
      "still (bus (uncached h)) b1"
    using ctrl_addr [of "uncached h" a "0x85"] by blast
  let ?h1 = "(addr_phase a 0x85 h)\<lparr>bus := b1\<rparr>"
  have ok1: "host_ok ?h1" using assms(1) still_up [OF 1(2)] by (simp add: host_ok_bus addr_phase_ok)
  have next': "hinfc610_cmd_ctrl c a 0x85 (uncached h) = uncached ?h1" by (simp add: 1(1) addr_phase_uncached)
  have "\<forall>a \<in> set ds'. a \<noteq> - 1" using assms(2) Cons by simp
  from ctrl_addr_list [OF ok1 this] obtain b' where
    2: "fold (bus_cycle c) (map (\<lambda>a. CmdCtrl a (NAND_NCE OR NAND_ALE)) ds') (uncached ?h1) =
      (uncached (fold (\<lambda>a. addr_phase a 5) ds' ?h1))\<lparr>bus := b'\<rparr>" "still (bus ?h1) b'" by blast
  have "still (bus h) b'" using still_trans [OF 1(2), of b'] 2(2) by simp
  then show ?thesis
    by (intro exI [of _ b']) (use 2(1) next' fold_addr_bus in \<open>simp add: bus_cycle_ctrl Cons address_cycles_def addr_phases_def\<close>)
qed

text \<open>The end of a command cycle: the column is taken over after an address.\<close>

definition take_column :: "'c hinfc_host \<Rightarrow> 'c hinfc_host" where
  "take_column h =
     (if addr_cycle h \<noteq> 0 \<and> (command h = 0x80 \<or> command h = 0 \<or> command h = 0x90)
      then h\<lparr>offset := 0, column := addr_value0 h AND 0xffff\<rparr> else h)"

lemma ctrl_none:
  assumes "host_ok h"
  shows "\<exists>b'. bus_cycle c (CmdCtrl NAND_CMD_NONE (NAND_NCE OR NAND_CTRL_CHANGE)) h = (uncached (take_column h))\<lparr>bus := b'\<rparr> \<and>
    still (bus h) b'"
proof -
  obtain b' where "hinfc610_enable_ecc_randomizer c True True h = h\<lparr>bus := b'\<rparr>" "still (bus h) b'"
    by (rule enable_host [OF assms])
  then show ?thesis
    by (intro exI [of _ b']) (simp add: bus_cycle_def hinfc610_cmd_ctrl_def take_column_def uncached_def)
qed

text \<open>A command latch cycle: the command is done and the set-up of the controller written again.\<close>

lemma ctrl_cmd:
  assumes "host_ok (cmd_phase c cmd h)" "cmd \<noteq> - 1"
  shows "\<exists>b'. bus_cycle c (CmdCtrl cmd (NAND_NCE OR NAND_CLE OR NAND_CTRL_CHANGE)) h =
      (if cmd AND 0xff = NAND_CMD_READSTART then (cmd_phase c cmd h)\<lparr>bus := b'\<rparr> else (uncached (cmd_phase c cmd h))\<lparr>bus := b'\<rparr>) \<and>
    still (bus (cmd_phase c cmd h)) b'"
proof -
  obtain b' where "hinfc610_enable_ecc_randomizer c True True (cmd_phase c cmd h) = (cmd_phase c cmd h)\<lparr>bus := b'\<rparr>"
      "still (bus (cmd_phase c cmd h)) b'"
    by (rule enable_host [OF assms(1)])
  then show ?thesis
    by (intro exI [of _ b']) (use assms(2) in \<open>simp add: bus_cycle_def hinfc610_cmd_ctrl_def uncached_def\<close>)
qed

lemma wait_cycle:
  assumes "host_ok h"
  shows "\<exists>b'. bus_cycle c WaitReady h = h\<lparr>bus := b'\<rparr> \<and> still (bus h) b'" "bus_cycle c Delay h = h"
proof -
  obtain t b' where e: "elapsed ct (bus h) = (t, b')" by fastforce
  show "\<exists>b'. bus_cycle c WaitReady h = h\<lparr>bus := b'\<rparr> \<and> still (bus h) b'"
    by (intro exI [of _ b'])
       (use clock_law [OF host_okD(1) [OF assms] e] in \<open>simp add: bus_cycle_def get_timer_def cfg e still_def\<close>)
qed (simp add: bus_cycle_def)


section \<open>The commands of the generic layer\<close>

lemma latch_addr:
  assumes "host_ok h" "cmd = 0 \<or> cmd = 0x80 \<or> cmd = 0x60" "\<forall>a \<in> set ds. a \<noteq> - 1"
  shows "\<exists>b'. fold (bus_cycle c) ([CmdCtrl cmd (NAND_NCE OR NAND_CLE OR NAND_CTRL_CHANGE)] @ address_cycles ds @
        [CmdCtrl NAND_CMD_NONE (NAND_NCE OR NAND_CTRL_CHANGE)]) h =
      (uncached (take_column (addr_phases ds (h\<lparr>command := word_of_int cmd\<rparr>))))\<lparr>bus := b'\<rparr> \<and> still (bus h) b'"
proof -
  let ?h0 = "h\<lparr>command := word_of_int cmd\<rparr>"
  have ph: "cmd_phase c cmd h = ?h0" "cmd AND 0xff \<noteq> NAND_CMD_READSTART" "cmd \<noteq> - 1"
    using assms(2) by (auto simp: cmd_phase_def Let_def)
  obtain b1 where 1: "bus_cycle c (CmdCtrl cmd (NAND_NCE OR NAND_CLE OR NAND_CTRL_CHANGE)) h = (uncached ?h0)\<lparr>bus := b1\<rparr>"
      "still (bus h) b1"
    using ctrl_cmd [of cmd h] assms(1) ph by auto
  let ?h1 = "?h0\<lparr>bus := b1\<rparr>"
  have ok1: "host_ok ?h1" using assms(1) still_up [OF 1(2)] by (simp add: host_ok_def)
  obtain b2 where 2: "fold (bus_cycle c) (address_cycles ds) (uncached ?h1) = (uncached (addr_phases ds ?h1))\<lparr>bus := b2\<rparr>"
      "still (bus ?h1) b2"
    using ctrl_addresses [OF ok1 assms(3)] by blast
  have ph1: "addr_phases ds ?h1 = (addr_phases ds ?h0)\<lparr>bus := b1\<rparr>"
    by (cases ds) (simp_all add: addr_phases_def addr_phase_uncached(2) fold_addr_bus)
  let ?h2 = "(uncached (addr_phases ds ?h0))\<lparr>bus := b2\<rparr>"
  have ok2: "host_ok ?h2"
  proof -
    have "host_ok (fold (\<lambda>d. addr_phase d 5) es g) = host_ok g" for es :: "int list" and g
      by (induction es arbitrary: g) (simp_all add: addr_phase_ok)
    then have "host_ok (addr_phases ds ?h0)" using assms(1)
      by (cases ds) (simp_all add: addr_phases_def addr_phase_ok)
    then show ?thesis using still_up [OF 2(2)] by (simp add: host_ok_bus)
  qed
  obtain b3 where 3: "bus_cycle c (CmdCtrl NAND_CMD_NONE (NAND_NCE OR NAND_CTRL_CHANGE)) ?h2 = (uncached (take_column ?h2))\<lparr>bus := b3\<rparr>"
      "still (bus ?h2) b3"
    using ctrl_none [OF ok2] by blast
  have tc: "uncached (take_column ((uncached g)\<lparr>bus := b2\<rparr>)) = (uncached (take_column g))\<lparr>bus := b2\<rparr>" for g
    by (simp add: take_column_def uncached_def)
  have "still (bus h) b3" using still_trans [OF still_trans [OF 1(2)], of b2 b3] 2(2) 3(2) by simp
  moreover have "fold (bus_cycle c) ([CmdCtrl cmd (NAND_NCE OR NAND_CLE OR NAND_CTRL_CHANGE)] @ address_cycles ds @
        [CmdCtrl NAND_CMD_NONE (NAND_NCE OR NAND_CTRL_CHANGE)]) h = (uncached (take_column (addr_phases ds ?h0)))\<lparr>bus := b3\<rparr>"
    using 1(1) 2(1) 3(1) ph1 tc by simp
  ultimately show ?thesis by blast
qed

text \<open>The chip that the command function sees.\<close>

abbreviation (input) "cc \<equiv> hinfc610_cmd_chip d"

lemma lp_addresses:
  "lp_address cc (int col) p = [int col, drop_bit 8 (int col)] @ (if p \<noteq> - 1 then [p, drop_bit 8 p] @ (if large then [drop_bit 16 p] else []) else [])"
  "lp_address cc (- 1) p = (if p \<noteq> - 1 then [p, drop_bit 8 p] @ (if large then [drop_bit 16 p] else []) else [])"
  using numbers(3) by (simp_all add: lp_address_def adjust_column_def hinfc610_cmd_chip_def)

lemma drop_bit_not_minus: "0 \<le> x \<Longrightarrow> drop_bit n x \<noteq> (- 1 :: int)"
  using drop_bit_nonnegative_int_iff [of n x] by linarith

lemma page_limit: "p < npages \<Longrightarrow> p < 2 ^ 24" "\<not> large \<Longrightarrow> p < npages \<Longrightarrow> p < 2 ^ 16"
  using numbers(4) by (auto split: if_splits)

lemma select_page:
  assumes "host_ok h" "cmd = 0 \<or> cmd = 0x80" "0 \<le> p" "p < npages" "col < data_bytes + spare_bytes"
  shows "\<exists>h'. fold (bus_cycle c) ([CmdCtrl cmd (NAND_NCE OR NAND_CLE OR NAND_CTRL_CHANGE)] @ address_cycles (lp_address cc (int col) p) @
        [CmdCtrl NAND_CMD_NONE (NAND_NCE OR NAND_CTRL_CHANGE)]) h = h' \<and>
      host_ok h' \<and> addressed h' p \<and> command h' = word_of_int cmd \<and> unat (column h') = col \<and> offset h' = 0 \<and>
      cache_addr_value1 h' = - 1 \<and> cells (nfc (bus h')) = cells (nfc (bus h))"
proof -
  let ?ds = "lp_address cc (int col) p" and ?h0 = "h\<lparr>command := word_of_int cmd\<rparr>"
  have "\<forall>a \<in> set ?ds. a \<noteq> - 1" using assms(3) drop_bit_not_minus [of "int col"] drop_bit_not_minus [of p]
    by (auto simp: lp_addresses)
  with assms(1,2) obtain b' where 1: "fold (bus_cycle c) ([CmdCtrl cmd (NAND_NCE OR NAND_CLE OR NAND_CTRL_CHANGE)] @ address_cycles ?ds @
        [CmdCtrl NAND_CMD_NONE (NAND_NCE OR NAND_CTRL_CHANGE)]) h =
      (uncached (take_column (addr_phases ?ds ?h0)))\<lparr>bus := b'\<rparr>" "still (bus h) b'"
    using latch_addr [of h cmd ?ds] by blast
  let ?a0 = "addr_word (int col) (drop_bit 8 (int col)) p (drop_bit 8 p)"
  define a1 where "a1 = (if large then byte_of (drop_bit 16 p) else 0)"
  define n :: u32 where "n = (if large then 5 else 4)"
  have ph: "addr_phases ?ds ?h0 = ?h0\<lparr>addr_cycle := n, addr_value0 := ?a0, addr_value1 := a1\<rparr>"
    using assms(3) by (simp add: lp_addresses addr_phases_values a1_def n_def)
  let ?h' = "(uncached (?h0\<lparr>addr_cycle := n, addr_value0 := ?a0, addr_value1 := a1, offset := 0, column := ?a0 AND 0xffff\<rparr>))\<lparr>bus := b'\<rparr>"
  have eq: "(uncached (take_column (addr_phases ?ds ?h0)))\<lparr>bus := b'\<rparr> = ?h'"
    using assms(2) by (auto simp: ph take_column_def n_def uncached_def)
  have high: "int (unat a1) = p div 65536"
  proof (cases large)
    case True
    have "byte_of (drop_bit 16 p) = word_of_int (take_bit 8 (drop_bit 16 p))"
      by (simp add: byte_of_def take_bit_eq_mask mask_eq_exp_minus_1)
    moreover have "p div 65536 < 256" using page_limit(1) [OF assms(4)] by (simp add: pos_imp_zdiv_nonneg_iff)
    ultimately show ?thesis using True assms(3) unat_take [of "drop_bit 16 p" 8]
      by (simp add: a1_def drop_bit_eq_div pos_imp_zdiv_nonneg_iff)
  next
    case False
    then show ?thesis using page_limit(2) [OF False assms(4)] assms(3) by (simp add: a1_def)
  qed
  have low: "int (unat (drop_bit 16 ?a0)) = p mod 65536"
    using unat_take [of p 16] assms(3) by (simp add: addr_word_high)
  have "int (unat (drop_bit 16 ?a0) + 65536 * unat a1) = p" using high low by (simp add: mult.commute)
  then have ad: "addressed ?h' p" using assms(4) by (simp add: addressed_def n_def)
  have "int col < 65536" using assms(5) page_sizes(4) by simp
  then have co: "unat (?a0 AND 0xffff) = col" using unat_take [of "int col" 16] by (simp add: addr_word_low)
  have "host_ok ?h'" using assms(1) still_up [OF 1(2)] by (simp add: host_ok_def uncached_def)
  then show ?thesis using 1 eq ad co by (simp add: still_def)
qed


text \<open>What the host has been asked for.\<close>

definition reading :: "'c hinfc_host \<Rightarrow> int \<Rightarrow> nat \<Rightarrow> bool" where
  "reading h p i \<longleftrightarrow> command h = 0x30 \<and> unat (column h) + unat (offset h) = i \<and>
     (\<forall>j < data_bytes + spare_bytes. dma_mem (bus h) j = cells (nfc (bus h)) p j)"

definition loading :: "'c hinfc_host \<Rightarrow> int \<Rightarrow> nat \<Rightarrow> (nat \<Rightarrow> u8) \<Rightarrow> bool" where
  "loading h p i r \<longleftrightarrow> command h = 0x80 \<and> unat (column h) + unat (offset h) = i \<and> dma_mem (bus h) = r \<and> addressed h p"

definition in_status :: "'c hinfc_host \<Rightarrow> bool" where
  "in_status h \<longleftrightarrow> command h = 0x70 \<and> io_mem (bus h) 0 AND 0x80 \<noteq> 0"

abbreviation "run cmd col p h \<equiv> fold (bus_cycle c) (nand_command_lp cc cmd col p) h"

abbreviation (input) "latch cmd \<equiv> CmdCtrl cmd (NAND_NCE OR NAND_CLE OR NAND_CTRL_CHANGE)"
abbreviation (input) "none \<equiv> CmdCtrl NAND_CMD_NONE (NAND_NCE OR NAND_CTRL_CHANGE)"

lemma commands:
  "nand_command_lp cc NAND_CMD_READ0 col p =
     [latch 0] @ address_cycles (lp_address cc col p) @ [none] @ [latch 0x30, none, Delay, WaitReady]"
  "nand_command_lp cc NAND_CMD_READOOB col p = nand_command_lp cc NAND_CMD_READ0 (col + int data_bytes) p"
  "nand_command_lp cc NAND_CMD_SEQIN col p = [latch 0x80] @ address_cycles (lp_address cc col p) @ [none]"
  "nand_command_lp cc NAND_CMD_ERASE1 col p = [latch 0x60] @ address_cycles (lp_address cc col p) @ [none]"
  "nand_command_lp cc NAND_CMD_ERASE2 (- 1) (- 1) = [latch 0xd0, none]"
  "nand_command_lp cc NAND_CMD_PAGEPROG (- 1) (- 1) = [latch 0x10, none]"
  "nand_command_lp cc NAND_CMD_STATUS (- 1) (- 1) = [latch 0x70, none]"
  "nand_command_lp cc NAND_CMD_RESET (- 1) (- 1) = [latch 0xff, none, Delay, WaitReady]"
  using page_sizes(1)
  by (simp_all add: nand_command_lp_def Let_def wait_busy_def reset_poll_def hinfc610_cmd_chip_def lp_address_def address_cycles_def)

lemma latch_none:
  assumes "host_ok (cmd_phase c cmd h)" "cmd \<noteq> - 1" "command (cmd_phase c cmd h) = word_of_int cmd"
    "cmd = 0x10 \<or> cmd = 0xd0 \<or> cmd = 0x70 \<or> cmd = 0xff \<or> cmd = 0x30"
  shows "\<exists>b'. fold (bus_cycle c) [latch cmd, none] h = (uncached (cmd_phase c cmd h))\<lparr>bus := b'\<rparr> \<and>
    still (bus (cmd_phase c cmd h)) b'"
proof -
  let ?g = "cmd_phase c cmd h"
  obtain b1 where 1: "bus_cycle c (latch cmd) h = ?g\<lparr>bus := b1\<rparr> \<or> bus_cycle c (latch cmd) h = (uncached ?g)\<lparr>bus := b1\<rparr>"
      "still (bus ?g) b1"
    using ctrl_cmd [OF assms(1,2)] by (metis (full_types))
  define g1 where "g1 = bus_cycle c (latch cmd) h"
  have g1: "host_ok g1" "bus g1 = b1" "uncached g1 = (uncached ?g)\<lparr>bus := b1\<rparr>" "take_column g1 = g1"
    using 1 assms(1,3,4) still_up [OF 1(2)] by (auto simp: g1_def host_ok_bus take_column_def)
  obtain b2 where 2: "bus_cycle c none g1 = (uncached (take_column g1))\<lparr>bus := b2\<rparr>" "still (bus g1) b2"
    using ctrl_none [OF g1(1)] by blast
  have "still (bus ?g) b2" using still_trans [OF 1(2)] 2(2) g1(2) by simp
  moreover have "fold (bus_cycle c) [latch cmd, none] h = (uncached ?g)\<lparr>bus := b2\<rparr>"
    using 2(1) g1 by (simp add: g1_def)
  ultimately show ?thesis by blast
qed

lemma wait_cycles:
  assumes "host_ok h"
  shows "\<exists>b'. fold (bus_cycle c) [Delay, WaitReady] h = h\<lparr>bus := b'\<rparr> \<and> still (bus h) b'"
  using wait_cycle [OF assms] by simp

lemma run_read:
  assumes "host_ok h" "0 \<le> p" "p < npages" "col < data_bytes + spare_bytes"
  shows "host_ok (run NAND_CMD_READ0 (int col) p h)" "reading (run NAND_CMD_READ0 (int col) p h) p col"
    "cells (nfc (bus (run NAND_CMD_READ0 (int col) p h))) = cells (nfc (bus h))"
proof -
  define h1 where "h1 = fold (bus_cycle c) ([latch 0] @ address_cycles (lp_address cc (int col) p) @ [none]) h"
  have 1: "host_ok h1" "addressed h1 p" "unat (column h1) = col" "offset h1 = 0" "cache_addr_value1 h1 = - 1"
      "cells (nfc (bus h1)) = cells (nfc (bus h))"
    using select_page [OF assms(1) _ assms(2-4), of 0] by (auto simp: h1_def)
  let ?h1 = "h1\<lparr>command := 0x30\<rparr>"
  have "host_ok ?h1" "addressed ?h1 p" "cache_addr_value1 ?h1 = - 1" using 1 by (simp_all add: addressed_def)
  from readstart [OF this] obtain h2 where 2: "cmd_phase c 0x30 h1 = h2" "after_read ?h1 h2" "host_ok h2"
      "cells (nfc (bus h2)) = cells (nfc (bus h))" "\<forall>i < data_bytes + spare_bytes. dma_mem (bus h2) i = cells (nfc (bus h)) p i"
    using 1(6) by (auto simp: cmd_phase_def Let_def)
  have soft: "command h2 = 0x30" "column h2 = column h1" "offset h2 = 0"
    using 2(2) 1(4) unfolding after_read_def by (cases h1, cases h2, auto)+
  obtain b3 where 3: "fold (bus_cycle c) [latch 0x30, none] h1 = (uncached h2)\<lparr>bus := b3\<rparr>" "still (bus h2) b3"
    using latch_none [of "0x30" h1] 2(1,3) soft(1) by auto
  have "host_ok ((uncached h2)\<lparr>bus := b3\<rparr>)" using 2(3) still_up [OF 3(2)] by (simp add: host_ok_bus)
  from wait_cycles [OF this] obtain b4 where 4: "fold (bus_cycle c) [Delay, WaitReady] ((uncached h2)\<lparr>bus := b3\<rparr>) = (uncached h2)\<lparr>bus := b4\<rparr>"
      "still b3 b4" by auto
  have s: "still (bus h2) b4" by (rule still_trans [OF 3(2) 4(2)])
  have split: "[latch 0x30, none, Delay, WaitReady] = [latch 0x30, none] @ [Delay, WaitReady]" by simp
  have run: "run NAND_CMD_READ0 (int col) p h = (uncached h2)\<lparr>bus := b4\<rparr>"
    unfolding commands(1) split append_assoc [symmetric] fold_append o_apply
    using 3(1) 4(1) by (simp add: h1_def)
  show "host_ok (run NAND_CMD_READ0 (int col) p h)" unfolding run using 2(3) still_up [OF s] by (simp add: host_ok_bus)
  show "cells (nfc (bus (run NAND_CMD_READ0 (int col) p h))) = cells (nfc (bus h))"
    unfolding run using s 2(4) by (simp add: still_def)
  show "reading (run NAND_CMD_READ0 (int col) p h) p col"
    unfolding run reading_def using s 2(4,5) soft 1(3) by (simp add: still_def)
qed

lemma run_seqin:
  assumes "host_ok h" "0 \<le> p" "p < npages" "col < data_bytes + spare_bytes"
  shows "host_ok (run NAND_CMD_SEQIN (int col) p h)" "\<exists>r. loading (run NAND_CMD_SEQIN (int col) p h) p col r"
    "cells (nfc (bus (run NAND_CMD_SEQIN (int col) p h))) = cells (nfc (bus h))"
  using select_page [OF assms(1) _ assms(2-4), of "0x80"] by (auto simp: commands(3) loading_def)

lemma run_status:
  assumes "host_ok h"
  shows "host_ok (run NAND_CMD_STATUS (- 1) (- 1) h)" "in_status (run NAND_CMD_STATUS (- 1) (- 1) h)"
    "cells (nfc (bus (run NAND_CMD_STATUS (- 1) (- 1) h))) = cells (nfc (bus h))"
    "io_mem (bus (run NAND_CMD_STATUS (- 1) (- 1) h)) 0 AND 1 \<noteq> 0 \<longleftrightarrow> failed (nfc (bus h))"
proof -
  let ?h0 = "h\<lparr>command := 0x70\<rparr>"
  have ok0: "host_ok ?h0" using assms by simp
  obtain b1 where 1: "cmd_phase c 0x70 h = ?h0\<lparr>bus := b1\<rparr>" "up (nfc b1)" "cells (nfc b1) = cells (nfc (bus h))"
      "io_mem b1 0 AND 0x80 \<noteq> 0" "io_mem b1 0 AND 1 \<noteq> 0 \<longleftrightarrow> failed (nfc (bus h))"
    using send_status [OF ok0] by (auto simp: cmd_phase_def Let_def)
  have ok1: "host_ok (?h0\<lparr>bus := b1\<rparr>)" by (rule host_ok_bus [OF ok0 1(2)])
  obtain b2 where 2: "run NAND_CMD_STATUS (- 1) (- 1) h = (uncached ?h0)\<lparr>bus := b2\<rparr>" "still b1 b2"
    using latch_none [of "0x70" h] ok1 1(1) unfolding commands(7) by auto
  show "host_ok (run NAND_CMD_STATUS (- 1) (- 1) h)" unfolding 2(1) using ok0 still_up [OF 2(2)] by (simp add: host_ok_bus)
  show "in_status (run NAND_CMD_STATUS (- 1) (- 1) h)"
    "cells (nfc (bus (run NAND_CMD_STATUS (- 1) (- 1) h))) = cells (nfc (bus h))"
    "io_mem (bus (run NAND_CMD_STATUS (- 1) (- 1) h)) 0 AND 1 \<noteq> 0 \<longleftrightarrow> failed (nfc (bus h))"
    unfolding 2(1) in_status_def using 1 2(2) by (simp_all add: still_def)
qed

lemma run_reset:
  assumes "host_ok h"
  shows "host_ok (run NAND_CMD_RESET (- 1) (- 1) h)" "cells (nfc (bus (run NAND_CMD_RESET (- 1) (- 1) h))) = cells (nfc (bus h))"
proof -
  let ?h0 = "h\<lparr>command := 0xff\<rparr>"
  have ok0: "host_ok ?h0" using assms by simp
  obtain b1 where 1: "cmd_phase c 0xff h = ?h0\<lparr>bus := b1\<rparr>" "up (nfc b1)" "cells (nfc b1) = cells (nfc (bus h))"
    using send_reset [OF ok0] by (auto simp: cmd_phase_def Let_def)
  have ok1: "host_ok (?h0\<lparr>bus := b1\<rparr>)" by (rule host_ok_bus [OF ok0 1(2)])
  obtain b2 where 2: "fold (bus_cycle c) [latch 0xff, none] h = (uncached ?h0)\<lparr>bus := b2\<rparr>" "still b1 b2"
    using latch_none [of "0xff" h] ok1 1(1) by auto
  have ok2: "host_ok ((uncached ?h0)\<lparr>bus := b2\<rparr>)" using ok0 still_up [OF 2(2)] by (simp add: host_ok_bus)
  from wait_cycles [OF this] obtain b3 where 3: "fold (bus_cycle c) [Delay, WaitReady] ((uncached ?h0)\<lparr>bus := b2\<rparr>) = (uncached ?h0)\<lparr>bus := b3\<rparr>"
      "still b2 b3" by auto
  have split: "[latch 0xff, none, Delay, WaitReady] = [latch 0xff, none] @ [Delay, WaitReady]" by simp
  have run: "run NAND_CMD_RESET (- 1) (- 1) h = (uncached ?h0)\<lparr>bus := b3\<rparr>"
    unfolding commands(8) split fold_append o_apply using 2(1) 3(1) by simp
  show "host_ok (run NAND_CMD_RESET (- 1) (- 1) h)" unfolding run using ok0 still_up [OF 3(2)] by (simp add: host_ok_bus)
  show "cells (nfc (bus (run NAND_CMD_RESET (- 1) (- 1) h))) = cells (nfc (bus h))"
    unfolding run using 1(3) 2(2) 3(2) by (simp add: still_def)
qed


lemma run_program:
  assumes "host_ok h" "loading h p i r"
  shows "host_ok (run NAND_CMD_PAGEPROG (- 1) (- 1) h)"
    "q \<noteq> p \<Longrightarrow> cells (nfc (bus (run NAND_CMD_PAGEPROG (- 1) (- 1) h))) q = cells (nfc (bus h)) q"
    "\<exists>k. (\<forall>i. vital_byte i \<longrightarrow>
        cells (nfc (bus (run NAND_CMD_PAGEPROG (- 1) (- 1) h))) p i = cells (nfc (bus h)) p i AND (r i OR k i)) \<and>
      (\<not> failed (nfc (bus (run NAND_CMD_PAGEPROG (- 1) (- 1) h))) \<longrightarrow> k = (\<lambda>_. 0))"
proof -
  let ?h0 = "h\<lparr>command := 0x10\<rparr>"
  have ok0: "host_ok ?h0" "addressed ?h0 p" using assms by (simp_all add: loading_def addressed_def)
  have ph: "cmd_phase c 0x10 h = hinfc610_send_cmd_pageprog c ?h0" "bus ?h0 = bus h" "r = dma_mem (bus h)"
    using assms(2) by (simp_all add: cmd_phase_def loading_def)
  from pageprog [OF ok0] obtain b1 k where 1: "cmd_phase c 0x10 h = ?h0\<lparr>bus := b1\<rparr>" "up (nfc b1)"
      "\<forall>q. q \<noteq> p \<longrightarrow> cells (nfc b1) q = cells (nfc (bus h)) q"
      "\<forall>i. vital_byte i \<longrightarrow> cells (nfc b1) p i = cells (nfc (bus h)) p i AND (r i OR k i)"
      "\<not> failed (nfc b1) \<longrightarrow> k = (\<lambda>_. 0)"
    unfolding ph(2) by (elim exE conjE) (rule that, simp_all only: ph(1,3))
  have ok1: "host_ok (?h0\<lparr>bus := b1\<rparr>)" by (rule host_ok_bus [OF ok0(1) 1(2)])
  obtain b2 where 2: "run NAND_CMD_PAGEPROG (- 1) (- 1) h = (uncached ?h0)\<lparr>bus := b2\<rparr>" "still b1 b2"
    using latch_none [of "0x10" h] ok1 1(1) unfolding commands(6) by auto
  show "host_ok (run NAND_CMD_PAGEPROG (- 1) (- 1) h)" unfolding 2(1) using ok0 still_up [OF 2(2)] by (simp add: host_ok_bus)
  show "q \<noteq> p \<Longrightarrow> cells (nfc (bus (run NAND_CMD_PAGEPROG (- 1) (- 1) h))) q = cells (nfc (bus h)) q"
    unfolding 2(1) using 1(3) 2(2) by (simp add: still_def)
  show "\<exists>k. (\<forall>i. vital_byte i \<longrightarrow>
        cells (nfc (bus (run NAND_CMD_PAGEPROG (- 1) (- 1) h))) p i = cells (nfc (bus h)) p i AND (r i OR k i)) \<and>
      (\<not> failed (nfc (bus (run NAND_CMD_PAGEPROG (- 1) (- 1) h))) \<longrightarrow> k = (\<lambda>_. 0))"
    unfolding 2(1) by (intro exI [of _ k]) (use 1(4,5) 2(2) in \<open>simp add: still_def\<close>)
qed

lemma run_erase:
  assumes "host_ok h" "0 \<le> p" "p < npages"
  defines "h' \<equiv> run NAND_CMD_ERASE2 (- 1) (- 1) (run NAND_CMD_ERASE1 (- 1) p h)"
  shows "host_ok h'" "q div ppb \<noteq> p div ppb \<Longrightarrow> cells (nfc (bus h')) q = cells (nfc (bus h)) q"
    "\<not> failed (nfc (bus h')) \<Longrightarrow> q div ppb = p div ppb \<Longrightarrow> i < data_bytes + spare_bytes \<Longrightarrow> cells (nfc (bus h')) q i = 0xff"
proof -
  let ?ds = "lp_address cc (- 1) p" and ?h0 = "h\<lparr>command := 0x60\<rparr>"
  have "\<forall>a \<in> set ?ds. a \<noteq> - 1" using assms(2) drop_bit_not_minus [of p] by (auto simp: lp_addresses)
  then obtain b1 where 1: "run NAND_CMD_ERASE1 (- 1) p h = (uncached (take_column (addr_phases ?ds ?h0)))\<lparr>bus := b1\<rparr>"
      "still (bus h) b1"
    using latch_addr [OF assms(1), of "0x60" ?ds] unfolding commands(4) by auto
  define a0 where "a0 = (word_of_int p :: u32)"
  define n :: u32 where "n = (if large then 3 else 2)"
  have "byte_of p OR push_bit 8 (byte_of (drop_bit 8 p)) OR push_bit 16 (byte_of (drop_bit 16 p)) = a0"
  proof -
    have "take_bit 24 p = p" using assms(2) page_limit(1) [OF assms(3)] by (intro take_bit_int_eq_self) simp_all
    then show ?thesis by (simp add: addr_word_row a0_def)
  qed
  moreover have "byte_of p OR push_bit 8 (byte_of (drop_bit 8 p)) = a0" if "\<not> large"
  proof -
    have "take_bit 16 p = p" using assms(2) page_limit(2) [OF that assms(3)] by (intro take_bit_int_eq_self) simp_all
    then show ?thesis by (simp add: byte_pair a0_def)
  qed
  ultimately have ph: "take_column (addr_phases ?ds ?h0) = ?h0\<lparr>addr_cycle := n, addr_value0 := a0, addr_value1 := 0\<rparr>"
    using assms(2) by (simp add: lp_addresses addr_phases_values n_def take_column_def)
  define h1 where "h1 = run NAND_CMD_ERASE1 (- 1) p h"
  have h1: "h1 = (uncached (?h0\<lparr>addr_cycle := n, addr_value0 := a0, addr_value1 := 0\<rparr>))\<lparr>bus := b1\<rparr>"
    unfolding h1_def 1(1) ph ..
  have ok1: "host_ok h1" using assms(1) still_up [OF 1(2)] by (simp add: h1 host_ok_bus)
  have val: "uint a0 = p"
  proof -
    have "p < 2 ^ 32" using page_limit(1) [OF assms(3)] by simp
    then show ?thesis using assms(2) by (simp add: a0_def uint_word_of_int)
  qed
  let ?h2 = "h1\<lparr>command := 0xd0\<rparr>"
  have ok2: "host_ok ?h2" using ok1 by simp
  have a2: "int (unat (addr_value0 ?h2)) = p" "addr_cycle ?h2 = (if large then 3 else 2)" by (simp_all add: h1 val n_def)
  obtain b2 where 2: "cmd_phase c 0xd0 h1 = ?h2\<lparr>bus := b2\<rparr>" "up (nfc b2)"
      "\<forall>q. q div ppb \<noteq> p div ppb \<longrightarrow> cells (nfc b2) q = cells (nfc (bus h1)) q"
      "\<not> failed (nfc b2) \<longrightarrow>
        (\<forall>q i. q div ppb = p div ppb \<longrightarrow> i < data_bytes + spare_bytes \<longrightarrow> cells (nfc b2) q i = 0xff)"
    using send_erase [OF ok2 a2(1) assms(3) a2(2)] by (auto simp: cmd_phase_def Let_def)
  have ok3: "host_ok (?h2\<lparr>bus := b2\<rparr>)" by (rule host_ok_bus [OF ok2 2(2)])
  obtain b3 where 3: "run NAND_CMD_ERASE2 (- 1) (- 1) h1 = (uncached ?h2)\<lparr>bus := b3\<rparr>" "still b2 b3"
    using latch_none [of "0xd0" h1] ok3 2(1) unfolding commands(5) by auto
  have h': "h' = (uncached ?h2)\<lparr>bus := b3\<rparr>" unfolding h'_def h1_def [symmetric] 3(1) ..
  have b1: "cells (nfc (bus h1)) = cells (nfc (bus h))" using 1(2) by (simp add: h1 still_def)
  show "host_ok h'" unfolding h' using ok2 still_up [OF 3(2)] by (simp add: host_ok_bus)
  show "q div ppb \<noteq> p div ppb \<Longrightarrow> cells (nfc (bus h')) q = cells (nfc (bus h)) q"
    using 2(3) 3(2) b1 by (simp add: h' still_def)
  show "\<not> failed (nfc (bus h')) \<Longrightarrow> q div ppb = p div ppb \<Longrightarrow> i < data_bytes + spare_bytes \<Longrightarrow> cells (nfc (bus h')) q i = 0xff"
    using 2(4) 3(2) by (simp add: h' still_def)
qed

subsection \<open>The functions of the chip\<close>

abbreviation "dc \<equiv> hinfc610_chip c hz d"

lemma chip_cmdfunc: "cmdfunc dc cmd col p s = s\<lparr>hw := run cmd col p (hw s)\<rparr>"
  by (simp add: hinfc610_chip_def hinfc610_nand_init_def hinfc610_cmdfunc_def on_hw_def Let_def)

lemma chip_same:
  "page_shift dc = page_shift d" "phys_erase_shift dc = phys_erase_shift d" "chip_shift dc = chip_shift d"
  "pagemask dc = pagemask d" "writesize dc = writesize d" "oobsize dc = oobsize d" "badblockpos dc = badblockpos d"
  "erasesize dc = erasesize d" "mtd_size dc = mtd_size d" "bbt_erase_shift dc = bbt_erase_shift d"
  "subpagesize dc = subpagesize d" "ecclayout dc = ecclayout d" "errstat dc = errstat d" "block_bad_fn dc = block_bad_fn d" "ecc_mode dc = NAND_ECC_NONE"
  by (simp_all add: hinfc610_chip_def hinfc610_nand_init_def Let_def)

text \<open>A board whose clock does not reach the time limit of a program operation while the controller works.\<close>

definition in_time :: bool where
  "in_time \<longleftrightarrow> (\<forall>b t b'. up (nfc b) \<longrightarrow> elapsed ct b = (t, b') \<longrightarrow> t \<le> hz * 20 div 1000)"

definition ccells :: "'c hinfc_host \<Rightarrow> int \<Rightarrow> nat \<Rightarrow> u8" where
  "ccells h = cells (nfc (bus h))"

lemma wait_result:
  assumes "host_ok (hw s)" "chip_options s AND NAND_IS_AND = 0"
  shows "\<exists>st s'. waitfunc dc s = (st, s') \<and> quiet host_ok ccells s s' \<and> (st AND NAND_STATUS_FAIL = 0 \<longrightarrow> \<not> failed (nfc (bus (hw s)))) \<and>
    (in_time \<longrightarrow> \<not> failed (nfc (bus (hw s))) \<longrightarrow> st AND NAND_STATUS_FAIL = 0)"
proof -
  let ?dn = "hinfc610_nand_init c d" and ?h1 = "run NAND_CMD_STATUS (- 1) (- 1) (hw s)"
  define timeo where "timeo = (if chip_state s = FL_ERASING then hz * 400 div 1000 else hz * 20 div 1000)"
  have cmd: "cmdfunc ?dn cmd col p s = s\<lparr>hw := run cmd col p (hw s)\<rparr>" for cmd col p
    by (simp add: hinfc610_nand_init_def hinfc610_cmdfunc_def on_hw_def)
  note st = run_status [OF assms(1)]
  obtain t b2 where e: "elapsed ct (bus ?h1) = (t, b2)" by fastforce
  let ?h2 = "?h1\<lparr>bus := b2\<rparr>"
  have s2: "still (bus ?h1) b2" using clock_law [OF host_okD(1) [OF st(1)] e] by (simp add: still_def)
  have ok2: "host_ok ?h2" by (rule host_ok_bus [OF st(1) still_up [OF s2]])
  have tm: "of_hw (get_timer c) (s\<lparr>hw := ?h1\<rparr>) = (t, s\<lparr>hw := ?h2\<rparr>)"
    by (simp add: of_hw_def get_timer_def cfg e)
  have rb: "read_byte ?dn (s\<lparr>hw := ?h2\<rparr>) = (io_mem b2 0, s\<lparr>hw := ?h2\<rparr>)"
    using st(2) by (simp add: hinfc610_nand_init_def of_hw_def hinfc610_read_byte_def in_status_def)
  have w: "nand_wait ?dn hz (of_hw (get_timer c)) (Some hinfc610_dev_ready) s =
      Some (if timeo < t then 1 else uint (io_mem b2 0), s\<lparr>hw := ?h2\<rparr>)"
    using assms(2) unfolding nand_wait_def Let_def
    by (subst nand_wait_loop.simps) (simp add: cmd tm rb hinfc610_dev_ready_def timeo_def [symmetric])
  have q: "quiet host_ok ccells s (s\<lparr>hw := ?h2\<rparr>)"
    using ok2 s2 st(3) by (simp add: quiet_def ccells_def still_def)
  have "io_mem b2 0 = io_mem (bus ?h1) 0" using s2 by (simp add: still_def)
  then have fail: "uint (io_mem b2 0) AND 1 = 0 \<longleftrightarrow> \<not> failed (nfc (bus (hw s)))"
    using st(4) arg_cong [of "io_mem b2 0 AND 1" 0 uint] by (auto simp: unsigned_and_eq word_uint_eq_iff)
  have "waitfunc dc s = the (nand_wait ?dn hz (of_hw (get_timer c)) (Some hinfc610_dev_ready) s)"
    by (simp add: hinfc610_chip_def Let_def)
  moreover have "\<not> timeo < t" if in_time
  proof -
    have "t \<le> hz * 20 div 1000" using that host_okD(1) [OF st(1)] e unfolding in_time_def by blast
    moreover have "hz * 20 div 1000 \<le> timeo" using div_le_mono [of "hz * 20" "hz * 400" 1000] by (simp add: timeo_def)
    ultimately show ?thesis by simp
  qed
  ultimately show ?thesis using w q fail by auto
qed


lemma chip_numbers:
  "block_pages dc = ppb" "page_bytes dc = data_bytes + spare_bytes" "vital dc i = vital_byte i"
  "0 \<le> p \<Longrightarrow> p \<le> pagemask dc \<Longrightarrow> p < npages" "chip_shift d < page_shift d + 31"
proof -
  show "block_pages dc = ppb" by (simp add: block_pages_def chip_same numbers(2))
  show "page_bytes dc = data_bytes + spare_bytes" by (simp add: page_bytes_def chip_same page_sizes)
  show "vital dc i = vital_byte i" unfolding vital_def vital_byte_def chip_same unfolding page_sizes(1,3) ..
  show "0 \<le> p \<Longrightarrow> p \<le> pagemask dc \<Longrightarrow> p < npages"
    by (simp add: chip_same chip_sizes numbers(1) mask_eq_exp_minus_1)
  have "(2 :: int) ^ (chip_shift d - page_shift d) \<le> 2 ^ 24" using numbers(1,4) by (simp split: if_splits)
  then have "chip_shift d - page_shift d \<le> 24" by (subst (asm) power_increasing_iff) simp_all
  then show "chip_shift d < page_shift d + 31" by simp
qed

lemma chip_transfers:
  "read_byte dc s = (let (b, h) = hinfc610_read_byte (hw s) in (b, s\<lparr>hw := h\<rparr>))"
  "read_buf dc = hinfc610_read_buf" "write_buf dc = hinfc610_write_buf"
  "select_chip dc chip s = s\<lparr>hw := hinfc610_select_chip c chip (hw s)\<rparr>"
  "wait_ready dc s = s\<lparr>hw := snd (get_timer c (hw s))\<rparr>"
  by (simp_all add: hinfc610_chip_def hinfc610_nand_init_def Let_def of_hw_def on_hw_def)

lemma offset_step:
  assumes "unat (column h) + unat (offset h) = i" "i + n \<le> data_bytes + spare_bytes"
  shows "unat (column h) + unat (offset h + word_of_nat n) = i + n"
proof -
  have "unat (offset h) + n < 2 ^ 32" using assms page_sizes(4) by simp
  then have "unat (offset h + word_of_nat n) = unat (offset h) + n"
    by (simp add: unat_word_ariths unat_of_nat)
  then show ?thesis using assms(1) by simp
qed

lemma reading_soft: "reading (h\<lparr>offset := x\<rparr>) p i \<longleftrightarrow> reading h p (unat (column h) + unat (offset h)) \<and> unat (column h) + unat x = i"
  by (auto simp: reading_def)

end

sublocale hinfc_device \<subseteq> nand_driver dc host_ok ccells in_status reading loading
proof
  show "2 \<le> page_shift dc" "page_shift dc \<le> phys_erase_shift dc" "phys_erase_shift dc \<le> chip_shift dc"
      "phys_erase_shift dc < 32" "chip_shift dc < 62" "chip_shift dc < page_shift dc + 31"
      "writesize dc = 2 ^ page_shift dc" "erasesize dc = 2 ^ phys_erase_shift dc" "mtd_size dc = 2 ^ chip_shift dc"
      "bbt_erase_shift dc = phys_erase_shift dc" "pagemask dc = mask (chip_shift dc - page_shift dc)"
      "oobsize dc < writesize dc" "pow2_size (subpagesize dc)" "subpagesize dc \<le> writesize dc"
      "ecc_mode dc = NAND_ECC_NONE" "block_bad_fn dc = None" "errstat dc = None" "layout_fits (oobfree (ecclayout dc)) (unat (oobsize dc))"
      "oobavail (ecclayout dc) \<le> oobsize dc" "badblockpos dc < unat (oobsize dc)"
    using chip_shifts chip_sizes chip_subpages chip_modes chip_numbers(5) by (simp_all add: chip_same)
next
  fix s :: "'c hinfc_host nand_st" and chip :: int
  assume a: "host_ok (hw s)" "chip = 0 \<or> chip = - 1"
  then show "quiet host_ok ccells s (select_chip dc chip s)"
    using cfg(3) by (auto simp: chip_transfers quiet_def hinfc610_select_chip_def ccells_def host_ok_def)
next
  fix s :: "'c hinfc_host nand_st"
  assume a: "host_ok (hw s)"
  obtain t b' where e: "elapsed ct (bus (hw s)) = (t, b')" by fastforce
  show "quiet host_ok ccells s (wait_ready dc s)"
    using clock_law [OF host_okD(1) [OF a] e] a by (simp add: chip_transfers get_timer_def cfg e quiet_def ccells_def host_ok_bus)
  show "quiet host_ok ccells s (cmdfunc dc NAND_CMD_RESET (- 1) (- 1) s)"
    using run_reset [OF a] by (simp add: chip_cmdfunc quiet_def ccells_def)
next
  fix s s' :: "'c hinfc_host nand_st"
  assume "host_ok (hw s)" "s' = cmdfunc dc NAND_CMD_STATUS (- 1) (- 1) s"
  then show "quiet host_ok ccells s s' \<and> in_status (hw s')"
    using run_status [of "hw s"] by (simp add: chip_cmdfunc quiet_def ccells_def)
next
  fix s s' :: "'c hinfc_host nand_st" and b
  assume "host_ok (hw s)" "in_status (hw s)" "read_byte dc s = (b, s')"
  then show "quiet host_ok ccells s s' \<and> b AND NAND_STATUS_WP \<noteq> 0"
    by (auto simp: chip_transfers hinfc610_read_byte_def in_status_def quiet_def)
next
  fix s s' :: "'c hinfc_host nand_st" and p :: int
  assume a: "host_ok (hw s)" "0 \<le> p" "p \<le> pagemask dc" and s': "s' = cmdfunc dc NAND_CMD_READ0 0 p s"
  have "0 < data_bytes + spare_bytes" using page_sizes(1,2) chip_modes(4) by simp
  from run_read [OF a(1,2) chip_numbers(4) [OF a(2,3)] this]
  show "quiet host_ok ccells s s' \<and> reading (hw s') p 0"
    by (simp add: s' chip_cmdfunc quiet_def ccells_def)
next
  fix s s' :: "'c hinfc_host nand_st" and p :: int and i :: nat
  assume a: "host_ok (hw s)" "0 \<le> p" "p \<le> pagemask dc" and i: "i < unat (oobsize dc)"
    and s': "s' = cmdfunc dc NAND_CMD_READOOB (int i) p s"
  have "data_bytes + i < data_bytes + spare_bytes" using i by (simp add: chip_same page_sizes)
  from run_read [OF a(1,2) chip_numbers(4) [OF a(2,3)] this]
  have "quiet host_ok ccells s s' \<and> reading (hw s') p (data_bytes + i)"
    unfolding s' chip_cmdfunc commands(2) by (simp add: quiet_def ccells_def add.commute)
  then show "quiet host_ok ccells s s' \<and> reading (hw s') p (unat (writesize dc) + i)"
    by (simp add: chip_same page_sizes)
next
  fix s s' :: "'c hinfc_host nand_st" and p :: int and i :: nat and b :: u8
  assume a: "host_ok (hw s)" "reading (hw s) p i" "i < page_bytes dc" "read_byte dc s = (b, s')"
  have "unat (column (hw s)) + unat (offset (hw s) + 1) = i + 1"
    using offset_step [of "hw s" i 1] a(2,3) by (simp add: reading_def chip_numbers(2))
  then show "quiet host_ok ccells s s' \<and> b = ccells (hw s) p i"
    using a by (auto simp: chip_transfers hinfc610_read_byte_def reading_def quiet_def ccells_def chip_numbers(2))
next
  fix s s' :: "'c hinfc_host nand_st" and p :: int and i n buf :: nat
  assume a: "host_ok (hw s)" "reading (hw s) p i" "i + n \<le> page_bytes dc" "s' = read_buf dc buf n s"
  have o: "unat (column (hw s)) + unat (offset (hw s) + word_of_nat n) = i + n"
    using offset_step [of "hw s" i n] a(2,3) by (simp add: reading_def chip_numbers(2))
  have l: "load_bytes (dma_mem (bus (hw s))) i n = map (cells (nfc (bus (hw s))) p) [i ..< i + n]"
    using a(2,3) by (auto simp: load_bytes_def reading_def chip_numbers(2))
  show "s' = s\<lparr>hw := hw s', ram := store_bytes (ram s) buf (map (ccells (hw s) p) [i ..< i + n])\<rparr> \<and>
      host_ok (hw s') \<and> ccells (hw s') = ccells (hw s) \<and> reading (hw s') p (i + n)"
    using a l o by (simp add: chip_transfers hinfc610_read_buf_def Let_def ccells_def) (simp add: reading_def)
next
  fix s s' :: "'c hinfc_host nand_st" and p :: int and i :: nat
  assume a: "host_ok (hw s)" "0 \<le> p" "p \<le> pagemask dc" "i < page_bytes dc" "s' = cmdfunc dc NAND_CMD_SEQIN (int i) p s"
  show "quiet host_ok ccells s s' \<and> (\<exists>r. loading (hw s') p i r)"
    using run_seqin [OF a(1,2) chip_numbers(4) [OF a(2,3)], of i] a(4)
    by (simp add: a(5) chip_cmdfunc quiet_def ccells_def chip_numbers(2))
next
  fix s s' :: "'c hinfc_host nand_st" and p :: int and i n buf :: nat and r
  assume a: "host_ok (hw s)" "loading (hw s) p i r" "i + n \<le> page_bytes dc" "s' = write_buf dc buf n s"
  have o: "unat (column (hw s)) + unat (offset (hw s) + word_of_nat n) = i + n"
    using offset_step [of "hw s" i n] a(2,3) by (simp add: loading_def chip_numbers(2))
  have "store_bytes r i (load_bytes (ram s) buf n) = (\<lambda>j. if i \<le> j \<and> j < i + n then ram s (buf + (j - i)) else r j)"
    by (rule ext) (auto simp: store_bytes_def load_bytes_def)
  then show "quiet host_ok ccells s s' \<and>
      loading (hw s') p (i + n) (\<lambda>j. if i \<le> j \<and> j < i + n then ram s (buf + (j - i)) else r j)"
    using a o by (simp add: chip_transfers hinfc610_write_buf_def Let_def store_dma_def quiet_def ccells_def loading_def addressed_def host_ok_def)
next
  fix s s' :: "'c hinfc_host nand_st" and p st :: int and i :: nat and r
  assume a: "host_ok (hw s)" "loading (hw s) p i r" "chip_options s AND NAND_IS_AND = 0"
    "waitfunc dc (cmdfunc dc NAND_CMD_PAGEPROG (- 1) (- 1) s) = (st, s')"
  let ?s1 = "cmdfunc dc NAND_CMD_PAGEPROG (- 1) (- 1) s"
  note 1 = run_program [OF a(1,2)]
  have "host_ok (hw ?s1)" "chip_options ?s1 AND NAND_IS_AND = 0" using 1(1) a(3) by (simp_all add: chip_cmdfunc)
  from wait_result [OF this] a(4) have 2: "quiet host_ok ccells ?s1 s'" "st AND NAND_STATUS_FAIL = 0 \<longrightarrow> \<not> failed (nfc (bus (hw ?s1)))"
    by simp_all
  have 3: "s' = s\<lparr>hw := hw s'\<rparr>" "host_ok (hw s')" "cells (nfc (bus (hw s'))) = cells (nfc (bus (hw ?s1)))"
    using 2(1) by (cases s'; cases s; simp add: quiet_def chip_cmdfunc ccells_def)+
  have s1: "hw ?s1 = run NAND_CMD_PAGEPROG (- 1) (- 1) (hw s)" by (simp add: chip_cmdfunc)
  from 1(3) [folded s1] obtain k where k: "\<forall>i. vital_byte i \<longrightarrow>
        cells (nfc (bus (hw ?s1))) p i = cells (nfc (bus (hw s))) p i AND (r i OR k i)"
      "\<not> failed (nfc (bus (hw ?s1))) \<longrightarrow> k = (\<lambda>_. 0)"
    by (elim exE conjE) (rule that)
  show "s' = s\<lparr>hw := hw s'\<rparr> \<and> host_ok (hw s') \<and> (\<forall>q. q \<noteq> p \<longrightarrow> ccells (hw s') q = ccells (hw s) q) \<and>
      (\<exists>k. (\<forall>i. vital dc i \<longrightarrow> ccells (hw s') p i = ccells (hw s) p i AND (r i OR k i)) \<and>
           (st AND NAND_STATUS_FAIL = 0 \<longrightarrow> k = (\<lambda>_. 0)))"
  proof (intro conjI)
    show "\<forall>q. q \<noteq> p \<longrightarrow> ccells (hw s') q = ccells (hw s) q" using 1(2) 3(3) by (simp add: ccells_def chip_cmdfunc)
    show "\<exists>k. (\<forall>i. vital dc i \<longrightarrow> ccells (hw s') p i = ccells (hw s) p i AND (r i OR k i)) \<and>
           (st AND NAND_STATUS_FAIL = 0 \<longrightarrow> k = (\<lambda>_. 0))"
      by (intro exI [of _ k]) (use k 2(2) 3(3) in \<open>simp add: ccells_def chip_numbers(3)\<close>)
  qed (rule 3)+
next
  fix s s' :: "'c hinfc_host nand_st" and p st :: int
  assume a: "host_ok (hw s)" "0 \<le> p" "p \<le> pagemask dc" "chip_options s AND NAND_IS_AND = 0"
    "waitfunc dc (cmdfunc dc NAND_CMD_ERASE2 (- 1) (- 1) (cmdfunc dc NAND_CMD_ERASE1 (- 1) p s)) = (st, s')"
  let ?s1 = "cmdfunc dc NAND_CMD_ERASE2 (- 1) (- 1) (cmdfunc dc NAND_CMD_ERASE1 (- 1) p s)"
  note 1 = run_erase [OF a(1,2) chip_numbers(4) [OF a(2,3)]]
  have "host_ok (hw ?s1)" "chip_options ?s1 AND NAND_IS_AND = 0" using 1(1) a(4) by (simp_all add: chip_cmdfunc)
  from wait_result [OF this] a(5) have 2: "quiet host_ok ccells ?s1 s'" "st AND NAND_STATUS_FAIL = 0 \<longrightarrow> \<not> failed (nfc (bus (hw ?s1)))"
    by simp_all
  have 3: "s' = s\<lparr>hw := hw s'\<rparr>" "host_ok (hw s')" "cells (nfc (bus (hw s'))) = cells (nfc (bus (hw ?s1)))"
    using 2(1) by (cases s'; cases s; simp add: quiet_def chip_cmdfunc ccells_def)+
  show "s' = s\<lparr>hw := hw s'\<rparr> \<and> host_ok (hw s') \<and>
      (\<forall>q. q div block_pages dc \<noteq> p div block_pages dc \<longrightarrow> ccells (hw s') q = ccells (hw s) q) \<and>
      (st AND NAND_STATUS_FAIL = 0 \<longrightarrow>
        (\<forall>q i. q div block_pages dc = p div block_pages dc \<longrightarrow> i < page_bytes dc \<longrightarrow> ccells (hw s') q i = 0xff))"
    using 3 2(2) 1(2,3) by (simp add: ccells_def chip_cmdfunc chip_numbers(1,2))
qed

end
