(* ===== verification/HinfcStack.thy ===== *)
theory HinfcStack
  imports NandUtilProps EwProps HinfcDriver
begin

text \<open>
  The whole stack: the device that the scan builds over the driver of the controller V610.  The state it works in and
  what is stored in it are told in terms of the model only, and the laws of the layers above are carried over to it.
\<close>

section \<open>The state of the stack\<close>

definition hinfc_flash :: "('c \<Rightarrow> int \<Rightarrow> nat \<Rightarrow> u8) \<Rightarrow> 'c hinfc_host nand_hw \<Rightarrow> 'c hinfc_host nand_st \<Rightarrow> nat \<Rightarrow> u8" where
  "hinfc_flash cells d s a = cells (nfc (bus (hw s))) (int (a div 2 ^ page_shift d)) (a mod 2 ^ page_shift d)"

text \<open>A block is bad by the table in memory or, without one, by the mark in its first page.\<close>

definition hinfc_bad :: "('c \<Rightarrow> int \<Rightarrow> nat \<Rightarrow> u8) \<Rightarrow> 'c hinfc_host nand_hw \<Rightarrow> 'c hinfc_host nand_st \<Rightarrow> nat \<Rightarrow> bool" where
  "hinfc_bad cells d s b \<longleftrightarrow> b < 2 ^ (chip_shift d - phys_erase_shift d) \<and>
     (case chip_bbt s of
        Some t \<Rightarrow> bbt_entry t (2 * b) \<noteq> 0
      | None \<Rightarrow> cells (nfc (bus (hw s))) (int (b * 2 ^ (phys_erase_shift d - page_shift d)))
                  (2 ^ page_shift d + badblockpos d) \<noteq> 0xff)"

definition host_ready :: "('c \<Rightarrow> bool) \<Rightarrow> u32 \<Rightarrow> u32 \<Rightarrow> u32 \<Rightarrow> 'c hinfc_host nand_hw \<Rightarrow> 'c hinfc_host \<Rightarrow> bool" where
  "host_ready up base oob con d h \<longleftrightarrow>
     \<not> stuck h \<and> up (nfc (bus h)) \<and> host_flags h AND 0x50 = 0 \<and> con AND HINFC610_CON_NF_MODE_MASK = 0 \<and>
     NFC_CON h = con \<and> ecctype h \<noteq> NAND_ECC_TYPE_NONE \<and> dma_buffer h = base \<and> dma_oob h = oob \<and> chipselect h = 0 \<and>
     unat (writesize d) \<le> epm h \<and> epm h \<noteq> unat (writesize d) + badblockpos d \<and> epm h + 1 \<noteq> unat (writesize d) + badblockpos d"

definition hinfc_ready :: "('c \<Rightarrow> bool) \<Rightarrow> u32 \<Rightarrow> u32 \<Rightarrow> u32 \<Rightarrow> 'c hinfc_host nand_hw \<Rightarrow> 'c hinfc_host nand_st \<Rightarrow> bool" where
  "hinfc_ready up base oob con d s \<longleftrightarrow> host_ready up base oob con d (hw s) \<and> chip_pagebuf s = - 1 \<and>
     chip_options s AND NAND_BBT_SCANNED \<noteq> 0 \<and> chip_options s AND NAND_NO_AUTOINCR \<noteq> 0 \<and>
     chip_options s AND NAND_USE_FLASH_BBT = 0 \<and> chip_options s AND BBT_AUTO_REFRESH = 0 \<and>
     chip_options s AND NAND_BUSWIDTH_16 = 0 \<and> chip_options s AND NAND_IS_AND = 0 \<and> \<not> chip_scrubbed s \<and>
     (\<forall>t. chip_bbt s = Some t \<longrightarrow> 2 ^ (chip_shift d - phys_erase_shift d) \<le> 4 * length t)"

abbreviation (input) hinfc_mtd :: "scan_mem \<Rightarrow> 'c hinfc_cfg \<Rightarrow> nat \<Rightarrow> 'c hinfc_host nand_hw \<Rightarrow> 'c hinfc_host mtd_info" where
  "hinfc_mtd sm c hz d \<equiv> build_device sm False (hinfc610_chip c hz d)"

section \<open>The stack\<close>

locale hinfc_stack =
  hinfc_device "ctl c" base oob con "unat (writesize d)" "unat (oobsize d)" "badblockpos d"
    "128 * 2 ^ 20 < uint (chipsize d)" "2 ^ (phys_erase_shift d - page_shift d)" "2 ^ (chip_shift d - page_shift d)"
    up reg cells failed busy c hz d
  for c :: "'c hinfc_cfg" and base oob con up reg cells failed busy hz and d :: "'c hinfc_host nand_hw" +
  fixes sm :: scan_mem
    and priv :: "nat set"
  assumes spare_buffers: "{oob_poi d ..< oob_poi d + unat (oobsize d)} \<subseteq> priv" "{sm_mark sm ..< sm_mark sm + 2} \<subseteq> priv"
      "sm_mark sm + 2 \<le> oob_poi d \<or> oob_poi d + unat (oobsize d) \<le> sm_mark sm"

sublocale hinfc_stack \<subseteq> nand_device dc host_ok ccells in_status reading loading sm priv
proof
  have "oob_poi dc = oob_poi d" by (simp add: hinfc610_chip_def hinfc610_nand_init_def Let_def)
  then show "{oob_poi dc ..< oob_poi dc + unat (oobsize dc)} \<subseteq> priv" "{sm_mark sm ..< sm_mark sm + 2} \<subseteq> priv"
      "sm_mark sm + 2 \<le> oob_poi dc \<or> oob_poi dc + unat (oobsize dc) \<le> sm_mark sm"
    using spare_buffers by (simp_all add: chip_same)
qed

text \<open>A controller whose operations never fail, on a board whose clock does not reach the time limit.\<close>

locale hinfc_reliable = hinfc_stack c base oob con up reg cells failed busy hz d sm priv
  for c :: "'c hinfc_cfg" and base oob con up reg cells failed busy hz d sm priv +
  assumes never_failed: "up (nfc b) \<Longrightarrow> \<not> failed (nfc b)"
    and clock_in_time: "up (nfc b) \<Longrightarrow> elapsed (ctl c) b = (t, b') \<Longrightarrow> t \<le> hz * 20 div 1000"

context hinfc_reliable begin

lemma timely: in_time using clock_in_time by (simp add: in_time_def)

lemma wait_works:
  assumes "host_ok (hw s)" "chip_options s AND NAND_IS_AND = 0" "waitfunc dc s = (st, s')"
  shows "st AND NAND_STATUS_FAIL = 0"
  using wait_result [OF assms(1,2)] assms(3) timely never_failed [OF host_okD(1) [OF assms(1)]] by auto

end

sublocale hinfc_reliable \<subseteq> nand_reliable dc host_ok ccells in_status reading loading sm priv
proof
  show program_works
    unfolding program_works_def
  proof (intro allI impI)
    fix s s' :: "'c hinfc_host nand_st" and p i r st
    assume a: "host_ok (hw s)" "loading (hw s) p i r" "chip_options s AND NAND_IS_AND = 0"
      "waitfunc dc (cmdfunc dc NAND_CMD_PAGEPROG (- 1) (- 1) s) = (st, s')"
    show "st AND NAND_STATUS_FAIL = 0"
      by (rule wait_works [OF _ _ a(4)]) (use run_program(1) [OF a(1,2)] a(3) in \<open>simp_all add: chip_cmdfunc\<close>)
  qed
  show erase_works
    unfolding erase_works_def
  proof (intro allI impI)
    fix s s' :: "'c hinfc_host nand_st" and p st
    assume a: "host_ok (hw s)" "0 \<le> p" "p \<le> pagemask dc" "chip_options s AND NAND_IS_AND = 0"
      "waitfunc dc (cmdfunc dc NAND_CMD_ERASE2 (- 1) (- 1) (cmdfunc dc NAND_CMD_ERASE1 (- 1) p s)) = (st, s')"
    show "st AND NAND_STATUS_FAIL = 0"
      by (rule wait_works [OF _ _ a(5)])
         (use run_erase(1) [OF a(1,2) chip_numbers(4) [OF a(2,3)]] a(4) in \<open>simp_all add: chip_cmdfunc\<close>)
  qed
qed

section \<open>In terms of the model\<close>

context hinfc_stack begin

lemma flash_eq: "data_at = hinfc_flash cells d"
  by (intro ext) (simp add: data_at_def hinfc_flash_def ccells_def chip_same)

lemma bad_eq: "bad_block = hinfc_bad cells d"
  by (intro ext) (simp add: bad_block_def hinfc_bad_def mark_at_def ccells_def chip_same split: option.split)

lemma inv_eq: "drv_inv = hinfc_ready up base oob con d"
  by (intro ext) (simp add: drv_inv_def hinfc_ready_def host_ok_def host_ready_def chip_same conj_assoc)

lemma host_eq: "host_ok = host_ready up base oob con d"
  by (intro ext) (simp add: host_ok_def host_ready_def)

lemma cells_eq: "ccells = (\<lambda>h. cells (nfc (bus h)))"
  by (intro ext) (simp add: ccells_def)

lemma driver: "\<exists>in_status reading loading.
    nand_driver (hinfc610_chip c hz d) (host_ready up base oob con d) (\<lambda>h. cells (nfc (bus h))) in_status reading loading"
  using nand_driver_axioms unfolding host_eq cells_eq by blast

lemma device: "mtd_dev (hinfc_mtd sm c hz d) (hinfc_ready up base oob con d) (hinfc_flash cells d) (hinfc_bad cells d) priv"
  using mtd.mtd_dev_axioms unfolding flash_eq bad_eq inv_eq .

end

context hinfc_reliable begin

lemma reliable: "mtd_reliable (hinfc_mtd sm c hz d) (hinfc_ready up base oob con d) (hinfc_flash cells d) (hinfc_bad cells d) priv"
  using mtd.mtd_reliable_axioms unfolding flash_eq bad_eq inv_eq .

end

end
