(* ===== verification/NfcSim.thy ===== *)
theory NfcSim
  imports HinfcStack
begin

text \<open>
  A simulated controller with a small chip (2048 + 64 bytes in a page, 64 pages in a block, 16 blocks) on which the contracts of
  the library hold: it carries out the operations of the register interface at once, but stays busy for a few register reads.
  The instances of the properties are taken on it.
\<close>

record nfc_sim =
  sim_reg :: "nat \<Rightarrow> u32"
  sim_cells :: "int \<Rightarrow> nat \<Rightarrow> u8"
  sim_busy :: nat

definition sim_read :: "nat \<Rightarrow> nfc_sim nfc_bus \<Rightarrow> u32 \<times> nfc_sim nfc_bus" where
  "sim_read r b =
     (let n = sim_busy (nfc b);
          v = (if r = HINFC610_STATUS then (if n = 0 then 1 else 0)
               else if r = HINFC610_DMA_CTRL then (if n = 0 then 0 else 1)
               else sim_reg (nfc b) r)
      in (v, b\<lparr>nfc := (nfc b)\<lparr>sim_busy := n - 1\<rparr>\<rparr>))"

text \<open>A transfer of the page that the address registers tell, to the chip or from it.\<close>

definition sim_transfer :: "bool \<Rightarrow> nfc_sim nfc_bus \<Rightarrow> nfc_sim nfc_bus" where
  "sim_transfer todev b =
     (let p = page_reg (sim_reg (nfc b)); x = sim_cells (nfc b)
      in if todev then b\<lparr>nfc := (nfc b)\<lparr>sim_cells := x(p := \<lambda>i. x p i AND dma_mem b i), sim_busy := 3\<rparr>\<rparr>
         else b\<lparr>dma_mem := \<lambda>i. if i < 2112 then x p i else dma_mem b i, nfc := (nfc b)\<lparr>sim_busy := 3\<rparr>\<rparr>)"

text \<open>An operation of the chip itself.\<close>

definition sim_operate :: "nfc_sim nfc_bus \<Rightarrow> nfc_sim nfc_bus" where
  "sim_operate b =
     (let cmd = sim_reg (nfc b) HINFC610_CMD; x = sim_cells (nfc b);
          blk = int (unat (sim_reg (nfc b) HINFC610_ADDRL)) div 64; c = (nfc b)\<lparr>sim_busy := 3\<rparr>
      in if cmd = 0xd060 then b\<lparr>nfc := c\<lparr>sim_cells := \<lambda>q. if q div 64 = blk then (\<lambda>_. 0xff) else x q\<rparr>\<rparr>
         else if cmd = 0x70 then b\<lparr>io_mem := (io_mem b)(0 := 0xe0), nfc := c\<rparr>
         else b\<lparr>nfc := c\<rparr>)"

definition sim_write :: "nat \<Rightarrow> u32 \<Rightarrow> nfc_sim nfc_bus \<Rightarrow> nfc_sim nfc_bus" where
  "sim_write r v b =
     (let b = b\<lparr>nfc := (nfc b)\<lparr>sim_reg := (sim_reg (nfc b))(r := v)\<rparr>\<rparr>
      in if r = HINFC610_DMA_CTRL then sim_transfer (v AND 2 \<noteq> 0) b
         else if r = HINFC610_OP then sim_operate b
         else b)"

definition sim_ctl :: "nfc_sim nfc_ctl" where
  "sim_ctl = \<lparr>reg_read = sim_read, reg_write = sim_write, elapsed = (\<lambda>b. (0, b))\<rparr>"

definition sim_cfg :: "nfc_sim hinfc_cfg" where
  "sim_cfg = \<lparr>ctl = sim_ctl, read_retry = None, sync = None, max_chip = 0, large_chip = False\<rparr>"

text \<open>The chip, with the layout of its spare bytes.\<close>

definition sim_layout :: ecclayout where
  "sim_layout = \<lparr>oobavail = 30, oobfree = [\<lparr>of_offset = 2, of_length = 30\<rparr>], eccpos = []\<rparr>"

definition sim_chip :: "nfc_sim hinfc_host nand_hw" where
  "sim_chip =
     \<lparr>mtd_size = 0x200000, erasesize = 0x20000, writesize = 2048, oobsize = 64, oobused = 64, mtd_oobavail = 30,
      page_shift = 11, phys_erase_shift = 17, bbt_erase_shift = 17, chip_shift = 21, pagemask = 1023, numchips = 1,
      chipsize = 0x200000, badblockpos = 0, subpagesize = 2048, databuf = 0x800, oob_poi = 0x1000, ecccode = 0, ecccalc = 0,
      ecclayout = sim_layout, ecc_mode = NAND_ECC_NONE, ecc_size = 2048, ecc_bytes = 0, ecc_steps = 1, ecc_total = 0,
      ecc_prepad = 0, ecc_postpad = 0,
      select_chip = \<lambda>_ s. s, cmdfunc = \<lambda>_ _ _ s. s, waitfunc = \<lambda>s. (0, s), wait_ready = \<lambda>s. s,
      read_byte = \<lambda>s. (0, s), read_word = \<lambda>s. (0, s), read_buf = \<lambda>_ _ s. s, write_buf = \<lambda>_ _ s. s, errstat = None,
      ecc_hwctl = \<lambda>_ s. s, ecc_calculate = \<lambda>_ _ s. s, ecc_correct = \<lambda>_ _ _ s. (0, s),
      block_bad_fn = None\<rparr>"

definition sim_mem :: scan_mem where
  "sim_mem = \<lparr>sm_buffers = None, sm_bbt = False, sm_vbuf = None, sm_kbuf = None, sm_mark = 0x1040, sm_fill = 0\<rparr>"

abbreviation sim_priv :: "nat set" where "sim_priv \<equiv> {0x1000 ..< 0x1100}"

abbreviation (input) sim_base :: u32 where "sim_base \<equiv> 0x80000"
abbreviation (input) sim_oob :: u32 where "sim_oob \<equiv> 0x80800"
abbreviation (input) sim_con :: u32 where "sim_con \<equiv> 0x303"
abbreviation (input) sim_up :: "nfc_sim \<Rightarrow> bool" where "sim_up \<equiv> \<lambda>_. True"
abbreviation (input) sim_failed :: "nfc_sim \<Rightarrow> bool" where "sim_failed \<equiv> \<lambda>_. False"

section \<open>The contracts hold\<close>

interpretation sim_nfc: nfc_controller sim_ctl sim_base sim_oob sim_con 2048 64 0 False 64 1024
  sim_up sim_reg sim_cells sim_failed sim_busy
proof
  fix b b' :: "nfc_sim nfc_bus" and p :: int
  assume "b' = reg_write sim_ctl HINFC610_DMA_CTRL (if False then 0x73 else 0xF3) b" "page_reg (sim_reg (nfc b)) = p"
  then show "True \<and> dma_mem b' = dma_mem b \<and> io_mem b' = io_mem b \<and> sim_busy (nfc b') < 0xF0000000 \<and>
      (\<forall>q. q \<noteq> p \<longrightarrow> sim_cells (nfc b') q = sim_cells (nfc b) q) \<and>
      (\<exists>k. (\<forall>i. i < 2048 \<or> i = 2048 + 0 \<longrightarrow>
              sim_cells (nfc b') p i = sim_cells (nfc b) p i AND (dma_mem b i OR k i)) \<and>
           (\<not> False \<longrightarrow> k = (\<lambda>_. 0)))"
    by (auto simp: sim_ctl_def sim_write_def sim_transfer_def Let_def page_reg_def)
qed (auto simp: sim_ctl_def sim_write_def sim_read_def sim_transfer_def sim_operate_def Let_def page_reg_def)

lemma sim_sizes:
  "writesize sim_chip = 2048" "oobsize sim_chip = 64" "erasesize sim_chip = 0x20000" "mtd_size sim_chip = 0x200000"
  "page_shift sim_chip = 11" "phys_erase_shift sim_chip = 17" "chip_shift sim_chip = 21" "badblockpos sim_chip = 0"
  "chipsize sim_chip = 0x200000" "oob_poi sim_chip = 0x1000"
  by (simp_all add: sim_chip_def)

interpretation sim: hinfc_reliable sim_cfg sim_base sim_oob sim_con sim_up sim_reg sim_cells sim_failed sim_busy 1000 sim_chip
  sim_mem sim_priv
proof (intro_locales)
  show "nfc_controller (ctl sim_cfg) sim_base sim_oob sim_con (unat (writesize sim_chip)) (unat (oobsize sim_chip))
     (badblockpos sim_chip) (128 * 2 ^ 20 < uint (chipsize sim_chip)) (2 ^ (phys_erase_shift sim_chip - page_shift sim_chip))
     (2 ^ (chip_shift sim_chip - page_shift sim_chip)) sim_up sim_reg sim_cells sim_failed sim_busy"
    using sim_nfc.nfc_controller_axioms by (simp add: sim_sizes sim_cfg_def)
  show "hinfc_device_axioms (ctl sim_cfg) (unat (writesize sim_chip)) (unat (oobsize sim_chip))
     (badblockpos sim_chip) (128 * 2 ^ 20 < uint (chipsize sim_chip)) (2 ^ (phys_erase_shift sim_chip - page_shift sim_chip))
     (2 ^ (chip_shift sim_chip - page_shift sim_chip)) sim_cfg sim_chip"
    by unfold_locales
      (auto simp: sim_chip_def sim_cfg_def sim_layout_def layout_fits_def pow2_size_def mask_eq_exp_minus_1 intro: exI [of _ 11])
  show "hinfc_stack_axioms sim_chip sim_mem sim_priv"
    by unfold_locales (auto simp: sim_sizes sim_mem_def)
  show "hinfc_reliable_axioms sim_cfg sim_up sim_failed 1000"
    by unfold_locales (auto simp: sim_cfg_def sim_ctl_def)
qed

section \<open>A state\<close>

definition sim_host :: "nfc_sim hinfc_host" where
  "sim_host =
     \<lparr>offset = 0, command = 0, chipselect = 0, ecctype = 2, bbm_bitsflap = 0, NFC_CON = sim_con, NFC_CON_ECC_NONE = 0x103,
      addr_cycle = 0, addr_value0 = 0, addr_value1 = 0, cache_addr_value0 = - 1, cache_addr_value1 = - 1, column = 0,
      block_page_mask = 63, dma_oob = sim_oob, dma_buffer = sim_base, pagesize = 2048, host_oobsize = 64, ecc_section = 2,
      max_bitsflap = 0, bbm = 2048, epm = 2078, host_flags = 0, page_status = 0, stuck = False,
      host_rr = \<lparr>rr_data = replicate 128 0, need_rr_data = False, bg_bdie_rr_org_exist = False, bg_bdie_rr_org = replicate 4 0, entry_rr_flag = False,
        bg_cdie_eslc_param = replicate 4 0, cg_adie_eslc_param = replicate 4 0\<rparr>,
      bus = \<lparr>dma_mem = \<lambda>_. 0xff, io_mem = \<lambda>_. 0xff,
             nfc = \<lparr>sim_reg = \<lambda>_. 0, sim_cells = \<lambda>p i. if p = 12 * 64 \<and> i = 2048 then 0 else 0xff, sim_busy = 0\<rparr>\<rparr>\<rparr>"

text \<open>The chip is blank; its block 12 is marked bad.\<close>

definition sim_state :: "nfc_sim hinfc_host nand_st" where
  "sim_state =
     \<lparr>ram = \<lambda>_. 0, chip_bbt = None, chip_options = NAND_NO_AUTOINCR OR NAND_BBT_SCANNED, chip_pagebuf = - 1, chip_scrubbed = False,
      chip_state = FL_READY, chip_ops = oob_ops_zero, bbt_td = None, bbt_md = None, badblock_pattern = None,
      ecc_stats = \<lparr>st_corrected = 0, st_failed = 0, st_badblocks = 0, st_bbtblocks = 0\<rparr>, hw = sim_host\<rparr>"

text \<open>Behind \<open>count\<close>, the variable that is declared after it.\<close>

definition sim_env :: cmd_env where
  "sim_env = \<lparr>ce_named = True, ce_marker = 0x1080, ce_datbuf = None, ce_oobbuf = None, ce_getc = [], ce_poll = (\<lambda>_. []),
     ce_host = \<lparr>hi_hostver = 0x610, hi_pagesize = 2048, hi_ecctype = 2\<rparr>, ce_behind = (\<lambda>w l. l\<lparr>el_curcnt := sint w\<rparr>)\<rparr>"

lemma sim_ready: "hinfc_ready sim_up sim_base sim_oob sim_con sim_chip sim_state"
  by (simp add: hinfc_ready_def host_ready_def sim_state_def sim_host_def sim_sizes)

lemma sim_bad: "hinfc_bad sim_cells sim_chip sim_state b \<longleftrightarrow> b = 12"
  by (auto simp: hinfc_bad_def sim_state_def sim_host_def sim_sizes)


end
