(* ===== verification/StackProps.thy ===== *)
theory StackProps
  imports NfcSim
begin

text \<open>
  What the functions promise over the whole stack, from the commands down to the controller's registers.  The hypothesis
  \<open>hinfc_stack\<close> is the documented behaviour of the controller and the chip's geometry (\<open>hinfc_reliable\<close>: one on which nothing
  fails); it holds for the simulated controller, on which each property is instantiated.
\<close>

text \<open>The sizes of the device that the scan builds.\<close>

lemma mtd_sizes [simp]:
  "erasesize (hinfc_mtd sm c hz d) = erasesize d" "writesize (hinfc_mtd sm c hz d) = writesize d"
  "mtd_size (hinfc_mtd sm c hz d) = mtd_size d" "oobsize (hinfc_mtd sm c hz d) = oobsize d"
  by (simp_all add: build_device_def Let_def hinfc610_chip_def hinfc610_nand_init_def)

text \<open>A good block has room for a block.\<close>

lemma good_room:
  assumes "0 < E" "E dvd off" "\<not> bd (off div E)" "off + E \<le> S"
  shows "E \<le> length (good_addrs E S bd off)"
proof -
  have "good_addrs E S bd off = [off ..< off + E] @ good_addrs E S bd (off + E)"
    by (rule good_addrs_good) (use assms in \<open>auto simp: dvd_eq_mod_eq_0\<close>)
  then show ?thesis by simp
qed

lemmas sim_stack = sim.hinfc_stack_axioms sim_ready

section \<open>The burn-in test\<close>

text \<open>
  C1: The burn-in test comes to an end, whatever fails on the chip, and leaves the boot loader (the first megabyte) and
  the blocks that were bad at its start alone; bad blocks stay bad.  The count must not be negative (a negative one counts down
  for ever), and the store behind \<open>count\<close> must have left a length of the buffer from 0 to two blocks; whatever else of the variables it
  spoils is caught by the checks that follow it.  Reads deliver what the chip holds, by the contract of the controller.
\<close>

theorem burnin_keeps:
  assumes "hinfc_stack c base oob con up reg cells failed busy d sm priv" "hinfc_ready up base oob con d s"
    and "\<And>l. ew_args e (hinfc_mtd sm c hz d) argv = Some l \<Longrightarrow> 0 \<le> el_count l \<and> 0 \<le> sint (el_bufsize l) \<and> sint (el_bufsize l) \<le> 2 * int (unat (erasesize d))"
    and "{ew_waddr ..< ew_waddr + 2 * unat (erasesize d)} \<inter> priv = {}" "{ce_marker e ..< ce_marker e + 8} \<subseteq> priv"
  shows "\<exists>r s'. do_nand_ew e (hinfc_mtd sm c hz d) argv s = Some (r, s') \<and> hinfc_ready up base oob con d s' \<and>
    (\<forall>b. hinfc_bad cells d s b \<longrightarrow> hinfc_bad cells d s' b) \<and>
    (\<forall>x. x < 0x100000 \<or> hinfc_bad cells d s (x div unat (erasesize d)) \<longrightarrow> hinfc_flash cells d s' x = hinfc_flash cells d s x)"
proof -
  note dev = hinfc_stack.device [where hz = hz, OF assms(1)]
  show ?thesis
    using mtd_dev.do_nand_ew_keeps [OF dev assms(2), unfolded mtd_sizes, OF assms(3-5)] by (simp add: mtd_dev.keeps_def [OF dev])
qed

text \<open>The arguments of the instances: with the offset \<open>0x100000\<close>, three rounds, and a number of rounds with a high half.\<close>

lemma sim_numbers:
  "str2ll ''100000'' = (True, 0x100000)" "str2ll ''20000'' = (True, 0x20000)" "str2ll ''3'' = (True, 3)"
  "str2ll ''700000003'' = (True, 0x700000003)"
  by (simp_all add: str2ll_def simple_strtoull_def isxdigit_def digit_value_def isdigit_def islower_def)

lemma sim_args:
  "ew_args sim_env (hinfc_mtd sim_mem sim_cfg 1000 sim_chip) [''nand'', ''ewc'', ''100000'', ''20000'', ''-t'', ''700000003''] =
     Some \<lparr>el_off = 0x100000, el_size = 0x20000, el_count = 3, el_curcnt = 7, el_compare = True, el_print = True, el_shown = - 1,
       el_bufsize = 0x40000, el_ret = 0\<rparr>"
  "ew_args sim_env (hinfc_mtd sim_mem sim_cfg 1000 sim_chip) [''nand'', ''ewc'', ''100000'', ''20000'', ''-t'', ''3''] =
     Some \<lparr>el_off = 0x100000, el_size = 0x20000, el_count = 3, el_curcnt = 0, el_compare = True, el_print = True, el_shown = - 1,
       el_bufsize = 0x40000, el_ret = 0\<rparr>"
  by (simp_all add: ew_args_def arg_off_size_def ew_store_count_def sim_numbers sim_env_def sim_sizes)

lemma sim_marker: "ce_marker sim_env = 0x1080" by (simp add: sim_env_def)

lemma burnin_keeps_witness:
  "\<exists>r s'. do_nand_ew sim_env (hinfc_mtd sim_mem sim_cfg 1000 sim_chip)
      [''nand'', ''ewc'', ''100000'', ''20000'', ''-t'', ''700000003''] sim_state = Some (r, s') \<and>
    hinfc_ready sim_up sim_base sim_oob sim_con sim_chip s' \<and>
    (\<forall>b. hinfc_bad sim_cells sim_chip sim_state b \<longrightarrow> hinfc_bad sim_cells sim_chip s' b) \<and>
    (\<forall>x. x < 0x100000 \<or> hinfc_bad sim_cells sim_chip sim_state (x div unat (erasesize sim_chip)) \<longrightarrow>
       hinfc_flash sim_cells sim_chip s' x = hinfc_flash sim_cells sim_chip sim_state x)"
  by (rule burnin_keeps [OF sim_stack]) (auto simp: sim_args ew_waddr_def sim_sizes sim_marker)

text \<open>
  C2: On a chip on which nothing fails, the test with comparison returns 0 and reports no fault, however many rounds it makes,
  for every range that it accepts and that is inside the chip (the checks let one through whose end wraps around), is not empty
  and has a good block's room at its end (without it the last blocks are reported as failures although nothing fails).  The
  store of the count must leave the comparison switched on, the buffer two blocks long and the status 0.
\<close>

theorem burnin_clean:
  assumes "hinfc_reliable c base oob con up reg cells failed busy hz d sm priv" "hinfc_ready up base oob con d s"
    and "ew_args e (hinfc_mtd sm c hz d) argv = Some l" "el_compare l" "0 \<le> el_count l" "el_ret l = 0"
      "sint (el_bufsize l) = 2 * int (unat (erasesize d))"
    and "ew_range_ok (hinfc_mtd sm c hz d) (el_off l) (el_size l)" "unat (el_off l) + unat (el_size l) \<le> unat (mtd_size d)"
      "el_size l \<noteq> 0"
    and "{ew_waddr ..< ew_waddr + 2 * unat (erasesize d)} \<inter> priv = {}" "{ce_marker e ..< ce_marker e + 8} \<subseteq> priv"
    and "unat (erasesize d) \<le> length (good_addrs (unat (erasesize d)) (unat (mtd_size d)) (hinfc_bad cells d s)
           (unat (el_off l) + unat (el_size l) - unat (erasesize d)))"
  shows "\<exists>ev s'. do_nand_ew e (hinfc_mtd sm c hz d) argv s = Some ((0, ev), s') \<and> faults ev = []"
  using mtd_reliable.do_nand_ew_clean [OF hinfc_reliable.reliable [OF assms(1)] assms(2-6), unfolded mtd_sizes, OF assms(7-13)] .

lemma burnin_clean_witness:
  "\<exists>ev s'. do_nand_ew sim_env (hinfc_mtd sim_mem sim_cfg 1000 sim_chip) [''nand'', ''ewc'', ''100000'', ''20000'', ''-t'', ''3''] sim_state =
      Some ((0, ev), s') \<and> faults ev = []"
proof -
  have r: "ew_range_ok (hinfc_mtd sim_mem sim_cfg 1000 sim_chip) 0x100000 0x20000"
    by (simp add: ew_range_ok_def sim_sizes word_sless_alt)
  have g: "unat (erasesize sim_chip) \<le> length (good_addrs (unat (erasesize sim_chip)) (unat (mtd_size sim_chip)) (hinfc_bad sim_cells sim_chip sim_state)
     (unat (0x100000 :: u64) + unat (0x20000 :: u64) - unat (erasesize sim_chip)))"
    by (rule good_room) (simp_all add: sim_sizes sim_bad)
  show ?thesis
    by (rule burnin_clean [OF sim.hinfc_reliable_axioms sim_ready sim_args(2)])
      (use r g in \<open>auto simp: ew_waddr_def sim_sizes sim_env_def\<close>)
qed

text \<open>
  C8: One block of the test with comparison, when the good addresses from the block on have room for a block: the read back does not fail,
  and a difference is reported exactly when a byte of the chip, at the first of these addresses, is not what the buffer holds.
\<close>

theorem block_compare:
  assumes "hinfc_stack c base oob con up reg cells failed busy d sm priv" "hinfc_ready up base oob con d s"
    and "unat (erasesize d) dvd unat a" "unat a < unat (mtd_size d)" "{ew_waddr ..< ew_waddr + 2 * unat (erasesize d)} \<inter> priv = {}"
    and "good = good_addrs (unat (erasesize d)) (unat (mtd_size d)) (hinfc_bad cells d s) (unat a)" "unat (erasesize d) \<le> length good"
  shows "\<exists>ev s'. ew_block (hinfc_mtd sm c hz d) (ew_waddr + unat (erasesize d)) True a s = Some ((0, ev), s') \<and> hinfc_ready up base oob con d s' \<and>
    (CompareFailed a \<in> set ev \<longleftrightarrow>
      (\<exists>i < unat (erasesize d). hinfc_flash cells d s' (good ! i) \<noteq> ram s (ew_waddr + i))) \<and>
    set ev \<subseteq> {WriteFailed r |r. r < 0} \<union> {CompareFailed a}"
proof -
  note dev = hinfc_stack.device [where hz = hz, OF assms(1)]
  have "unat a mod unat (erasesize d) = 0" using assms(3) by simp
  from mtd_dev.ew_block_compare [OF dev assms(2), unfolded mtd_sizes, OF this assms(4,5)] assms(6,7)
  show ?thesis by auto
qed

lemma block_compare_witness:
  "\<exists>ev s'. ew_block (hinfc_mtd sim_mem sim_cfg 1000 sim_chip) (ew_waddr + unat (erasesize sim_chip)) True 0x100000 sim_state = Some ((0, ev), s') \<and>
    hinfc_ready sim_up sim_base sim_oob sim_con sim_chip s' \<and>
    (CompareFailed 0x100000 \<in> set ev \<longleftrightarrow>
      (\<exists>i < unat (erasesize sim_chip). hinfc_flash sim_cells sim_chip s' (good_addrs 0x20000 0x200000 (\<lambda>b. b = 12) 0x100000 ! i) \<noteq>
         ram sim_state (ew_waddr + i))) \<and>
    set ev \<subseteq> {WriteFailed r |r. r < 0} \<union> {CompareFailed 0x100000}"
proof (rule block_compare [OF sim_stack])
  show "unat (erasesize sim_chip) \<le> length (good_addrs 0x20000 0x200000 (\<lambda>b. b = 12) 0x100000)"
    unfolding sim_sizes by (simp, rule good_room) simp_all
qed (auto simp: sim_sizes sim_bad [abs_def] ew_waddr_def)

text \<open>
  C39: When a block of the range and all blocks behind it are bad, the test reports a failed write there (\<open>-EINVAL\<close>, the refusal of
  \<open>nand_write_skip_bad\<close>) and returns it without comparison, although nothing failed and nothing was touched: over an accepted range
  at the end of a chip whose last block is bad the test always reports a fault.
\<close>

theorem block_no_room:
  assumes "hinfc_stack c base oob con up reg cells failed busy d sm priv" "hinfc_ready up base oob con d s"
    and "unat (erasesize d) dvd unat a" "unat a < unat (mtd_size d)" "{ew_waddr ..< ew_waddr + 2 * unat (erasesize d)} \<inter> priv = {}"
    and "\<And>b. unat a \<le> b * unat (erasesize d) \<Longrightarrow> b * unat (erasesize d) < unat (mtd_size d) \<Longrightarrow> hinfc_bad cells d s b"
  shows "\<exists>s'. ew_block (hinfc_mtd sm c hz d) (ew_waddr + unat (erasesize d)) need_compare a s =
      Some ((if need_compare then 0 else - EINVAL, [WriteFailed (- EINVAL)]), s') \<and>
    hinfc_ready up base oob con d s' \<and> hinfc_flash cells d s' = hinfc_flash cells d s \<and> hinfc_bad cells d s' = hinfc_bad cells d s"
proof -
  note dev = hinfc_stack.device [where hz = hz, OF assms(1)]
  let ?E = "unat (erasesize d)"
  have E: "0 < ?E" using mtd_dev.E_pos [OF dev] by simp
  have "hinfc_bad cells d s (x div ?E)" if "unat a \<le> x" "x < unat (mtd_size d)" for x
  proof (rule assms(6))
    have "unat a div ?E * ?E = unat a" using assms(3) by simp
    then show "unat a \<le> x div ?E * ?E" using mult_le_mono1 [OF div_le_mono [OF that(1), of ?E], of ?E] by linarith
    show "x div ?E * ?E < unat (mtd_size d)" using that(2) div_times_less_eq_dividend [of x ?E] by linarith
  qed
  then have g: "good_addrs ?E (unat (mtd_size d)) (hinfc_bad cells d s) (unat a) = []" by (auto simp: good_addrs_def)
  have "unat a mod ?E = 0" using assms(3) by simp
  from mtd_dev.ew_block_no_room [OF dev assms(2), unfolded mtd_sizes, OF this assms(4,5) g] show ?thesis by auto
qed

definition sim_last_bad :: "nfc_sim hinfc_host nand_st" where
  "sim_last_bad = sim_state\<lparr>chip_bbt := Some [0, 0, 0, 0xC0]\<rparr>"

lemma sim_last_bad:
  "hinfc_ready sim_up sim_base sim_oob sim_con sim_chip sim_last_bad" "hinfc_bad sim_cells sim_chip sim_last_bad 15"
  using sim_ready by (simp_all add: sim_last_bad_def hinfc_ready_def hinfc_bad_def bbt_entry_def sim_sizes)

lemma block_no_room_witness:
  "\<exists>s'. ew_block (hinfc_mtd sim_mem sim_cfg 1000 sim_chip) (ew_waddr + unat (erasesize sim_chip)) True 0x1E0000 sim_last_bad =
      Some ((0, [WriteFailed (- 22)]), s') \<and>
    hinfc_ready sim_up sim_base sim_oob sim_con sim_chip s' \<and> hinfc_flash sim_cells sim_chip s' = hinfc_flash sim_cells sim_chip sim_last_bad \<and>
    hinfc_bad sim_cells sim_chip s' = hinfc_bad sim_cells sim_chip sim_last_bad"
proof -
  have "hinfc_bad sim_cells sim_chip sim_last_bad b" if "unat (0x1E0000 :: u64) \<le> b * unat (erasesize sim_chip)"
      "b * unat (erasesize sim_chip) < unat (mtd_size sim_chip)" for b
  proof -
    have "b = 15" using that by (simp add: sim_sizes)
    then show ?thesis using sim_last_bad(2) by simp
  qed
  from block_no_room [OF sim.hinfc_stack_axioms sim_last_bad(1) _ _ _ this, where a = "0x1E0000" and need_compare = True and hz = 1000]
  show ?thesis by (simp add: sim_sizes ew_waddr_def)
qed

section \<open>Reading and writing around bad blocks\<close>

text \<open>
  C3: What \<open>nand_write_skip_bad\<close> has written to erased good blocks is read back by \<open>nand_read_skip_bad\<close>, byte for byte, through
  the chip's page buffers and the controller's registers.
\<close>

theorem write_read_roundtrip:
  assumes "hinfc_stack c base oob con up reg cells failed busy d sm priv" "hinfc_ready up base oob con d s"
    and "unat off < unat (mtd_size d)" "unat (writesize d) dvd unat off" "unat (writesize d) dvd unat n" "n \<noteq> 0"
      "unat n + unat (erasesize d) \<le> 2 ^ 32"
    and "unat off mod unat (erasesize d) = 0 \<or> \<not> hinfc_bad cells d s (unat off div unat (erasesize d))"
    and "{buf ..< buf + unat n} \<inter> priv = {}" "{buf2 ..< buf2 + unat n} \<inter> priv = {}"
    and "good = good_addrs (unat (erasesize d)) (unat (mtd_size d)) (hinfc_bad cells d s) (unat off)" "unat n \<le> length good"
      "\<And>a. a \<in> set good \<Longrightarrow> hinfc_flash cells d s a = 0xff"
    and "nand_write_skip_bad (hinfc_mtd sm c hz d) off n buf skipempty s = Some (0, s1)"
  shows "\<exists>s2. nand_read_skip_bad (hinfc_mtd sm c hz d) off n buf2 s1 = Some ((0, n), s2) \<and>
      load_bytes (ram s2) buf2 (unat n) = load_bytes (ram s) buf (unat n)"
  by (rule mtd_dev.write_read_skip_bad [OF hinfc_stack.device [where hz = hz, OF assms(1)] assms(2), unfolded mtd_sizes, OF assms(3-10) _ _ assms(14)])
     (use assms(11-13) in auto)

text \<open>
  C6: \<open>nand_write_skip_bad\<close> refuses with \<open>-EINVAL\<close>, the flash untouched, when the good blocks from the offset on do not
  have room; otherwise only the good addresses are programmed, and success means that each has the data (programming only clears bits).
\<close>

theorem write_skip_bad:
  assumes "hinfc_stack c base oob con up reg cells failed busy d sm priv" "hinfc_ready up base oob con d s"
    and "unat off < unat (mtd_size d)" "unat (writesize d) dvd unat off" "unat (writesize d) dvd unat n"
      "unat n + unat (erasesize d) \<le> 2 ^ 32"
    and "unat off mod unat (erasesize d) = 0 \<or> \<not> hinfc_bad cells d s (unat off div unat (erasesize d))"
    and "{buf ..< buf + unat n} \<inter> priv = {}"
    and "good = good_addrs (unat (erasesize d)) (unat (mtd_size d)) (hinfc_bad cells d s) (unat off)"
  shows "\<exists>ret s'. nand_write_skip_bad (hinfc_mtd sm c hz d) off n buf skipempty s = Some (ret, s') \<and>
    hinfc_ready up base oob con d s' \<and> hinfc_bad cells d s' = hinfc_bad cells d s \<and> ret \<le> 0 \<and>
    (length good < unat n \<longrightarrow> ret = - EINVAL \<and> hinfc_flash cells d s' = hinfc_flash cells d s) \<and>
    (\<forall>a. a \<notin> set (take (unat n) good) \<longrightarrow> hinfc_flash cells d s' a = hinfc_flash cells d s a) \<and>
    (ret = 0 \<longrightarrow> (\<forall>i < unat n. hinfc_flash cells d s' (good ! i) = hinfc_flash cells d s (good ! i) AND ram s (buf + i)))"
proof -
  note dev = hinfc_stack.device [where hz = hz, OF assms(1)]
  from mtd_dev.nand_write_skip_bad [OF dev assms(2), unfolded mtd_sizes, OF assms(3-8), where skipempty = skipempty]
  obtain ret s' where w: "nand_write_skip_bad (hinfc_mtd sm c hz d) off n buf skipempty s = Some (ret, s')"
    and r: "if length good < unat n
       then ret = - EINVAL \<and> hinfc_ready up base oob con d s' \<and> hinfc_flash cells d s' = hinfc_flash cells d s \<and>
         hinfc_bad cells d s' = hinfc_bad cells d s \<and> ram_kept priv s s'
       else mtd_dev.wrote_list (hinfc_mtd sm c hz d) (hinfc_ready up base oob con d) (hinfc_flash cells d) (hinfc_bad cells d) priv
         (take (unat n) good) buf ret s s'"
    using assms(9) by blast
  show ?thesis
  proof (intro exI conjI, rule w)
    show "hinfc_ready up base oob con d s'" "hinfc_bad cells d s' = hinfc_bad cells d s" "ret \<le> 0"
      using r by (simp_all add: mtd_dev.wrote_list_def [OF dev] split: if_splits)
  qed (use r in \<open>simp_all add: mtd_dev.wrote_list_def [OF dev] split: if_splits\<close>)
qed


lemma write_skip_bad_witness:
  "\<exists>ret s'. nand_write_skip_bad (hinfc_mtd sim_mem sim_cfg 1000 sim_chip) 0x160000 0x60000 0x900000 False sim_state = Some (ret, s') \<and>
    hinfc_ready sim_up sim_base sim_oob sim_con sim_chip s' \<and> hinfc_bad sim_cells sim_chip s' = hinfc_bad sim_cells sim_chip sim_state \<and>
    ret \<le> 0 \<and>
    (length (good_addrs 0x20000 0x200000 (\<lambda>b. b = 12) 0x160000) < unat (0x60000 :: u32) \<longrightarrow>
       ret = - EINVAL \<and> hinfc_flash sim_cells sim_chip s' = hinfc_flash sim_cells sim_chip sim_state) \<and>
    (\<forall>a. a \<notin> set (take (unat (0x60000 :: u32)) (good_addrs 0x20000 0x200000 (\<lambda>b. b = 12) 0x160000)) \<longrightarrow>
       hinfc_flash sim_cells sim_chip s' a = hinfc_flash sim_cells sim_chip sim_state a) \<and>
    (ret = 0 \<longrightarrow> (\<forall>i < unat (0x60000 :: u32).
       hinfc_flash sim_cells sim_chip s' (good_addrs 0x20000 0x200000 (\<lambda>b. b = 12) 0x160000 ! i) =
       hinfc_flash sim_cells sim_chip sim_state (good_addrs 0x20000 0x200000 (\<lambda>b. b = 12) 0x160000 ! i) AND ram sim_state (0x900000 + i)))"
  by (rule write_skip_bad [OF sim_stack]) (auto simp: sim_sizes sim_bad [abs_def])

lemma sim_blank: "a < 0x200000 \<Longrightarrow> hinfc_flash sim_cells sim_chip sim_state a = 0xff"
proof -
  have "a mod 2048 \<noteq> 2048" using mod_less_divisor [of 2048 a] by simp
  then show ?thesis by (simp add: hinfc_flash_def sim_state_def sim_host_def sim_sizes)
qed

text \<open>On the simulated controller a write that has room succeeds.\<close>

lemma sim_write_ok:
  assumes "unat off < 0x200000" "2048 dvd unat off" "2048 dvd unat n" "unat n + 0x20000 \<le> 2 ^ 32" "unat off mod 0x20000 = 0"
    "{buf ..< buf + unat n} \<inter> sim_priv = {}" "unat n \<le> length (good_addrs 0x20000 0x200000 (\<lambda>b. b = 12) (unat off))"
  shows "\<exists>s1. nand_write_skip_bad (hinfc_mtd sim_mem sim_cfg 1000 sim_chip) off n buf False sim_state = Some (0, s1)"
proof -
  note dev = hinfc_stack.device [where hz = 1000, OF sim.hinfc_stack_axioms]
  from mtd_dev.nand_write_skip_bad [OF dev sim_ready, unfolded mtd_sizes, of off n buf False] assms
  show ?thesis
    by (simp add: sim_sizes sim_bad [abs_def] mtd_dev.wrote_list_def [OF dev])
       (use mtd_reliable.never_fails(2) [OF hinfc_reliable.reliable [OF sim.hinfc_reliable_axioms]] in auto)
qed

lemma write_read_roundtrip_witness:
  "\<exists>s1 s2. nand_write_skip_bad (hinfc_mtd sim_mem sim_cfg 1000 sim_chip) 0x160000 0x20000 0x900000 False sim_state = Some (0, s1) \<and>
    nand_read_skip_bad (hinfc_mtd sim_mem sim_cfg 1000 sim_chip) 0x160000 0x20000 0xa00000 s1 = Some ((0, 0x20000), s2) \<and>
      load_bytes (ram s2) 0xa00000 (unat (0x20000 :: u32)) = load_bytes (ram sim_state) 0x900000 (unat (0x20000 :: u32))"
proof -
  have room: "0x20000 \<le> length (good_addrs 0x20000 0x200000 (\<lambda>b. b = 12) 0x160000)"
    by (rule good_room) simp_all
  obtain s1 where w: "nand_write_skip_bad (hinfc_mtd sim_mem sim_cfg 1000 sim_chip) 0x160000 0x20000 0x900000 False sim_state = Some (0, s1)"
    using sim_write_ok [of "0x160000" "0x20000" "0x900000"] room by auto
  have "\<exists>s2. nand_read_skip_bad (hinfc_mtd sim_mem sim_cfg 1000 sim_chip) 0x160000 0x20000 0xa00000 s1 = Some ((0, 0x20000), s2) \<and>
      load_bytes (ram s2) 0xa00000 (unat (0x20000 :: u32)) = load_bytes (ram sim_state) 0x900000 (unat (0x20000 :: u32))"
    by (rule write_read_roundtrip [OF sim_stack _ _ _ _ _ _ _ _ refl _ _ w])
      (use room in \<open>auto simp: sim_sizes sim_bad [abs_def] set_good_addrs sim_blank\<close>)
  then show ?thesis using w by blast
qed

text \<open>
  C7: \<open>nand_read_skip_bad\<close> reads the good addresses from the offset on, in whole pages, and tells in the length how many
  bytes were read (the comment on the function says: how many remain); the flash is not changed, nor the memory outside the buffer and the
  driver's own.
\<close>

theorem read_skip_bad:
  assumes "hinfc_stack c base oob con up reg cells failed busy d sm priv" "hinfc_ready up base oob con d s"
    and "unat off < unat (mtd_size d)" "unat (writesize d) dvd unat off" "unat (writesize d) \<le> unat n"
      "unat n + unat (erasesize d) \<le> 2 ^ 32"
    and "unat off mod unat (erasesize d) = 0 \<or> \<not> hinfc_bad cells d s (unat off div unat (erasesize d))"
    and "{buf ..< buf + unat n} \<inter> priv = {}"
    and "good = take (unat n - unat n mod unat (writesize d))
           (good_addrs (unat (erasesize d)) (unat (mtd_size d)) (hinfc_bad cells d s) (unat off))"
  shows "\<exists>s'. nand_read_skip_bad (hinfc_mtd sm c hz d) off n buf s = Some ((0, word_of_nat (length good)), s') \<and>
    hinfc_ready up base oob con d s' \<and> hinfc_flash cells d s' = hinfc_flash cells d s \<and>
    (\<forall>x. x \<notin> priv \<longrightarrow>
       ram s' x = (if buf \<le> x \<and> x < buf + length good then hinfc_flash cells d s (good ! (x - buf)) else ram s x))"
proof -
  note dev = hinfc_stack.device [where hz = hz, OF assms(1)]
  from mtd_dev.nand_read_skip_bad [OF dev assms(2), unfolded mtd_sizes, OF assms(3-8)] assms(9)
  show ?thesis by (auto simp: mtd_dev.has_read_def [OF dev] min.commute)
qed

lemma read_skip_bad_witness:
  "\<exists>s'. nand_read_skip_bad (hinfc_mtd sim_mem sim_cfg 1000 sim_chip) 0x160000 5000 0x900000 sim_state =
      Some ((0, word_of_nat (length (take 4096 (good_addrs 0x20000 0x200000 (\<lambda>b. b = 12) 0x160000)))), s') \<and>
    hinfc_ready sim_up sim_base sim_oob sim_con sim_chip s' \<and>
    hinfc_flash sim_cells sim_chip s' = hinfc_flash sim_cells sim_chip sim_state \<and>
    (\<forall>x. x \<notin> sim_priv \<longrightarrow>
       ram s' x = (if 0x900000 \<le> x \<and> x < 0x900000 + length (take 4096 (good_addrs 0x20000 0x200000 (\<lambda>b. b = 12) 0x160000))
         then hinfc_flash sim_cells sim_chip sim_state (take 4096 (good_addrs 0x20000 0x200000 (\<lambda>b. b = 12) 0x160000) ! (x - 0x900000))
         else ram sim_state x))"
  by (rule read_skip_bad [OF sim_stack]) (auto simp: sim_sizes sim_bad [abs_def])

section \<open>Erasing\<close>

text \<open>
  C9: \<open>nand_erase_opts\<close> (without the scrub and clean marker options) touches nothing but the good blocks that start in the range, rounded
  up to a block and cut off at the end of the chip; it returns 0 even when erases have failed.
\<close>

theorem erase_frame:
  assumes "hinfc_stack c base oob con up reg cells failed busy d sm priv" "hinfc_ready up base oob con d s"
    and "{marker ..< marker + 8} \<subseteq> priv" "unat (erasesize d) dvd unat (opt_offset opts)"
      "unat (opt_offset opts) < unat (mtd_size d)" "opt_length opts \<noteq> 0" "unat (opt_length opts) < 2 ^ 62"
      "\<not> opt_scrub opts" "\<not> opt_jffs2 opts"
    and "blks = {b. unat (opt_offset opts) \<le> b * unat (erasesize d) \<and>
           b * unat (erasesize d) < min (unat (mtd_size d)) (unat (opt_offset opts) + max (unat (erasesize d)) (unat (opt_length opts)))}"
  shows "\<exists>s'. nand_erase_opts (hinfc_mtd sm c hz d) opts marker s = Some (0, s') \<and> hinfc_ready up base oob con d s' \<and>
    (\<forall>b. b \<notin> blks \<or> hinfc_bad cells d s b \<longrightarrow> hinfc_bad cells d s' b = hinfc_bad cells d s b) \<and>
    (\<forall>x. x div unat (erasesize d) \<notin> blks \<or> hinfc_bad cells d s (x div unat (erasesize d)) \<longrightarrow>
       hinfc_flash cells d s' x = hinfc_flash cells d s x)"
proof -
  note dev = hinfc_stack.device [where hz = hz, OF assms(1)]
  have r: "mtd_dev.blocks_from (hinfc_mtd sm c hz d) (unat (opt_offset opts))
      (min (unat (mtd_size d)) (unat (opt_offset opts) + max (unat (erasesize d)) (unat (opt_length opts)))) = blks"
    by (simp add: mtd_dev.blocks_from_def [OF dev] assms(10))
  from mtd_dev.nand_erase_opts [OF dev assms(2,3), unfolded mtd_sizes, OF assms(4-9)]
  show ?thesis unfolding r by (auto simp: mtd_dev.erased_blocks_def [OF dev])
qed

lemma erase_frame_witness:
  "\<exists>s'. nand_erase_opts (hinfc_mtd sim_mem sim_cfg 1000 sim_chip)
      \<lparr>opt_length = 0x40000, opt_offset = 0x160000, opt_quiet = False, opt_jffs2 = False, opt_scrub = False\<rparr> 0x1080 sim_state = Some (0, s') \<and>
    hinfc_ready sim_up sim_base sim_oob sim_con sim_chip s' \<and>
    (\<forall>b. b \<notin> {11, 12} \<or> hinfc_bad sim_cells sim_chip sim_state b \<longrightarrow>
       hinfc_bad sim_cells sim_chip s' b = hinfc_bad sim_cells sim_chip sim_state b) \<and>
    (\<forall>x. x div unat (erasesize sim_chip) \<notin> {11, 12} \<or> hinfc_bad sim_cells sim_chip sim_state (x div unat (erasesize sim_chip)) \<longrightarrow>
       hinfc_flash sim_cells sim_chip s' x = hinfc_flash sim_cells sim_chip sim_state x)"
  by (rule erase_frame [OF sim_stack]) (auto simp: sim_sizes)

text \<open>C10: When no erase fails, every good block of the range is blank afterwards, and the bad blocks are as before.\<close>

theorem erase_blank:
  assumes "hinfc_reliable c base oob con up reg cells failed busy hz d sm priv" "hinfc_ready up base oob con d s"
    and "{marker ..< marker + 8} \<subseteq> priv" "unat (erasesize d) dvd unat (opt_offset opts)"
      "unat (opt_offset opts) < unat (mtd_size d)" "opt_length opts \<noteq> 0" "unat (opt_length opts) < 2 ^ 62"
      "\<not> opt_scrub opts" "\<not> opt_jffs2 opts"
    and "unat (opt_offset opts) \<le> x div unat (erasesize d) * unat (erasesize d)"
      "x div unat (erasesize d) * unat (erasesize d) <
         min (unat (mtd_size d)) (unat (opt_offset opts) + max (unat (erasesize d)) (unat (opt_length opts)))"
    and "\<not> hinfc_bad cells d s (x div unat (erasesize d))"
  shows "\<exists>s'. nand_erase_opts (hinfc_mtd sm c hz d) opts marker s = Some (0, s') \<and> hinfc_flash cells d s' x = 0xff \<and>
    hinfc_bad cells d s' = hinfc_bad cells d s"
proof -
  note rel = hinfc_reliable.reliable [OF assms(1)]
  note dev = mtd_reliable.axioms(1) [OF rel]
  from mtd_dev.nand_erase_opts [OF dev assms(2,3), unfolded mtd_sizes, OF assms(4-9)] mtd_reliable.never_fails(1) [OF rel] assms(10-12)
  show ?thesis by (auto simp: mtd_dev.blank_blocks_def [OF dev] mtd_dev.blocks_from_def [OF dev])
qed

lemma erase_blank_witness:
  "\<exists>s'. nand_erase_opts (hinfc_mtd sim_mem sim_cfg 1000 sim_chip)
      \<lparr>opt_length = 0x40000, opt_offset = 0x160000, opt_quiet = False, opt_jffs2 = False, opt_scrub = False\<rparr> 0x1080 sim_state = Some (0, s') \<and>
    hinfc_flash sim_cells sim_chip s' 0x160123 = 0xff \<and> hinfc_bad sim_cells sim_chip s' = hinfc_bad sim_cells sim_chip sim_state"
  by (rule erase_blank [OF sim.hinfc_reliable_axioms sim_ready]) (auto simp: sim_sizes sim_bad)

end
