(* ===== verification/HinfcProps.thy ===== *)
theory HinfcProps
  imports Hinfc610Init
begin

text \<open>
  Properties of the controller's tables, of the choice of an ECC strength, of the counters and of the set-up of the host.
\<close>

section \<open>The choice of an ECC strength\<close>

lemma best_ecc_loop_best:
  "(\<forall>b. best = Some b \<longrightarrow> config_fits m b) \<Longrightarrow>
   (case best_ecc_loop m tab best of
      None \<Rightarrow> best = None \<and> (\<forall>c \<in> set tab. \<not> config_fits m c)
    | Some b \<Rightarrow> config_fits m b \<and> (b \<in> set tab \<or> best = Some b) \<and>
        (\<forall>c \<in> set tab \<union> set_option best. config_fits m c \<longrightarrow> cfg_ecctype c \<le> cfg_ecctype b))"
proof (induction tab arbitrary: best)
  case Nil
  then show ?case by (cases best) simp_all
next
  case (Cons c tab)
  let ?next = "case best of None \<Rightarrow> Some c | Some b \<Rightarrow> if cfg_ecctype b < cfg_ecctype c then Some c else best"
  show ?case
  proof (cases "config_fits m c")
    case True
    then have eq: "best_ecc_loop m (c # tab) best = best_ecc_loop m tab ?next"
      by (simp add: config_fits_def leD)
    have "\<forall>b. ?next = Some b \<longrightarrow> config_fits m b" using Cons.prems True by (cases best) auto
    from Cons.IH [OF this] show ?thesis unfolding eq using True Cons.prems
      by (cases best) (auto split: option.splits if_splits)
  next
    case False
    then have eq: "best_ecc_loop m (c # tab) best = best_ecc_loop m tab best"
      by (auto simp: config_fits_def not_less)
    show ?thesis unfolding eq using Cons.IH [OF Cons.prems] False by (auto split: option.splits)
  qed
qed

text \<open>
  C23: \<open>hinfc610_get_best_ecc\<close> chooses a row of the table that fits the chip's page and spare size, with the strongest ECC of all
  that fit; it hangs only when no row fits.
\<close>

theorem best_ecc_maximal:
  "case hinfc610_get_best_ecc tab m of
     None \<Rightarrow> \<forall>c \<in> set tab. \<not> config_fits m c
   | Some b \<Rightarrow> b \<in> set tab \<and> config_fits m b \<and> (\<forall>c \<in> set tab. config_fits m c \<longrightarrow> cfg_ecctype c \<le> cfg_ecctype b)"
  using best_ecc_loop_best [where best = None and m = m and tab = tab] by (auto simp: hinfc610_get_best_ecc_def split: option.splits)

definition geom :: "u32 \<Rightarrow> u32 \<Rightarrow> mtd_geom" where
  "geom page oob = \<lparr>mtd_size = 0x8000000, erasesize = 64 * page, writesize = page, oobsize = oob, oobused = 0, mtd_oobavail = 0\<rparr>"

lemma geom_simps [simp]: "writesize (geom page oob) = page" "erasesize (geom page oob) = 64 * page" "oobsize (geom page oob) = oob"
  by (simp_all add: geom_def)

lemma page_sizes_of: "nandpage_type2size 2 = 2048" "nandpage_type2size 3 = 4096" "nandpage_type2size 4 = 8192"
  "nandpage_type2size 5 = 16384" "nandpage_type2size 6 = 32768"
  by (simp_all add: nandpage_type2size_def)

lemma best_ecc_2k:
  "hinfc610_get_best_ecc hinfc610_soft_auto_config_table (geom 2048 64) =
     Some \<lparr>pagetype = 2, cfg_ecctype = NAND_ECC_8BIT, cfg_oobsize = 60, cfg_layout = nand_ecc_default\<rparr>"
  by (simp add: hinfc610_get_best_ecc_def hinfc610_soft_auto_config_table_def page_sizes_of)

lemma best_ecc_maximal_witness:
  "\<not> config_fits (geom 2048 64) \<lparr>pagetype = NAND_PAGE_2K, cfg_ecctype = NAND_ECC_24BIT, cfg_oobsize = 116, cfg_layout = nand_ecc_default\<rparr>"
proof -
  have "\<lparr>pagetype = NAND_PAGE_2K, cfg_ecctype = NAND_ECC_24BIT, cfg_oobsize = 116, cfg_layout = nand_ecc_default\<rparr>
      \<in> set hinfc610_soft_auto_config_table"
    by (simp add: hinfc610_soft_auto_config_table_def)
  then show ?thesis using best_ecc_maximal [of hinfc610_soft_auto_config_table "geom 2048 64"] by (force simp: best_ecc_2k)
qed

text \<open>
  The table for 16 KiB pages is not ordered by strength: it asks for 1760 spare bytes for 60 bits but for 1376 for 80 bits, so a
  chip with 1376 spare bytes, which have room for no more than 48 bits by the other rows, is set up with 80 bits.
\<close>

theorem best_ecc_16k_too_strong:
  "map_option cfg_ecctype (hinfc610_get_best_ecc hinfc610_soft_auto_config_table (geom 16384 1376)) = Some NAND_ECC_80BIT \<and>
   (\<exists>c \<in> set hinfc610_soft_auto_config_table. pagetype c = NAND_PAGE_16K \<and> cfg_ecctype c < NAND_ECC_80BIT \<and> 1376 < cfg_oobsize c)"
  by (simp add: hinfc610_get_best_ecc_def hinfc610_soft_auto_config_table_def page_sizes_of)

section \<open>The tables\<close>

definition tables_of :: "int \<Rightarrow> nand_config_table list" where
  "tables_of version =
     (if version = HINFC_VER_620 then hinfc620_hw_auto_config_table @ hinfc620_soft_auto_config_table
      else hinfc610_hw_pin_config_table @ hinfc610_hw_auto_config_table @ hinfc610_soft_auto_config_table)"

lemmas table_defs = hinfc610_hw_pin_config_table_def hinfc610_hw_auto_config_table_def hinfc610_soft_auto_config_table_def
  hinfc620_hw_auto_config_table_def hinfc620_soft_auto_config_table_def

lemmas type_defs = hinfc610_page_type2reg_def hinfc610_page_reg2type_def hinfc610_ecc_type2reg_intf_def hinfc610_ecc_reg2type_intf_def
  hinfc610_ecc_type2reg_def hinfc610_ecc_reg2type_def hinfc620_ecc_type2reg_def hinfc620_ecc_reg2type_def
  page_type2reg610_def ecc_type2reg610_def ecc_type2reg620_def

text \<open>The page and ECC types of a controller's tables.\<close>

lemma table_types:
  assumes "r \<in> set (tables_of v)"
  shows "pagetype r \<in> {2, 3, 4, 5, 6}"
    "cfg_ecctype r \<in> (if v = HINFC_VER_620 then {0, 3, 9, 11, 13, 15, 18} else {0, 3, 7, 8, 9, 10, 12, 14, 16, 17, 19, 20})"
    "32 \<le> cfg_oobsize r" "of_offset (cfg_layout r) = 2" "of_length (cfg_layout r) = 30 \<or> of_length (cfg_layout r) = 14"
proof -
  have "list_all (\<lambda>r. pagetype r \<in> {2, 3, 4, 5, 6} \<and>
      cfg_ecctype r \<in> (if v = HINFC_VER_620 then {0, 3, 9, 11, 13, 15, 18} else {0, 3, 7, 8, 9, 10, 12, 14, 16, 17, 19, 20}) \<and>
      32 \<le> cfg_oobsize r \<and> of_offset (cfg_layout r) = 2 \<and> (of_length (cfg_layout r) = 30 \<or> of_length (cfg_layout r) = 14)) (tables_of v)"
    by (cases "v = HINFC_VER_620") (simp_all add: tables_of_def table_defs nand_ecc_default_def nand_ecc_2k_13bit_def)
  with assms show "pagetype r \<in> {2, 3, 4, 5, 6}"
    "cfg_ecctype r \<in> (if v = HINFC_VER_620 then {0, 3, 9, 11, 13, 15, 18} else {0, 3, 7, 8, 9, 10, 12, 14, 16, 17, 19, 20})"
    "32 \<le> cfg_oobsize r" "of_offset (cfg_layout r) = 2" "of_length (cfg_layout r) = 30 \<or> of_length (cfg_layout r) = 14"
    by (simp_all only: list_all_iff)
qed

lemma page_regs:
  "ty \<in> {2, 3, 4, 5, 6} \<Longrightarrow>
   hinfc610_page_reg2type (hinfc610_page_type2reg (int ty)) = int ty \<and> hinfc610_page_type2reg (int ty) \<in> {1 .. 5}"
  by (elim insertE; simp add: hinfc610_page_type2reg_def hinfc610_page_reg2type_def page_type2reg610_def)

lemma ecc_regs_610:
  "ty \<in> {0, 3, 7, 8, 9, 10, 12, 14, 16, 17, 19, 20} \<Longrightarrow>
   hinfc610_ecc_reg2type (hinfc610_ecc_type2reg ty) = ty \<and> hinfc610_ecc_type2reg ty \<in> {0 .. 11}"
  by (elim insertE; simp add: hinfc610_ecc_type2reg_def hinfc610_ecc_reg2type_def ecc_type2reg610_def)

lemma ecc_regs_620:
  "ty \<in> {0, 3, 9, 11, 13, 15, 18} \<Longrightarrow>
   hinfc620_ecc_reg2type (hinfc620_ecc_type2reg ty) = ty \<and> hinfc620_ecc_type2reg ty \<in> {0 .. 11}"
  by (elim insertE; simp add: hinfc620_ecc_type2reg_def hinfc620_ecc_reg2type_def ecc_type2reg620_def)

lemma type_regs:
  assumes "r \<in> set (tables_of v)"
  shows "hinfc610_page_reg2type (hinfc610_page_type2reg (int (pagetype r))) = int (pagetype r)"
    "hinfc610_page_type2reg (int (pagetype r)) \<in> {1 .. 5}"
    "hinfc610_ecc_reg2type_intf v (hinfc610_ecc_type2reg_intf v (cfg_ecctype r)) = cfg_ecctype r"
    "hinfc610_ecc_type2reg_intf v (cfg_ecctype r) \<in> {0 .. 11}"
proof -
  show "hinfc610_page_reg2type (hinfc610_page_type2reg (int (pagetype r))) = int (pagetype r)"
    "hinfc610_page_type2reg (int (pagetype r)) \<in> {1 .. 5}"
    using page_regs [OF table_types(1) [OF assms]] by blast+
  show "hinfc610_ecc_reg2type_intf v (hinfc610_ecc_type2reg_intf v (cfg_ecctype r)) = cfg_ecctype r"
    "hinfc610_ecc_type2reg_intf v (cfg_ecctype r) \<in> {0 .. 11}"
    using table_types(2) [OF assms] ecc_regs_610 [of "cfg_ecctype r"] ecc_regs_620 [of "cfg_ecctype r"]
    unfolding hinfc610_ecc_reg2type_intf_def hinfc610_ecc_type2reg_intf_def by presburger+
qed

text \<open>Two fields of a register.\<close>

lemma fields:
  fixes x a b :: u32 and i :: nat
  assumes "k + n \<le> j"
  defines "y \<equiv> (x AND NOT (push_bit k (mask n)) AND NOT (push_bit j (mask i))) OR push_bit k (a AND mask n) OR push_bit j (b AND mask i)"
  shows "j < 32 \<Longrightarrow> drop_bit k y AND mask n = a AND mask n" "j + i \<le> 32 \<Longrightarrow> drop_bit j y AND mask i = b AND mask i"
  unfolding y_def by (rule bit_word_eqI; use assms(1) in \<open>auto simp: bit_simps\<close>)+

text \<open>
  C22: The configuration that is written into the control register is the one that the check reads back from it: for every row of the
  controller's tables, whatever else the register holds, \<open>hinfc610_check_config\<close> accepts the register as it was set up.
\<close>

theorem config_register_roundtrip:
  assumes "r \<in> set (tables_of v)" "dev_flags AND 0x10 = 0"
  shows "hinfc610_check_config v (con_fields v r con) flags dev_flags r auto = Some r"
proof -
  define a :: u32 where "a = word_of_int (hinfc610_page_type2reg (int (pagetype r)))"
  define b :: u32 where "b = word_of_int (hinfc610_ecc_type2reg_intf v (cfg_ecctype r))"
  have f: "con_fields v r con = (con AND NOT 0xE AND NOT 0x1E00) OR push_bit 1 (a AND 7) OR push_bit 9 (b AND 15)"
    by (simp add: con_fields_def a_def b_def)
  have m: "(7 :: u32) = mask 3" "(15 :: u32) = mask 4" "(0xE :: u32) = push_bit 1 (mask 3)" "(0x1E00 :: u32) = push_bit 9 (mask 4)"
    by (simp_all add: mask_eq_exp_minus_1)
  have page: "drop_bit 1 (con_fields v r con) AND 7 = a AND 7"
    unfolding f m by (rule fields) simp_all
  have ecc: "drop_bit 9 (con_fields v r con) AND 15 = b AND 15"
    unfolding f m by (rule fields) simp_all
  have low: "uint (word_of_int x AND mask k :: u32) = x" if "0 \<le> x" "x < 2 ^ k" "k < 32" for x k
  proof -
    have "x < 2 ^ 32" using that power_strict_increasing [of k 32 "2 :: int"] by simp
    then show ?thesis using that by (simp flip: take_bit_eq_mask add: uint_word_of_int unsigned_take_bit_eq take_bit_int_eq_self)
  qed
  have "uint (a AND 7) = hinfc610_page_type2reg (int (pagetype r))" "uint (b AND 15) = hinfc610_ecc_type2reg_intf v (cfg_ecctype r)"
    unfolding a_def b_def m using type_regs(2,4) [OF assms(1)] by (intro low; simp)+
  then show ?thesis
    unfolding hinfc610_check_config_def page ecc using type_regs(1,3) [OF assms(1)] assms(2) by simp
qed

lemma config_register_roundtrip_witness:
  "hinfc610_check_config 0x610 (con_fields 0x610 \<lparr>pagetype = NAND_PAGE_8K, cfg_ecctype = NAND_ECC_41BIT, cfg_oobsize = 608, cfg_layout = nand_ecc_default\<rparr> 0xffff)
     0 0 \<lparr>pagetype = NAND_PAGE_8K, cfg_ecctype = NAND_ECC_41BIT, cfg_oobsize = 608, cfg_layout = nand_ecc_default\<rparr> True =
   Some \<lparr>pagetype = NAND_PAGE_8K, cfg_ecctype = NAND_ECC_41BIT, cfg_oobsize = 608, cfg_layout = nand_ecc_default\<rparr>"
  by (rule config_register_roundtrip) (simp_all add: tables_of_def table_defs)


text \<open>
  C30: The set-up of the error counters fails, and the boot loader hangs, exactly for the configurations without ECC and, on the
  controller V620, for the 64-bit ones: the table of the counters has no row for them.
\<close>

theorem ecc_counters_missing:
  assumes "r \<in> set (tables_of v)"
  shows "hinfc610_ecc_info_init (cfg_ecctype r) (nandpage_type2size (pagetype r)) = None \<longleftrightarrow>
    cfg_ecctype r = NAND_ECC_TYPE_NONE \<or> v = HINFC_VER_620 \<and> cfg_ecctype r = NAND_ECC_64BIT"
proof -
  have "list_all (\<lambda>r. hinfc610_ecc_info_init (cfg_ecctype r) (nandpage_type2size (pagetype r)) = None \<longleftrightarrow>
    cfg_ecctype r = NAND_ECC_TYPE_NONE \<or> v = HINFC_VER_620 \<and> cfg_ecctype r = NAND_ECC_64BIT) (tables_of v)"
    by (cases "v = HINFC_VER_620")
      (simp_all add: tables_of_def table_defs page_sizes_of hinfc610_ecc_info_init_def hinfc610_ecc_info_def)
  then show ?thesis using assms by (simp add: list_all_iff)
qed

lemma ecc_counters_missing_witness:
  "hinfc610_ecc_info_init NAND_ECC_64BIT 8192 = None"
proof -
  have "\<lparr>pagetype = NAND_PAGE_8K, cfg_ecctype = NAND_ECC_64BIT, cfg_oobsize = 928, cfg_layout = nand_ecc_default\<rparr> \<in> set (tables_of HINFC_VER_620)"
    by (simp add: tables_of_def table_defs)
  from ecc_counters_missing [OF this] show ?thesis by (simp add: page_sizes_of)
qed

section \<open>Counting\<close>

lemma count_bits_card: "n \<le> LENGTH('a) \<Longrightarrow> count_bits n (b :: 'a::len word) = card {i. i < n \<and> bit b i}"
proof (induction n arbitrary: b)
  case (Suc n)
  have split: "{i. i < Suc n \<and> bit b i} = (if bit b 0 then {0} else {}) \<union> Suc ` {i. i < n \<and> bit (drop_bit 1 b) i}"
  proof (rule set_eqI)
    fix i show "i \<in> {i. i < Suc n \<and> bit b i} \<longleftrightarrow> i \<in> (if bit b 0 then {0} else {}) \<union> Suc ` {i. i < n \<and> bit (drop_bit 1 b) i}"
      by (cases i) (auto simp: bit_drop_bit_eq)
  qed
  have "card {i. i < Suc n \<and> bit b i} = (if bit b 0 then 1 else 0) + card {i. i < n \<and> bit (drop_bit 1 b) i}"
    unfolding split by (subst card_Un_disjoint) (auto simp: card_image)
  moreover have "b AND 1 \<noteq> 0 \<longleftrightarrow> bit b 0" by (simp add: and_one_eq bit_0 odd_iff_mod_2_eq_one even_iff_mod_2_eq_zero)
  ultimately show ?case using Suc.IH [of "drop_bit 1 b"] Suc.prems by simp
qed simp

lemma mask_card: "n \<le> LENGTH('a) \<Longrightarrow> card {i. i < n \<and> bit (mask n :: 'a::len word) i} = n"
proof -
  assume "n \<le> LENGTH('a)"
  then have "{i. i < n \<and> bit (mask n :: 'a word) i} = {..< n}" by (auto simp: bit_mask_iff)
  then show ?thesis by simp
qed

text \<open>\<open>get_8bits\<close> and \<open>get_16bits\<close> count the bits that are set.\<close>

theorem get_bits_count: "get_8bits b = card {i. i < 8 \<and> bit b i} \<and> get_16bits w = card {i. i < 16 \<and> bit w i}"
proof
  have m: "(0xff :: u8) = mask 8" "(0xffff :: u16) = mask 16" by (simp_all add: mask_eq_exp_minus_1)
  show "get_8bits b = card {i. i < 8 \<and> bit b i}"
    using count_bits_card [of 8 b] mask_card [where 'a = 8, of 8] by (auto simp: get_8bits_def m)
  show "get_16bits w = card {i. i < 16 \<and> bit w i}"
    using count_bits_card [of 16 w] mask_card [where 'a = 16, of 16] by (auto simp: get_16bits_def m)
qed

text \<open>The number of corrected bits that is reported is the largest of the counters of the sections.\<close>

theorem max_bitsflags_max: "hinfc610_max_bitsflags ecc = Max (insert 0 (unat ` set ecc))"
proof -
  have "fold (\<lambda>b num. if num < unat b then unat b else num) xs k = Max (insert k (unat ` set xs))" for k and xs :: "u8 list"
  proof (induction xs arbitrary: k)
    case (Cons x xs)
    have "Max (insert k (unat ` set (x # xs))) = Max (insert (max k (unat x)) (unat ` set xs))"
      by (cases "xs = []") (simp_all add: max.assoc [symmetric])
    moreover have "(if k < unat x then unat x else k) = max k (unat x)" by simp
    ultimately show ?case using Cons.IH [of "max k (unat x)"] by (simp only: fold_Cons o_apply)
  qed simp
  from this [of "rev ecc" 0] show ?thesis by (simp add: hinfc610_max_bitsflags_def)
qed

section \<open>Waiting for the controller\<close>

definition nth_read :: "'c hinfc_cfg \<Rightarrow> nat \<Rightarrow> 'c hinfc_host \<Rightarrow> nat \<Rightarrow> u32 \<times> 'c hinfc_host" where
  "nth_read c r h n = ((hinfc_read c r \<circ> snd) ^^ n) (hinfc_read c r h)"

lemma nth_read_Suc: "nth_read c r (snd (hinfc_read c r h)) n = nth_read c r h (Suc n)"
  by (simp add: nth_read_def funpow_swap1)

text \<open>
  C29: The wait loops end: they return after the first read that shows the end, when it is among the first \<open>timeout\<close> ones,
  and otherwise stop the boot loader after \<open>timeout + 1\<close> reads, even when the very last one shows the end.
\<close>

theorem wait_reg_ends:
  "(\<exists>k < timeout. \<not> waiting (fst (nth_read c r h k)) \<and> (\<forall>j < k. waiting (fst (nth_read c r h j))) \<and>
      wait_reg c r waiting timeout h = snd (nth_read c r h k)) \<or>
   (\<forall>j < timeout. waiting (fst (nth_read c r h j))) \<and> wait_reg c r waiting timeout h = PR_BUG (snd (nth_read c r h timeout))"
proof (induction timeout arbitrary: h)
  case 0
  then show ?case by (subst wait_reg.simps) (simp add: nth_read_def split: prod.split)
next
  case (Suc n)
  obtain v h1 where r: "hinfc_read c r h = (v, h1)" by fastforce
  have 0: "nth_read c r h 0 = (v, h1)" by (simp add: nth_read_def r)
  have s: "nth_read c r h1 j = nth_read c r h (Suc j)" for j using nth_read_Suc [of c r h j] by (simp add: r)
  show ?case
  proof (cases "waiting v")
    case True
    then have w: "wait_reg c r waiting (Suc n) h = wait_reg c r waiting n h1"
      by (subst wait_reg.simps) (simp add: r)
    have all: "(\<forall>j < Suc k. waiting (fst (nth_read c r h j))) \<longleftrightarrow> (\<forall>j < k. waiting (fst (nth_read c r h1 j)))" for k
      using True by (auto simp: s 0 less_Suc_eq_0_disj)
    from Suc.IH [of h1] show ?thesis
    proof (elim disjE exE conjE)
      fix k assume k: "k < n" "\<not> waiting (fst (nth_read c r h1 k))" "\<forall>j < k. waiting (fst (nth_read c r h1 j))"
        "wait_reg c r waiting n h1 = snd (nth_read c r h1 k)"
      then show ?thesis by (intro disjI1 exI [of _ "Suc k"]) (simp add: w all, simp add: s)
    next
      assume "\<forall>j < n. waiting (fst (nth_read c r h1 j))" "wait_reg c r waiting n h1 = PR_BUG (snd (nth_read c r h1 n))"
      then show ?thesis by (intro disjI2) (simp add: w all, simp add: s)
    qed
  next
    case False
    then have "wait_reg c r waiting (Suc n) h = h1" by (subst wait_reg.simps) (simp add: r)
    then show ?thesis using False 0 by (intro disjI1 exI [of _ 0]) simp
  qed
qed

end
