(* ===== verification/InitProps.thy ===== *)
theory InitProps
  imports HinfcProps NfcSim
begin



text \<open>A step that only goes on with the bus.\<close>

definition bus_only :: "('c \<Rightarrow> bool) \<Rightarrow> 'c hinfc_host \<Rightarrow> 'c hinfc_host \<Rightarrow> bool" where
  "bus_only up h h' \<longleftrightarrow> (\<exists>b. h' = h\<lparr>bus := b\<rparr> \<and> (up (nfc (bus h)) \<longrightarrow> up (nfc b)))"

lemma bus_only_refl: "bus_only up h h"
  by (auto simp: bus_only_def intro: exI [of _ "bus h"])







text \<open>The flags of the chip that end up in the host: the randomizer and the synchronous mode.\<close>

lemma and_bit: "x AND 0x10 = 0 \<longleftrightarrow> \<not> bit x 4" "x AND 0x40 = 0 \<longleftrightarrow> \<not> bit x 6" for x :: u32
  using and_exp_eq_0_iff_not_bit [of x 4] and_exp_eq_0_iff_not_bit [of x 6] by simp_all





text \<open>The set-up comes to its end when none of its checks stops it.\<close>

lemma set_up_fields [simp]:
  "host_flags (write_boot_set c n h) = host_flags h" "ecctype (write_boot_set c n h) = ecctype h"
  "pagesize (write_boot_set c n h) = pagesize h"
  "host_flags (hinfc610_enable_ecc_randomizer c en rnd h) = host_flags h"
  "ecctype (hinfc610_enable_ecc_randomizer c en rnd h) = ecctype h"
  "pagesize (hinfc610_enable_ecc_randomizer c en rnd h) = pagesize h"
  by (simp_all add: write_boot_set_def hinfc_read_def hinfc_write_def hinfc610_enable_ecc_randomizer_def Let_def split: prod.split)



text \<open>The wait for the controller, on the simulated one.\<close>

lemma wait_reg_ends_witness:
  "wait_reg sim_cfg HINFC610_STATUS (\<lambda>v. v AND 0x1 = 0) 5 sim_host = snd (nth_read sim_cfg HINFC610_STATUS sim_host 0)"
proof -
  have "fst (nth_read sim_cfg HINFC610_STATUS sim_host 0) = 1"
    by (simp add: nth_read_def hinfc_read_def sim_cfg_def sim_ctl_def sim_read_def sim_host_def)
  moreover have "k = 0" if "\<forall>j < k. fst (nth_read sim_cfg HINFC610_STATUS sim_host j) AND 0x1 = 0" for k
    using that calculation by (cases k) auto
  ultimately show ?thesis
    using wait_reg_ends [of 5 "\<lambda>v. v AND 0x1 = 0" sim_cfg HINFC610_STATUS sim_host] by fastforce
qed

end
