(* ===== verification/DeviceProps.thy ===== *)
theory DeviceProps
  imports StackProps
begin

text \<open>
  The refinements of the stack as properties, bad blocks, and the listing of them by \<open>nand bad\<close>.
\<close>

section \<open>The refinements\<close>

text \<open>
  C4: The functions that the driver puts into \<open>struct nand_chip\<close> fulfil the contract of a driver: over the registers of any controller
  with the documented behaviour, commands select, read, program and erase the page that they are given.
\<close>

theorem driver_refines:
  assumes "hinfc_stack c base oob con up reg cells failed busy d sm priv"
  shows "\<exists>in_status reading loading.
    nand_driver (hinfc610_chip c hz d) (host_ready up base oob con d) (\<lambda>h. cells (nfc (bus h))) in_status reading loading"
  by (rule hinfc_stack.driver [OF assms])

lemma driver_refines_witness:
  "\<exists>in_status reading loading.
    nand_driver (hinfc610_chip sim_cfg 1000 sim_chip) (host_ready sim_up sim_base sim_oob sim_con sim_chip)
      (\<lambda>h. sim_cells (nfc (bus h))) in_status reading loading"
  by (rule driver_refines [OF sim.hinfc_stack_axioms])

text \<open>
  C5: The device that \<open>nand_scan_tail\<close> builds over the driver implements the abstract device: its flash is a function from addresses to
  bytes, reads leave it alone, writes clear bits in their range only, an erase blanks a block that is not bad.
\<close>

theorem device_refines:
  assumes "hinfc_stack c base oob con up reg cells failed busy d sm priv"
  shows "mtd_dev (build_device sm False (hinfc610_chip c hz d))
    (hinfc_ready up base oob con d) (hinfc_flash cells d) (hinfc_bad cells d) priv"
  by (rule hinfc_stack.device [OF assms])

lemma device_refines_witness:
  "mtd_dev (build_device sim_mem False (hinfc610_chip sim_cfg 1000 sim_chip))
    (hinfc_ready sim_up sim_base sim_oob sim_con sim_chip) (hinfc_flash sim_cells sim_chip) (hinfc_bad sim_cells sim_chip) sim_priv"
  by (rule device_refines [OF sim.hinfc_stack_axioms])

section \<open>Bad blocks\<close>

text \<open>
  C19: A block that has been marked bad is found bad: when the mark could be written, \<open>nand_block_isbad\<close> of any of the following
  states with the same blocks gives a positive answer; the marking touches no other block.
\<close>

theorem markbad_isbad:
  assumes "hinfc_stack c base oob con up reg cells failed busy d sm priv" "hinfc_ready up base oob con d s"
    and "unat (erasesize d) dvd unat a" "a < mtd_size d"
  shows "\<exists>markbad ret s'. mtd_block_markbad (hinfc_mtd sm c hz d) = Some markbad \<and> markbad a s = Some (ret, s') \<and>
    hinfc_ready up base oob con d s' \<and> ret \<le> 0 \<and>
    (\<forall>x. x div unat (erasesize d) \<noteq> unat a div unat (erasesize d) \<longrightarrow> hinfc_flash cells d s' x = hinfc_flash cells d s x) \<and>
    (\<forall>b. b \<noteq> unat a div unat (erasesize d) \<longrightarrow> hinfc_bad cells d s' b = hinfc_bad cells d s b) \<and>
    (ret = 0 \<longrightarrow> (\<exists>r s''. nand_block_isbad (hinfc_mtd sm c hz d) a s' = Some (r, s'') \<and> 0 < r))"
proof -
  note dev = hinfc_stack.device [where hz = hz, OF assms(1)]
  from mtd_dev.markbad_law [OF dev assms(2), unfolded mtd_sizes, OF assms(3,4)] obtain f ret s' where
    m: "mtd_block_markbad (hinfc_mtd sm c hz d) = Some f" "f a s = Some (ret, s')" "hinfc_ready up base oob con d s'" "ret \<le> 0"
      "\<forall>b. b \<noteq> unat a div unat (erasesize d) \<longrightarrow> hinfc_bad cells d s' b = hinfc_bad cells d s b"
      "\<forall>x. x div unat (erasesize d) \<noteq> unat a div unat (erasesize d) \<longrightarrow> hinfc_flash cells d s' x = hinfc_flash cells d s x"
      "ret = 0 \<longrightarrow> hinfc_bad cells d s' (unat a div unat (erasesize d))"
    by blast
  from mtd_dev.isbad_law [OF dev m(3), unfolded mtd_sizes, OF assms(3,4)] obtain r s'' where
    "mtd_block_isbad (hinfc_mtd sm c hz d) a s' = Some (r, s'')" "0 \<le> r"
    "r \<noteq> 0 \<longleftrightarrow> hinfc_bad cells d s' (unat a div unat (erasesize d))" by blast
  then have "ret = 0 \<longrightarrow> (\<exists>r s''. nand_block_isbad (hinfc_mtd sm c hz d) a s' = Some (r, s'') \<and> 0 < r)"
    using m(7) by (auto simp: nand_block_isbad_def)
  then show ?thesis using m by blast
qed

lemma markbad_isbad_witness:
  "\<exists>markbad ret s'. mtd_block_markbad (hinfc_mtd sim_mem sim_cfg 1000 sim_chip) = Some markbad \<and> markbad 0x60000 sim_state = Some (ret, s') \<and>
    hinfc_ready sim_up sim_base sim_oob sim_con sim_chip s' \<and> ret \<le> 0 \<and>
    (\<forall>x. x div unat (erasesize sim_chip) \<noteq> unat (0x60000 :: u64) div unat (erasesize sim_chip) \<longrightarrow>
       hinfc_flash sim_cells sim_chip s' x = hinfc_flash sim_cells sim_chip sim_state x) \<and>
    (\<forall>b. b \<noteq> unat (0x60000 :: u64) div unat (erasesize sim_chip) \<longrightarrow>
       hinfc_bad sim_cells sim_chip s' b = hinfc_bad sim_cells sim_chip sim_state b) \<and>
    (ret = 0 \<longrightarrow> (\<exists>r s''. nand_block_isbad (hinfc_mtd sim_mem sim_cfg 1000 sim_chip) 0x60000 s' = Some (r, s'') \<and> 0 < r))"
  by (rule markbad_isbad [OF sim_stack]) (simp_all add: sim_sizes)

context mtd_dev begin

lemma bad_loop_lists:
  assumes "inv s" "E dvd unat off" "unat off \<le> S"
  shows "\<exists>s'. nand_bad_loop m off acc s =
      Some (acc @ map (\<lambda>b. word_of_nat (b * E)) (filter (bad s) [unat off div E ..< S div E]), s') \<and>
    inv s' \<and> flash s' = flash s \<and> bad s' = bad s \<and> ram_kept priv s s'"
  using assms
proof (induction "S - unat off" arbitrary: off acc s rule: less_induct)
  case less
  show ?case
  proof (cases "off < mtd_size m")
    case False
    then have "unat off = S" using less.prems(3) by (simp add: word_less_nat_alt)
    then show ?thesis using False less.prems(1) by (subst nand_bad_loop.simps) simp
  next
    case True
    let ?b = "unat off div E" and ?off = "off + ucast (erasesize m)"
    obtain r s1 where i: "mtd_block_isbad m off s = Some (r, s1)" "0 \<le> r" "r \<noteq> 0 \<longleftrightarrow> bad s ?b" "inv s1" "flash s1 = flash s"
        "bad s1 = bad s" "ram_kept priv s s1"
      using isbad_law [OF less.prems(1,2) True] by blast
    have lt: "unat off < S" using True by (simp add: word_less_nat_alt)
    have le: "unat off + E \<le> S"
      using block_end_le [OF E_pos block_size lt] less.prems(2) by (simp add: dvd_eq_mod_eq_0)
    have off: "unat ?off = unat off + E" using le size_bound by (subst unat_add_u64) auto
    have step: "(unat off + E) div E = Suc ?b" using E_pos by (subst div_add_self2) linarith+
    have div: "unat ?off div E = Suc ?b" "?b < S div E"
      using step div_le_mono [OF le, of E] by (simp only: off, simp only: step)
    have pos: "off = word_of_nat (?b * E)" using less.prems(2) by simp
    have more: "S - unat ?off < S - unat off" "E dvd unat ?off" "unat ?off \<le> S"
      using off le lt E_pos less.prems(2) by simp_all
    let ?acc = "if r \<noteq> 0 then acc @ [off] else acc"
    from less.hyps [OF more(1) i(4) more(2,3), of ?acc] obtain s' where
      l: "nand_bad_loop m ?off ?acc s1 = Some (?acc @ map (\<lambda>b. word_of_nat (b * E)) (filter (bad s) [Suc ?b ..< S div E]), s')"
        "inv s'" "flash s' = flash s1" "bad s' = bad s1" "ram_kept priv s1 s'"
      by (auto simp: div i(6))
    have "?acc @ map (\<lambda>b. word_of_nat (b * E)) (filter (bad s) [Suc ?b ..< S div E]) =
        acc @ map (\<lambda>b. word_of_nat (b * E)) (filter (bad s) [?b ..< S div E])"
      using i(3) pos div(2) by (simp add: upt_conv_Cons)
    then have "nand_bad_loop m off acc s = Some (acc @ map (\<lambda>b. word_of_nat (b * E)) (filter (bad s) [?b ..< S div E]), s')"
      using True i(1) l(1) by (subst nand_bad_loop.simps) (simp add: nand_block_isbad_def)
    then show ?thesis using l(2-5) i(5,6) ram_kept_trans [OF i(7)] by auto
  qed
qed

end

text \<open>
  C20: \<open>nand bad\<close> ends and lists the offsets of exactly the bad blocks, in order, without a change of the flash.
\<close>

theorem nand_bad_lists:
  assumes "hinfc_stack c base oob con up reg cells failed busy d sm priv" "hinfc_ready up base oob con d s"
  shows "\<exists>s'. nand_bad_loop (hinfc_mtd sm c hz d) 0 [] s =
      Some (map (\<lambda>b. word_of_nat (b * unat (erasesize d))) (filter (hinfc_bad cells d s) [0 ..< unat (mtd_size d) div unat (erasesize d)]), s') \<and>
    hinfc_ready up base oob con d s' \<and> hinfc_flash cells d s' = hinfc_flash cells d s"
proof -
  note dev = hinfc_stack.device [where hz = hz, OF assms(1)]
  from mtd_dev.bad_loop_lists [OF dev assms(2), of 0 "[]"] show ?thesis by auto
qed

lemma nand_bad_lists_witness:
  "\<exists>s'. nand_bad_loop (hinfc_mtd sim_mem sim_cfg 1000 sim_chip) 0 [] sim_state = Some ([0x180000], s') \<and>
    hinfc_ready sim_up sim_base sim_oob sim_con sim_chip s' \<and> hinfc_flash sim_cells sim_chip s' = hinfc_flash sim_cells sim_chip sim_state"
proof -
  have "map (\<lambda>b. word_of_nat (b * unat (erasesize sim_chip)))
      (filter (hinfc_bad sim_cells sim_chip sim_state) [0 ..< unat (mtd_size sim_chip) div unat (erasesize sim_chip)]) = [0x180000 :: u64]"
    by (simp add: sim_sizes sim_bad upt_rec)
  then show ?thesis using nand_bad_lists [where hz = 1000, OF sim_stack] by simp
qed

end
