(* ===== verification/NandLogifProps.thy ===== *)
theory NandLogifProps
  imports NandUtilProps NandLogif
begin

text \<open>
  The logical NAND of \<open>common/nand_logif.c\<close> on a device that keeps the contract \<open>mtd_dev\<close>.  The invariant of a handle is
  \<open>cached\<close>: the cache of bad blocks tells the truth as far as it is filled.  The logical device of a partition is the list
  \<open>logical\<close> of the addresses in its good blocks: byte \<open>i\<close> of it is at the \<open>i\<close>-th of them, for reads and for writes.
\<close>

section \<open>The cache of bad blocks\<close>

definition cached_bad :: "bbt_cache_t \<Rightarrow> nat \<Rightarrow> bool" where
  "cached_bad c k \<longleftrightarrow> bit (bc_bbt c ! (k div 8)) (k mod 8)"

lemma bbt_pos_block:
  assumes "unat off = k * 2 ^ bc_shift c" "k < 2 ^ 32"
  shows "BBT_POS c off = (k div 8, push_bit (k mod 8) 1)"
proof -
  have "unat (drop_bit (bc_shift c) off) = k"
    using unsigned_less [of off, where 'a = nat] assms(1)
    by (subst unsigned_drop_bit_eq) (simp add: take_bit_nat_eq_self drop_bit_eq_div)
  then have "unat (ucast (drop_bit (bc_shift c) off) :: u32) = k"
    using assms(2) by (simp add: unsigned_ucast_eq take_bit_nat_eq_self)
  then show ?thesis by (simp add: BBT_POS_def)
qed

lemma cache_get_block:
  "unat off = k * 2 ^ bc_shift c \<Longrightarrow> k < 2 ^ 32 \<Longrightarrow> cache_get c off = cached_bad c k"
  by (simp add: cache_get_def bbt_pos_block cached_bad_def bit_iff_and_push_bit_not_eq_0)

lemma cache_set_block:
  assumes "unat off = k * 2 ^ bc_shift c" "k < 2 ^ 32" "k div 8 < length (bc_bbt c)"
  shows "cached_bad (cache_set c off) j \<longleftrightarrow> j = k \<or> cached_bad c j"
    and "length (bc_bbt (cache_set c off)) = length (bc_bbt c)" "bc_length (cache_set c off) = bc_length c"
    and "bc_shift (cache_set c off) = bc_shift c"
proof -
  have eq: "cache_set c off = c\<lparr>bc_bbt := (bc_bbt c)[k div 8 := bc_bbt c ! (k div 8) OR push_bit (k mod 8) 1]\<rparr>"
    by (simp add: cache_set_def bbt_pos_block [OF assms(1,2)])
  have "j = k \<longleftrightarrow> j div 8 = k div 8 \<and> j mod 8 = k mod 8" by (metis div_mult_mod_eq)
  then show "cached_bad (cache_set c off) j \<longleftrightarrow> j = k \<or> cached_bad c j"
    using assms(3) by (auto simp: eq cached_bad_def bit_simps nth_list_update)
qed (simp_all add: cache_set_def bbt_pos_block [OF assms(1,2)])

lemma erase_shift_loop: "k < 32 \<Longrightarrow> erase_shift_loop (2 ^ k) sh = Some (sh + k)"
proof (induction k arbitrary: sh)
  case 0
  then show ?case by (subst erase_shift_loop.simps) simp
next
  case (Suc k)
  have "drop_bit 1 (2 ^ Suc k :: u32) = 2 ^ k"
    using Suc.prems by (intro bit_word_eqI) (auto simp: bit_simps)
  moreover have "(2 ^ Suc k :: u32) AND 1 = 0" by (rule bit_word_eqI) (auto simp: bit_simps)
  ultimately show ?case using Suc by (subst erase_shift_loop.simps) simp
qed

lemma good_addrs_ext:
  "a \<le> b \<Longrightarrow> b \<le> c \<Longrightarrow> good_addrs E c bd a = good_addrs E b bd a @ good_addrs E c bd b"
  using good_addrs_split [of a b c E bd] by (simp add: good_addrs_def)

lemma good_addrs_block:
  assumes "0 < E" "E dvd y"
  shows "good_addrs E (y + E) bd y = (if bd (y div E) then [] else [y ..< y + E])"
  using good_addrs_bad [OF assms(1), of bd y "y + E"] good_addrs_good [OF assms(1), of bd y E "y + E"] assms(2)
  by (simp add: dvd_eq_mod_eq_0)

context mtd_dev begin

abbreviation (input) "ptn nl \<equiv> unat (nl_address nl)"
abbreviation (input) "ptn_len nl \<equiv> unat (nl_length nl)"

definition partition :: "nand_logic_t \<Rightarrow> bool" where
  "partition nl \<longleftrightarrow> nl_erasesize nl = ucast (erasesize m) \<and> E = 2 ^ bc_shift (nl_cache nl) \<and>
     E dvd ptn nl \<and> E dvd ptn_len nl \<and> ptn nl + ptn_len nl \<le> S \<and> ptn_len nl div E < 2 ^ 32 \<and>
     ptn_len nl div E \<le> 8 * length (bc_bbt (nl_cache nl))"

definition cached :: "nand_logic_t \<Rightarrow> 'h nand_st \<Rightarrow> bool" where
  "cached nl s \<longleftrightarrow> partition nl \<and> inv s \<and>
     E dvd unat (bc_length (nl_cache nl)) \<and> unat (bc_length (nl_cache nl)) \<le> ptn_len nl \<and>
     (\<forall>k < ptn_len nl div E.
        (cached_bad (nl_cache nl) k \<longrightarrow> bad s (ptn nl div E + k)) \<and>
        (k * E < unat (bc_length (nl_cache nl)) \<and> bad s (ptn nl div E + k) \<longrightarrow> cached_bad (nl_cache nl) k))"

text \<open>The handle is the same but for its cache, and the device has not changed.\<close>

definition looked :: "nand_logic_t \<Rightarrow> 'h nand_st \<Rightarrow> nand_logic_t \<Rightarrow> 'h nand_st \<Rightarrow> bool" where
  "looked nl s nl' s' \<longleftrightarrow> cached nl' s' \<and> flash s' = flash s \<and> bad s' = bad s \<and> ram_kept priv s s' \<and>
     nl_address nl' = nl_address nl \<and> nl_length nl' = nl_length nl \<and> nl_erasesize nl' = nl_erasesize nl"

lemma cachedD: "cached nl s \<Longrightarrow> partition nl" "cached nl s \<Longrightarrow> inv s"
  by (simp_all add: cached_def)

lemma lookedD:
  assumes "looked nl s nl' s'"
  shows "cached nl' s'" "inv s'" "flash s' = flash s" "bad s' = bad s" "ram_kept priv s s'"
    "nl_address nl' = nl_address nl" "nl_length nl' = nl_length nl" "nl_erasesize nl' = nl_erasesize nl"
  using assms cachedD(2) by (auto simp: looked_def)

lemma looked_refl: "cached nl s \<Longrightarrow> looked nl s nl s"
  by (simp add: looked_def)

lemma looked_trans: "looked nl s nl1 s1 \<Longrightarrow> looked nl1 s1 nl2 s2 \<Longrightarrow> looked nl s nl2 s2"
  using ram_kept_trans by (auto simp: looked_def)

lemma partitionD:
  assumes "partition nl"
  shows "nl_erasesize nl = ucast (erasesize m)" "E = 2 ^ bc_shift (nl_cache nl)" "E dvd ptn nl" "E dvd ptn_len nl"
    "ptn nl + ptn_len nl \<le> S" "ptn_len nl div E < 2 ^ 32" "ptn_len nl div E \<le> 8 * length (bc_bbt (nl_cache nl))"
  using assms unfolding partition_def by blast+

lemma partition_cong:
  assumes "nl_address nl' = nl_address nl" "nl_length nl' = nl_length nl" "nl_erasesize nl' = nl_erasesize nl"
    "bc_shift (nl_cache nl') = bc_shift (nl_cache nl)" "length (bc_bbt (nl_cache nl')) = length (bc_bbt (nl_cache nl))"
  shows "partition nl' = partition nl"
  by (simp only: partition_def assms)

text \<open>The bit of one more block.\<close>

lemma cache_step:
  assumes "cached nl s" "unat (bc_length (nl_cache nl)) < ptn_len nl"
  defines "c \<equiv> nl_cache nl"
  shows "\<exists>r s1. nand_block_isbad m (bc_length c + nl_address nl) s = Some (r, s1) \<and>
    (let c1 = (if r \<noteq> 0 then cache_set c (bc_length c) else c); c2 = c1\<lparr>bc_length := bc_length c1 + nl_erasesize nl\<rparr>
     in looked nl s (nl\<lparr>nl_cache := c2\<rparr>) s1 \<and> unat (bc_length c2) = unat (bc_length c) + E)"
proof -
  have p: "partition nl" "inv s" "E dvd unat (bc_length c)" using assms(1) by (simp_all add: cached_def c_def)
  note part = partitionD [OF p(1), folded c_def]
  obtain k where k: "unat (bc_length c) = k * E" using p(3) by (metis dvdE mult.commute)
  have kL: "k < ptn_len nl div E"
    using assms(2) k part(4) E_pos by (auto simp: c_def div_less_iff_less_mult elim!: dvdE)
  have k32: "k < 2 ^ 32" using kL part(6) by (rule less_trans)
  have kE: "k * E + E \<le> ptn_len nl"
  proof -
    have "Suc k * E \<le> ptn_len nl div E * E" using kL by (intro mult_le_mono1) simp
    moreover have "ptn_len nl div E * E \<le> ptn_len nl" by (rule div_times_less_eq_dividend)
    ultimately have "Suc k * E \<le> ptn_len nl" by (rule le_trans)
    then show ?thesis by simp
  qed
  have small: "ptn nl + ptn_len nl \<le> S" by (rule part(5))
  have a: "unat (bc_length c + nl_address nl) = ptn nl + k * E"
    using small kE size_bound k by (subst unat_add_small) simp_all
  have "bc_length c + nl_address nl < mtd_size m" using a small kE E_pos by (simp add: word_less_nat_alt)
  moreover have "E dvd unat (bc_length c + nl_address nl)" using a part(3) by simp
  moreover have "(ptn nl + k * E) div E = ptn nl div E + k" using E_pos by simp
  ultimately obtain r s1 where r: "nand_block_isbad m (bc_length c + nl_address nl) s = Some (r, s1)"
      "r \<noteq> 0 \<longleftrightarrow> bad s (ptn nl div E + k)" "inv s1" "flash s1 = flash s" "bad s1 = bad s" "ram_kept priv s s1"
    using isbad_law [OF p(2), of "bc_length c + nl_address nl"] a unfolding nand_block_isbad_def by metis
  define c1 where "c1 = (if r \<noteq> 0 then cache_set c (bc_length c) else c)"
  have shift: "unat (bc_length c) = k * 2 ^ bc_shift c" using k by (simp only: part(2))
  have len: "k div 8 < length (bc_bbt c)" using kL part(7) by simp
  note set = cache_set_block [OF shift k32 len]
  have c1: "cached_bad c1 j \<longleftrightarrow> (j = k \<and> r \<noteq> 0) \<or> cached_bad c j" "length (bc_bbt c1) = length (bc_bbt c)"
      "bc_length c1 = bc_length c" "bc_shift c1 = bc_shift c" for j
    using set by (auto simp: c1_def)
  have e: "nl_erasesize nl = ucast (erasesize m)" by (rule part(1))
  have l: "unat (bc_length c1 + nl_erasesize nl) = k * E + E"
    unfolding e using k kE small size_bound by (subst unat_add_u64) (simp_all add: c1)
  let ?c2 = "c1\<lparr>bc_length := bc_length c1 + nl_erasesize nl\<rparr>"
  have cb: "cached_bad ?c2 j = cached_bad c1 j" for j by (simp add: cached_bad_def)
  have less: "j * E < k * E + E \<longleftrightarrow> j * E < k * E \<or> j = k" for j
  proof -
    have "j * E < Suc k * E \<longleftrightarrow> j < Suc k" "j * E < k * E \<longleftrightarrow> j < k" using E_pos by (simp_all only: mult_less_cancel2 simp_thms)
    then show ?thesis by (simp add: less_Suc_eq add.commute)
  qed
  have old: "(cached_bad c j \<longrightarrow> bad s (ptn nl div E + j)) \<and> (j * E < k * E \<and> bad s (ptn nl div E + j) \<longrightarrow> cached_bad c j)"
    if "j < ptn_len nl div E" for j
    using assms(1) that by (simp add: cached_def c_def [symmetric] k)
  let ?nl = "nl\<lparr>nl_cache := ?c2\<rparr>"
  have "partition ?nl" using p(1) by (subst partition_cong [where nl = nl]) (simp_all add: c1 c_def)
  moreover have "E dvd unat (bc_length ?c2)" "unat (bc_length ?c2) \<le> ptn_len nl" using kE by (simp_all add: l)
  moreover have "(cached_bad ?c2 j \<longrightarrow> bad s1 (ptn nl div E + j)) \<and>
      (j * E < unat (bc_length ?c2) \<and> bad s1 (ptn nl div E + j) \<longrightarrow> cached_bad ?c2 j)" if "j < ptn_len nl div E" for j
  proof -
    have "unat (bc_length ?c2) = k * E + E" by (simp add: l)
    then show ?thesis using old [OF that] r(2) unfolding cb c1(1) r(5) by (simp only: less) blast
  qed
  ultimately have "cached ?nl s1" using r(3) by (simp add: cached_def)
  then have "looked nl s (nl\<lparr>nl_cache := ?c2\<rparr>) s1" using r(4-6) by (simp add: looked_def)
  then show ?thesis using r(1) l k by (auto simp: Let_def c1_def [symmetric] c1(3))
qed

lemma cache_fill:
  assumes "cached nl s" "unat off < ptn_len nl"
  shows "\<exists>nl' s'. cache_fill m off nl s = Some (nl', s') \<and> looked nl s nl' s' \<and> unat off < unat (bc_length (nl_cache nl'))"
  using assms
proof (induction "ptn_len nl - unat (bc_length (nl_cache nl))" arbitrary: nl s rule: less_induct)
  case less
  show ?case
  proof (cases "bc_length (nl_cache nl) \<le> off")
    case False
    then show ?thesis using less.prems
      by (subst cache_fill.simps) (simp add: looked_refl word_less_nat_alt not_le)
  next
    case True
    then have lt: "unat (bc_length (nl_cache nl)) < ptn_len nl" using less.prems(2) by (simp add: word_le_nat_alt)
    from cache_step [OF less.prems(1) lt] obtain r s1 nl1 where
      r: "nand_block_isbad m (bc_length (nl_cache nl) + nl_address nl) s = Some (r, s1)"
      and nl1: "nl1 = nl\<lparr>nl_cache := (if r \<noteq> 0 then cache_set (nl_cache nl) (bc_length (nl_cache nl)) else nl_cache nl)
           \<lparr>bc_length := bc_length (if r \<noteq> 0 then cache_set (nl_cache nl) (bc_length (nl_cache nl)) else nl_cache nl) + nl_erasesize nl\<rparr>\<rparr>"
      and l: "looked nl s nl1 s1" "unat (bc_length (nl_cache nl1)) = unat (bc_length (nl_cache nl)) + E"
      by (auto simp: Let_def)
    have same: "nl_length nl1 = nl_length nl" by (simp add: nl1)
    have dec: "ptn_len nl1 - unat (bc_length (nl_cache nl1)) < ptn_len nl - unat (bc_length (nl_cache nl))"
      using l(2) E_pos lt by (simp add: same)
    have "cached nl1 s1" using l(1) by (simp add: looked_def)
    from less.hyps [OF dec this] less.prems(2) obtain nl' s' where
      f: "cache_fill m off nl1 s1 = Some (nl', s')" "looked nl1 s1 nl' s'" "unat off < unat (bc_length (nl_cache nl'))"
      unfolding same by blast
    have "cache_fill m off nl s = cache_fill m off nl1 s1"
      using True r by (subst cache_fill.simps) (simp add: nl1 Let_def)
    then show ?thesis using f looked_trans [OF l(1) f(2)] by auto
  qed
qed

text \<open>The answer for a block of the partition is the chip's, however much the cache held before.\<close>

lemma bbt_cache_isbad_block:
  assumes "cached nl s" "E dvd unat a" "ptn nl \<le> unat a" "unat a < ptn nl + ptn_len nl"
  shows "\<exists>nl' s'. bbt_cache_isbad_block m a nl s = Some (bad s (unat a div E), nl', s') \<and> looked nl s nl' s'"
proof -
  have off: "unat (a - nl_address nl) = unat a - ptn nl" using assms(3) by (simp add: unat_sub word_le_nat_alt)
  have "unat (a - nl_address nl) < ptn_len nl" using assms(3,4) off by simp
  from cache_fill [OF assms(1) this] obtain nl' s' where
    f: "cache_fill m (a - nl_address nl) nl s = Some (nl', s')" "looked nl s nl' s'"
      "unat (a - nl_address nl) < unat (bc_length (nl_cache nl'))" by blast
  have c': "cached nl' s'" "nl_length nl' = nl_length nl" "nl_address nl' = nl_address nl" "bad s' = bad s"
    using f(2) unfolding looked_def by blast+
  then have "partition nl'" by (simp add: cached_def)
  note pt' = partitionD [OF this, unfolded c'(2,3)]
  obtain k where k: "unat a - ptn nl = k * E" using assms(2) pt'(3) by (metis dvd_diff_nat dvdE mult.commute)
  have "unat a = k * E + ptn nl" using k assms(3) by linarith
  then have blk: "unat a div E = ptn nl div E + k" using E_pos by simp
  have kL: "k < ptn_len nl div E"
  proof -
    have "k * E < ptn_len nl div E * E" using assms(3,4) k pt'(4) by simp
    then show ?thesis by simp
  qed
  have "cache_get (nl_cache nl') (a - nl_address nl) = cached_bad (nl_cache nl') k"
    by (rule cache_get_block) (use off k pt'(2) kL less_trans [OF kL pt'(6)] in simp_all)
  also have "\<dots> = bad s (unat a div E)"
    using c'(1) kL f(3) unfolding cached_def c'(2-4) blk off k by blast
  finally show ?thesis using f by (simp add: bbt_cache_isbad_block_def Let_def)
qed

text \<open>The loop stops at a position that is the start or follows a good block, or at the end of the partition.\<close>

definition stops :: "nat \<Rightarrow> (nat \<Rightarrow> bool) \<Rightarrow> nat \<Rightarrow> nat \<Rightarrow> bool" where
  "stops A bd n i \<longleftrightarrow> (n = 0 \<and> i = 0) \<or> (E \<le> i \<and> \<not> bd ((A + i - E) div E))"

lemma logic_to_phy_loop:
  assumes "cached nl s" "E dvd unat n" "unat a = ptn nl + unat incl" "unat a < ptn nl + ptn_len nl" "E dvd unat incl" "E dvd unat excl"
    "unat excl = length (good_addrs E (unat a) (bad s) (ptn nl))" "unat excl \<le> unat n"
    "unat excl = unat n \<longrightarrow> stops (ptn nl) (bad s) (unat n) (unat incl)"
  shows "\<exists>i e nl' s'. logic_to_phy_loop m n a incl excl nl s = Some ((i, e), nl', s') \<and> looked nl s nl' s' \<and>
    E dvd unat i \<and> unat i \<le> ptn_len nl \<and> unat e = length (good_addrs E (ptn nl + unat i) (bad s) (ptn nl)) \<and> unat e \<le> unat n \<and>
    (unat e < unat n \<longrightarrow> unat i = ptn_len nl) \<and> (unat e = unat n \<longrightarrow> stops (ptn nl) (bad s) (unat n) (unat i))"
  using assms
proof (induction "ptn_len nl - unat incl" arbitrary: nl s a incl excl rule: less_induct)
  case less
  note pt = cachedD(1) [OF less.prems(1)]
  note part = partitionD [OF pt]
  show ?case
  proof (cases "excl < n")
    case False
    then show ?thesis using less.prems
      by (subst logic_to_phy_loop.simps) (auto simp: looked_refl word_less_nat_alt)
  next
    case run: True
    then have lt: "unat excl < unat n" by (simp add: word_less_nat_alt)
    have al: "E dvd unat a" using less.prems(3,5) part(3) by simp
    obtain nl1 s1 where b: "bbt_cache_isbad_block m a nl s = Some (bad s (unat a div E), nl1, s1)" "looked nl s nl1 s1"
      using bbt_cache_isbad_block [OF less.prems(1) al] less.prems(3,4) by auto
    have n1: "nl_address nl1 = nl_address nl" "nl_length nl1 = nl_length nl" "nl_erasesize nl1 = ucast (erasesize m)"
        "bad s1 = bad s" "cached nl1 s1" using b(2) part(1) by (simp_all add: looked_def)
    define excl1 where "excl1 = (if bad s (unat a div E) then excl else excl + ucast (erasesize m))"
    let ?incl = "incl + ucast (erasesize m)" and ?a = "a + ucast (erasesize m)"
    have iL: "unat incl + E \<le> ptn_len nl"
    proof -
      have "unat incl < ptn_len nl" using less.prems(3,4) by simp
      then show ?thesis using block_end_le [OF E_pos part(4), of "unat incl"] less.prems(5) by (simp add: dvd_eq_mod_eq_0)
    qed
    have incl1: "unat ?incl = unat incl + E" using iL part(5) size_bound by (subst unat_add_u64) auto
    have a1: "unat ?a = unat a + E" using iL part(5) size_bound less.prems(3) by (subst unat_add_u64) auto
    have room: "unat excl + E \<le> unat n"
    proof -
      obtain p q where "unat excl = p * E" "unat n = q * E" using less.prems(2,6) by (metis dvdE mult.commute)
      then show ?thesis using lt by (metis Suc_leI add.commute mult_Suc mult_le_mono1 mult_less_cancel2)
    qed
    have small: "unat n < 2 ^ 64" using unsigned_less [of n, where 'a = nat] by simp
    have e1: "unat excl1 = unat excl + (if bad s (unat a div E) then 0 else E)"
      using room small by (auto simp: excl1_def unat_add_u64)
    have "good_addrs E (unat ?a) (bad s) (ptn nl) =
        good_addrs E (unat a) (bad s) (ptn nl) @ (if bad s (unat a div E) then [] else [unat a ..< unat a + E])"
      using good_addrs_ext [of "ptn nl" "unat a" "unat ?a" E "bad s"] good_addrs_block [OF E_pos al, of "bad s"]
        less.prems(3) by (simp add: a1)
    then have len1: "unat excl1 = length (good_addrs E (unat ?a) (bad s) (ptn nl))"
      using less.prems(7) e1 by simp
    have d1: "E dvd unat ?incl" "E dvd unat excl1" "unat excl1 \<le> unat n"
      using less.prems(5,6) incl1 e1 room lt by auto
    have st1: "unat excl1 = unat n \<longrightarrow> stops (ptn nl) (bad s) (unat n) (unat ?incl)"
      using e1 lt less.prems(3) by (auto simp: stops_def incl1)
    have step: "logic_to_phy_loop m n a incl excl nl s =
      (if nl_address nl + nl_length nl \<le> ?a then Some ((?incl, excl1), nl1, s1) else logic_to_phy_loop m n ?a ?incl excl1 nl1 s1)"
      using run b(1) n1 by (subst logic_to_phy_loop.simps) (simp add: excl1_def Let_def)
    have stop: "unat (nl_address nl + nl_length nl) = ptn nl + ptn_len nl"
      using part(5) size_bound by (subst unat_add_small) auto
    show ?thesis
    proof (cases "nl_address nl + nl_length nl \<le> ?a")
      case True
      then have "unat ?incl = ptn_len nl" using iL a1 incl1 stop less.prems(3) by (simp add: word_le_nat_alt)
      moreover have "ptn nl + unat ?incl = unat ?a" using a1 incl1 less.prems(3) by simp
      ultimately show ?thesis using True step b(2) d1 st1 len1 by auto
    next
      case False
      then have in_ptn: "unat ?a < ptn nl + ptn_len nl" using stop by (simp add: word_le_nat_alt)
      have dec: "ptn_len nl - unat ?incl < ptn_len nl - unat incl" using incl1 iL E_pos by simp
      have pos: "unat ?a = ptn nl + unat ?incl" using a1 incl1 less.prems(3) by simp
      note less.hyps [of nl1 ?incl s1 ?a excl1, unfolded n1(1,2,4), OF dec n1(5) less.prems(2) pos in_ptn d1(1,2) len1 d1(3) st1]
      then show ?thesis using step False looked_trans [OF b(2)] unfolding n1(1,2,4) by auto
    qed
  qed
qed

text \<open>The addresses of the logical device: those of the partition's good blocks.\<close>

abbreviation (input) "logical nl s \<equiv> good_addrs E (ptn nl + ptn_len nl) (bad s) (ptn nl)"

lemma logic_to_phylength:
  assumes "cached nl s" "E dvd unat n" "0 < ptn_len nl"
  shows "\<exists>i nl' s'. logic_to_phylength m n nl s = Some ((i, length (logical nl s) < unat n), nl', s') \<and> looked nl s nl' s' \<and>
    E dvd unat i \<and> unat i \<le> ptn_len nl \<and>
    (unat n \<le> length (logical nl s) \<longrightarrow>
       length (good_addrs E (ptn nl + unat i) (bad s) (ptn nl)) = unat n \<and> stops (ptn nl) (bad s) (unat n) (unat i))"
proof -
  have at0: "ptn nl = ptn nl + unat (0 :: u64)" "ptn nl < ptn nl + ptn_len nl" "E dvd unat (0 :: u64)" "E dvd unat (0 :: u64)"
    "unat (0 :: u64) = length (good_addrs E (ptn nl) (bad s) (ptn nl))" "unat (0 :: u64) \<le> unat n"
    "unat (0 :: u64) = unat n \<longrightarrow> stops (ptn nl) (bad s) (unat n) (unat (0 :: u64))"
    using assms(3) by (simp_all add: stops_def)
  obtain i e nl' s' where l: "logic_to_phy_loop m n (nl_address nl) 0 0 nl s = Some ((i, e), nl', s')" "looked nl s nl' s'"
     "E dvd unat i" "unat i \<le> ptn_len nl" "unat e = length (good_addrs E (ptn nl + unat i) (bad s) (ptn nl))" "unat e \<le> unat n"
     "unat e < unat n \<longrightarrow> unat i = ptn_len nl" "unat e = unat n \<longrightarrow> stops (ptn nl) (bad s) (unat n) (unat i)"
    using logic_to_phy_loop [OF assms(1,2) at0] by blast
  have all: "length (logical nl s) = unat e + length (good_addrs E (ptn nl + ptn_len nl) (bad s) (ptn nl + unat i))"
    using good_addrs_ext [of "ptn nl" "ptn nl + unat i" "ptn nl + ptn_len nl" E "bad s"] l(4,5) by simp
  have iff: "e < n \<longleftrightarrow> length (logical nl s) < unat n"
  proof (cases "unat e < unat n")
    case True
    then show ?thesis using all l(7) by (simp add: word_less_nat_alt)
  next
    case False
    then show ?thesis using all l(6) by (simp add: word_less_nat_alt)
  qed
  have run: "logic_to_phylength m n nl s = Some ((i, length (logical nl s) < unat n), nl', s')"
    by (simp add: logic_to_phylength_def l(1) iff)
  have "unat e = unat n" if "unat n \<le> length (logical nl s)"
    using that iff l(6) by (simp add: word_less_nat_alt)
  then show ?thesis using run l(2-5,8) by metis
qed

text \<open>The physical address of a logical one.\<close>

lemma block_round_out:
  assumes "partition nl" "unat off + E < 2 ^ 64"
  shows "unat (BLOCK_ALIGN_ROUND_OUT nl off) = (unat off + (E - 1)) div E * E"
    and "is_aligned_to (nl_erasesize nl) off \<longleftrightarrow> E dvd unat off"
    and "unat (off AND (nl_erasesize nl - 1)) = unat off mod E"
proof -
  note part = partitionD [OF assms(1)]
  have e1: "nl_erasesize nl - 1 = ucast (erasesize m - 1)"
    using erasesize_pow2 unfolding part(1) by (elim pow2_sizeE) (simp add: ucast_pow2_minus_1 ucast_pow2 mask_eq_decr_exp)
  have "off + nl_erasesize nl - 1 = off + ucast (erasesize m - 1)" using e1 by (simp add: algebra_simps)
  moreover have "unat (erasesize m - 1) = E - 1" using E_pos by (simp add: unat_minus_one unat_gt_0 word_neq_0_conv)
  ultimately have s: "unat (off + nl_erasesize nl - 1) = unat off + (E - 1)"
    using assms(2) E_pos by (simp only:) (subst unat_add_u64, simp_all)
  show "unat (BLOCK_ALIGN_ROUND_OUT nl off) = (unat off + (E - 1)) div E * E"
    unfolding BLOCK_ALIGN_ROUND_OUT_def
    using unat_block_start [OF erasesize_pow2, of "off + nl_erasesize nl - 1"] s
    by (simp add: part(1) minus_mod_eq_div_mult)
  show "is_aligned_to (nl_erasesize nl) off \<longleftrightarrow> E dvd unat off"
    unfolding is_aligned_to_def e1 by (rule u64_pow2_offset [OF erasesize_pow2])
  show "unat (off AND (nl_erasesize nl - 1)) = unat off mod E"
    unfolding e1 by (rule unat_block_offset [OF erasesize_pow2])
qed

lemma phy_address:
  assumes "cached nl s" "unat off + E < 2 ^ 64" "E dvd unat i" "unat i \<le> ptn_len nl"
    "length (good_addrs E (ptn nl + unat i) (bad s) (ptn nl)) = (unat off + (E - 1)) div E * E"
    "stops (ptn nl) (bad s) ((unat off + (E - 1)) div E * E) (unat i)"
  defines "p \<equiv> unat (phy_address m nl i off)"
  shows "good_addrs E (ptn nl + ptn_len nl) (bad s) p = drop (unat off) (logical nl s)"
    "ptn nl \<le> p" "p mod E = 0 \<or> \<not> bad s (p div E)" "p mod E = unat off mod E"
proof -
  note pt = cachedD(1) [OF assms(1)]
  note part = partitionD [OF pt]
  note rnd = block_round_out [OF pt assms(2)]
  have iS: "ptn nl + unat i < 2 ^ 62" using assms(4) part(5) size_bound by linarith
  have all: "logical nl s = good_addrs E (ptn nl + unat i) (bad s) (ptn nl) @
      good_addrs E (ptn nl + ptn_len nl) (bad s) (ptn nl + unat i)"
    using assms(4) by (intro good_addrs_ext) simp_all
  show "good_addrs E (ptn nl + ptn_len nl) (bad s) p = drop (unat off) (logical nl s)"
    "ptn nl \<le> p" "p mod E = 0 \<or> \<not> bad s (p div E)" "p mod E = unat off mod E"
  proof (atomize (full), cases "E dvd unat off")
    case True
    then obtain k where k: "unat off = E * k" by blast
    have "(unat off + (E - 1)) div E = k" by (rule div_nat_eqI) (use k E_pos in simp_all)
    then have n: "(unat off + (E - 1)) div E * E = unat off" by (simp add: k)
    have "p = ptn nl + unat i"
      using True rnd(2) iS unfolding p_def by (simp add: phy_address_def unat_add_small)
    moreover have len0: "length (good_addrs E (ptn nl + unat i) (bad s) (ptn nl)) = unat off" using assms(5) n by (rule trans)
    moreover have dvd: "E dvd ptn nl + unat i" using assms(3) part(3) by (rule dvd_add [rotated])
    ultimately show "(good_addrs E (ptn nl + ptn_len nl) (bad s) p = drop (unat off) (logical nl s) \<and>
        ptn nl \<le> p) \<and> (p mod E = 0 \<or> \<not> bad s (p div E)) \<and> p mod E = unat off mod E"
      using len0 dvd by (simp add: all dvd_imp_mod_0 True)
  next
    case False
    let ?r = "unat off mod E"
    have r: "0 < ?r" "?r < E" using False E_pos by (simp_all add: dvd_eq_mod_eq_0)
    have n: "(unat off + (E - 1)) div E * E = unat off - ?r + E"
    proof -
      define q where "q = unat off div E"
      have off: "unat off = E * q + ?r" by (simp add: q_def)
      have "(unat off + (E - 1)) div E = q + 1"
        by (rule div_nat_eqI) (use off r in \<open>simp_all add: distrib_left\<close>)
      then show ?thesis using off by (simp add: distrib_right mult.commute)
    qed
    have st: "E \<le> unat i" "\<not> bad s ((ptn nl + unat i - E) div E)"
    proof -
      have "(unat off + (E - 1)) div E * E \<noteq> 0" unfolding n using E_pos by linarith
      then show "E \<le> unat i" "\<not> bad s ((ptn nl + unat i - E) div E)" using assms(6) by (simp_all only: stops_def simp_thms)
    qed
    let ?b = "ptn nl + (unat i - E)"
    have b: "E dvd ?b" "?b + E = ptn nl + unat i" using assms(3) part(3) st(1) by simp_all
    have "unat (phy_address m nl i off) = ?b + ?r"
    proof -
      have "ucast (erasesize m) \<le> i" using st(1) by (simp add: word_le_nat_alt unat_ucast_u64)
      then have d: "unat (i - ucast (erasesize m)) = unat i - E" by (simp add: unat_sub unat_ucast_u64)
      have "unat (i - ucast (erasesize m) + (off AND (nl_erasesize nl - 1))) = unat i - E + ?r"
        using r st(1) iS by (subst unat_add_small) (simp_all add: d rnd(3))
      then show ?thesis
        using False rnd(2) r st(1) iS by (simp add: phy_address_def unat_add_small)
    qed
    then have p: "p = ?b + ?r" by (simp add: p_def)
    obtain k where k: "?b = E * k" using b(1) by blast
    have pdm: "p div E = k" "p mod E = ?r" "?b div E = k" using r by (simp_all add: p k del: add_diff_assoc)
    have good: "\<not> bad s (?b div E)" using st by simp
    then have goodp: "\<not> bad s (p div E)" unfolding pdm .
    have blkE: "good_addrs E (?b + E) (bad s) ?b = [?b ..< ?b + E]" using good_addrs_block [OF E_pos b(1), of "bad s"] good by simp
    have pre: "good_addrs E (ptn nl + unat i) (bad s) (ptn nl) = good_addrs E ?b (bad s) (ptn nl) @ [?b ..< ?b + E]"
      using good_addrs_ext [of "ptn nl" ?b "?b + E" E "bad s"] blkE b(2) by simp
    have "unat off - ?r = length (good_addrs E ?b (bad s) (ptn nl))"
      using assms(5) n pre by simp
    then have len: "unat off = length (good_addrs E ?b (bad s) (ptn nl)) + ?r"
      using mod_less_eq_dividend [of "unat off" E] by linarith
    have "good_addrs E (ptn nl + ptn_len nl) (bad s) p =
        [p ..< p + (E - ?r)] @ good_addrs E (ptn nl + ptn_len nl) (bad s) (p + (E - ?r))"
    proof (rule good_addrs_good [where bd = "bad s", OF E_pos goodp])
      show "E - ?r \<le> E - p mod E" by (simp only: pdm(2))
      show "p + (E - ?r) \<le> ptn nl + ptn_len nl" using p r b(2) assms(4) by linarith
    qed
    moreover have "p + (E - ?r) = ?b + E" using p r by simp
    moreover have "drop (unat off) (logical nl s) = drop ?r [?b ..< ?b + E] @ good_addrs E (ptn nl + ptn_len nl) (bad s) (?b + E)"
    proof -
      have cut: "drop (length g + ?r) ((g @ blk) @ rest) = drop ?r blk @ rest" if "?r \<le> length blk" for g blk rest :: "nat list"
        using that by simp
      have "drop (unat off) (logical nl s) = drop (length (good_addrs E ?b (bad s) (ptn nl)) + ?r) (logical nl s)"
        by (rule arg_cong [where f = "\<lambda>x. drop x (logical nl s)", OF len])
      also have "\<dots> = drop ?r [?b ..< ?b + E] @ good_addrs E (ptn nl + ptn_len nl) (bad s) (?b + E)"
        unfolding all pre unfolding b(2) [symmetric] by (rule cut) (use r in simp)
      finally show ?thesis .
    qed
    ultimately have "good_addrs E (ptn nl + ptn_len nl) (bad s) p = drop (unat off) (logical nl s)"
      using p by (simp add: drop_upt add.assoc)
    then show "(good_addrs E (ptn nl + ptn_len nl) (bad s) p = drop (unat off) (logical nl s) \<and>
        ptn nl \<le> p) \<and> (p mod E = 0 \<or> \<not> bad s (p div E)) \<and> p mod E = unat off mod E"
      using goodp pdm(2) p by (intro conjI disjI2) simp_all
  qed
qed

lemma cached_same: "cached nl s \<Longrightarrow> inv s' \<Longrightarrow> bad s' = bad s \<Longrightarrow> cached nl s'"
  by (simp add: cached_def)

lemma block_align:
  assumes "partition nl"
  shows "unat (BLOCK_ALIGN nl a) div E = unat a div E" "E dvd unat (BLOCK_ALIGN nl a)"
    "ptn nl \<le> unat a \<Longrightarrow> ptn nl \<le> unat (BLOCK_ALIGN nl a)" "unat (BLOCK_ALIGN nl a) \<le> unat a"
proof -
  have "BLOCK_ALIGN nl a = block_start_of m a" by (simp add: BLOCK_ALIGN_def block_start_of_def partitionD(1) [OF assms])
  then have eq: "unat (BLOCK_ALIGN nl a) = unat a div E * E"
    by (simp add: unat_block_start_of [OF erasesize_pow2] minus_mod_eq_div_mult)
  then show "unat (BLOCK_ALIGN nl a) div E = unat a div E" "E dvd unat (BLOCK_ALIGN nl a)" using E_pos by simp_all
  show "unat (BLOCK_ALIGN nl a) \<le> unat a" unfolding eq by (rule div_times_less_eq_dividend)
  assume "ptn nl \<le> unat a"
  moreover obtain k where "ptn nl = E * k" using partitionD(3) [OF assms] by blast
  ultimately show "ptn nl \<le> unat (BLOCK_ALIGN nl a)"
    unfolding eq using E_pos by (metis div_le_mono mult.commute mult_le_mono2 nonzero_mult_div_cancel_left not_gr_zero)
qed

text \<open>A chunk in a good block of a partition, and the block after a bad one.\<close>

lemma good_chunk_in:
  fixes n :: u32
  assumes "\<not> bd (unat a div E)" "unat a < T" "E dvd T"
  defines "c \<equiv> unat (chunk_size m a n)"
  shows "good_addrs E T bd (unat a) = [unat a ..< unat a + c] @ good_addrs E T bd (unat a + c)"
    and "unat a + c \<le> T" and "c \<le> unat n" and "0 < unat n \<Longrightarrow> 0 < c" and "c < unat n \<Longrightarrow> (unat a + c) mod E = 0"
proof -
  have le: "unat a + (E - unat a mod E) \<le> T" by (rule block_end_le [OF E_pos assms(3,2)])
  have c: "c \<le> E - unat a mod E" by (simp add: c_def chunk)
  show "unat a + c \<le> T" using le c by linarith
  then show "good_addrs E T bd (unat a) = [unat a ..< unat a + c] @ good_addrs E T bd (unat a + c)"
    by (rule good_addrs_good [where bd = bd, OF E_pos assms(1) c])
  show "c \<le> unat n" by (simp add: c_def chunk)
  show "0 < unat n \<Longrightarrow> 0 < c" using E_pos by (simp add: c_def chunk)
  assume "c < unat n"
  then have "c = E - unat a mod E" by (auto simp: c_def chunk min_def split: if_splits)
  then show "(unat a + c) mod E = 0" using block_end [OF E_pos, of "unat a"] by simp
qed

lemma skip_block_in:
  assumes "unat a mod E = 0" "bd (unat a div E)" "unat a < T" "E dvd T"
  shows "unat a + E \<le> T" and "good_addrs E T bd (unat a) = good_addrs E T bd (unat a + E)" and "(unat a + E) mod E = 0"
proof -
  show le: "unat a + E \<le> T" using block_end_le [OF E_pos assms(4,3)] assms(1) by simp
  show "good_addrs E T bd (unat a) = good_addrs E T bd (unat a + E)"
    using good_addrs_bad [where bd = bd, OF E_pos assms(2), of T] assms(1) le by simp
  show "(unat a + E) mod E = 0" using assms(1) by simp
qed

text \<open>What a read of the partition does: \<open>looked\<close> but for the memory that is read into.\<close>

definition logic_has_read :: "nat list \<Rightarrow> nat \<Rightarrow> nand_logic_t \<Rightarrow> 'h nand_st \<Rightarrow> nand_logic_t \<Rightarrow> 'h nand_st \<Rightarrow> bool" where
  "logic_has_read g buf nl s nl' s' \<longleftrightarrow> has_read g buf s s' \<and> cached nl' s' \<and>
     nl_address nl' = nl_address nl \<and> nl_length nl' = nl_length nl \<and> nl_erasesize nl' = nl_erasesize nl"

lemma looked_has_read: "looked nl s nl' s' \<Longrightarrow> logic_has_read [] buf nl s nl' s'"
  by (simp add: logic_has_read_def has_read_Nil lookedD)

lemma logic_has_read_append:
  "logic_has_read g buf nl s nl1 s1 \<Longrightarrow> logic_has_read g' (buf + length g) nl1 s1 nl2 s2 \<Longrightarrow> logic_has_read (g @ g') buf nl s nl2 s2"
  by (auto simp: logic_has_read_def intro: has_read_append)

lemma looked_then_read:
  "looked nl s nl1 s1 \<Longrightarrow> logic_has_read g buf nl1 s1 nl2 s2 \<Longrightarrow> logic_has_read g buf nl s nl2 s2"
  using logic_has_read_append [OF looked_has_read, of nl s nl1 s1 g buf] by simp

lemma logic_read_loop:
  assumes "cached nl s" "W dvd unat a" "W dvd unat n" "{buf ..< buf + unat n} \<inter> priv = {}" "ptn nl \<le> unat a"
    "unat a mod E = 0 \<or> \<not> bad s (unat a div E) \<or> n = 0 \<or> ptn nl + ptn_len nl \<le> unat a"
  defines "g \<equiv> take (unat n) (good_addrs E (ptn nl + ptn_len nl) (bad s) (unat a))"
  shows "\<exists>nl' s'. logic_read_loop m a n buf tot nl s = Some (int_of_total (tot + word_of_nat (length g)), nl', s') \<and>
      logic_has_read g buf nl s nl' s'"
  using assms(1-6) unfolding g_def
proof (induction "S - unat a" arbitrary: a n buf tot nl s rule: less_induct)
  case less
  note pt = cachedD(1) [OF less.prems(1)]
  note part = partitionD [OF pt]
  let ?T = "ptn nl + ptn_len nl"
  have TE: "E dvd ?T" "?T \<le> S" using part(3,4,5) by simp_all
  have stop: "unat (nl_address nl + nl_length nl) = ?T" using part(5) size_bound by (subst unat_add_small) auto
  show ?case
  proof (cases "n = 0 \<or> ?T \<le> unat a")
    case True
    then show ?thesis using less.prems(1)
      by (subst logic_read_loop.simps) (auto simp: looked_has_read looked_refl word_le_nat_alt stop)
  next
    case False
    then have n0: "n \<noteq> 0" "0 < unat n" and aT: "unat a < ?T" by (simp_all add: unat_gt_0)
    have notend: "\<not> nl_address nl + nl_length nl \<le> a" using aT by (simp add: word_le_nat_alt stop)
    obtain nl1 s1 where b: "bbt_cache_isbad_block m (BLOCK_ALIGN nl a) nl s = Some (bad s (unat a div E), nl1, s1)" "looked nl s nl1 s1"
      using bbt_cache_isbad_block [OF less.prems(1) block_align(2) [OF pt] block_align(3) [OF pt less.prems(5)]
          le_less_trans [OF block_align(4) [OF pt] aT]]
      unfolding block_align(1) [OF pt] by blast
    have n1: "nl_address nl1 = nl_address nl" "nl_length nl1 = nl_length nl" "bad s1 = bad s" "cached nl1 s1" "inv s1"
      using lookedD [OF b(2)] by simp_all
    show ?thesis
    proof (cases "bad s (unat a div E)")
      case True
      then have al: "unat a mod E = 0" using less.prems(6) n0 aT by auto
      note sk = skip_block_in [where bd = "bad s", OF al True aT TE(1)]
      have a1: "unat (a + ucast (erasesize m)) = unat a + E" using sk(1) TE(2) size_bound by (subst unat_add_u64) auto
      have dec: "S - unat (a + ucast (erasesize m)) < S - unat a" using a1 E_pos aT TE(2) by simp
      have pre: "W dvd unat (a + ucast (erasesize m))" "ptn nl1 \<le> unat (a + ucast (erasesize m))"
          "unat (a + ucast (erasesize m)) mod E = 0 \<or> \<not> bad s1 (unat (a + ucast (erasesize m)) div E) \<or> n = 0 \<or>
             ptn nl1 + ptn_len nl1 \<le> unat (a + ucast (erasesize m))"
        using less.prems(2,5) page_block sk(3) by (simp_all add: a1 n1)
      from less.hyps [OF dec n1(4) pre(1) less.prems(3,4) pre(2,3), of tot, unfolded n1(1-3), unfolded a1]
      obtain nl2 s2 where r: "logic_read_loop m (a + ucast (erasesize m)) n buf tot nl1 s1 =
            Some (int_of_total (tot + word_of_nat (length (take (unat n) (good_addrs E ?T (bad s) (unat a))))), nl2, s2)"
          "logic_has_read (take (unat n) (good_addrs E ?T (bad s) (unat a))) buf nl1 s1 nl2 s2"
        unfolding sk(2) by blast
      have "logic_read_loop m a n buf tot nl s = logic_read_loop m (a + ucast (erasesize m)) n buf tot nl1 s1"
        using n0 notend b(1) True by (subst logic_read_loop.simps) simp
      with r(1) have run: "logic_read_loop m a n buf tot nl s =
            Some (int_of_total (tot + word_of_nat (length (take (unat n) (good_addrs E ?T (bad s) (unat a))))), nl2, s2)" by (rule trans [rotated])
      show ?thesis by (intro exI conjI, rule run, rule looked_then_read [OF b(2) r(2)])
    next
      case ok: False
      define c where "c = chunk_size m a n"
      note gc = good_chunk_in [where bd = "bad s" and n = n, OF ok aT TE(1), folded c_def]
      have c: "W dvd unat c" "0 < unat c" "unat c \<le> unat n" "0 < c"
        using W_dvd_chunk less.prems(2,3) gc(3,4) n0 by (auto simp: c_def word_gt_0 unat_gt_0)
      have buf: "{buf ..< buf + unat c} \<inter> priv = {}" using less.prems(4) c(3) by (auto simp: disjoint_iff)
      have fit: "unat a + unat c \<le> S" using gc(2) TE(2) by (rule le_trans)
      from read_law [OF n1(5) c(4) less.prems(2) c(1) fit buf, of c]
      obtain s2 where w: "nand_read m a c buf s1 = Some ((0, c), s2)" and s2: "inv s2" "flash s2 = flash s1" "bad s2 = bad s1"
         and rd: "\<forall>x. x \<notin> priv \<longrightarrow> ram s2 x =
             (if buf \<le> x \<and> x < buf + unat c then flash s1 (unat a + (x - buf)) else ram s1 x)"
        unfolding nand_read_def by blast
      have "has_read [unat a ..< unat a + unat c] buf s1 s2" using rd s2 by (auto simp: has_read_def)
      then have one: "logic_has_read [unat a ..< unat a + unat c] buf nl1 s1 nl1 s2"
        using cached_same [OF n1(4) s2(1,3)] by (simp add: logic_has_read_def)
      let ?a = "a + ucast c" and ?n = "n - c"
      have a1: "unat ?a = unat a + unat c" using gc(2) TE(2) size_bound by (subst unat_add_u64) auto
      have nn: "unat ?n = unat n - unat c" using c(3) by (simp add: unat_sub_u32 word_le_nat_alt)
      have dec: "S - unat ?a < S - unat a" using a1 c(2) aT TE(2) by simp
      have pre: "W dvd unat ?a" "W dvd unat ?n" "ptn nl1 \<le> unat ?a"
        using less.prems(2,3,5) c(1,3) by (simp_all add: a1 nn n1)
      have pre_buf: "{buf + unat c ..< buf + unat c + unat ?n} \<inter> priv = {}"
        using less.prems(4) c(3) by (auto simp: nn disjoint_iff)
      have pre_good: "unat ?a mod E = 0 \<or> \<not> bad s2 (unat ?a div E) \<or> ?n = 0 \<or> ptn nl1 + ptn_len nl1 \<le> unat ?a"
      proof (cases "unat c < unat n")
        case True
        then show ?thesis using gc(5) a1 by simp
      next
        case False
        then have "c = n" using c(3) by (simp add: word_unat_eq_iff)
        then show ?thesis by simp
      qed
      have c2: "cached nl1 s2" by (rule cached_same [OF n1(4) s2(1,3)])
      let ?g' = "take (unat n - unat c) (good_addrs E ?T (bad s) (unat a + unat c))"
      have bs: "bad s2 = bad s" using s2(3) n1(3) by simp
      from less.hyps [OF dec c2 pre(1,2) pre_buf pre(3) pre_good, of "tot + ucast c", unfolded n1(1,2) bs, unfolded a1 nn]
      obtain nl2 s3 where r: "logic_read_loop m ?a ?n (buf + unat c) (tot + ucast c) nl1 s2 =
            Some (int_of_total (tot + ucast c + word_of_nat (length ?g')), nl2, s3)"
          "logic_has_read ?g' (buf + unat c) nl1 s2 nl2 s3" by blast
      have g: "take (unat n) (good_addrs E ?T (bad s) (unat a)) = [unat a ..< unat a + unat c] @ ?g'"
        using gc(1) c(3) by simp
      have len: "tot + ucast c + word_of_nat (length ?g') = tot + word_of_nat (length ([unat a ..< unat a + unat c] @ ?g'))"
        by (simp add: add.assoc)
      have "logic_has_read ([unat a ..< unat a + unat c] @ ?g') buf nl s nl2 s3"
        using looked_then_read [OF b(2) logic_has_read_append [OF one]] r(2) by simp
      moreover have "logic_read_loop m a n buf tot nl s = logic_read_loop m ?a ?n (buf + unat c) (tot + ucast c) nl1 s2"
        using n0 notend b(1) ok w unfolding c_def by (subst logic_read_loop.simps) simp
      ultimately show ?thesis unfolding g using r(1)[unfolded len] by (metis (no_types))
    qed
  qed
qed

lemma aligned_to: "is_aligned_to (ucast (erasesize m)) x \<longleftrightarrow> E dvd unat x" "is_aligned_to (ucast (writesize m)) x \<longleftrightarrow> W dvd unat x"
proof -
  have minus_1: "(ucast w - 1 :: u64) = ucast (w - 1)" if "pow2_size w" for w
    using that by (elim pow2_sizeE) (simp add: ucast_pow2_minus_1 ucast_pow2 mask_eq_decr_exp)
  show "is_aligned_to (ucast (erasesize m)) x \<longleftrightarrow> E dvd unat x" "is_aligned_to (ucast (writesize m)) x \<longleftrightarrow> W dvd unat x"
    unfolding is_aligned_to_def minus_1 [OF erasesize_pow2] minus_1 [OF writesize_pow2]
    by (rule u64_pow2_offset [OF erasesize_pow2] u64_pow2_offset [OF writesize_pow2])+
qed

text \<open>An opened partition, with nothing in its cache yet.\<close>

lemma nand_logic_open:
  assumes "nand_logic_open True True True m address len = Some (Some nl)" "unat len div E < 2 ^ 32" "inv s"
  shows "cached nl s" "nl_address nl = address" "nl_length nl = len" "ptn nl + ptn_len nl \<le> S"
proof -
  obtain k where k: "k < 32" "erasesize m = 2 ^ k" "E = 2 ^ k" using erasesize_pow2 by (elim pow2_sizeE)
  define l8 where "l8 = (ucast (drop_bit 3 (drop_bit k len + 7)) :: u32)"
  have e: "(ucast (ucast (erasesize m) :: u64) :: u32) = 2 ^ k"
    by (rule bit_word_eqI) (auto simp: k(2) bit_simps)
  have al: "E dvd unat address" "E dvd unat len" and fits: "\<not> mtd_size m < address" "\<not> mtd_size m < len" "\<not> mtd_size m < address + len"
    and nl: "nl = \<lparr>nl_address = address, nl_length = len, nl_erasesize = ucast (erasesize m),
      nl_cache = \<lparr>bc_length = 0, bc_shift = k, bc_bbt = replicate (unat l8) 0\<rparr>\<rparr>"
    using assms(1) k(1)
    unfolding nand_logic_open_def bbt_cache_init_def aligned_to e erase_shift_loop [OF k(1)] l8_def by (auto split: if_splits)
  have "unat address + unat len \<le> S"
  proof -
    have "unat address \<le> S" "unat len \<le> S" using fits by (simp_all add: word_less_nat_alt)
    then have "unat (address + len) = unat address + unat len" using size_bound by (subst unat_add_small) auto
    then show ?thesis using fits(3) by (simp add: word_less_nat_alt)
  qed
  moreover have bits: "unat len div E \<le> 8 * unat l8"
  proof -
    have q: "unat (drop_bit k len) = unat len div E"
      using unsigned_less [of len, where 'a = nat] unfolding k(3)
      by (subst unsigned_drop_bit_eq) (simp add: take_bit_nat_eq_self drop_bit_eq_div)
    have "unat (drop_bit k len + 7) = unat len div E + 7" using assms(2) q by (subst unat_add_small) simp_all
    then have "unat (drop_bit 3 (drop_bit k len + 7)) = (unat len div E + 7) div 8"
      using unsigned_less [of "drop_bit k len + 7", where 'a = nat]
      by (subst unsigned_drop_bit_eq) (simp add: take_bit_nat_eq_self drop_bit_eq_div)
    moreover have "(unat len div E + 7) div 8 < 2 ^ 32" using assms(2) by (simp add: div_less_iff_less_mult)
    ultimately have "unat l8 = (unat len div E + 7) div 8"
      by (simp add: l8_def unsigned_ucast_eq take_bit_nat_eq_self)
    moreover have "n \<le> 8 * ((n + 7) div 8)" for n :: nat by presburger
    ultimately show ?thesis by simp
  qed
  ultimately have "partition nl" using al assms(2) k(3) by (simp add: partition_def nl)
  moreover have "i div 8 < unat l8" if "i < unat len div E" for i using that bits by simp
  ultimately show "cached nl s" using assms(3) by (simp add: cached_def nl cached_bad_def)
  show "nl_address nl = address" "nl_length nl = len" by (simp_all add: nl)
  show "ptn nl + ptn_len nl \<le> S" using partitionD(5) [OF cachedD(1)] \<open>cached nl s\<close> by blast
qed

lemma int_of_total_small: "k < 2 ^ 31 \<Longrightarrow> int_of_total (word_of_nat k) = int k"
proof -
  assume k: "k < 2 ^ 31"
  then have "unat (ucast (word_of_nat k :: u64) :: u32) = k"
    by (simp add: unsigned_ucast_eq unsigned_of_nat take_bit_nat_eq_self)
  then show ?thesis using k sint_small [of "ucast (word_of_nat k :: u64) :: u32"] by (simp add: int_of_total_def)
qed

lemma nand_logic_read:
  assumes "cached nl s" "n \<noteq> 0" "unat n < 2 ^ 31" "W dvd unat off" "W dvd unat n" "unat off < ptn_len nl"
    "{buf ..< buf + unat n} \<inter> priv = {}"
  defines "g \<equiv> take (unat n) (drop (unat off) (logical nl s))"
  shows "\<exists>nl' s'. nand_logic_read m off n buf False nl s =
      Some (if length (logical nl s) < (unat off + (E - 1)) div E * E then - 1 else int (length g), nl', s') \<and>
    (if length (logical nl s) < (unat off + (E - 1)) div E * E then looked nl s nl' s' else logic_has_read g buf nl s nl' s')"
proof -
  note pt = cachedD(1) [OF assms(1)]
  note part = partitionD [OF pt]
  have off62: "unat off + E < 2 ^ 62 + E" using assms(6) part(5) size_bound by linarith
  have small: "unat off + E < 2 ^ 64" using off62 u32_lt [of "erasesize m"] by simp
  note rnd = block_round_out [OF pt small]
  let ?n = "BLOCK_ALIGN_ROUND_OUT nl off"
  have en: "E dvd unat ?n" unfolding rnd(1) by simp
  have pos: "0 < ptn_len nl" using assms(6) by simp
  obtain i nl1 s1 where l: "logic_to_phylength m ?n nl s = Some ((i, length (logical nl s) < unat ?n), nl1, s1)"
      "looked nl s nl1 s1" "E dvd unat i" "unat i \<le> ptn_len nl"
      "unat ?n \<le> length (logical nl s) \<longrightarrow>
         length (good_addrs E (ptn nl + unat i) (bad s) (ptn nl)) = unat ?n \<and> stops (ptn nl) (bad s) (unat ?n) (unat i)"
    using logic_to_phylength [OF assms(1) en pos] by blast
  have guards: "is_aligned_to (ucast (writesize m)) off" "n AND (writesize m - 1) = 0" "\<not> nl_length nl \<le> off"
    using assms(4-6) by (simp_all add: aligned_to(2) u32_pow2_aligned writesize_pow2 word_le_nat_alt)
  note n1 = lookedD [OF l(2)]
  show ?thesis
  proof (cases "length (logical nl s) < unat ?n")
    case True
    then show ?thesis using l(1,2) guards assms(2) by (simp add: nand_logic_read_def rnd(1))
  next
    case False
    then have fits: "unat ?n \<le> length (logical nl s)" by simp
    define n2 where "n2 = (if nl_length nl < off + ucast n then ucast (nl_length nl - off) else n)"
    define p where "p = phy_address m nl1 i off"
    have ps: "cached nl1 s" by (rule cached_same [OF n1(1)]) (use cachedD(2) [OF assms(1)] n1(4) in simp_all)
    note ph = phy_address [OF ps, of off i, unfolded n1(6,7), OF small l(3,4)]
    have ph: "good_addrs E (ptn nl + ptn_len nl) (bad s) (unat p) = drop (unat off) (logical nl s)"
        "ptn nl \<le> unat p" "unat p mod E = 0 \<or> \<not> bad s (unat p div E)" "unat p mod E = unat off mod E"
      using ph l(5) fits unfolding p_def rnd(1) by blast+
    have n2: "unat n2 = min (unat n) (ptn_len nl - unat off)"
    proof -
      have "unat (off + ucast n) = unat off + unat n"
        using assms(6) part(5) size_bound u32_lt [of n] by (subst unat_add_u64) auto
      moreover have "unat (nl_length nl - off) = ptn_len nl - unat off" using assms(6) by (simp add: unat_sub word_le_nat_alt)
      ultimately show ?thesis using u32_lt [of n]
        by (auto simp: n2_def n1(7) word_less_nat_alt unsigned_ucast_eq take_bit_nat_eq_self min_def)
    qed
    have "length (drop (unat off) (logical nl s)) \<le> ptn_len nl - unat off"
      using length_good_addrs [of E "ptn nl + ptn_len nl" "bad s" "ptn nl"] by simp
    then have g: "take (unat n2) (drop (unat off) (logical nl s)) = g" by (auto simp: g_def n2 min_def)
    have Wp: "W dvd unat p"
    proof -
      have "W dvd unat p mod E" unfolding ph(4) using assms(4) page_block by (rule dvd_mod)
      then show ?thesis using page_block dvd_mod_iff by blast
    qed
    have Wn2: "W dvd unat n2"
      using assms(4,5) dvd_trans [OF page_block part(4)] by (auto simp: n2 min_def intro: dvd_diff_nat)
    have buf: "{buf ..< buf + unat n2} \<inter> priv = {}" using assms(7) by (auto simp: n2 disjoint_iff)
    from logic_read_loop [OF n1(1) Wp Wn2 buf, of 0, unfolded n1(4,6,7), OF ph(2)] ph(3)
    obtain nl2 s2 where r: "logic_read_loop m p n2 buf 0 nl1 s1 = Some (int_of_total (word_of_nat (length g)), nl2, s2)"
        "logic_has_read g buf nl1 s1 nl2 s2"
      unfolding ph(1) g by auto
    have "length g < 2 ^ 31" using assms(3) by (simp add: g_def)
    then have "nand_logic_read m off n buf False nl s = Some (int (length g), nl2, s2)"
      using l(1) guards assms(2) False r(1)
      by (cases "nl_length nl < off + ucast n")
        (simp_all add: nand_logic_read_def Let_def int_of_total_small n1(7) n2_def flip: p_def)
    then show ?thesis using False looked_then_read [OF l(2) r(2)] by (simp add: rnd(1))
  qed
qed

text \<open>What a write of the partition does on a chip on which no write fails.\<close>

definition logic_wrote :: "nat list \<Rightarrow> nat \<Rightarrow> nand_logic_t \<Rightarrow> 'h nand_st \<Rightarrow> nand_logic_t \<Rightarrow> 'h nand_st \<Rightarrow> bool" where
  "logic_wrote g buf nl s nl' s' \<longleftrightarrow> wrote_list g buf 0 s s' \<and> cached nl' s' \<and>
     nl_address nl' = nl_address nl \<and> nl_length nl' = nl_length nl \<and> nl_erasesize nl' = nl_erasesize nl"

lemma looked_wrote: "looked nl s nl' s' \<Longrightarrow> logic_wrote [] buf nl s nl' s'"
  by (simp add: logic_wrote_def wrote_list_def lookedD)

lemma looked_then_wrote:
  assumes "looked nl s nl1 s1" "logic_wrote g buf nl1 s1 nl2 s2" "{buf ..< buf + length g} \<inter> priv = {}" "distinct g"
  shows "logic_wrote g buf nl s nl2 s2"
  using assms(2,3) lookedD [OF assms(1)] wrote_list_append [of "[]" buf s s1 g 0 s2] looked_wrote [OF assms(1), of buf] assms(4)
  by (simp add: logic_wrote_def)

lemma logic_write_block:
  assumes write_never_fails "cached nl s" "W dvd unat a" "W dvd unat wl" "unat a + unat wl \<le> S" "{buf ..< buf + unat wl} \<inter> priv = {}"
  shows "\<exists>s'. logic_write_block m dbuf False wl a n buf nl s = Some (Inr (a + ucast wl, n - wl, buf + unat wl), nl, s') \<and>
    logic_wrote [unat a ..< unat a + unat wl] buf nl s nl s'"
  using assms(2-6)
proof (induction "unat wl" arbitrary: a wl n buf s rule: less_induct)
  case less
  show ?case
  proof (cases "wl = 0")
    case True
    then show ?thesis using less.prems(1)
      by (subst logic_write_block.simps) (simp add: looked_wrote looked_refl)
  next
    case False
    then have w0: "0 < unat wl" by (simp add: unat_gt_0)
    then have Wn: "W \<le> unat wl" using less.prems(3) dvd_imp_le by blast
    let ?wl = "wl - writesize m" and ?a = "a + ucast (writesize m)"
    have wl: "unat ?wl = unat wl - W" using Wn by (simp add: unat_sub_u32 word_le_nat_alt)
    have a: "unat ?a = unat a + W" using Wn less.prems(4) size_bound by (subst unat_add_u64) auto
    have disj: "{buf ..< buf + W} \<inter> priv = {}" "{buf + W ..< buf + W + unat ?wl} \<inter> priv = {}"
      using less.prems(5) Wn wl by (auto simp: disjoint_iff)
    have W0: "0 < writesize m" using W_pos by (simp add: word_gt_0 unat_gt_0)
    have fit: "unat a + W \<le> S" using less.prems(4) Wn by linarith
    obtain ret k' s1 where r: "nand_write m a (writesize m) buf s = Some ((ret, k'), s1)" "wrote_range (unat a) W buf ret s s1"
      using write_range [OF cachedD(2) [OF less.prems(1)] W0 less.prems(2) dvd_refl fit disj(1)] unfolding nand_write_def by blast
    have ret: "ret = 0" using r(2) assms(1) by (simp add: wrote_range_def)
    have s1: "inv s1" "bad s1 = bad s" using r(2) by (simp_all add: wrote_range_def)
    have c1: "cached nl s1" by (rule cached_same [OF less.prems(1) s1])
    have one: "wrote_list [unat a ..< unat a + W] buf 0 s s1" using wrote_range_list [OF r(2)] ret by simp
    have dec: "unat ?wl < unat wl" using wl w0 W_pos by simp
    have pre: "W dvd unat ?a" "W dvd unat ?wl" "unat ?a + unat ?wl \<le> S" using less.prems(2-4) Wn by (simp_all add: a wl)
    obtain s2 where ih: "logic_write_block m dbuf False ?wl ?a (n - writesize m) (buf + W) nl s1 =
          Some (Inr (?a + ucast ?wl, n - writesize m - ?wl, buf + W + unat ?wl), nl, s2)"
        "logic_wrote [unat ?a ..< unat ?a + unat ?wl] (buf + W) nl s1 nl s2"
      using less.hyps [OF dec c1 pre disj(2), of "n - writesize m"] by blast
    have stop: "?a + ucast ?wl = a + ucast wl"
    proof (rule word_unat_eq_iff [THEN iffD2])
      show "unat (?a + ucast ?wl) = unat (a + ucast wl)"
        using pre(3) less.prems(4) size_bound Wn by (simp add: unat_add_u64 a wl)
    qed
    have "wrote_list ([unat a ..< unat a + W] @ [unat a + W ..< unat a + unat wl]) buf 0 s s2"
    proof (rule wrote_list_append [OF one])
      show "wrote_list [unat a + W ..< unat a + unat wl] (buf + length [unat a ..< unat a + W]) 0 s1 s2"
        using ih(2) Wn by (simp add: logic_wrote_def a wl)
      show "{buf ..< buf + length ([unat a ..< unat a + W] @ [unat a + W ..< unat a + unat wl])} \<inter> priv = {}"
        using less.prems(5) Wn by simp
    qed simp
    moreover have "[unat a ..< unat a + unat wl] = [unat a ..< unat a + W] @ [unat a + W ..< unat a + unat wl]"
      using upt_add_eq_append [of "unat a" "unat a + W" "unat wl - W"] Wn by simp
    ultimately have "logic_wrote [unat a ..< unat a + unat wl] buf nl s nl s2" using ih(2) by (simp add: logic_wrote_def)
    moreover have "logic_write_block m dbuf False wl a n buf nl s =
        logic_write_block m dbuf False ?wl ?a (n - writesize m) (buf + W) nl s1"
      using r(1) ret False by (subst logic_write_block.simps) (simp add: logic_write_page_def)
    ultimately show ?thesis using ih(1) stop Wn by (simp add: wl)
  qed
qed

lemma logic_write_loop:
  assumes write_never_fails "cached nl s" "W dvd unat a" "W dvd unat n" "{buf ..< buf + unat n} \<inter> priv = {}" "ptn nl \<le> unat a"
    "unat a mod E = 0 \<or> \<not> bad s (unat a div E) \<or> n = 0"
    "unat n \<le> length (good_addrs E (ptn nl + ptn_len nl) (bad s) (unat a))"
  shows "\<exists>nl' s'. logic_write_loop m dbuf False retlen a n buf nl s = Some (retlen, nl', s') \<and>
      logic_wrote (take (unat n) (good_addrs E (ptn nl + ptn_len nl) (bad s) (unat a))) buf nl s nl' s'"
  using assms(2-8)
proof (induction "S - unat a" arbitrary: a n buf nl s rule: less_induct)
  case less
  note pt = cachedD(1) [OF less.prems(1)]
  note part = partitionD [OF pt]
  let ?T = "ptn nl + ptn_len nl"
  have TE: "E dvd ?T" "?T \<le> S" using part(3,4,5) by simp_all
  have stop: "unat (nl_address nl + nl_length nl) = ?T" using part(5) size_bound by (subst unat_add_small) auto
  show ?case
  proof (cases "n = 0")
    case True
    then show ?thesis using less.prems(1)
      by (subst logic_write_loop.simps) (simp add: looked_wrote looked_refl)
  next
    case False
    then have n0: "n \<noteq> 0" "0 < unat n" by (simp_all add: unat_gt_0)
    then have aT: "unat a < ?T" using less.prems(7) good_addrs_end [of ?T "unat a"] by (cases "unat a < ?T") auto
    have notend: "\<not> nl_address nl + nl_length nl \<le> a" using aT by (simp add: word_le_nat_alt stop)
    obtain nl1 s1 where b: "bbt_cache_isbad_block m (BLOCK_ALIGN nl a) nl s = Some (bad s (unat a div E), nl1, s1)" "looked nl s nl1 s1"
      using bbt_cache_isbad_block [OF less.prems(1) block_align(2) [OF pt] block_align(3) [OF pt less.prems(5)]
          le_less_trans [OF block_align(4) [OF pt] aT]]
      unfolding block_align(1) [OF pt] by blast
    have n1: "nl_address nl1 = nl_address nl" "nl_length nl1 = nl_length nl" "bad s1 = bad s" "cached nl1 s1"
      using lookedD [OF b(2)] by simp_all
    let ?g = "take (unat n) (good_addrs E ?T (bad s) (unat a))"
    have buf: "{buf ..< buf + length ?g} \<inter> priv = {}" using less.prems(4,7) by simp
    show ?thesis
    proof (cases "bad s (unat a div E)")
      case True
      then have al: "unat a mod E = 0" using less.prems(6) n0 by auto
      note sk = skip_block_in [where bd = "bad s", OF al True aT TE(1)]
      have a1: "unat (a + ucast (erasesize m)) = unat a + E" using sk(1) TE(2) size_bound by (subst unat_add_u64) auto
      have dec: "S - unat (a + ucast (erasesize m)) < S - unat a" using a1 E_pos aT TE(2) by simp
      have pre: "W dvd unat (a + ucast (erasesize m))" "ptn nl1 \<le> unat (a + ucast (erasesize m))"
          "unat (a + ucast (erasesize m)) mod E = 0 \<or> \<not> bad s1 (unat (a + ucast (erasesize m)) div E) \<or> n = 0"
          "unat n \<le> length (good_addrs E (ptn nl1 + ptn_len nl1) (bad s1) (unat (a + ucast (erasesize m))))"
        using less.prems(2,5,7) page_block sk(2,3) by (simp_all add: a1 n1)
      from less.hyps [OF dec n1(4) pre(1) less.prems(3,4) pre(2-4), unfolded n1(1-3), unfolded a1]
      obtain nl2 s2 where r: "logic_write_loop m dbuf False retlen (a + ucast (erasesize m)) n buf nl1 s1 = Some (retlen, nl2, s2)"
          "logic_wrote ?g buf nl1 s1 nl2 s2"
        unfolding sk(2) by blast
      have "logic_write_loop m dbuf False retlen a n buf nl s = logic_write_loop m dbuf False retlen (a + ucast (erasesize m)) n buf nl1 s1"
        using n0 notend b(1) True by (subst logic_write_loop.simps) simp
      with r(1) have run: "logic_write_loop m dbuf False retlen a n buf nl s = Some (retlen, nl2, s2)" by (rule trans [rotated])
      show ?thesis by (intro exI conjI, rule run, rule looked_then_wrote [OF b(2) r(2) buf]) simp
    next
      case ok: False
      define c where "c = chunk_size m a n"
      note gc = good_chunk_in [where bd = "bad s" and n = n, OF ok aT TE(1), folded c_def]
      have c: "W dvd unat c" "0 < unat c" "unat c \<le> unat n"
        using W_dvd_chunk less.prems(2,3) gc(3,4) n0 by (auto simp: c_def)
      have cbuf: "{buf ..< buf + unat c} \<inter> priv = {}" using less.prems(4) c(3) by (auto simp: disjoint_iff)
      have fit: "unat a + unat c \<le> S" using gc(2) TE(2) by (rule le_trans)
      obtain s2 where w: "logic_write_block m dbuf False c a n buf nl1 s1 = Some (Inr (a + ucast c, n - c, buf + unat c), nl1, s2)"
          "logic_wrote [unat a ..< unat a + unat c] buf nl1 s1 nl1 s2"
        using logic_write_block [OF assms(1) n1(4) less.prems(2) c(1) fit cbuf] by blast
      have s2: "cached nl1 s2" "bad s2 = bad s" using w(2) n1(3) by (simp_all add: logic_wrote_def wrote_list_def)
      let ?a = "a + ucast c" and ?n = "n - c"
      have a1: "unat ?a = unat a + unat c" using gc(2) TE(2) size_bound by (subst unat_add_u64) auto
      have nn: "unat ?n = unat n - unat c" using c(3) by (simp add: unat_sub_u32 word_le_nat_alt)
      have dec: "S - unat ?a < S - unat a" using a1 c(2) aT TE(2) by simp
      let ?g' = "take (unat n - unat c) (good_addrs E ?T (bad s) (unat a + unat c))"
      have g: "?g = [unat a ..< unat a + unat c] @ ?g'" using gc(1) c(3) by simp
      have pre: "W dvd unat ?a" "W dvd unat ?n" "ptn nl1 \<le> unat ?a"
          "unat ?n \<le> length (good_addrs E (ptn nl1 + ptn_len nl1) (bad s2) (unat ?a))"
        using less.prems(2,3,5,7) c(1,3) gc(1) s2(2) by (simp_all add: a1 nn n1)
      have pre_buf: "{buf + unat c ..< buf + unat c + unat ?n} \<inter> priv = {}"
        using less.prems(4) c(3) by (auto simp: nn disjoint_iff)
      have pre_good: "unat ?a mod E = 0 \<or> \<not> bad s2 (unat ?a div E) \<or> ?n = 0"
      proof (cases "unat c < unat n")
        case True
        then show ?thesis using gc(5) a1 by simp
      next
        case False
        then have "c = n" using c(3) by (simp add: word_unat_eq_iff)
        then show ?thesis by simp
      qed
      from less.hyps [OF dec s2(1) pre(1,2) pre_buf pre(3) pre_good pre(4), unfolded n1(1,2) s2(2), unfolded a1 nn]
      obtain nl2 s3 where r: "logic_write_loop m dbuf False retlen ?a ?n (buf + unat c) nl1 s2 = Some (retlen, nl2, s3)"
          "logic_wrote ?g' (buf + unat c) nl1 s2 nl2 s3" by blast
      have "wrote_list ([unat a ..< unat a + unat c] @ ?g') buf 0 s1 s3"
      proof (rule wrote_list_append)
        show "wrote_list [unat a ..< unat a + unat c] buf 0 s1 s2" using w(2) by (simp add: logic_wrote_def)
        show "wrote_list ?g' (buf + length [unat a ..< unat a + unat c]) 0 s2 s3" using r(2) by (simp add: logic_wrote_def)
        show "distinct ([unat a ..< unat a + unat c] @ ?g')" unfolding g [symmetric] by simp
        show "{buf ..< buf + length ([unat a ..< unat a + unat c] @ ?g')} \<inter> priv = {}" unfolding g [symmetric] by (rule buf)
      qed
      then have "logic_wrote ?g buf nl1 s1 nl2 s3" using r(2) unfolding g by (simp add: logic_wrote_def)
      from looked_then_wrote [OF b(2) this buf] have all: "logic_wrote ?g buf nl s nl2 s3" by simp
      have "logic_write_loop m dbuf False retlen a n buf nl s = logic_write_loop m dbuf False retlen ?a ?n (buf + unat c) nl1 s2"
        using n0 notend b(1) ok w(1) unfolding c_def by (subst logic_write_loop.simps) simp
      then show ?thesis using r(1) all by (intro exI conjI) simp_all
    qed
  qed
qed

lemma looked_logical: "looked nl s nl' s' \<Longrightarrow> logical nl' s' = logical nl s"
  by (simp only: lookedD)

lemma round_out_mono: "x \<le> y \<Longrightarrow> (x + (E - 1)) div E * E \<le> (y + (E - 1)) div E * (E :: nat)"
  by (intro mult_le_mono1 div_le_mono) simp

lemma round_out_le: "x \<le> (x + (E - 1)) div E * (E :: nat)"
proof -
  have "(x + (E - 1)) mod E < E" using E_pos by simp
  moreover have "x + (E - 1) = (x + (E - 1)) div E * E + (x + (E - 1)) mod E" by simp
  ultimately show ?thesis by linarith
qed

lemma nand_logic_write:
  assumes write_never_fails "cached nl s" "n \<noteq> 0" "unat n < 2 ^ 31" "W dvd unat off" "W dvd unat n" "0 < ptn_len nl"
    "unat off + unat n + E < 2 ^ 64" "{buf ..< buf + unat n} \<inter> priv = {}"
  shows "\<exists>nl' s'. nand_logic_write m dbuf off n buf False nl s =
      Some (if length (logical nl s) < (unat off + unat n + (E - 1)) div E * E then - 1 else int (unat n), nl', s') \<and>
    (if length (logical nl s) < (unat off + unat n + (E - 1)) div E * E then looked nl s nl' s'
     else logic_wrote (take (unat n) (drop (unat off) (logical nl s))) buf nl s nl' s')"
proof -
  note pt = cachedD(1) [OF assms(2)]
  note part = partitionD [OF pt]
  have on: "unat (off + ucast n) = unat off + unat n" using assms(8) by (subst unat_add_u64) simp_all
  have small: "unat (off + ucast n) + E < 2 ^ 64" "unat off + E < 2 ^ 64" using assms(8) by (simp_all add: on)
  note rn = block_round_out [OF pt small(1), unfolded on]
  have e1: "E dvd unat (BLOCK_ALIGN_ROUND_OUT nl (off + ucast n))" unfolding rn(1) by simp
  obtain i1 nl1 s1 where l1: "logic_to_phylength m (BLOCK_ALIGN_ROUND_OUT nl (off + ucast n)) nl s =
        Some ((i1, length (logical nl s) < unat (BLOCK_ALIGN_ROUND_OUT nl (off + ucast n))), nl1, s1)" "looked nl s nl1 s1"
    using logic_to_phylength [OF assms(2) e1 assms(7)] by blast
  have guards: "is_aligned_to (ucast (writesize m)) off" "n AND (writesize m - 1) = 0"
    using assms(5,6) by (simp_all add: aligned_to(2) u32_pow2_aligned writesize_pow2)
  note n1 = lookedD [OF l1(2)]
  show ?thesis
  proof (cases "length (logical nl s) < unat (BLOCK_ALIGN_ROUND_OUT nl (off + ucast n))")
    case True
    then show ?thesis using l1 guards assms(3) by (simp add: nand_logic_write_def rn(1))
  next
    case False
    then have fits: "(unat off + unat n + (E - 1)) div E * E \<le> length (logical nl s)" by (simp add: rn(1))
    have max: "unat off + unat n \<le> ptn_len nl"
      using fits round_out_le [of "unat off + unat n"] length_good_addrs [of E "ptn nl + ptn_len nl" "bad s" "ptn nl"] by simp
    then have inside: "\<not> nl_length nl < off" "\<not> nl_length nl < ucast n"
      by (simp_all add: word_less_nat_alt unat_ucast_u64)
    have pt1: "partition nl1" by (rule cachedD(1) [OF n1(1)])
    note ro = block_round_out [OF pt1 small(2)]
    have e2: "E dvd unat (BLOCK_ALIGN_ROUND_OUT nl1 off)" unfolding ro(1) by simp
    have pos: "0 < ptn_len nl1" using assms(7) by (simp add: n1)
    obtain i nl2 s2 where l2: "logic_to_phylength m (BLOCK_ALIGN_ROUND_OUT nl1 off) nl1 s1 =
          Some ((i, length (logical nl1 s1) < unat (BLOCK_ALIGN_ROUND_OUT nl1 off)), nl2, s2)" "looked nl1 s1 nl2 s2"
        "E dvd unat i" "unat i \<le> ptn_len nl1"
        "unat (BLOCK_ALIGN_ROUND_OUT nl1 off) \<le> length (logical nl1 s1) \<longrightarrow>
           length (good_addrs E (ptn nl1 + unat i) (bad s1) (ptn nl1)) = unat (BLOCK_ALIGN_ROUND_OUT nl1 off) \<and>
           stops (ptn nl1) (bad s1) (unat (BLOCK_ALIGN_ROUND_OUT nl1 off)) (unat i)"
      using logic_to_phylength [OF n1(1) e2 pos] by blast
    note look = looked_trans [OF l1(2) l2(2)]
    note n2 = lookedD [OF look]
    have fits2: "unat (BLOCK_ALIGN_ROUND_OUT nl1 off) \<le> length (logical nl1 s1)"
      unfolding ro(1) n1 by (rule le_trans [OF round_out_mono [OF le_add1] fits])
    define p where "p = phy_address m nl2 i off"
    have fin: "length (good_addrs E (ptn nl + unat i) (bad s) (ptn nl)) = (unat off + (E - 1)) div E * E"
        "stops (ptn nl) (bad s) ((unat off + (E - 1)) div E * E) (unat i)"
      using l2(5) fits2 unfolding ro(1) n1 by blast+
    have ph: "good_addrs E (ptn nl + ptn_len nl) (bad s) (unat p) = drop (unat off) (logical nl s)"
        "ptn nl \<le> unat p" "unat p mod E = 0 \<or> \<not> bad s (unat p div E)" "unat p mod E = unat off mod E"
      using phy_address [OF n2(1), of off i, unfolded n2(4,6,7), OF small(2) l2(3) l2(4) [unfolded n1(7)] fin]
      unfolding p_def by blast+
    have Wp: "W dvd unat p"
    proof -
      have "W dvd unat p mod E" unfolding ph(4) using assms(5) page_block by (rule dvd_mod)
      then show ?thesis using page_block dvd_mod_iff by blast
    qed
    have room: "unat n \<le> length (drop (unat off) (logical nl s))"
      using fits round_out_le [of "unat off + unat n"] by simp
    have good: "unat p mod E = 0 \<or> \<not> bad s (unat p div E) \<or> n = 0" using ph(3) by blast
    from logic_write_loop [OF assms(1) n2(1) Wp assms(6,9), unfolded n2(4,6,7), OF ph(2) good, unfolded ph(1), OF room,
        of dbuf "sint n"]
    obtain nl3 s3 where w: "logic_write_loop m dbuf False (sint n) p n buf nl2 s2 = Some (sint n, nl3, s3)"
        "logic_wrote (take (unat n) (drop (unat off) (logical nl s))) buf nl2 s2 nl3 s3" by blast
    have "{buf ..< buf + length (take (unat n) (drop (unat off) (logical nl s)))} \<inter> priv = {}" using assms(9) room by simp
    from looked_then_wrote [OF look w(2) this]
    have all: "logic_wrote (take (unat n) (drop (unat off) (logical nl s))) buf nl s nl3 s3" by simp
    have "sint n = int (unat n)" using assms(4) by (intro sint_small) simp
    moreover have "nand_logic_write m dbuf off n buf False nl s = Some (sint n, nl3, s3)"
      using l1(1) l2(1) guards assms(3) False inside fits2 w(1)
      by (simp add: nand_logic_write_def nand_logic_do_write_def n1(7) flip: p_def)
    ultimately show ?thesis using False all by (simp add: rn(1))
  qed
qed

text \<open>What was written to erased addresses of the partition is read back, at any logical offset.\<close>

lemma logic_write_read:
  assumes write_never_fails "cached nl s" "n \<noteq> 0" "unat n < 2 ^ 31" "W dvd unat off" "W dvd unat n" "0 < ptn_len nl"
    "unat off + unat n + E < 2 ^ 64" "{buf ..< buf + unat n} \<inter> priv = {}" "{buf2 ..< buf2 + unat n} \<inter> priv = {}"
    "(unat off + unat n + (E - 1)) div E * E \<le> length (logical nl s)"
    "\<And>a. a \<in> set (logical nl s) \<Longrightarrow> flash s a = 0xff"
  shows "\<exists>nl1 s1 nl2 s2. nand_logic_write m dbuf off n buf False nl s = Some (int (unat n), nl1, s1) \<and>
    nand_logic_read m off n buf2 False nl1 s1 = Some (int (unat n), nl2, s2) \<and>
    load_bytes (ram s2) buf2 (unat n) = load_bytes (ram s) buf (unat n)"
proof -
  let ?g = "take (unat n) (drop (unat off) (logical nl s))"
  obtain nl1 s1 where w: "nand_logic_write m dbuf off n buf False nl s = Some (int (unat n), nl1, s1)"
      "logic_wrote ?g buf nl s nl1 s1"
    using nand_logic_write [OF assms(1-9), of dbuf] assms(11) by (auto simp: not_less [symmetric])
  have n1: "cached nl1 s1" "nl_address nl1 = nl_address nl" "nl_length nl1 = nl_length nl" "bad s1 = bad s" "inv s1"
    and data: "\<And>i. i < length ?g \<Longrightarrow> flash s1 (?g ! i) = flash s (?g ! i) AND ram s (buf + i)"
    using w(2) by (auto simp: logic_wrote_def wrote_list_def)
  have off_fits: "(unat off + (E - 1)) div E * E \<le> length (logical nl s)"
    by (rule le_trans [OF round_out_mono [OF le_add1] assms(11)])
  have total_fits: "unat off + unat n \<le> length (logical nl s)"
    using round_out_le [of "unat off + unat n"] assms(11) by (rule le_trans)
  have len: "length ?g = unat n" using total_fits by simp
  have lt: "unat off < ptn_len nl1"
    using total_fits length_good_addrs [of E "ptn nl + ptn_len nl" "bad s" "ptn nl"] assms(3) unat_gt_0 [of n] by (simp add: n1)
  obtain nl2 s2 where r: "nand_logic_read m off n buf2 False nl1 s1 = Some (int (unat n), nl2, s2)"
      "logic_has_read ?g buf2 nl1 s1 nl2 s2"
    using nand_logic_read [OF n1(1) assms(3,4,5,6) lt assms(10)] off_fits len unfolding n1(2-4) by auto
  have "load_bytes (ram s2) buf2 (unat n) = load_bytes (ram s) buf (unat n)"
  proof (rule nth_equalityI)
    fix i assume "i < length (load_bytes (ram s2) buf2 (unat n))"
    then have i: "i < unat n" by simp
    then have "buf2 + i \<notin> priv" using assms(10) by (auto simp: disjoint_iff)
    then have "ram s2 (buf2 + i) = flash s1 (?g ! i)" using r(2) i len by (simp add: logic_has_read_def has_read_def)
    also have "\<dots> = flash s (?g ! i) AND ram s (buf + i)" using data i len by simp
    also have "?g ! i \<in> set (logical nl s)" using i len by (metis in_set_dropD in_set_takeD nth_mem)
    then have "flash s (?g ! i) AND ram s (buf + i) = ram s (buf + i)" using assms(12) by (simp add: and.commute)
    finally show "load_bytes (ram s2) buf2 (unat n) ! i = load_bytes (ram s) buf (unat n) ! i"
      using i by (simp add: nth_load_bytes)
  qed simp
  then show ?thesis using w(1) r(1) by blast
qed

end

end
