(* ===== verification/LogifStack.thy ===== *)
theory LogifStack
  imports StackProps NandLogifProps
begin

text \<open>
  The logical NAND over the whole stack: \<open>nand_logic_open\<close>, \<open>nand_logic_read\<close> and \<open>nand_logic_write\<close> on the device
  that the scan builds over the controller's driver.
\<close>

section \<open>The logical NAND\<close>

text \<open>
  C11: A logical read goes over the good blocks of the partition as if they were one device: it gives the bytes at the good addresses
  from the logical offset on, as many as there are, and changes nothing else; it fails with \<open>-1\<close> when the good blocks end
  before the offset's block.  The value returned is the number of bytes (the comment on the function says: 0 for success).
\<close>

theorem logical_read:
  assumes "hinfc_stack c base oob con up reg cells failed busy d sm priv" "hinfc_ready up base oob con d s"
    and "nand_logic_open True True True (hinfc_mtd sm c hz d) address len = Some (Some nl)" "unat len div unat (erasesize d) < 2 ^ 32"
    and "n \<noteq> 0" "unat n < 2 ^ 31" "unat (writesize d) dvd unat off" "unat (writesize d) dvd unat n" "off < len"
      "{buf ..< buf + unat n} \<inter> priv = {}"
    and "good = good_addrs (unat (erasesize d)) (unat address + unat len) (hinfc_bad cells d s) (unat address)"
      "k = min (unat n) (length good - unat off)"
  shows "\<exists>ret nl' s'. nand_logic_read (hinfc_mtd sm c hz d) off n buf False nl s = Some (ret, nl', s') \<and>
    hinfc_ready up base oob con d s' \<and> hinfc_flash cells d s' = hinfc_flash cells d s \<and>
    (if length good < (unat off + (unat (erasesize d) - 1)) div unat (erasesize d) * unat (erasesize d) then ret = - 1
     else ret = int k \<and>
       (\<forall>x. x \<notin> priv \<longrightarrow>
          ram s' x = (if buf \<le> x \<and> x < buf + k then hinfc_flash cells d s (good ! (unat off + (x - buf))) else ram s x)))"
proof -
  note dev = hinfc_stack.device [where hz = hz, OF assms(1)]
  note opened = mtd_dev.nand_logic_open [OF dev assms(3), unfolded mtd_sizes, OF assms(4,2)]
  have lt: "unat off < unat (nl_length nl)" using assms(9) by (simp add: opened(3) word_less_nat_alt)
  have g: "take (unat n) (drop (unat off) good) ! i = good ! (unat off + i)" if "i < k" for i
  proof -
    have "i < length good - unat off" using that assms(12) by simp
    then have "unat off \<le> length good" by linarith
    then show ?thesis using that assms(12) by simp
  qed
  have kl: "length (take (unat n) (drop (unat off) good)) = k" using assms(12) by simp
  from mtd_dev.nand_logic_read [OF dev opened(1) assms(5,6), unfolded mtd_sizes, OF assms(7,8) lt assms(10),
      unfolded opened(2,3) assms(11) [symmetric]]
  show ?thesis
    using g kl by (auto simp: mtd_dev.looked_def [OF dev] mtd_dev.logic_has_read_def [OF dev] mtd_dev.has_read_def [OF dev]
      mtd_dev.cached_def [OF dev] Let_def split: if_splits)
qed


text \<open>How many good addresses there are, block by block.\<close>

lemma length_good_step:
  assumes "0 < E" "E dvd off" "off + E \<le> T"
  shows "length (good_addrs E T bd off) = (if bd (off div E) then 0 else E) + length (good_addrs E T bd (off + E))"
proof -
  have "length (good_addrs E (off + E) bd off) = (if bd (off div E) then 0 else E)"
    using good_addrs_block [OF assms(1,2), of bd] by simp
  then show ?thesis using good_addrs_ext [of off "off + E" T E bd] assms(3) by simp
qed

lemma sim_partition:
  "\<exists>nl. nand_logic_open True True True (hinfc_mtd sim_mem sim_cfg 1000 sim_chip) 0x100000 0x100000 = Some (Some nl)"
proof -
  have "erase_shift_loop 0x20000 0 = Some 17" using erase_shift_loop [of 17 0] by simp
  then show ?thesis by (simp add: nand_logic_open_def bbt_cache_init_def is_aligned_to_def sim_sizes)
qed

abbreviation (input) sim_good :: "nat list" where
  "sim_good \<equiv> good_addrs 0x20000 0x200000 (\<lambda>b. b = 12) 0x100000"

lemma sim_good_length: "length sim_good = 0xe0000"
  by (simp add: length_good_step)

lemma logical_read_witness:
  "\<exists>nl nl' s'. nand_logic_open True True True (hinfc_mtd sim_mem sim_cfg 1000 sim_chip) 0x100000 0x100000 = Some (Some nl) \<and>
    nand_logic_read (hinfc_mtd sim_mem sim_cfg 1000 sim_chip) 0x60800 0x40000 0x900000 False nl sim_state = Some (0x40000, nl', s')"
proof -
  obtain nl where o: "nand_logic_open True True True (hinfc_mtd sim_mem sim_cfg 1000 sim_chip) 0x100000 0x100000 = Some (Some nl)"
    using sim_partition by blast
  have "\<exists>ret nl' s'. nand_logic_read (hinfc_mtd sim_mem sim_cfg 1000 sim_chip) 0x60800 0x40000 0x900000 False nl sim_state = Some (ret, nl', s') \<and>
    hinfc_ready sim_up sim_base sim_oob sim_con sim_chip s' \<and> hinfc_flash sim_cells sim_chip s' = hinfc_flash sim_cells sim_chip sim_state \<and>
    (if length sim_good < (unat (0x60800 :: u64) + (unat (erasesize sim_chip) - 1)) div unat (erasesize sim_chip) * unat (erasesize sim_chip)
     then ret = - 1
     else ret = int 0x40000 \<and>
       (\<forall>x. x \<notin> sim_priv \<longrightarrow>
          ram s' x = (if 0x900000 \<le> x \<and> x < 0x900000 + 0x40000
            then hinfc_flash sim_cells sim_chip sim_state (sim_good ! (unat (0x60800 :: u64) + (x - 0x900000))) else ram sim_state x)))"
    by (rule logical_read [OF sim_stack o]) (auto simp: sim_sizes sim_good_length sim_bad [abs_def])
  then show ?thesis using o by (auto simp: sim_sizes sim_good_length)
qed

text \<open>
  C12: What was written to a partition of erased blocks at a logical offset is read back from that offset, around the bad blocks, on a
  chip on which nothing fails.  Both calls return the number of bytes (the comments on the functions say: 0 for success).
\<close>

theorem logical_write_read:
  assumes "hinfc_reliable c base oob con up reg cells failed busy hz d sm priv" "hinfc_ready up base oob con d s"
    and "nand_logic_open True True True (hinfc_mtd sm c hz d) address len = Some (Some nl)" "unat len div unat (erasesize d) < 2 ^ 32"
    and "n \<noteq> 0" "unat n < 2 ^ 31" "unat (writesize d) dvd unat off" "unat (writesize d) dvd unat n"
      "{buf ..< buf + unat n} \<inter> priv = {}" "{buf2 ..< buf2 + unat n} \<inter> priv = {}"
    and "good = good_addrs (unat (erasesize d)) (unat address + unat len) (hinfc_bad cells d s) (unat address)"
      "\<And>a. a \<in> set good \<Longrightarrow> hinfc_flash cells d s a = 0xff"
      "(unat off + unat n + (unat (erasesize d) - 1)) div unat (erasesize d) * unat (erasesize d) \<le> length good"
  shows "\<exists>nl1 s1 nl2 s2. nand_logic_write (hinfc_mtd sm c hz d) dbuf off n buf False nl s = Some (int (unat n), nl1, s1) \<and>
    nand_logic_read (hinfc_mtd sm c hz d) off n buf2 False nl1 s1 = Some (int (unat n), nl2, s2) \<and>
    load_bytes (ram s2) buf2 (unat n) = load_bytes (ram s) buf (unat n)"
proof -
  note rel = hinfc_reliable.reliable [OF assms(1)]
  note dev = mtd_reliable.axioms(1) [OF rel]
  note opened = mtd_dev.nand_logic_open [OF dev assms(3), unfolded mtd_sizes, OF assms(4,2)]
  have off_n: "unat off + unat n \<le> length good"
    using mtd_dev.round_out_le [OF dev, of "unat off + unat n"] assms(13) unfolding mtd_sizes by (rule le_trans)
  have len: "length good \<le> unat len"
    using length_good_addrs [of "unat (erasesize d)" "unat address + unat len" "hinfc_bad cells d s" "unat address"] assms(11) by simp
  have pos: "0 < unat (nl_length nl)" using off_n len assms(5) unat_gt_0 [of n] by (simp add: opened(3))
  have "unat len \<le> unat (mtd_size d)" "unat (mtd_size d) < 2 ^ 62"
    using opened(3,4) mtd_dev.size_bound [OF dev] by (auto simp: opened(2,3))
  then have "unat off + unat n + unat (erasesize d) < 2 ^ 62 + 2 ^ 32" using off_n len u32_lt [of "erasesize d"] by linarith
  then have fits: "unat off + unat n + unat (erasesize d) < 2 ^ 64" by simp
  show ?thesis
    by (rule mtd_dev.logic_write_read [OF dev mtd_reliable.never_fails(2) [OF rel] opened(1) assms(5,6), unfolded mtd_sizes opened(2,3),
        OF assms(7,8) pos [unfolded opened(3)] fits assms(9,10)])
      (use assms(11-13) in auto)
qed

lemma logical_write_read_witness:
  "\<exists>nl nl1 s1 nl2 s2. nand_logic_open True True True (hinfc_mtd sim_mem sim_cfg 1000 sim_chip) 0x100000 0x100000 = Some (Some nl) \<and>
    nand_logic_write (hinfc_mtd sim_mem sim_cfg 1000 sim_chip) 0xb00000 0x60800 0x40000 0x900000 False nl sim_state = Some (int (unat (0x40000 :: u32)), nl1, s1) \<and>
    nand_logic_read (hinfc_mtd sim_mem sim_cfg 1000 sim_chip) 0x60800 0x40000 0xa00000 False nl1 s1 = Some (int (unat (0x40000 :: u32)), nl2, s2) \<and>
    load_bytes (ram s2) 0xa00000 (unat (0x40000 :: u32)) = load_bytes (ram sim_state) 0x900000 (unat (0x40000 :: u32))"
proof -
  obtain nl where o: "nand_logic_open True True True (hinfc_mtd sim_mem sim_cfg 1000 sim_chip) 0x100000 0x100000 = Some (Some nl)"
    using sim_partition by blast
  have blank: "hinfc_flash sim_cells sim_chip sim_state a = 0xff" if "a \<in> set sim_good" for a
    using that sim_blank by (auto simp: set_good_addrs)
  have "\<exists>nl1 s1 nl2 s2. nand_logic_write (hinfc_mtd sim_mem sim_cfg 1000 sim_chip) 0xb00000 0x60800 0x40000 0x900000 False nl sim_state = Some (int (unat (0x40000 :: u32)), nl1, s1) \<and>
    nand_logic_read (hinfc_mtd sim_mem sim_cfg 1000 sim_chip) 0x60800 0x40000 0xa00000 False nl1 s1 = Some (int (unat (0x40000 :: u32)), nl2, s2) \<and>
    load_bytes (ram s2) 0xa00000 (unat (0x40000 :: u32)) = load_bytes (ram sim_state) 0x900000 (unat (0x40000 :: u32))"
    by (rule logical_write_read [OF sim.hinfc_reliable_axioms sim_ready o _ _ _ _ _ _ _ _ blank])
      (auto simp: sim_sizes sim_good_length sim_bad [abs_def])
  then show ?thesis using o by blast
qed

end
