(* ===== verification/IdentProps.thy ===== *)
theory IdentProps
  imports NandIdent
begin

text \<open>
  The identification of a chip: the rows of the id tables are well formed, so that every chip found has sizes that the driver can
  work with; and, over any functions that read the id (\<open>id_chip\<close>), the sizes are those that the tables give for the id.
\<close>

section \<open>Sizes\<close>

text \<open>The sizes of a chip that the rest of the driver can work with: powers of two, a page below a block below the chip.\<close>

definition sizes_ok :: "u64 \<Rightarrow> u32 \<Rightarrow> u32 \<Rightarrow> bool" where
  "sizes_ok cs es ws \<longleftrightarrow>
     ws \<in> {512, 0x400, 0x800, 0x1000, 0x2000, 0x4000} \<and>
     es \<in> {0x4000, 0x10000, 0x20000, 0x40000, 0x80000, 0x100000, 0x200000, 0x400000} \<and>
     cs \<in> {0x1000000, 0x2000000, 0x4000000, 0x8000000, 0x10000000, 0x20000000, 0x40000000, 0x80000000,
           0x100000000, 0x200000000, 0x400000000} \<and> ws < es"

definition no_dev :: nand_dev where
  "no_dev = \<lparr>dev_type = \<lparr>fd_name = [], fd_id = 0, fd_pagesize = 0, fd_chipsize = 0, fd_erasesize = 0, fd_options = 0\<rparr>,
     dev_ids = [0, 0, 0, 0, 0, 0, 0, 0], dev_oobsize = 0, dev_ecctype = 0, dev_flags = 0, dev_rr_type = 0, dev_hostver = 0\<rparr>"

definition row_dev :: "special_dev \<Rightarrow> nand_dev" where
  "row_dev r = apply_row r (no_dev\<lparr>dev_ids := spl_id r\<rparr>)"

definition row_ok :: "special_dev \<Rightarrow> bool" where
  "row_ok r \<longleftrightarrow> length (spl_id r) = 8 \<and> 5 \<le> spl_len r \<and> spl_len r \<le> 8 \<and>
     (let ty = dev_type (row_dev r)
      in sizes_ok (chip_bytes ty) (fd_erasesize ty) (fd_pagesize ty) \<and> 64 \<le> dev_oobsize (row_dev r) \<and> fd_options ty = 0)"

lemma row_ok_fixed:
  "row_ok (fixed_row name ids len cs ps es oob rr bbp flags) \<longleftrightarrow>
     length ids = 8 \<and> 5 \<le> len \<and> len \<le> 8 \<and> sizes_ok (push_bit 20 (ucast (ucast (drop_bit 20 cs) :: u32))) es ps \<and> 64 \<le> uint oob"
  by (simp add: row_ok_def row_dev_def apply_row_def fixed_row_def chip_bytes_def Let_def)

lemma special_rows_ok: "list_all row_ok nand_flash_special_dev"
  apply (simp only: special_table list_all_append list.pred_inject row_ok_fixed)
  apply (simp add: sizes_ok_def)
  apply (simp add: row_ok_def row_dev_def apply_row_def probed_row_def fixed_row_def chip_bytes_def Let_def no_dev_def
     hynix_probe_v02_def samsung_probe_v02_def probe_sizes_def sizes_ok_def)
  done

lemma special_probes:
  "list_all (\<lambda>r. case spl_probe r of None \<Rightarrow> True | Some p \<Rightarrow> p = hynix_probe_v02 \<or> p = samsung_probe_v02) nand_flash_special_dev"
  by (simp add: special_table probed_row_def fixed_row_def)

definition ids_ok :: "flash_dev \<Rightarrow> bool" where
  "ids_ok ty \<longleftrightarrow>
     (if fd_pagesize ty = 0
      then chip_bytes ty \<in> {0x4000000, 0x8000000, 0x10000000, 0x20000000, 0x40000000, 0x80000000}
      else sizes_ok (chip_bytes ty) (fd_erasesize ty) (fd_pagesize ty))"

lemma flash_ids_ok: "list_all ids_ok nand_flash_ids"
  by (simp add: nand_flash_ids_def ids_ok_def chip_bytes_def sizes_ok_def)

lemma special_row_in:
  assumes "special_row ids = Some r"
  shows "r \<in> set nand_flash_special_dev" "row_ok r" "i < spl_len r \<Longrightarrow> i < length ids \<Longrightarrow> ids ! i = spl_id r ! i"
proof -
  show r: "r \<in> set nand_flash_special_dev" using assms by (auto simp: special_row_def find_Some_iff)
  then show ok: "row_ok r" using special_rows_ok by (simp add: list_all_iff)
  have eq: "take (spl_len r) ids = take (spl_len r) (spl_id r)" using assms by (auto simp: special_row_def find_Some_iff)
  then show "ids ! i = spl_id r ! i" if "i < spl_len r" "i < length ids"
    using that eq by (metis nth_take)
qed

lemma apply_row_sizes:
  assumes "r \<in> set nand_flash_special_dev" "dev_ids dev ! 3 = spl_id r ! 3"
  shows "fd_pagesize (dev_type (apply_row r dev)) = fd_pagesize (dev_type (row_dev r))"
    "fd_erasesize (dev_type (apply_row r dev)) = fd_erasesize (dev_type (row_dev r))"
    "chip_bytes (dev_type (apply_row r dev)) = chip_bytes (dev_type (row_dev r))"
    "dev_oobsize (apply_row r dev) = dev_oobsize (row_dev r)"
    "fd_options (dev_type (apply_row r dev)) = fd_options (dev_type (row_dev r))"
proof -
  have "spl_probe r = None \<or> spl_probe r = Some hynix_probe_v02 \<or> spl_probe r = Some samsung_probe_v02"
    using special_probes assms(1) by (auto simp: list_all_iff split: option.splits)
  then show "fd_pagesize (dev_type (apply_row r dev)) = fd_pagesize (dev_type (row_dev r))"
    "fd_erasesize (dev_type (apply_row r dev)) = fd_erasesize (dev_type (row_dev r))"
    "chip_bytes (dev_type (apply_row r dev)) = chip_bytes (dev_type (row_dev r))"
    "dev_oobsize (apply_row r dev) = dev_oobsize (row_dev r)"
    "fd_options (dev_type (apply_row r dev)) = fd_options (dev_type (row_dev r))"
    using assms(2) by (auto simp: apply_row_def row_dev_def chip_bytes_def hynix_probe_v02_def samsung_probe_v02_def probe_sizes_def Let_def)
qed

lemma read_ids_length [simp]: "length (fst (read_ids n d s)) = n"
  by (induction n arbitrary: s) (auto simp: split_beta Let_def)

lemma extid_sizes:
  assumes "decode_extid x = (ws, oob, es, w)"
  shows "ws \<in> {0x400, 0x800, 0x1000, 0x2000}" "es \<in> {0x10000, 0x20000, 0x40000, 0x80000}"
proof -
  have "unat (y AND 3) < 4" for y :: u8
    by (simp add: unat_and_mask [of y 2, simplified mask_eq_exp_minus_1, simplified])
  moreover have "n < 4 \<Longrightarrow> n \<in> {0, 1, 2, 3}" for n :: nat by auto
  ultimately have "unat (x AND 3) \<in> {0, 1, 2, 3}" "unat (drop_bit 4 x AND 3) \<in> {0, 1, 2, 3}" by blast+
  then show "ws \<in> {0x400, 0x800, 0x1000, 0x2000}" "es \<in> {0x10000, 0x20000, 0x40000, 0x80000}"
    using assms by (auto simp: decode_extid_def Let_def push_bit_eq_mult)
qed

lemma special_sizes:
  assumes "nand_get_special_flash_type d dev s = (Some t, dev', s')" "2 \<le> length (dev_ids dev)"
  shows "sizes_ok (chip_bytes (dev_type dev')) (fd_erasesize (dev_type dev')) (fd_pagesize (dev_type dev'))"
    "64 \<le> dev_oobsize dev'" "fd_options (dev_type dev') = 0" "dev_ids dev' = take 2 (dev_ids dev) @ fst (read_ids 6 d s)"
    "s' = snd (read_ids 6 d s)"
proof -
  define dev1 where "dev1 = dev\<lparr>dev_ids := take 2 (dev_ids dev) @ fst (read_ids 6 d s)\<rparr>"
  obtain r where r: "special_row (dev_ids dev1) = Some r" and dev': "dev' = apply_row r dev1" and s': "s' = snd (read_ids 6 d s)"
    using assms(1) by (auto simp: nand_get_special_flash_type_def dev1_def Let_def split_beta split: option.splits)
  note row = special_row_in [OF r]
  have "dev_ids dev1 ! 3 = spl_id r ! 3" using row(3) [of 3] row(2) assms(2) by (simp add: row_ok_def dev1_def)
  note sz = apply_row_sizes [OF row(1) this]
  show "sizes_ok (chip_bytes (dev_type dev')) (fd_erasesize (dev_type dev')) (fd_pagesize (dev_type dev'))"
    "64 \<le> dev_oobsize dev'" "fd_options (dev_type dev') = 0"
    using row(2) by (simp_all add: dev' sz row_ok_def Let_def)
  have "dev_ids (apply_row r dev1) = dev_ids dev1"
    using bspec [OF special_probes [unfolded list_all_iff] row(1)]
    by (auto simp: apply_row_def hynix_probe_v02_def samsung_probe_v02_def probe_sizes_def Let_def split: option.splits)
  then show "dev_ids dev' = take 2 (dev_ids dev) @ fst (read_ids 6 d s)" by (simp add: dev' dev1_def)
  show "s' = snd (read_ids 6 d s)" by (rule s')
qed

lemma find_type_sizes:
  assumes "find_type e maf dev_id d dev s = (Some f, s')"
  shows "sizes_ok (chipsize (fo_hw f)) (erasesize (fo_hw f)) (writesize (fo_hw f))"
proof -
  define dev1 where "dev1 = dev\<lparr>dev_ids := maf # dev_id # drop 2 (dev_ids dev)\<rparr>"
  obtain tag dev2 s2 where g: "(if spl_registered e then nand_get_special_flash_type d dev1 s else (None, dev1, s)) = (tag, dev2, s2)"
    by (metis prod_cases3)
  show ?thesis
  proof (cases tag)
    case (Some t)
    then have "nand_get_special_flash_type d dev1 s = (Some t, dev2, s2)" using g by (auto split: if_splits)
    moreover have "2 \<le> length (dev_ids dev1)" by (simp add: dev1_def)
    ultimately have "sizes_ok (chip_bytes (dev_type dev2)) (fd_erasesize (dev_type dev2)) (fd_pagesize (dev_type dev2))"
      by (rule special_sizes)
    then show ?thesis
      using assms Some by (auto simp: find_type_def dev1_def [symmetric] g Let_def)
  next
    case None
    then obtain ty where ty: "List.find (\<lambda>ty. fd_id ty = uint dev_id) nand_flash_ids = Some ty"
      using assms by (auto simp: find_type_def dev1_def [symmetric] g Let_def split: option.splits)
    then have ok: "ids_ok ty" using flash_ids_ok by (auto simp: list_all_iff find_Some_iff)
    obtain ws oob es w where x: "decode_extid (fst (read_byte d (snd (read_byte d s2)))) = (ws, oob, es, w)" by (metis prod_cases4)
    have "sizes_ok (chip_bytes ty) es ws" if "fd_pagesize ty = 0"
      using ok that extid_sizes [OF x] by (auto simp: ids_ok_def sizes_ok_def)
    moreover have "sizes_ok (chip_bytes ty) (fd_erasesize ty) (fd_pagesize ty)" if "fd_pagesize ty \<noteq> 0"
      using ok that by (simp add: ids_ok_def)
    moreover have "(Some f, s') = find_type e maf dev_id d dev s" using assms by simp
    ultimately show ?thesis
      using x by (auto simp: find_type_def dev1_def [symmetric] g None ty Let_def split_beta split: if_splits)
  qed
qed

section \<open>The table of special chips\<close>

text \<open>Two rows that no id fits both.\<close>

definition rows_apart :: "special_dev \<Rightarrow> special_dev \<Rightarrow> bool" where
  "rows_apart r r' \<longleftrightarrow> (let k = min (spl_len r) (spl_len r') in take k (spl_id r) \<noteq> take k (spl_id r'))"

definition id_fits :: "u8 list \<Rightarrow> special_dev \<Rightarrow> bool" where
  "id_fits ids r \<longleftrightarrow> take (spl_len r) ids = take (spl_len r) (spl_id r)"

lemma fits_not_apart: "id_fits ids r \<Longrightarrow> id_fits ids r' \<Longrightarrow> \<not> rows_apart r r'"
  by (simp add: id_fits_def rows_apart_def Let_def) (metis take_take min.commute)

lemma special_table_apart: "sorted_wrt rows_apart (take 8 nand_flash_special_dev @ drop 9 nand_flash_special_dev)"
  by code_simp

lemma special_table_twice:
  "length nand_flash_special_dev = 41" "spl_id (nand_flash_special_dev ! 8) = spl_id (nand_flash_special_dev ! 0)"
  "spl_len (nand_flash_special_dev ! 8) = spl_len (nand_flash_special_dev ! 0)"
  by code_simp+

lemma special_rows_apart:
  assumes "j < i" "i < length nand_flash_special_dev" "i \<noteq> 8" "j \<noteq> 8"
  shows "rows_apart (nand_flash_special_dev ! j) (nand_flash_special_dev ! i)"
proof -
  let ?T = nand_flash_special_dev and ?U = "take 8 nand_flash_special_dev @ drop 9 nand_flash_special_dev"
  let ?f = "\<lambda>i. if i < 8 then i else i - 1"
  have u: "?U ! ?f i = ?T ! i" if "i < length ?T" "i \<noteq> 8" for i
    using that special_table_twice(1) by (auto simp: nth_append)
  have "rows_apart (?U ! ?f j) (?U ! ?f i)"
    using special_table_apart assms special_table_twice(1) unfolding sorted_wrt_iff_nth_less by fastforce
  moreover have "?U ! ?f j = ?T ! j" by (rule u) (use assms in linarith)+
  moreover have "?U ! ?f i = ?T ! i" by (rule u) (use assms in linarith)+
  ultimately show ?thesis by (simp only:)
qed

text \<open>
  C31: Whatever bytes a chip answers with, when those that count are the id of a row of the table of special chips, the search gives that
  row: no other row takes them, wherever it stands.  There is one exception: the ninth row has the id of the first, so the MT29F256G08CMCBB is
  always taken for an MT29F64G08CBABA (and gets its read retry and its randomizer).
\<close>

theorem special_rows_found:
  assumes "i < length nand_flash_special_dev"
    and "take (spl_len (nand_flash_special_dev ! i)) ids = take (spl_len (nand_flash_special_dev ! i)) (spl_id (nand_flash_special_dev ! i))"
  shows "special_row ids = Some (nand_flash_special_dev ! (if i = 8 then 0 else i))"
proof -
  let ?T = nand_flash_special_dev and ?k = "if i = 8 then 0 else i"
  have f8: "id_fits ids (?T ! 8) = id_fits ids (?T ! 0)" by (simp only: id_fits_def special_table_twice)
  then have fits: "id_fits ids (?T ! ?k)" using assms(2) by (auto simp: id_fits_def)
  have k: "?k < length ?T" "?k \<noteq> 8" using assms(1) by auto
  have "\<not> id_fits ids (?T ! j)" if j: "j < ?k" for j
  proof
    assume "id_fits ids (?T ! j)"
    then have "id_fits ids (?T ! (if j = 8 then 0 else j))" using f8 by (cases "j = 8") simp_all
    moreover have "rows_apart (?T ! (if j = 8 then 0 else j)) (?T ! ?k)"
      by (rule special_rows_apart) (use j k in auto)
    ultimately show False using fits_not_apart fits by blast
  qed
  then show ?thesis using fits k(1) unfolding special_row_def find_Some_iff id_fits_def by blast
qed

text \<open>The id of the ninth row, with bytes after it.\<close>

lemma special_rows_found_witness:
  "map_option spl_name (special_row [0x2C, 0x64, 0x44, 0x4B, 0xA9, 0x00, 0x00, 0x00]) = Some ''MT29F64G08CBABA'' \<and>
   spl_name (nand_flash_special_dev ! 8) = ''MT29F256G08CMCBB''"
proof -
  have r: "spl_len (nand_flash_special_dev ! 8) = 8" "spl_id (nand_flash_special_dev ! 8) = [0x2C, 0x64, 0x44, 0x4B, 0xA9, 0x00, 0x00, 0x00]"
    "spl_name (nand_flash_special_dev ! 0) = ''MT29F64G08CBABA''" "spl_name (nand_flash_special_dev ! 8) = ''MT29F256G08CMCBB''"
    by code_simp+
  show ?thesis using special_rows_found [of 8] by (simp add: r special_table_twice(1))
qed

text \<open>
  The sizes in the tag for the kernel are those of the chip for the rows with fixed sizes only: for every chip whose sizes are probed, the
  page size that the kernel is told differs from the one that was found, and is 0.
\<close>

theorem probed_tag_sizes:
  "filter (\<lambda>r. tag_pagesize (row_tag r (row_dev r)) \<noteq> fd_pagesize (dev_type (row_dev r))) nand_flash_special_dev =
     filter (\<lambda>r. spl_probe r \<noteq> None) nand_flash_special_dev \<and>
   map (\<lambda>r. tag_pagesize (row_tag r (row_dev r))) (filter (\<lambda>r. spl_probe r \<noteq> None) nand_flash_special_dev) = [0, 0, 0, 0, 0, 0, 0]"
  by (simp add: special_table row_tag_def row_dev_def apply_row_def fixed_row_def probed_row_def no_dev_def
    hynix_probe_v02_def samsung_probe_v02_def probe_sizes_def Let_def)

section \<open>The geometry\<close>

text \<open>The reference for \<open>ffs\<close>: the position of the lowest bit set.\<close>

definition lowest_bit :: "u32 \<Rightarrow> nat" where
  "lowest_bit x = (LEAST n. bit x n)"

lemma ffs_step_lowest:
  assumes "bit x n" "\<And>j. j < n \<Longrightarrow> \<not> bit x j" "n < 2 * k" "n < 32"
  obtains y where "ffs_step k (x, r) = (y, r + (if k \<le> n then int k else 0))" "bit y (n - (if k \<le> n then k else 0))"
    "\<And>j. j < n - (if k \<le> n then k else 0) \<Longrightarrow> \<not> bit y j"
proof (cases "k \<le> n")
  case True
  have "x AND mask k = 0" using assms(2) True by (intro bit_word_eqI) (auto simp: bit_simps)
  then have "ffs_step k (x, r) = (signed_drop_bit k x, r + int k)" by (simp add: ffs_step_def)
  moreover have "bit (signed_drop_bit k x) (n - k)" using True assms(1,4) by (simp add: bit_simps) linarith
  moreover have "\<not> bit (signed_drop_bit k x) j" if "j < n - k" for j using that assms(2,4) by (auto simp: bit_simps)
  ultimately show thesis using that True by simp
next
  case False
  then have "bit (x AND mask k) n" using assms(1,4) by (simp add: bit_simps)
  then have "x AND mask k \<noteq> 0" by auto
  then show thesis using that [of x] False assms by (auto simp: ffs_step_def)
qed

lemma ffs_steps:
  "n < 2 ^ k \<Longrightarrow> bit x n \<Longrightarrow> (\<And>j. j < n \<Longrightarrow> \<not> bit x j) \<Longrightarrow> n < 32 \<Longrightarrow>
    snd (fold ffs_step (map (\<lambda>i. 2 ^ i) (rev [0 ..< k])) (x, r)) = r + int n"
proof (induction k arbitrary: n x r)
  case (Suc k)
  obtain y where y: "ffs_step (2 ^ k) (x, r) = (y, r + (if 2 ^ k \<le> n then int (2 ^ k) else 0))" "bit y (n - (if 2 ^ k \<le> n then 2 ^ k else 0))"
      "\<And>j. j < n - (if 2 ^ k \<le> n then 2 ^ k else 0) \<Longrightarrow> \<not> bit y j"
    by (rule ffs_step_lowest [OF Suc.prems(2,3) _ Suc.prems(4), of "2 ^ k" r]) (use Suc.prems(1) in auto)
  have "n - (if 2 ^ k \<le> n then 2 ^ k else 0) < 2 ^ k" "n - (if 2 ^ k \<le> n then 2 ^ k else 0) < 32" using Suc.prems(1,4) by auto
  from Suc.IH [OF this(1) y(2,3) this(2)] show ?case by (auto simp: y(1) of_nat_diff)
qed simp

text \<open>
  \<open>ffs\<close>, by its five halving steps on a signed number, is one more than the position of the lowest bit set, for every argument
  but 0, where it is 0.
\<close>

theorem ffs_lowest_bit: "generic_ffs x = (if x = 0 then 0 else int (lowest_bit x) + 1)"
proof (cases "x = 0")
  case False
  then obtain m where m: "bit x m" by (metis bit_eq_iff bit_0_eq bot_apply bot_bool_def)
  have n: "bit x (lowest_bit x)" "\<And>j. j < lowest_bit x \<Longrightarrow> \<not> bit x j"
    unfolding lowest_bit_def using m by (auto intro: LeastI dest: not_less_Least)
  have "lowest_bit x < 32" using n(1) bit_imp_le_length by fastforce
  then have "snd (fold ffs_step (map (\<lambda>i. 2 ^ i) (rev [0 ..< 5])) (x, 1)) = 1 + int (lowest_bit x)"
    using n by (intro ffs_steps) auto
  then show ?thesis using False by (simp add: generic_ffs_def numeral_eq_Suc)
qed (simp add: generic_ffs_def)

lemma ffs_pow2: "k < 32 \<Longrightarrow> generic_ffs (2 ^ k) = int k + 1"
proof -
  assume k: "k < 32"
  have "bit (2 ^ k :: u32) n \<longleftrightarrow> n = k" for n using k by (auto simp: bit_exp_iff)
  then have "snd (fold ffs_step (map (\<lambda>i. 2 ^ i) (rev [0 ..< 5])) (2 ^ k :: u32, 1)) = 1 + int k"
    using k by (intro ffs_steps) auto
  then show ?thesis using k by (simp add: generic_ffs_def numeral_eq_Suc power_not_zero)
qed

definition geometry_ok :: "('h, 'z) nand_hw_scheme \<Rightarrow> bool" where
  "geometry_ok g \<longleftrightarrow>
     unat (writesize g) = 2 ^ page_shift g \<and> unat (erasesize g) = 2 ^ phys_erase_shift g \<and> unat (chipsize g) = 2 ^ chip_shift g \<and>
     bbt_erase_shift g = phys_erase_shift g \<and> 9 \<le> page_shift g \<and> page_shift g < phys_erase_shift g \<and>
     phys_erase_shift g < chip_shift g \<and> pagemask g = 2 ^ (chip_shift g - page_shift g) - 1"

lemma sizes_pow2:
  assumes "sizes_ok cs es ws"
  obtains a b c where "ws = 2 ^ a" "es = 2 ^ b" "cs = 2 ^ c" "9 \<le> a" "a < b" "b < 23" "23 < c" "c < 35"
proof -
  have "ws = 2 ^ 9 \<or> ws = 2 ^ 10 \<or> ws = 2 ^ 11 \<or> ws = 2 ^ 12 \<or> ws = 2 ^ 13 \<or> ws = 2 ^ 14"
    using assms by (auto simp: sizes_ok_def)
  then obtain a where a: "ws = 2 ^ a" "9 \<le> a" "a < 15" by fastforce
  have "es = 2 ^ 14 \<or> es = 2 ^ 16 \<or> es = 2 ^ 17 \<or> es = 2 ^ 18 \<or> es = 2 ^ 19 \<or> es = 2 ^ 20 \<or> es = 2 ^ 21 \<or> es = 2 ^ 22"
    using assms by (auto simp: sizes_ok_def)
  then obtain b where b: "es = 2 ^ b" "b < 23" by fastforce
  have "cs = 2 ^ 24 \<or> cs = 2 ^ 25 \<or> cs = 2 ^ 26 \<or> cs = 2 ^ 27 \<or> cs = 2 ^ 28 \<or> cs = 2 ^ 29 \<or> cs = 2 ^ 30 \<or> cs = 2 ^ 31 \<or>
      cs = 2 ^ 32 \<or> cs = 2 ^ 33 \<or> cs = 2 ^ 34"
    using assms by (auto simp: sizes_ok_def)
  then obtain c where c: "cs = 2 ^ c" "23 < c" "c < 35" by fastforce
  have "(2 ^ a :: u32) < 2 ^ b" using assms a b by (simp add: sizes_ok_def)
  then have "(2 :: nat) ^ a < 2 ^ b" using a b by (simp add: word_less_nat_alt unat_pow2)
  then have "a < b" by simp
  then show thesis using that a b c by blast
qed

lemma scan_geometry_ok:
  assumes "sizes_ok (chipsize d) (erasesize d) (writesize d)"
  shows "geometry_ok (scan_geometry d)"
proof -
  obtain a b c where s: "writesize d = 2 ^ a" "erasesize d = 2 ^ b" "chipsize d = 2 ^ c" "9 \<le> a" "a < b" "b < 23" "23 < c" "c < 35"
    by (rule sizes_pow2 [OF assms])
  have m: "(0xffffffff :: u64) = mask 32" by (simp add: mask_eq_exp_minus_1)
  have low: "(2 ^ c :: u64) AND mask 32 = (if c < 32 then 2 ^ c else 0)"
    using s(8) by (intro bit_word_eqI) (auto simp: bit_simps)
  have ps: "nat (generic_ffs (writesize d) - 1) = a" "nat (generic_ffs (erasesize d) - 1) = b" using s by (simp_all add: ffs_pow2)
  have cs: "(if chipsize d AND 0xffffffff \<noteq> 0 then nat (generic_ffs (ucast (chipsize d)) - 1)
      else nat (generic_ffs (ucast (drop_bit 32 (chipsize d))) + 31)) = c"
  proof (cases "c < 32")
    case True
    then have "(ucast (2 ^ c :: u64) :: u32) = 2 ^ c" by (intro bit_word_eqI) (auto simp: bit_simps)
    then show ?thesis using True low by (simp add: s m ffs_pow2)
  next
    case False
    then have "(ucast (drop_bit 32 (2 ^ c :: u64)) :: u32) = 2 ^ (c - 32)"
      using s(8) by (intro bit_word_eqI) (auto simp: bit_simps)
    moreover have "c - 32 < 32" using s(8) by simp
    ultimately show ?thesis using False low by (simp add: s m ffs_pow2)
  qed
  have "drop_bit a (2 ^ c :: u64) = 2 ^ (c - a)" using s by (intro bit_word_eqI) (auto simp: bit_simps)
  moreover have "(ucast (2 ^ k - 1 :: u64) :: u32) = mask k" if "k < 32" for k
    using that by (intro bit_word_eqI) (auto simp: bit_simps mask_eq_exp_minus_1 [symmetric])
  moreover have "sint (mask k :: u32) = 2 ^ k - 1" if "k < 31" for k
  proof -
    have u: "unat (mask k :: u32) = 2 ^ k - 1" using that by (simp add: mask_eq_exp_minus_1 unat_minus_one unat_pow2)
    have "(2 :: nat) ^ k \<le> 2 ^ 31" using that by (intro power_increasing) auto
    then have "unat (mask k :: u32) < 2 ^ 31" by (simp add: u)
    then show ?thesis by (subst sint_small) (simp_all add: u of_nat_diff)
  qed
  ultimately have "sint (ucast (drop_bit a (chipsize d) - 1) :: u32) = 2 ^ (c - a) - 1" using s by simp
  then show ?thesis
    unfolding scan_geometry_def Let_def ps cs using s by (simp add: geometry_ok_def unat_pow2)
qed

lemma geometry_ok_cong:
  "geometry_ok (g\<lparr>cmdfunc := c\<rparr>) = geometry_ok g" "geometry_ok (g\<lparr>numchips := n, mtd_size := z\<rparr>) = geometry_ok g"
  by (simp_all add: geometry_ok_def)

section \<open>Identification\<close>

lemma count_chips_bound: "count_chips left i maf tid d s = (n, s') \<Longrightarrow> i \<le> n \<and> n \<le> i + left"
  by (induction left arbitrary: i s) (force simp: Let_def split_beta split: if_splits)+

lemma set_up_chip_sizes:
  assumes "set_up_chip e name ex maf f0 s = Some (Inr (maf', f, info), s')" "sizes_ok (chipsize (fo_hw f0)) (erasesize (fo_hw f0)) (writesize (fo_hw f0))"
    and "\<And>adjust g dv t err g' dv' t'. param_adjust e = Some adjust \<Longrightarrow> adjust g dv t = Some (err, g', dv', t') \<Longrightarrow>
      chipsize g' = chipsize g \<and> erasesize g' = erasesize g \<and> writesize g' = writesize g"
  shows "geometry_ok (fo_hw f)"
    "ex = None \<longrightarrow> ex_chipsize info = chipsize (fo_hw f) \<and> ex_erasesize info = erasesize (fo_hw f) \<and> ex_pagesize info = writesize (fo_hw f)"
proof -
  obtain g dv s3 where adj: "(case param_adjust e of None \<Rightarrow> Some (0, fo_hw f0, fo_dev f0, s) | Some adjust \<Rightarrow> adjust (fo_hw f0) (fo_dev f0) s) = Some (0, g, dv, s3)"
      and f: "f = f0\<lparr>fo_hw := (case command_lp e of Some lp \<Rightarrow> if 512 < writesize (scan_geometry g) then (scan_geometry g)\<lparr>cmdfunc := lp (scan_geometry g)\<rparr> else scan_geometry g
            | None \<Rightarrow> scan_geometry g), fo_dev := dv\<rparr>"
      and info: "info = (case ex of Some x \<Rightarrow> x | None \<Rightarrow> info_ex (case name of Some n \<Rightarrow> n | None \<Rightarrow> fd_name (fo_type f0)) g dv)"
    using assms(1) unfolding set_up_chip_def
    by (clarsimp simp: Let_def bind_eq_Some_conv split: if_splits)
  have "sizes_ok (chipsize g) (erasesize g) (writesize g)"
    using assms(2) adj assms(3) by (auto split: option.splits)
  then have ok: "geometry_ok (scan_geometry g)" by (rule scan_geometry_ok)
  then show "geometry_ok (fo_hw f)" by (auto simp: f geometry_ok_cong split: option.splits)
  show "ex = None \<longrightarrow> ex_chipsize info = chipsize (fo_hw f) \<and> ex_erasesize info = erasesize (fo_hw f) \<and> ex_pagesize info = writesize (fo_hw f)"
    by (auto simp: f info info_ex_def scan_geometry_def Let_def split: option.splits)
qed

lemma get_flash_type_found:
  assumes "nand_get_flash_type e name ex d dev s = Some (Inr (maf, f, info), s')"
  obtains dev_id s1 f0 s2 where "find_type e maf dev_id d dev s1 = (Some f0, s2)"
    "set_up_chip e name ex maf f0 s2 = Some (Inr (maf, f, info), s')"
proof -
  obtain m1 t1 where t1: "read_byte d (cmdfunc d NAND_CMD_READID 0 (- 1) (cmdfunc d NAND_CMD_RESET (- 1) (- 1) (select_chip d 0 s))) = (m1, t1)"
    by fastforce
  obtain i1 t2 where t2: "read_byte d t1 = (i1, t2)" by fastforce
  obtain m2 t3 where t3: "read_byte d (cmdfunc d NAND_CMD_READID 0 (- 1) t2) = (m2, t3)" by fastforce
  obtain i2 t4 where t4: "read_byte d t3 = (i2, t4)" by fastforce
  obtain fo t5 where t5: "find_type e m1 i1 d dev t4 = (fo, t5)" by fastforce
  obtain f0 where fo: "fo = Some f0" "set_up_chip e name ex m1 f0 t5 = Some (Inr (maf, f, info), s')"
    using assms by (auto simp: nand_get_flash_type_def Let_def t1 t2 t3 t4 t5 split: if_splits option.splits)
  moreover have "m1 = maf" using fo(2) by (auto simp: set_up_chip_def Let_def bind_eq_Some_conv split: if_splits)
  ultimately show thesis using that t5 by blast
qed

text \<open>
  C15: Whatever chip the scan finds, with the controller's set-up leaving its sizes alone: page, block and chip are powers of two,
  the shifts are their logarithms, a page is smaller than a block and a block smaller than the chip, the page mask covers the
  chip, and the size of the device is that of the chips found, which are at most as many as were allowed for.
\<close>

theorem ident_geometry:
  assumes "nand_scan_ident e maxchips name ex d dev s = Some (Inr (f, info), s')"
    and "\<And>adjust g dv t err g' dv' t'. param_adjust e = Some adjust \<Longrightarrow> adjust g dv t = Some (err, g', dv', t') \<Longrightarrow>
      chipsize g' = chipsize g \<and> erasesize g' = erasesize g \<and> writesize g' = writesize g"
  shows "geometry_ok (fo_hw f) \<and> 1 \<le> numchips (fo_hw f) \<and> numchips (fo_hw f) \<le> max 1 maxchips \<and>
    mtd_size (fo_hw f) = of_nat (numchips (fo_hw f)) * 2 ^ chip_shift (fo_hw f) \<and> ex_numchips info = numchips (fo_hw f)"
proof -
  obtain maf f1 info1 s1 n s2 where r: "nand_get_flash_type e name ex d dev s = Some (Inr (maf, f1, info1), s1)"
      "count_chips (maxchips - 1) 1 maf (fd_id (fo_type f1)) (fo_hw f1) s1 = (n, s2)"
      "f = f1\<lparr>fo_hw := (fo_hw f1)\<lparr>numchips := n, mtd_size := of_nat n * chipsize (fo_hw f1)\<rparr>\<rparr>" "info = info1\<lparr>ex_numchips := n\<rparr>"
  proof -
    obtain q s1 where q: "nand_get_flash_type e name ex d dev s = Some (q, s1)"
      using assms(1) by (auto simp: nand_scan_ident_def bind_eq_Some_conv)
    obtain maf f1 info1 where q1: "q = Inr (maf, f1, info1)"
      using assms(1) by (auto simp: nand_scan_ident_def q split: sum.splits)
    obtain n s2 where n: "count_chips (maxchips - 1) 1 maf (fd_id (fo_type f1)) (fo_hw f1) s1 = (n, s2)" by fastforce
    show thesis by (rule that [OF q [unfolded q1] n]) (use assms(1) n in \<open>simp_all add: nand_scan_ident_def q q1 Let_def\<close>)
  qed
  obtain dev_id t1 f0 t2 where ft: "find_type e maf dev_id d dev t1 = (Some f0, t2)"
    "set_up_chip e name ex maf f0 t2 = Some (Inr (maf, f1, info1), s1)"
    by (rule get_flash_type_found [OF r(1)])
  have ok: "geometry_ok (fo_hw f1)" by (rule set_up_chip_sizes(1) [OF ft(2) find_type_sizes [OF ft(1)] assms(2)])
  then have "chipsize (fo_hw f1) = 2 ^ chip_shift (fo_hw f1)"
    by (metis geometry_ok_def of_nat_numeral of_nat_power of_nat_unat ucast_id)
  then show ?thesis using ok count_chips_bound [OF r(2)] by (auto simp: r(3,4) geometry_ok_cong)
qed

section \<open>The id\<close>

text \<open>The sizes for an id (chip, block and page, and whether the bus is wide), by the tables alone.\<close>

definition id_sizes :: "bool \<Rightarrow> u8 list \<Rightarrow> (u64 \<times> u32 \<times> u32 \<times> bool) option" where
  "id_sizes special ids =
     (case (if special then special_row ids else None) of
        Some r \<Rightarrow> (let ty = dev_type (row_dev r) in Some (chip_bytes ty, fd_erasesize ty, fd_pagesize ty, False))
      | None \<Rightarrow>
          map_option (\<lambda>ty. if fd_pagesize ty = 0 then (case decode_extid (ids ! 3) of (ws, oob, es, wide) \<Rightarrow> (chip_bytes ty, es, ws, wide))
                           else (chip_bytes ty, fd_erasesize ty, fd_pagesize ty, fd_options ty AND NAND_BUSWIDTH_16 \<noteq> 0))
            (List.find (\<lambda>ty. fd_id ty = uint (ids ! 1)) nand_flash_ids))"

locale id_chip =
  fixes d :: "'h nand_hw" and ok :: "'h nand_st \<Rightarrow> bool" and at :: "nat \<Rightarrow> 'h nand_st \<Rightarrow> bool" and ids :: "u8 list" and opts :: u32
  assumes id_length: "length ids = 8"
    and options_law: "ok s \<Longrightarrow> chip_options s = opts"
    and select_law: "ok s \<Longrightarrow> ok (select_chip d 0 s)"
    and reset_law: "ok s \<Longrightarrow> ok (cmdfunc d NAND_CMD_RESET (- 1) (- 1) s)"
    and readid_law: "ok s \<Longrightarrow> ok (cmdfunc d NAND_CMD_READID 0 (- 1) s) \<and> at 0 (cmdfunc d NAND_CMD_READID 0 (- 1) s)"
    and byte_law: "ok s \<Longrightarrow> at k s \<Longrightarrow> k < 8 \<Longrightarrow> read_byte d s = (b, s') \<Longrightarrow> b = ids ! k \<and> ok s' \<and> at (Suc k) s'"

context id_chip begin

lemma byte: "ok s \<Longrightarrow> at k s \<Longrightarrow> k < 8 \<Longrightarrow> \<exists>s'. read_byte d s = (ids ! k, s') \<and> ok s' \<and> at (Suc k) s'"
  using byte_law [of s k] by (metis surj_pair)

lemma ids: "ok s \<Longrightarrow> at k s \<Longrightarrow> k + n \<le> 8 \<Longrightarrow> \<exists>s'. read_ids n d s = (take n (drop k ids), s') \<and> ok s' \<and> at (k + n) s'"
proof (induction n arbitrary: k s)
  case (Suc n)
  obtain s1 where 1: "read_byte d s = (ids ! k, s1)" "ok s1" "at (Suc k) s1" using byte [OF Suc.prems(1,2)] Suc.prems(3) by auto
  obtain s2 where 2: "read_ids n d s1 = (take n (drop (Suc k) ids), s2)" "ok s2" "at (Suc k + n) s2"
    using Suc.IH [OF 1(2,3)] Suc.prems(3) by auto
  have "take (Suc n) (drop k ids) = ids ! k # take n (drop (Suc k) ids)"
    using Suc.prems(3) id_length by (simp add: Cons_nth_drop_Suc [symmetric])
  then show ?case using 1 2 by simp
qed simp

lemma special:
  assumes "ok s" "at 2 s" "take 2 (dev_ids dev) = take 2 ids"
  shows "\<exists>s'. ok s' \<and> (case special_row ids of
      Some r \<Rightarrow> nand_get_special_flash_type d dev s =
        (Some (row_tag r (apply_row r (dev\<lparr>dev_ids := ids\<rparr>))), apply_row r (dev\<lparr>dev_ids := ids\<rparr>), s')
    | None \<Rightarrow> nand_get_special_flash_type d dev s = (None, dev\<lparr>dev_ids := ids, dev_rr_type := NAND_RR_NONE\<rparr>, s') \<and> at 2 s')"
proof -
  obtain s1 where 1: "read_ids 6 d s = (take 6 (drop 2 ids), s1)" "ok s1" using ids [OF assms(1,2), of 6] by auto
  have eq: "take 2 (dev_ids dev) @ take 6 (drop 2 ids) = ids"
    unfolding assms(3) using id_length by (simp add: take_add [symmetric])
  obtain s2 where 2: "read_ids 2 d (cmdfunc d NAND_CMD_READID 0 (- 1) s1) = (take 2 ids, s2)" "ok s2" "at 2 s2"
    using ids [of "cmdfunc d NAND_CMD_READID 0 (- 1) s1" 0 2] readid_law [OF 1(2)] by (auto simp: numeral_2_eq_2)
  show ?thesis
    using 1 2 by (cases "special_row ids") (simp_all add: nand_get_special_flash_type_def eq Let_def)
qed

lemma find_type:
  assumes "ok s" "at 2 s"
  shows "\<exists>fo s'. find_type e (ids ! 0) (ids ! 1) d dev s = (fo, s') \<and> ok s' \<and>
    map_option (\<lambda>f. (chipsize (fo_hw f), erasesize (fo_hw f), writesize (fo_hw f), fo_busw f)) fo = id_sizes (spl_registered e) ids"
proof -
  define dev1 where "dev1 = dev\<lparr>dev_ids := ids ! 0 # ids ! Suc 0 # drop 2 (dev_ids dev)\<rparr>"
  have t2: "take 2 (dev_ids dev1) = take 2 ids"
    using id_length by (intro nth_equalityI) (auto simp: dev1_def nth_Cons' less_Suc_eq numeral_2_eq_2)
  show ?thesis
  proof (cases "if spl_registered e then special_row ids else None")
    case (Some r)
    then have sp: "spl_registered e" "special_row ids = Some r" by (auto split: if_splits)
    then obtain s1 where 1: "ok s1" "nand_get_special_flash_type d dev1 s =
        (Some (row_tag r (apply_row r (dev1\<lparr>dev_ids := ids\<rparr>))), apply_row r (dev1\<lparr>dev_ids := ids\<rparr>), s1)"
      using special [OF assms t2] by auto
    note row = special_row_in [OF sp(2)]
    have "dev_ids (dev1\<lparr>dev_ids := ids\<rparr>) ! 3 = spl_id r ! 3" using row(3) [of 3] row(2) id_length by (simp add: row_ok_def)
    note sz = apply_row_sizes [OF row(1) this]
    have "fd_options (dev_type (row_dev r)) = 0" using row(2) by (simp add: row_ok_def Let_def)
    then show ?thesis
      using 1(1) by (simp add: find_type_def dev1_def [symmetric] sp 1(2) sz id_sizes_def Let_def)
  next
    case None
    obtain dev2 s1 where 1: "(if spl_registered e then nand_get_special_flash_type d dev1 s else (None, dev1, s)) = (None, dev2, s1)"
        "ok s1" "at 2 s1"
      using special [OF assms t2] assms None by (auto split: if_splits)
    obtain s2 where 2: "read_byte d s1 = (ids ! 2, s2)" "ok s2" "at 3 s2" using byte [OF 1(2,3)] by (auto simp: numeral_3_eq_3)
    obtain s3 where 3: "read_byte d s2 = (ids ! 3, s3)" "ok s3" using byte [OF 2(2,3)] by auto
    obtain ws oob es w where x: "decode_extid (ids ! 3) = (ws, oob, es, w)" by (metis prod_cases4)
    show ?thesis
      using 1(2) 2 3 by (auto simp: find_type_def dev1_def [symmetric] 1(1) None id_sizes_def x Let_def split: option.split)
  qed
qed

text \<open>The identification of the first chip, when the controller accepts it.\<close>

lemma flash_type:
  assumes "ok s"
    and "case param_adjust e of None \<Rightarrow> True
      | Some adjust \<Rightarrow> \<forall>g dv t. \<exists>g' dv' t'. adjust g dv t = Some (0, g', dv', t') \<and> chipsize g' = chipsize g \<and>
          erasesize g' = erasesize g \<and> writesize g' = writesize g \<and> chip_options t' AND NAND_BUSWIDTH_16 = chip_options t AND NAND_BUSWIDTH_16"
  shows "\<exists>r s'. nand_get_flash_type e name ex d dev s = Some (r, s') \<and>
    (case id_sizes (spl_registered e) ids of
       None \<Rightarrow> r = Inl (- ENODEV)
     | Some (cs, es, ws, wide) \<Rightarrow>
         (case r of Inl err \<Rightarrow> err = - EINVAL \<and> wide \<noteq> (opts AND NAND_BUSWIDTH_16 \<noteq> 0)
          | Inr (maf, f, info) \<Rightarrow> wide = (opts AND NAND_BUSWIDTH_16 \<noteq> 0) \<and> maf = ids ! 0 \<and> chipsize (fo_hw f) = cs \<and> erasesize (fo_hw f) = es \<and> writesize (fo_hw f) = ws))"
proof -
  let ?s0 = "cmdfunc d NAND_CMD_RESET (- 1) (- 1) (select_chip d 0 s)"
  have 0: "ok ?s0" using select_law reset_law assms(1) by blast
  obtain s1 where 1: "read_byte d (cmdfunc d NAND_CMD_READID 0 (- 1) ?s0) = (ids ! 0, s1)" "ok s1" "at 1 s1"
    using byte [of _ 0] readid_law [OF 0] by fastforce
  obtain s2 where 2: "read_byte d s1 = (ids ! 1, s2)" "ok s2" using byte [OF 1(2,3)] by auto
  obtain s3 where 3: "read_byte d (cmdfunc d NAND_CMD_READID 0 (- 1) s2) = (ids ! 0, s3)" "ok s3" "at 1 s3"
    using byte [of _ 0] readid_law [OF 2(2)] by fastforce
  obtain s4 where 4: "read_byte d s3 = (ids ! 1, s4)" "ok s4" "at 2 s4" using byte [OF 3(2,3)] by (auto simp: numeral_2_eq_2)
  obtain fo s5 where 5: "find_type e (ids ! 0) (ids ! 1) d dev s4 = (fo, s5)" "ok s5"
      "map_option (\<lambda>f. (chipsize (fo_hw f), erasesize (fo_hw f), writesize (fo_hw f), fo_busw f)) fo = id_sizes (spl_registered e) ids"
    using find_type [OF 4(2,3)] by blast
  have eq: "nand_get_flash_type e name ex d dev s =
      (case fo of None \<Rightarrow> Some (Inl (- ENODEV), s5) | Some f \<Rightarrow> set_up_chip e name ex (ids ! 0) f s5)"
    by (cases fo) (simp_all add: nand_get_flash_type_def Let_def 1(1) 2(1) 3(1) 4(1) 5(1) [unfolded One_nat_def])
  show ?thesis
  proof (cases fo)
    case None
    then show ?thesis using 5(3) eq by auto
  next
    case (Some f)
    obtain g dv t where a: "(case param_adjust e of None \<Rightarrow> Some (0, fo_hw f, fo_dev f, s5) | Some adjust \<Rightarrow> adjust (fo_hw f) (fo_dev f) s5) =
        Some (0, g, dv, t)" "chipsize g = chipsize (fo_hw f)" "erasesize g = erasesize (fo_hw f)" "writesize g = writesize (fo_hw f)"
        "chip_options t AND NAND_BUSWIDTH_16 = opts AND NAND_BUSWIDTH_16"
      using assms(2) options_law [OF 5(2)] by (cases "param_adjust e") (auto, metis)
    show ?thesis
      unfolding eq Some 5(3) [symmetric] set_up_chip_def
      by (simp add: a scan_geometry_def Let_def split: option.split)
  qed
qed

end

end
