(* ===== verification/HinfcIdent.thy ===== *)
theory HinfcIdent
  imports IdentProps NfcSim Hinfc610Init
begin

text \<open>
  The identification over the driver of the controller V610: while the chip is not known, \<open>cmdfunc\<close> is \<open>nand_command\<close> over the
  driver's \<open>cmd_ctrl\<close>.  For every controller that answers the read of the id with some bytes, the scan finds the chip that the
  tables give for these bytes.
\<close>

section \<open>The driver in the scan\<close>

definition hinfc610_ident_chip :: "'c hinfc_cfg \<Rightarrow> 'c hinfc_host nand_hw \<Rightarrow> 'c hinfc_host nand_hw" where
  "hinfc610_ident_chip c d =
     (hinfc610_nand_init c d)\<lparr>cmdfunc := \<lambda>cmd col page. on_hw (fold (bus_cycle c) (nand_command (hinfc610_cmd_chip d) cmd col page))\<rparr>"

text \<open>The read/write latch of a chip: the table of the board, whose last row has length 0 and is taken when no other fits.\<close>

record hinfc_rw_latch =
  rl_name :: string
  rl_id :: "u8 list"
  rl_length :: nat
  rl_latch :: u32

definition hinfc610_rw_latch_table :: "hinfc_rw_latch list" where
  "hinfc610_rw_latch_table = [\<lparr>rl_name = ''general'', rl_id = replicate 8 0, rl_length = 0, rl_latch = 0x375\<rparr>]"

fun get_hinfc_rw_latch :: "hinfc_rw_latch list \<Rightarrow> u8 list \<Rightarrow> hinfc_rw_latch option" where
  "get_hinfc_rw_latch [] ids = None"
| "get_hinfc_rw_latch (r # rs) ids =
     (if rl_length r = 0 \<or> take (rl_length r) ids = take (rl_length r) (rl_id r) then Some r else get_hinfc_rw_latch rs ids)"

text \<open>
  The driver's \<open>nand_param_adjust\<close>, as the scan sees it: what it changes in the device and in \<open>nand_dev\<close> beside the host.  What an
  error leaves behind is not looked at by the scan, which gives up.
\<close>

definition hinfc610_adjust ::
  "'c hinfc_cfg \<Rightarrow> int \<Rightarrow> bool \<Rightarrow> u32 option \<Rightarrow> hinfc_rw_latch list \<Rightarrow> 'c hinfc_host nand_hw \<Rightarrow> nand_dev \<Rightarrow>
     'c hinfc_host nand_st \<Rightarrow> (int \<times> 'c hinfc_host nand_hw \<times> nand_dev \<times> 'c hinfc_host nand_st) option" where
  "hinfc610_adjust c version nand_boot buforg latches d dev s =
     do {
       r \<leftarrow> hinfc610_param_adjust c version nand_boot (dev_flags dev) (dev_rr_type dev) buforg
              (map_option rl_latch (get_hinfc_rw_latch latches (dev_ids dev))) d (hw s);
       (case r of
          Inl err \<Rightarrow> Some (err, d, dev, s)
        | Inr (best, h) \<Rightarrow>
            Some (0, d\<lparr>oobsize := (if cfg_ecctype best \<noteq> NAND_ECC_TYPE_NONE then cfg_oobsize best else oobsize d), oobused := 32,
                       ecclayout := \<lparr>oobavail = 0, oobfree = [cfg_layout best], eccpos = []\<rparr>,
                       block_bad_fn := (if fst (hinfc610_chip_adjust (dev_ids dev ! 0) (chip_options s))
                                        then Some (hinfc610_nand_block_bad c) else block_bad_fn d)\<rparr>,
                  dev\<lparr>dev_flags := dev_flags dev OR (host_flags h AND (if version = 0x610 then 7 else 3)), dev_ecctype := ecctype h,
                      dev_hostver := 0x610\<rparr>,
                  s\<lparr>hw := h, chip_options := snd (hinfc610_chip_adjust (dev_ids dev ! 0) (chip_options s))\<rparr>))
     }"

lemma adjust_keeps_sizes:
  assumes "hinfc610_adjust c version nand_boot buforg latches d dev s = Some (err, d', dev', s')"
  shows "chipsize d' = chipsize d \<and> erasesize d' = erasesize d \<and> writesize d' = writesize d"
  using assms by (auto simp: hinfc610_adjust_def split: Option.bind_split_asm sum.split_asm prod.split_asm)

section \<open>The contract\<close>

text \<open>The controller of \<open>nfc_controller\<close>, with a chip that has an id: a read of the id leaves it in the controller's memory.\<close>

locale nfc_id_controller =
  nfc_controller ct base oob con data_bytes spare_bytes mark_pos large ppb npages up reg cells failed busy
  for ct :: "'c nfc_ctl" and base oob con data_bytes spare_bytes mark_pos large ppb npages up reg cells failed busy +
  fixes c :: "'c hinfc_cfg" and d :: "'c hinfc_host nand_hw" and ids :: "u8 list" and opts :: u32
  assumes id_cfg: "ctl c = ct" "0 \<le> max_chip c" "length ids = 8"
    and readid_op_law: "up (nfc b) \<Longrightarrow> reg (nfc b) HINFC610_CMD = 0x90 \<Longrightarrow> reg (nfc b) HINFC610_ADDRL = 0 \<Longrightarrow>
      b' = reg_write ct HINFC610_OP 0x262 b \<Longrightarrow>
      up (nfc b') \<and> busy (nfc b') < 0xF0000000 \<and> (\<forall>k < 8. io_mem b' k = ids ! k)"

context nfc_id_controller begin

text \<open>The host between operations in asynchronous mode, and with the id in the controller's memory.\<close>

definition idle :: "'c hinfc_host \<Rightarrow> bool" where
  "idle h \<longleftrightarrow> up (nfc (bus h)) \<and> chipselect h = 0 \<and> \<not> HINFC610_IS_SYNC h \<and> \<not> stuck h"

definition shows_id :: "'c hinfc_host \<Rightarrow> bool" where
  "shows_id h \<longleftrightarrow> command h = 0x90 \<and> (\<forall>k < 8. io_mem (bus h) k = ids ! k)"

lemma write_idle:
  assumes "idle h" "r \<noteq> HINFC610_OP" "r \<noteq> HINFC610_DMA_CTRL"
  shows "idle (hinfc_write c v r h)" "io_mem (bus (hinfc_write c v r h)) = io_mem (bus h)"
    "reg (nfc (bus (hinfc_write c v r h))) = (reg (nfc (bus h)))(r := v)"
    "command (hinfc_write c v r h) = command h" "offset (hinfc_write c v r h) = offset h" "addr_cycle (hinfc_write c v r h) = addr_cycle h"
  using passive_law [of "bus h" r "reg_write ct r v (bus h)" v] assms
  by (auto simp: hinfc_write_def id_cfg idle_def HINFC610_IS_SYNC_def)

lemma randomizer:
  fixes e r :: bool
  assumes "idle h"
  defines "h' \<equiv> hinfc610_enable_ecc_randomizer c e r h"
  shows "idle h'" "io_mem (bus h') = io_mem (bus h)" "command h' = command h" "offset h' = offset h" "addr_cycle h' = addr_cycle h"
proof -
  define h1 where "h1 = (if IS_NAND_RANDOM h
      then (if r then h\<lparr>NFC_CON := NFC_CON h OR 0x4000, NFC_CON_ECC_NONE := NFC_CON_ECC_NONE h OR 0x4000\<rparr>
            else h\<lparr>NFC_CON := NFC_CON h AND NOT 0x4000, NFC_CON_ECC_NONE := NFC_CON_ECC_NONE h AND NOT 0x4000\<rparr>)
      else h)"
  have m: "(x OR 0x4000) AND 0x18000 = x AND 0x18000" "(x AND NOT 0x4000) AND 0x18000 = x AND 0x18000" for x :: u32
    by (simp_all add: bit.conj_disj_distrib2 and.assoc)
  have "NFC_CON h1 AND 0x18000 = NFC_CON h AND 0x18000"
    using m(1) m(2) [of "NFC_CON h"] by (simp add: h1_def)
  then have 1: "idle h1" "bus h1 = bus h" "command h1 = command h" "offset h1 = offset h" "addr_cycle h1 = addr_cycle h"
    using assms(1) by (simp_all add: idle_def HINFC610_IS_SYNC_def) (simp_all add: h1_def)
  have "h' = hinfc_write c (if e then NFC_CON h1 else NFC_CON_ECC_NONE h1) HINFC610_CON h1"
    by (simp only: h'_def hinfc610_enable_ecc_randomizer_def Let_def h1_def [symmetric])
  then show "idle h'" "io_mem (bus h') = io_mem (bus h)" "command h' = command h" "offset h' = offset h" "addr_cycle h' = addr_cycle h"
    using write_idle [OF 1(1), of HINFC610_CON] 1(2-5) by simp_all
qed

lemma waited:
  assumes "idle h" "busy (nfc (bus h)) < n"
  shows "\<exists>b'. wait_reg c HINFC610_STATUS (\<lambda>v. v AND 0x1 = 0) n h = h\<lparr>bus := b'\<rparr> \<and> idle (h\<lparr>bus := b'\<rparr>) \<and> io_mem b' = io_mem (bus h)"
  using assms
proof (induction n arbitrary: h)
  case (Suc n)
  obtain v b1 where r: "reg_read ct HINFC610_STATUS (bus h) = (v, b1)" by fastforce
  let ?h1 = "h\<lparr>bus := b1\<rparr>"
  have 1: "hinfc_read c HINFC610_STATUS h = (v, ?h1)" "idle ?h1" "io_mem b1 = io_mem (bus h)"
      "busy (nfc b1) = busy (nfc (bus h)) - 1" "busy (nfc (bus h)) = 0 \<longrightarrow> v AND 1 \<noteq> 0"
    using reg_read_law [OF _ r] Suc.prems(1) by (simp_all add: hinfc_read_def id_cfg r idle_def HINFC610_IS_SYNC_def)
  show ?case
  proof (cases "v AND 1 = 0")
    case False
    then have "wait_reg c HINFC610_STATUS (\<lambda>v. v AND 0x1 = 0) (Suc n) h = ?h1" by (subst wait_reg.simps) (simp add: 1(1))
    then show ?thesis using 1 by auto
  next
    case True
    then have "busy (nfc (bus ?h1)) < n" using 1(4,5) Suc.prems(2) by simp
    from Suc.IH [OF 1(2) this] show ?thesis
      using True 1(3) by (subst wait_reg.simps) (auto simp: 1(1))
  qed
qed simp

lemma readid_command:
  assumes "idle h"
  shows "idle (cmd_phase c 0x90 h) \<and> shows_id (cmd_phase c 0x90 h)"
proof -
  define h0 where "h0 = h\<lparr>command := 0x90, bus := (bus h)\<lparr>io_mem := fill_bytes (io_mem (bus h)) 0 0 0x10\<rparr>\<rparr>"
  define h1 where "h1 = hinfc610_enable_ecc_randomizer c False False h0"
  define h2 where "h2 = hinfc_write c 0x10 HINFC610_DATA_NUM h1"
  define h3 where "h3 = hinfc_write c 0x90 HINFC610_CMD h2"
  define h4 where "h4 = hinfc_write c 0 HINFC610_ADDRL h3"
  define h5 where "h5 = (hinfc_write c 0x262 HINFC610_OP h4)\<lparr>addr_cycle := 0\<rparr>"
  have 0: "idle h0" "command h0 = 0x90" using assms by (simp_all add: h0_def idle_def HINFC610_IS_SYNC_def)
  have 1: "idle h1" "command h1 = 0x90" using randomizer [OF 0(1)] 0(2) by (simp_all add: h1_def)
  have 2: "idle h2" "command h2 = 0x90" using write_idle [OF 1(1), of HINFC610_DATA_NUM] 1(2) by (simp_all add: h2_def)
  have 3: "idle h3" "command h3 = 0x90" "reg (nfc (bus h3)) HINFC610_CMD = 0x90"
    using write_idle [OF 2(1), of HINFC610_CMD] 2(2) by (simp_all add: h3_def)
  have 4: "idle h4" "command h4 = 0x90" "reg (nfc (bus h4)) HINFC610_CMD = 0x90" "reg (nfc (bus h4)) HINFC610_ADDRL = 0"
    using write_idle [OF 3(1), of HINFC610_ADDRL] 3(2,3) by (simp_all add: h4_def)
  have "up (nfc (bus h4))" using 4(1) by (simp add: idle_def)
  from readid_op_law [OF this 4(3,4) refl]
  have 5: "idle h5" "command h5 = 0x90" "busy (nfc (bus h5)) < 0xF0000000" "\<forall>k < 8. io_mem (bus h5) k = ids ! k"
    using 4(1,2) by (simp_all add: h5_def hinfc_write_def id_cfg idle_def HINFC610_IS_SYNC_def)
  have "cmd_phase c 0x90 h = hinfc610_send_cmd_async_readid c h0"
    using 0(1) by (simp add: cmd_phase_def h0_def hinfc610_send_cmd_readid_def idle_def HINFC610_IS_SYNC_def Let_def)
  also have "OP_cs h4 = 0" using 4(1) by (simp add: OP_cs_def idle_def)
  then have "hinfc610_send_cmd_async_readid c h0 = WAIT_CONTROLLER_FINISH c h5"
    by (simp add: hinfc610_send_cmd_async_readid_def Let_def h1_def [symmetric] h2_def [symmetric] h3_def [symmetric] h4_def [symmetric] h5_def)
  finally have run: "cmd_phase c 0x90 h = WAIT_CONTROLLER_FINISH c h5" .
  obtain b where "WAIT_CONTROLLER_FINISH c h5 = h5\<lparr>bus := b\<rparr>" "idle (h5\<lparr>bus := b\<rparr>)" "io_mem b = io_mem (bus h5)"
    using waited [OF 5(1,3)] by (auto simp: WAIT_CONTROLLER_FINISH_def)
  then show ?thesis using run 5(2,4) by (simp add: shows_id_def)
qed

lemma cmd_ctrl_id:
  assumes "idle h"
  shows "idle (hinfc610_cmd_ctrl c 0x90 0x83 h) \<and> shows_id (hinfc610_cmd_ctrl c 0x90 0x83 h)"
    "shows_id h \<Longrightarrow> idle (hinfc610_cmd_ctrl c 0 0x85 h) \<and> shows_id (hinfc610_cmd_ctrl c 0 0x85 h) \<and> addr_cycle (hinfc610_cmd_ctrl c 0 0x85 h) = 1"
    "shows_id h \<Longrightarrow> addr_cycle h = 1 \<Longrightarrow>
      idle (hinfc610_cmd_ctrl c (- 1) 0x81 h) \<and> shows_id (hinfc610_cmd_ctrl c (- 1) 0x81 h) \<and> offset (hinfc610_cmd_ctrl c (- 1) 0x81 h) = 0"
proof -
  have "idle (cmd_phase c 0x90 h)" "shows_id (cmd_phase c 0x90 h)" using readid_command [OF assms] by auto
  then show "idle (hinfc610_cmd_ctrl c 0x90 0x83 h) \<and> shows_id (hinfc610_cmd_ctrl c 0x90 0x83 h)"
    using randomizer [of "cmd_phase c 0x90 h" True True]
    by (simp add: hinfc610_cmd_ctrl_def Let_def idle_def shows_id_def HINFC610_IS_SYNC_def)
next
  assume s: "shows_id h"
  have "idle (addr_phase 0 0x85 h)" using assms by (simp add: addr_phase_first idle_def HINFC610_IS_SYNC_def)
  from randomizer [OF this, of True True] s
  show "idle (hinfc610_cmd_ctrl c 0 0x85 h) \<and> shows_id (hinfc610_cmd_ctrl c 0 0x85 h) \<and> addr_cycle (hinfc610_cmd_ctrl c 0 0x85 h) = 1"
    by (simp add: hinfc610_cmd_ctrl_def Let_def addr_phase_first idle_def shows_id_def HINFC610_IS_SYNC_def)
next
  assume s: "shows_id h" "addr_cycle h = 1"
  from randomizer [OF assms, of True True] s
  show "idle (hinfc610_cmd_ctrl c (- 1) 0x81 h) \<and> shows_id (hinfc610_cmd_ctrl c (- 1) 0x81 h) \<and> offset (hinfc610_cmd_ctrl c (- 1) 0x81 h) = 0"
    by (simp add: hinfc610_cmd_ctrl_def Let_def idle_def shows_id_def HINFC610_IS_SYNC_def)
qed

lemma reset_command:
  assumes "idle h"
  shows "idle (cmd_phase c 0xff h)"
proof -
  define h0 where "h0 = h\<lparr>command := 0xff\<rparr>"
  define h1 where "h1 = hinfc_write c 0xff HINFC610_CMD h0"
  define h2 where "h2 = hinfc_write c 0x44 HINFC610_OP h1"
  have 0: "idle h0" using assms by (simp add: h0_def idle_def HINFC610_IS_SYNC_def)
  have 1: "idle h1" "reg (nfc (bus h1)) HINFC610_CMD = 0xff"
    using write_idle [OF 0, of HINFC610_CMD] by (simp_all add: h1_def)
  have "up (nfc (bus h1))" using 1(1) by (simp add: idle_def)
  from reset_op_law [OF this 1(2) refl]
  have 2: "idle h2" "busy (nfc (bus h2)) < 0xF0000000"
    using 1(1) by (simp_all add: h2_def hinfc_write_def id_cfg idle_def HINFC610_IS_SYNC_def)
  have "OP_cs h1 = 0" "\<not> HINFC610_IS_SYNC h0" using 0 1(1) by (simp_all add: OP_cs_def idle_def)
  then have "cmd_phase c 0xff h = WAIT_CONTROLLER_FINISH c h2"
    by (simp add: cmd_phase_def hinfc610_send_cmd_reset_def Let_def h0_def [symmetric] h1_def [symmetric] h2_def)
  then show ?thesis using waited [OF 2] by (auto simp: WAIT_CONTROLLER_FINISH_def)
qed

lemma cmd_ctrl_idle:
  assumes "idle h"
  shows "idle (hinfc610_cmd_ctrl c 0xff 0x83 h)" "idle (hinfc610_cmd_ctrl c (- 1) 0x81 h)"
  using randomizer [OF reset_command [OF assms], of True True] randomizer [OF assms, of True True]
  by (simp_all add: hinfc610_cmd_ctrl_def Let_def idle_def HINFC610_IS_SYNC_def)

lemma timer:
  assumes "idle h"
  shows "idle (snd (get_timer c h))" "shows_id (snd (get_timer c h)) = shows_id h" "offset (snd (get_timer c h)) = offset h"
proof -
  obtain t b where e: "elapsed ct (bus h) = (t, b)" by fastforce
  then show "idle (snd (get_timer c h))" "shows_id (snd (get_timer c h)) = shows_id h" "offset (snd (get_timer c h)) = offset h"
    using clock_law [OF _ e] assms by (simp_all add: get_timer_def id_cfg idle_def shows_id_def HINFC610_IS_SYNC_def)
qed

lemma select_fields: "select_chip (hinfc610_ident_chip c d) cs = on_hw (hinfc610_select_chip c cs)"
  "read_byte (hinfc610_ident_chip c d) = of_hw hinfc610_read_byte"
  "cmdfunc (hinfc610_ident_chip c d) cmd col page = on_hw (fold (bus_cycle c) (nand_command (hinfc610_cmd_chip d) cmd col page))"
  by (simp_all add: hinfc610_ident_chip_def hinfc610_nand_init_def)

lemma commands:
  "nand_command (hinfc610_cmd_chip d) NAND_CMD_RESET (- 1) (- 1) = [CmdCtrl 0xff 0x83, CmdCtrl (- 1) 0x81, Delay, WaitReady]"
  "nand_command (hinfc610_cmd_chip d) NAND_CMD_READID 0 (- 1) = [CmdCtrl 0x90 0x83, CmdCtrl 0 0x85, CmdCtrl (- 1) 0x81, Delay, WaitReady]"
  by (simp_all add: nand_command_def hinfc610_cmd_chip_def address_cycles_def adjust_column_def reset_poll_def wait_busy_def Let_def)

definition id_ok :: "'c hinfc_host nand_st \<Rightarrow> bool" where
  "id_ok s \<longleftrightarrow> idle (hw s) \<and> chip_options s = opts"

definition id_at :: "nat \<Rightarrow> 'c hinfc_host nand_st \<Rightarrow> bool" where
  "id_at k s \<longleftrightarrow> shows_id (hw s) \<and> offset (hw s) = of_nat k"

end

sublocale nfc_id_controller \<subseteq> id: id_chip "hinfc610_ident_chip c d" id_ok id_at ids opts
proof
  show "length ids = 8" by (rule id_cfg)
  fix s :: "'c hinfc_host nand_st"
  assume ok: "id_ok s"
  show "chip_options s = opts" using ok by (simp add: id_ok_def)
  show "id_ok (select_chip (hinfc610_ident_chip c d) 0 s)"
    using ok id_cfg(2) by (simp add: id_ok_def select_fields on_hw_def hinfc610_select_chip_def idle_def HINFC610_IS_SYNC_def Let_def)
  show "id_ok (cmdfunc (hinfc610_ident_chip c d) NAND_CMD_RESET (- 1) (- 1) s)"
    using timer(1) [OF cmd_ctrl_idle(2) [OF cmd_ctrl_idle(1)]] ok
    by (simp add: id_ok_def select_fields commands on_hw_def bus_cycle_def)
  have h: "idle (hw s)" using ok by (simp add: id_ok_def)
  let ?h1 = "hinfc610_cmd_ctrl c 0x90 0x83 (hw s)"
  have 1: "idle ?h1" "shows_id ?h1" using cmd_ctrl_id(1) [OF h] by auto
  let ?h2 = "hinfc610_cmd_ctrl c 0 0x85 ?h1"
  have 2: "idle ?h2" "shows_id ?h2" "addr_cycle ?h2 = 1" using cmd_ctrl_id(2) [OF 1] by auto
  have 3: "idle (hinfc610_cmd_ctrl c (- 1) 0x81 ?h2)" "shows_id (hinfc610_cmd_ctrl c (- 1) 0x81 ?h2)"
      "offset (hinfc610_cmd_ctrl c (- 1) 0x81 ?h2) = 0" using cmd_ctrl_id(3) [OF 2] by auto
  show "id_ok (cmdfunc (hinfc610_ident_chip c d) NAND_CMD_READID 0 (- 1) s) \<and>
      id_at 0 (cmdfunc (hinfc610_ident_chip c d) NAND_CMD_READID 0 (- 1) s)"
    using timer [OF 3(1)] 3(2,3) ok by (simp add: id_ok_def id_at_def select_fields commands on_hw_def bus_cycle_def)
next
  fix s s' :: "'c hinfc_host nand_st" and k b
  assume a: "id_ok s" "id_at k s" "k < 8" "read_byte (hinfc610_ident_chip c d) s = (b, s')"
  have "unat (word_of_nat k + 1 :: u32) = Suc k" using a(3) by (subst unat_add_small) (auto simp: unat_of_nat take_bit_nat_eq_self)
  then show "b = ids ! k \<and> id_ok s' \<and> id_at (Suc k) s'"
    using a by (auto simp: id_ok_def id_at_def select_fields of_hw_def hinfc610_read_byte_def shows_id_def idle_def HINFC610_IS_SYNC_def Let_def)
qed


context nfc_id_controller begin

lemma scan_ident:
  assumes "up (nfc (bus (hw s)))" "chipselect (hw s) = 0" "NFC_CON (hw s) AND HINFC610_CON_NF_MODE_MASK = 0" "\<not> stuck (hw s)"
    and "chip_options s = opts"
    and "case param_adjust e of None \<Rightarrow> True
      | Some adjust \<Rightarrow> \<forall>g dv t. \<exists>g' dv' t'. adjust g dv t = Some (0, g', dv', t') \<and> chipsize g' = chipsize g \<and>
          erasesize g' = erasesize g \<and> writesize g' = writesize g \<and> chip_options t' AND NAND_BUSWIDTH_16 = chip_options t AND NAND_BUSWIDTH_16"
  shows "\<exists>r s'. nand_scan_ident e maxchips name ex (hinfc610_ident_chip c d) dev s = Some (r, s') \<and>
    (case id_sizes (spl_registered e) ids of
       None \<Rightarrow> r = Inl (- ENODEV)
     | Some (cs, es, ws, wide) \<Rightarrow>
         if wide \<noteq> (opts AND NAND_BUSWIDTH_16 \<noteq> 0) then r = Inl (- EINVAL)
         else \<exists>f info. r = Inr (f, info) \<and> chipsize (fo_hw f) = cs \<and> erasesize (fo_hw f) = es \<and> writesize (fo_hw f) = ws)"
proof -
  have ok: "id_ok s" using assms(1-5) by (simp add: id_ok_def idle_def HINFC610_IS_SYNC_def)
  obtain r s1 where r: "nand_get_flash_type e name ex (hinfc610_ident_chip c d) dev s = Some (r, s1)"
      "case id_sizes (spl_registered e) ids of
         None \<Rightarrow> r = Inl (- ENODEV)
       | Some (cs, es, ws, wide) \<Rightarrow>
           (case r of Inl err \<Rightarrow> err = - EINVAL \<and> wide \<noteq> (opts AND NAND_BUSWIDTH_16 \<noteq> 0)
            | Inr (maf, f, info) \<Rightarrow> wide = (opts AND NAND_BUSWIDTH_16 \<noteq> 0) \<and> maf = ids ! 0 \<and> chipsize (fo_hw f) = cs \<and>
                erasesize (fo_hw f) = es \<and> writesize (fo_hw f) = ws)"
    using id.flash_type [OF ok assms(6)] by blast
  show ?thesis
    using r by (auto simp: nand_scan_ident_def Let_def split_beta split: option.splits sum.splits)
qed

end

section \<open>The identification\<close>


text \<open>The simulated controller with a chip that has an id: a Samsung K9F1G08 of 128 MiB, which no table but that of the device ids has.\<close>

definition id_bytes :: "u8 list" where
  "id_bytes = [0xec, 0xf1, 0x00, 0x95, 0x40, 0, 0, 0]"

definition id_write :: "nat \<Rightarrow> u32 \<Rightarrow> nfc_sim nfc_bus \<Rightarrow> nfc_sim nfc_bus" where
  "id_write r v b =
     (let b' = sim_write r v b
      in if r = HINFC610_OP \<and> sim_reg (nfc b) HINFC610_CMD = 0x90 then b'\<lparr>io_mem := \<lambda>k. if k < 8 then id_bytes ! k else 0\<rparr> else b')"

definition id_ctl :: "nfc_sim nfc_ctl" where
  "id_ctl = sim_ctl\<lparr>reg_write := id_write\<rparr>"

definition id_cfg :: "nfc_sim hinfc_cfg" where
  "id_cfg = sim_cfg\<lparr>ctl := id_ctl\<rparr>"

interpretation id_nfc: nfc_id_controller id_ctl sim_base sim_oob sim_con 2048 64 0 False 64 1024
  sim_up sim_reg sim_cells sim_failed sim_busy id_cfg sim_chip id_bytes "NAND_NO_AUTOINCR OR NAND_BBT_SCANNED"
proof
  fix b b' :: "nfc_sim nfc_bus" and p :: int
  assume "b' = reg_write id_ctl HINFC610_DMA_CTRL (if False then 0x73 else 0xF3) b" "page_reg (sim_reg (nfc b)) = p"
  then show "True \<and> dma_mem b' = dma_mem b \<and> io_mem b' = io_mem b \<and> sim_busy (nfc b') < 0xF0000000 \<and>
      (\<forall>q. q \<noteq> p \<longrightarrow> sim_cells (nfc b') q = sim_cells (nfc b) q) \<and>
      (\<exists>k. (\<forall>i. i < 2048 \<or> i = 2048 + 0 \<longrightarrow>
              sim_cells (nfc b') p i = sim_cells (nfc b) p i AND (dma_mem b i OR k i)) \<and>
           (\<not> False \<longrightarrow> k = (\<lambda>_. 0)))"
    by (auto simp: id_ctl_def id_write_def sim_ctl_def sim_write_def sim_transfer_def Let_def page_reg_def)
qed (auto simp: id_cfg_def sim_cfg_def id_bytes_def id_ctl_def id_write_def sim_ctl_def sim_write_def sim_read_def sim_transfer_def sim_operate_def
  Let_def page_reg_def)

lemma id_bytes_sizes: "id_sizes True id_bytes = Some (0x8000000, 0x20000, 0x800, False)"
  by (simp add: id_sizes_def id_bytes_def special_row_def special_table fixed_row_def probed_row_def
    nand_flash_ids_def decode_extid_def chip_bytes_def Let_def)

definition id_env :: "nfc_sim hinfc_host ident_env" where
  "id_env = \<lparr>spl_registered = True, param_adjust = None, command_lp = Some (\<lambda>d. hinfc610_cmdfunc id_cfg (hinfc610_cmd_chip d))\<rparr>"

lemma sim_start: "chipselect (hw sim_state) = 0" "NFC_CON (hw sim_state) = sim_con" "\<not> stuck (hw sim_state)"
  "chip_options sim_state = NAND_NO_AUTOINCR OR NAND_BBT_SCANNED"
  by (simp_all add: sim_state_def sim_host_def)

lemma id_env_fields: "param_adjust id_env = None" "spl_registered id_env"
  by (simp_all add: id_env_def)

lemma id_scan:
  "\<exists>f info s'. nand_scan_ident id_env 1 None None (hinfc610_ident_chip id_cfg sim_chip) no_dev sim_state = Some (Inr (f, info), s') \<and>
     chipsize (fo_hw f) = 0x8000000 \<and> erasesize (fo_hw f) = 0x20000 \<and> writesize (fo_hw f) = 0x800"
  using id_nfc.scan_ident [of sim_state id_env 1 None None no_dev]
  by (auto simp: sim_start id_env_fields id_bytes_sizes)


lemma ident_geometry_witness:
  "\<exists>f info s'. nand_scan_ident id_env 1 None None (hinfc610_ident_chip id_cfg sim_chip) no_dev sim_state = Some (Inr (f, info), s') \<and>
     geometry_ok (fo_hw f) \<and> numchips (fo_hw f) = 1 \<and> page_shift (fo_hw f) = 11 \<and> phys_erase_shift (fo_hw f) = 17"
proof -
  obtain f info s' where r: "nand_scan_ident id_env 1 None None (hinfc610_ident_chip id_cfg sim_chip) no_dev sim_state = Some (Inr (f, info), s')"
      "erasesize (fo_hw f) = 0x20000" "writesize (fo_hw f) = 0x800"
    using id_scan by blast
  have "geometry_ok (fo_hw f) \<and> 1 \<le> numchips (fo_hw f) \<and> numchips (fo_hw f) \<le> max 1 1 \<and>
      mtd_size (fo_hw f) = of_nat (numchips (fo_hw f)) * 2 ^ chip_shift (fo_hw f) \<and> ex_numchips info = numchips (fo_hw f)"
    by (rule ident_geometry [OF r(1)]) (simp add: id_env_fields)
  moreover have "(2048 :: nat) = 2 ^ k \<longleftrightarrow> k = 11" "(131072 :: nat) = 2 ^ k \<longleftrightarrow> k = 17" for k
    using power_inject_exp [of "2 :: nat" k 11] power_inject_exp [of "2 :: nat" k 17] by auto
  ultimately show ?thesis using r by (auto simp: geometry_ok_def)
qed

end
