(* ===== verification/BbtFlash.thy ===== *)
theory BbtFlash
  imports BbtProps
begin

text \<open>
  The bad block table in memory and in flash: a mark is found again, and what \<open>read_bbt\<close> decodes from the bytes that \<open>write_bbt\<close>
  encodes.
\<close>

section \<open>The table in memory\<close>

text \<open>
  C37: A block that is entered into the memory table as worn is reported bad from then on, whatever the address in it, and no other
  block's answer changes.
\<close>

theorem bbt_mark_query:
  assumes "1 \<le> bbt_erase_shift m" "chip_bbt s = Some t" "b div 4 < length t"
  shows "\<exists>t'. chip_bbt (bbt_or (b div 4) (push_bit (2 * (b mod 4)) 1) s) = Some t' \<and>
    (\<forall>a. nand_isbad_bbt m a allow t' = (if unat a div 2 ^ bbt_erase_shift m = b then 1 else nand_isbad_bbt m a allow t))"
proof -
  have e: "bbt_entry (table_or b 1 t) (2 * b') = (if b' = b then bbt_entry t (2 * b) OR 1 else bbt_entry t (2 * b'))" for b'
    using bbt_entry_same [OF assms(3), of 1] bbt_entry_other [of b' b 1 t] by (simp add: take_bit_eq_mask mask_eq_exp_minus_1)
  have "bit (bbt_entry t (2 * b) OR 1) 0" by (simp add: bit_simps)
  moreover have "x \<noteq> 0 \<and> x \<noteq> 2" if "bit x 0" for x :: u8 using that by auto
  ultimately have "bbt_entry t (2 * b) OR 1 \<noteq> 0" "bbt_entry t (2 * b) OR 1 \<noteq> 2" by blast+
  then have "nand_isbad_bbt m a allow (table_or b 1 t) = (if unat a div 2 ^ bbt_erase_shift m = b then 1 else nand_isbad_bbt m a allow t)" for a
    by (simp add: nand_isbad_bbt_entry [OF assms(1)] e Let_def)
  then show ?thesis using assms(2) bbt_or_table [of b 1 s] by auto
qed

lemma bbt_mark_query_witness:
  "\<forall>(m :: nat nand_hw) (s :: nat nand_st). \<exists>t'. chip_bbt (bbt_or 1 (push_bit 2 1) (s\<lparr>chip_bbt := Some [0, 0x20]\<rparr>)) = Some t' \<and>
    nand_isbad_bbt (m\<lparr>bbt_erase_shift := 17\<rparr>) 0xA1234 False t' = 1 \<and> nand_isbad_bbt (m\<lparr>bbt_erase_shift := 17\<rparr>) 0x80000 False t' = 0"
proof (intro allI)
  fix m :: "nat nand_hw" and s :: "nat nand_st"
  have "nand_isbad_bbt (m\<lparr>bbt_erase_shift := 17\<rparr>) 0x80000 False [0, 0x20] = 0"
    by (simp add: nand_isbad_bbt_def bbt_entry_def Let_def)
  then show "\<exists>t'. chip_bbt (bbt_or 1 (push_bit 2 1) (s\<lparr>chip_bbt := Some [0, 0x20]\<rparr>)) = Some t' \<and>
      nand_isbad_bbt (m\<lparr>bbt_erase_shift := 17\<rparr>) 0xA1234 False t' = 1 \<and> nand_isbad_bbt (m\<lparr>bbt_erase_shift := 17\<rparr>) 0x80000 False t' = 0"
    using bbt_mark_query [of "m\<lparr>bbt_erase_shift := 17\<rparr>" "s\<lparr>chip_bbt := Some [0, 0x20]\<rparr>" "[0, 0x20]" 5 False] by auto
qed

section \<open>The fields of the flash table\<close>

text \<open>\<open>bits\<close> bits for each block, \<open>2 ^ sft\<close> blocks in a byte.\<close>

definition flash_format :: "nat \<Rightarrow> nat \<Rightarrow> bool" where
  "flash_format bits sft \<longleftrightarrow> (bits, sft) \<in> {(1, 3), (2, 2), (4, 1), (8, 0)}"

lemma masks_format:
  assumes "bbt_masks bits 0xff = Some (sft, sftmsk, msk)"
  shows "flash_format bits sft" "2 ^ sft * bits = 8" "0 < bits" "length msk = 4" "k < 4 \<Longrightarrow> take_bit bits (msk ! k) = msk ! k"
    "(i * 2 ^ (3 - sft)) AND sftmsk = (i mod 2 ^ sft) * bits"
proof -
  consider "bits = 1" "sft = 3" "sftmsk = 7" "msk = [0, 1, 0, 1]" | "bits = 2" "sft = 2" "sftmsk = 6" "msk = [0, 1, 0, 3]"
    | "bits = 4" "sft = 1" "sftmsk = 4" "msk = [0, 0xc, 0, 0xf]" | "bits = 8" "sft = 0" "sftmsk = 0" "msk = [0, 0xf, 0, 0xff]"
    using assms by (auto simp: bbt_masks_def split: if_splits)
  note fmt = this
  show "flash_format bits sft" "2 ^ sft * bits = 8" "0 < bits" "length msk = 4"
    using fmt by (cases; simp add: flash_format_def)+
  show "take_bit bits (msk ! k) = msk ! k" if "k < 4"
  proof -
    have "k \<in> {0, 1, 2, 3}" using that by auto
    with fmt show ?thesis by cases (auto simp: take_bit_eq_mask mask_eq_exp_minus_1)
  qed
  have m: "(i * 2 ^ a) AND push_bit a (mask b) = (i mod 2 ^ b) * 2 ^ a" for a b :: nat
    by (simp add: push_bit_eq_mult [symmetric] take_bit_eq_mask [symmetric] take_bit_eq_mod [symmetric] push_bit_and [symmetric])
  show "(i * 2 ^ (3 - sft)) AND sftmsk = (i mod 2 ^ sft) * bits"
    using fmt by cases (use m [of 0 3] m [of 1 2] m [of 2 1] in \<open>simp_all add: mask_eq_exp_minus_1 push_bit_eq_mult\<close>)
qed

lemma encode_fold_bit:
  assumes "b < 8"
  shows "bit (fold (\<lambda>i. encode_entry at' (sft, sftmsk, msk) i (dat i)) xs mm a) b \<longleftrightarrow>
     bit (mm a) b \<and> (\<forall>i \<in> set xs. a = at' + i div 2 ^ sft \<longrightarrow>
        \<not> bit (push_bit ((i * 2 ^ (3 - sft)) AND sftmsk) (msk ! unat (dat i AND 0x03))) b)"
proof (induction xs arbitrary: mm)
  case (Cons i xs)
  have "bit (encode_entry at' (sft, sftmsk, msk) i (dat i) mm a) b \<longleftrightarrow>
      bit (mm a) b \<and> (a = at' + i div 2 ^ sft \<longrightarrow> \<not> bit (push_bit ((i * 2 ^ (3 - sft)) AND sftmsk) (msk ! unat (dat i AND 0x03))) b)"
    using assms by (auto simp: encode_entry_def Let_def bit_and_iff bit_not_iff)
  then show ?case using Cons by auto
qed simp

lemma entry_index: "unat (drop_bit (2 * (i mod 4)) (t ! (o' + i div 4)) AND 0x03) = unat (bbt_entry t (2 * (4 * o' + i)))"
proof -
  have "(4 * o' + i) div 4 = o' + i div 4" "(4 * o' + i) mod 4 = i mod 4" by simp_all
  moreover have "(3 :: u8) = mask 2" by (simp add: mask_eq_exp_minus_1)
  ultimately show ?thesis unfolding bbt_entry_block [of t "4 * o' + i"] by (simp add: take_bit_eq_mask)
qed

lemma bbt_entry_less: "unat (bbt_entry t n) < 4"
  using take_bit_nat_less_exp [of 2] by (subst bbt_entry_odd) (simp add: bbt_entry_block unsigned_take_bit_eq)

text \<open>The field of a block in the encoded table.\<close>

lemma encoded_field:
  assumes "bbt_masks bits 0xff = Some (sft, sftmsk, msk)" "r < 2 ^ sft" "k * 2 ^ sft + r < n" "mm (at' + k) = 0xff"
  shows "drop_bit (r * bits) (bbt_encode t o' n at' (sft, sftmsk, msk) mm (at' + k)) AND mask bits =
    NOT (msk ! unat (bbt_entry t (2 * (4 * o' + (k * 2 ^ sft + r))))) AND mask bits"
proof (rule bit_word_eqI)
  note fmt = masks_format [OF assms(1)]
  fix q assume "q < LENGTH(8)"
  let ?i = "k * 2 ^ sft + r"
  show "bit (drop_bit (r * bits) (bbt_encode t o' n at' (sft, sftmsk, msk) mm (at' + k)) AND mask bits) q =
      bit (NOT (msk ! unat (bbt_entry t (2 * (4 * o' + ?i)))) AND mask bits) q"
  proof (cases "q < bits")
    case True
    have "Suc r * bits \<le> 2 ^ sft * bits" using assms(2) by (intro mult_right_mono) simp_all
    then have b8: "r * bits + q < 8" using True fmt(2) by simp
    have i: "?i div 2 ^ sft = k" "?i mod 2 ^ sft = r" using assms(2) by simp_all
    have iN: "?i < 4 * ((n + 3) div 4)" using assms(3) by linarith
    have key: "i = ?i" if a: "at' + k = at' + i div 2 ^ sft" "bit (push_bit (i mod 2 ^ sft * bits) (msk ! unat (dat AND 0x03))) (r * bits + q)"
      for i :: nat and dat :: u8
    proof -
      have "unat (dat AND 0x03) < 4" by (simp add: unat_and_mask [of dat 2, simplified mask_eq_exp_minus_1, simplified])
      then have "bit (msk ! unat (dat AND 0x03)) x \<Longrightarrow> x < bits" for x using fmt(5) by (metis bit_take_bit_iff)
      from this [of "r * bits + q - i mod 2 ^ sft * bits"] a(2)
      have "i mod 2 ^ sft * bits \<le> r * bits + q" "r * bits + q - i mod 2 ^ sft * bits < bits" by (auto simp: bit_push_bit_iff)
      then have "(r * bits + q) div bits = i mod 2 ^ sft" by (intro div_nat_eqI) (auto simp: mult.commute)
      moreover have "(r * bits + q) div bits = r" using True by simp
      ultimately show ?thesis using a(1) div_mult_mod_eq [of i "2 ^ sft"] by simp
    qed
    define dat where "dat = (\<lambda>i. drop_bit (2 * (i mod 4)) (t ! (o' + i div 4)))"
    have one: "bit (0xff :: u8) (r * bits + q)"
    proof -
      have "bit (mask 8 :: u8) (r * bits + q)" using b8 by (simp only: bit_mask_iff) simp
      then show ?thesis by (simp add: mask_eq_exp_minus_1)
    qed
    have "bit (bbt_encode t o' n at' (sft, sftmsk, msk) mm (at' + k)) (r * bits + q) \<longleftrightarrow>
        (\<forall>i < 4 * ((n + 3) div 4). at' + k = at' + i div 2 ^ sft \<longrightarrow>
           \<not> bit (push_bit (i mod 2 ^ sft * bits) (msk ! unat (dat i AND 0x03))) (r * bits + q))"
      unfolding bbt_encode_def encode_fold_bit [OF b8] assms(4) fmt(6) using one by (auto simp: dat_def)
    also have "\<dots> \<longleftrightarrow> \<not> bit (push_bit (r * bits) (msk ! unat (dat ?i AND 0x03))) (r * bits + q)"
      using key iN i by metis
    also have "unat (dat ?i AND 0x03) = unat (bbt_entry t (2 * (4 * o' + ?i)))"
      unfolding dat_def by (rule entry_index)
    finally have "bit (bbt_encode t o' n at' (sft, sftmsk, msk) mm (at' + k)) (r * bits + q) \<longleftrightarrow>
        \<not> bit (msk ! unat (bbt_entry t (2 * (4 * o' + ?i)))) q" using b8 by (simp add: bit_push_bit_iff)
    then show ?thesis using True b8 by (simp add: bit_simps)
  qed (simp add: bit_simps)
qed

section \<open>Reading the table back\<close>

text \<open>What is read back for a block: a reserved one counts as good, and with one bit for each block a worn one as the maker's.\<close>

definition read_back :: "nat \<Rightarrow> u8 \<Rightarrow> u8" where
  "read_back bits e = (if e = 0 \<or> e = 2 then 0 else if e = 1 \<and> bits \<noteq> 1 then 1 else 3)"

lemma u8_less_4: "unat (e :: u8) < 4 \<Longrightarrow> e \<in> {0, 1, 2, 3}"
proof -
  assume "unat e < 4"
  then have "unat e = 0 \<or> unat e = 1 \<or> unat e = 2 \<or> unat e = 3" by arith
  then show ?thesis by (auto simp: word_unat_eq_iff)
qed

lemma read_entry:
  assumes "bbt_masks bits 0xff = Some (sft, sftmsk, msk)" "unat e < 4"
  shows "chip_bbt (read_bbt_entry (mask bits) 0 offs (2 * i) (NOT (msk ! unat e) AND mask bits) s) =
    map_option (table_or (4 * offs + i) (read_back bits e)) (chip_bbt s)"
proof -
  consider "bits = 1" "sft = 3" "sftmsk = 7" "msk = [0, 1, 0, 1]" | "bits = 2" "sft = 2" "sftmsk = 6" "msk = [0, 1, 0, 3]"
    | "bits = 4" "sft = 1" "sftmsk = 4" "msk = [0, 0xc, 0, 0xf]" | "bits = 8" "sft = 0" "sftmsk = 0" "msk = [0, 0xf, 0, 0xff]"
    using assms(1) by (auto simp: bbt_masks_def split: if_splits)
  note fmt = this
  have idx: "(4 * offs + i) div 4 = offs + 2 * i div 8" "2 * ((4 * offs + i) mod 4) = 2 * i AND 6" by (simp_all add: and_6)
  have or: "chip_bbt (bbt_or (offs + 2 * i div 8) (push_bit (2 * i AND 6) v) s) = map_option (table_or (4 * offs + i) v) (chip_bbt s)" for v
    using bbt_or_table [of "4 * offs + i" v s] unfolding idx by simp
  have zero: "map_option (table_or b 0) x = x" for b x by (cases x) (simp_all add: table_or_def)
  have e: "e \<in> {0, 1, 2, 3}" by (rule u8_less_4 [OF assms(2)])
  note or1 = or [of 1, simplified] and or3 = or [of 3, simplified]
  show ?thesis
    using fmt e by cases (auto simp: read_bbt_entry_def count_badblock_def or1 or3 zero read_back_def mask_eq_exp_minus_1)
qed

lemma read_entries:
  assumes "bbt_masks bits 0xff = Some (sft, sftmsk, msk)"
    and "\<And>r. r < m \<Longrightarrow> drop_bit (r * bits) dat AND mask bits = NOT (msk ! unat (e (i + r))) AND mask bits \<and> unat (e (i + r)) < 4"
  shows "\<exists>s'. fold (\<lambda>j (act, s). (act + 2, read_bbt_entry (mask bits) 0 offs act (drop_bit j dat AND mask bits) s))
      (map (\<lambda>r. r * bits) [0 ..< m]) (2 * i, s) = (2 * (i + m), s') \<and>
    chip_bbt s' = map_option (fold (\<lambda>b. table_or (4 * offs + b) (read_back bits (e b))) [i ..< i + m]) (chip_bbt s)"
  using assms(2)
proof (induction m)
  case (Suc m)
  then obtain s' where s': "fold (\<lambda>j (act, s). (act + 2, read_bbt_entry (mask bits) 0 offs act (drop_bit j dat AND mask bits) s))
      (map (\<lambda>r. r * bits) [0 ..< m]) (2 * i, s) = (2 * (i + m), s')"
    "chip_bbt s' = map_option (fold (\<lambda>b. table_or (4 * offs + b) (read_back bits (e b))) [i ..< i + m]) (chip_bbt s)"
    by auto
  note last = Suc.prems [of m]
  show ?case
    using s' last read_entry [OF assms(1), of "e (i + m)" offs "i + m" s']
    by (simp add: option.map_comp comp_def)
qed (simp add: option.map_id)

lemma shifts_of: "entry_shifts 1 = map (\<lambda>r. r * 1) [0 ..< 2 ^ 3]" "entry_shifts 2 = map (\<lambda>r. r * 2) [0 ..< 2 ^ 2]"
  "entry_shifts 4 = map (\<lambda>r. r * 4) [0 ..< 2 ^ 1]" "entry_shifts 8 = map (\<lambda>r. r * 8) [0 ..< 2 ^ 0]"
  by code_simp+

lemma shifts: "flash_format bits sft \<Longrightarrow> entry_shifts bits = map (\<lambda>r. r * bits) [0 ..< 2 ^ sft]"
  using shifts_of by (auto simp only: flash_format_def insert_iff empty_iff prod.inject)

lemma read_bytes:
  assumes "bbt_masks bits 0xff = Some (sft, sftmsk, msk)"
    and "\<And>k r. k < m \<Longrightarrow> r < 2 ^ sft \<Longrightarrow> drop_bit (r * bits) (mm (a + k)) AND mask bits = NOT (msk ! unat (e (k * 2 ^ sft + r))) AND mask bits \<and>
      unat (e (k * 2 ^ sft + r)) < 4"
  shows "\<exists>s'. fold (read_bbt_byte bits 0 offs) (load_bytes mm a m) (0, s) = (2 * (m * 2 ^ sft), s') \<and>
    chip_bbt s' = map_option (fold (\<lambda>b. table_or (4 * offs + b) (read_back bits (e b))) [0 ..< m * 2 ^ sft]) (chip_bbt s)"
  using assms(2)
proof (induction m)
  case (Suc m)
  then obtain s' where s': "fold (read_bbt_byte bits 0 offs) (load_bytes mm a m) (0, s) = (2 * (m * 2 ^ sft), s')"
    "chip_bbt s' = map_option (fold (\<lambda>b. table_or (4 * offs + b) (read_back bits (e b))) [0 ..< m * 2 ^ sft]) (chip_bbt s)"
    by auto
  have l: "load_bytes mm a (Suc m) = load_bytes mm a m @ [mm (a + m)]" by (simp add: load_bytes_def)
  obtain s2 where s2: "read_bbt_byte bits 0 offs (mm (a + m)) (2 * (m * 2 ^ sft), s') = (2 * (m * 2 ^ sft + 2 ^ sft), s2)"
      "chip_bbt s2 = map_option (fold (\<lambda>b. table_or (4 * offs + b) (read_back bits (e b))) [m * 2 ^ sft ..< m * 2 ^ sft + 2 ^ sft]) (chip_bbt s')"
    using read_entries [OF assms(1), of "2 ^ sft" "mm (a + m)" e "m * 2 ^ sft" offs s'] Suc.prems [of m]
    unfolding read_bbt_byte_def shifts [OF masks_format(1) [OF assms(1)]] by auto
  have "[0 ..< Suc m * 2 ^ sft] = [0 ..< m * 2 ^ sft] @ [m * 2 ^ sft ..< m * 2 ^ sft + 2 ^ sft]"
    using upt_add_eq_append [of 0 "m * 2 ^ sft" "2 ^ sft"] by (simp add: add.commute)
  then show ?case using s' s2 by (simp add: l option.map_comp comp_def add.commute)
qed (simp add: option.map_id load_bytes_def)

lemma fold_table_or:
  assumes "offs + (n + 3) div 4 \<le> length t"
  shows "length (fold (\<lambda>b. table_or (4 * offs + b) (v b)) [0 ..< n] t) = length t"
    "(\<And>b. take_bit 2 (v b) = v b) \<Longrightarrow> bbt_entry (fold (\<lambda>b. table_or (4 * offs + b) (v b)) [0 ..< n] t) (2 * x) =
       (if 4 * offs \<le> x \<and> x < 4 * offs + n then bbt_entry t (2 * x) OR v (x - 4 * offs) else bbt_entry t (2 * x))"
  using assms
proof (induction n)
  case (Suc n)
  { case 1 then show ?case using Suc.IH(1) by simp }
  { case 2
    have "(4 * offs + n) div 4 < length t" using 2(2) by linarith
    then show ?case
      using Suc.IH 2 bbt_entry_same [of "4 * offs + n" "fold (\<lambda>b. table_or (4 * offs + b) (v b)) [0 ..< n] t" "v n"]
        bbt_entry_other [of x "4 * offs + n" "v n" "fold (\<lambda>b. table_or (4 * offs + b) (v b)) [0 ..< n] t"]
      by (cases "x = 4 * offs + n") auto }
qed auto

lemma read_back_bits: "take_bit 2 (read_back bits e) = read_back bits e"
  by (simp add: read_back_def take_bit_eq_mask mask_eq_exp_minus_1)

text \<open>
  C36: What \<open>read_bbt\<close> makes of the bytes that \<open>write_bbt\<close> has encoded into a blank buffer (1, 2, 4 or 8 bits for each block; no code for
  reserved blocks, as in every descriptor of the program; a table that fits one erase block), when a successful \<open>mtd_read\<close> delivers
  these bytes.  It adds to each entry of the table in memory: nothing for a block written as good or reserved, 1 for a worn one (3 when there
  is only one bit for each block), 3 for one marked by the maker.  So a reserved entry is lost, and old marks in memory stay.  No
  other entry changes.
\<close>

theorem bbt_decode_encoded:
  assumes "bbt_masks bits 0xff = Some (sft, sftmsk, msk)" "0 < n" "2 ^ sft dvd n" "n div 2 ^ sft \<le> 2 ^ bbt_erase_shift m"
      "bbt_erase_shift m < 32"
    and "\<And>k. k < n div 2 ^ sft \<Longrightarrow> mm (at' + k) = 0xff"
    and "mtd_read m (push_bit (page_shift m) (word_of_int page)) (word_of_nat (n div 2 ^ sft)) 0 buf s = Some ((0, retlen), sr)"
      "load_bytes (ram sr) buf (n div 2 ^ sft) = load_bytes (bbt_encode t o' n at' (sft, sftmsk, msk) mm) at' (n div 2 ^ sft)"
    and "chip_bbt sr = Some t0" "offs + (n + 3) div 4 \<le> length t0"
  shows "\<exists>s' t'. read_bbt m buf page n bits offs 0 s = Some (0, s') \<and> chip_bbt s' = Some t' \<and> length t' = length t0 \<and>
    (\<forall>b. bbt_entry t' (2 * b) =
       (if 4 * offs \<le> b \<and> b < 4 * offs + n
        then bbt_entry t0 (2 * b) OR read_back bits (bbt_entry t (2 * (4 * o' + (b - 4 * offs)))) else bbt_entry t0 (2 * b)))"
proof -
  note fmt = masks_format [OF assms(1)]
  let ?len = "n div 2 ^ sft"
  have n: "?len * 2 ^ sft = n" using assms(3) by simp
  define e where "e = (\<lambda>i. bbt_entry t (2 * (4 * o' + i)))"
  have "k * 2 ^ sft + r < n" if "k < ?len" "r < 2 ^ sft" for k r
  proof -
    have "Suc k * 2 ^ sft \<le> ?len * 2 ^ sft" using that(1) by (intro mult_right_mono) simp_all
    then show ?thesis using that(2) n by simp
  qed
  then obtain s' where s': "fold (read_bbt_byte bits 0 offs) (load_bytes (ram sr) buf ?len) (0, sr) = (2 * n, s')"
    "chip_bbt s' = map_option (fold (\<lambda>b. table_or (4 * offs + b) (read_back bits (e b))) [0 ..< n]) (chip_bbt sr)"
    using read_bytes [OF assms(1), of ?len "bbt_encode t o' n at' (sft, sftmsk, msk) mm" at' e offs sr] assms(6,8) n
    by (auto simp: encoded_field [OF assms(1)] e_def bbt_entry_less)
  have len: "n * bits div 8 = ?len"
  proof -
    have "n * bits = ?len * (2 ^ sft * bits)" using n by (metis mult.assoc)
    then show ?thesis by (simp add: fmt(2))
  qed
  moreover have "?len \<noteq> 0" using assms(2) n by (metis mult_0 less_irrefl)
  ultimately have "read_bbt m buf page n bits offs 0 s = Some (0, s')"
    using assms(4,7) s'(1) unfolding read_bbt_def
    by (subst read_bbt_loop.simps) (simp add: Let_def min_def, subst read_bbt_loop.simps, simp)
  moreover define T where "T = fold (\<lambda>b. table_or (4 * offs + b) (read_back bits (e b))) [0 ..< n] t0"
  have "chip_bbt s' = Some T" using s'(2) assms(9) by (simp add: T_def)
  moreover have "length T = length t0" unfolding T_def by (rule fold_table_or(1) [OF assms(10)])
  moreover have "bbt_entry T (2 * b) =
       (if 4 * offs \<le> b \<and> b < 4 * offs + n
        then bbt_entry t0 (2 * b) OR read_back bits (bbt_entry t (2 * (4 * o' + (b - 4 * offs)))) else bbt_entry t0 (2 * b))" for b
    using fold_table_or(2) [OF assms(10), of "\<lambda>b. read_back bits (e b)" b, OF read_back_bits] unfolding T_def e_def .
  ultimately show ?thesis by blast
qed

text \<open>A chip of eight blocks, the first marked by the maker, the third worn, the fourth reserved.\<close>

definition flash_read :: "memory \<Rightarrow> u64 \<Rightarrow> u32 \<Rightarrow> u32 \<Rightarrow> nat \<Rightarrow> 'h nand_st \<Rightarrow> ((int \<times> u32) \<times> 'h nand_st) option" where
  "flash_read flash from len retlen buf s =
     Some ((0, len), s\<lparr>ram := store_bytes (ram s) buf (load_bytes flash (unat from) (unat len))\<rparr>)"

lemma bbt_decode_encoded_witness:
  defines "t \<equiv> [0x93, 0 :: u8]" and "flash \<equiv> bbt_encode [0x93, 0] 0 8 0x100 (2, 0x06, [0, 1, 0, 3]) (\<lambda>_. 0xff)"
  shows "\<forall>(m :: nat mtd_rw) (s :: nat nand_st). \<exists>s' t'. read_bbt (m\<lparr>mtd_read := flash_read (\<lambda>a. flash (a - 0x4000 + 0x100)), page_shift := 11, bbt_erase_shift := 17\<rparr>) 0 8 8 2 0 0
      (s\<lparr>chip_bbt := Some [0, 0]\<rparr>) = Some (0, s') \<and> chip_bbt s' = Some t' \<and>
    bbt_entry t' 0 = 3 \<and> bbt_entry t' 2 = 0 \<and> bbt_entry t' 4 = 1 \<and> bbt_entry t' 6 = 0"
proof (intro allI)
  fix m :: "nat mtd_rw" and s :: "nat nand_st"
  let ?m = "m\<lparr>mtd_read := flash_read (\<lambda>a. flash (a - 0x4000 + 0x100)), page_shift := 11, bbt_erase_shift := 17\<rparr>"
  let ?s = "s\<lparr>chip_bbt := Some [0, 0]\<rparr>"
  have moved: "load_bytes (\<lambda>a. flash (a - 0x4000 + 0x100)) 0x4000 2 = load_bytes flash 0x100 2"
    by (simp add: load_bytes_def upt_rec)
  have kept: "load_bytes (store_bytes (ram s) 0 (load_bytes flash 0x100 2)) 0 2 = load_bytes flash 0x100 2"
    by (rule load_store_same) simp
  have r: "\<exists>s' t'. read_bbt ?m 0 8 8 2 0 0 ?s = Some (0, s') \<and> chip_bbt s' = Some t' \<and> length t' = length [0, 0 :: u8] \<and>
      (\<forall>b. bbt_entry t' (2 * b) =
         (if 4 * 0 \<le> b \<and> b < 4 * 0 + 8
          then bbt_entry [0, 0] (2 * b) OR read_back 2 (bbt_entry t (2 * (4 * 0 + (b - 4 * 0)))) else bbt_entry [0, 0] (2 * b)))"
    by (rule bbt_decode_encoded [where sft = 2 and sftmsk = 6 and msk = "[0, 1, 0, 3]" and mm = "\<lambda>_. 0xff" and at' = "0x100" and retlen = 2
          and sr = "?s\<lparr>ram := store_bytes (ram s) 0 (load_bytes flash 0x100 2)\<rparr>"])
      (simp_all add: bbt_masks_def flash_read_def moved kept push_bit_eq_mult, simp_all add: flash_def t_def)
  have e: "bbt_entry t 0 = 3" "bbt_entry t 2 = 0" "bbt_entry t 4 = 1" "bbt_entry t 6 = 2" "bbt_entry [0, 0 :: u8] 0 = 0"
    "bbt_entry [0, 0 :: u8] 2 = 0" "bbt_entry [0, 0 :: u8] 4 = 0" "bbt_entry [0, 0 :: u8] 6 = 0"
    by (simp_all add: bbt_entry_def t_def)
  obtain s' t' where st: "read_bbt ?m 0 8 8 2 0 0 ?s = Some (0, s')" "chip_bbt s' = Some t'"
      "\<And>b. b < 8 \<Longrightarrow> bbt_entry t' (2 * b) = bbt_entry [0, 0] (2 * b) OR read_back 2 (bbt_entry t (2 * b))"
    using r by auto
  show "\<exists>s' t'. read_bbt ?m 0 8 8 2 0 0 ?s = Some (0, s') \<and> chip_bbt s' = Some t' \<and>
      bbt_entry t' 0 = 3 \<and> bbt_entry t' 2 = 0 \<and> bbt_entry t' 4 = 1 \<and> bbt_entry t' 6 = 0"
    using st(1,2) st(3) [of 0] st(3) [of 1] st(3) [of 2] st(3) [of 3] by (auto simp: e read_back_def)
qed

text \<open>
  A code for reserved blocks spoils the table when a block has less than eight bits: \<open>write_bbt\<close> clears the bits of its complement
  without cutting them off at the field, so that the good blocks after a reserved one in the same byte are read back as
  marked by the maker.
\<close>

theorem bbt_reserved_leak:
  "(case bbt_masks 2 0x02 of Some f \<Rightarrow> load_bytes (bbt_encode [0x02] 0 4 0 f (\<lambda>_. 0xff)) 0 1 | None \<Rightarrow> []) = [0x02] \<and>
   chip_bbt (snd (read_bbt_byte 2 0x02 0 0x02 (0, s\<lparr>chip_bbt := Some [0]\<rparr>))) = Some [0xFE]"
  by (simp add: bbt_masks_def bbt_encode_def encode_entry_def load_bytes_def read_bbt_byte_def shifts_of read_bbt_entry_def bbt_or_def
    count_badblock_def count_bbtblock_def mask_eq_exp_minus_1 upt_rec del: add_2_eq_Suc add_2_eq_Suc')

end
