(* ===== verification/CmdProps.thy ===== *)
theory CmdProps
  imports EwProps
begin

text \<open>
  The arguments of the \<open>nand\<close> command: what a number in hexadecimal digits is read as, and what the checks of the burn-in test let
  through.
\<close>

section \<open>Numbers\<close>

text \<open>The digits of a number as one types them.\<close>

definition hex_char :: "nat \<Rightarrow> char" where
  "hex_char d = ''0123456789abcdef'' ! d"

fun to_hex :: "nat \<Rightarrow> string" where
  "to_hex n = (if n < 16 then [hex_char n] else to_hex (n div 16) @ [hex_char (n mod 16)])"

declare to_hex.simps [simp del]

lemma hex_digits:
  "list_all (\<lambda>c. isxdigit c) ''0123456789abcdef''" "map digit_value ''0123456789abcdef'' = [0, 1, 2, 3, 4, 5, 6, 7, 8, 9, 10, 11, 12, 13, 14, 15]"
  "distinct ''0123456789abcdef''"
  by (simp_all add: isxdigit_def isdigit_def islower_def digit_value_def)

lemma upt_16: "[0, 1, 2, 3, 4, 5, 6, 7, 8, 9, 10, 11, 12, 13, 14, 15] = [0 ..< 16]"
  by code_simp

lemma hex_digit:
  assumes "d < 16"
  shows "isxdigit (hex_char d)" "digit_value (hex_char d) = d" "hex_char d = CHR ''0'' \<longleftrightarrow> d = 0"
proof -
  have d: "d < length ''0123456789abcdef''" using assms by simp
  show "isxdigit (hex_char d)" using hex_digits(1) d unfolding hex_char_def list_all_length by blast
  have "map digit_value ''0123456789abcdef'' ! d = [0 ..< 16] ! d" unfolding hex_digits(2) upt_16 ..
  then show "digit_value (hex_char d) = d" using assms d by (simp only: nth_map nth_upt hex_char_def)
  show "hex_char d = CHR ''0'' \<longleftrightarrow> d = 0"
    using nth_eq_iff_index_eq [OF hex_digits(3) d, of 0] by (simp add: hex_char_def)
qed

lemma to_hex_not_Nil: "to_hex n \<noteq> []"
  by (subst to_hex.simps) simp

lemma to_hex_first: "n \<noteq> 0 \<Longrightarrow> \<exists>d. 0 < d \<and> d < 16 \<and> hd (to_hex n) = hex_char d"
proof (induction n rule: to_hex.induct)
  case (1 n)
  show ?case
  proof (cases "n < 16")
    case True
    then show ?thesis using 1 by (subst to_hex.simps) auto
  next
    case False
    then have "n div 16 \<noteq> 0" by simp
    then show ?thesis using False 1 to_hex_not_Nil [of "n div 16"] by (subst to_hex.simps) simp
  qed
qed

lemma to_hex_0: "to_hex 0 = ''0''"
  by code_simp

lemma strtoull_digits:
  "strtoull_loop r 16 (cs @ [hex_char d]) = (let (v, rest) = strtoull_loop r 16 cs in
     if rest = [] \<and> d < 16 then (v * 16 + word_of_nat d, []) else (v, rest @ [hex_char d]))"
  if "d < 16"
  using that by (induction r "16 :: nat" cs rule: strtoull_loop.induct) (auto simp: hex_digit)

lemma strtoull_to_hex: "strtoull_loop 0 16 (to_hex n) = (word_of_nat n, [])"
proof (induction n rule: to_hex.induct)
  case (1 n)
  show ?case
  proof (cases "n < 16")
    case True
    then show ?thesis by (subst to_hex.simps) (simp add: hex_digit)
  next
    case False
    have "word_of_nat n = (word_of_nat (n div 16) * 16 + word_of_nat (n mod 16) :: u64)"
      by (metis div_mult_mod_eq of_nat_add of_nat_mult of_nat_numeral)
    then show ?thesis using False 1 by (subst to_hex.simps) (simp add: strtoull_digits)
  qed
qed
lemma str2ll_to_hex:
  "str2ll (to_hex n) = (True, word_of_nat n)" "str2ll (''0x'' @ to_hex n) = (True, word_of_nat n)"
proof -
  obtain c cs where c: "to_hex n = c # cs" using to_hex_not_Nil [of n] by (cases "to_hex n") auto
  have d: "isxdigit c"
  proof (cases "n = 0")
    case False
    then show ?thesis using to_hex_first [of n] c hex_digit(1) by auto
  next
    case True
    then show ?thesis using c hex_digit(1,3) [of 0] by (auto simp: to_hex_0)
  qed
  have "strto_prefix (''0x'' @ to_hex n) 16 = (to_hex n, 16)" using c d by simp
  then show "str2ll (''0x'' @ to_hex n) = (True, word_of_nat n)"
    by (simp add: str2ll_def simple_strtoull_def strtoull_to_hex)
  show "str2ll (to_hex n) = (True, word_of_nat n)"
  proof (cases "n = 0")
    case True
    then show ?thesis by (simp add: to_hex_0 str2ll_def simple_strtoull_def)
  next
    case False
    then have "c \<noteq> CHR ''0''" using to_hex_first [of n] c hex_digit(3) by auto
    then have "strto_prefix (to_hex n) 16 = (to_hex n, 16)"
      unfolding c by (cases "(c # cs, 16 :: nat)" rule: strto_prefix.cases) auto
    then show ?thesis using to_hex_not_Nil [of n] by (simp add: str2ll_def simple_strtoull_def strtoull_to_hex)
  qed
qed

text \<open>
  C38: The number parser of the command reads back the hexadecimal digits of every number, with or without \<open>0x\<close> before them; a number of
  more than 64 bits is not refused: its low 64 bits are taken.
\<close>

theorem parse_hex: "str2ll (to_hex n) = (True, word_of_nat n) \<and> str2ll (''0x'' @ to_hex n) = (True, word_of_nat n)"
  using str2ll_to_hex by simp

section \<open>The range of the test\<close>

text \<open>
  C40: What the burn-in test accepts as its range: it starts at or above the first megabyte, start and length are whole blocks, and the
  sum of both, taken modulo \<open>2 ^ 64\<close>, is inside the chip.  So a length near \<open>2 ^ 64\<close> passes.
\<close>

theorem ew_range_accepts:
  assumes "pow2_size (erasesize m)"
  shows "ew_range_ok m off sz \<longleftrightarrow> 0x100000 \<le> unat off \<and> unat off < 2 ^ 63 \<and> (unat off + unat sz) mod 2 ^ 64 \<le> unat (mtd_size m) \<and>
    unat (erasesize m) dvd unat off \<and> unat (erasesize m) dvd unat sz"
proof -
  have al: "x AND ucast (erasesize m - 1) = 0 \<longleftrightarrow> unat (erasesize m) dvd unat x" for x :: u64
    by (simp add: word_unat_eq_iff unat_block_offset [OF assms, symmetric] dvd_eq_mod_eq_0)
  have "\<not> word_sless off 0x100000 \<longleftrightarrow> 0x100000 \<le> sint off" by (auto simp: word_sless_alt)
  also have "\<dots> \<longleftrightarrow> 0x100000 \<le> unat off \<and> unat off < 2 ^ 63"
  proof
    assume *: "0x100000 \<le> sint off"
    then have eq: "int (unat off) = sint off" by (intro unat_sint_pos) simp
    have "sint off < 2 ^ 63" using sint_lt [of off] by simp
    then have "unat off < 2 ^ 63" unfolding eq [symmetric] by (metis of_nat_less_numeral_power_cancel_iff)
    then show "0x100000 \<le> unat off \<and> unat off < 2 ^ 63" using * unfolding eq [symmetric] by linarith
  next
    assume "0x100000 \<le> unat off \<and> unat off < 2 ^ 63"
    moreover from this have "sint off = int (unat off)" by (intro sint_small) simp
    ultimately show "0x100000 \<le> sint off" by linarith
  qed
  finally show ?thesis
    unfolding ew_range_ok_def al by (simp add: word_le_nat_alt not_less unat_word_ariths)
qed

text \<open>On a chip of 128 MiB, a length of all but one of the \<open>2 ^ 64 / 0x20000\<close> blocks is let through.\<close>

lemma ew_range_accepts_witness:
  "ew_range_ok \<lparr>mtd_size = 0x8000000, erasesize = 0x20000, writesize = 2048, oobsize = 64, oobused = 64, mtd_oobavail = 30\<rparr>
     0x100000 0xFFFFFFFFFFFE0000"
proof -
  let ?m = "\<lparr>mtd_size = 0x8000000, erasesize = 0x20000, writesize = 2048, oobsize = 64, oobused = 64, mtd_oobavail = 30\<rparr>"
  have "pow2_size (erasesize ?m)" unfolding pow2_size_def by (intro exI [of _ 17]) simp
  then show ?thesis by (subst ew_range_accepts) simp_all
qed

end
