(* ===== verification/Crc32.thy ===== *)
theory Crc32
  imports Prelude
begin

text \<open>
  The checksum of \<open>lib/crc32.c\<close>, as it is compiled for a little endian processor: a byte at a time up to a word
  boundary, then a word at a time, then the bytes that are left.  It is shown to be the division by the polynomial bit by bit, as
  the comment in the source explains it, and to tell apart any two texts that differ within four bytes.
\<close>

section \<open>The code\<close>

definition crc_table :: "u32 list" where
  "crc_table =
    [0x00000000, 0x77073096, 0xEE0E612C, 0x990951BA, 0x076DC419, 0x706AF48F, 0xE963A535, 0x9E6495A3,
     0x0EDB8832, 0x79DCB8A4, 0xE0D5E91E, 0x97D2D988, 0x09B64C2B, 0x7EB17CBD, 0xE7B82D07, 0x90BF1D91,
     0x1DB71064, 0x6AB020F2, 0xF3B97148, 0x84BE41DE, 0x1ADAD47D, 0x6DDDE4EB, 0xF4D4B551, 0x83D385C7,
     0x136C9856, 0x646BA8C0, 0xFD62F97A, 0x8A65C9EC, 0x14015C4F, 0x63066CD9, 0xFA0F3D63, 0x8D080DF5,
     0x3B6E20C8, 0x4C69105E, 0xD56041E4, 0xA2677172, 0x3C03E4D1, 0x4B04D447, 0xD20D85FD, 0xA50AB56B,
     0x35B5A8FA, 0x42B2986C, 0xDBBBC9D6, 0xACBCF940, 0x32D86CE3, 0x45DF5C75, 0xDCD60DCF, 0xABD13D59,
     0x26D930AC, 0x51DE003A, 0xC8D75180, 0xBFD06116, 0x21B4F4B5, 0x56B3C423, 0xCFBA9599, 0xB8BDA50F,
     0x2802B89E, 0x5F058808, 0xC60CD9B2, 0xB10BE924, 0x2F6F7C87, 0x58684C11, 0xC1611DAB, 0xB6662D3D,
     0x76DC4190, 0x01DB7106, 0x98D220BC, 0xEFD5102A, 0x71B18589, 0x06B6B51F, 0x9FBFE4A5, 0xE8B8D433,
     0x7807C9A2, 0x0F00F934, 0x9609A88E, 0xE10E9818, 0x7F6A0DBB, 0x086D3D2D, 0x91646C97, 0xE6635C01,
     0x6B6B51F4, 0x1C6C6162, 0x856530D8, 0xF262004E, 0x6C0695ED, 0x1B01A57B, 0x8208F4C1, 0xF50FC457,
     0x65B0D9C6, 0x12B7E950, 0x8BBEB8EA, 0xFCB9887C, 0x62DD1DDF, 0x15DA2D49, 0x8CD37CF3, 0xFBD44C65,
     0x4DB26158, 0x3AB551CE, 0xA3BC0074, 0xD4BB30E2, 0x4ADFA541, 0x3DD895D7, 0xA4D1C46D, 0xD3D6F4FB,
     0x4369E96A, 0x346ED9FC, 0xAD678846, 0xDA60B8D0, 0x44042D73, 0x33031DE5, 0xAA0A4C5F, 0xDD0D7CC9,
     0x5005713C, 0x270241AA, 0xBE0B1010, 0xC90C2086, 0x5768B525, 0x206F85B3, 0xB966D409, 0xCE61E49F,
     0x5EDEF90E, 0x29D9C998, 0xB0D09822, 0xC7D7A8B4, 0x59B33D17, 0x2EB40D81, 0xB7BD5C3B, 0xC0BA6CAD,
     0xEDB88320, 0x9ABFB3B6, 0x03B6E20C, 0x74B1D29A, 0xEAD54739, 0x9DD277AF, 0x04DB2615, 0x73DC1683,
     0xE3630B12, 0x94643B84, 0x0D6D6A3E, 0x7A6A5AA8, 0xE40ECF0B, 0x9309FF9D, 0x0A00AE27, 0x7D079EB1,
     0xF00F9344, 0x8708A3D2, 0x1E01F268, 0x6906C2FE, 0xF762575D, 0x806567CB, 0x196C3671, 0x6E6B06E7,
     0xFED41B76, 0x89D32BE0, 0x10DA7A5A, 0x67DD4ACC, 0xF9B9DF6F, 0x8EBEEFF9, 0x17B7BE43, 0x60B08ED5,
     0xD6D6A3E8, 0xA1D1937E, 0x38D8C2C4, 0x4FDFF252, 0xD1BB67F1, 0xA6BC5767, 0x3FB506DD, 0x48B2364B,
     0xD80D2BDA, 0xAF0A1B4C, 0x36034AF6, 0x41047A60, 0xDF60EFC3, 0xA867DF55, 0x316E8EEF, 0x4669BE79,
     0xCB61B38C, 0xBC66831A, 0x256FD2A0, 0x5268E236, 0xCC0C7795, 0xBB0B4703, 0x220216B9, 0x5505262F,
     0xC5BA3BBE, 0xB2BD0B28, 0x2BB45A92, 0x5CB36A04, 0xC2D7FFA7, 0xB5D0CF31, 0x2CD99E8B, 0x5BDEAE1D,
     0x9B64C2B0, 0xEC63F226, 0x756AA39C, 0x026D930A, 0x9C0906A9, 0xEB0E363F, 0x72076785, 0x05005713,
     0x95BF4A82, 0xE2B87A14, 0x7BB12BAE, 0x0CB61B38, 0x92D28E9B, 0xE5D5BE0D, 0x7CDCEFB7, 0x0BDBDF21,
     0x86D3D2D4, 0xF1D4E242, 0x68DDB3F8, 0x1FDA836E, 0x81BE16CD, 0xF6B9265B, 0x6FB077E1, 0x18B74777,
     0x88085AE6, 0xFF0F6A70, 0x66063BCA, 0x11010B5C, 0x8F659EFF, 0xF862AE69, 0x616BFFD3, 0x166CCF45,
     0xA00AE278, 0xD70DD2EE, 0x4E048354, 0x3903B3C2, 0xA7672661, 0xD06016F7, 0x4969474D, 0x3E6E77DB,
     0xAED16A4A, 0xD9D65ADC, 0x40DF0B66, 0x37D83BF0, 0xA9BCAE53, 0xDEBB9EC5, 0x47B2CF7F, 0x30B5FFE9,
     0xBDBDF21C, 0xCABAC28A, 0x53B39330, 0x24B4A3A6, 0xBAD03605, 0xCDD70693, 0x54DE5729, 0x23D967BF,
     0xB3667A2E, 0xC4614AB8, 0x5D681B02, 0x2A6F2B94, 0xB40BBE37, 0xC30C8EA1, 0x5A05DF1B, 0x2D02EF8D]"
text \<open>The generator of the table, with the terms of the polynomial (\<open>DYNAMIC_CRC_TABLE\<close>).\<close>

definition crc_poly :: u32 where
  "crc_poly = fold (\<lambda>p poly. poly OR push_bit (31 - p) 1) [0, 1, 2, 4, 5, 7, 8, 10, 11, 12, 16, 22, 23, 26] 0"

definition crc_shift :: "u32 \<Rightarrow> u32" where
  "crc_shift c = (if c AND 1 \<noteq> 0 then crc_poly XOR drop_bit 1 c else drop_bit 1 c)"

definition make_crc_table :: "u32 list" where
  "make_crc_table = map (\<lambda>n. (crc_shift ^^ 8) (word_of_nat n)) [0..<256]"

text \<open>The macro \<open>DO_CRC\<close>.\<close>

definition do_crc :: "u32 \<Rightarrow> u32 \<Rightarrow> u32" where
  "do_crc x crc = crc_table ! unat ((crc XOR x) AND 255) XOR drop_bit 8 crc"

text \<open>The three loops of \<open>crc32_no_comp\<close>; the first and the last test at their end and are entered with \<open>0 < n\<close> only.\<close>

fun crc_align :: "memory \<Rightarrow> nat \<Rightarrow> nat \<Rightarrow> u32 \<Rightarrow> nat \<times> nat \<times> u32" where
  "crc_align mm p 0 crc = (p, 0, crc)"
| "crc_align mm p (Suc n) crc =
    (let crc = do_crc (ucast (mm p)) crc in
     if n \<noteq> 0 \<and> Suc p mod 4 \<noteq> 0 then crc_align mm (Suc p) n crc else (Suc p, n, crc))"

fun crc_words :: "memory \<Rightarrow> nat \<Rightarrow> nat \<Rightarrow> u32 \<Rightarrow> nat \<times> u32" where
  "crc_words mm b 0 crc = (b, crc)"
| "crc_words mm b (Suc n) crc =
    crc_words mm (b + 4) n (do_crc 0 (do_crc 0 (do_crc 0 (do_crc 0 (crc XOR load_u32 mm b)))))"

fun crc_bytes :: "memory \<Rightarrow> nat \<Rightarrow> nat \<Rightarrow> u32 \<Rightarrow> u32" where
  "crc_bytes mm p 0 crc = crc"
| "crc_bytes mm p (Suc n) crc = crc_bytes mm (Suc p) n (do_crc (ucast (mm p)) crc)"

definition crc32_no_comp :: "u32 \<Rightarrow> memory \<Rightarrow> nat \<Rightarrow> u32 \<Rightarrow> u32" where
  "crc32_no_comp crc mm buf len =
    (let (b, len, crc) = (if buf mod 4 \<noteq> 0 \<and> len \<noteq> 0 then crc_align mm buf (unat len) crc else (buf, unat len, crc));
         rem_len = len mod 4;
         (b, crc) = crc_words mm b (len div 4) crc in
     if rem_len \<noteq> 0 then crc_bytes mm b rem_len crc else crc)"

definition crc32 :: "u32 \<Rightarrow> memory \<Rightarrow> nat \<Rightarrow> u32 \<Rightarrow> u32" where
  "crc32 crc mm p len = crc32_no_comp (crc XOR 0xffffffff) mm p len XOR 0xffffffff"

text \<open>Without a watchdog, as on this board.\<close>

definition crc32_wd :: "u32 \<Rightarrow> memory \<Rightarrow> nat \<Rightarrow> u32 \<Rightarrow> u32 \<Rightarrow> u32" where
  "crc32_wd crc mm buf len chunk_sz = crc32 crc mm buf len"


section \<open>The shift register is linear\<close>

lemma crc_poly_value: "crc_poly = 0xEDB88320"
  by (simp add: crc_poly_def push_bit_eq_mult)

lemma crc_shift_bit: "bit (crc_shift c) i \<longleftrightarrow> (bit c 0 \<and> bit crc_poly i) \<noteq> bit c (i + 1)"
  by (simp add: crc_shift_def and_one_eq odd_iff_mod_2_eq_one [symmetric] bit_simps bit_0 bit_Suc drop_bit_Suc)

lemma xor_left_same: "x XOR y = x XOR z \<longleftrightarrow> y = (z :: u32)"
  by (metis xor.assoc xor.left_neutral xor_self_eq)

lemma crc_shift_xor: "crc_shift (x XOR y) = crc_shift x XOR crc_shift y"
  by (rule bit_word_eqI) (auto simp: crc_shift_bit bit_simps)

lemma crc_shifts_xor: "(crc_shift ^^ k) (x XOR y) = (crc_shift ^^ k) x XOR (crc_shift ^^ k) y"
  by (induction k) (simp_all add: crc_shift_xor)

lemma crc_shift_inj: "crc_shift x = crc_shift y \<Longrightarrow> x = y"
proof -
  assume *: "crc_shift x = crc_shift y"
  have b: "bit crc_poly 31" by (simp add: crc_poly_value)
  have 0: "bit x 0 = bit y 0" using arg_cong [OF *, of "\<lambda>c. bit c 31"] b bit_imp_le_length [of x 32] bit_imp_le_length [of y 32]
    by (auto simp: crc_shift_bit)
  have "bit x (Suc i) = bit y (Suc i)" for i
    using arg_cong [OF *, of "\<lambda>c. bit c i"] 0 by (auto simp: crc_shift_bit)
  then show ?thesis using 0 by (intro bit_word_eqI) (metis not0_implies_Suc)
qed

lemma bit_255: "bit (255 :: u32) k \<longleftrightarrow> k < 8"
proof -
  have "(255 :: u32) = mask 8" by (simp add: mask_eq_exp_minus_1)
  then show ?thesis by (simp only: bit_mask_iff) auto
qed

lemma crc_shifts_inj: "(crc_shift ^^ k) x = (crc_shift ^^ k) y \<longleftrightarrow> x = y"
  by (induction k arbitrary: x y) (auto dest: crc_shift_inj)

lemma crc_shifts_low: "k \<le> 8 \<Longrightarrow> x AND 255 = 0 \<Longrightarrow> (crc_shift ^^ k) x = drop_bit k x"
proof (induction k)
  case (Suc k)
  have "\<not> bit x k" using arg_cong [OF Suc.prems(2), of "\<lambda>c. bit c k"] Suc.prems(1) bit_255 [of k]
    by (simp add: bit_and_iff)
  then show ?case using Suc by (intro bit_word_eqI) (auto simp: crc_shift_bit bit_simps)
qed simp
section \<open>The table\<close>

lemma of_nat_high: "n < 2 ^ k \<Longrightarrow> k < 32 \<Longrightarrow> (word_of_nat (2 ^ k + n) :: u32) = word_of_nat n XOR 2 ^ k"
proof -
  assume *: "n < 2 ^ k" "k < 32"
  have "\<not> bit n k" using * by (simp add: bit_iff_odd)
  then have "(word_of_nat n :: u32) AND 2 ^ k = 0"
    by (intro bit_word_eqI) (auto simp: bit_simps)
  then show ?thesis by (simp add: disjunctive_add_eq_xor add.commute)
qed

lemma table_double:
  assumes "k < 32"
  shows "map (\<lambda>n. (crc_shift ^^ 8) (word_of_nat n)) [0..<2 ^ Suc k] =
    map (\<lambda>n. (crc_shift ^^ 8) (word_of_nat n)) [0..<2 ^ k] @
    map (\<lambda>c. c XOR (crc_shift ^^ 8) (2 ^ k)) (map (\<lambda>n. (crc_shift ^^ 8) (word_of_nat n)) [0..<2 ^ k])"
proof (rule nth_equalityI)
  fix i assume i: "i < length (map (\<lambda>n. (crc_shift ^^ 8) (word_of_nat n)) [0..<2 ^ Suc k])"
  show "map (\<lambda>n. (crc_shift ^^ 8) (word_of_nat n)) [0..<2 ^ Suc k] ! i =
    (map (\<lambda>n. (crc_shift ^^ 8) (word_of_nat n)) [0..<2 ^ k] @
     map (\<lambda>c. c XOR (crc_shift ^^ 8) (2 ^ k)) (map (\<lambda>n. (crc_shift ^^ 8) (word_of_nat n)) [0..<2 ^ k])) ! i"
  proof (cases "i < 2 ^ k")
    case False
    then obtain j where j: "i = 2 ^ k + j" by (metis le_iff_add not_less)
    then have "j < 2 ^ k" using i by simp
    then show ?thesis by (simp add: j nth_append of_nat_high [OF _ assms] crc_shifts_xor del: of_nat_add)
  qed (simp add: nth_append)
qed simp

lemma crc_table_double: "crc_table = fold (\<lambda>k t. t @ map (\<lambda>c. c XOR (crc_shift ^^ 8) (2 ^ k)) t) [0..<8] [0]"
proof -
  have s8: "(crc_shift ^^ 8) x = crc_shift (crc_shift (crc_shift (crc_shift (crc_shift (crc_shift (crc_shift (crc_shift x)))))))" for x
    by (simp add: numeral_eq_Suc)
  have "map (\<lambda>k. (crc_shift ^^ 8) (2 ^ k)) [0..<8] =
      [0x77073096, 0xEE0E612C, 0x076DC419, 0x0EDB8832, 0x1DB71064, 0x3B6E20C8, 0x76DC4190, 0xEDB88320]"
    unfolding s8 by (simp add: crc_shift_def crc_poly_value upt_rec)
  then show ?thesis unfolding crc_table_def by (simp add: upt_rec)
qed

lemma make_table_double: "k \<le> 8 \<Longrightarrow> fold (\<lambda>k t. t @ map (\<lambda>c. c XOR (crc_shift ^^ 8) (2 ^ k)) t) [0..<k] [0] =
    map (\<lambda>n. (crc_shift ^^ 8) (word_of_nat n)) [0..<2 ^ k]"
proof (induction k)
  case 0
  have "(crc_shift ^^ 8) 0 = 0" using crc_shifts_low [of 8 0] by simp
  then show ?case by simp
next
  case (Suc k)
  then show ?case by (simp add: table_double del: power_Suc)
qed

lemma crc_table_made: "crc_table = make_crc_table"
  using make_table_double [of 8] by (simp add: crc_table_double make_crc_table_def)

lemma do_crc_shifts: "do_crc x c = (crc_shift ^^ 8) (c XOR x)" if "x AND 255 = x"
proof -
  let ?i = "(c XOR x) AND 255"
  have "c XOR x = ?i XOR ((c XOR x) AND NOT 255)" by (rule bit_word_eqI) (auto simp: bit_simps)
  then have "(crc_shift ^^ 8) (c XOR x) = (crc_shift ^^ 8) ?i XOR (crc_shift ^^ 8) ((c XOR x) AND NOT 255)"
    by (metis crc_shifts_xor)
  moreover have "(crc_shift ^^ 8) ((c XOR x) AND NOT 255) = drop_bit 8 ((c XOR x) AND NOT 255)"
    by (rule crc_shifts_low) (simp, rule bit_word_eqI, auto simp: bit_simps)
  moreover have "drop_bit 8 ((c XOR x) AND NOT 255) = drop_bit 8 c"
    proof (rule bit_word_eqI)
    fix n assume "n < LENGTH(32)"
    have "\<not> bit x (8 + n)" using arg_cong [OF that, of "\<lambda>c. bit c (8 + n)"] bit_255 [of "8 + n"] by (auto simp: bit_and_iff)
    then show "bit (drop_bit 8 ((c XOR x) AND NOT 255)) n = bit (drop_bit 8 c) n"
      using bit_255 [of "8 + n"] bit_imp_le_length [of c "8 + n"] \<open>n < LENGTH(32)\<close>
      by (simp only: bit_drop_bit_eq bit_and_iff bit_xor_iff bit_not_iff o_apply) auto
  qed
  moreover have "unat ?i < 256"
  proof -
    have "?i \<le> 255" by (rule word_and_le1)
    then show ?thesis by (simp add: word_le_nat_alt)
  qed
  then have "crc_table ! unat ?i = (crc_shift ^^ 8) ?i" by (simp add: crc_table_made make_crc_table_def)
  ultimately show ?thesis by (simp add: do_crc_def)
qed

section \<open>The text\<close>

text \<open>The division by the polynomial, bit by bit, the lowest bit of a byte first.\<close>

definition crc_ref :: "u32 \<Rightarrow> u8 list \<Rightarrow> u32" where
  "crc_ref crc bs = fold (\<lambda>b c. (crc_shift ^^ 8) (c XOR ucast b)) bs crc"

lemma crc_ref_Nil [simp]: "crc_ref c [] = c"
  by (simp add: crc_ref_def)

lemma crc_ref_Cons: "crc_ref c (b # bs) = crc_ref ((crc_shift ^^ 8) (c XOR ucast b)) bs"
  by (simp add: crc_ref_def)

lemma crc_ref_append: "crc_ref c (xs @ ys) = crc_ref (crc_ref c xs) ys"
  by (simp add: crc_ref_def)

lemma crc_ref_inj: "crc_ref c bs = crc_ref c' bs \<Longrightarrow> c = c'"
proof (induction bs arbitrary: c c')
  case (Cons b bs)
  have "(crc_shift ^^ 8) (c XOR ucast b) = (crc_shift ^^ 8) (c' XOR ucast b)"
    using Cons by (simp only: crc_ref_Cons)
  then have "c XOR ucast b = c' XOR ucast b" by (simp only: crc_shifts_inj)
  then have "(c XOR ucast b) XOR ucast b = (c' XOR ucast b) XOR ucast b" by (simp only:)
  then show ?case by (simp only: xor.assoc xor_self_eq xor.right_neutral)
qed simp

lemma do_crc_byte: "do_crc (ucast (b :: u8)) c = (crc_shift ^^ 8) (c XOR ucast b)"
proof (rule do_crc_shifts, rule bit_word_eqI)
  fix n show "bit ((ucast b :: u32) AND 255) n = bit (ucast b :: u32) n"
    using bit_255 [of n] bit_imp_le_length [of b n] by (auto simp: bit_and_iff bit_unsigned_iff)
qed

lemma do_crc_0: "do_crc 0 c = (crc_shift ^^ 8) c"
  using do_crc_shifts [of 0 c] by simp

lemma crc_shift_byte: "(crc_shift ^^ 8) (c XOR push_bit 8 y) = (crc_shift ^^ 8) c XOR y" if "take_bit 24 y = y"
proof -
  have "push_bit 8 y AND 255 = 0"
  proof (rule bit_word_eqI)
    fix n show "bit (push_bit 8 y AND 255) n = bit (0 :: u32) n"
      using bit_255 [of n] by (auto simp: bit_and_iff bit_push_bit_iff)
  qed
  then have "(crc_shift ^^ 8) (push_bit 8 y) = drop_bit 8 (push_bit 8 y)" by (simp add: crc_shifts_low)
  also have "\<dots> = y"
  proof (rule bit_word_eqI)
    fix n show "bit (drop_bit 8 (push_bit 8 y)) n = bit y n"
      using arg_cong [OF that, of "\<lambda>c. bit c n"] by (auto simp: bit_simps)
  qed
  finally show ?thesis by (simp add: crc_shifts_xor)
qed

lemma load_u32_split: "load_u32 mm a = ucast (mm a) XOR push_bit 8 (ucast (mm (a + 1)) XOR push_bit 8 (ucast (mm (a + 2)) XOR push_bit 8 (ucast (mm (a + 3)))))"
  unfolding load_u32_def
  by (rule bit_word_eqI) (auto simp: bit_simps dest: bit_imp_le_length)

lemma byte_take: "take_bit 24 (ucast (b :: u8) :: u32) = ucast b"
  "take_bit 24 (ucast (b :: u8) XOR push_bit 8 (ucast (b' :: u8)) :: u32) = ucast b XOR push_bit 8 (ucast b')"
  "take_bit 24 (ucast (b :: u8) XOR push_bit 8 (ucast (b' :: u8) XOR push_bit 8 (ucast (b'' :: u8))) :: u32) =
    ucast b XOR push_bit 8 (ucast b' XOR push_bit 8 (ucast b''))"
  by (rule bit_word_eqI, auto simp: bit_simps dest: bit_imp_le_length)+

lemma do_crc_word: "do_crc 0 (do_crc 0 (do_crc 0 (do_crc 0 (c XOR load_u32 mm a)))) = crc_ref c [mm a, mm (a + 1), mm (a + 2), mm (a + 3)]"
  by (simp only: do_crc_0 load_u32_split crc_shift_byte byte_take crc_ref_Cons crc_ref_Nil xor.assoc [symmetric])

lemma load_bytes_4: "load_bytes mm a (4 + n) = [mm a, mm (a + 1), mm (a + 2), mm (a + 3)] @ load_bytes mm (a + 4) n"
  unfolding load_bytes_append by (simp add: load_bytes_def upt_rec numeral_3_eq_3)

lemma load_bytes_Suc: "load_bytes mm a (Suc n) = mm a # load_bytes mm (Suc a) n"
  by (simp add: load_bytes_def upt_rec)

lemma crc_bytes_ref: "crc_bytes mm p n c = crc_ref c (load_bytes mm p n)"
  by (induction mm p n c rule: crc_bytes.induct) (simp_all add: load_bytes_Suc crc_ref_Cons do_crc_byte)

lemma crc_words_ref: "crc_words mm b n c = (b + 4 * n, crc_ref c (load_bytes mm b (4 * n)))"
proof (induction mm b n c rule: crc_words.induct)
  case (2 mm b n c)
  have "crc_words mm b (Suc n) c = crc_words mm (b + 4) n (crc_ref c [mm b, mm (b + 1), mm (b + 2), mm (b + 3)])"
    by (simp only: crc_words.simps do_crc_word)
  also have "\<dots> = (b + 4 + 4 * n, crc_ref (crc_ref c [mm b, mm (b + 1), mm (b + 2), mm (b + 3)]) (load_bytes mm (b + 4) (4 * n)))"
    using 2 by (simp only: do_crc_word)
  also have "\<dots> = (b + 4 * Suc n, crc_ref c (load_bytes mm b (4 * Suc n)))"
    by (simp only: mult_Suc_right load_bytes_4 crc_ref_append add.assoc)
  finally show ?case .
qed simp

lemma crc_align_ref: "crc_align mm p n c = (p', n', c') \<Longrightarrow> crc_ref c' (load_bytes mm p' n') = crc_ref c (load_bytes mm p n)"
  by (induction mm p n c rule: crc_align.induct)
    (auto simp: load_bytes_Suc crc_ref_Cons do_crc_byte Let_def split: if_splits)

lemma crc32_ref: "crc32 c mm p n = NOT (crc_ref (NOT c) (load_bytes mm p (unat n)))"
proof -
  obtain b k e where a: "(if p mod 4 \<noteq> 0 \<and> n \<noteq> 0 then crc_align mm p (unat n) (NOT c) else (p, unat n, NOT c)) = (b, k, e)"
    by (metis prod_cases3)
  then have "crc_ref e (load_bytes mm b k) = crc_ref (NOT c) (load_bytes mm p (unat n))"
    by (auto split: if_splits dest: crc_align_ref)
  moreover have "crc_ref e (load_bytes mm b k) =
      crc_ref (crc_ref e (load_bytes mm b (4 * (k div 4)))) (load_bytes mm (b + 4 * (k div 4)) (k mod 4))"
    by (metis crc_ref_append load_bytes_append mult_div_mod_eq)
  moreover have "(if k mod 4 \<noteq> 0 then crc_bytes mm b' (k mod 4) x else x) = crc_ref x (load_bytes mm b' (k mod 4))" for b' x
    by (simp add: crc_bytes_ref)
  then have "crc32_no_comp (NOT c) mm p n = crc_ref (crc_ref e (load_bytes mm b (4 * (k div 4)))) (load_bytes mm (b + 4 * (k div 4)) (k mod 4))"
    unfolding crc32_no_comp_def a by (simp only: crc_words_ref Let_def prod.case)
  ultimately have "crc32_no_comp (NOT c) mm p n = crc_ref (NOT c) (load_bytes mm p (unat n))" by metis
  moreover have "x XOR 0xffffffff = NOT x" for x :: u32
  proof -
    have m: "(0xffffffff :: u32) = - 1" by simp
    show ?thesis unfolding m by simp
  qed
  ultimately show ?thesis by (simp add: crc32_def)
qed

text \<open>
  C33: The checksum of any text at any address, aligned or not, computed with the table and a word at a time, is the remainder of the
  division by the polynomial taken bit by bit, with the register inverted before and after.
\<close>

theorem crc32_bitwise: "crc32 c mm p n = NOT (fold (\<lambda>b c. (crc_shift ^^ 8) (c XOR ucast b)) (load_bytes mm p (unat n)) (NOT c))"
  using crc32_ref [of c mm p n] by (simp add: crc_ref_def)

lemma load_u32_inj: "load_u32 mm a = load_u32 mm' a' \<Longrightarrow> j < 4 \<Longrightarrow> mm (a + j) = mm' (a' + j)"
proof (rule bit_word_eqI)
  fix k assume *: "load_u32 mm a = load_u32 mm' a'" "j < 4" "k < LENGTH(8)"
  have "bit (load_u32 mm a) (8 * j + k) = bit (mm (a + j)) k" for mm a
  proof -
    have "j = 0 \<or> j = 1 \<or> j = 2 \<or> j = 3" using *(2) by auto
    then show ?thesis using *(3)
      by (auto simp: load_u32_def bit_simps dest: bit_imp_le_length)
  qed
  then show "bit (mm (a + j)) k = bit (mm' (a' + j)) k" using *(1) by metis
qed

lemma crc32_continues: "unat n + unat k < 2 ^ 32 \<Longrightarrow> crc32 (crc32 c mm p n) mm (p + unat n) k = crc32 c mm p (n + k)"
  by (simp add: crc32_ref crc_ref_append [symmetric] load_bytes_append [symmetric] unat_word_ariths)

text \<open>
  C34: Two texts of the same length that differ somewhere within four bytes, and nowhere else, have different checksums: whatever
  happens to a word of the stored variables is found out.
\<close>

theorem crc32_detects:
  assumes "i + 4 \<le> unat n" "\<And>j. j < i \<or> i + 4 \<le> j \<Longrightarrow> j < unat n \<Longrightarrow> mm (p + j) = mm' (p' + j)"
    and "k < 4" "mm (p + i + k) \<noteq> mm' (p' + i + k)"
  shows "crc32 c mm p n \<noteq> crc32 c mm' p' n"
proof
  define r where "r = unat n - (i + 4)"
  assume "crc32 c mm p n = crc32 c mm' p' n"
  then have *: "crc_ref (NOT c) (load_bytes mm p (i + (4 + r))) = crc_ref (NOT c) (load_bytes mm' p' (i + (4 + r)))"
    using assms(1) by (simp add: crc32_ref r_def)
  have "load_bytes mm p i = load_bytes mm' p' i" "load_bytes mm (p + i + 4) r = load_bytes mm' (p' + i + 4) r"
    using assms(1) assms(2) [of "i + 4 + _"] by (auto simp: load_bytes_def r_def add.assoc intro!: nth_equalityI assms(2))
  then have "do_crc 0 (do_crc 0 (do_crc 0 (do_crc 0 (crc_ref (NOT c) (load_bytes mm' p' i) XOR load_u32 mm (p + i))))) =
    do_crc 0 (do_crc 0 (do_crc 0 (do_crc 0 (crc_ref (NOT c) (load_bytes mm' p' i) XOR load_u32 mm' (p' + i)))))"
    using * by (auto simp only: load_bytes_append [of _ _ i] load_bytes_4 crc_ref_append do_crc_word dest: crc_ref_inj)
  then have "load_u32 mm (p + i) = load_u32 mm' (p' + i)"
    by (simp only: do_crc_0 crc_shifts_inj xor_left_same)
  then show False using assms(3,4) load_u32_inj by metis
qed

lemma crc32_detects_witness:
  "crc32 0 (\<lambda>a. if a = 0x1005 then 0x80 else 0) 0x1001 9 \<noteq> crc32 0 (\<lambda>a. 0) 0x2002 9"
  by (rule crc32_detects [where i = 3 and k = 1]) auto

end
