(* ===== verification/EnvNand.thy ===== *)
theory EnvNand
  imports NandUtil Crc32
begin

text \<open>
  Where the variables of the boot loader are stored: \<open>common/env_nand.c\<close> writes and reads them in one area of the chip, block by block around the bad ones,
  \<open>common/env_common.c\<close> loads them at the start, or puts in the default ones when there are none or their checksum is
  wrong, and \<open>common/env_common_func.c\<close> chooses the medium.  \<open>do_saveenv\<close> is the command of \<open>common/cmd_nvedit.c\<close>.

  The area in memory (\<open>env_t\<close>, \<open>include/environment.h\<close>) is the checksum in four bytes and the data behind it.  The sizes are those of this board
  (\<open>include/configs/hi3716mv310_config.h\<close>); there is no second and no backup area.
\<close>

section \<open>Sizes\<close>

definition CONFIG_ENV_OFFSET :: u32 where "CONFIG_ENV_OFFSET = 0xC0000"
definition CONFIG_ENV_SIZE :: u32 where "CONFIG_ENV_SIZE = 0x20000"
definition CONFIG_ENV_RANGE :: u32 where "CONFIG_ENV_RANGE = 0x20000"
definition ENV_HEADER_SIZE :: u32 where "ENV_HEADER_SIZE = 4"
definition ENV_SIZE :: u32 where "ENV_SIZE = CONFIG_ENV_SIZE - ENV_HEADER_SIZE"

text \<open>
  The fields of \<open>gd\<close> that are used here, and \<open>env_ptr\<close>.  \<open>default_env\<close> and \<open>default_len\<close> are the address and size of the
  array \<open>default_environment\<close>.
\<close>

record env_gd =
  env_ptr :: nat
  env_addr :: nat
  env_valid :: u32
  gd_reloc :: bool
  default_env :: nat
  default_len :: u32

abbreviation env_data :: "nat \<Rightarrow> nat" where "env_data p \<equiv> p + 4"

section \<open>The area in flash\<close>

partial_function (option) writeenv_loop ::
  "'h mtd_info \<Rightarrow> nat \<Rightarrow> u32 \<Rightarrow> u32 \<Rightarrow> u32 \<Rightarrow> u32 \<Rightarrow> 'h nand_st \<Rightarrow> (int \<times> 'h nand_st) option" where
  "writeenv_loop m buf stop offset amount_saved len s =
     (if amount_saved < CONFIG_ENV_SIZE \<and> offset < stop then do {
        (b, s) \<leftarrow> nand_block_isbad m (ucast offset) s;
        if b \<noteq> 0 then writeenv_loop m buf stop (offset + erasesize m) amount_saved len s
        else do {
          ((ret, len), s) \<leftarrow> nand_write m (ucast offset) len (buf + unat amount_saved) s;
          if ret \<noteq> 0 then Some (1, s)
          else writeenv_loop m buf stop (offset + erasesize m) (amount_saved + len) len s}}
      else Some (if amount_saved \<noteq> CONFIG_ENV_SIZE then 1 else 0, s))"

definition writeenv :: "'h mtd_info \<Rightarrow> u32 \<Rightarrow> nat \<Rightarrow> 'h nand_st \<Rightarrow> (int \<times> 'h nand_st) option" where
  "writeenv m offset buf s = writeenv_loop m buf (offset + CONFIG_ENV_RANGE) offset 0 (min (erasesize m) CONFIG_ENV_SIZE) s"

text \<open>\<open>marker\<close> is the address of the clean marker of \<open>nand_erase_opts\<close>.\<close>

definition nand_saveenv :: "'h mtd_info \<Rightarrow> nat \<Rightarrow> env_gd \<Rightarrow> 'h nand_st \<Rightarrow> (int \<times> 'h nand_st) option" where
  "nand_saveenv m marker gd s =
     (let opts = \<lparr>opt_length = ucast CONFIG_ENV_RANGE, opt_offset = ucast CONFIG_ENV_OFFSET, opt_quiet = False,
                  opt_jffs2 = False, opt_scrub = False\<rparr> in
      if CONFIG_ENV_RANGE < CONFIG_ENV_SIZE then Some (1, s)
      else do {
        (r, s) \<leftarrow> nand_erase_opts m opts marker s;
        if r \<noteq> 0 then Some (1, s)
        else do {
          (r, s) \<leftarrow> writeenv m CONFIG_ENV_OFFSET (env_ptr gd) s;
          Some (if r \<noteq> 0 then 1 else 0, s)}})"

partial_function (option) readenv_loop ::
  "'h mtd_info \<Rightarrow> nat \<Rightarrow> u32 \<Rightarrow> u32 \<Rightarrow> u32 \<Rightarrow> u32 \<Rightarrow> 'h nand_st \<Rightarrow> (int \<times> 'h nand_st) option" where
  "readenv_loop m buf stop offset amount_loaded len s =
     (if amount_loaded < CONFIG_ENV_SIZE \<and> offset < stop then do {
        (b, s) \<leftarrow> nand_block_isbad m (ucast offset) s;
        if b \<noteq> 0 then readenv_loop m buf stop (offset + erasesize m) amount_loaded len s
        else do {
          ((ret, len), s) \<leftarrow> nand_read m (ucast offset) len (buf + unat amount_loaded) s;
          if ret \<noteq> 0 then Some (1, s)
          else readenv_loop m buf stop (offset + erasesize m) (amount_loaded + len) len s}}
      else Some (if amount_loaded \<noteq> CONFIG_ENV_SIZE then 1 else 0, s))"

definition readenv :: "'h mtd_info \<Rightarrow> u32 \<Rightarrow> nat \<Rightarrow> 'h nand_st \<Rightarrow> (int \<times> 'h nand_st) option" where
  "readenv m offset buf s = readenv_loop m buf (offset + CONFIG_ENV_RANGE) offset 0 (min (erasesize m) CONFIG_ENV_SIZE) s"

definition nand_env_relocate_spec :: "'h mtd_info \<Rightarrow> u32 \<Rightarrow> env_gd \<Rightarrow> 'h nand_st \<Rightarrow> (int \<times> 'h nand_st) option" where
  "nand_env_relocate_spec m offset gd s = do {
     (ret, s) \<leftarrow> readenv m offset (env_ptr gd) s;
     Some (if ret \<noteq> 0 then 1
           else if crc32 0 (ram s) (env_data (env_ptr gd)) ENV_SIZE \<noteq> load_u32 (ram s) (env_ptr gd) then 1 else 0, s)}"

definition nand_env_init :: "env_gd \<Rightarrow> int \<times> env_gd" where
  "nand_env_init gd = (0, gd\<lparr>env_addr := default_env gd, env_valid := 1\<rparr>)"

definition nand_env_get_char_spec :: "env_gd \<Rightarrow> memory \<Rightarrow> nat \<Rightarrow> u8" where
  "nand_env_get_char_spec gd mm index = mm (env_addr gd + index)"

section \<open>The choice of the medium\<close>

datatype boot_media = BOOT_MEDIA_UNKNOWN | BOOT_MEDIA_DDR | BOOT_MEDIA_NAND | BOOT_MEDIA_SPIFLASH | BOOT_MEDIA_SPI_NAND | BOOT_MEDIA_EMMC |
  BOOT_MEDIA_SD

text \<open>\<open>struct env_common_func_t\<close>; a medium that is not configured is \<open>None\<close>, and so is \<open>env_cmn_func\<close> before it is set.\<close>

record 'h env_common_func_t =
  ef_env_init :: "env_gd \<Rightarrow> int \<times> env_gd"
  ef_env_get_char_spec :: "env_gd \<Rightarrow> memory \<Rightarrow> nat \<Rightarrow> u8"
  ef_saveenv :: "env_gd \<Rightarrow> 'h nand_st \<Rightarrow> (int \<times> 'h nand_st) option"
  ef_env_relocate_spec :: "u32 \<Rightarrow> env_gd \<Rightarrow> 'h nand_st \<Rightarrow> (int \<times> 'h nand_st) option"
  ef_env_media :: boot_media

definition nand_env_cmn_func :: "'h mtd_info \<Rightarrow> nat \<Rightarrow> 'h env_common_func_t" where
  "nand_env_cmn_func m marker =
     \<lparr>ef_env_init = nand_env_init, ef_env_get_char_spec = nand_env_get_char_spec, ef_saveenv = nand_saveenv m marker,
      ef_env_relocate_spec = nand_env_relocate_spec m, ef_env_media = BOOT_MEDIA_NAND\<rparr>"

record 'h env_media_cfg =
  env_in_nand :: "'h env_common_func_t option"
  env_in_sf :: "'h env_common_func_t option"
  env_in_emmc :: "'h env_common_func_t option"
  env_in_sd :: "'h env_common_func_t option"

definition env_get_char_spec :: "'h env_common_func_t option \<Rightarrow> env_gd \<Rightarrow> memory \<Rightarrow> nat \<Rightarrow> u8" where
  "env_get_char_spec ef gd mm index = (case ef of Some f \<Rightarrow> ef_env_get_char_spec f gd mm index | None \<Rightarrow> - 1)"

definition saveenv :: "'h env_common_func_t option \<Rightarrow> env_gd \<Rightarrow> 'h nand_st \<Rightarrow> (int \<times> 'h nand_st) option" where
  "saveenv ef gd s = (case ef of Some f \<Rightarrow> ef_saveenv f gd s | None \<Rightarrow> Some (- 1, s))"

definition env_relocate_spec :: "'h env_common_func_t option \<Rightarrow> u32 \<Rightarrow> env_gd \<Rightarrow> 'h nand_st \<Rightarrow> (int \<times> 'h nand_st) option" where
  "env_relocate_spec ef offset gd s = (case ef of Some f \<Rightarrow> ef_env_relocate_spec f offset gd s | None \<Rightarrow> Some (0, s))"

definition env_init ::
  "'h env_media_cfg \<Rightarrow> boot_media \<Rightarrow> 'h env_common_func_t option \<Rightarrow> env_gd \<Rightarrow> int \<times> 'h env_common_func_t option \<times> env_gd" where
  "env_init cfg media ef gd =
     (let ef = (case ef of Some _ \<Rightarrow> ef | None \<Rightarrow>
                 (case media of
                    BOOT_MEDIA_NAND \<Rightarrow> env_in_nand cfg | BOOT_MEDIA_SPI_NAND \<Rightarrow> env_in_nand cfg
                  | BOOT_MEDIA_SPIFLASH \<Rightarrow> env_in_sf cfg | BOOT_MEDIA_EMMC \<Rightarrow> env_in_emmc cfg
                  | BOOT_MEDIA_SD \<Rightarrow> env_in_sd cfg | BOOT_MEDIA_DDR \<Rightarrow> None | BOOT_MEDIA_UNKNOWN \<Rightarrow> None)) in
      case ef of Some f \<Rightarrow> (let (r, gd) = ef_env_init f gd in (r, ef, gd)) | None \<Rightarrow> (- 1, ef, gd))"

definition env_get_media :: "'h env_common_func_t option \<Rightarrow> boot_media" where
  "env_get_media ef = (case ef of Some f \<Rightarrow> ef_env_media f | None \<Rightarrow> BOOT_MEDIA_UNKNOWN)"

section \<open>Common functions\<close>

definition env_crc_update :: "env_gd \<Rightarrow> memory \<Rightarrow> memory" where
  "env_crc_update gd mm = store_u32 mm (env_ptr gd) (crc32 0 mm (env_data (env_ptr gd)) ENV_SIZE)"

definition env_get_char_memory :: "env_gd \<Rightarrow> memory \<Rightarrow> nat \<Rightarrow> u8" where
  "env_get_char_memory gd mm index = (if env_valid gd \<noteq> 0 then mm (env_addr gd + index) else mm (default_env gd + index))"

definition env_get_char_init :: "'h env_common_func_t option \<Rightarrow> env_gd \<Rightarrow> memory \<Rightarrow> nat \<Rightarrow> u8" where
  "env_get_char_init ef gd mm index =
     (if env_valid gd \<noteq> 0 then env_get_char_spec ef gd mm index else mm (default_env gd + index))"

definition env_get_char :: "'h env_common_func_t option \<Rightarrow> env_gd \<Rightarrow> memory \<Rightarrow> nat \<Rightarrow> u8" where
  "env_get_char ef gd mm index = (if gd_reloc gd then env_get_char_memory gd mm index else env_get_char_init ef gd mm index)"

definition env_get_addr :: "env_gd \<Rightarrow> nat \<Rightarrow> nat" where
  "env_get_addr gd index = (if env_valid gd \<noteq> 0 then env_addr gd + index else default_env gd + index)"

definition set_default_env :: "env_gd \<Rightarrow> memory \<Rightarrow> env_gd \<times> memory" where
  "set_default_env gd mm =
     (if ENV_SIZE < default_len gd then (gd, mm)
      else (let mm = fill_bytes mm (env_ptr gd) 0 (unat CONFIG_ENV_SIZE);
                mm = store_bytes mm (env_data (env_ptr gd)) (load_bytes mm (default_env gd) (unat (default_len gd))) in
            (gd\<lparr>env_valid := 1\<rparr>, mm)))"

text \<open>\<open>p\<close> is what \<open>malloc\<close> gives.\<close>

definition env_relocate :: "'h env_common_func_t option \<Rightarrow> nat \<Rightarrow> env_gd \<Rightarrow> 'h nand_st \<Rightarrow> (env_gd \<times> 'h nand_st) option" where
  "env_relocate ef p gd s = (let gd = gd\<lparr>env_ptr := p\<rparr> in do {
     (gd, s) \<leftarrow> (if env_valid gd = 0 then (let (gd, mm) = set_default_env gd (ram s) in Some (gd, s\<lparr>ram := mm\<rparr>))
       else do {
         (rel, s) \<leftarrow> env_relocate_spec ef CONFIG_ENV_OFFSET gd s;
         if rel \<noteq> 0 then (let (gd, mm) = set_default_env gd (ram s) in Some (gd, s\<lparr>ram := mm\<rparr>)) else Some (gd, s)});
     Some (gd\<lparr>env_addr := env_data (env_ptr gd)\<rparr>, s)})"

text \<open>The command \<open>saveenv\<close>.\<close>

definition do_saveenv :: "'h env_common_func_t option \<Rightarrow> env_gd \<Rightarrow> 'h nand_st \<Rightarrow> (int \<times> 'h nand_st) option" where
  "do_saveenv ef gd s = do {
     (r, s) \<leftarrow> saveenv ef gd (s\<lparr>ram := env_crc_update gd (ram s)\<rparr>);
     Some (if r \<noteq> 0 then 1 else 0, s)}"

end
