(* ===== verification/EnvProps.thy ===== *)
theory EnvProps
  imports StackProps EnvNand
begin

text \<open>
  The stored variables on a device that keeps the contract \<open>mtd_dev\<close>, and over the whole stack.
\<close>

section \<open>On any device\<close>

lemma env_sizes [simp]: "CONFIG_ENV_SIZE = 0x20000" "CONFIG_ENV_RANGE = 0x20000" "CONFIG_ENV_OFFSET = 0xC0000"
  "ENV_SIZE = 0x1FFFC"
  by (simp_all add: CONFIG_ENV_SIZE_def CONFIG_ENV_RANGE_def CONFIG_ENV_OFFSET_def ENV_SIZE_def ENV_HEADER_SIZE_def)

lemma load_u32_store: "load_u32 (store_u32 mm a w) a = w"
proof (rule bit_word_eqI)
  fix n :: nat assume "n < LENGTH(32)"
  then have n: "n < 32" by simp
  have b: "store_u32 mm a w a = ucast w" "store_u32 mm a w (a + 1) = ucast (drop_bit 8 w)"
      "store_u32 mm a w (a + 2) = ucast (drop_bit 16 w)" "store_u32 mm a w (a + 3) = ucast (drop_bit 24 w)"
    by (simp_all add: store_u32_def store_bytes_def)
  have "n < 8 \<or> 8 \<le> n \<and> n < 16 \<or> 16 \<le> n \<and> n < 24 \<or> 24 \<le> n" by linarith
  then show "bit (load_u32 (store_u32 mm a w) a) n = bit w n"
    using n unfolding load_u32_def b by (auto simp: bit_simps)
qed

lemma crc_data_update: "load_bytes (env_crc_update gd mm) (env_data (env_ptr gd)) n = load_bytes mm (env_data (env_ptr gd)) n"
  by (simp add: env_crc_update_def store_u32_def load_store_disjoint)

lemma crc32_load: "load_bytes mm a (unat n) = load_bytes mm' a' (unat n) \<Longrightarrow> crc32 c mm a n = crc32 c mm' a' n"
  by (simp add: crc32_ref)

lemma load_u32_cong: "(\<And>i. i < 4 \<Longrightarrow> mm (a + i) = mm' (a' + i)) \<Longrightarrow> load_u32 mm a = load_u32 mm' a'"
  using add.right_neutral [of a] add.right_neutral [of a'] unfolding load_u32_def
  by (metis (no_types, lifting) one_less_numeral_iff semiring_norm(76) zero_less_numeral numeral_less_iff semiring_norm(77,78,80,81))

text \<open>Whether the checksum of an area is right.\<close>

definition crc_ok :: "memory \<Rightarrow> nat \<Rightarrow> bool" where
  "crc_ok mm p \<longleftrightarrow> crc32 0 mm (env_data p) ENV_SIZE = load_u32 mm p"

lemma crc_ok_updated: "crc_ok (env_crc_update gd mm) (env_ptr gd)"
proof -
  have "crc32 0 (env_crc_update gd mm) (env_data (env_ptr gd)) ENV_SIZE = crc32 0 mm (env_data (env_ptr gd)) ENV_SIZE"
    by (rule crc32_load) (simp only: crc_data_update)
  then show ?thesis by (simp add: crc_ok_def env_crc_update_def load_u32_store)
qed

lemma crc_ok_cong:
  assumes "\<And>i. i < 0x20000 \<Longrightarrow> mm (p + i) = mm' (p' + i)"
  shows "crc_ok mm p \<longleftrightarrow> crc_ok mm' p'"
proof -
  have "load_bytes mm (env_data p) (unat ENV_SIZE) = load_bytes mm' (env_data p') (unat ENV_SIZE)"
    using assms [of "4 + _"] by (intro nth_equalityI) (simp_all add: nth_load_bytes add.assoc)
  then have "crc32 0 mm (env_data p) ENV_SIZE = crc32 0 mm' (env_data p') ENV_SIZE" by (rule crc32_load)
  moreover have "load_u32 mm p = load_u32 mm' p'" using assms by (intro load_u32_cong) simp
  ultimately show ?thesis by (simp only: crc_ok_def)
qed

context mtd_dev begin

abbreviation (input) env_len :: u32 where "env_len \<equiv> min (erasesize m) 0x20000"

text \<open>
  Where the loops stand: at the start of a block, with room for the rest of the area; the area is either made of whole blocks or inside of
  one.
\<close>

definition env_at :: "u32 \<Rightarrow> u32 \<Rightarrow> u32 \<Rightarrow> bool" where
  "env_at stop off a \<longleftrightarrow> E dvd unat off \<and> unat stop \<le> S \<and> unat stop < 2 ^ 31 \<and> unat a + (unat stop - unat off) \<le> 0x20000 \<and>
     (off < stop \<longrightarrow> E dvd (unat stop - unat off) \<or> a = 0 \<and> 0x20000 < E \<and> unat stop = unat off + 0x20000)"

lemma unat_env_len: "unat env_len = min E 0x20000"
  by (simp add: min_def word_le_nat_alt)

lemma env_len_cases:
  assumes "env_at stop off a" "off < stop"
  obtains (whole) "E \<le> 0x20000" "unat env_len = E" "unat off + E \<le> unat stop" "E dvd (unat stop - unat off)"
  | (inside) "0x20000 < E" "unat env_len = 0x20000" "unat stop = unat off + 0x20000" "a = 0"
proof -
  have lt: "unat off < unat stop" using assms(2) by (simp add: word_less_nat_alt)
  consider "E dvd (unat stop - unat off)" | "a = 0 \<and> 0x20000 < E \<and> unat stop = unat off + 0x20000"
    using assms unfolding env_at_def by blast
  then show thesis
  proof cases
    case 1
    then have "E \<le> unat stop - unat off" using lt by (intro dvd_imp_le) auto
    then show thesis using assms(1) lt 1 by (intro whole) (auto simp: env_at_def unat_env_len)
  next
    case 2
    then show thesis using unat_env_len by (intro inside) auto
  qed
qed

lemma env_next:
  assumes "env_at stop off a" "off < stop"
  shows "unat (off + erasesize m) = unat off + E"
proof -
  obtain k where k: "k < 32" "E = 2 ^ k" using pow2_sizeE [OF erasesize_pow2] by metis
  have "(2 :: nat) ^ k \<le> 2 ^ 31" using k by (intro power_increasing) auto
  moreover have "unat off < unat stop" "unat stop < 2 ^ 31" using assms by (auto simp: env_at_def word_less_nat_alt)
  ultimately have "unat off + E < 2 ^ 32" using k by simp
  then show ?thesis by (simp add: unat_word_ariths)
qed

lemma env_step:
  assumes "env_at stop off a" "off < stop" "W dvd 0x20000"
  shows "env_at stop (off + erasesize m) a" "env_at stop (off + erasesize m) (a + env_len)"
    "unat (a + env_len) = unat a + unat env_len" "unat off + unat env_len \<le> S" "W dvd unat off" "W dvd unat env_len"
    "0 < env_len" "unat a + unat env_len \<le> 0x20000"
proof -
  note step = env_next [OF assms(1,2)]
  have lt: "unat off < unat stop" using assms(2) by (simp add: word_less_nat_alt)
  note at = assms(1) [unfolded env_at_def]
  show "W dvd unat off" using at page_block dvd_trans by blast
  have "0 < unat env_len" using unat_env_len E_pos by simp
  then show "0 < env_len" by (simp add: word_less_nat_alt)
  show le: "unat a + unat env_len \<le> 0x20000" by (rule env_len_cases [OF assms(1,2)]) (use at lt in auto)
  then show un: "unat (a + env_len) = unat a + unat env_len" by (simp add: unat_word_ariths)
  show "unat off + unat env_len \<le> S" by (rule env_len_cases [OF assms(1,2)]) (use at lt in auto)
  show "W dvd unat env_len" by (rule env_len_cases [OF assms(1,2)]) (use page_block assms(3) in auto)
  have "env_at stop (off + erasesize m) a'" if "unat a' \<le> unat a + unat env_len" for a'
  proof (rule env_len_cases [OF assms(1,2)], goal_cases whole inside)
    case whole
    have "E dvd unat stop - (unat off + E)" unfolding diff_diff_left [symmetric] by (rule dvd_diff_nat) (use whole in simp_all)
    then show ?case using at that whole(2,3) by (auto simp: env_at_def step word_less_nat_alt)
  next
    case inside
    then show ?case using at that by (auto simp: env_at_def step word_less_nat_alt)
  qed
  then show "env_at stop (off + erasesize m) a" "env_at stop (off + erasesize m) (a + env_len)" by (simp_all add: un)
qed

lemma env_good:
  assumes "env_at stop off a" "off < stop"
  shows "good_addrs E (unat stop) bd (unat off) =
    (if bd (unat off div E) then [] else [unat off ..< unat off + unat env_len]) @ good_addrs E (unat stop) bd (unat (off + erasesize m))"
proof -
  have E: "E - unat off mod E = E" using assms(1) by (simp add: env_at_def)
  show ?thesis
  proof (rule env_len_cases [OF assms], goal_cases whole inside)
    case whole
    note gb = good_addrs_bad [where bd = bd and off = "unat off" and S = "unat stop", OF E_pos, unfolded E, OF _ whole(3)]
    note gg = good_addrs_good [where bd = bd and off = "unat off" and S = "unat stop" and c = E, OF E_pos, unfolded E, OF _ order_refl whole(3)]
    show ?case
    proof (cases "bd (unat off div E)")
      case True
      show ?thesis unfolding env_next [OF assms] gb [OF True] by (simp only: True if_True append.simps)
    next
      case False
      show ?thesis unfolding env_next [OF assms] whole(2) by (subst gg [OF False]) (simp only: False if_False)
    qed
  next
    case inside
    have eq: "a div E = unat off div E" if "unat off \<le> a" "a < unat stop" for a
      using that inside(1,3) E by (intro same_block [OF _ _ E_pos]) auto
    have "good_addrs E (unat stop) bd (unat off) = filter (\<lambda>a. \<not> bd (unat off div E)) [unat off ..< unat stop]"
      unfolding good_addrs_def by (rule filter_cong [OF refl], subst eq) auto
    then have "good_addrs E (unat stop) bd (unat off) = (if bd (unat off div E) then [] else [unat off ..< unat stop])"
      by (simp only: filter_True filter_False split: if_split) simp
    moreover have "good_addrs E (unat stop) bd (unat off + E) = []" using inside(1,3) by simp
    ultimately show ?case unfolding env_next [OF assms] inside(2) inside(3) by (simp only: append_Nil2)
  qed
qed

text \<open>What the conditions of the loops come to.\<close>

lemma env_goes_on: "env_at stop off a \<Longrightarrow> a < 0x20000 \<and> off < stop \<longleftrightarrow> off < stop"
  by (auto simp: env_at_def word_less_nat_alt)

lemma env_isbad:
  assumes "inv s" "env_at stop off a" "off < stop"
  obtains r s1 where "nand_block_isbad m (ucast off) s = Some (r, s1)" "r \<noteq> 0 \<longleftrightarrow> bad s (unat off div E)"
    "inv s1" "flash s1 = flash s" "bad s1 = bad s" "ram_kept priv s s1"
proof -
  have "E dvd unat (ucast off :: u64)" "ucast off < mtd_size m"
    using assms(2,3) by (auto simp: env_at_def unat_ucast_u64 word_less_nat_alt)
  from isbad_law [OF assms(1) this] show thesis
    using that by (auto simp: nand_block_isbad_def unat_ucast_u64)
qed

lemma writeenv_loop:
  assumes "inv s" "env_at stop off a" "W dvd 0x20000" "{buf ..< buf + 0x20000} \<inter> priv = {}"
  defines "g \<equiv> good_addrs E (unat stop) (bad s) (unat off)"
  shows "\<exists>r s'. writeenv_loop m buf stop off a env_len s = Some (if r \<noteq> 0 \<or> unat a + length g \<noteq> 0x20000 then 1 else 0, s') \<and>
    wrote_list g (buf + unat a) r s s'"
  using assms(1,2) unfolding g_def
proof (induction "unat stop - unat off" arbitrary: off a s rule: less_induct)
  case less
  let ?off = "off + erasesize m" and ?good = "\<lambda>off. good_addrs E (unat stop) (bad s) (unat off)"
  show ?case
  proof (cases "off < stop")
    case False
    then have "?good off = []" by (simp add: word_less_nat_alt)
    then show ?thesis using False less.prems(1)
      by (subst writeenv_loop.simps) (auto simp: env_goes_on [OF less.prems(2)] word_unat_eq_iff intro!: exI [of _ "0 :: int"] wrote_list_Nil)
  next
    case True
    note st = env_step [OF less.prems(2) True assms(3)]
    have smaller: "unat stop - unat ?off < unat stop - unat off"
      using True E_pos by (simp add: env_next [OF less.prems(2) True] word_less_nat_alt)
    obtain b s1 where b: "nand_block_isbad m (ucast off) s = Some (b, s1)" "b \<noteq> 0 \<longleftrightarrow> bad s (unat off div E)"
        "inv s1" "flash s1 = flash s" "bad s1 = bad s" "ram_kept priv s s1"
      using env_isbad [OF less.prems(1,2) True] .
    have "wrote_list [] b' 0 s s1" for b' using b by (simp add: wrote_list_def)
    then have same: "wrote_list g' b' r' s1 s' \<Longrightarrow> distinct g' \<Longrightarrow> {b' ..< b' + length g'} \<inter> priv = {} \<Longrightarrow>
        wrote_list g' b' r' s s'" for g' b' r' s'
      using wrote_list_append [of "[]" b' s s1 g' r' s'] by simp
    have "unat a + length (?good off) \<le> 0x20000"
      using less.prems(2) length_good_addrs [of E "unat stop" "bad s" "unat off"] by (simp add: env_at_def)
    then have dis: "{buf + unat a ..< buf + unat a + length (?good off)} \<inter> priv = {}" using assms(4) by (auto simp: disjoint_iff)
    note run = writeenv_loop.simps [of m buf stop off a env_len s, unfolded env_sizes env_goes_on [OF less.prems(2)]]
    show ?thesis
    proof (cases "bad s (unat off div E)")
      case bd: True
      obtain r s' where i: "writeenv_loop m buf stop ?off a env_len s1 =
          Some (if r \<noteq> 0 \<or> unat a + length (?good ?off) \<noteq> 0x20000 then 1 else 0, s')" "wrote_list (?good ?off) (buf + unat a) r s1 s'"
        using less.hyps [OF smaller b(3) st(1)] unfolding b(5) by blast
      have "?good off = ?good ?off" using env_good [OF less.prems(2) True, of "bad s"] bd by simp
      then show ?thesis using run True b(1,2) bd i(1) same [OF i(2)] dis by auto
    next
      case ok: False
      have good: "?good off = [unat off ..< unat off + unat env_len] @ ?good ?off"
        using env_good [OF less.prems(2) True, of "bad s"] ok by simp
      have d1: "{buf + unat a ..< buf + unat a + unat env_len} \<inter> priv = {}" using assms(4) st(8) by (auto simp: disjoint_iff)
      from write_range [OF b(3) st(7) _ st(6) _ d1, of "ucast off" env_len] st(4,5)
      obtain ret k s2 where w: "nand_write m (ucast off) env_len (buf + unat a) s1 = Some ((ret, k), s2)"
          "wrote_range (unat off) (unat env_len) (buf + unat a) ret s1 s2" "ret = 0 \<longrightarrow> k = env_len"
        by (auto simp: nand_write_def unat_ucast_u64)
      have wl: "wrote_list [unat off ..< unat off + unat env_len] (buf + unat a) ret s s2"
        using same [OF wrote_range_list [OF w(2)]] d1 by simp
      show ?thesis
      proof (cases "ret = 0")
        case False
        then show ?thesis using run True b(1,2) ok w(1) wrote_list_fail [OF wl False, of "?good ?off"] good by auto
      next
        case ret: True
        have s2: "inv s2" "bad s2 = bad s" using wl by (simp_all add: wrote_list_def)
        obtain r s' where i: "writeenv_loop m buf stop ?off (a + env_len) env_len s2 =
            Some (if r \<noteq> 0 \<or> unat a + unat env_len + length (?good ?off) \<noteq> 0x20000 then 1 else 0, s')"
            "wrote_list (?good ?off) (buf + unat a + unat env_len) r s2 s'"
          using less.hyps [OF smaller s2(1) st(2)] unfolding s2(2) st(3) by (auto simp: add.assoc)
        have "distinct (?good off)" by simp
        then have "wrote_list (?good off) (buf + unat a) r s s'"
          using dis unfolding good by (intro wrote_list_append [OF wl [unfolded ret]]) (use i(2) in simp_all)
        then show ?thesis using run True b(1,2) ok w(1,3) ret i(1) good by (auto simp: add.assoc)
      qed
    qed
  qed
qed

lemma readenv_loop:
  assumes "inv s" "env_at stop off a" "W dvd 0x20000" "{buf ..< buf + 0x20000} \<inter> priv = {}"
  defines "g \<equiv> good_addrs E (unat stop) (bad s) (unat off)"
  shows "\<exists>s'. readenv_loop m buf stop off a env_len s = Some (if unat a + length g \<noteq> 0x20000 then 1 else 0, s') \<and>
    has_read g (buf + unat a) s s'"
  using assms(1,2) unfolding g_def
proof (induction "unat stop - unat off" arbitrary: off a s rule: less_induct)
  case less
  let ?off = "off + erasesize m" and ?good = "\<lambda>off. good_addrs E (unat stop) (bad s) (unat off)"
  show ?case
  proof (cases "off < stop")
    case False
    then have "?good off = []" by (simp add: word_less_nat_alt)
    then show ?thesis using False less.prems(1)
      by (subst readenv_loop.simps) (auto simp: env_goes_on [OF less.prems(2)] word_unat_eq_iff has_read_Nil)
  next
    case True
    note st = env_step [OF less.prems(2) True assms(3)]
    have smaller: "unat stop - unat ?off < unat stop - unat off"
      using True E_pos by (simp add: env_next [OF less.prems(2) True] word_less_nat_alt)
    obtain b s1 where b: "nand_block_isbad m (ucast off) s = Some (b, s1)" "b \<noteq> 0 \<longleftrightarrow> bad s (unat off div E)"
        "inv s1" "flash s1 = flash s" "bad s1 = bad s" "ram_kept priv s s1"
      using env_isbad [OF less.prems(1,2) True] .
    have same: "has_read g' b' s1 s' \<Longrightarrow> has_read g' b' s s'" for g' b' s'
      using has_read_append [OF has_read_Nil [OF b(3-6)]] by simp
    note run = readenv_loop.simps [of m buf stop off a env_len s, unfolded env_sizes env_goes_on [OF less.prems(2)]]
    show ?thesis
    proof (cases "bad s (unat off div E)")
      case bd: True
      obtain s' where i: "readenv_loop m buf stop ?off a env_len s1 =
          Some (if unat a + length (?good ?off) \<noteq> 0x20000 then 1 else 0, s')" "has_read (?good ?off) (buf + unat a) s1 s'"
        using less.hyps [OF smaller b(3) st(1)] unfolding b(5) by blast
      have "?good off = ?good ?off" using env_good [OF less.prems(2) True, of "bad s"] bd by simp
      then show ?thesis using run True b(1,2) bd i same by auto
    next
      case ok: False
      have good: "?good off = [unat off ..< unat off + unat env_len] @ ?good ?off"
        using env_good [OF less.prems(2) True, of "bad s"] ok by simp
      have "{buf + unat a ..< buf + unat a + unat env_len} \<inter> priv = {}" using assms(4) st(8) by (auto simp: disjoint_iff)
      from read_law [OF b(3) st(7) _ st(6) _ this, of "ucast off" env_len, unfolded unat_ucast_u64] st(4,5)
      obtain s2 where w: "nand_read m (ucast off) env_len (buf + unat a) s1 = Some ((0, env_len), s2)"
          "inv s2" "flash s2 = flash s1" "bad s2 = bad s1"
        and rd0: "\<forall>x. x \<notin> priv \<longrightarrow> ram s2 x =
          (if buf + unat a \<le> x \<and> x < buf + unat a + unat env_len then flash s1 (unat off + (x - (buf + unat a))) else ram s1 x)"
        unfolding nand_read_def by blast
      have rd: "has_read [unat off ..< unat off + unat env_len] (buf + unat a) s1 s2"
        using rd0 w(2-4) by (auto simp: has_read_def)
      have s2: "inv s2" "bad s2 = bad s" using w b(5) by simp_all
      obtain s' where i: "readenv_loop m buf stop ?off (a + env_len) env_len s2 =
          Some (if unat a + unat env_len + length (?good ?off) \<noteq> 0x20000 then 1 else 0, s')"
          "has_read (?good ?off) (buf + unat a + unat env_len) s2 s'"
        using less.hyps [OF smaller s2(1) st(2)] unfolding s2(2) st(3) by (auto simp: add.assoc)
      have "has_read (?good off) (buf + unat a) s s'"
        unfolding good using has_read_append [OF same [OF rd]] i(2) by simp
      then show ?thesis using run True b(1,2) ok w(1) i(1) good by (auto simp: add.assoc)
    qed
  qed
qed

text \<open>The area as a whole.\<close>

abbreviation (input) area_good :: "'h nand_st \<Rightarrow> bool" where
  "area_good s \<equiv> \<forall>x \<in> {0xC0000 ..< 0xE0000}. \<not> bad s (x div E)"

lemma area_good_upt: "area_good s \<Longrightarrow> good_addrs E 0xE0000 (bad s) 0xC0000 = [0xC0000 ..< 0xE0000]"
  unfolding good_addrs_def by (intro filter_True) (simp only: atLeastLessThan_upt)

lemma area_good_addrs: "length (good_addrs E 0xE0000 (bad s) 0xC0000) = 0x20000 \<longleftrightarrow> area_good s"
proof
  let ?g = "good_addrs E 0xE0000 (bad s) 0xC0000"
  assume "length ?g = 0x20000"
  then have "card (set ?g) = 0x20000" by (simp only: distinct_card distinct_good_addrs)
  then have "card (set ?g) = card {0xC0000 ..< 0xE0000 :: nat}" by simp
  moreover have "set ?g \<subseteq> {0xC0000 ..< 0xE0000}" by (auto simp: set_good_addrs)
  ultimately have "set ?g = {0xC0000 ..< 0xE0000}" by (intro card_subset_eq finite_atLeastLessThan)
  then show "area_good s" using set_good_addrs by blast
next
  assume "area_good s"
  then show "length (good_addrs E 0xE0000 (bad s) 0xC0000) = 0x20000"
    by (simp add: area_good_upt length_upt del: upt_rec_numeral)
qed

lemma area_good_nth: "area_good s \<Longrightarrow> i < 0x20000 \<Longrightarrow> good_addrs E 0xE0000 (bad s) 0xC0000 ! i = 0xC0000 + i"
  by (simp add: area_good_upt del: upt_rec_numeral)

lemma env_start:
  assumes "E dvd 0xC0000" "0xC0000 + max E 0x20000 \<le> S"
  shows "env_at 0xE0000 0xC0000 0"
proof -
  obtain k where k: "k < 32" "E = 2 ^ k" using pow2_sizeE [OF erasesize_pow2] by metis
  have "E dvd 0x20000 \<or> 0x20000 < E"
  proof (cases "k \<le> 17")
    case True
    then have "(2 :: nat) ^ k dvd 2 ^ 17" by (rule le_imp_power_dvd)
    then show ?thesis using k by simp
  next
    case False
    then have "(2 :: nat) ^ 17 < 2 ^ k" by (intro power_strict_increasing) auto
    then show ?thesis using k by simp
  qed
  then show ?thesis using assms by (auto simp: env_at_def)
qed

lemma writeenv:
  assumes "inv s" "E dvd 0xC0000" "0xC0000 + max E 0x20000 \<le> S" "W dvd 0x20000" "{buf ..< buf + 0x20000} \<inter> priv = {}"
  shows "\<exists>r s'. writeenv m 0xC0000 buf s = Some (if r \<noteq> 0 \<or> \<not> area_good s then 1 else 0, s') \<and>
    wrote_list (good_addrs E 0xE0000 (bad s) 0xC0000) buf r s s'"
  using writeenv_loop [OF assms(1) env_start [OF assms(2,3)] assms(4,5)] by (simp add: writeenv_def area_good_addrs)

lemma readenv:
  assumes "inv s" "E dvd 0xC0000" "0xC0000 + max E 0x20000 \<le> S" "W dvd 0x20000" "{buf ..< buf + 0x20000} \<inter> priv = {}"
  shows "\<exists>s'. readenv m 0xC0000 buf s = Some (if \<not> area_good s then 1 else 0, s') \<and>
    has_read (good_addrs E 0xE0000 (bad s) 0xC0000) buf s s'"
  using readenv_loop [OF assms(1) env_start [OF assms(2,3)] assms(4,5)] by (simp add: readenv_def area_good_addrs)

lemma nand_saveenv:
  assumes "inv s" "E dvd 0xC0000" "0xC0000 + max E 0x20000 \<le> S" "W dvd 0x20000" "{env_ptr gd ..< env_ptr gd + 0x20000} \<inter> priv = {}"
    "{marker ..< marker + 8} \<subseteq> priv" "erase_never_fails" "write_never_fails"
  shows "\<exists>s'. nand_saveenv m marker gd s = Some (if area_good s then 0 else 1, s') \<and> inv s' \<and> bad s' = bad s \<and>
    (area_good s \<longrightarrow> (\<forall>i < 0x20000. flash s' (0xC0000 + i) = ram s (env_ptr gd + i)))"
proof -
  let ?opts = "\<lparr>opt_length = 0x20000, opt_offset = 0xC0000, opt_quiet = False, opt_jffs2 = False, opt_scrub = False\<rparr>"
  let ?B = "blocks_from 0xC0000 (0xC0000 + max E 0x20000)"
  obtain s1 where e: "nand_erase_opts m ?opts marker s = Some (0, s1)" "erased_blocks ?B s s1" "blank_blocks ?B s s1"
  proof -
    have "0xC0000 < S" "min S (0xC0000 + max E 0x20000) = 0xC0000 + max E 0x20000" using assms(3) by linarith+
    then show thesis using that nand_erase_opts [OF assms(1,6), of ?opts] assms(2,7) by auto
  qed
  have s1: "inv s1" "bad s1 = bad s" "ram_kept priv s s1" using e(2,3) by (simp_all add: erased_blocks_def blank_blocks_def)
  obtain r s2 where w: "writeenv m 0xC0000 (env_ptr gd) s1 = Some (if r \<noteq> 0 \<or> \<not> area_good s then 1 else 0, s2)"
      "wrote_list (good_addrs E 0xE0000 (bad s) 0xC0000) (env_ptr gd) r s1 s2"
    using writeenv [OF s1(1) assms(2-5)] unfolding s1(2) by blast
  have r: "r = 0" using w(2) assms(8) by (simp add: wrote_list_def)
  have "flash s2 (0xC0000 + i) = ram s (env_ptr gd + i)" if "area_good s" "i < 0x20000" for i
  proof -
    have "(0xC0000 + i) div E * E < 0xC0000 + max E 0x20000"
      using that(2) div_times_less_eq_dividend [of "0xC0000 + i" E] by linarith
    moreover obtain q where q: "0xC0000 = E * q" using assms(2) by (elim dvdE)
    have "(0xC0000 + i) div E = q + i div E" unfolding q using E_pos by simp
    then have "0xC0000 \<le> (0xC0000 + i) div E * E" using q by (simp add: distrib_left mult.commute)
    ultimately have "(0xC0000 + i) div E \<in> ?B" using that(2) by (simp add: blocks_from_def)
    then have "flash s1 (0xC0000 + i) = 0xff" using e(3) that by (auto simp: blank_blocks_def)
    moreover have "env_ptr gd + i \<notin> priv" using assms(5) that(2) by (auto simp: disjoint_iff)
    then have "ram s1 (env_ptr gd + i) = ram s (env_ptr gd + i)" by (rule ram_keptD [OF s1(3)])
    moreover have "flash s2 (0xC0000 + i) = flash s1 (0xC0000 + i) AND ram s1 (env_ptr gd + i)"
    proof -
      have "\<forall>i < 0x20000. flash s2 (good_addrs E 0xE0000 (bad s) 0xC0000 ! i) =
          flash s1 (good_addrs E 0xE0000 (bad s) 0xC0000 ! i) AND ram s1 (env_ptr gd + i)"
        using w(2) r unfolding wrote_list_def area_good_addrs [THEN iffD2, OF that(1)] by blast
      then show ?thesis using that(2) area_good_nth [OF that] by (metis (no_types))
    qed
    ultimately show ?thesis by (simp add: and.commute)
  qed
  moreover have "nand_saveenv m marker gd s = Some (if area_good s then 0 else 1, s2)"
    using e(1) w(1) r by (simp add: nand_saveenv_def)
  ultimately show ?thesis using w(2) s1(2) by (auto simp: wrote_list_def)
qed

lemma nand_env_relocate_spec:
  assumes "inv s" "E dvd 0xC0000" "0xC0000 + max E 0x20000 \<le> S" "W dvd 0x20000" "{env_ptr gd ..< env_ptr gd + 0x20000} \<inter> priv = {}"
    "area_good s"
  shows "\<exists>s'. nand_env_relocate_spec m 0xC0000 gd s = Some (if crc_ok (flash s) 0xC0000 then 0 else 1, s') \<and>
    (\<forall>x. x \<notin> priv \<longrightarrow> ram s' x =
       (if env_ptr gd \<le> x \<and> x < env_ptr gd + 0x20000 then flash s (0xC0000 + (x - env_ptr gd)) else ram s x))"
proof -
  obtain s' where r: "readenv m 0xC0000 (env_ptr gd) s = Some (0, s')" "has_read (good_addrs E 0xE0000 (bad s) 0xC0000) (env_ptr gd) s s'"
    using readenv [OF assms(1-5)] assms(6) by auto
  have h: "ram s' x = (if env_ptr gd \<le> x \<and> x < env_ptr gd + 0x20000
      then flash s (good_addrs E 0xE0000 (bad s) 0xC0000 ! (x - env_ptr gd)) else ram s x)" if "x \<notin> priv" for x
    using r(2) that unfolding has_read_def area_good_addrs [THEN iffD2, OF assms(6)] by blast
  have ram: "ram s' x = (if env_ptr gd \<le> x \<and> x < env_ptr gd + 0x20000 then flash s (0xC0000 + (x - env_ptr gd)) else ram s x)"
    if "x \<notin> priv" for x
  proof (cases "env_ptr gd \<le> x \<and> x < env_ptr gd + 0x20000")
    case True
    then have "good_addrs E 0xE0000 (bad s) 0xC0000 ! (x - env_ptr gd) = 0xC0000 + (x - env_ptr gd)"
      by (intro area_good_nth assms(6)) linarith
    then show ?thesis using h [OF that] by (simp only:)
  qed (use h [OF that] in \<open>simp only: if_False\<close>)
  have "crc_ok (ram s') (env_ptr gd) = crc_ok (flash s) 0xC0000"
  proof (rule crc_ok_cong)
    fix i :: nat assume "i < 0x20000"
    moreover from this have "env_ptr gd + i \<notin> priv" using assms(5) by (auto simp: disjoint_iff)
    ultimately show "ram s' (env_ptr gd + i) = flash s (0xC0000 + i)" by (simp add: ram)
  qed
  then show ?thesis using r(1) ram by (auto simp: nand_env_relocate_spec_def crc_ok_def intro!: exI [of _ s'])
qed

lemma do_saveenv:
  assumes "inv s" "E dvd 0xC0000" "0xC0000 + max E 0x20000 \<le> S" "W dvd 0x20000" "{env_ptr gd ..< env_ptr gd + 0x20000} \<inter> priv = {}"
    "{marker ..< marker + 8} \<subseteq> priv" "erase_never_fails" "write_never_fails"
  shows "\<exists>s'. do_saveenv (Some (nand_env_cmn_func m marker)) gd s = Some (if area_good s then 0 else 1, s') \<and> inv s' \<and> bad s' = bad s \<and>
    (area_good s \<longrightarrow> crc_ok (flash s') 0xC0000 \<and> (\<forall>i < 0x1FFFC. flash s' (0xC0004 + i) = ram s (env_data (env_ptr gd) + i)))"
proof -
  let ?s = "s\<lparr>ram := env_crc_update gd (ram s)\<rparr>"
  note s = ram_law [OF assms(1), of "env_crc_update gd (ram s)"]
  obtain s' where v: "nand_saveenv m marker gd ?s = Some (if area_good s then 0 else 1, s')" "inv s'" "bad s' = bad s"
      "area_good s \<Longrightarrow> \<forall>i < 0x20000. flash s' (0xC0000 + i) = env_crc_update gd (ram s) (env_ptr gd + i)"
    using nand_saveenv [of ?s gd marker] assms(2-) s by auto
  have "flash s' (0xC0004 + i) = ram s (env_data (env_ptr gd) + i)" if "area_good s" "i < 0x1FFFC" for i
  proof -
    have "flash s' (0xC0004 + i) = env_crc_update gd (ram s) (env_ptr gd + (4 + i))" using v(4) [OF that(1), rule_format, of "4 + i"] that by simp
    also have "\<dots> = ram s (env_ptr gd + (4 + i))" by (simp add: env_crc_update_def store_u32_def store_bytes_def)
    finally show ?thesis by (simp add: add.assoc)
  qed
  moreover have "crc_ok (flash s') 0xC0000" if "area_good s"
    using crc_ok_updated [of gd "ram s"] crc_ok_cong [where mm = "flash s'" and p = "0xC0000" and mm' = "env_crc_update gd (ram s)" and p' = "env_ptr gd"] v(4) that by blast
  ultimately show ?thesis using v(1-3) by (auto simp: do_saveenv_def saveenv_def nand_env_cmn_func_def)
qed

lemma env_relocate:
  assumes "inv s" "E dvd 0xC0000" "0xC0000 + max E 0x20000 \<le> S" "W dvd 0x20000" "{p ..< p + 0x20000} \<inter> priv = {}"
    "area_good s" "env_valid gd \<noteq> 0"
  shows "\<exists>gd' s'. env_relocate (Some (nand_env_cmn_func m marker)) p gd s = Some (gd', s') \<and> env_addr gd' = env_data p \<and> env_valid gd' \<noteq> 0 \<and>
    (if crc_ok (flash s) 0xC0000 then \<forall>i < 0x1FFFC. ram s' (env_data p + i) = flash s (0xC0004 + i)
     else unat (default_len gd) \<le> 0x1FFFC \<longrightarrow> {default_env gd ..< default_env gd + unat (default_len gd)} \<inter> (priv \<union> {p ..< p + 0x20000}) = {} \<longrightarrow>
       (\<forall>i < unat (default_len gd). ram s' (env_data p + i) = ram s (default_env gd + i)))"
proof -
  let ?gd = "gd\<lparr>env_ptr := p\<rparr>"
  obtain s' where r: "nand_env_relocate_spec m 0xC0000 ?gd s = Some (if crc_ok (flash s) 0xC0000 then 0 else 1, s')"
      "\<forall>x. x \<notin> priv \<longrightarrow> ram s' x = (if p \<le> x \<and> x < p + 0x20000 then flash s (0xC0000 + (x - p)) else ram s x)"
    using nand_env_relocate_spec [of s ?gd] assms by auto
  show ?thesis
  proof (cases "crc_ok (flash s) 0xC0000")
    case True
    have "ram s' (env_data p + i) = flash s (0xC0004 + i)" if "i < 0x1FFFC" for i
    proof -
      have "env_data p + i \<notin> priv" using assms(5) that by (auto simp: disjoint_iff)
      then show ?thesis using r(2) that by (simp add: add.commute)
    qed
    moreover have "env_relocate (Some (nand_env_cmn_func m marker)) p gd s = Some (?gd\<lparr>env_addr := env_data p\<rparr>, s')"
      using True r(1) assms(7) by (simp add: env_relocate_def Let_def env_relocate_spec_def nand_env_cmn_func_def)
    ultimately show ?thesis using True assms(7) by (intro exI [of _ "?gd\<lparr>env_addr := env_data p\<rparr>"] exI [of _ s']) simp
  next
    case False
    define mm where "mm = snd (set_default_env ?gd (ram s'))"
    define gd1 where "gd1 = fst (set_default_env ?gd (ram s'))"
    have gd1: "env_ptr gd1 = p" "env_valid gd1 \<noteq> 0" using assms(7) by (simp_all add: gd1_def set_default_env_def Let_def)
    have d: "set_default_env ?gd (ram s') = (gd1, mm)" unfolding mm_def gd1_def by simp
    have "mm (env_data p + i) = ram s (default_env gd + i)"
      if "unat (default_len gd) \<le> 0x1FFFC" "{default_env gd ..< default_env gd + unat (default_len gd)} \<inter> (priv \<union> {p ..< p + 0x20000}) = {}"
        "i < unat (default_len gd)" for i
    proof -
      have "\<not> 0x1FFFC < default_len gd" using that(1) by (simp add: word_less_nat_alt)
      then have "mm (env_data p + i) = fill_bytes (ram s') p 0 0x20000 (default_env gd + i)"
        using that(3) by (simp add: mm_def set_default_env_def Let_def store_bytes_def nth_load_bytes)
      also have "\<dots> = ram s' (default_env gd + i)"
        using that(2,3) by (auto simp: fill_bytes_def store_bytes_def disjoint_iff)
      also have "\<dots> = ram s (default_env gd + i)"
        using that(2,3) r(2) by (auto simp: disjoint_iff)
      finally show ?thesis .
    qed
    moreover have "env_relocate (Some (nand_env_cmn_func m marker)) p gd s = Some (gd1\<lparr>env_addr := env_data p\<rparr>, s'\<lparr>ram := mm\<rparr>)"
      using False r(1) assms(7) d gd1(1) by (simp add: env_relocate_def Let_def env_relocate_spec_def nand_env_cmn_func_def)
    ultimately show ?thesis using False gd1(2)
      by (intro exI [of _ "gd1\<lparr>env_addr := env_data p\<rparr>"] exI [of _ "s'\<lparr>ram := mm\<rparr>"]) simp
  qed
qed

end


section \<open>Over the whole stack\<close>

lemma save_load:
  assumes "hinfc_reliable c base oob con up reg cells failed busy hz d sm priv" "hinfc_ready up base oob con d s"
    and "unat (erasesize d) dvd 0xC0000" "0xC0000 + max (unat (erasesize d)) 0x20000 \<le> unat (mtd_size d)" "unat (writesize d) dvd 0x20000"
    and "\<forall>x \<in> {0xC0000 ..< 0xE0000}. \<not> hinfc_bad cells d s (x div unat (erasesize d))"
    and "{env_ptr gd ..< env_ptr gd + 0x20000} \<inter> priv = {}" "{p ..< p + 0x20000} \<inter> priv = {}" "{marker ..< marker + 8} \<subseteq> priv"
    and "ef = Some (nand_env_cmn_func (hinfc_mtd sm c hz d) marker)"
  shows "\<exists>s1. do_saveenv ef gd s = Some (0, s1) \<and>
    (\<forall>s2 gd2. hinfc_ready up base oob con d s2 \<and> hinfc_flash cells d s2 = hinfc_flash cells d s1 \<and> hinfc_bad cells d s2 = hinfc_bad cells d s1 \<and>
        env_valid gd2 \<noteq> 0 \<longrightarrow>
      (\<exists>gd3 s3. env_relocate ef p gd2 s2 = Some (gd3, s3) \<and> env_addr gd3 = env_data p \<and> env_valid gd3 \<noteq> 0 \<and>
        load_bytes (ram s3) (env_data p) (unat ENV_SIZE) = load_bytes (ram s) (env_data (env_ptr gd)) (unat ENV_SIZE)))"
proof -
  note rel = hinfc_reliable.reliable [OF assms(1)]
  note dev = mtd_reliable.axioms(1) [OF rel]
  note nf = mtd_reliable.never_fails [OF rel]
  obtain s1 where v: "do_saveenv ef gd s = Some (0, s1)" "hinfc_ready up base oob con d s1" "hinfc_bad cells d s1 = hinfc_bad cells d s"
      "crc_ok (hinfc_flash cells d s1) 0xC0000" "\<forall>i < 0x1FFFC. hinfc_flash cells d s1 (0xC0004 + i) = ram s (env_data (env_ptr gd) + i)"
    using mtd_dev.do_saveenv [OF dev assms(2), unfolded mtd_sizes, OF assms(3-5,7,9) nf] assms(6,10) by auto
  have "\<exists>gd3 s3. env_relocate ef p gd2 s2 = Some (gd3, s3) \<and> env_addr gd3 = env_data p \<and> env_valid gd3 \<noteq> 0 \<and>
      load_bytes (ram s3) (env_data p) (unat ENV_SIZE) = load_bytes (ram s) (env_data (env_ptr gd)) (unat ENV_SIZE)"
    if s2: "hinfc_ready up base oob con d s2" "hinfc_flash cells d s2 = hinfc_flash cells d s1" "hinfc_bad cells d s2 = hinfc_bad cells d s1"
      "env_valid gd2 \<noteq> 0" for s2 gd2
  proof -
    have "\<forall>x \<in> {0xC0000 ..< 0xE0000}. \<not> hinfc_bad cells d s2 (x div unat (erasesize d))" using assms(6) s2(3) v(3) by simp
    from mtd_dev.env_relocate [OF dev s2(1), unfolded mtd_sizes, OF assms(3-5,8) this s2(4), of marker] v(4) s2(2)
    obtain gd3 s3 where r: "env_relocate ef p gd2 s2 = Some (gd3, s3)" "env_addr gd3 = env_data p" "env_valid gd3 \<noteq> 0"
        "\<forall>i < 0x1FFFC. ram s3 (env_data p + i) = hinfc_flash cells d s1 (0xC0004 + i)"
      unfolding assms(10) by auto
    have "load_bytes (ram s3) (env_data p) (unat ENV_SIZE) = load_bytes (ram s) (env_data (env_ptr gd)) (unat ENV_SIZE)"
      using r(4) v(5) by (intro nth_equalityI) (simp_all add: nth_load_bytes)
    then show ?thesis using r(1-3) by blast
  qed
  then show ?thesis using v(1) by blast
qed

text \<open>
  C13: What \<open>saveenv\<close> stores is what the next start loads: on a chip on which nothing fails and whose blocks of the area are good, the
  command returns 0, and \<open>env_relocate\<close>, in any later state of a machine in which the chip still holds the same, finds the variables
  as they were, byte for byte, and does not take the default ones.
\<close>

theorem env_save_load:
  assumes "hinfc_reliable c base oob con up reg cells failed busy hz d sm priv" "hinfc_ready up base oob con d s"
    and "unat (erasesize d) dvd 0xC0000" "0xC0000 + max (unat (erasesize d)) 0x20000 \<le> unat (mtd_size d)" "unat (writesize d) dvd 0x20000"
    and "\<forall>x \<in> {0xC0000 ..< 0xE0000}. \<not> hinfc_bad cells d s (x div unat (erasesize d))"
    and "{env_ptr gd ..< env_ptr gd + 0x20000} \<inter> priv = {}" "{p ..< p + 0x20000} \<inter> priv = {}" "{marker ..< marker + 8} \<subseteq> priv"
    and "ef = Some (nand_env_cmn_func (hinfc_mtd sm c hz d) marker)"
  shows "\<exists>s1. do_saveenv ef gd s = Some (0, s1) \<and>
    (\<forall>s2 gd2. hinfc_ready up base oob con d s2 \<and> hinfc_flash cells d s2 = hinfc_flash cells d s1 \<and> hinfc_bad cells d s2 = hinfc_bad cells d s1 \<and>
        env_valid gd2 \<noteq> 0 \<longrightarrow>
      (\<exists>gd3 s3. env_relocate ef p gd2 s2 = Some (gd3, s3) \<and> env_addr gd3 = env_data p \<and> env_valid gd3 \<noteq> 0 \<and>
        load_bytes (ram s3) (env_data p) (unat ENV_SIZE) = load_bytes (ram s) (env_data (env_ptr gd)) (unat ENV_SIZE)))"
  using save_load [OF assms] .


definition sim_gd :: env_gd where
  "sim_gd = \<lparr>env_ptr = 0x800000, env_addr = 0x800004, env_valid = 1, gd_reloc = True, default_env = 0x700000, default_len = 0x100\<rparr>"

lemma sim_area: "\<forall>x \<in> {0xC0000 ..< 0xE0000}. \<not> hinfc_bad sim_cells sim_chip sim_state (x div unat (erasesize sim_chip))"
proof
  fix x :: nat assume "x \<in> {0xC0000 ..< 0xE0000}"
  then show "\<not> hinfc_bad sim_cells sim_chip sim_state (x div unat (erasesize sim_chip))"
    using div_times_less_eq_dividend [of x "0x20000"] by (auto simp: sim_sizes sim_bad)
qed

lemma env_save_load_witness:
  "\<exists>s1. do_saveenv (Some (nand_env_cmn_func (hinfc_mtd sim_mem sim_cfg 1000 sim_chip) 0x1080)) sim_gd sim_state = Some (0, s1) \<and>
    (\<forall>s2 gd2. hinfc_ready sim_up sim_base sim_oob sim_con sim_chip s2 \<and> hinfc_flash sim_cells sim_chip s2 = hinfc_flash sim_cells sim_chip s1 \<and>
        hinfc_bad sim_cells sim_chip s2 = hinfc_bad sim_cells sim_chip s1 \<and> env_valid gd2 \<noteq> 0 \<longrightarrow>
      (\<exists>gd3 s3. env_relocate (Some (nand_env_cmn_func (hinfc_mtd sim_mem sim_cfg 1000 sim_chip) 0x1080)) 0x900000 gd2 s2 = Some (gd3, s3) \<and>
        env_addr gd3 = env_data 0x900000 \<and> env_valid gd3 \<noteq> 0 \<and>
        load_bytes (ram s3) (env_data 0x900000) (unat ENV_SIZE) = load_bytes (ram sim_state) (env_data (env_ptr sim_gd)) (unat ENV_SIZE)))"
  by (rule env_save_load [OF sim.hinfc_reliable_axioms sim_ready _ _ _ sim_area]) (auto simp: sim_sizes sim_gd_def)

text \<open>
  C18: Damage to the stored variables is found: when the chip, after \<open>saveenv\<close> has returned 0, has lost any of the bytes of four in a row of
  the data, the next start does not use them but takes the default variables.
\<close>

theorem env_damage_found:
  assumes "hinfc_reliable c base oob con up reg cells failed busy hz d sm priv" "hinfc_ready up base oob con d s"
    and "unat (erasesize d) dvd 0xC0000" "0xC0000 + max (unat (erasesize d)) 0x20000 \<le> unat (mtd_size d)" "unat (writesize d) dvd 0x20000"
    and "{env_ptr gd ..< env_ptr gd + 0x20000} \<inter> priv = {}" "{p ..< p + 0x20000} \<inter> priv = {}" "{marker ..< marker + 8} \<subseteq> priv"
    and "ef = Some (nand_env_cmn_func (hinfc_mtd sm c hz d) marker)" "do_saveenv ef gd s = Some (0, s1)"
    and "hinfc_ready up base oob con d s2" "hinfc_bad cells d s2 = hinfc_bad cells d s1" "env_valid gd2 \<noteq> 0"
      "4 \<le> a" "a + 4 \<le> 0x20000" "\<And>x. x < 0xC0000 + a \<or> 0xC0000 + a + 4 \<le> x \<Longrightarrow> hinfc_flash cells d s2 x = hinfc_flash cells d s1 x"
      "k < 4" "hinfc_flash cells d s2 (0xC0000 + a + k) \<noteq> hinfc_flash cells d s1 (0xC0000 + a + k)"
    and "default_len gd2 \<le> ENV_SIZE" "{default_env gd2 ..< default_env gd2 + unat (default_len gd2)} \<inter> (priv \<union> {p ..< p + 0x20000}) = {}"
  shows "\<exists>gd3 s3. env_relocate ef p gd2 s2 = Some (gd3, s3) \<and> env_addr gd3 = env_data p \<and>
    load_bytes (ram s3) (env_data p) (unat (default_len gd2)) = load_bytes (ram s2) (default_env gd2) (unat (default_len gd2))"
proof -
  note rel = hinfc_reliable.reliable [OF assms(1)]
  note dev = mtd_reliable.axioms(1) [OF rel]
  note nf = mtd_reliable.never_fails [OF rel]
  let ?good = "\<forall>x \<in> {0xC0000 ..< 0xE0000}. \<not> hinfc_bad cells d s (x div unat (erasesize d))"
  have v: ?good "hinfc_bad cells d s1 = hinfc_bad cells d s" "crc_ok (hinfc_flash cells d s1) 0xC0000"
    using mtd_dev.do_saveenv [OF dev assms(2), unfolded mtd_sizes, OF assms(3-6,8) nf] assms(10) unfolding assms(9)
    by (auto split: if_splits)
  have g2: "\<forall>x \<in> {0xC0000 ..< 0xE0000}. \<not> hinfc_bad cells d s2 (x div unat (erasesize d))" using v(1,2) assms(12) by simp
  have n: "crc32 0 (hinfc_flash cells d s2) (env_data 0xC0000) ENV_SIZE \<noteq> crc32 0 (hinfc_flash cells d s1) (env_data 0xC0000) ENV_SIZE"
  proof (rule crc32_detects [where i = "a - 4" and k = k])
    fix j assume "j < a - 4 \<or> a - 4 + 4 \<le> j"
    then have "env_data 0xC0000 + j < 0xC0000 + a \<or> 0xC0000 + a + 4 \<le> env_data 0xC0000 + j" using assms(14) by linarith
    then show "hinfc_flash cells d s2 (env_data 0xC0000 + j) = hinfc_flash cells d s1 (env_data 0xC0000 + j)" by (rule assms(16))
  next
    have at: "env_data 0xC0000 + (a - 4) + k = 0xC0000 + a + k" using assms(14) by simp
    show "hinfc_flash cells d s2 (env_data 0xC0000 + (a - 4) + k) \<noteq> hinfc_flash cells d s1 (env_data 0xC0000 + (a - 4) + k)"
      unfolding at by (rule assms(18))
  qed (use assms(15,17) in simp_all)
  have "load_u32 (hinfc_flash cells d s2) 0xC0000 = load_u32 (hinfc_flash cells d s1) 0xC0000"
    by (rule load_u32_cong) (use assms(14,16) in auto)
  then have bad_crc: "\<not> crc_ok (hinfc_flash cells d s2) 0xC0000" using n v(3) by (simp add: crc_ok_def)
  have len: "unat (default_len gd2) \<le> 0x1FFFC" using assms(19) by (simp add: word_le_nat_alt)
  from mtd_dev.env_relocate [OF dev assms(11), unfolded mtd_sizes, OF assms(3-5,7) g2 assms(13), of marker] bad_crc len assms(20)
  obtain gd3 s3 where r: "env_relocate ef p gd2 s2 = Some (gd3, s3)" "env_addr gd3 = env_data p"
      "\<forall>i < unat (default_len gd2). ram s3 (env_data p + i) = ram s2 (default_env gd2 + i)"
    unfolding assms(9) by auto
  then have "load_bytes (ram s3) (env_data p) (unat (default_len gd2)) = load_bytes (ram s2) (default_env gd2) (unat (default_len gd2))"
    by (intro nth_equalityI) (simp_all add: nth_load_bytes)
  then show ?thesis using r(1,2) by blast
qed


text \<open>The same chip, after some bits of page 401, which lies in the area, have been lost.\<close>

definition sim_lose :: "nat \<Rightarrow> nfc_sim hinfc_host nand_st \<Rightarrow> nfc_sim hinfc_host nand_st" where
  "sim_lose i s = (let h = hw s; b = bus h; n = nfc b in
     s\<lparr>hw := h\<lparr>bus := b\<lparr>nfc := n\<lparr>sim_cells := (sim_cells n)(401 := (sim_cells n 401)(i := NOT (sim_cells n 401 i)))\<rparr>\<rparr>\<rparr>\<rparr>)"

lemma sim_lose_ready: "hinfc_ready sim_up sim_base sim_oob sim_con sim_chip s \<Longrightarrow>
    hinfc_ready sim_up sim_base sim_oob sim_con sim_chip (sim_lose i s)"
  by (simp add: hinfc_ready_def host_ready_def sim_lose_def Let_def)

lemma sim_lose_bad: "hinfc_bad sim_cells sim_chip (sim_lose 9 s) = hinfc_bad sim_cells sim_chip s"
  by (intro ext) (simp add: hinfc_bad_def sim_lose_def Let_def sim_sizes split: option.split)

lemma sim_lose_flash: "hinfc_flash sim_cells sim_chip (sim_lose 9 s) x =
    (if x = 401 * 2048 + 9 then NOT (hinfc_flash sim_cells sim_chip s x) else hinfc_flash sim_cells sim_chip s x)"
proof -
  have "x div 2048 = 401 \<and> x mod 2048 = 9 \<longrightarrow> x = 401 * 2048 + 9" by (metis div_mult_mod_eq)
  then have "x div 2048 = 401 \<and> x mod 2048 = 9 \<longleftrightarrow> x = 401 * 2048 + 9" by auto
  then show ?thesis by (auto simp: hinfc_flash_def sim_lose_def Let_def sim_sizes)
qed

lemma not_ne: "NOT x \<noteq> (x :: u8)"
proof
  assume "NOT x = x"
  then have "bit (NOT x) 0 = bit x 0" by (rule arg_cong)
  then show False by (simp add: bit_not_iff)
qed

lemma env_damage_found_witness:
  "\<exists>s1 gd3 s3. do_saveenv (Some (nand_env_cmn_func (hinfc_mtd sim_mem sim_cfg 1000 sim_chip) 0x1080)) sim_gd sim_state = Some (0, s1) \<and>
    env_relocate (Some (nand_env_cmn_func (hinfc_mtd sim_mem sim_cfg 1000 sim_chip) 0x1080)) 0x900000 sim_gd (sim_lose 9 s1) = Some (gd3, s3) \<and>
    env_addr gd3 = env_data 0x900000 \<and>
    load_bytes (ram s3) (env_data 0x900000) (unat (default_len sim_gd)) = load_bytes (ram (sim_lose 9 s1)) (default_env sim_gd) (unat (default_len sim_gd))"
proof -
  let ?ef = "Some (nand_env_cmn_func (hinfc_mtd sim_mem sim_cfg 1000 sim_chip) 0x1080)"
  note rel = hinfc_reliable.reliable [OF sim.hinfc_reliable_axioms]
  note dev = mtd_reliable.axioms(1) [OF rel]
  note nf = mtd_reliable.never_fails [OF rel]
  have gd: "{env_ptr sim_gd ..< env_ptr sim_gd + 0x20000} \<inter> sim_priv = {}" by (auto simp: sim_gd_def)
  obtain s1 where v: "do_saveenv ?ef sim_gd sim_state = Some (0, s1)" "hinfc_ready sim_up sim_base sim_oob sim_con sim_chip s1"
    using mtd_dev.do_saveenv [OF dev sim_ready, unfolded mtd_sizes, of sim_gd "0x1080"] nf gd sim_area by (auto simp: sim_sizes)
  note ready = sim_lose_ready [OF v(2), of 9]
  have "\<exists>gd3 s3. env_relocate ?ef 0x900000 sim_gd (sim_lose 9 s1) = Some (gd3, s3) \<and> env_addr gd3 = env_data 0x900000 \<and>
    load_bytes (ram s3) (env_data 0x900000) (unat (default_len sim_gd)) = load_bytes (ram (sim_lose 9 s1)) (default_env sim_gd) (unat (default_len sim_gd))"
  proof (rule env_damage_found [OF sim.hinfc_reliable_axioms sim_ready _ _ _ gd _ _ refl v(1) ready sim_lose_bad, where a = "0x8808" and k = 1])
    fix x :: nat assume "x < 0xC0000 + 0x8808 \<or> 0xC0000 + 0x8808 + 4 \<le> x"
    then have "x \<noteq> 401 * 2048 + 9" by linarith
    then show "hinfc_flash sim_cells sim_chip (sim_lose 9 s1) x = hinfc_flash sim_cells sim_chip s1 x" by (simp only: sim_lose_flash if_False)
  next
    show "hinfc_flash sim_cells sim_chip (sim_lose 9 s1) (0xC0000 + 0x8808 + 1) \<noteq> hinfc_flash sim_cells sim_chip s1 (0xC0000 + 0x8808 + 1)"
      using not_ne [of "hinfc_flash sim_cells sim_chip s1 (401 * 2048 + 9)"] by (simp add: sim_lose_flash)
  qed (auto simp: sim_sizes sim_gd_def)
  then show ?thesis using v(1) by blast
qed

end
