(* ===== verification/NvEdit.thy ===== *)
theory NvEdit
  imports EnvNand CmdNand
begin

text \<open>
  The variables of the boot loader: \<open>common/cmd_nvedit.c\<close> looks them up, sets and deletes them and prints them.  They are
  kept in one block of memory, the area that \<open>EnvNand\<close> stores, as \<open>name=value\<close> texts each ended by a zero byte, with another zero behind the
  last one.

  Names and values are addresses of C strings.  What belongs to other parts of the loader (the console and its devices, the serial line, the keyboard) are
  functions in \<open>nv_cfg\<close>, on a state of their own.  Of the console output only what \<open>printenv\<close> lists is kept.
\<close>

section \<open>State and surroundings\<close>

record 'x nv_st =
  nv_ram :: memory
  env_id :: int
  gd_baudrate :: u32
  bi_ip_addr :: u32
  load_addr :: u32
  nv_out :: "u8 list"
  nv_dev :: 'x

text \<open>\<open>BootFile\<close> is the address of the array of that name in \<open>net/net.c\<close>.\<close>

record 'x nv_cfg =
  nv_console_assign :: "int \<Rightarrow> memory \<Rightarrow> nat \<Rightarrow> 'x \<Rightarrow> int \<times> 'x"
  nv_serial_setbrg :: "u32 \<Rightarrow> 'x \<Rightarrow> 'x"
  nv_getc :: "'x \<Rightarrow> u8 \<times> 'x"
  nv_ctrlc :: "'x \<Rightarrow> bool \<times> 'x"
  BootFile :: nat

definition baudrate_table :: "u32 list" where "baudrate_table = [9600, 19200, 38400, 57600, 115200]"

section \<open>Strings in memory\<close>

abbreviation c_eq :: u8 where "c_eq \<equiv> 61"

text \<open>The address of the zero at the end of a string.\<close>

partial_function (option) str_end :: "memory \<Rightarrow> nat \<Rightarrow> nat option" where
  "str_end mm a = (if mm a = 0 then Some a else str_end mm (a + 1))"

definition c_string :: "memory \<Rightarrow> nat \<Rightarrow> string option" where
  "c_string mm a = do {e \<leftarrow> str_end mm a; Some (map (\<lambda>b. char_of (unat b)) (load_bytes mm a (e - a)))}"

partial_function (option) strchr :: "memory \<Rightarrow> nat \<Rightarrow> u8 \<Rightarrow> nat option" where
  "strchr mm s c = (if mm s = c then Some s else if mm s = 0 then Some 0 else strchr mm (s + 1) c)"

text \<open>\<open>strncmp (s, lit, sizeof (lit)) == 0\<close>\<close>

primrec str_is :: "memory \<Rightarrow> nat \<Rightarrow> string \<Rightarrow> bool" where
  "str_is mm s [] \<longleftrightarrow> mm s = 0"
| "str_is mm s (c # cs) \<longleftrightarrow> mm s = of_char c \<and> str_is mm (s + 1) cs"

text \<open>\<open>while ((*d = *s++) != '\0') d++;\<close> gives the address of the zero that was written.\<close>

partial_function (option) str_copy :: "memory \<Rightarrow> nat \<Rightarrow> nat \<Rightarrow> (memory \<times> nat) option" where
  "str_copy mm d s = (let c = mm s; mm = mm(d := c) in if c \<noteq> 0 then str_copy mm (d + 1) (s + 1) else Some (mm, d))"

section \<open>Looking up\<close>

partial_function (option) envmatch :: "'h env_common_func_t option \<Rightarrow> env_gd \<Rightarrow> memory \<Rightarrow> nat \<Rightarrow> nat \<Rightarrow> int option" where
  "envmatch ef gd mm s1 i2 =
     (let c = env_get_char ef gd mm i2 in
      if mm s1 = c then (if mm s1 = c_eq then Some (int i2 + 1) else envmatch ef gd mm (s1 + 1) (i2 + 1))
      else if mm s1 = 0 \<and> c = c_eq then Some (int i2 + 1)
      else Some (- 1))"

text \<open>The end of the text at \<open>i\<close>; \<open>None\<close> inside is the early return when it lies beyond the area.\<close>

partial_function (option) getenv_nxt :: "'h env_common_func_t option \<Rightarrow> env_gd \<Rightarrow> memory \<Rightarrow> nat \<Rightarrow> nat option option" where
  "getenv_nxt ef gd mm n =
     (if env_get_char ef gd mm n \<noteq> 0
      then (if unat CONFIG_ENV_SIZE \<le> n then Some None else getenv_nxt ef gd mm (n + 1))
      else Some (Some n))"

text \<open>The search that \<open>getenv\<close> and \<open>getenv_r\<close> share: the index of the value, or -1.\<close>

partial_function (option) getenv_loop :: "'h env_common_func_t option \<Rightarrow> env_gd \<Rightarrow> memory \<Rightarrow> nat \<Rightarrow> nat \<Rightarrow> int option" where
  "getenv_loop ef gd mm name i =
     (if env_get_char ef gd mm i \<noteq> 0 then do {
        r \<leftarrow> getenv_nxt ef gd mm i;
        (case r of None \<Rightarrow> Some (- 1)
         | Some nxt \<Rightarrow> do {
             val \<leftarrow> envmatch ef gd mm name i;
             if val < 0 then getenv_loop ef gd mm name (nxt + 1) else Some val})}
      else Some (- 1))"

definition getenv :: "'h env_common_func_t option \<Rightarrow> env_gd \<Rightarrow> memory \<Rightarrow> nat \<Rightarrow> nat option" where
  "getenv ef gd mm name = do {
     val \<leftarrow> getenv_loop ef gd mm name 0;
     Some (if val < 0 then 0 else env_get_addr gd (nat val))}"

partial_function (option) getenv_r_copy ::
  "'h env_common_func_t option \<Rightarrow> env_gd \<Rightarrow> memory \<Rightarrow> nat \<Rightarrow> nat \<Rightarrow> nat \<Rightarrow> nat \<Rightarrow> (memory \<times> nat \<times> nat) option" where
  "getenv_r_copy ef gd mm buf val n len =
     (if n < len then
        (let c = env_get_char ef gd mm val; mm = mm(buf := c) in
         if c \<noteq> 0 then getenv_r_copy ef gd mm (buf + 1) (val + 1) (n + 1) len else Some (mm, buf + 1, n + 1))
      else Some (mm, buf, n + 1))"

definition getenv_r :: "'h env_common_func_t option \<Rightarrow> env_gd \<Rightarrow> memory \<Rightarrow> nat \<Rightarrow> nat \<Rightarrow> u32 \<Rightarrow> (int \<times> memory) option" where
  "getenv_r ef gd mm name buf len = do {
     val \<leftarrow> getenv_loop ef gd mm name 0;
     if val < 0 then Some (- 1, mm)
     else do {
       (mm, buf, n) \<leftarrow> getenv_r_copy ef gd mm buf (nat val) 0 (unat len);
       Some (int n, if unat len = n then mm(buf := 0) else mm)}}"

section \<open>Setting and deleting\<close>

text \<open>The search of \<open>_do_setenv\<close>: \<open>oldval\<close>, \<open>env\<close> and \<open>nxt\<close>.\<close>

partial_function (option) setenv_find ::
  "'h env_common_func_t option \<Rightarrow> env_gd \<Rightarrow> memory \<Rightarrow> nat \<Rightarrow> nat \<Rightarrow> nat \<Rightarrow> nat \<Rightarrow> int \<Rightarrow> (int \<times> nat \<times> nat) option" where
  "setenv_find ef gd mm name data env nxt oldval =
     (if mm env \<noteq> 0 then do {
        nxt \<leftarrow> str_end mm env;
        oldval \<leftarrow> envmatch ef gd mm name (env - data);
        if 0 \<le> oldval then Some (oldval, env, nxt) else setenv_find ef gd mm name data (nxt + 1) nxt oldval}
      else Some (oldval, env, nxt))"

text \<open>The redirection of the console: \<open>stdin\<close>, \<open>stdout\<close> and \<open>stderr\<close> are 0, 1 and 2.\<close>

definition setenv_console :: "'x nv_cfg \<Rightarrow> nat \<Rightarrow> nat list \<Rightarrow> 'x nv_st \<Rightarrow> bool \<times> 'x nv_st" where
  "setenv_console cfg argc argv s =
     (let name = argv ! 1; mm = nv_ram s;
          console = (if str_is mm name ''stdin'' then 0 else if str_is mm name ''stdout'' then 1
                     else if str_is mm name ''stderr'' then 2 else - 1) in
      if console \<noteq> - 1 then
        (if argc < 3 then (False, s)
         else (let (r, x) = nv_console_assign cfg console mm (argv ! 2) (nv_dev s) in (\<not> r < 0, s\<lparr>nv_dev := x\<rparr>)))
      else (True, s))"

partial_function (option) wait_return :: "'x nv_cfg \<Rightarrow> 'x \<Rightarrow> 'x option" where
  "wait_return cfg x = (let (c, x) = nv_getc cfg x in if c = 13 then Some x else wait_return cfg x)"

definition setenv_baudrate :: "'x nv_cfg \<Rightarrow> nat list \<Rightarrow> 'x nv_st \<Rightarrow> (bool \<times> 'x nv_st) option" where
  "setenv_baudrate cfg argv s =
     (if str_is (nv_ram s) (argv ! 1) ''baudrate'' then do {
        v \<leftarrow> c_string (nv_ram s) (argv ! 2);
        let baudrate = simple_strtoul v 10;
        if baudrate \<notin> set baudrate_table then Some (False, s)
        else do {
          x \<leftarrow> wait_return cfg (nv_serial_setbrg cfg baudrate (nv_dev s));
          Some (True, s\<lparr>gd_baudrate := baudrate, nv_dev := x\<rparr>)}}
      else Some (True, s))"

partial_function (option) env_move :: "memory \<Rightarrow> nat \<Rightarrow> nat \<Rightarrow> (memory \<times> nat) option" where
  "env_move mm env nxt =
     (let mm = mm(env := mm nxt); nxt = nxt + 1 in
      if mm env = 0 \<and> mm nxt = 0 then Some (mm, env) else env_move mm (env + 1) nxt)"

definition setenv_delete :: "memory \<Rightarrow> nat \<Rightarrow> nat \<Rightarrow> nat \<Rightarrow> memory option" where
  "setenv_delete mm data env nxt = (let nxt = nxt + 1 in do {
     (mm, env) \<leftarrow> (if mm nxt = 0
       then Some (if data < env then (mm, env - 1) else (mm(env := 0), env))
       else env_move mm env nxt);
     Some (mm(env + 1 := 0))})"

partial_function (option) env_last :: "memory \<Rightarrow> nat \<Rightarrow> nat option" where
  "env_last mm env = (if mm env \<noteq> 0 \<or> mm (env + 1) \<noteq> 0 then env_last mm (env + 1) else Some env)"

fun sum_lens :: "memory \<Rightarrow> nat list \<Rightarrow> int option" where
  "sum_lens mm [] = Some 0"
| "sum_lens mm (v # vs) = do {e \<leftarrow> str_end mm v; l \<leftarrow> sum_lens mm vs; Some (int (e - v) + 1 + l)}"

fun put_vals :: "memory \<Rightarrow> nat \<Rightarrow> bool \<Rightarrow> nat list \<Rightarrow> (memory \<times> nat) option" where
  "put_vals mm env first [] = Some (mm, env)"
| "put_vals mm env first (v # vs) = do {
     (mm, env) \<leftarrow> str_copy (mm(env := if first then c_eq else 32)) (env + 1) v;
     put_vals mm env False vs}"

text \<open>\<open>None\<close> inside is the overflow.\<close>

definition setenv_append :: "memory \<Rightarrow> nat \<Rightarrow> nat \<Rightarrow> nat list \<Rightarrow> memory option option" where
  "setenv_append mm data name vals = do {
     env \<leftarrow> env_last mm data;
     let env = (if data < env then env + 1 else env);
     e \<leftarrow> str_end mm name;
     l \<leftarrow> sum_lens mm vals;
     if int (unat ENV_SIZE) - (int env - int data) < int (e - name) + 2 + l then Some None
     else do {
       (mm, env) \<leftarrow> str_copy mm env name;
       (mm, env) \<leftarrow> put_vals mm env True vals;
       Some (Some (mm(env + 1 := 0)))}}"

section \<open>Variables with an effect\<close>

fun ip_loop :: "nat \<Rightarrow> memory \<Rightarrow> nat \<Rightarrow> u32 \<Rightarrow> u32 option" where
  "ip_loop 0 mm s addr = Some addr"
| "ip_loop (Suc k) mm s addr =
     (if s \<noteq> 0 then do {
        str \<leftarrow> c_string mm s;
        let (v, rest) = simple_strtoull str 10;
        let e = s + (length str - length rest);
        ip_loop k mm (if mm e \<noteq> 0 then e + 1 else e) (push_bit 8 addr OR (ucast v AND 0xFF))}
      else ip_loop k mm s (push_bit 8 addr))"

definition htonl :: "u32 \<Rightarrow> u32" where
  "htonl w = (push_bit 24 w OR (push_bit 8 w AND 0xFF0000) OR (drop_bit 8 w AND 0xFF00) OR drop_bit 24 w)"

partial_function (option) copy_filename_loop :: "memory \<Rightarrow> nat \<Rightarrow> nat \<Rightarrow> int \<Rightarrow> memory option" where
  "copy_filename_loop mm dst src sz =
     (let sz = sz - 1 in
      if 0 < sz \<and> mm src \<noteq> 0 \<and> mm src \<noteq> 34 then copy_filename_loop (mm(dst := mm src)) (dst + 1) (src + 1) sz
      else Some (mm(dst := 0)))"

definition copy_filename :: "memory \<Rightarrow> nat \<Rightarrow> nat \<Rightarrow> int \<Rightarrow> memory option" where
  "copy_filename mm dst src sz =
     (if mm src \<noteq> 0 \<and> mm src = 34 then copy_filename_loop mm dst (src + 1) (sz - 1) else copy_filename_loop mm dst src sz)"

definition setenv_update :: "'x nv_cfg \<Rightarrow> nat list \<Rightarrow> 'x nv_st \<Rightarrow> 'x nv_st option" where
  "setenv_update cfg argv s =
     (let mm = nv_ram s in
      if str_is mm (argv ! 1) ''ethaddr'' then Some s
      else if str_is mm (argv ! 1) ''ipaddr'' then do {
        addr \<leftarrow> ip_loop 4 mm (argv ! 2) 0;
        Some (s\<lparr>bi_ip_addr := htonl addr\<rparr>)}
      else if str_is mm (argv ! 1) ''loadaddr'' then do {
        v \<leftarrow> c_string mm (argv ! 2);
        Some (s\<lparr>load_addr := simple_strtoul v 16\<rparr>)}
      else if str_is mm (argv ! 1) ''bootfile'' then do {
        mm \<leftarrow> copy_filename mm (BootFile cfg) (argv ! 2) 128;
        Some (s\<lparr>nv_ram := mm\<rparr>)}
      else Some s)"

section \<open>The commands\<close>

text \<open>
  \<open>_do_setenv\<close>; \<open>argv\<close> may be longer than \<open>argc\<close>, as in \<open>setenv\<close>.  \<open>CONFIG_ENV_OVERWRITE\<close> is configured, so no variable is
  read-only.
\<close>

definition do_setenv_impl ::
  "'x nv_cfg \<Rightarrow> 'h env_common_func_t option \<Rightarrow> env_gd \<Rightarrow> nat \<Rightarrow> nat list \<Rightarrow> 'x nv_st \<Rightarrow> (int \<times> 'x nv_st) option" where
  "do_setenv_impl cfg ef gd argc argv s =
     (let data = env_get_addr gd 0; name = argv ! 1 in
      if data = 0 then Some (1, s)
      else do {
        eq \<leftarrow> strchr (nv_ram s) name c_eq;
        if eq \<noteq> 0 then Some (1, s)
        else (let s = s\<lparr>env_id := env_id s + 1\<rparr> in do {
          (oldval, env, nxt) \<leftarrow> setenv_find ef gd (nv_ram s) name data data 0 (- 1);
          let (ok, s) = setenv_console cfg argc argv s;
          if \<not> ok then Some (1, s)
          else do {
            (ok, s) \<leftarrow> (if 0 \<le> oldval then do {
                 (ok, s) \<leftarrow> setenv_baudrate cfg argv s;
                 if \<not> ok then Some (False, s)
                 else do {mm \<leftarrow> setenv_delete (nv_ram s) data env nxt; Some (True, s\<lparr>nv_ram := mm\<rparr>)}}
               else Some (True, s));
            if \<not> ok then Some (1, s)
            else if argc < 3 \<or> argv ! 2 = 0 then Some (0, s)
            else do {
              r \<leftarrow> setenv_append (nv_ram s) data name (take (argc - 2) (drop 2 argv));
              (case r of None \<Rightarrow> Some (1, s)
               | Some mm \<Rightarrow> do {
                   s \<leftarrow> setenv_update cfg argv (s\<lparr>nv_ram := mm\<rparr>);
                   Some (0, s)})}}})})"

definition do_setenv ::
  "'x nv_cfg \<Rightarrow> 'h env_common_func_t option \<Rightarrow> env_gd \<Rightarrow> nat \<Rightarrow> nat list \<Rightarrow> 'x nv_st \<Rightarrow> (int \<times> 'x nv_st) option" where
  "do_setenv cfg ef gd argc argv s = (if argc < 2 then Some (1, s) else do_setenv_impl cfg ef gd argc argv s)"

text \<open>The function \<open>setenv\<close>; \<open>argv[0]\<close> is not used.\<close>

definition setenv ::
  "'x nv_cfg \<Rightarrow> 'h env_common_func_t option \<Rightarrow> env_gd \<Rightarrow> nat \<Rightarrow> nat \<Rightarrow> 'x nv_st \<Rightarrow> (int \<times> 'x nv_st) option" where
  "setenv cfg ef gd varname varvalue s =
     do_setenv_impl cfg ef gd (if varvalue = 0 \<or> nv_ram s varvalue = 0 then 2 else 3) [0, varname, varvalue, 0] s"

section \<open>Printing\<close>

text \<open>One text, through a buffer of 16 characters; \<open>c\<close> is the last character.\<close>

partial_function (option) printenv_text ::
  "'h env_common_func_t option \<Rightarrow> env_gd \<Rightarrow> memory \<Rightarrow> bool \<Rightarrow> nat \<Rightarrow> u8 list \<Rightarrow> u8 list \<Rightarrow> (nat \<times> u8 list \<times> u8 list) option" where
  "printenv_text ef gd mm shown i buf out =
     (let c = env_get_char ef gd mm i; buf = buf @ [c]; i = i + 1;
          (buf, out) = (if length buf = 16 then ([], if shown then out @ takeWhile (\<lambda>b. b \<noteq> 0) buf else out) else (buf, out)) in
      if c \<noteq> 0 then printenv_text ef gd mm shown i buf out else Some (i, buf, out))"

partial_function (option) printenv_loop ::
  "'x nv_cfg \<Rightarrow> 'h env_common_func_t option \<Rightarrow> env_gd \<Rightarrow> nat \<Rightarrow> nat \<Rightarrow> nat \<Rightarrow> 'x nv_st \<Rightarrow> (int \<times> 'x nv_st) option" where
  "printenv_loop cfg ef gd name state i s =
     (if state \<noteq> 0 \<and> env_get_char ef gd (nv_ram s) i \<noteq> 0 then do {
        state \<leftarrow> (if state = 2 then do {v \<leftarrow> envmatch ef gd (nv_ram s) name i; Some (if 0 \<le> v then 0 else state)} else Some state);
        (i, buf, out) \<leftarrow> printenv_text ef gd (nv_ram s) (state \<le> 1) i [] (nv_out s);
        let s = s\<lparr>nv_out := if state \<le> 1 then out @ takeWhile (\<lambda>b. b \<noteq> 0) buf @ [10] else out\<rparr>;
        let (stop, x) = nv_ctrlc cfg (nv_dev s);
        let s = s\<lparr>nv_dev := x\<rparr>;
        if stop then Some (- 1, s) else printenv_loop cfg ef gd name state i s}
      else Some (if state = 0 then 0 else int i, s))"

definition printenv ::
  "'x nv_cfg \<Rightarrow> 'h env_common_func_t option \<Rightarrow> env_gd \<Rightarrow> nat \<Rightarrow> nat \<Rightarrow> 'x nv_st \<Rightarrow> (int \<times> 'x nv_st) option" where
  "printenv cfg ef gd name state s = printenv_loop cfg ef gd name state 0 s"

fun do_printenv_loop ::
  "'x nv_cfg \<Rightarrow> 'h env_common_func_t option \<Rightarrow> env_gd \<Rightarrow> int \<Rightarrow> nat list \<Rightarrow> 'x nv_st \<Rightarrow> (int \<times> 'x nv_st) option" where
  "do_printenv_loop cfg ef gd rcode [] s = Some (rcode, s)"
| "do_printenv_loop cfg ef gd rcode (name # names) s = do {
     (r, s) \<leftarrow> printenv cfg ef gd name 2 s;
     do_printenv_loop cfg ef gd (if r \<noteq> 0 then rcode + 1 else rcode) names s}"

definition do_printenv ::
  "'x nv_cfg \<Rightarrow> 'h env_common_func_t option \<Rightarrow> env_gd \<Rightarrow> nat list \<Rightarrow> 'x nv_st \<Rightarrow> (int \<times> 'x nv_st) option" where
  "do_printenv cfg ef gd argv s =
     (if length argv = 1 then do {
        (rcode, s) \<leftarrow> printenv cfg ef gd 0 1 s;
        Some (if rcode < 0 then 1 else 0, s)}
      else do_printenv_loop cfg ef gd 0 (tl argv) s)"

end
