(* ===== verification/NvProps.thy ===== *)
theory NvProps
  imports NvEdit
begin

text \<open>
  What the editing of the variables does: the block of memory stands for a list of names and values, \<open>env_holds\<close>, which \<open>getenv\<close>
  searches and \<open>_do_setenv\<close> changes, and so for a map.
\<close>

section \<open>Texts in memory\<close>

primrec text_at :: "memory \<Rightarrow> nat \<Rightarrow> u8 list \<Rightarrow> bool" where
  "text_at mm a [] \<longleftrightarrow> True"
| "text_at mm a (b # bs) \<longleftrightarrow> mm a = b \<and> text_at mm (Suc a) bs"

lemma text_at_append [simp]: "text_at mm a (xs @ ys) \<longleftrightarrow> text_at mm a xs \<and> text_at mm (a + length xs) ys"
  by (induction xs arbitrary: a) auto

lemma text_at_iff: "text_at mm a bs \<longleftrightarrow> (\<forall>i < length bs. mm (a + i) = bs ! i)"
  by (induction bs arbitrary: a) (auto simp: less_Suc_eq_0_disj nth_Cons split: nat.splits)

lemma text_at_load: "text_at mm a bs \<longleftrightarrow> load_bytes mm a (length bs) = bs"
  by (auto simp: text_at_iff list_eq_iff_nth_eq nth_load_bytes)

lemma text_at_frame: "(\<And>x. a \<le> x \<Longrightarrow> x < a + length bs \<Longrightarrow> mm' x = mm x) \<Longrightarrow> text_at mm' a bs = text_at mm a bs"
  by (simp add: text_at_iff)

lemma text_at_store: "text_at (store_bytes mm a bs) a bs"
  by (simp add: text_at_iff store_bytes_def)

lemma text_at_upd [simp]: "x < a \<or> a + length bs \<le> x \<Longrightarrow> text_at (mm(x := b)) a bs = text_at mm a bs"
  by (rule text_at_frame) auto

lemma store_bytes_Cons:
  "store_bytes (mm(a := b)) (Suc a) bs = store_bytes mm a (b # bs)"
  by (rule ext) (auto simp: store_bytes_def nth_Cons' Suc_diff_Suc)

definition str_at :: "memory \<Rightarrow> nat \<Rightarrow> u8 list \<Rightarrow> bool" where
  "str_at mm a n \<longleftrightarrow> text_at mm a n \<and> mm (a + length n) = 0 \<and> 0 \<notin> set n"

lemma str_at_simps [simp]:
  "str_at mm a [] \<longleftrightarrow> mm a = 0"
  "str_at mm a (c # n) \<longleftrightarrow> mm a = c \<and> c \<noteq> 0 \<and> str_at mm (Suc a) n"
  by (auto simp: str_at_def)

lemma str_at_frame: "(\<And>x. a \<le> x \<Longrightarrow> x \<le> a + length n \<Longrightarrow> mm' x = mm x) \<Longrightarrow> str_at mm' a n = str_at mm a n"
  by (simp add: str_at_def cong: text_at_frame)

lemma str_end: "str_at mm a n \<Longrightarrow> str_end mm a = Some (a + length n)"
  by (induction n arbitrary: a) (simp_all add: str_end.simps)

lemma strchr: "str_at mm a n \<Longrightarrow> c \<notin> set n \<Longrightarrow> c \<noteq> 0 \<Longrightarrow> strchr mm a c = Some 0"
  by (induction n arbitrary: a) (subst strchr.simps, auto)+

lemma str_copy:
  "str_at mm s n \<Longrightarrow> d + length n < s \<or> s + length n < d \<Longrightarrow> str_copy mm d s = Some (store_bytes mm d (n @ [0]), d + length n)"
proof (induction n arbitrary: mm d s)
  case Nil
  then show ?case by (subst str_copy.simps) (auto simp: fun_eq_iff store_bytes_def)
next
  case (Cons c n)
  then have "str_at (mm(d := c)) (Suc s) n = str_at mm (Suc s) n" by (intro str_at_frame) auto
  then have "str_at (mm(d := c)) (Suc s) n" using Cons.prems(1) by simp
  then have "str_copy (mm(d := c)) (Suc d) (Suc s) = Some (store_bytes (mm(d := c)) (Suc d) (n @ [0]), Suc d + length n)"
    using Cons.prems(2) by (intro Cons.IH) (simp_all only: list.size, linarith)
  then have "str_copy mm d s = Some (store_bytes (mm(d := c)) (Suc d) (n @ [0]), Suc d + length n)"
    using Cons.prems(1) by (subst str_copy.simps) (simp add: Let_def)
  then show ?case by (simp add: store_bytes_Cons)
qed

section \<open>The list of the variables\<close>

type_synonym vars = "(u8 list \<times> u8 list) list"

definition entry :: "u8 list \<times> u8 list \<Rightarrow> u8 list" where
  "entry nv = fst nv @ c_eq # snd nv @ [0]"

definition good_var :: "u8 list \<times> u8 list \<Rightarrow> bool" where
  "good_var nv \<longleftrightarrow> 0 \<notin> set (fst nv) \<and> c_eq \<notin> set (fst nv) \<and> 0 \<notin> set (snd nv)"

definition env_body :: "vars \<Rightarrow> u8 list" where
  "env_body es = (if es = [] then [0] else concat (map entry es))"

definition env_holds :: "memory \<Rightarrow> nat \<Rightarrow> vars \<Rightarrow> bool" where
  "env_holds mm data es \<longleftrightarrow> text_at mm data (env_body es @ [0]) \<and> (\<forall>e \<in> set es. good_var e) \<and> distinct (map fst es)"

definition env_length :: "vars \<Rightarrow> nat" where
  "env_length es = length (env_body es) + 1"

primrec joined :: "u8 list list \<Rightarrow> u8 list" where
  "joined [] = []"
| "joined (v # vs) = v @ concat (map (\<lambda>v. 32 # v) vs)"

definition del_var :: "u8 list \<Rightarrow> vars \<Rightarrow> vars" where
  "del_var n es = filter (\<lambda>e. fst e \<noteq> n) es"

definition set_var :: "u8 list \<Rightarrow> u8 list list \<Rightarrow> vars \<Rightarrow> vars" where
  "set_var n vs es = del_var n es @ (if vs = [] then [] else [(n, joined vs)])"

lemma env_get_char_addr: "gd_reloc gd \<Longrightarrow> env_get_char ef gd mm i = mm (env_get_addr gd 0 + i)"
  by (simp add: env_get_char_def env_get_char_memory_def env_get_addr_def)

lemma env_get_addr_add: "env_get_addr gd i = env_get_addr gd 0 + i"
  by (simp add: env_get_addr_def)

lemma envmatch:
  assumes "gd_reloc gd"
  shows "str_at mm s m \<Longrightarrow> c_eq \<notin> set m \<Longrightarrow> c_eq \<notin> set n \<Longrightarrow> 0 \<notin> set n \<Longrightarrow> text_at mm (env_get_addr gd 0 + i) (n @ c_eq # v) \<Longrightarrow>
    envmatch ef gd mm s i = Some (if m = n then int (i + length n + 1) else - 1)"
proof (induction m arbitrary: n s i)
  case Nil
  then show ?case by (cases n) (auto simp: envmatch.simps env_get_char_addr [OF assms])
next
  case (Cons c m)
  show ?case
  proof (cases n)
    case Nil
    then show ?thesis using Cons.prems by (auto simp: envmatch.simps env_get_char_addr [OF assms])
  next
    case (Cons d n')
    show ?thesis
    proof (cases "c = d")
      case True
      have "envmatch ef gd mm s i = envmatch ef gd mm (Suc s) (Suc i)"
        using Cons.prems True \<open>n = d # n'\<close> by (subst envmatch.simps) (auto simp: env_get_char_addr [OF assms])
      also have "\<dots> = Some (if m = n' then int (Suc i + length n' + 1) else - 1)"
        using Cons.prems True \<open>n = d # n'\<close> by (intro Cons.IH) auto
      finally show ?thesis using True \<open>n = d # n'\<close> by simp
    next
      case False
      then show ?thesis using Cons.prems \<open>n = d # n'\<close> by (subst envmatch.simps) (auto simp: env_get_char_addr [OF assms])
    qed
  qed
qed

lemma getenv_nxt:
  assumes "gd_reloc gd"
  shows "str_at mm (env_get_addr gd 0 + i) e \<Longrightarrow> i + length e \<le> unat CONFIG_ENV_SIZE \<Longrightarrow>
    getenv_nxt ef gd mm i = Some (Some (i + length e))"
proof (induction e arbitrary: i)
  case Nil
  then show ?case by (simp add: getenv_nxt.simps env_get_char_addr [OF assms])
next
  case (Cons c e)
  then have "getenv_nxt ef gd mm (Suc i) = Some (Some (Suc i + length e))" by (intro Cons.IH) auto
  then show ?case using Cons.prems by (subst getenv_nxt.simps) (simp add: env_get_char_addr [OF assms])
qed

lemma str_at_entry: "good_var e \<Longrightarrow> text_at mm a (entry e) \<Longrightarrow> str_at mm a (fst e @ c_eq # snd e)"
  by (auto simp: str_at_def good_var_def entry_def add.assoc)

lemma length_entry [simp]: "length (entry e) = length (fst e) + length (snd e) + 2"
  by (simp add: entry_def)

lemma entry_hd: "good_var e \<Longrightarrow> text_at mm a (entry e) \<Longrightarrow> mm a \<noteq> 0"
  by (cases "fst e") (auto simp: entry_def good_var_def)

lemma getenv_loop:
  assumes "gd_reloc gd" "str_at mm s m" "c_eq \<notin> set m"
  shows "text_at mm (env_get_addr gd 0 + i) (concat (map entry es) @ [0]) \<Longrightarrow> \<forall>e \<in> set es. good_var e \<Longrightarrow>
      i + length (concat (map entry es)) \<le> unat CONFIG_ENV_SIZE \<Longrightarrow>
    (case map_of es m of None \<Rightarrow> getenv_loop ef gd mm s i = Some (- 1)
     | Some v \<Rightarrow> \<exists>k. getenv_loop ef gd mm s i = Some (int k) \<and> str_at mm (env_get_addr gd 0 + k) v \<and>
         k + length v < i + length (concat (map entry es)))"
proof (induction es arbitrary: i)
  case Nil
  then show ?case by (simp add: getenv_loop.simps env_get_char_addr [OF assms(1)])
next
  case (Cons e es)
  obtain n v where e: "e = (n, v)" by (cases e)
  have g: "good_var e" and t: "text_at mm (env_get_addr gd 0 + i) (entry e)" using Cons.prems by auto
  have nxt: "getenv_nxt ef gd mm i = Some (Some (i + length (n @ c_eq # v)))"
    using str_at_entry [OF g t] Cons.prems(3) by (intro getenv_nxt [OF assms(1)]) (auto simp: e)
  have mt: "envmatch ef gd mm s i = Some (if m = n then int (i + length n + 1) else - 1)"
    using g t by (intro envmatch [OF assms, where v = "v @ [0]"]) (auto simp: e good_var_def entry_def)
  have "getenv_loop ef gd mm s i = (if m = n then Some (int (i + length n + 1)) else getenv_loop ef gd mm s (i + length n + length v + 2))"
    using entry_hd [OF g t] by (subst getenv_loop.simps) (simp add: env_get_char_addr [OF assms(1)] nxt mt add.assoc)
  moreover have "m = n \<Longrightarrow> str_at mm (env_get_addr gd 0 + (i + length n + 1)) v"
    using g t by (auto simp: e good_var_def entry_def str_at_def add.assoc)
  moreover have "case map_of es m of None \<Rightarrow> getenv_loop ef gd mm s (i + length n + length v + 2) = Some (- 1)
     | Some v' \<Rightarrow> \<exists>k. getenv_loop ef gd mm s (i + length n + length v + 2) = Some (int k) \<and> str_at mm (env_get_addr gd 0 + k) v' \<and>
         k + length v' < i + length n + length v + 2 + length (concat (map entry es))"
    using Cons.prems by (intro Cons.IH) (auto simp: e add.assoc)
  ultimately show ?case by (cases "m = n") (auto simp: e simp del: of_nat_add of_nat_Suc add_2_eq_Suc' split: option.splits)
qed

lemma env_body_ends: "env_holds mm data es \<Longrightarrow> env_length es \<le> unat ENV_SIZE \<Longrightarrow>
  text_at mm data (concat (map entry es) @ [0]) \<and> length (concat (map entry es)) \<le> unat CONFIG_ENV_SIZE"
  by (auto simp: env_holds_def env_length_def env_body_def ENV_SIZE_def CONFIG_ENV_SIZE_def ENV_HEADER_SIZE_def split: if_splits)

lemma getenv_loop_holds:
  assumes "gd_reloc gd" "str_at mm s m" "c_eq \<notin> set m" "env_holds mm (env_get_addr gd 0) es" "env_length es \<le> unat ENV_SIZE"
  shows "case map_of es m of None \<Rightarrow> getenv_loop ef gd mm s 0 = Some (- 1)
     | Some v \<Rightarrow> \<exists>k. getenv_loop ef gd mm s 0 = Some (int k) \<and> str_at mm (env_get_addr gd 0 + k) v \<and> k + length v < unat ENV_SIZE"
proof -
  have "length (concat (map entry es)) \<le> unat ENV_SIZE" using assms(5) by (auto simp: env_length_def env_body_def split: if_splits)
  moreover have "\<forall>e \<in> set es. good_var e" using assms(4) by (simp add: env_holds_def)
  ultimately show ?thesis using getenv_loop [OF assms(1-3), of 0 es ef] env_body_ends [OF assms(4,5)]
    by (cases "map_of es m") auto
qed

lemma getenv:
  assumes "gd_reloc gd" "str_at mm s m" "c_eq \<notin> set m" "env_holds mm (env_get_addr gd 0) es" "env_length es \<le> unat ENV_SIZE"
    and "env_get_addr gd 0 \<noteq> 0"
  shows "case map_of es m of None \<Rightarrow> getenv ef gd mm s = Some 0
     | Some v \<Rightarrow> \<exists>a. getenv ef gd mm s = Some a \<and> a \<noteq> 0 \<and> str_at mm a v"
proof (cases "map_of es m")
  case None
  then show ?thesis using getenv_loop_holds [OF assms(1-5), of ef] by (simp add: getenv_def)
next
  case (Some v)
  then obtain k where "getenv_loop ef gd mm s 0 = Some (int k)" "str_at mm (env_get_addr gd 0 + k) v"
    using getenv_loop_holds [OF assms(1-5), of ef] by auto
  then show ?thesis using Some assms(6) env_get_addr_add [of gd k] by (simp add: getenv_def)
qed


section \<open>Setting and deleting\<close>

fun no00 :: "u8 list \<Rightarrow> bool" where
  "no00 (x # y # zs) \<longleftrightarrow> (x \<noteq> 0 \<or> y \<noteq> 0) \<and> no00 (y # zs)"
| "no00 _ \<longleftrightarrow> True"

lemma no00_Cons: "no00 (x # xs) \<longleftrightarrow> no00 xs \<and> (xs = [] \<or> x \<noteq> 0 \<or> hd xs \<noteq> 0)"
  by (cases xs) auto

lemma no00_append: "0 \<notin> set xs \<Longrightarrow> no00 (xs @ ys) = no00 ys"
  by (induction xs) (auto simp: no00_Cons)

lemma entries_no00: "\<forall>e \<in> set es. good_var e \<Longrightarrow> no00 (concat (map entry es)) \<and> (es \<noteq> [] \<longrightarrow> hd (concat (map entry es)) \<noteq> 0)"
proof (induction es)
  case (Cons e es)
  have *: "0 \<notin> set (fst e @ c_eq # snd e)" "concat (map entry (e # es)) = (fst e @ c_eq # snd e) @ 0 # concat (map entry es)"
    using Cons.prems by (auto simp: good_var_def entry_def)
  have "concat (map entry es) = [] \<longleftrightarrow> es = []" by (cases es) (auto simp: entry_def)
  then have "no00 (concat (map entry (e # es)))" using Cons unfolding *(2) no00_append [OF *(1)] by (auto simp: no00_Cons)
  moreover have "hd (concat (map entry (e # es))) \<noteq> 0" using *(1) unfolding *(2) by (cases "fst e") auto
  ultimately show ?case by simp
qed simp

lemma env_body_shape:
  "\<forall>e \<in> set es. good_var e \<Longrightarrow> env_body es \<noteq> [] \<and> last (env_body es) = 0 \<and> no00 (env_body es)"
  using entries_no00 [of es] by (induction es rule: rev_induct) (auto simp: env_body_def entry_def)

lemma env_move:
  "text_at mm nxt (xs @ [0]) \<Longrightarrow> xs \<noteq> [] \<Longrightarrow> last xs = 0 \<Longrightarrow> no00 xs \<Longrightarrow> env < nxt \<Longrightarrow>
    env_move mm env nxt = Some (store_bytes mm env xs, env + length xs - 1)"
proof (induction xs arbitrary: mm env nxt)
  case (Cons x xs)
  let ?mm = "mm(env := x)"
  have t: "text_at ?mm (Suc nxt) (xs @ [0])" using Cons.prems by auto
  show ?case
  proof (cases xs)
    case Nil
    then show ?thesis using Cons.prems t by (subst env_move.simps) (auto simp: Let_def fun_eq_iff store_bytes_def)
  next
    case (Cons y ys)
    have "env_move ?mm (Suc env) (Suc nxt) = Some (store_bytes ?mm (Suc env) xs, Suc env + length xs - 1)"
    proof (rule Cons.IH [OF t])
      show "xs \<noteq> []" "last xs = 0" "no00 xs" "Suc env < Suc nxt" using Cons.prems Cons by (auto simp: no00_Cons)
    qed
    moreover have "x \<noteq> 0 \<or> ?mm (Suc nxt) \<noteq> 0" using Cons.prems(4) t Cons by auto
    ultimately show ?thesis using Cons.prems(1) by (subst env_move.simps) (auto simp: Let_def store_bytes_Cons)
  qed
qed simp

lemma env_last:
  "text_at mm a (xs @ [0]) \<Longrightarrow> xs \<noteq> [] \<Longrightarrow> last xs = 0 \<Longrightarrow> no00 xs \<Longrightarrow> env_last mm a = Some (a + length xs - 1)"
proof (induction xs arbitrary: a)
  case (Cons x xs)
  show ?case
  proof (cases xs)
    case Nil
    then show ?thesis using Cons.prems by (subst env_last.simps) auto
  next
    case (Cons y ys)
    have "env_last mm (Suc a) = Some (Suc a + length xs - 1)"
      using Cons.prems Cons by (intro Cons.IH) (auto simp: no00_Cons)
    then show ?thesis using Cons.prems Cons by (subst env_last.simps) auto
  qed
qed simp

lemma setenv_find:
  assumes "gd_reloc gd" "str_at mm s m" "c_eq \<notin> set m"
  shows "text_at mm (env_get_addr gd 0 + i) (concat (map entry es) @ [0]) \<Longrightarrow> \<forall>e \<in> set es. good_var e \<Longrightarrow>
    (m \<notin> fst ` set es \<longrightarrow> (\<exists>e n. setenv_find ef gd mm s (env_get_addr gd 0) (env_get_addr gd 0 + i) nx (- 1) = Some (- 1, e, n))) \<and>
    (\<forall>as v bs. es = as @ (m, v) # bs \<and> m \<notin> fst ` set as \<longrightarrow>
      (\<exists>k. setenv_find ef gd mm s (env_get_addr gd 0) (env_get_addr gd 0 + i) nx (- 1) =
        Some (int k, env_get_addr gd 0 + i + length (concat (map entry as)),
          env_get_addr gd 0 + i + length (concat (map entry as)) + length m + 1 + length v)))"
proof (induction es arbitrary: i nx)
  case Nil
  then show ?case by (simp add: setenv_find.simps)
next
  case (Cons e es)
  let ?d = "env_get_addr gd 0"
  obtain n v where e: "e = (n, v)" by (cases e)
  have g: "good_var e" and t: "text_at mm (?d + i) (entry e)" using Cons.prems by auto
  have nxt: "str_end mm (?d + i) = Some (?d + i + length n + length v + 1)"
    using str_end [OF str_at_entry [OF g t]] by (simp add: e)
  have mt: "envmatch ef gd mm s i = Some (if m = n then int (i + length n + 1) else - 1)"
    using g t by (intro envmatch [OF assms, where v = "v @ [0]"]) (auto simp: e good_var_def entry_def)
  let ?i = "i + length n + length v + 2"
  have step: "setenv_find ef gd mm s ?d (?d + i) nx (- 1) =
      (if m = n then Some (int (i + length n + 1), ?d + i, ?d + i + length n + length v + 1)
       else setenv_find ef gd mm s ?d (?d + ?i) (?d + i + length n + length v + 1) (- 1))"
    using entry_hd [OF g t] by (subst setenv_find.simps) (simp add: nxt mt add.assoc)
  have ih: "(m \<notin> fst ` set es \<longrightarrow> (\<exists>e n. setenv_find ef gd mm s ?d (?d + ?i) nx' (- 1) = Some (- 1, e, n))) \<and>
    (\<forall>as v bs. es = as @ (m, v) # bs \<and> m \<notin> fst ` set as \<longrightarrow>
      (\<exists>k. setenv_find ef gd mm s ?d (?d + ?i) nx' (- 1) =
        Some (int k, ?d + ?i + length (concat (map entry as)), ?d + ?i + length (concat (map entry as)) + length m + 1 + length v)))" for nx'
    using Cons.prems by (intro Cons.IH) (auto simp: e add.assoc)
  show ?case
  proof (intro conjI impI allI)
    assume "m \<notin> fst ` set (e # es)"
    then show "\<exists>e n. setenv_find ef gd mm s ?d (?d + i) nx (- 1) = Some (- 1, e, n)" using ih unfolding step by (auto simp: e)
  next
    fix as v' bs assume as: "e # es = as @ (m, v') # bs \<and> m \<notin> fst ` set as"
    show "\<exists>k. setenv_find ef gd mm s ?d (?d + i) nx (- 1) = Some (int k, ?d + i + length (concat (map entry as)),
          ?d + i + length (concat (map entry as)) + length m + 1 + length v')"
    proof (cases as)
      case Nil
      then show ?thesis using as unfolding step by (intro exI [of _ "i + length n + 1"]) (simp add: e)
    next
      case (Cons a as')
      then have "n \<noteq> m" "es = as' @ (m, v') # bs" "m \<notin> fst ` set as'" "a = e" using as by (auto simp: e)
      then obtain k where "setenv_find ef gd mm s ?d (?d + ?i) (?d + i + length n + length v + 1) (- 1) =
          Some (int k, ?d + ?i + length (concat (map entry as')), ?d + ?i + length (concat (map entry as')) + length m + 1 + length v')"
        using ih [of "?d + i + length n + length v + 1"] by blast
      then show ?thesis using \<open>n \<noteq> m\<close> unfolding step Cons \<open>a = e\<close> by (auto simp: e)
    qed
  qed
qed

lemma concat_entries_Nil [simp]: "concat (map entry es) = [] \<longleftrightarrow> es = []"
  by (cases es) (auto simp: entry_def)

lemma setenv_delete:
  assumes "env_holds mm d (as @ (m, v) # bs)"
  shows "\<exists>mm'. setenv_delete mm d (d + length (concat (map entry as))) (d + length (concat (map entry as)) + length m + 1 + length v) = Some mm' \<and>
    env_holds mm' d (as @ bs) \<and> (\<forall>x. x < d \<or> d + env_length (as @ (m, v) # bs) \<le> x \<longrightarrow> mm' x = mm x)"
proof -
  let ?A = "concat (map entry as)" let ?B = "concat (map entry bs)" let ?e = "d + length ?A"
  let ?n = "?e + length m + 1 + length v"
  have t: "text_at mm d ?A" "text_at mm (Suc ?n) (?B @ [0])" "mm ?n = 0"
    using assms by (auto simp: env_holds_def env_body_def entry_def add.assoc)
  have g: "\<forall>e \<in> set (as @ bs). good_var e" "distinct (map fst (as @ bs))" using assms by (auto simp: env_holds_def)
  show ?thesis
  proof (cases "bs = []")
    case False
    have "env_move mm ?e (Suc ?n) = Some (store_bytes mm ?e ?B, ?e + length ?B - 1)"
      using False t env_body_shape [of bs] g by (intro env_move) (auto simp: env_body_def)
    moreover have "mm (Suc ?n) \<noteq> 0"
      using t(2) g(1) False entry_hd [of "hd bs" mm "Suc ?n"] by (cases bs) auto
    moreover have "0 < length ?B" using False by (cases bs) auto
    ultimately have "setenv_delete mm d ?e ?n = Some ((store_bytes mm ?e ?B)(?e + length ?B := 0))"
      by (simp add: setenv_delete_def)
    moreover have "env_holds ((store_bytes mm ?e ?B)(?e + length ?B := 0)) d (as @ bs)"
    proof -
      have "text_at (store_bytes mm ?e ?B) d ?A" using t(1) by (subst text_at_frame [of _ _ _ mm]) (auto simp: store_bytes_def)
      then show ?thesis using g False text_at_store [of mm ?e ?B] by (auto simp: env_holds_def env_body_def)
    qed
    ultimately show ?thesis by (auto simp: env_length_def env_body_def store_bytes_def)
  next
    case True
    show ?thesis
    proof (cases "as = []")
      case False
      then have "0 < length ?A" "last ?A = 0" by (cases as; simp) (metis env_body_def env_body_shape g(1) True append_Nil2 False)
      moreover have "text_at (mm(?e := 0)) d ?A" using t(1) by simp
      ultimately show ?thesis using True False t g by (auto simp: setenv_delete_def env_holds_def env_body_def env_length_def)
    next
      case as: True
      then show ?thesis using True t by (auto simp: setenv_delete_def env_holds_def env_body_def env_length_def)
    qed
  qed
qed


lemma store_append_over: "store_bytes (store_bytes mm a (xs @ [z])) (a + length xs) (y # ys) = store_bytes mm a (xs @ y # ys)"
  by (rule ext) (auto simp: store_bytes_def nth_append)

lemma str_at_store: "a + length n < d \<or> d + length bs \<le> a \<Longrightarrow> str_at (store_bytes mm d bs) a n = str_at mm a n"
  by (rule str_at_frame) (auto simp: store_bytes_def)

definition str_outside :: "memory \<Rightarrow> nat \<Rightarrow> nat \<Rightarrow> nat \<Rightarrow> u8 list \<Rightarrow> bool" where
  "str_outside mm lo hi a n \<longleftrightarrow> str_at mm a n \<and> (a + length n < lo \<or> hi \<le> a)"

lemma str_outside_frame: "(\<And>x. x < lo \<or> hi \<le> x \<Longrightarrow> mm' x = mm x) \<Longrightarrow> str_outside mm lo hi a n \<Longrightarrow> str_outside mm' lo hi a n"
proof -
  assume *: "\<And>x. x < lo \<or> hi \<le> x \<Longrightarrow> mm' x = mm x" "str_outside mm lo hi a n"
  then have "str_at mm' a n = str_at mm a n" by (intro str_at_frame) (auto simp: str_outside_def)
  then show ?thesis using *(2) by (simp add: str_outside_def)
qed

lemma strs_outside_frame: "(\<And>x. x < lo \<or> hi \<le> x \<Longrightarrow> mm' x = mm x) \<Longrightarrow> list_all2 (str_outside mm lo hi) as ns \<Longrightarrow>
    list_all2 (str_outside mm' lo hi) as ns"
  by (erule list_all2_mono) (rule str_outside_frame)

lemma put_vals:
  "list_all2 (str_outside mm lo hi) as vs \<Longrightarrow> vs \<noteq> [] \<Longrightarrow> lo \<le> env \<Longrightarrow> env + length (joined vs) + 1 < hi \<Longrightarrow>
    put_vals mm env first as =
      Some (store_bytes mm env ((if first then c_eq else 32) # joined vs @ [0]), env + 1 + length (joined vs))"
proof (induction vs arbitrary: mm env first as)
  case (Cons v vs)
  then obtain a as' where as: "as = a # as'" "str_outside mm lo hi a v" "list_all2 (str_outside mm lo hi) as' vs"
    by (auto simp: list_all2_Cons2)
  let ?c = "if first then c_eq else 32"
  have jl: "length v \<le> length (joined (v # vs))" by simp
  have "str_outside (mm(env := ?c)) lo hi a v"
    using Cons.prems(3,4) as(2) by (intro str_outside_frame [OF _ as(2)]) auto
  then have cp: "str_copy (mm(env := ?c)) (Suc env) a = Some (store_bytes mm env ((?c # v) @ [0]), env + 1 + length v)"
    using Cons.prems(3,4) jl by (subst str_copy) (auto simp: str_outside_def store_bytes_Cons)
  show ?case
  proof (cases "vs = []")
    case True
    then show ?thesis using as(1,3) cp by simp
  next
    case False
    then have j: "joined (v # vs) = v @ 32 # joined vs" by (cases vs) auto
    let ?mm = "store_bytes mm env ((?c # v) @ [0])"
    have o: "list_all2 (str_outside ?mm lo hi) as' vs"
      using Cons.prems(3,4) jl by (intro strs_outside_frame [OF _ as(3)]) (auto simp: store_bytes_def)
    have "put_vals ?mm (env + 1 + length v) False as' =
        Some (store_bytes ?mm (env + 1 + length v) ((if False then c_eq else 32) # joined vs @ [0]),
          env + 1 + length v + 1 + length (joined vs))"
      using Cons.prems(3,4) j by (intro Cons.IH [OF o False]) simp_all
    moreover have "store_bytes ?mm (env + 1 + length v) ((if False then c_eq else 32) # joined vs @ [0]) =
        store_bytes mm env (?c # joined (v # vs) @ [0])"
      using store_append_over [of mm env "?c # v" 0 32 "joined vs @ [0]"] by (simp add: j del: joined.simps)
    moreover have "put_vals mm env first as = put_vals ?mm (env + 1 + length v) False as'"
      by (simp add: as(1) cp)
    ultimately show ?thesis by (simp add: j del: joined.simps)
  qed
qed simp

lemma sum_lens: "list_all2 (str_outside mm lo hi) as vs \<Longrightarrow> sum_lens mm as = Some (int (sum_list (map (\<lambda>v. length v + 1) vs)))"
  by (induction vs arbitrary: as) (auto simp: list_all2_Cons2 str_outside_def str_end)

lemma sum_joined: "vs \<noteq> [] \<Longrightarrow> sum_list (map (\<lambda>v. length v + 1) vs) = length (joined vs) + 1"
  by (induction vs) (auto simp: length_concat comp_def)

lemma joined_no0: "list_all2 (str_outside mm lo hi) as vs \<Longrightarrow> 0 \<notin> set (joined vs)"
proof -
  assume "list_all2 (str_outside mm lo hi) as vs"
  then have "\<forall>v \<in> set vs. 0 \<notin> set v" by (induction vs arbitrary: as) (auto simp: list_all2_Cons2 str_outside_def str_at_def)
  then show ?thesis by (cases vs) auto
qed

lemma setenv_append:
  assumes "env_holds mm d es" "str_outside mm d (d + unat ENV_SIZE) name m" "c_eq \<notin> set m" "m \<notin> fst ` set es"
    and "list_all2 (str_outside mm d (d + unat ENV_SIZE)) as vs" "vs \<noteq> []"
  shows "\<exists>mm'. setenv_append mm d name as = Some (if env_length (es @ [(m, joined vs)]) \<le> unat ENV_SIZE then Some mm' else None) \<and>
    (env_length (es @ [(m, joined vs)]) \<le> unat ENV_SIZE \<longrightarrow>
      env_holds mm' d (es @ [(m, joined vs)]) \<and> (\<forall>x. x < d \<or> d + unat ENV_SIZE \<le> x \<longrightarrow> mm' x = mm x))"
proof -
  let ?E = "concat (map entry es)" let ?J = "joined vs" let ?e = "d + length ?E"
  have t: "text_at mm d (env_body es @ [0])" and g: "\<forall>e \<in> set es. good_var e" "distinct (map fst es)"
    using assms(1) by (auto simp: env_holds_def)
  have last: "env_last mm d = Some (d + length (env_body es) - 1)"
    using env_last [OF t] env_body_shape [OF g(1)] by simp
  have e: "(if d < d + length (env_body es) - 1 then d + length (env_body es) - 1 + 1 else d + length (env_body es) - 1) = ?e"
    by (cases es) (auto simp: env_body_def)
  have len: "env_length (es @ [(m, ?J)]) = length ?E + (length m + length ?J + 3)" by (simp add: env_length_def env_body_def)
  have m: "str_at mm name m" "str_end mm name = Some (name + length m)" using assms(2) by (auto simp: str_outside_def intro: str_end)
  define over where "over \<longleftrightarrow> \<not> env_length (es @ [(m, ?J)]) \<le> unat ENV_SIZE"
  have ov: "(int (unat ENV_SIZE) - (int ?e - int d) < int (length m) + 2 + int (length ?J + 1)) = over"
    unfolding over_def len by linarith
  have start: "setenv_append mm d name as = (if over then Some None else do {
       (mm, env) \<leftarrow> str_copy mm ?e name;
       (mm, env) \<leftarrow> put_vals mm env True as;
       Some (Some (mm(env + 1 := 0)))})"
    unfolding setenv_append_def last m(2) sum_lens [OF assms(5)] sum_joined [OF assms(6)] using ov e by (simp only: Let_def bind.bind_lunit diff_add_inverse)
  show ?thesis
  proof (cases over)
    case True
    then show ?thesis using start by (auto simp: over_def)
  next
    case False
    then have fit: "length ?E + (length m + length ?J + 3) \<le> unat ENV_SIZE" by (simp add: over_def len)
    have cp: "str_copy mm ?e name = Some (store_bytes mm ?e (m @ [0]), ?e + length m)"
      using assms(2) fit by (intro str_copy) (auto simp: str_outside_def)
    have "list_all2 (str_outside (store_bytes mm ?e (m @ [0])) d (d + unat ENV_SIZE)) as vs"
      using fit by (intro strs_outside_frame [OF _ assms(5)]) (auto simp: store_bytes_def)
    then have "put_vals (store_bytes mm ?e (m @ [0])) (?e + length m) True as =
        Some (store_bytes (store_bytes mm ?e (m @ [0])) (?e + length m) (c_eq # ?J @ [0]), ?e + length m + 1 + length ?J)"
      using fit assms(6) by (subst put_vals) auto
    also have "store_bytes (store_bytes mm ?e (m @ [0])) (?e + length m) (c_eq # ?J @ [0]) = store_bytes mm ?e (m @ c_eq # ?J @ [0])"
      by (rule store_append_over)
    finally have r: "setenv_append mm d name as =
        Some (Some ((store_bytes mm ?e (m @ c_eq # ?J @ [0]))(?e + length m + 1 + length ?J + 1 := 0)))"
      using False start cp by simp
    let ?mm = "(store_bytes mm ?e (m @ c_eq # ?J @ [0]))(?e + length m + 1 + length ?J + 1 := 0)"
    have "?mm = store_bytes mm ?e (entry (m, ?J) @ [0])"
      by (rule ext) (auto simp: store_bytes_def entry_def nth_append nth_Cons')
    moreover have "text_at (store_bytes mm ?e (entry (m, ?J) @ [0])) d ?E"
      using t by (subst text_at_frame [of _ _ _ mm]) (auto simp: store_bytes_def env_body_def split: if_splits)
    then have "env_holds (store_bytes mm ?e (entry (m, ?J) @ [0])) d (es @ [(m, ?J)])"
      using g assms(2-4) joined_no0 [OF assms(5)] text_at_store [of mm ?e "entry (m, ?J) @ [0]"]
      by (auto simp: env_holds_def env_body_def good_var_def str_outside_def str_at_def)
    moreover have "\<forall>x. x < d \<or> d + unat ENV_SIZE \<le> x \<longrightarrow> ?mm x = mm x" using fit by (auto simp: store_bytes_def)
    ultimately show ?thesis using r False by (auto simp: over_def)
  qed
qed

section \<open>Variables with an effect\<close>

lemma c_string: "str_at mm a n \<Longrightarrow> c_string mm a = Some (map (\<lambda>b. char_of (unat b)) n)"
  by (simp add: c_string_def str_end) (simp add: str_at_def text_at_load)

lemma strtoull_loop_rest: "length (snd (strtoull_loop r b cs)) \<le> length cs"
  by (induction r b cs rule: strtoull_loop.induct) auto

lemma strto_prefix_rest: "length (fst (strto_prefix cs b)) \<le> length cs"
  by (induction cs b rule: strto_prefix.induct) (auto split: list.splits char.splits bool.splits)

lemma simple_strtoull_rest: "simple_strtoull cs b = (v, rest) \<Longrightarrow> length rest \<le> length cs"
  using strto_prefix_rest [of cs b] strtoull_loop_rest [of 0 "snd (strto_prefix cs b)" "fst (strto_prefix cs b)"]
  by (auto simp: simple_strtoull_def Let_def case_prod_unfold)

lemma str_at_drop: "str_at mm a n \<Longrightarrow> k \<le> length n \<Longrightarrow> str_at mm (a + k) (drop k n)"
proof (induction n arbitrary: a k)
  case (Cons c n)
  then show ?case using Cons.IH [of "Suc a" "k - 1"] by (cases k) auto
qed simp

lemma ip_loop: "str_at mm s n \<Longrightarrow> \<exists>r. ip_loop k mm s addr = Some r"
proof (induction k arbitrary: s n addr)
  case (Suc k)
  obtain v rest where st: "simple_strtoull (map (\<lambda>b. char_of (unat b)) n) 10 = (v, rest)" by (cases "simple_strtoull (map (\<lambda>b. char_of (unat b)) n) 10")
  let ?j = "length n - length rest"
  have "str_at mm (s + ?j) (drop ?j n)" using Suc.prems by (rule str_at_drop) simp
  then have "str_at mm (if mm (s + ?j) \<noteq> 0 then s + ?j + 1 else s + ?j) (if mm (s + ?j) \<noteq> 0 then tl (drop ?j n) else drop ?j n)"
    by (cases "drop ?j n") auto
  then show ?case using Suc by (auto simp: c_string [OF Suc.prems] st Let_def)
qed simp

lemma copy_filename_loop:
  "\<exists>mm'. copy_filename_loop mm dst src sz = Some mm' \<and> (\<forall>x. x < dst \<or> dst + nat (max 1 sz) \<le> x \<longrightarrow> mm' x = mm x)"
proof (induction "nat sz" arbitrary: mm dst src sz rule: less_induct)
  case less
  show ?case
  proof (cases "1 < sz \<and> mm src \<noteq> 0 \<and> mm src \<noteq> 34")
    case False
    then have "copy_filename_loop mm dst src sz = Some (mm(dst := 0))" by (subst copy_filename_loop.simps) (auto simp: Let_def)
    then show ?thesis by auto
  next
    case True
    then obtain mm' where r: "copy_filename_loop (mm(dst := mm src)) (dst + 1) (src + 1) (sz - 1) = Some mm'"
      and f: "\<forall>x. x < dst + 1 \<or> dst + 1 + nat (max 1 (sz - 1)) \<le> x \<longrightarrow> mm' x = (mm(dst := mm src)) x"
      using less [of "sz - 1" "mm(dst := mm src)" "dst + 1" "src + 1"] by auto
    have "copy_filename_loop mm dst src sz = Some mm'" using True r by (subst copy_filename_loop.simps) (auto simp: Let_def)
    moreover have "mm' x = mm x" if "x < dst \<or> dst + nat (max 1 sz) \<le> x" for x
    proof -
      have "x < dst + 1 \<or> dst + 1 + nat (max 1 (sz - 1)) \<le> x" "x \<noteq> dst" using that True by auto
      then show ?thesis using f [rule_format, of x] by simp
    qed
    ultimately show ?thesis by auto
  qed
qed

lemma setenv_update:
  assumes "str_at (nv_ram s) (argv ! 2) v"
  shows "\<exists>s'. setenv_update cfg argv s = Some s' \<and>
    (\<forall>x. x < BootFile cfg \<or> BootFile cfg + 128 \<le> x \<longrightarrow> nv_ram s' x = nv_ram s x)"
proof -
  obtain r where ip: "ip_loop 4 (nv_ram s) (argv ! 2) 0 = Some r" using ip_loop [OF assms] by blast
  obtain mm' where f: "copy_filename (nv_ram s) (BootFile cfg) (argv ! 2) 128 = Some mm'"
      "\<forall>x. x < BootFile cfg \<or> BootFile cfg + 128 \<le> x \<longrightarrow> mm' x = nv_ram s x"
    using copy_filename_loop [of "nv_ram s" "BootFile cfg" "argv ! 2" 128] copy_filename_loop [of "nv_ram s" "BootFile cfg" "argv ! 2 + 1" 127]
    by (cases "nv_ram s (argv ! 2) = 34") (auto simp: copy_filename_def)
  show ?thesis using ip f c_string [OF assms] by (auto simp: setenv_update_def Let_def)
qed

lemma str_is: "str_at mm a n \<Longrightarrow> (0 :: u8) \<notin> of_char ` set lit \<Longrightarrow> str_is mm a lit \<longleftrightarrow> n = map of_char lit"
  by (induction lit arbitrary: a n) (case_tac n; auto)+


section \<open>The whole command\<close>

text \<open>The names that reach for the console or the serial line.\<close>

definition device_names :: "u8 list list" where
  "device_names = map (map of_char) [''stdin'', ''stdout'', ''stderr'', ''baudrate'']"

lemma not_device: "str_at mm a n \<Longrightarrow> n \<notin> set device_names \<Longrightarrow>
    \<not> str_is mm a ''stdin'' \<and> \<not> str_is mm a ''stdout'' \<and> \<not> str_is mm a ''stderr'' \<and> \<not> str_is mm a ''baudrate''"
  by (simp add: str_is device_names_def del: str_is.simps)

lemma del_var_notin: "m \<notin> fst ` set es \<Longrightarrow> del_var m es = es"
  unfolding del_var_def by (rule filter_True) force

lemma del_var_split: "distinct (map fst (as @ (m, v) # bs)) \<Longrightarrow> del_var m (as @ (m, v) # bs) = as @ bs"
  using del_var_notin [of m as] del_var_notin [of m bs] by (auto simp: del_var_def)

lemma del_var_not: "m \<notin> fst ` set (del_var m es)"
  by (auto simp: del_var_def)

lemma env_length_del: "env_length (del_var m es) \<le> env_length es"
proof -
  have "length (concat (map entry (del_var m es))) \<le> length (concat (map entry es))"
    by (induction es) (auto simp: del_var_def)
  moreover have "es \<noteq> [] \<Longrightarrow> 2 \<le> length (concat (map entry es))" by (cases es) auto
  ultimately show ?thesis by (auto simp: env_length_def env_body_def del_var_def)
qed

lemma setenv_prepare:
  assumes "gd_reloc gd" "env_holds (nv_ram s) (env_get_addr gd 0) es" "env_length es \<le> unat ENV_SIZE"
    and "str_at (nv_ram s) (argv ! 1) m" "c_eq \<notin> set m" "m \<notin> set device_names"
  shows "\<exists>k e n mm. setenv_find ef gd (nv_ram s) (argv ! 1) (env_get_addr gd 0) (env_get_addr gd 0) 0 (- 1) = Some (k, e, n) \<and>
    (if 0 \<le> k then do {
        (ok, s) \<leftarrow> setenv_baudrate cfg argv s;
        if \<not> ok then Some (False, s)
        else do {mm \<leftarrow> setenv_delete (nv_ram s) (env_get_addr gd 0) e n; Some (True, s\<lparr>nv_ram := mm\<rparr>)}}
     else Some (True, s)) = Some (True, s\<lparr>nv_ram := mm\<rparr>) \<and>
    env_holds mm (env_get_addr gd 0) (del_var m es) \<and>
    (\<forall>x. x < env_get_addr gd 0 \<or> env_get_addr gd 0 + unat ENV_SIZE \<le> x \<longrightarrow> mm x = nv_ram s x)"
proof -
  let ?d = "env_get_addr gd 0"
  have t: "text_at (nv_ram s) (?d + 0) (concat (map entry es) @ [0])" "\<forall>e \<in> set es. good_var e" "distinct (map fst es)"
    using env_body_ends [OF assms(2,3)] assms(2) by (auto simp: env_holds_def)
  have b: "setenv_baudrate cfg argv s = Some (True, s)"
    using not_device [OF assms(4,6)] by (simp add: setenv_baudrate_def del: str_is.simps)
  note find = setenv_find [OF assms(1,4,5) t(1,2), of ef 0]
  show ?thesis
  proof (cases "m \<in> fst ` set es")
    case False
    then obtain e n where "setenv_find ef gd (nv_ram s) (argv ! 1) ?d ?d 0 (- 1) = Some (- 1, e, n)" using find by auto
    then show ?thesis using del_var_notin [OF False] assms(2) by (intro exI [of _ "- 1"] exI [of _ e] exI [of _ n] exI [of _ "nv_ram s"]) simp
  next
    case True
    then obtain v as bs where es: "es = as @ (m, v) # bs" by (force dest: split_list)
    then have "m \<notin> fst ` set as" using t(3) by auto
    then obtain k where "setenv_find ef gd (nv_ram s) (argv ! 1) ?d (?d + 0) 0 (- 1) =
        Some (int k, ?d + 0 + length (concat (map entry as)), ?d + 0 + length (concat (map entry as)) + length m + 1 + length v)"
      using find es by blast
    then have "setenv_find ef gd (nv_ram s) (argv ! 1) ?d ?d 0 (- 1) =
        Some (int k, ?d + length (concat (map entry as)), ?d + length (concat (map entry as)) + length m + 1 + length v)" by simp
    moreover obtain mm where "setenv_delete (nv_ram s) ?d (?d + length (concat (map entry as)))
          (?d + length (concat (map entry as)) + length m + 1 + length v) = Some mm"
        "env_holds mm ?d (as @ bs)" "\<forall>x. x < ?d \<or> ?d + env_length es \<le> x \<longrightarrow> mm x = nv_ram s x"
      using setenv_delete [of "nv_ram s" ?d as m v bs] assms(2) unfolding es by auto
    moreover have "del_var m es = as @ bs" using t(3) unfolding es by (rule del_var_split)
    ultimately show ?thesis using b assms(3)
      by (intro exI [of _ "int k"] exI [of _ "?d + length (concat (map entry as))"]
          exI [of _ "?d + length (concat (map entry as)) + length m + 1 + length v"] exI [of _ mm]) simp
  qed
qed

lemma do_setenv:
  fixes s :: "'x nv_st"
  defines "hi gd \<equiv> env_get_addr gd 0 + unat ENV_SIZE"
  assumes "gd_reloc gd" "env_get_addr gd 0 \<noteq> 0" "env_holds (nv_ram s) (env_get_addr gd 0) es" "env_length es \<le> unat ENV_SIZE"
    and "str_outside (nv_ram s) (env_get_addr gd 0) (hi gd) (argv ! 1) m" "c_eq \<notin> set m" "m \<notin> set device_names"
    and "list_all2 (str_outside (nv_ram s) (env_get_addr gd 0) (hi gd)) (take (length vs) (drop 2 argv)) vs" "vs \<noteq> [] \<Longrightarrow> argv ! 2 \<noteq> 0"
    and "BootFile cfg + 128 \<le> env_get_addr gd 0 \<or> hi gd \<le> BootFile cfg"
  shows "\<exists>s'. do_setenv cfg ef gd (2 + length vs) argv s = Some (if env_length (set_var m vs es) \<le> unat ENV_SIZE then 0 else 1, s') \<and>
    env_holds (nv_ram s') (env_get_addr gd 0) (if env_length (set_var m vs es) \<le> unat ENV_SIZE then set_var m vs es else del_var m es) \<and>
    (\<forall>x. (x < env_get_addr gd 0 \<or> hi gd \<le> x) \<and> (x < BootFile cfg \<or> BootFile cfg + 128 \<le> x) \<longrightarrow> nv_ram s' x = nv_ram s x)"
proof -
  let ?d = "env_get_addr gd 0" let ?S = "s\<lparr>env_id := env_id s + 1\<rparr>"
  have m: "str_at (nv_ram ?S) (argv ! 1) m" using assms(6) by (simp add: str_outside_def)
  have con: "setenv_console cfg argc argv ?S = (True, ?S)" for argc
    using not_device [OF m assms(8)] by (simp add: setenv_console_def Let_def del: str_is.simps)
  obtain k e n mm where p: "setenv_find ef gd (nv_ram s) (argv ! 1) ?d ?d 0 (- 1) = Some (k, e, n)"
      "(if 0 \<le> k then do {
        (ok, s) \<leftarrow> setenv_baudrate cfg argv ?S;
        if \<not> ok then Some (False, s)
        else do {mm \<leftarrow> setenv_delete (nv_ram s) ?d e n; Some (True, s\<lparr>nv_ram := mm\<rparr>)}}
       else Some (True, ?S)) = Some (True, ?S\<lparr>nv_ram := mm\<rparr>)"
      "env_holds mm ?d (del_var m es)" "\<forall>x. x < ?d \<or> hi gd \<le> x \<longrightarrow> mm x = nv_ram s x"
    using setenv_prepare [OF assms(2), of ?S es argv m ef cfg] assms(4,5,7,8) m by (auto simp: hi_def)
  have start: "do_setenv cfg ef gd (2 + length vs) argv s =
      (if vs = [] \<or> argv ! 2 = 0 then Some (0, ?S\<lparr>nv_ram := mm\<rparr>)
       else do {
         r \<leftarrow> setenv_append mm ?d (argv ! 1) (take (length vs) (drop 2 argv));
         (case r of None \<Rightarrow> Some (1, ?S\<lparr>nv_ram := mm\<rparr>)
          | Some mm \<Rightarrow> do {s \<leftarrow> setenv_update cfg argv (?S\<lparr>nv_ram := mm\<rparr>); Some (0, s)})})"
    using assms(3,7) m p(1,2) by (simp add: do_setenv_def do_setenv_impl_def Let_def strchr con)
  show ?thesis
  proof (cases "vs = []")
    case True
    have "env_length (del_var m es) \<le> unat ENV_SIZE" using env_length_del assms(5) by (rule order_trans)
    then show ?thesis using start p(3,4) True by (auto simp: set_var_def hi_def)
  next
    case False
    let ?es = "del_var m es @ [(m, joined vs)]"
    have o: "str_outside mm ?d (?d + unat ENV_SIZE) (argv ! 1) m"
        "list_all2 (str_outside mm ?d (?d + unat ENV_SIZE)) (take (length vs) (drop 2 argv)) vs"
      using assms(6,9) p(4) unfolding hi_def by (auto intro: str_outside_frame [rotated] strs_outside_frame [rotated])
    obtain mm' where a: "setenv_append mm ?d (argv ! 1) (take (length vs) (drop 2 argv)) = Some (if env_length ?es \<le> unat ENV_SIZE then Some mm' else None)"
        "env_length ?es \<le> unat ENV_SIZE \<Longrightarrow> env_holds mm' ?d ?es" "env_length ?es \<le> unat ENV_SIZE \<Longrightarrow> x < ?d \<or> hi gd \<le> x \<Longrightarrow> mm' x = mm x" for x
      using setenv_append [OF p(3) o(1) assms(7) del_var_not o(2) False] by (auto simp: hi_def)
    show ?thesis
    proof (cases "env_length ?es \<le> unat ENV_SIZE")
      case False
      then show ?thesis using start p(3,4) \<open>vs \<noteq> []\<close> a(1) assms(10) by (auto simp: set_var_def)
    next
      case True
      obtain v vs' where v: "vs = v # vs'" using \<open>vs \<noteq> []\<close> by (cases vs) auto
      then have "2 < length argv" using list_all2_lengthD [OF assms(9)] by simp
      then have "str_outside mm ?d (hi gd) (argv ! 2) v"
        using o(2) unfolding v hi_def by (cases "drop 2 argv") (auto simp: Cons_nth_drop_Suc [symmetric])
      then have "str_outside mm' ?d (hi gd) (argv ! 2) v" by (intro str_outside_frame [OF a(3) [OF True]])
      then obtain s' where u: "setenv_update cfg argv (?S\<lparr>nv_ram := mm'\<rparr>) = Some s'"
          "\<forall>x. x < BootFile cfg \<or> BootFile cfg + 128 \<le> x \<longrightarrow> nv_ram s' x = mm' x"
        using setenv_update [of "?S\<lparr>nv_ram := mm'\<rparr>" argv v cfg] by (auto simp: str_outside_def)
      have "env_holds (nv_ram s') ?d ?es = env_holds mm' ?d ?es"
        unfolding env_holds_def using True u(2) assms(11)
        by (subst text_at_frame [of _ _ _ mm']) (auto simp: env_length_def hi_def)
      then show ?thesis using start \<open>vs \<noteq> []\<close> a True u p(4) assms(10) by (auto simp: set_var_def)
    qed
  qed
qed

lemma map_of_del: "map_of (del_var m es) = (map_of es)(m := None)"
  by (induction es) (auto simp: del_var_def fun_eq_iff)

lemma map_of_set: "map_of (set_var m vs es) = (map_of es)(m := if vs = [] then None else Some (joined vs))"
  by (auto simp: set_var_def map_of_del map_add_def fun_eq_iff split: option.splits)


lemma getenv_r_copy:
  assumes "gd_reloc gd"
  shows "str_at mm (env_get_addr gd 0 + i) v \<Longrightarrow>
      (\<And>x. env_get_addr gd 0 + i \<le> x \<Longrightarrow> x \<le> env_get_addr gd 0 + i + length v \<Longrightarrow> x < buf \<or> buf + (len - n) \<le> x) \<Longrightarrow> n \<le> len \<Longrightarrow>
    getenv_r_copy ef gd mm buf i n len =
      (let bs = take (len - n) (v @ [0]) in
       Some (store_bytes mm buf bs, buf + length bs, if len - n \<le> length v then len + 1 else n + length v + 1))"
proof (induction v arbitrary: mm i buf n)
  case Nil
  then show ?case
    by (cases "n < len"; subst getenv_r_copy.simps)
      (auto simp: env_get_char_addr [OF assms] fun_eq_iff store_bytes_def Let_def Suc_diff_Suc take_Cons' split: nat.splits)
next
  case (Cons c v)
  let ?d = "env_get_addr gd 0" let ?mm = "mm(buf := c)"
  show ?case
  proof (cases "n < len")
    case False
    then show ?thesis using Cons.prems(3) by (subst getenv_r_copy.simps) simp
  next
    case True
    have o: "x < buf \<or> buf + (len - n) \<le> x" if "?d + i \<le> x" "x \<le> ?d + i + length (c # v)" for x using Cons.prems(2) that by auto
    have "str_at ?mm (?d + (i + 1)) v = str_at mm (?d + (i + 1)) v"
    proof (rule str_at_frame)
      fix x assume "?d + (i + 1) \<le> x" "x \<le> ?d + (i + 1) + length v"
      then have "x \<noteq> buf" using o [of x] True by auto
      then show "?mm x = mm x" by simp
    qed
    then have s: "str_at ?mm (?d + (i + 1)) v" using Cons.prems(1) by simp
    have l: "len - n = Suc (len - (n + 1))" using True by simp
    have "getenv_r_copy ef gd ?mm (buf + 1) (i + 1) (n + 1) len = (let bs = take (len - (n + 1)) (v @ [0]) in
       Some (store_bytes ?mm (buf + 1) bs, buf + 1 + length bs, if len - (n + 1) \<le> length v then len + 1 else n + 1 + length v + 1))"
    proof (rule Cons.IH [OF s])
      fix x assume "?d + (i + 1) \<le> x" "x \<le> ?d + (i + 1) + length v"
      then show "x < buf + 1 \<or> buf + 1 + (len - (n + 1)) \<le> x" using o [of x] l by auto
    qed (use True in simp)
    then show ?thesis using Cons.prems(1) True
      by (subst getenv_r_copy.simps) (simp add: env_get_char_addr [OF assms] l Let_def store_bytes_Cons)
  qed
qed


lemma getenv_r_found:
  assumes "gd_reloc gd" "getenv_loop ef gd mm q 0 = Some (int k)" "str_at mm (env_get_addr gd 0 + k) v"
    and "buf + unat len \<le> env_get_addr gd 0 + k \<or> env_get_addr gd 0 + k + length v < buf"
  shows "getenv_r ef gd mm q buf len = Some (int (min (length v) (unat len)) + 1,
    store_bytes mm buf (if unat len \<le> length v then take (unat len) v else if unat len = length v + 1 then v @ [0, 0] else v @ [0]))"
proof -
  have "getenv_r_copy ef gd mm buf k 0 (unat len) = (let bs = take (unat len) (v @ [0]) in
       Some (store_bytes mm buf bs, buf + length bs, if unat len \<le> length v then unat len + 1 else length v + 1))"
    using getenv_r_copy [OF assms(1,3), of buf "unat len" 0 ef] assms(4) by auto
  moreover have "(store_bytes mm buf (v @ [0]))(buf + length (v @ [0]) := 0) = store_bytes mm buf (v @ [0, 0])"
    by (rule ext) (auto simp: store_bytes_def nth_append nth_Cons')
  moreover have "unat len = length v + 1 \<Longrightarrow> uint len = int (length v) + 1"
  proof -
    assume "unat len = length v + 1"
    moreover have "uint len = int (unat len)" by simp
    ultimately show ?thesis by linarith
  qed
  ultimately show ?thesis using assms(2) by (auto simp: getenv_r_def Let_def)
qed

section \<open>Properties\<close>

text \<open>
  C17: The variables are a map: after \<open>setenv name value ...\<close> the name has the values, with a space between them, after \<open>setenv name\<close> it has
  none, and every other name has what it had, as \<open>getenv\<close> finds it.  When there is no room the command returns 1, and the old value is
  gone.  The names \<open>stdin\<close>, \<open>stdout\<close>, \<open>stderr\<close> and \<open>baudrate\<close>, for which the command turns to devices, are excluded.
\<close>

theorem setenv_getenv:
  assumes "gd_reloc gd" "env_get_addr gd 0 \<noteq> 0" "env_holds (nv_ram s) (env_get_addr gd 0) es" "env_length es \<le> unat ENV_SIZE"
    and "hi = env_get_addr gd 0 + unat ENV_SIZE" "BootFile cfg + 128 \<le> env_get_addr gd 0 \<or> hi \<le> BootFile cfg"
    and "str_outside (nv_ram s) (env_get_addr gd 0) hi (argv ! 1) m" "c_eq \<notin> set m" "m \<notin> set device_names"
    and "list_all2 (str_outside (nv_ram s) (env_get_addr gd 0) hi) (take (length vs) (drop 2 argv)) vs" "vs \<noteq> [] \<Longrightarrow> argv ! 2 \<noteq> 0"
    and "str_outside (nv_ram s) (env_get_addr gd 0) hi q n" "q + length n < BootFile cfg \<or> BootFile cfg + 128 \<le> q" "c_eq \<notin> set n"
  shows "\<exists>r s'. do_setenv cfg ef gd (2 + length vs) argv s = Some (r, s') \<and>
    r = (if env_length (set_var m vs es) \<le> unat ENV_SIZE then 0 else 1) \<and>
    env_holds (nv_ram s') (env_get_addr gd 0) (if r = 0 then set_var m vs es else del_var m es) \<and>
    (case ((map_of es)(m := if r = 0 \<and> vs \<noteq> [] then Some (joined vs) else None)) n of
       None \<Rightarrow> getenv ef gd (nv_ram s') q = Some 0
     | Some v \<Rightarrow> \<exists>a. getenv ef gd (nv_ram s') q = Some a \<and> a \<noteq> 0 \<and> str_at (nv_ram s') a v)"
proof -
  let ?d = "env_get_addr gd 0" let ?fits = "env_length (set_var m vs es) \<le> unat ENV_SIZE"
  let ?es = "if ?fits then set_var m vs es else del_var m es"
  obtain s' where s': "do_setenv cfg ef gd (2 + length vs) argv s = Some (if ?fits then 0 else 1, s')"
      "env_holds (nv_ram s') ?d ?es"
      "\<forall>x. (x < ?d \<or> hi \<le> x) \<and> (x < BootFile cfg \<or> BootFile cfg + 128 \<le> x) \<longrightarrow> nv_ram s' x = nv_ram s x"
    using do_setenv [of gd s es argv m vs cfg ef] assms by blast
  have q: "str_at (nv_ram s') q n"
    using assms(12,13) s'(3) by (subst str_at_frame [of _ _ _ "nv_ram s"]) (auto simp: str_outside_def)
  have l: "env_length ?es \<le> unat ENV_SIZE" using env_length_del [of m es] assms(4) by auto
  have "map_of ?es = (map_of es)(m := if ?fits \<and> vs \<noteq> [] then Some (joined vs) else None)"
    by (auto simp: map_of_del map_of_set)
  then show ?thesis
    using getenv [OF assms(1) q assms(14) s'(2) l assms(2), of ef] s'(1,2) by (auto split: if_splits)
qed

definition nv_mem :: memory where
  "nv_mem = (\<lambda>a. if a = 0x10 then 97 else if a = 0x20 then 98 else 0)"

definition nv_gd :: env_gd where
  "nv_gd = \<lparr>env_ptr = 0xFFC, env_addr = 0x1000, env_valid = 1, gd_reloc = True, default_env = 0, default_len = 0\<rparr>"

definition nv_sim :: "unit nv_st" where
  "nv_sim = \<lparr>nv_ram = nv_mem, env_id = 1, gd_baudrate = 115200, bi_ip_addr = 0, load_addr = 0, nv_out = [], nv_dev = ()\<rparr>"

definition nv_sim_cfg :: "unit nv_cfg" where
  "nv_sim_cfg = \<lparr>nv_console_assign = \<lambda>f mm a x. (0, x), nv_serial_setbrg = \<lambda>b x. x, nv_getc = \<lambda>x. (13, x), nv_ctrlc = \<lambda>x. (False, x),
     BootFile = 0x800\<rparr>"

lemma setenv_getenv_witness:
  "\<exists>r s'. do_setenv nv_sim_cfg (None :: unit env_common_func_t option) nv_gd (2 + length [[98 :: u8]]) [0, 0x10, 0x20, 0] nv_sim = Some (r, s') \<and>
    r = (if env_length (set_var [97] [[98 :: u8]] []) \<le> unat ENV_SIZE then 0 else 1) \<and>
    env_holds (nv_ram s') (env_get_addr nv_gd 0) (if r = 0 then set_var [97] [[98 :: u8]] [] else del_var [97] []) \<and>
    (case ((map_of [])([97 :: u8] := if r = 0 \<and> [[98 :: u8]] \<noteq> [] then Some (joined [[98 :: u8]]) else None)) [97] of
       None \<Rightarrow> getenv (None :: unit env_common_func_t option) nv_gd (nv_ram s') 0x10 = Some 0
     | Some v \<Rightarrow> \<exists>a. getenv (None :: unit env_common_func_t option) nv_gd (nv_ram s') 0x10 = Some a \<and> a \<noteq> 0 \<and> str_at (nv_ram s') a v)"
  by (rule setenv_getenv [where hi = "0x1000 + unat ENV_SIZE"])
    (auto simp: nv_sim_def nv_gd_def nv_sim_cfg_def nv_mem_def env_get_addr_def env_holds_def env_body_def env_length_def str_outside_def
      device_names_def ENV_SIZE_def CONFIG_ENV_SIZE_def ENV_HEADER_SIZE_def)

text \<open>
  C35: \<open>getenv_r\<close> copies a value into a buffer of \<open>len\<close> bytes: a value of exactly \<open>len - 1\<close> characters is followed by a second zero, one
  byte behind the buffer; a longer one is cut off without a zero, and the length returned is one more than what was copied.
\<close>

theorem getenv_r_bounds:
  assumes "gd_reloc gd" "str_at mm q n" "c_eq \<notin> set n" "env_holds mm (env_get_addr gd 0) es" "env_length es \<le> unat ENV_SIZE"
    and "buf + unat len \<le> env_get_addr gd 0 \<or> env_get_addr gd 0 + unat ENV_SIZE \<le> buf"
  shows "getenv_r ef gd mm q buf len =
    (case map_of es n of None \<Rightarrow> Some (- 1, mm)
     | Some v \<Rightarrow> Some (int (min (length v) (unat len)) + 1,
         store_bytes mm buf (if unat len \<le> length v then take (unat len) v else if unat len = length v + 1 then v @ [0, 0] else v @ [0])))"
proof (cases "map_of es n")
  case None
  then show ?thesis using getenv_loop_holds [OF assms(1-5), of ef] by (simp add: getenv_r_def)
next
  case (Some v)
  then obtain k where k: "getenv_loop ef gd mm q 0 = Some (int k)" "str_at mm (env_get_addr gd 0 + k) v" "k + length v < unat ENV_SIZE"
    using getenv_loop_holds [OF assms(1-5), of ef] by auto
  then show ?thesis using Some assms(6) getenv_r_found [OF assms(1) k(1,2), of buf len] by auto
qed


definition nv_mem' :: memory where
  "nv_mem' = store_bytes nv_mem 0x1000 [97, 61, 98, 99, 0, 0]"

lemma getenv_r_bounds_witness:
  "getenv_r (None :: unit env_common_func_t option) nv_gd nv_mem' 0x10 0x100 3 = Some (3, store_bytes nv_mem' 0x100 [98, 99, 0, 0])"
proof -
  have "env_holds nv_mem' (env_get_addr nv_gd 0) [([97], [98, 99])]"
    using text_at_store [of nv_mem "0x1000" "[97, 61, 98, 99, 0, 0]"]
    by (simp add: nv_gd_def env_get_addr_def env_holds_def env_body_def entry_def good_var_def flip: nv_mem'_def)
  moreover have "str_at nv_mem' 0x10 [97]" by (simp add: nv_mem'_def nv_mem_def store_bytes_def)
  ultimately show ?thesis
    by (subst getenv_r_bounds [where n = "[97]" and es = "[([97], [98, 99])]"])
      (simp_all add: nv_gd_def env_get_addr_def env_length_def env_body_def ENV_SIZE_def CONFIG_ENV_SIZE_def ENV_HEADER_SIZE_def)
qed

end
