(* ===== verification/NvStack.thy ===== *)
theory NvStack
  imports EnvProps NvProps
begin

text \<open>
  The variables from the command that sets them to the flash and back.
\<close>

lemma env_relocate_reloc: "env_relocate ef p gd s = Some (gd', s') \<Longrightarrow> gd_reloc gd' = gd_reloc gd"
  by (auto simp: env_relocate_def set_default_env_def Let_def split: if_splits Option.bind_splits)

text \<open>
  C16: Variables survive a restart: when the area in memory holds a list of variables, then after \<open>saveenv\<close> and the loading at the
  next start, \<open>getenv\<close> finds in the new memory each of them with its value, and no other.  As in \<open>env_save_load\<close>, nothing fails on the
  chip, and the blocks of the area are good.
\<close>

theorem variables_persist:
  assumes "hinfc_reliable c base oob con up reg cells failed busy hz d sm priv" "hinfc_ready up base oob con d s"
    and "unat (erasesize d) dvd 0xC0000" "0xC0000 + max (unat (erasesize d)) 0x20000 \<le> unat (mtd_size d)" "unat (writesize d) dvd 0x20000"
    and "\<forall>x \<in> {0xC0000 ..< 0xE0000}. \<not> hinfc_bad cells d s (x div unat (erasesize d))"
    and "{env_ptr gd ..< env_ptr gd + 0x20000} \<inter> priv = {}" "{p ..< p + 0x20000} \<inter> priv = {}" "{marker ..< marker + 8} \<subseteq> priv"
    and "ef = Some (nand_env_cmn_func (hinfc_mtd sm c hz d) marker)"
    and "env_holds (ram s) (env_data (env_ptr gd)) es" "env_length es \<le> unat ENV_SIZE"
  shows "\<exists>s1. do_saveenv ef gd s = Some (0, s1) \<and>
    (\<forall>s2 gd2. hinfc_ready up base oob con d s2 \<and> hinfc_flash cells d s2 = hinfc_flash cells d s1 \<and> hinfc_bad cells d s2 = hinfc_bad cells d s1 \<and>
        env_valid gd2 \<noteq> 0 \<and> gd_reloc gd2 \<longrightarrow>
      (\<exists>gd3 s3. env_relocate ef p gd2 s2 = Some (gd3, s3) \<and> env_holds (ram s3) (env_get_addr gd3 0) es \<and>
        (\<forall>q n. str_at (ram s3) q n \<and> c_eq \<notin> set n \<longrightarrow>
          (case map_of es n of None \<Rightarrow> getenv ef gd3 (ram s3) q = Some 0
           | Some v \<Rightarrow> \<exists>a. getenv ef gd3 (ram s3) q = Some a \<and> a \<noteq> 0 \<and> str_at (ram s3) a v))))"
proof -
  have "\<exists>gd3 s3. env_relocate ef p gd2 s2 = Some (gd3, s3) \<and> env_holds (ram s3) (env_get_addr gd3 0) es \<and>
        (\<forall>q n. str_at (ram s3) q n \<and> c_eq \<notin> set n \<longrightarrow>
          (case map_of es n of None \<Rightarrow> getenv ef gd3 (ram s3) q = Some 0
           | Some v \<Rightarrow> \<exists>a. getenv ef gd3 (ram s3) q = Some a \<and> a \<noteq> 0 \<and> str_at (ram s3) a v))"
    if r: "env_relocate ef p gd2 s2 = Some (gd3, s3)" "env_addr gd3 = env_data p" "env_valid gd3 \<noteq> 0" "gd_reloc gd2"
      "load_bytes (ram s3) (env_data p) (unat ENV_SIZE) = load_bytes (ram s) (env_data (env_ptr gd)) (unat ENV_SIZE)"
    for gd2 s2 gd3 s3
  proof -
    have d: "env_get_addr gd3 0 = env_data p" using r(2,3) by (simp add: env_get_addr_def)
    have "text_at (ram s3) (env_data p) (env_body es @ [0]) = text_at (ram s) (env_data (env_ptr gd)) (env_body es @ [0])"
    proof -
      have "take (env_length es) (load_bytes (ram s3) (env_data p) (unat ENV_SIZE)) =
          take (env_length es) (load_bytes (ram s) (env_data (env_ptr gd)) (unat ENV_SIZE))" using r(5) by simp
      then show ?thesis by (simp only: take_load_bytes [OF assms(12)]) (simp add: text_at_load env_length_def del: text_at_append)
    qed
    then have h: "env_holds (ram s3) (env_get_addr gd3 0) es" using assms(11) unfolding d env_holds_def by blast
    then show ?thesis using r(1) getenv [OF _ _ _ h assms(12), of _ _ ef] env_relocate_reloc [OF r(1)] r(4) d
      by (intro exI [of _ gd3] exI [of _ s3]) auto
  qed
  note relocated = this
  obtain s1 where s1: "do_saveenv ef gd s = Some (0, s1)"
      "\<forall>s2 gd2. hinfc_ready up base oob con d s2 \<and> hinfc_flash cells d s2 = hinfc_flash cells d s1 \<and> hinfc_bad cells d s2 = hinfc_bad cells d s1 \<and>
        env_valid gd2 \<noteq> 0 \<longrightarrow>
      (\<exists>gd3 s3. env_relocate ef p gd2 s2 = Some (gd3, s3) \<and> env_addr gd3 = env_data p \<and> env_valid gd3 \<noteq> 0 \<and>
        load_bytes (ram s3) (env_data p) (unat ENV_SIZE) = load_bytes (ram s) (env_data (env_ptr gd)) (unat ENV_SIZE))"
    using save_load [OF assms(1-10)] by blast
  show ?thesis using s1 relocated by meson
qed


definition sim_vars :: "nfc_sim hinfc_host nand_st" where
  "sim_vars = sim_state\<lparr>ram := store_bytes (\<lambda>_. 0) 0x800004 [97, 61, 98, 99, 0, 0]\<rparr>"

lemma sim_vars_ready: "hinfc_ready sim_up sim_base sim_oob sim_con sim_chip sim_vars"
  using sim_ready by (simp add: hinfc_ready_def sim_vars_def)

lemma sim_vars_area: "\<forall>x \<in> {0xC0000 ..< 0xE0000}. \<not> hinfc_bad sim_cells sim_chip sim_vars (x div unat (erasesize sim_chip))"
  using sim_area by (simp add: hinfc_bad_def sim_vars_def cong: option.case_cong)

lemma sim_vars_hold: "env_holds (ram sim_vars) (env_data (env_ptr sim_gd)) [([97], [98, 99])]"
  by (simp add: sim_vars_def sim_gd_def env_holds_def env_body_def entry_def good_var_def store_bytes_def)

lemma variables_persist_witness:
  "\<exists>s1. do_saveenv (Some (nand_env_cmn_func (hinfc_mtd sim_mem sim_cfg 1000 sim_chip) 0x1080)) sim_gd sim_vars = Some (0, s1) \<and>
    (\<forall>s2 gd2. hinfc_ready sim_up sim_base sim_oob sim_con sim_chip s2 \<and> hinfc_flash sim_cells sim_chip s2 = hinfc_flash sim_cells sim_chip s1 \<and>
        hinfc_bad sim_cells sim_chip s2 = hinfc_bad sim_cells sim_chip s1 \<and> env_valid gd2 \<noteq> 0 \<and> gd_reloc gd2 \<longrightarrow>
      (\<exists>gd3 s3. env_relocate (Some (nand_env_cmn_func (hinfc_mtd sim_mem sim_cfg 1000 sim_chip) 0x1080)) 0x900000 gd2 s2 = Some (gd3, s3) \<and>
        env_holds (ram s3) (env_get_addr gd3 0) [([97], [98, 99])] \<and>
        (\<forall>q n. str_at (ram s3) q n \<and> c_eq \<notin> set n \<longrightarrow>
          (case map_of [([97], [98, 99])] n of
             None \<Rightarrow> getenv (Some (nand_env_cmn_func (hinfc_mtd sim_mem sim_cfg 1000 sim_chip) 0x1080)) gd3 (ram s3) q = Some 0
           | Some v \<Rightarrow> \<exists>a. getenv (Some (nand_env_cmn_func (hinfc_mtd sim_mem sim_cfg 1000 sim_chip) 0x1080)) gd3 (ram s3) q = Some a \<and>
               a \<noteq> 0 \<and> str_at (ram s3) a v))))"
  by (rule variables_persist [OF sim.hinfc_reliable_axioms sim_vars_ready _ _ _ sim_vars_area _ _ _ refl sim_vars_hold])
    (auto simp: sim_sizes sim_gd_def env_length_def env_body_def ENV_SIZE_def CONFIG_ENV_SIZE_def ENV_HEADER_SIZE_def)

end
