(* ===== verification/HinfcRetry.thy ===== *)
theory HinfcRetry
  imports Hinfc610 NandLogif
begin

text \<open>
  What the driver of the controller V610 does to a chip of a certain maker: the settings with which a page that cannot be corrected is read
  again (\<open>hinfc610_read_retry.c\<close>, \<open>hinfc610_read_retry_*.c\<close>), where these settings are kept (\<open>hinfc610_nand_rr_param_init\<close> of
  \<open>hinfc610.c\<close>), and the synchronous mode (\<open>hinfc610_sync*.c\<close>).

  \<open>char\<close> is unsigned on this processor.  The functions write to registers and to the window of the controller's memory, which is
  \<open>io_mem\<close>; they never look into \<open>hinfc_cfg\<close> but for the controller.
\<close>

section \<open>Operations\<close>

abbreviation (input) HINFC610_OP_WRITE_DATA_EN :: u32 where "HINFC610_OP_WRITE_DATA_EN \<equiv> 0x10"

text \<open>The macros \<open>HINFC610_READ_*\<close> and \<open>HINFC610_WRITE_*\<close>, by the number of command and address bytes.\<close>

definition READ_1CMD_1ADD_DATA :: "'c hinfc_host \<Rightarrow> u32" where
  "READ_1CMD_1ADD_DATA h = HINFC610_OP_CMD1_EN OR HINFC610_OP_ADDR_EN OR HINFC610_OP_READ_DATA_EN OR OP_cs h OR push_bit 9 1"

definition READ_2CMD_5ADD :: "'c hinfc_host \<Rightarrow> u32" where
  "READ_2CMD_5ADD h = HINFC610_OP_CMD1_EN OR HINFC610_OP_CMD2_EN OR HINFC610_OP_ADDR_EN OR HINFC610_OP_READ_DATA_EN OR
     HINFC610_OP_WAIT_READY_EN OR OP_cs h OR push_bit 9 5"

definition WRITE_0CMD_1ADD_DATA :: "'c hinfc_host \<Rightarrow> u32" where
  "WRITE_0CMD_1ADD_DATA h = HINFC610_OP_ADDR_EN OR HINFC610_OP_WRITE_DATA_EN OR OP_cs h OR push_bit 9 1"

definition WRITE_1CMD_1ADD_DATA :: "'c hinfc_host \<Rightarrow> u32" where
  "WRITE_1CMD_1ADD_DATA h = HINFC610_OP_CMD1_EN OR HINFC610_OP_ADDR_EN OR HINFC610_OP_WRITE_DATA_EN OR OP_cs h OR push_bit 9 1"

definition WRITE_1CMD_2ADD_DATA :: "'c hinfc_host \<Rightarrow> u32" where
  "WRITE_1CMD_2ADD_DATA h = HINFC610_OP_CMD1_EN OR HINFC610_OP_ADDR_EN OR HINFC610_OP_WRITE_DATA_EN OR OP_cs h OR push_bit 9 2"

definition WRITE_2CMD_0ADD_NODATA :: "'c hinfc_host \<Rightarrow> u32" where
  "WRITE_2CMD_0ADD_NODATA h = HINFC610_OP_CMD1_EN OR HINFC610_OP_CMD2_EN OR OP_cs h"

definition WRITE_1CMD_0ADD_NODATA :: "'c hinfc_host \<Rightarrow> u32" where
  "WRITE_1CMD_0ADD_NODATA h = HINFC610_OP_CMD1_EN OR OP_cs h"

text \<open>The variants \<open>_SYNC\<close>, taken in the synchronous mode.\<close>

definition if_sync :: "u32 \<Rightarrow> 'c hinfc_host \<Rightarrow> u32" where
  "if_sync op h = (if HINFC610_IS_SYNC h then op OR HINFC610_OP_RW_REG_EN else op)"

definition HINFC_CMD_SEQ :: "u32 \<Rightarrow> u32 \<Rightarrow> u32" where
  "HINFC_CMD_SEQ a b = (a AND 0xFF) OR push_bit 8 (b AND 0xFF)"

text \<open>\<open>writel\<close> and \<open>readl\<close> on the window, and \<open>memset\<close>.\<close>

definition io_writel :: "u32 \<Rightarrow> 'c hinfc_host \<Rightarrow> 'c hinfc_host" where
  "io_writel v h = h\<lparr>bus := (bus h)\<lparr>io_mem := store_u32 (io_mem (bus h)) 0 v\<rparr>\<rparr>"

definition io_readl :: "'c hinfc_host \<Rightarrow> u32" where
  "io_readl h = load_u32 (io_mem (bus h)) 0"

definition io_blank :: "nat \<Rightarrow> 'c hinfc_host \<Rightarrow> 'c hinfc_host" where
  "io_blank n h = h\<lparr>bus := (bus h)\<lparr>io_mem := fill_bytes (io_mem (bus h)) 0 0xff n\<rparr>\<rparr>"

text \<open>The start of an operation and the wait for its end; a command alone; data to an address, without and with a command.\<close>

definition run_op :: "'c hinfc_cfg \<Rightarrow> u32 \<Rightarrow> 'c hinfc_host \<Rightarrow> 'c hinfc_host" where
  "run_op c op h = WAIT_CONTROLLER_FINISH c (hinfc_write c op HINFC610_OP h)"

definition send_cmd :: "'c hinfc_cfg \<Rightarrow> u32 \<Rightarrow> u32 \<Rightarrow> 'c hinfc_host \<Rightarrow> 'c hinfc_host" where
  "send_cmd c cmd op h = run_op c op (hinfc_write c cmd HINFC610_CMD h)"

definition send_data :: "'c hinfc_cfg \<Rightarrow> u32 \<Rightarrow> u32 \<times> u32 \<Rightarrow> 'c hinfc_host \<Rightarrow> 'c hinfc_host" where
  "send_data c op av h = run_op c op (hinfc_write c (fst av) HINFC610_ADDRL (io_writel (snd av) h))"

definition send_cmd_data :: "'c hinfc_cfg \<Rightarrow> u32 \<Rightarrow> u32 \<Rightarrow> u32 \<times> u32 \<Rightarrow> 'c hinfc_host \<Rightarrow> 'c hinfc_host" where
  "send_cmd_data c cmd op av h = send_cmd c cmd op (hinfc_write c (fst av) HINFC610_ADDRL (io_writel (snd av) h))"

section \<open>Micron\<close>

definition hinfc610_micron_set_rr_reg :: "'c hinfc_cfg \<Rightarrow> nat \<Rightarrow> 'c hinfc_host \<Rightarrow> int \<times> 'c hinfc_host" where
  "hinfc610_micron_set_rr_reg c rr h =
     (let h = hinfc610_enable_ecc_randomizer c False False h;
          h = hinfc_write c 1 HINFC610_DATA_NUM h;
          h = send_cmd_data c 0xEF (if_sync (WRITE_1CMD_1ADD_DATA h OR HINFC610_OP_WAIT_READY_EN) h) (0x89, word_of_nat rr) h
      in (0, hinfc610_enable_ecc_randomizer c True True h))"

definition hinfc610_micron_read_retry :: "'c hinfc_cfg \<Rightarrow> 'c read_retry_t" where
  "hinfc610_micron_read_retry c =
     \<lparr>retry_type = 0x20, rr_count = 8, set_rr_param = hinfc610_micron_set_rr_reg c, get_rr_param = None,
      reset_rr_param = hinfc610_micron_set_rr_reg c 0, enable_enhanced_slc = None\<rparr>"

section \<open>Samsung\<close>

definition samsung_rr_params :: "u32 list list" where
  "samsung_rr_params =
     [[0x00, 0x00, 0x00, 0x00], [0x05, 0x0A, 0x00, 0x00], [0x28, 0x00, 0xEC, 0xD8], [0xED, 0xF5, 0xED, 0xE6],
      [0x0A, 0x0F, 0x05, 0x00], [0x0F, 0x0A, 0xFB, 0xEC], [0xE8, 0xEF, 0xE8, 0xDC], [0xF1, 0xFB, 0xFE, 0xF0],
      [0x0A, 0x00, 0xFB, 0xEC], [0xD0, 0xE2, 0xD0, 0xC2], [0x14, 0x0F, 0xFB, 0xEC], [0xE8, 0xFB, 0xE8, 0xDC],
      [0x1E, 0x14, 0xFB, 0xEC], [0xFB, 0xFF, 0xFB, 0xF8], [0x07, 0x0C, 0x02, 0x00]]"

definition hinfc610_samsung_set_rr_reg :: "'c hinfc_cfg \<Rightarrow> nat \<Rightarrow> 'c hinfc_host \<Rightarrow> int \<times> 'c hinfc_host" where
  "hinfc610_samsung_set_rr_reg c param h =
     (let row = samsung_rr_params ! (if 15 \<le> param then param mod 15 else param);
          h = hinfc610_enable_ecc_randomizer c False False h;
          op = if_sync (WRITE_1CMD_2ADD_DATA h) h;
          h = hinfc_write c 1 HINFC610_DATA_NUM h;
          h = fold (send_cmd_data c 0xA1 op) (zip [0xA700, 0xA400, 0xA500, 0xA600] row) h
      in (0, hinfc610_enable_ecc_randomizer c True True h))"

definition hinfc610_samsung_read_retry :: "'c hinfc_cfg \<Rightarrow> 'c read_retry_t" where
  "hinfc610_samsung_read_retry c =
     \<lparr>retry_type = 0x30, rr_count = 15, set_rr_param = hinfc610_samsung_set_rr_reg c, get_rr_param = None,
      reset_rr_param = hinfc610_samsung_set_rr_reg c 0, enable_enhanced_slc = None\<rparr>"

section \<open>Toshiba 24 nm\<close>

definition toshiba_24nm_rr_param :: "u32 list" where
  "toshiba_24nm_rr_param = [0x00, 0x04, 0x7c, 0x78, 0x74, 0x08]"

definition hinfc610_toshiba_24nm_set_rr_reg :: "'c hinfc_cfg \<Rightarrow> nat \<Rightarrow> 'c hinfc_host \<Rightarrow> int \<times> 'c hinfc_host" where
  "hinfc610_toshiba_24nm_set_rr_reg c param h =
     (if param = 0 then (0, hinfc610_send_cmd_reset c h)
      else let v = toshiba_24nm_rr_param ! (if 6 \<le> param then param mod 6 else param);
               op = if_sync (WRITE_1CMD_1ADD_DATA h) h;
               h = hinfc_write c 1 HINFC610_DATA_NUM h
           in (0, fold (send_cmd_data c 0x55 op) (map (\<lambda>a. (a, v)) [0x4, 0x5, 0x6, 0x7]) h))"

definition hinfc610_toshiba_24nm_set_rr_param :: "'c hinfc_cfg \<Rightarrow> nat \<Rightarrow> 'c hinfc_host \<Rightarrow> int \<times> 'c hinfc_host" where
  "hinfc610_toshiba_24nm_set_rr_param c param h =
     (let (regval, h) = hinfc_read c HINFC610_PWIDTH h;
          h = hinfc_write c 0xFFF HINFC610_PWIDTH h;
          h = hinfc610_enable_ecc_randomizer c False False h;
          op = if_sync (WRITE_2CMD_0ADD_NODATA h) h;
          h = send_cmd c (HINFC_CMD_SEQ 0x5C 0xC5) op h;
          h = snd (hinfc610_toshiba_24nm_set_rr_reg c param h);
          h = send_cmd c (HINFC_CMD_SEQ 0x26 0x5D) op h;
          h = hinfc610_enable_ecc_randomizer c True True h
      in (0, hinfc_write c regval HINFC610_PWIDTH h))"

definition hinfc610_toshiba_24nm_read_retry :: "'c hinfc_cfg \<Rightarrow> 'c read_retry_t" where
  "hinfc610_toshiba_24nm_read_retry c =
     \<lparr>retry_type = 0x40, rr_count = 6, set_rr_param = hinfc610_toshiba_24nm_set_rr_param c, get_rr_param = None,
      reset_rr_param = hinfc610_toshiba_24nm_set_rr_reg c 0, enable_enhanced_slc = None\<rparr>"

section \<open>Toshiba 19 nm\<close>

definition toshiba_19nm_rr_param :: "u32 list list" where
  "toshiba_19nm_rr_param =
     [[0x00, 0x00, 0x00, 0x00, 0x00], [0x04, 0x04, 0x7c, 0x7e, 0x00], [0x00, 0x7c, 0x78, 0x78, 0x00], [0x7c, 0x76, 0x74, 0x72, 0x00],
      [0x08, 0x08, 0x00, 0x00, 0x00], [0x0b, 0x7e, 0x76, 0x74, 0x00], [0x10, 0x76, 0x72, 0x70, 0x00], [0x02, 0x7c, 0x7e, 0x70, 0x00]]"

definition hinfc610_toshiba_19nm_set_rr_reg :: "'c hinfc_cfg \<Rightarrow> nat \<Rightarrow> 'c hinfc_host \<Rightarrow> int \<times> 'c hinfc_host" where
  "hinfc610_toshiba_19nm_set_rr_reg c param h =
     (let row = toshiba_19nm_rr_param ! (if 7 < param then param mod 7 else param);
          op = if_sync (WRITE_1CMD_1ADD_DATA h) h;
          h = hinfc_write c 1 HINFC610_DATA_NUM h
      in (0, fold (send_cmd_data c 0x55 op) (zip [0x4, 0x5, 0x6, 0x7, 0xd] row) h))"

definition set_entry_rr_flag :: "bool \<Rightarrow> 'c hinfc_host \<Rightarrow> 'c hinfc_host" where
  "set_entry_rr_flag b h = h\<lparr>host_rr := (host_rr h)\<lparr>entry_rr_flag := b\<rparr>\<rparr>"

definition hinfc610_toshiba_19nm_set_rr_param :: "'c hinfc_cfg \<Rightarrow> nat \<Rightarrow> 'c hinfc_host \<Rightarrow> int \<times> 'c hinfc_host" where
  "hinfc610_toshiba_19nm_set_rr_param c param h =
     (let (regval, h) = hinfc_read c HINFC610_PWIDTH h;
          h = hinfc_write c 0xFFF HINFC610_PWIDTH h;
          h = hinfc610_enable_ecc_randomizer c False False h;
          op = if_sync (WRITE_2CMD_0ADD_NODATA h) h;
          h = (if \<not> entry_rr_flag (host_rr h)
               then set_entry_rr_flag True (send_cmd c (HINFC_CMD_SEQ 0x5C 0xC5) op h) else h);
          h = snd (hinfc610_toshiba_19nm_set_rr_reg c param h);
          h = (if param = 4 then send_cmd c 0xB3 (if_sync (WRITE_1CMD_0ADD_NODATA h) h) h else h);
          h = (if param \<noteq> 0 then send_cmd c (HINFC_CMD_SEQ 0x26 0x5D) (if_sync (WRITE_2CMD_0ADD_NODATA h) h) h
               else set_entry_rr_flag False (hinfc610_send_cmd_reset c h));
          h = hinfc610_enable_ecc_randomizer c True True h
      in (0, hinfc_write c regval HINFC610_PWIDTH h))"

definition hinfc610_toshiba_19nm_read_retry :: "'c hinfc_cfg \<Rightarrow> 'c read_retry_t" where
  "hinfc610_toshiba_19nm_read_retry c =
     \<lparr>retry_type = 0x41, rr_count = 8, set_rr_param = hinfc610_toshiba_19nm_set_rr_param c, get_rr_param = None,
      reset_rr_param = hinfc610_toshiba_19nm_set_rr_reg c 0, enable_enhanced_slc = None\<rparr>"

section \<open>Hynix BG, B die\<close>

abbreviation (input) HYNIX_BG_BDIE_RR_REG :: "u32 list" where "HYNIX_BG_BDIE_RR_REG \<equiv> [0xA7, 0xAD, 0xAE, 0xAF]"

definition bg_bdie_value_offset :: "u8 list list" where
  "bg_bdie_value_offset =
     [[0x00, 0x00, 0x00, 0x00], [0x00, 0x06, 0x0A, 0x06], [0x7F, -0x03, -0x07, -0x08], [0x7F, -0x06, -0x0D, -0x0F],
      [0x7F, -0x09, -0x14, -0x17], [0x7F, 0x7F, -0x1A, -0x1E], [0x7F, 0x7F, -0x20, -0x25]]"

text \<open>The registers of a chip, read one after the other with the command \<open>0x37\<close>.\<close>

definition hynix_read_regs :: "'c hinfc_cfg \<Rightarrow> u32 list \<Rightarrow> 'c hinfc_host \<Rightarrow> u8 list \<times> 'c hinfc_host" where
  "hynix_read_regs c regs h =
     fold (\<lambda>a (vs, h).
       let h = io_blank 32 h;
           h = hinfc_write c 0x37 HINFC610_CMD h;
           h = hinfc_write c a HINFC610_ADDRL h;
           h = run_op c (READ_1CMD_1ADD_DATA h) h
       in (vs @ [ucast (io_readl h AND 0xff)], h)) regs ([], h)"

text \<open>The first register with the command \<open>0x36\<close>, the others without one, and the command \<open>0x16\<close> at the end.\<close>

definition hynix_write_regs :: "'c hinfc_cfg \<Rightarrow> (u32 \<times> u32) list \<Rightarrow> 'c hinfc_host \<Rightarrow> 'c hinfc_host" where
  "hynix_write_regs c avs h =
     (let h = send_cmd_data c 0x36 (WRITE_1CMD_1ADD_DATA h) (hd avs) h;
          h = fold (\<lambda>av h. send_data c (WRITE_0CMD_1ADD_DATA h) av h) (tl avs) h
      in send_cmd c 0x16 (WRITE_1CMD_0ADD_NODATA h) h)"

definition bg_bdie_values :: "nat \<Rightarrow> u8 list \<Rightarrow> u8 list" where
  "bg_bdie_values index org = map2 (\<lambda>v r. if v = 0x7F then 0 else v + r) (bg_bdie_value_offset ! index) org"

definition hinfc610_hynix_bg_bdie_set_rr_reg :: "'c hinfc_cfg \<Rightarrow> nat \<Rightarrow> 'c hinfc_host \<Rightarrow> int \<times> 'c hinfc_host" where
  "hinfc610_hynix_bg_bdie_set_rr_reg c index h =
     (let h = hinfc610_enable_ecc_randomizer c False False h;
          h = hinfc_write c 1 HINFC610_DATA_NUM h;
          h = (if \<not> bg_bdie_rr_org_exist (host_rr h)
               then let (vs, h) = hynix_read_regs c HYNIX_BG_BDIE_RR_REG h
                    in h\<lparr>host_rr := (host_rr h)\<lparr>bg_bdie_rr_org := vs, bg_bdie_rr_org_exist := True\<rparr>\<rparr>
               else h);
          h = hynix_write_regs c (zip HYNIX_BG_BDIE_RR_REG (map ucast (bg_bdie_values index (bg_bdie_rr_org (host_rr h))))) h
      in (0, hinfc610_enable_ecc_randomizer c True True h))"

definition hinfc610_hynix_bg_bdie_set_rr_param :: "'c hinfc_cfg \<Rightarrow> nat \<Rightarrow> 'c hinfc_host \<Rightarrow> int \<times> 'c hinfc_host" where
  "hinfc610_hynix_bg_bdie_set_rr_param c param h =
     (if param = 0 then (0, h) else hinfc610_hynix_bg_bdie_set_rr_reg c param h)"

definition hinfc610_hynix_bg_bdie_read_retry :: "'c hinfc_cfg \<Rightarrow> 'c read_retry_t" where
  "hinfc610_hynix_bg_bdie_read_retry c =
     \<lparr>retry_type = 0x10, rr_count = 7, set_rr_param = hinfc610_hynix_bg_bdie_set_rr_param c, get_rr_param = None,
      reset_rr_param = hinfc610_hynix_bg_bdie_set_rr_param c 0, enable_enhanced_slc = None\<rparr>"

section \<open>Hynix BG, C die, and CG, A die\<close>

text \<open>
  The two files differ in the registers only.  The chip has eight copies of its settings in a table that is programmed once, each
  followed by its inverse; the copy with the fewest differences is taken.  \<open>least\<close> (\<open>min\<close>) and \<open>ptr\<close> are the variables of the loop, the result is the
  number of the copy.
\<close>

definition otp_errors :: "u8 list \<Rightarrow> nat \<Rightarrow> nat" where
  "otp_errors otp ix = length (filter (\<lambda>jx. otp ! (ix * 128 + jx) XOR otp ! (ix * 128 + 64 + jx) \<noteq> 0xFF) [0..<64])"

fun otp_check_loop :: "u8 list \<Rightarrow> nat list \<Rightarrow> nat \<Rightarrow> nat option \<Rightarrow> nat option" where
  "otp_check_loop otp [] least ptr = ptr"
| "otp_check_loop otp (ix # ixs) least ptr =
     (let cur = otp_errors otp ix in
      if cur < least then (if cur = 0 then Some ix else otp_check_loop otp ixs cur (Some ix)) else otp_check_loop otp ixs least ptr)"

definition hynix_otp_check :: "u8 list \<Rightarrow> nat option" where
  "hynix_otp_check otp = otp_check_loop otp [0..<8] 64 None"

definition hynix_get_rr_param :: "'c hinfc_cfg \<Rightarrow> u32 \<times> u32 \<Rightarrow> u32 \<Rightarrow> 'c hinfc_host \<Rightarrow> int \<times> 'c hinfc_host" where
  "hynix_get_rr_param c av addr h =
     (let h = hinfc610_enable_ecc_randomizer c False False h;
          h = hinfc610_send_cmd_reset c h;
          h = hinfc_write c 1 HINFC610_DATA_NUM h;
          h = send_cmd_data c 0x36 (WRITE_1CMD_1ADD_DATA h) av h;
          h = hinfc_write c 1 HINFC610_DATA_NUM h;
          h = send_data c (WRITE_0CMD_1ADD_DATA h) (addr, 0x4D) h;
          h = send_cmd c 0x1716 (WRITE_2CMD_0ADD_NODATA h) h;
          h = send_cmd c 0x1904 (WRITE_2CMD_0ADD_NODATA h) h;
          h = hinfc_write c 0x2000000 HINFC610_ADDRL h;
          h = hinfc_write c 0x00 HINFC610_ADDRH h;
          h = hinfc_write c 0x3000 HINFC610_CMD h;
          h = hinfc_write c 0x800 HINFC610_DATA_NUM h;
          h = run_op c (READ_2CMD_5ADD h) h;
          otp = load_bytes (io_mem (bus h)) 2 1024
      in case hynix_otp_check otp of
           None \<Rightarrow> (- 1, h)
         | Some ix \<Rightarrow>
             let h = h\<lparr>host_rr := (host_rr h)\<lparr>rr_data := take 64 (drop (ix * 128) otp) @ drop 64 (rr_data (host_rr h)),
                                              need_rr_data := True\<rparr>\<rparr>;
                 h = hinfc610_send_cmd_reset c h;
                 h = send_cmd c 0x38 (WRITE_1CMD_0ADD_NODATA h OR HINFC610_OP_WAIT_READY_EN) h
             in (0, hinfc610_enable_ecc_randomizer c True True h))"

definition hynix_set_rr_reg :: "'c hinfc_cfg \<Rightarrow> u32 list \<Rightarrow> u8 list \<Rightarrow> 'c hinfc_host \<Rightarrow> int \<times> 'c hinfc_host" where
  "hynix_set_rr_reg c regs val h =
     (let h = hinfc610_enable_ecc_randomizer c False False h;
          h = hinfc_write c 1 HINFC610_DATA_NUM h;
          h = hynix_write_regs c (zip regs (map ucast val)) h
      in (0, hinfc610_enable_ecc_randomizer c True True h))"

definition hynix_set_rr_param :: "'c hinfc_cfg \<Rightarrow> u32 list \<Rightarrow> nat \<Rightarrow> 'c hinfc_host \<Rightarrow> int \<times> 'c hinfc_host" where
  "hynix_set_rr_param c regs param h =
     (let d = rr_data (host_rr h) in
      if (d ! 0 OR d ! 1 OR d ! 2 OR d ! 3) = 0 \<or> param = 0 then (- 1, h)
      else hynix_set_rr_reg c regs (take 8 (drop (push_bit 3 (param AND 7)) d)) h)"

text \<open>The SLC mode; the values found when it is entered are \<open>param\<close> of the file, and written back at the end.\<close>

definition hynix_eslc_enable ::
  "'c hinfc_cfg \<Rightarrow> u32 list \<Rightarrow> (rr_state \<Rightarrow> u8 list) \<Rightarrow> (u8 list \<Rightarrow> rr_state \<Rightarrow> rr_state) \<Rightarrow> bool \<Rightarrow> 'c hinfc_host \<Rightarrow> int \<times> 'c hinfc_host" where
  "hynix_eslc_enable c regs param upd enable h =
     (let h = hinfc610_enable_ecc_randomizer c False False h;
          h = hinfc_write c 1 HINFC610_DATA_NUM h;
          h = (if enable then let (vs, h) = hynix_read_regs c regs h in h\<lparr>host_rr := upd vs (host_rr h)\<rparr> else h);
          h = hynix_write_regs c (zip regs (map (\<lambda>v. ucast v + (if enable then 0x0A else 0x00)) (param (host_rr h)))) h;
          h = hinfc610_enable_ecc_randomizer c True True h
      in if enable then (0, h)
         else let h = hinfc_write c (addr_value0 h AND 0xffff0000) HINFC610_ADDRL h;
                  h = hinfc_write c (addr_value1 h) HINFC610_ADDRH h;
                  h = hinfc_write c 0x3000 HINFC610_CMD h
              in (0, run_op c (READ_2CMD_5ADD h) h))"

abbreviation (input) bg_cdie_rr_reg :: "u32 list" where "bg_cdie_rr_reg \<equiv> [0xB0, 0xB1, 0xB2, 0xB3, 0xB4, 0xB5, 0xB6, 0xB7]"
abbreviation (input) cg_adie_rr_reg :: "u32 list" where "cg_adie_rr_reg \<equiv> [0xCC, 0xBF, 0xAA, 0xAB, 0xCD, 0xAD, 0xAE, 0xAF]"

definition hinfc610_hynix_bg_cdie_read_retry :: "'c hinfc_cfg \<Rightarrow> 'c read_retry_t" where
  "hinfc610_hynix_bg_cdie_read_retry c =
     \<lparr>retry_type = 0x11, rr_count = 8, set_rr_param = hynix_set_rr_param c bg_cdie_rr_reg,
      get_rr_param = Some (hynix_get_rr_param c (0xAE, 0x00) 0xB0),
      reset_rr_param = hynix_set_rr_param c bg_cdie_rr_reg 0,
      enable_enhanced_slc = Some (hynix_eslc_enable c [0xA0, 0xA1, 0xA7, 0xA8] bg_cdie_eslc_param (\<lambda>vs. bg_cdie_eslc_param_update (\<lambda>_. vs)))\<rparr>"

definition hinfc610_hynix_cg_adie_read_retry :: "'c hinfc_cfg \<Rightarrow> 'c read_retry_t" where
  "hinfc610_hynix_cg_adie_read_retry c =
     \<lparr>retry_type = 0x12, rr_count = 8, set_rr_param = hynix_set_rr_param c cg_adie_rr_reg,
      get_rr_param = Some (hynix_get_rr_param c (0xFF, 0x40) 0xCC),
      reset_rr_param = hynix_set_rr_param c cg_adie_rr_reg 0,
      enable_enhanced_slc = Some (hynix_eslc_enable c [0xB0, 0xB1, 0xA0, 0xA1] cg_adie_eslc_param (\<lambda>vs. cg_adie_eslc_param_update (\<lambda>_. vs)))\<rparr>"

section \<open>The table\<close>

definition read_retry_table :: "'c hinfc_cfg \<Rightarrow> 'c read_retry_t list" where
  "read_retry_table c =
     [hinfc610_hynix_bg_bdie_read_retry c, hinfc610_hynix_bg_cdie_read_retry c, hinfc610_hynix_cg_adie_read_retry c,
      hinfc610_micron_read_retry c, hinfc610_toshiba_24nm_read_retry c, hinfc610_toshiba_19nm_read_retry c,
      hinfc610_samsung_read_retry c]"

definition hinfc610_find_read_retry :: "'c hinfc_cfg \<Rightarrow> nat \<Rightarrow> 'c read_retry_t option" where
  "hinfc610_find_read_retry c ty = find (\<lambda>rr. retry_type rr = ty) (read_retry_table c)"

section \<open>Where the settings are kept\<close>

text \<open>A digit of a number written with \<open>%02X\<close>, and how the code reads one.\<close>

definition rr_digit :: "u8 \<Rightarrow> u8" where
  "rr_digit n = (if n < 10 then 48 + n else 55 + n)"

definition rr_hex :: "u8 \<Rightarrow> u8 list" where
  "rr_hex b = [rr_digit (drop_bit 4 b), rr_digit (b AND 0xF), 32]"

definition rr_chr :: "u8 \<Rightarrow> u8" where
  "rr_chr s = s - (if 65 \<le> s then 65 - 10 else 48)"

function rr_parse :: "memory \<Rightarrow> nat \<Rightarrow> nat \<Rightarrow> u8 list \<Rightarrow> u8 list" where
  "rr_parse mm ss ix rr =
     (if ix < 64 \<and> mm ss \<noteq> 0
      then rr_parse mm (ss + 3) (ix + 1) (rr[ix := (push_bit 4 (rr_chr (mm ss)) AND 0xF0) OR (rr_chr (mm (ss + 1)) AND 0xF)])
      else rr)"
  by pat_completeness auto
termination by (relation "measure (\<lambda>(mm, ss, ix, rr). 64 - ix)") auto

declare rr_parse.simps [simp del]

text \<open>The SPI flash is another device: how it is opened, read and written.\<close>

record 'h spi_ops =
  spi_open :: bool
  spi_read :: "nat \<Rightarrow> u32 \<Rightarrow> nat \<Rightarrow> 'h nand_st \<Rightarrow> int \<times> 'h nand_st"
  spi_write :: "nat \<Rightarrow> u32 \<Rightarrow> nat \<Rightarrow> 'h nand_st \<Rightarrow> int \<times> 'h nand_st"

definition NAND_RR_PARAM_TAG :: u32 where "NAND_RR_PARAM_TAG = 0xB31E1F8C"
definition NAND_RR_PARAM_OFFSET :: nat where "NAND_RR_PARAM_OFFSET = 0x80000"

text \<open>The two branches, reading the settings from the buffer and writing them there; \<open>ss\<close> is the address of \<open>nand_otp_buf\<close>.\<close>

definition rr_load :: "nat \<Rightarrow> 'c hinfc_host nand_st \<Rightarrow> 'c hinfc_host nand_st" where
  "rr_load ss s = s\<lparr>hw := (hw s)\<lparr>host_rr := (host_rr (hw s))\<lparr>rr_data := rr_parse (ram s) (ss + 4) 0 (rr_data (host_rr (hw s)))\<rparr>\<rparr>\<rparr>"

definition rr_store :: "nat \<Rightarrow> 'c hinfc_host nand_st \<Rightarrow> 'c hinfc_host nand_st" where
  "rr_store ss s =
     s\<lparr>ram := store_bytes (store_u32 (ram s) ss NAND_RR_PARAM_TAG) (ss + 4) (concat (map rr_hex (take 64 (rr_data (host_rr (hw s))))) @ [0])\<rparr>"

definition hinfc610_nand_rr_param_init ::
  "'c hinfc_cfg \<Rightarrow> 'c hinfc_host spi_ops \<Rightarrow> nand_logic_t option option \<Rightarrow> 'c hinfc_host mtd_info \<Rightarrow> nat \<Rightarrow> 'c hinfc_host nand_st \<Rightarrow>
    (int \<times> 'c hinfc_host nand_st) option" where
  "hinfc610_nand_rr_param_init c spi opened m ss s =
     (case read_retry c of
        None \<Rightarrow> Some (0, s)
      | Some rr \<Rightarrow>
          if retry_type rr = 0x11 \<or> retry_type rr = 0x12
          then do {
            nl \<leftarrow> opened;
            (case nl of
               None \<Rightarrow> Some (- 1, s)
             | Some nl \<Rightarrow> do {
                 (ret, nl, s) \<leftarrow> nand_logic_read m 0 0x4000 ss False nl s;
                 if ret \<le> 0 then Some (- 1, s)
                 else if \<not> spi_open spi then Some (- 1, s)
                 else (let (ret, s) = spi_read spi NAND_RR_PARAM_OFFSET 8192 ss s in
                   if ret \<noteq> 8192 then Some (- 1, s)
                   else if load_u32 (ram s) ss = NAND_RR_PARAM_TAG then Some (0, rr_load ss s)
                   else (let (ret, h) = (case get_rr_param rr of Some f \<Rightarrow> f (hw s) | None \<Rightarrow> (0, hw s)); s = s\<lparr>hw := h\<rparr> in
                     if ret \<noteq> 0 then Some (- 1, s)
                     else (let (ret, s) = spi_write spi NAND_RR_PARAM_OFFSET 8192 ss (rr_store ss s) in
                       Some (if ret \<noteq> 8192 then - 1 else 0, s))))})}
          else Some (0, s))"

definition hinfc610_nand_get_rr_param :: "'c hinfc_cfg \<Rightarrow> 'c hinfc_host \<Rightarrow> u8 list" where
  "hinfc610_nand_get_rr_param c h =
     (case read_retry c of
        Some rr \<Rightarrow> if retry_type rr = 0x11 \<or> retry_type rr = 0x12 then take 64 (rr_data (host_rr h)) else []
      | None \<Rightarrow> [])"

section \<open>The synchronous mode\<close>

text \<open>Four bytes to the feature address \<open>feature\<close>, the first with the command \<open>0xEF\<close>, the last with a wait for the chip.\<close>

definition sync_feature :: "'c hinfc_cfg \<Rightarrow> u32 \<Rightarrow> u32 \<Rightarrow> u32 list \<Rightarrow> 'c hinfc_host \<Rightarrow> 'c hinfc_host" where
  "sync_feature c reg_en feature vs h =
     (let h = hinfc610_enable_ecc_randomizer c False False h;
          h = hinfc_write c 1 HINFC610_DATA_NUM h;
          h = hinfc_write c 0xEF HINFC610_CMD h;
          h = hinfc_write c feature HINFC610_ADDRL h;
          h = run_op c (WRITE_1CMD_1ADD_DATA h OR reg_en) (io_writel (vs ! 0) h);
          h = run_op c (WRITE_0CMD_1ADD_DATA h OR reg_en) (io_writel (vs ! 1) h);
          h = run_op c (WRITE_0CMD_1ADD_DATA h OR reg_en) (io_writel (vs ! 2) h);
          h = run_op c (WRITE_0CMD_1ADD_DATA h OR reg_en OR HINFC610_OP_WAIT_READY_EN) (io_writel (vs ! 3) h)
      in hinfc610_enable_ecc_randomizer c True True h)"

definition hinfc610_onfi_enable_sync :: "'c hinfc_cfg \<Rightarrow> 'c hinfc_host \<Rightarrow> 'c hinfc_host" where
  "hinfc610_onfi_enable_sync c = sync_feature c 0 0x01 [0x14, 0x00, 0x00, 0x00]"

definition hinfc610_onfi_disable_sync :: "'c hinfc_cfg \<Rightarrow> 'c hinfc_host \<Rightarrow> 'c hinfc_host" where
  "hinfc610_onfi_disable_sync c = sync_feature c HINFC610_OP_RW_REG_EN 0x01 [0x00, 0x00, 0x00, 0x00]"

definition hinfc610_toggle_enable_sync :: "'c hinfc_cfg \<Rightarrow> 'c hinfc_host \<Rightarrow> 'c hinfc_host" where
  "hinfc610_toggle_enable_sync c = sync_feature c 0 0x80 [0x00, 0x00, 0x00, 0x00]"

definition hinfc610_toggle_disable_sync :: "'c hinfc_cfg \<Rightarrow> 'c hinfc_host \<Rightarrow> 'c hinfc_host" where
  "hinfc610_toggle_disable_sync c = sync_feature c HINFC610_OP_RW_REG_EN 0x80 [0x01, 0x00, 0x00, 0x00]"

definition nand_sync_table :: "'c hinfc_cfg \<Rightarrow> 'c nand_sync list" where
  "nand_sync_table c =
     [\<lparr>sync_type = NAND_TYPE_ONFI_23, sync_enable = hinfc610_onfi_enable_sync c, sync_disable = hinfc610_onfi_disable_sync c\<rparr>,
      \<lparr>sync_type = NAND_TYPE_ONFI_30, sync_enable = hinfc610_onfi_enable_sync c, sync_disable = hinfc610_onfi_disable_sync c\<rparr>,
      \<lparr>sync_type = NAND_TYPE_TOGGLE_10, sync_enable = hinfc610_toggle_enable_sync c, sync_disable = hinfc610_toggle_disable_sync c\<rparr>]"

definition hinfc610_find_sync_type :: "'c hinfc_cfg \<Rightarrow> sync_type \<Rightarrow> 'c nand_sync option" where
  "hinfc610_find_sync_type c ty = find (\<lambda>sy. sync_type sy = ty) (nand_sync_table c)"

text \<open>\<open>n\<close> bytes of what the chip answers to a command with one address byte.\<close>

definition read_answer :: "'c hinfc_cfg \<Rightarrow> nat \<Rightarrow> u32 \<Rightarrow> u32 \<Rightarrow> u32 \<Rightarrow> 'c hinfc_host \<Rightarrow> u8 list \<times> 'c hinfc_host" where
  "read_answer c n cmd addr wait h =
     (let h = hinfc_write c (word_of_nat n) HINFC610_DATA_NUM h;
          h = hinfc_write c cmd HINFC610_CMD h;
          h = hinfc_write c addr HINFC610_ADDRL h;
          h = run_op c (READ_1CMD_1ADD_DATA h OR wait) h
      in (load_bytes (io_mem (bus h)) 0 n, h))"

definition hinfc610_onfi_support_sync :: "'c hinfc_cfg \<Rightarrow> 'c hinfc_host \<Rightarrow> bool \<times> 'c hinfc_host" where
  "hinfc610_onfi_support_sync c h =
     (let h = hinfc610_enable_ecc_randomizer c False False h;
          (buf, h) = read_answer c 6 0x90 0x20 0 h
      in if take 4 buf \<noteq> map of_char ''ONFI'' then (False, h)
         else let (buf, h) = read_answer c 6 0x90 0x40 0 h
              in if take 5 buf \<noteq> map of_char ''JEDEC'' then (False, h) else (buf ! 5 = 0x05, h))"

definition hinfc610_get_onfi_info :: "'c hinfc_cfg \<Rightarrow> 'c hinfc_host \<Rightarrow> sync_type option \<times> 'c hinfc_host" where
  "hinfc610_get_onfi_info c h =
     (let (ok, h) = hinfc610_onfi_support_sync c h in
      if \<not> ok then (None, h)
      else let h = hinfc610_enable_ecc_randomizer c False False h;
               (buf, h) = read_answer c 6 0xec 0x00 HINFC610_OP_WAIT_READY_EN h
           in if take 4 buf \<noteq> map of_char ''ONFI'' then (None, h)
              else (if bit (buf ! 4) 6 then Some NAND_TYPE_ONFI_30
                    else if bit (buf ! 4) 5 \<or> bit (buf ! 4) 4 \<or> bit (buf ! 4) 3 \<or> bit (buf ! 4) 2 then Some NAND_TYPE_ONFI_23
                    else None, h))"

definition hinfc610_toggle_support_sync :: "'c hinfc_cfg \<Rightarrow> 'c hinfc_host \<Rightarrow> bool \<times> 'c hinfc_host" where
  "hinfc610_toggle_support_sync c h =
     (let h = hinfc610_enable_ecc_randomizer c False False h;
          (buf, h) = read_answer c 6 0x90 0x40 0 h
      in (take 5 buf = map of_char ''JEDEC'', h))"

definition hinfc610_get_toggle_info :: "'c hinfc_cfg \<Rightarrow> 'c hinfc_host \<Rightarrow> sync_type option \<times> 'c hinfc_host" where
  "hinfc610_get_toggle_info c h =
     (let (ok, h) = hinfc610_toggle_support_sync c h in
      if \<not> ok then (None, h)
      else let h = hinfc610_enable_ecc_randomizer c False False h;
               (buf, h) = read_answer c 8 0xec 0x40 HINFC610_OP_WAIT_READY_EN h
           in if take 4 buf \<noteq> map of_char ''JESD'' then (None, h)
              else (if bit (buf ! 4) 1 then Some NAND_TYPE_TOGGLE_10 else None, h))"

text \<open>\<open>old\<close> is \<open>host->sync\<close> before; the functions found are the result.\<close>

definition hinfc610_get_sync_info :: "'c hinfc_cfg \<Rightarrow> 'c nand_sync option \<Rightarrow> 'c hinfc_host \<Rightarrow> 'c nand_sync option \<times> 'c hinfc_host" where
  "hinfc610_get_sync_info c old h =
     (let (ty, h) = (if host_flags h AND 0x20 \<noteq> 0 then hinfc610_get_onfi_info c h else hinfc610_get_toggle_info c h)
      in case ty of
           None \<Rightarrow> (old, h\<lparr>host_flags := host_flags h AND NOT 0x40\<rparr>)
         | Some t \<Rightarrow> (case hinfc610_find_sync_type c t of None \<Rightarrow> (None, PR_BUG h) | Some sy \<Rightarrow> (Some sy, h)))"

end
