(* ===== verification/RetryProps.thy ===== *)
theory RetryProps
  imports HinfcRetry NfcSim
begin

text \<open>
  What the sequences for the makers' chips keep of the driver's state, which settings are taken from the table of the chip, and that they are read back
  from where they are kept as they were.
\<close>

section \<open>The driver's state\<close>

text \<open>
  Everything but the bus, the settings, the status of the page and the randomizer bit of the control words, unless the driver hangs;
  what hangs keeps hanging.
\<close>

definition retry_keeps :: "'c hinfc_host \<Rightarrow> 'c hinfc_host \<Rightarrow> bool" where
  "retry_keeps h h' \<longleftrightarrow>
     h'\<lparr>bus := bus h, host_rr := host_rr h, page_status := page_status h, NFC_CON := NFC_CON h, NFC_CON_ECC_NONE := NFC_CON_ECC_NONE h,
        stuck := stuck h\<rparr> = h \<and> (stuck h \<longrightarrow> stuck h') \<and>
     NFC_CON h' OR HINFC610_CON_RANDOMIZER_EN = NFC_CON h OR HINFC610_CON_RANDOMIZER_EN \<and>
     NFC_CON_ECC_NONE h' OR HINFC610_CON_RANDOMIZER_EN = NFC_CON_ECC_NONE h OR HINFC610_CON_RANDOMIZER_EN \<and>
     (\<not> IS_NAND_RANDOM h \<longrightarrow> NFC_CON h' = NFC_CON h \<and> NFC_CON_ECC_NONE h' = NFC_CON_ECC_NONE h)"

named_theorems retry_intros \<open>steps that keep the state of the driver\<close>

lemma retry_keeps_flags: "retry_keeps h h' \<Longrightarrow> host_flags h' = host_flags h"
  unfolding retry_keeps_def by (auto dest: arg_cong [of _ _ host_flags])

lemma retry_keeps_refl [retry_intros]: "retry_keeps h h"
  by (simp add: retry_keeps_def)

lemma keeps_bus: "retry_keeps h0 h \<Longrightarrow> retry_keeps h0 (h\<lparr>bus := b\<rparr>)"
  by (simp add: retry_keeps_def)

lemma keeps_rr [retry_intros]: "retry_keeps h0 h \<Longrightarrow> retry_keeps h0 (h\<lparr>host_rr := r\<rparr>)"
  by (simp add: retry_keeps_def)

lemma keeps_status [retry_intros]: "retry_keeps h0 h \<Longrightarrow> retry_keeps h0 (h\<lparr>page_status := r\<rparr>)"
  by (simp add: retry_keeps_def)

lemma keeps_write [retry_intros]: "retry_keeps h0 h \<Longrightarrow> retry_keeps h0 (hinfc_write c v r h)"
  by (simp add: hinfc_write_def keeps_bus)

lemma keeps_read [retry_intros]: "retry_keeps h0 h \<Longrightarrow> retry_keeps h0 (snd (hinfc_read c r h))"
  by (simp add: hinfc_read_def case_prod_unfold Let_def keeps_bus)

lemma keeps_bug: "retry_keeps h0 h \<Longrightarrow> retry_keeps h0 (PR_BUG h)"
  by (simp add: retry_keeps_def PR_BUG_def)

lemma keeps_wait: "retry_keeps h0 h \<Longrightarrow> retry_keeps h0 (wait_reg c r w t h)"
proof (induction t arbitrary: h)
  case 0
  then show ?case using keeps_read [OF 0, of c r] by (subst wait_reg.simps) (auto simp: Let_def case_prod_unfold intro: keeps_bug)
next
  case (Suc t)
  then show ?case using keeps_read [OF Suc.prems, of c r]
    by (subst wait_reg.simps) (auto simp: Let_def case_prod_unfold)
qed

lemma keeps_op [retry_intros]: "retry_keeps h0 h \<Longrightarrow> retry_keeps h0 (run_op c op h)"
  by (simp add: run_op_def WAIT_CONTROLLER_FINISH_def keeps_wait keeps_write)

lemma keeps_io [retry_intros]:
  "retry_keeps h0 h \<Longrightarrow> retry_keeps h0 (io_writel v h)" "retry_keeps h0 h \<Longrightarrow> retry_keeps h0 (io_blank n h)"
  by (simp_all add: io_writel_def io_blank_def keeps_bus)

lemma keeps_send [retry_intros]:
  "retry_keeps h0 h \<Longrightarrow> retry_keeps h0 (send_cmd c cmd op h)"
  "retry_keeps h0 h \<Longrightarrow> retry_keeps h0 (send_data c op av h)"
  "retry_keeps h0 h \<Longrightarrow> retry_keeps h0 (send_cmd_data c cmd op av h)"
  by (simp_all add: send_cmd_def send_data_def send_cmd_data_def retry_intros)

lemma randomizer_bit: "(x AND NOT 0x4000) OR 0x4000 = x OR (0x4000 :: u32)"
  by (rule bit_word_eqI) (auto simp: bit_simps)

lemmas randomizer_bits = randomizer_bit randomizer_bit [simplified]

lemma keeps_randomizer [retry_intros]: "retry_keeps h0 h \<Longrightarrow> retry_keeps h0 (hinfc610_enable_ecc_randomizer c a b h)"
proof -
  assume k: "retry_keeps h0 h"
  have "IS_NAND_RANDOM h = IS_NAND_RANDOM h0" using retry_keeps_flags [OF k] by (simp add: IS_NAND_RANDOM_def)
  then show ?thesis using k unfolding hinfc610_enable_ecc_randomizer_def Let_def
    by (intro keeps_write) (auto simp: retry_keeps_def randomizer_bits or.assoc)
qed

lemma keeps_reset [retry_intros]: "retry_keeps h0 h \<Longrightarrow> retry_keeps h0 (hinfc610_send_cmd_reset c h)"
  by (simp add: hinfc610_send_cmd_reset_def Let_def WAIT_CONTROLLER_FINISH_def keeps_wait keeps_write)

lemma keeps_dma [retry_intros]: "retry_keeps h0 h \<Longrightarrow> retry_keeps h0 (hinfc610_dma_transfer c d h)"
  by (simp add: hinfc610_dma_transfer_def Let_def keeps_wait keeps_write)

lemma keeps_fold [retry_intros]: "(\<And>x h. retry_keeps h0 h \<Longrightarrow> retry_keeps h0 (f x h)) \<Longrightarrow> retry_keeps h0 h \<Longrightarrow> retry_keeps h0 (fold f xs h)"
  by (induction xs arbitrary: h) simp_all

lemma keeps_if [retry_intros]:
  "(b \<Longrightarrow> retry_keeps h0 h) \<Longrightarrow> (\<not> b \<Longrightarrow> retry_keeps h0 h') \<Longrightarrow> retry_keeps h0 (if b then h else h')"
  "(b \<Longrightarrow> retry_keeps h0 (snd p)) \<Longrightarrow> (\<not> b \<Longrightarrow> retry_keeps h0 (snd q)) \<Longrightarrow> retry_keeps h0 (snd (if b then p else q))"
  by simp_all

lemma keeps_pair [retry_intros]: "retry_keeps h0 h \<Longrightarrow> retry_keeps h0 (snd (x, h))"
  by simp

lemma keeps_let [retry_intros]:
  fixes h :: "'c hinfc_host"
  shows "retry_keeps h0 h \<Longrightarrow> (\<And>h. retry_keeps h0 h \<Longrightarrow> retry_keeps h0 (f h)) \<Longrightarrow> retry_keeps h0 (let h = h in f h)"
    and "retry_keeps h0 h \<Longrightarrow> (\<And>h. retry_keeps h0 h \<Longrightarrow> retry_keeps h0 (snd (g h))) \<Longrightarrow> retry_keeps h0 (snd (let h = h in g h))"
  by (simp_all add: Let_def)

lemma keeps_let_pair [retry_intros]:
  "retry_keeps h0 (snd p) \<Longrightarrow> (\<And>v h. retry_keeps h0 h \<Longrightarrow> retry_keeps h0 (f v h)) \<Longrightarrow> retry_keeps h0 (let (v, h) = p in f v h)"
  "retry_keeps h0 (snd p) \<Longrightarrow> (\<And>v h. retry_keeps h0 h \<Longrightarrow> retry_keeps h0 (snd (g v h))) \<Longrightarrow> retry_keeps h0 (snd (let (v, h) = p in g v h))"
  by (simp_all add: Let_def case_prod_unfold)

lemma keeps_let_u32 [retry_intros]:
  fixes x :: u32
  shows "(\<And>x. retry_keeps h0 (f x)) \<Longrightarrow> retry_keeps h0 (let x = x in f x)"
    and "(\<And>x. retry_keeps h0 (snd (g x))) \<Longrightarrow> retry_keeps h0 (snd (let x = x in g x))"
  by (simp_all add: Let_def)

lemma keeps_let_list [retry_intros]:
  fixes x :: "'a list"
  shows "(\<And>x. retry_keeps h0 (snd (g x))) \<Longrightarrow> retry_keeps h0 (snd (let x = x in g x))"
  by (simp add: Let_def)

lemma keeps_regs [retry_intros]: "retry_keeps h0 h \<Longrightarrow> retry_keeps h0 (snd (hynix_read_regs c regs h))"
proof -
  have "retry_keeps h0 (snd p) \<Longrightarrow> retry_keeps h0 (snd (fold (\<lambda>a (vs, h).
       let h = io_blank 32 h; h = hinfc_write c 0x37 HINFC610_CMD h; h = hinfc_write c a HINFC610_ADDRL h; h = run_op c (READ_1CMD_1ADD_DATA h) h
       in (vs @ [ucast (io_readl h AND 0xff) :: u8], h)) regs p))" for p
    by (induction regs arbitrary: p) (simp_all add: Let_def case_prod_unfold retry_intros)
  then show "retry_keeps h0 h \<Longrightarrow> retry_keeps h0 (snd (hynix_read_regs c regs h))" by (simp only: hynix_read_regs_def) simp
qed

lemma keeps_write_regs [retry_intros]: "retry_keeps h0 h \<Longrightarrow> retry_keeps h0 (hynix_write_regs c avs h)"
  unfolding hynix_write_regs_def by (intro retry_intros)

lemma keeps_micron: "retry_keeps h0 h \<Longrightarrow> retry_keeps h0 (snd (hinfc610_micron_set_rr_reg c n h))"
  unfolding hinfc610_micron_set_rr_reg_def by (intro retry_intros)

lemma keeps_samsung: "retry_keeps h0 h \<Longrightarrow> retry_keeps h0 (snd (hinfc610_samsung_set_rr_reg c n h))"
  unfolding hinfc610_samsung_set_rr_reg_def by (intro retry_intros)

lemma keeps_toshiba_24nm_reg [retry_intros]: "retry_keeps h0 h \<Longrightarrow> retry_keeps h0 (snd (hinfc610_toshiba_24nm_set_rr_reg c n h))"
  unfolding hinfc610_toshiba_24nm_set_rr_reg_def by (intro retry_intros)

lemma keeps_toshiba_24nm: "retry_keeps h0 h \<Longrightarrow> retry_keeps h0 (snd (hinfc610_toshiba_24nm_set_rr_param c n h))"
  unfolding hinfc610_toshiba_24nm_set_rr_param_def by (intro retry_intros)

lemma keeps_toshiba_19nm_reg [retry_intros]: "retry_keeps h0 h \<Longrightarrow> retry_keeps h0 (snd (hinfc610_toshiba_19nm_set_rr_reg c n h))"
  unfolding hinfc610_toshiba_19nm_set_rr_reg_def by (intro retry_intros)

lemma keeps_toshiba_19nm: "retry_keeps h0 h \<Longrightarrow> retry_keeps h0 (snd (hinfc610_toshiba_19nm_set_rr_param c n h))"
  unfolding hinfc610_toshiba_19nm_set_rr_param_def set_entry_rr_flag_def by (intro retry_intros)

lemma keeps_bg_bdie: "retry_keeps h0 h \<Longrightarrow> retry_keeps h0 (snd (hinfc610_hynix_bg_bdie_set_rr_param c n h))"
  unfolding hinfc610_hynix_bg_bdie_set_rr_param_def hinfc610_hynix_bg_bdie_set_rr_reg_def by (intro retry_intros)

lemma keeps_hynix: "retry_keeps h0 h \<Longrightarrow> retry_keeps h0 (snd (hynix_set_rr_param c regs n h))"
  unfolding hynix_set_rr_param_def hynix_set_rr_reg_def by (intro retry_intros)

lemma keeps_eslc: "retry_keeps h0 h \<Longrightarrow> retry_keeps h0 (snd (hynix_eslc_enable c regs param upd enable h))"
  unfolding hynix_eslc_enable_def by (intro retry_intros)

lemma keeps_get: "retry_keeps h0 h \<Longrightarrow> retry_keeps h0 (snd (hynix_get_rr_param c av addr h))"
proof -
  have o: "retry_keeps h0 (snd (case x of None \<Rightarrow> p | Some y \<Rightarrow> q y))"
    if "retry_keeps h0 (snd p)" "\<And>y. retry_keeps h0 (snd (q y))" for x :: "nat option" and p q
    using that by (simp split: option.split)
  show "retry_keeps h0 h \<Longrightarrow> retry_keeps h0 (snd (hynix_get_rr_param c av addr h))"
    unfolding hynix_get_rr_param_def by (intro retry_intros o)
qed

text \<open>All functions of the table.\<close>

lemma found_keeps:
  assumes "hinfc610_find_read_retry c ty = Some rr" "retry_keeps h0 h"
  shows "retry_keeps h0 (snd (set_rr_param rr n h))" "retry_keeps h0 (snd (reset_rr_param rr h))"
    "get_rr_param rr = Some f \<Longrightarrow> retry_keeps h0 (snd (f h))" "enable_enhanced_slc rr = Some g \<Longrightarrow> retry_keeps h0 (snd (g b h))"
proof -
  note defs = hinfc610_micron_read_retry_def hinfc610_samsung_read_retry_def hinfc610_toshiba_24nm_read_retry_def
    hinfc610_toshiba_19nm_read_retry_def hinfc610_hynix_bg_bdie_read_retry_def hinfc610_hynix_bg_cdie_read_retry_def
    hinfc610_hynix_cg_adie_read_retry_def
  note keeps = keeps_micron keeps_samsung keeps_toshiba_24nm keeps_toshiba_24nm_reg keeps_toshiba_19nm keeps_toshiba_19nm_reg
    keeps_bg_bdie keeps_hynix
  have "rr \<in> set (read_retry_table c)" using assms(1) unfolding hinfc610_find_read_retry_def by (auto simp: find_Some_iff)
  then consider "rr = hinfc610_hynix_bg_bdie_read_retry c" | "rr = hinfc610_hynix_bg_cdie_read_retry c" | "rr = hinfc610_hynix_cg_adie_read_retry c"
    | "rr = hinfc610_micron_read_retry c" | "rr = hinfc610_toshiba_24nm_read_retry c" | "rr = hinfc610_toshiba_19nm_read_retry c"
    | "rr = hinfc610_samsung_read_retry c" by (auto simp: read_retry_table_def)
  note cs = this
  show "retry_keeps h0 (snd (set_rr_param rr n h))" using cs by cases (simp_all add: defs keeps assms(2))
  show "retry_keeps h0 (snd (reset_rr_param rr h))" using cs by cases (simp_all add: defs keeps assms(2))
  show "get_rr_param rr = Some f \<Longrightarrow> retry_keeps h0 (snd (f h))" using cs by cases (auto simp: defs assms(2) intro: keeps_get)
  show "enable_enhanced_slc rr = Some g \<Longrightarrow> retry_keeps h0 (snd (g b h))" using cs by cases (auto simp: defs assms(2) intro: keeps_eslc)
qed

lemma keeps_page_cmds [retry_intros]: "retry_keeps h0 h \<Longrightarrow> retry_keeps h0 (read_page_cmds c h)"
  unfolding read_page_cmds_def by (intro retry_intros)

lemma keeps_retry_loop:
  assumes "hinfc610_find_read_retry c' ty = Some rr"
  shows "retry_keeps h0 h \<Longrightarrow> retry_keeps h0 (read_retry_loop c rr ixs h)"
proof (induction ixs arbitrary: h)
  case (Cons ix ixs)
  show ?case using Cons.prems unfolding read_retry_loop.simps by (intro retry_intros Cons.IH found_keeps [OF assms])
qed simp

lemma keeps_do_retry:
  assumes "hinfc610_find_read_retry c' ty = Some rr"
  shows "retry_keeps h (hinfc610_do_read_retry c rr h)"
  unfolding hinfc610_do_read_retry_def by (intro retry_intros keeps_retry_loop [OF assms] found_keeps [OF assms])


text \<open>The synchronous mode: the bits of the mode are set in between and cleared afterwards.\<close>

lemma keeps_sync: "retry_keeps h0 h \<Longrightarrow> retry_keeps h0 (sync_feature c en f vs h)"
  unfolding sync_feature_def by (intro retry_intros)

lemma found_sync_keeps:
  assumes "hinfc610_find_sync_type c ty = Some sy" "retry_keeps h0 h"
  shows "retry_keeps h0 (sync_enable sy h)" "retry_keeps h0 (sync_disable sy h)" "sync_type sy = ty"
  using assms by (auto simp: hinfc610_find_sync_type_def nand_sync_table_def keeps_sync hinfc610_onfi_enable_sync_def
      hinfc610_onfi_disable_sync_def hinfc610_toggle_enable_sync_def hinfc610_toggle_disable_sync_def split: if_splits)

section \<open>The settings from the table of the chip\<close>

lemma otp_check_loop:
  "sorted_wrt (<) ixs \<Longrightarrow>
    (case otp_check_loop otp ixs least ptr of
       None \<Rightarrow> ptr = None \<and> (\<forall>j \<in> set ixs. least \<le> otp_errors otp j)
     | Some i \<Rightarrow>
         (Some i = ptr \<and> (\<forall>j \<in> set ixs. least \<le> otp_errors otp j)) \<or>
         (i \<in> set ixs \<and> otp_errors otp i < least \<and>
          (\<forall>j \<in> set ixs. otp_errors otp i \<le> otp_errors otp j \<and> (j < i \<longrightarrow> otp_errors otp i < otp_errors otp j))))"
proof (induction ixs arbitrary: least ptr)
  case Nil
  then show ?case by (auto split: option.split)
next
  case (Cons ix ixs)
  show ?case
  proof (cases "otp_errors otp ix < least")
    case False
    have s: "sorted_wrt (<) ixs" using Cons.prems by simp
    show ?thesis using Cons.IH [OF s, where least = least and ptr = ptr] Cons.prems False by (cases "otp_check_loop otp ixs least ptr") auto
  next
    case lt: True
    show ?thesis
    proof (cases "otp_errors otp ix = 0")
      case True
      then show ?thesis using lt Cons.prems by auto
    next
      case False
      have s: "sorted_wrt (<) ixs" "\<And>j. j \<in> set ixs \<Longrightarrow> ix < j" using Cons.prems by auto
      show ?thesis using Cons.IH [OF s(1), where least = "otp_errors otp ix" and ptr = "Some ix"] lt False s(2)
        by (cases "otp_check_loop otp ixs (otp_errors otp ix) (Some ix)") fastforce+
    qed
  qed
qed

lemma otp_errors_le: "otp_errors otp ix \<le> 64"
  using length_filter_le [of _ "[0..<64 :: nat]"] by (simp add: otp_errors_def)

text \<open>
  C32: The copy of the settings that is taken is the first of those with the fewest bytes that differ from the inverse; none is taken only
  when in each of the eight copies every byte differs.
\<close>

theorem otp_check_selects:
  "case hynix_otp_check otp of
     None \<Rightarrow> \<forall>j < 8. otp_errors otp j = 64
   | Some i \<Rightarrow> i < 8 \<and> otp_errors otp i < 64 \<and>
       (\<forall>j < 8. otp_errors otp i \<le> otp_errors otp j \<and> (j < i \<longrightarrow> otp_errors otp i < otp_errors otp j))"
  using otp_check_loop [where ixs = "[0..<8]" and least = 64 and ptr = None and otp = otp] otp_errors_le [of otp]
  by (auto simp: hynix_otp_check_def le_antisym split: option.splits)

text \<open>Eight copies, with a byte of the first one wrong.\<close>

definition sim_otp :: "u8 list" where
  "sim_otp = concat (map (\<lambda>ix. (if ix = 0 then 0 # replicate 63 0x5A else replicate 64 0x5A) @ replicate 64 0xA5) [0 ..< 8 :: nat])"

lemma otp_check_selects_witness: "hynix_otp_check sim_otp = Some 1"
proof -
  have e: "otp_errors sim_otp 0 = 1" "otp_errors sim_otp 1 = 0" by code_simp+
  show ?thesis
  proof (cases "hynix_otp_check sim_otp")
    case None
    then have "\<forall>j < 8. otp_errors sim_otp j = 64" using otp_check_selects [of sim_otp] by simp
    then show ?thesis using e(2) by (auto dest: spec [of _ 1])
  next
    case (Some i)
    then have i: "otp_errors sim_otp i \<le> otp_errors sim_otp 1" "1 < i \<Longrightarrow> otp_errors sim_otp i < otp_errors sim_otp 1"
      using otp_check_selects [of sim_otp] by auto
    have "i \<noteq> 0" using i(1) e by (cases i) auto
    moreover have "\<not> 1 < i" using i(2) e(2) by auto
    ultimately show ?thesis using Some by (cases i) auto
  qed
qed

section \<open>The settings in SPI flash\<close>

lemma rr_chr_digit: "n < 16 \<Longrightarrow> rr_chr (rr_digit n) = n \<and> rr_digit n \<noteq> 0"
proof -
  assume "n < 16"
  then have "unat n < 16" by (simp add: word_less_nat_alt)
  then have "unat n \<in> set [0..<16]" by simp
  moreover have "set [0..<16] = {0, 1, 2, 3, 4, 5, 6, 7, 8, 9, 10, 11, 12, 13, 14, 15 :: nat}" by code_simp
  ultimately have "unat n \<in> {0, 1, 2, 3, 4, 5, 6, 7, 8, 9, 10, 11, 12, 13, 14, 15}" by blast
  then have "n \<in> {0, 1, 2, 3, 4, 5, 6, 7, 8, 9, 10, 11, 12, 13, 14, 15}"
    by (auto simp: word_unat_eq_iff)
  then show ?thesis by (auto simp: rr_chr_def rr_digit_def)
qed

lemma rr_byte: "(push_bit 4 (drop_bit 4 b) AND 0xF0) OR ((b AND 0xF) AND 0xF) = (b :: u8)"
proof (rule bit_word_eqI)
  fix n assume "n < LENGTH(8)"
  then have "n \<in> {0, 1, 2, 3, 4, 5, 6, 7}" by auto
  then show "bit ((push_bit 4 (drop_bit 4 b) AND 0xF0) OR ((b AND 0xF) AND 0xF)) n = bit b n" by (auto simp: bit_simps)
qed

lemma nibbles: "drop_bit 4 (b :: u8) < 16" "b AND 0xF < (16 :: u8)"
proof -
  have "unat (drop_bit 4 b) = unat b div 16" using unsigned_less [of b, where 'a = nat]
    by (subst unsigned_drop_bit_eq) (simp add: take_bit_nat_eq_self drop_bit_eq_div [where 'a = nat])
  then show "drop_bit 4 b < 16" using unsigned_less [of b, where 'a = nat] by (simp add: word_less_nat_alt)
  have "unat (b AND mask 4) = unat b mod 2 ^ 4" by (rule unat_and_mask)
  then show "b AND 0xF < (16 :: u8)" by (simp add: word_less_nat_alt mask_eq_exp_minus_1)
qed

lemma length_hex [simp]: "length (concat (map rr_hex xs)) = 3 * length xs"
  by (induction xs) (simp_all add: rr_hex_def)

lemma rr_parse_hex:
  "(\<And>j. j < 3 * length xs \<Longrightarrow> mm (a + j) = concat (map rr_hex xs) ! j) \<Longrightarrow> i + length xs = 64 \<Longrightarrow> 64 \<le> length rr \<Longrightarrow>
    rr_parse mm a i rr = take i rr @ xs @ drop 64 rr"
proof (induction xs arbitrary: a i rr)
  case Nil
  then show ?case by (subst rr_parse.simps) simp
next
  case (Cons b xs)
  have *: "mm a = rr_digit (drop_bit 4 b)" "mm (a + 1) = rr_digit (b AND 0xF)"
    using Cons.prems(1) [of 0] Cons.prems(1) [of 1] by (simp_all add: rr_hex_def)
  have "rr_parse mm a i rr = rr_parse mm (a + 3) (i + 1) (rr[i := b])"
    using Cons.prems(2) rr_chr_digit [OF nibbles(1) [of b]] rr_chr_digit [OF nibbles(2) [of b]]
    by (subst rr_parse.simps) (simp only: * rr_byte, simp)
  also have "\<dots> = take (i + 1) (rr[i := b]) @ xs @ drop 64 (rr[i := b])"
  proof (rule Cons.IH)
    fix j assume "j < 3 * length xs"
    then show "mm (a + 3 + j) = concat (map rr_hex xs) ! j"
      using Cons.prems(1) [of "3 + j"] by (simp add: rr_hex_def [of b] add.assoc)
  qed (use Cons.prems in simp_all)
  also have "take (i + 1) (rr[i := b]) = take i rr @ [b]"
    using Cons.prems(2,3) by (simp add: take_Suc_conv_app_nth)
  finally show ?case using Cons.prems(2) by simp
qed

text \<open>
  C25: The settings that were written to the buffer are read back from it by another start, when the 197 bytes of the buffer that matter have
  come back from the SPI flash as they were, and the tag tells so.
\<close>

theorem rr_store_load:
  assumes "length (rr_data (host_rr (hw s))) = 128" "length (rr_data (host_rr (hw s'))) = 128"
    and "load_bytes (ram s') ss 197 = load_bytes (ram (rr_store ss s)) ss 197"
  shows "load_u32 (ram s') ss = NAND_RR_PARAM_TAG \<and>
    rr_data (host_rr (hw (rr_load ss s'))) = take 64 (rr_data (host_rr (hw s))) @ drop 64 (rr_data (host_rr (hw s')))"
proof -
  let ?d = "take 64 (rr_data (host_rr (hw s)))"
  have e: "ram s' (ss + j) = ram (rr_store ss s) (ss + j)" if "j < 197" for j
    using arg_cong [OF assms(3), of "\<lambda>xs. xs ! j"] that by (simp add: nth_load_bytes)
  have tag: "ram (rr_store ss s) (ss + j) = [0x8C, 0x1F, 0x1E, 0xB3 :: u8] ! j" if "j < 4" for j
  proof -
    have "j \<in> {0, 1, 2, 3}" using that by auto
    then show ?thesis by (auto simp: rr_store_def store_bytes_def store_u32_def NAND_RR_PARAM_TAG_def)
  qed
  have "load_u32 (ram s') ss = NAND_RR_PARAM_TAG"
    using e [of 0] e [of 1] e [of 2] e [of 3] tag [of 0] tag [of 1] tag [of 2] tag [of 3]
    by (simp add: load_u32_def NAND_RR_PARAM_TAG_def)
  moreover have "rr_parse (ram s') (ss + 4) 0 (rr_data (host_rr (hw s'))) = take 0 (rr_data (host_rr (hw s'))) @ ?d @ drop 64 (rr_data (host_rr (hw s')))"
  proof (rule rr_parse_hex)
    fix j assume j: "j < 3 * length ?d"
    then have "ram s' (ss + (4 + j)) = ram (rr_store ss s) (ss + (4 + j))" using assms(1) by (intro e) simp
    also have "\<dots> = (concat (map rr_hex ?d) @ [0]) ! j" using j by (simp add: rr_store_def store_bytes_def assms(1))
    finally show "ram s' (ss + 4 + j) = concat (map rr_hex ?d) ! j" using j by (simp add: nth_append add.assoc)
  qed (use assms in simp_all)
  ultimately show ?thesis by (simp add: rr_load_def)
qed

definition sim_rr :: "nfc_sim hinfc_host nand_st" where
  "sim_rr = sim_state\<lparr>hw := sim_host\<lparr>host_rr := (host_rr sim_host)\<lparr>rr_data := replicate 128 0xC5\<rparr>\<rparr>\<rparr>"

lemma rr_store_load_witness:
  "load_u32 (ram (sim_state\<lparr>ram := ram (rr_store 0x5000 sim_rr)\<rparr>)) 0x5000 = NAND_RR_PARAM_TAG \<and>
    rr_data (host_rr (hw (rr_load 0x5000 (sim_state\<lparr>ram := ram (rr_store 0x5000 sim_rr)\<rparr>)))) =
      take 64 (rr_data (host_rr (hw sim_rr))) @ drop 64 (rr_data (host_rr (hw (sim_state\<lparr>ram := ram (rr_store 0x5000 sim_rr)\<rparr>))))"
  by (rule rr_store_load) (simp_all add: sim_rr_def sim_state_def sim_host_def)

section \<open>The randomizer\<close>

text \<open>The state after it has been switched on again, and steps that do not touch the control words.\<close>

definition randomizer_on :: "'c hinfc_host \<Rightarrow> 'c hinfc_host \<Rightarrow> bool" where
  "randomizer_on h h' \<longleftrightarrow> retry_keeps h h' \<and>
     NFC_CON h' = (if IS_NAND_RANDOM h then NFC_CON h OR HINFC610_CON_RANDOMIZER_EN else NFC_CON h) \<and>
     NFC_CON_ECC_NONE h' = (if IS_NAND_RANDOM h then NFC_CON_ECC_NONE h OR HINFC610_CON_RANDOMIZER_EN else NFC_CON_ECC_NONE h)"

named_theorems on_intros \<open>steps at whose end the randomizer is on\<close>

lemma on_enable [on_intros]: "retry_keeps h0 h \<Longrightarrow> randomizer_on h0 (hinfc610_enable_ecc_randomizer c b True h)"
proof -
  assume k: "retry_keeps h0 h"
  have "IS_NAND_RANDOM h = IS_NAND_RANDOM h0" using retry_keeps_flags [OF k] by (simp add: IS_NAND_RANDOM_def)
  then show ?thesis using k keeps_randomizer [OF k, of c b True] unfolding randomizer_on_def
    by (auto simp: retry_keeps_def hinfc610_enable_ecc_randomizer_def hinfc_write_def Let_def)
qed

lemma on_write [on_intros]: "randomizer_on h0 h \<Longrightarrow> randomizer_on h0 (hinfc_write c v r h)"
  using keeps_write [of h0 h c v r] by (simp add: randomizer_on_def hinfc_write_def)

lemma on_pair [on_intros]: "randomizer_on h0 h \<Longrightarrow> randomizer_on h0 (snd (x, h))"
  by simp

lemma on_let:
  fixes h :: "'c hinfc_host" and x :: u32 and xs :: "u32 list"
  shows "retry_keeps h0 h \<Longrightarrow> (\<And>h. retry_keeps h0 h \<Longrightarrow> randomizer_on h0 (snd (g h))) \<Longrightarrow> randomizer_on h0 (snd (let h = h in g h))"
    and "retry_keeps h0 (snd p) \<Longrightarrow> (\<And>v h. retry_keeps h0 h \<Longrightarrow> randomizer_on h0 (snd (k v h))) \<Longrightarrow> randomizer_on h0 (snd (let (v, h) = p in k v h))"
    and "(\<And>x. randomizer_on h0 (snd (u x))) \<Longrightarrow> randomizer_on h0 (snd (let x = x in u x))"
    and "(\<And>xs. randomizer_on h0 (snd (w xs))) \<Longrightarrow> randomizer_on h0 (snd (let xs = xs in w xs))"
  by (simp_all add: Let_def case_prod_unfold)

lemma on_end:
  "retry_keeps h0 h \<Longrightarrow> randomizer_on h0 (snd (let h = hinfc610_enable_ecc_randomizer c b True h in (x, hinfc_write c v r h)))"
  by (simp add: Let_def on_enable on_write)

lemma on_micron: "randomizer_on h (snd (hinfc610_micron_set_rr_reg c n h))"
  unfolding hinfc610_micron_set_rr_reg_def by (intro on_intros on_let retry_intros)

lemma on_samsung: "randomizer_on h (snd (hinfc610_samsung_set_rr_reg c n h))"
  unfolding hinfc610_samsung_set_rr_reg_def by (intro on_intros on_let retry_intros)

lemma on_toshiba_24nm: "randomizer_on h (snd (hinfc610_toshiba_24nm_set_rr_param c n h))"
  unfolding hinfc610_toshiba_24nm_set_rr_param_def by (intro on_end on_let retry_intros)

lemma on_toshiba_19nm: "randomizer_on h (snd (hinfc610_toshiba_19nm_set_rr_param c n h))"
  unfolding hinfc610_toshiba_19nm_set_rr_param_def set_entry_rr_flag_def by (intro on_end on_let retry_intros)

lemma on_bg_bdie: "randomizer_on h (snd (hinfc610_hynix_bg_bdie_set_rr_reg c n h))"
  unfolding hinfc610_hynix_bg_bdie_set_rr_reg_def by (intro on_intros on_let retry_intros)

lemma on_hynix: "randomizer_on h (snd (hynix_set_rr_reg c regs vals h))"
  unfolding hynix_set_rr_reg_def by (intro on_intros on_let retry_intros)

text \<open>When the settings are not sent at all: Hynix chips, for the first setting and without settings from the chip.\<close>

definition rr_skips :: "nat \<Rightarrow> nat \<Rightarrow> 'c hinfc_host \<Rightarrow> bool" where
  "rr_skips ty n h \<longleftrightarrow> ty = 0x10 \<and> n = 0 \<or>
     ty \<in> {0x11, 0x12} \<and> (n = 0 \<or> (let d = rr_data (host_rr h) in d ! 0 OR d ! 1 OR d ! 2 OR d ! 3) = 0)"

lemmas read_retry_defs = hinfc610_micron_read_retry_def hinfc610_samsung_read_retry_def hinfc610_toshiba_24nm_read_retry_def
    hinfc610_toshiba_19nm_read_retry_def hinfc610_hynix_bg_bdie_read_retry_def hinfc610_hynix_bg_cdie_read_retry_def
    hinfc610_hynix_cg_adie_read_retry_def

lemma found_cases:
  assumes "hinfc610_find_read_retry c ty = Some rr"
  obtains "ty = 0x10" "rr = hinfc610_hynix_bg_bdie_read_retry c" | "ty = 0x11" "rr = hinfc610_hynix_bg_cdie_read_retry c"
    | "ty = 0x12" "rr = hinfc610_hynix_cg_adie_read_retry c" | "ty = 0x20" "rr = hinfc610_micron_read_retry c"
    | "ty = 0x40" "rr = hinfc610_toshiba_24nm_read_retry c" | "ty = 0x41" "rr = hinfc610_toshiba_19nm_read_retry c"
    | "ty = 0x30" "rr = hinfc610_samsung_read_retry c"
  using assms by (auto simp: hinfc610_find_read_retry_def read_retry_table_def read_retry_defs split: if_splits)

text \<open>
  Each maker's function that sends the settings of a retry leaves the driver as it was but for the bus, the settings, the status of the
  page and the randomizer, which it has switched on again (on a chip that has one), and a hang of the controller; a Hynix chip whose
  settings are not known is refused, without anything being done.
\<close>

lemma set_rr_restores:
  assumes "hinfc610_find_read_retry c ty = Some rr" "set_rr_param rr n h = (r, h')"
  shows "r = (if rr_skips ty n h \<and> ty \<noteq> 0x10 then - 1 else 0) \<and> (if rr_skips ty n h then h' = h else randomizer_on h h')"
proof -
  note on = on_micron [of h c n] on_samsung [of h c n] on_toshiba_24nm [of h c n] on_toshiba_19nm [of h c n] on_bg_bdie [of h c n]
  show ?thesis using assms(1)
  proof (cases rule: found_cases)
    case 1
    then show ?thesis using assms(2) on(5)
      by (auto simp: read_retry_defs rr_skips_def hinfc610_hynix_bg_bdie_set_rr_param_def hinfc610_hynix_bg_bdie_set_rr_reg_def Let_def split: if_splits)
  next
    case 2
    then show ?thesis using assms(2) on_hynix [of h c bg_cdie_rr_reg "take 8 (drop (push_bit 3 (n AND 7)) (rr_data (host_rr h)))"]
      by (auto simp: read_retry_defs rr_skips_def hynix_set_rr_param_def hynix_set_rr_reg_def Let_def split: if_splits)
  next
    case 3
    then show ?thesis using assms(2) on_hynix [of h c cg_adie_rr_reg "take 8 (drop (push_bit 3 (n AND 7)) (rr_data (host_rr h)))"]
      by (auto simp: read_retry_defs rr_skips_def hynix_set_rr_param_def hynix_set_rr_reg_def Let_def split: if_splits)
  next
    case 4
    then show ?thesis using assms(2) on(1) by (auto simp: read_retry_defs rr_skips_def hinfc610_micron_set_rr_reg_def Let_def)
  next
    case 5
    then show ?thesis using assms(2) on(3)
      by (auto simp: read_retry_defs rr_skips_def hinfc610_toshiba_24nm_set_rr_param_def Let_def case_prod_unfold)
  next
    case 6
    then show ?thesis using assms(2) on(4)
      by (auto simp: read_retry_defs rr_skips_def hinfc610_toshiba_19nm_set_rr_param_def Let_def case_prod_unfold)
  next
    case 7
    then show ?thesis using assms(2) on(2) by (auto simp: read_retry_defs rr_skips_def hinfc610_samsung_set_rr_reg_def Let_def)
  qed
qed

text \<open>Steps that leave the control words alone.\<close>

named_theorems con_simps \<open>steps that do not change the control words\<close>

lemma con_write [con_simps]:
  "NFC_CON (hinfc_write c v r h) = NFC_CON h" "NFC_CON_ECC_NONE (hinfc_write c v r h) = NFC_CON_ECC_NONE h"
  "NFC_CON (io_writel v h) = NFC_CON h" "NFC_CON_ECC_NONE (io_writel v h) = NFC_CON_ECC_NONE h"
  by (simp_all add: hinfc_write_def io_writel_def)

lemma con_wait [con_simps]:
  "NFC_CON (wait_reg c r w t h) = NFC_CON h \<and> NFC_CON_ECC_NONE (wait_reg c r w t h) = NFC_CON_ECC_NONE h"
proof (induction t arbitrary: h)
  case 0
  then show ?case by (subst (1 2) wait_reg.simps) (simp add: hinfc_read_def PR_BUG_def Let_def case_prod_unfold)
next
  case (Suc t)
  then show ?case by (subst (1 2) wait_reg.simps) (simp add: hinfc_read_def Let_def case_prod_unfold)
qed

lemma con_send [con_simps]:
  "NFC_CON (run_op c op h) = NFC_CON h" "NFC_CON_ECC_NONE (run_op c op h) = NFC_CON_ECC_NONE h"
  "NFC_CON (send_cmd_data c cmd op av h) = NFC_CON h" "NFC_CON_ECC_NONE (send_cmd_data c cmd op av h) = NFC_CON_ECC_NONE h"
  "NFC_CON (hinfc610_send_cmd_reset c h) = NFC_CON h" "NFC_CON_ECC_NONE (hinfc610_send_cmd_reset c h) = NFC_CON_ECC_NONE h"
  by (simp_all add: run_op_def send_cmd_data_def send_cmd_def hinfc610_send_cmd_reset_def WAIT_CONTROLLER_FINISH_def con_write con_wait Let_def)

lemma con_sends [con_simps]:
  "NFC_CON (fold (send_cmd_data c cmd op) avs h) = NFC_CON h \<and> NFC_CON_ECC_NONE (fold (send_cmd_data c cmd op) avs h) = NFC_CON_ECC_NONE h"
  by (induction avs arbitrary: h) (simp_all add: con_send)

lemma con_toshiba:
  "NFC_CON (snd (hinfc610_toshiba_24nm_set_rr_reg c 0 h)) = NFC_CON h"
  "NFC_CON_ECC_NONE (snd (hinfc610_toshiba_24nm_set_rr_reg c 0 h)) = NFC_CON_ECC_NONE h"
  "NFC_CON (snd (hinfc610_toshiba_19nm_set_rr_reg c 0 h)) = NFC_CON h"
  "NFC_CON_ECC_NONE (snd (hinfc610_toshiba_19nm_set_rr_reg c 0 h)) = NFC_CON_ECC_NONE h"
  by (simp_all add: hinfc610_toshiba_24nm_set_rr_reg_def hinfc610_toshiba_19nm_set_rr_reg_def Let_def con_simps)

lemma off_enable:
  assumes "retry_keeps h0 h" and h'_def: "h' = hinfc610_enable_ecc_randomizer c b False h"
  shows "NFC_CON h' = (if IS_NAND_RANDOM h0 then NFC_CON h0 AND NOT HINFC610_CON_RANDOMIZER_EN else NFC_CON h0)"
    "NFC_CON_ECC_NONE h' = (if IS_NAND_RANDOM h0 then NFC_CON_ECC_NONE h0 AND NOT HINFC610_CON_RANDOMIZER_EN else NFC_CON_ECC_NONE h0)"
proof -
  have r: "IS_NAND_RANDOM h = IS_NAND_RANDOM h0" using retry_keeps_flags [OF assms(1)] by (simp add: IS_NAND_RANDOM_def)
  have e: "x AND NOT 0x4000 = y AND NOT 0x4000" if "x OR 0x4000 = y OR (0x4000 :: u32)" for x y
  proof -
    have "x AND NOT 0x4000 = (x OR 0x4000) AND NOT 0x4000" by (rule bit_word_eqI) (auto simp: bit_simps)
    also have "\<dots> = y AND NOT 0x4000" unfolding that by (rule bit_word_eqI) (auto simp: bit_simps)
    finally show ?thesis .
  qed
  have k: "NFC_CON h OR 0x4000 = NFC_CON h0 OR 0x4000" "NFC_CON_ECC_NONE h OR 0x4000 = NFC_CON_ECC_NONE h0 OR 0x4000"
    "\<not> IS_NAND_RANDOM h0 \<longrightarrow> NFC_CON h = NFC_CON h0 \<and> NFC_CON_ECC_NONE h = NFC_CON_ECC_NONE h0"
    using assms(1) by (simp_all add: retry_keeps_def)
  show "NFC_CON h' = (if IS_NAND_RANDOM h0 then NFC_CON h0 AND NOT HINFC610_CON_RANDOMIZER_EN else NFC_CON h0)"
    "NFC_CON_ECC_NONE h' = (if IS_NAND_RANDOM h0 then NFC_CON_ECC_NONE h0 AND NOT HINFC610_CON_RANDOMIZER_EN else NFC_CON_ECC_NONE h0)"
    using k(3) e [OF k(1)] e [OF k(2)] r by (simp_all add: h'_def hinfc610_enable_ecc_randomizer_def hinfc_write_def Let_def)
qed

text \<open>The state after a page has been read again.\<close>

lemma do_read_retry_keeps:
  assumes "hinfc610_find_read_retry c' ty = Some rr" "h' = hinfc610_do_read_retry c rr h"
  shows "h'\<lparr>bus := bus h, host_rr := host_rr h, page_status := page_status h, NFC_CON := NFC_CON h, NFC_CON_ECC_NONE := NFC_CON_ECC_NONE h,
      stuck := stuck h\<rparr> = h \<and> (stuck h \<longrightarrow> stuck h') \<and>
    (if \<not> IS_NAND_RANDOM h then NFC_CON h' = NFC_CON h \<and> NFC_CON_ECC_NONE h' = NFC_CON_ECC_NONE h
     else if ty \<in> {0x20, 0x30}
     then NFC_CON h' = NFC_CON h OR HINFC610_CON_RANDOMIZER_EN \<and> NFC_CON_ECC_NONE h' = NFC_CON_ECC_NONE h OR HINFC610_CON_RANDOMIZER_EN
     else NFC_CON h' = NFC_CON h AND NOT HINFC610_CON_RANDOMIZER_EN \<and>
       NFC_CON_ECC_NONE h' = NFC_CON_ECC_NONE h AND NOT HINFC610_CON_RANDOMIZER_EN)"
proof -
  have k: "retry_keeps h h'" unfolding assms(2) by (rule keeps_do_retry [OF assms(1)])
  define l where "l = read_retry_loop c rr [1 ..< rr_count rr] h"
  define h1 where "h1 = hinfc610_enable_ecc_randomizer c False False l"
  have l: "retry_keeps h l" unfolding l_def by (rule keeps_retry_loop [OF assms(1) retry_keeps_refl])
  have h1: "retry_keeps h h1" unfolding h1_def by (rule keeps_randomizer [OF l])
  have h': "h' = snd (reset_rr_param rr h1)" by (simp add: assms(2) hinfc610_do_read_retry_def l_def h1_def Let_def)
  have r: "IS_NAND_RANDOM h1 = IS_NAND_RANDOM h" using retry_keeps_flags [OF h1] by (simp add: IS_NAND_RANDOM_def)
  note off = off_enable [OF l h1_def]
  have "if ty \<in> {0x20, 0x30} then randomizer_on h1 h' else NFC_CON h' = NFC_CON h1 \<and> NFC_CON_ECC_NONE h' = NFC_CON_ECC_NONE h1"
    using assms(1) unfolding h'
    by (cases rule: found_cases) (simp_all add: read_retry_defs on_micron on_samsung con_toshiba hinfc610_hynix_bg_bdie_set_rr_param_def hynix_set_rr_param_def Let_def)
  moreover have "NFC_CON h1 OR 0x4000 = NFC_CON h OR 0x4000" "NFC_CON_ECC_NONE h1 OR 0x4000 = NFC_CON_ECC_NONE h OR 0x4000"
    using h1 by (simp_all add: retry_keeps_def)
  ultimately show ?thesis using k off r by (auto simp: retry_keeps_def randomizer_on_def split: if_splits)
qed

text \<open>
  C24: Reading a page again, with the functions of whichever maker is found.  Each of them that sends settings reports success and
  switches the randomizer on again (on a chip that has one), but for Hynix chips for the setting 0 or without settings of their own, where it does nothing (\<open>rr_skips\<close>)
  and two of the three kinds report a failure.  After the whole retry the driver is as it was but for the bus, the settings, the status of the page,
  the randomizer bit of the control words and whether it hangs (when the controller does not end an operation; a driver that hung still
  hangs).  That bit is on afterwards for Micron and Samsung, whose reset of the settings sends them; for the others it is off, until the
  next command sets it.
\<close>

theorem read_retry_keeps:
  assumes "hinfc610_find_read_retry c' ty = Some rr" "h' = hinfc610_do_read_retry c rr h" "(r, h1) = set_rr_param rr n h"
  shows "r = (if rr_skips ty n h \<and> ty \<noteq> 0x10 then - 1 else 0) \<and> (if rr_skips ty n h then h1 = h else randomizer_on h h1) \<and>
    h'\<lparr>bus := bus h, host_rr := host_rr h, page_status := page_status h, NFC_CON := NFC_CON h, NFC_CON_ECC_NONE := NFC_CON_ECC_NONE h,
      stuck := stuck h\<rparr> = h \<and> (stuck h \<longrightarrow> stuck h') \<and>
    (if \<not> IS_NAND_RANDOM h then NFC_CON h' = NFC_CON h \<and> NFC_CON_ECC_NONE h' = NFC_CON_ECC_NONE h
     else if ty \<in> {0x20, 0x30}
     then NFC_CON h' = NFC_CON h OR HINFC610_CON_RANDOMIZER_EN \<and> NFC_CON_ECC_NONE h' = NFC_CON_ECC_NONE h OR HINFC610_CON_RANDOMIZER_EN
     else NFC_CON h' = NFC_CON h AND NOT HINFC610_CON_RANDOMIZER_EN \<and>
       NFC_CON_ECC_NONE h' = NFC_CON_ECC_NONE h AND NOT HINFC610_CON_RANDOMIZER_EN)"
  using set_rr_restores [OF assms(1) assms(3) [symmetric]] do_read_retry_keeps [OF assms(1,2)] by blast

section \<open>Instances\<close>

text \<open>A chip with a randomizer, with a page that could not be corrected.\<close>

definition sim_random :: "nfc_sim hinfc_host" where
  "sim_random = sim_host\<lparr>host_flags := 0x10, page_status := 1\<rparr>"

lemma sim_random: "IS_NAND_RANDOM sim_random" "NFC_CON sim_random = sim_con" "NFC_CON_ECC_NONE sim_random = 0x103"
  by (simp_all add: sim_random_def IS_NAND_RANDOM_def sim_host_def)

lemma sim_found:
  "hinfc610_find_read_retry sim_cfg 0x41 = Some (hinfc610_toshiba_19nm_read_retry sim_cfg)"
  "hinfc610_find_read_retry sim_cfg 0x20 = Some (hinfc610_micron_read_retry sim_cfg)"
  by (simp_all add: hinfc610_find_read_retry_def read_retry_table_def read_retry_defs)

lemma read_retry_keeps_witness:
  "NFC_CON (hinfc610_do_read_retry sim_cfg (hinfc610_micron_read_retry sim_cfg) sim_random) = 0x4303 \<and>
    NFC_CON (hinfc610_do_read_retry sim_cfg (hinfc610_toshiba_19nm_read_retry sim_cfg) sim_random) = 0x303 \<and>
    fst (set_rr_param (hinfc610_toshiba_19nm_read_retry sim_cfg) 4 sim_random) = 0 \<and>
    randomizer_on sim_random (snd (set_rr_param (hinfc610_toshiba_19nm_read_retry sim_cfg) 4 sim_random))"
  using read_retry_keeps [OF sim_found(1) refl prod.collapse, where n = 4 and h = sim_random and c = sim_cfg]
    read_retry_keeps [OF sim_found(2) refl prod.collapse, where n = 4 and h = sim_random and c = sim_cfg]
  by (simp add: sim_random rr_skips_def)

end
