(* ===== verification/Spec2Isabelle.thy ===== *)
theory Spec2Isabelle
  imports NandEcc NandUtil NandScan NandIdent NandCommand NandLogif CmdNand BbtProps EwProps NandUtilProps MtdDev
    NandDriver NandDevice HinfcTab Hinfc610 Hinfc610Init HinfcDriver HinfcStack NfcSim StackProps HinfcProps InitProps DeviceProps LogifStack IdentProps HinfcIdent BbtFlash CmdProps Crc32 NvStack RetryProps
begin

text \<open>
  A verification library for the boot loader \<open>src/fastboot_hi3716mv310\<close> (a U-Boot of HiSilicon for the Hi3716M V310) as far as it makes
  up the NAND burn-in tester: the command that erases, writes and compares a chip over and over, and everything below it, down
  to the registers of the NAND flash controller V610.

  \<^bold>\<open>The program.\<close>  From the top: the commands of \<open>common/cmd_nand.c\<close> (\<open>nand ew\<close> is the test) call the functions of
  \<open>drivers/mtd/nand/nand_util.c\<close>, which step over bad blocks; these use a device, \<open>struct mtd_info\<close>, whose operations are those of
  \<open>nand_base.c\<close> (pages, spare bytes, erasing, bad blocks) with \<open>nand_bbt.c\<close> (table of bad blocks) and \<open>nand_ecc.c\<close> (error
  correction in software); these use a chip, \<open>struct nand_chip\<close>, whose functions are those of \<open>hinfc610.c\<close> and its tables.  Beside
  the utilities there are two other clients of a device: \<open>common/nand_logif.c\<close>, partitions without holes, and \<open>common/env_nand.c\<close>,
  where the variables of the loader (\<open>common/cmd_nvedit.c\<close>) are stored.  The device itself is built by the scan: \<open>nand_scan_ident\<close> asks the chip for its id and finds its sizes in tables,
  \<open>nand_scan_tail\<close> chooses the functions.

  \<^bold>\<open>The state.\<close>  \<open>Mtd.nand_st\<close> is all that the code may change: the memory, the mutable fields of \<open>struct nand_chip\<close> and
  \<open>struct mtd_info\<close>, and \<open>hw\<close>, the hardware with its driver's data, of a type that is a parameter (for the controller it is
  \<open>hinfc_host\<close>: the fields of \<open>struct hinfc_host\<close> and the bus).  \<open>mtd_info\<close> and \<open>nand_hw\<close> hold what is fixed after the scan, function
  pointers among it.  A C function takes the state and gives \<open>Some (result, state)\<close>; \<open>None\<close> is a loop that does not end, or a
  \<open>PR_BUG\<close>, which prints and never returns.  Words have the width of the C type wherever they may wrap around.  Only those lines of the
  console are kept that the burn-in test reports its findings in (\<open>CmdNand.event\<close>).

  \<^bold>\<open>Theories of the model, in the order of the layers.\<close>
  \<^item> \<open>Prelude\<close>, \<open>Mtd\<close>: names of types, memory, alignment; the structures of the headers.
  \<^item> \<open>NandEcc\<close>: \<open>nand_ecc.c\<close>.  \<open>NandPage\<close>, \<open>NandBase\<close>, \<open>NandBbt\<close>: \<open>nand_base.c\<close> and \<open>nand_bbt.c\<close>.
  \<^item> \<open>NandScan\<close>, \<open>NandIdent\<close>, \<open>NandCommand\<close>: the scan, the id tables (\<open>nand_ids.c\<close>, \<open>nand_spl_ids.c\<close>), the bus commands.
  \<^item> \<open>HinfcGen\<close>, \<open>HinfcTab\<close>, \<open>Hinfc610\<close>, \<open>Hinfc610Init\<close>, \<open>HinfcIdent\<close>: \<open>hinfc_gen.c\<close>, \<open>lib/match_table.c\<close>, the tables and the driver of the
    controller, its set-up, its part in the identification.
  \<^item> \<open>NandUtil\<close>, \<open>NandLogif\<close>, \<open>CmdNand\<close>: \<open>nand_util.c\<close>, \<open>nand_logif.c\<close>, \<open>cmd_nand.c\<close> (with the number parsers of \<open>lib/vsprintf.c\<close>).
  \<^item> \<open>Crc32\<close>: \<open>lib/crc32.c\<close>.  \<open>EnvNand\<close>: \<open>env_nand.c\<close>, \<open>env_common.c\<close>, \<open>env_common_func.c\<close> and the command \<open>saveenv\<close>.
    \<open>NvEdit\<close>: \<open>cmd_nvedit.c\<close>.
  \<^item> \<open>HinfcRetry\<close>: what the driver does to the chips of certain makers, \<open>hinfc610_read_retry*.c\<close> and \<open>hinfc610_sync*.c\<close>; its tables are what
    \<open>read_retry\<close> and \<open>sync\<close> of \<open>hinfc_cfg\<close> are taken from.

  \<^bold>\<open>Interfaces.\<close>  Each layer relies on a contract, a locale, that the layer below is proved to keep.
  \<^item> \<open>MtdDev.mtd_dev\<close> is an abstract flash device: bytes (\<open>flash\<close>), bad blocks (\<open>bad\<close>), an invariant.  Writing clears bits, erasing
    makes blank, both may fail, and then spoil no more than they were asked to change.  \<open>mtd_reliable\<close>: nothing fails.
    \<open>NandUtilProps\<close>, \<open>EwProps\<close>, \<open>NandLogifProps\<close>, \<open>EnvProps\<close> prove the clients inside it.
  \<^item> \<open>NandDriver.nand_driver\<close> is an abstract driver of a chip, a state machine of commands, data and status.  \<open>NandDevice.nand_device\<close>
    adds the geometry and proves (\<open>sublocale\<close>) that the device which the scan builds keeps \<open>mtd_dev\<close>.
  \<^item> \<open>HinfcDriver.nfc_controller\<close> is the controller: what reads and writes of its registers do, as its register definitions tell.
    \<open>hinfc_device\<close> proves that the driver over it keeps \<open>nand_driver\<close>; \<open>HinfcStack.hinfc_stack\<close> puts all of it together and tells the
    invariant, the bytes and the bad blocks in terms of the model only.
  \<^item> \<open>IdentProps.id_chip\<close> is a chip that answers the read of its id; \<open>HinfcIdent.nfc_id_controller\<close> proves it for the driver.
  The controller is hardware, not code of the repository: \<open>nfc_controller\<close> is the hypothesis of the properties of the whole stack.
  \<open>NfcSim\<close> has a controller and a chip of 16 blocks, one of them bad, that fulfil it (\<open>interpretation sim\<close>, \<open>id_nfc\<close>); the properties are
  instantiated there.

  \<^bold>\<open>Theories of properties.\<close>
  \<^item> \<open>StackProps\<close>: the burn-in test, the utilities and erasing over the whole stack.  \<open>DeviceProps\<close>: the two refinements (driver and
    device), marking bad blocks and listing them.  \<open>LogifStack\<close>: partitions over the whole stack.
  \<^item> \<open>InitProps\<close>, \<open>HinfcProps\<close>: the set-up of the controller reaches the state that the stack starts from; tables, ECC choice, counters,
    waiting.  \<open>IdentProps\<close>, \<open>HinfcIdent\<close>: the tables of chips and the scan.
  \<^item> \<open>NandEcc\<close>: what the software ECC corrects and detects.  \<open>BbtProps\<close>, \<open>BbtFlash\<close>: the table of bad blocks in memory and in flash.
    \<open>CmdProps\<close>: the arguments of the command.
  \<^item> \<open>Crc32\<close>: the table and the reading of whole words give the division bit by bit; damage within four bytes changes the checksum.
    \<open>EnvProps\<close>: the saved variables are those that are loaded, and damage to them is found.
    \<open>NvProps\<close>: the area of the variables stands for a map, which \<open>setenv\<close> changes and \<open>getenv\<close> reads.  \<open>NvStack\<close>: the map survives a restart.
  \<^item> \<open>RetryProps\<close>: reading again keeps the state of the driver; the best copy of the settings is taken, and what is stored of them is read back.

  \<^bold>\<open>Loops, bounds and fuel.\<close>  No fuel is chosen anywhere.  Loops of the source that may not end are \<open>partial_function (option)\<close>; that they
  return is part of what the laws state (\<open>Some\<close>), for the burn-in test too, whatever fails.  The waits of the driver count down
  their time-out from \<open>0xF0000000\<close>, or end with \<open>PR_BUG\<close>; that an operation of the controller ends before is a law of
  \<open>nfc_controller\<close> (\<open>busy\<close> is the number of reads until it shows the end).  The device is smaller than \<open>2 ^ 62\<close> bytes, buffers do
  not overlap the driver's memory.

  \<^bold>\<open>Not modelled.\<close>
  \<^item> What goes to the console, but for the events of the test and what \<open>printenv\<close> lists, and the keyboard but for what stops the test; \<open>kmalloc\<close> (its result is a
    parameter), \<open>free\<close>, watchdog and delays.
  \<^item> What is not compiled for this board: the other controllers (\<open>hinfc300.c\<close>, \<open>hinfc301.c\<close>, \<open>hinfc504.c\<close>, \<open>hisfc400\<close>), the lock commands, \<open>cmd_mtdparts.c\<close>,
    the museum ids.
  \<^item> The variants of the variables that are not configured: a backup and a redundant area, \<open>askenv\<close>, \<open>editenv\<close>, \<open>forceenv\<close>, \<open>run\<close>, read-only variables.
    The console, the serial line and the keyboard that \<open>setenv\<close> may reach for are parameters (\<open>nv_cfg\<close>).
  \<^item> In \<open>hinfc610_param_adjust\<close> the call of \<open>hinfc610_get_sync_info\<close>; reading and writing SPI flash is a parameter of \<open>hinfc610_nand_rr_param_init\<close>.
    The stack is proved for chips without randomizer and so without read retry (\<open>read_retry c = None\<close>); of the read retry \<open>RetryProps\<close> tells what it keeps.
    The set-up gives the chips of other makers than Toshiba, Samsung, Hynix and Micron the test for bad blocks \<open>hinfc610_nand_block_bad\<close>
    (\<open>block_bad_fn\<close>, set by \<open>hinfc610_adjust\<close>, put in by \<open>scan_chip\<close>); the stack is proved for chips with the default one (\<open>block_bad_fn d = None\<close>).
  \<^item> The count of the burn-in test is stored as eight bytes into an \<open>int\<close>.  What the four bytes behind it hold is decided by the compiler and is a
    parameter (\<open>ce_behind\<close>), a change of the variables of the test in \<open>ew_locals\<close>; a layout with a pointer, an argument or a saved register there is
    not covered.
  \<^item> The rest of U-Boot (shell, network, USB, MMC, file systems, SPI flash, start-up in assembler) and the Qt program
    \<open>nand_burnin_src\<close>, which is C++ and talks to the loader over a serial line: none of it takes part in the test on the target.
\<close>

end
